(* ===== verification/Prelude.thy ===== *)
theory Prelude imports Main "HOL-Library.AList" begin

text \<open>
  Shared vocabulary of the development: the values a Python operation can end with (a result or
  a raised exception), dictionaries as association lists that keep insertion order, SQL tables as
  row lists, and the machine contracts (locales) that the stateful components satisfy.
\<close>

section \<open>Raised exceptions and results\<close>

text \<open>
  A call either returns (\<open>Inr\<close>) or raises (\<open>Inl\<close>).  The exception keeps its class and, where
  the program builds one, its message, because the jury aggregator stores messages.  The last two are
  subclasses of \<open>ValueError\<close> of the program's own: a refused HTTP request (status, code, message) and a
  refused agent request (message, code).
\<close>

datatype py_error =
    ValueError string
  | TypeError string
  | KeyError string
  | PermissionError string
  | RuntimeError string
  | AttributeError string
  | OverflowError
  | IntegrityError string
  | InterfaceError string
  | OSError string
  | ServiceInputError nat string string
  | AgentRequestError string string

type_synonym 'a result = "py_error + 'a"

text \<open>Sequencing: the first exception wins.\<close>

definition rbind :: "'a result \<Rightarrow> ('a \<Rightarrow> 'b result) \<Rightarrow> 'b result" where
  "rbind m f = (case m of Inl e \<Rightarrow> Inl e | Inr x \<Rightarrow> f x)"

text \<open>\<open>require c e k\<close> is Python's \<open>if not c: raise e\<close> followed by \<open>k\<close>.\<close>

definition require :: "bool \<Rightarrow> py_error \<Rightarrow> 'a result \<Rightarrow> 'a result" where
  "require c e k = (if c then k else Inl e)"

named_theorems result_simps
named_theorems model_defs

lemma rbind_simps [simp]:
  "rbind (Inl e) f = Inl e"
  "rbind (Inr x) f = f x"
  by (simp_all add: rbind_def)

lemma rbind_eq_Inr [result_simps]: "rbind m f = Inr y \<longleftrightarrow> (\<exists>x. m = Inr x \<and> f x = Inr y)"
  by (cases m) simp_all

lemma rbind_eq_Inl [result_simps]:
  "rbind m f = Inl e \<longleftrightarrow> m = Inl e \<or> (\<exists>x. m = Inr x \<and> f x = Inl e)"
  by (cases m) simp_all

lemma require_simps [simp]:
  "require True e k = k"
  "require False e k = Inl e"
  by (simp_all add: require_def)

lemma require_eq_Inr [result_simps]: "require c e k = Inr y \<longleftrightarrow> c \<and> k = Inr y"
  by (simp add: require_def)

lemma require_eq_Inl [result_simps]: "require c e k = Inl d \<longleftrightarrow> (\<not> c \<and> d = e) \<or> (c \<and> k = Inl d)"
  by (auto simp: require_def)

text \<open>Python's \<open>[f(x) for x in xs]\<close> where \<open>f\<close> may raise.\<close>

fun rmap :: "('a \<Rightarrow> 'b result) \<Rightarrow> 'a list \<Rightarrow> 'b list result" where
  "rmap f [] = Inr []"
| "rmap f (x # xs) = rbind (f x) (\<lambda>y. rbind (rmap f xs) (\<lambda>ys. Inr (y # ys)))"

lemma rmap_Inr_iff: "rmap f xs = Inr ys \<longleftrightarrow> list_all2 (\<lambda>x y. f x = Inr y) xs ys"
  by (induction xs arbitrary: ys) (auto simp: result_simps list_all2_Cons1)

text \<open>
  A write transaction: the body runs on the state; an exception rolls everything back.
\<close>

definition write_txn :: "('s \<Rightarrow> ('a \<times> 's) result) \<Rightarrow> 's \<Rightarrow> 'a result \<times> 's" where
  "write_txn body s = (case body s of Inl e \<Rightarrow> (Inl e, s) | Inr (a, s') \<Rightarrow> (Inr a, s'))"

lemma write_txn_snd:
  "snd (write_txn body s) = (case body s of Inl e \<Rightarrow> s | Inr r \<Rightarrow> snd r)"
  by (auto simp: write_txn_def split: sum.split prod.split)

lemma write_txn_fst: "fst (write_txn body s) = (case body s of Inl e \<Rightarrow> Inl e | Inr r \<Rightarrow> Inr (fst r))"
  by (auto simp: write_txn_def split: sum.split prod.split)

lemma write_txn_eq: "write_txn body s = (Inr a, s') \<longleftrightarrow> body s = Inr (a, s')"
  by (cases "body s") (auto simp: write_txn_def split: prod.split)

lemma write_txn_Inr: "body s = Inr (a, s') \<Longrightarrow> write_txn body s = (Inr a, s')"
  by (simp add: write_txn_def)

text \<open>
  Code that changes a state and may raise half way: the changes made before the exception stay.
\<close>

type_synonym ('s, 'a) action = "'s \<Rightarrow> 'a result \<times> 's"

definition sreturn :: "'a \<Rightarrow> ('s, 'a) action" where
  "sreturn x s = (Inr x, s)"

definition sraise :: "py_error \<Rightarrow> ('s, 'a) action" where
  "sraise e s = (Inl e, s)"

definition sbind :: "('s, 'a) action \<Rightarrow> ('a \<Rightarrow> ('s, 'b) action) \<Rightarrow> ('s, 'b) action" where
  "sbind m f s = (case m s of (Inl e, s') \<Rightarrow> (Inl e, s') | (Inr x, s') \<Rightarrow> f x s')"

definition sresult :: "'a result \<Rightarrow> ('s, 'a) action" where
  "sresult r s = (r, s)"

lemma saction_simps [simp]:
  "sreturn x s = (Inr x, s)" "sraise e s = (Inl e, s)" "sresult r s = (r, s)"
  by (simp_all add: sreturn_def sraise_def sresult_def)

lemma sbind_eq_Inr:
  "sbind m f s = (Inr y, s') \<longleftrightarrow> (\<exists>x t. m s = (Inr x, t) \<and> f x t = (Inr y, s'))"
  by (auto simp: sbind_def split: prod.splits sum.splits)

text \<open>A reflexive and transitive relation that every part of an action respects.\<close>

definition keeps :: "('s \<Rightarrow> 's \<Rightarrow> bool) \<Rightarrow> ('s, 'a) action \<Rightarrow> bool" where
  "keeps R m \<longleftrightarrow> (\<forall>s. R s (snd (m s)))"

lemma keeps_sbind:
  assumes "transp R" and "keeps R m" and "\<And>x. keeps R (f x)"
  shows "keeps R (sbind m f)"
proof -
  have "R s (snd (sbind m f s))" for s
  proof (cases "m s")
    case (Pair r s')
    then have "R s s'" using assms(2) by (metis keeps_def snd_conv)
    then show ?thesis
      using Pair assms(1,3) by (cases r) (auto simp: sbind_def keeps_def dest: transpD)
  qed
  then show ?thesis by (simp add: keeps_def)
qed

lemma keeps_pure:
  assumes "reflp R"
  shows "keeps R (sreturn x)" "keeps R (sraise e)" "keeps R (sresult r)" "keeps R (Pair r)"
  using assms by (simp_all add: keeps_def reflpD)

section \<open>Dictionaries\<close>

text \<open>
  A \<open>dict\<close> keeps insertion order and overwrites in place, which is exactly what
  \<open>AList.update\<close> does on an association list.
\<close>

type_synonym ('k, 'v) dict = "('k \<times> 'v) list"

abbreviation dict_get :: "('k, 'v) dict \<Rightarrow> 'k \<Rightarrow> 'v option" where
  "dict_get d k \<equiv> map_of d k"

abbreviation dict_set :: "'k \<Rightarrow> 'v \<Rightarrow> ('k, 'v) dict \<Rightarrow> ('k, 'v) dict" where
  "dict_set \<equiv> AList.update"

abbreviation dict_values :: "('k, 'v) dict \<Rightarrow> 'v list" where
  "dict_values d \<equiv> map snd d"

definition wf_dict :: "('k, 'v) dict \<Rightarrow> bool" where
  "wf_dict d \<longleftrightarrow> distinct (map fst d)"

lemma wf_dict_Nil [simp]: "wf_dict []"
  by (simp add: wf_dict_def)

lemma wf_dict_set [simp]: "wf_dict d \<Longrightarrow> wf_dict (dict_set k v d)"
  by (simp add: wf_dict_def distinct_update)

lemma dict_get_set: "dict_get (dict_set k v d) j = (if j = k then Some v else dict_get d j)"
  by (simp add: update_conv')

lemma dict_set_fresh: "dict_get d k = None \<Longrightarrow> dict_set k v d = d @ [(k, v)]"
  by (induction d) (auto split: if_splits)

text \<open>Overwriting a present key moves any additive measure of the values by the difference.\<close>

lemma sum_dict_update:
  fixes w :: "'v \<Rightarrow> 'n::ab_group_add"
  shows "dict_get d k = Some u \<Longrightarrow> sum_list (map w (dict_values (dict_set k v d)))
         = sum_list (map w (dict_values d)) - w u + w v"
proof (induction d)
  case (Cons p d)
  then show ?case by (cases p) (auto split: if_splits)
qed simp

lemma sum_dict_set:
  fixes w :: "'v \<Rightarrow> 'n::ab_group_add"
  assumes "wf_dict d" and "dict_get d k = Some u"
  shows "sum_list (map w (dict_values (dict_set k v d)))
         = sum_list (map w (dict_values d)) - w u + w v"
  using assms(2) by (rule sum_dict_update)

lemma sum_dict_fresh:
  fixes w :: "'v \<Rightarrow> 'n::comm_monoid_add"
  shows "dict_get d k = None \<Longrightarrow>
    sum_list (map w (dict_values (dict_set k v d))) = sum_list (map w (dict_values d)) + w v"
  by (simp add: dict_set_fresh)

lemma dict_values_get: "wf_dict d \<Longrightarrow> v \<in> set (dict_values d) \<longleftrightarrow> (\<exists>k. dict_get d k = Some v)"
  by (force simp: wf_dict_def intro: map_of_is_SomeI dest: map_of_SomeD)

section \<open>Tables\<close>

text \<open>
  A table is the list of its rows in insertion order.  \<open>row_where\<close> is \<open>SELECT ... fetchone()\<close>,
  \<open>rows_where\<close> is \<open>fetchall()\<close>, \<open>update_where\<close> and \<open>delete_where\<close> are the statements, and
  \<open>count_where\<close> is their \<open>rowcount\<close>.
\<close>

definition row_where :: "('r \<Rightarrow> bool) \<Rightarrow> 'r list \<Rightarrow> 'r option" where
  "row_where p rows = find p rows"

definition rows_where :: "('r \<Rightarrow> bool) \<Rightarrow> 'r list \<Rightarrow> 'r list" where
  "rows_where p rows = filter p rows"

definition update_where :: "('r \<Rightarrow> bool) \<Rightarrow> ('r \<Rightarrow> 'r) \<Rightarrow> 'r list \<Rightarrow> 'r list" where
  "update_where p f rows = map (\<lambda>r. if p r then f r else r) rows"

definition delete_where :: "('r \<Rightarrow> bool) \<Rightarrow> 'r list \<Rightarrow> 'r list" where
  "delete_where p rows = filter (\<lambda>r. \<not> p r) rows"

definition count_where :: "('r \<Rightarrow> bool) \<Rightarrow> 'r list \<Rightarrow> nat" where
  "count_where p rows = length (filter p rows)"

text \<open>\<open>PRIMARY KEY\<close> and \<open>UNIQUE\<close>: no two rows share the key.\<close>

definition unique_on :: "('r \<Rightarrow> 'k) \<Rightarrow> 'r list \<Rightarrow> bool" where
  "unique_on key rows \<longleftrightarrow> distinct (map key rows)"

lemma row_where_Some: "row_where p rows = Some r \<Longrightarrow> r \<in> set rows \<and> p r"
  by (auto simp: row_where_def find_Some_iff)

lemma row_where_None: "row_where p rows = None \<longleftrightarrow> (\<forall>r\<in>set rows. \<not> p r)"
  by (auto simp: row_where_def find_None_iff)

lemma row_where_append:
  "row_where p (xs @ ys) = (case row_where p xs of Some r \<Rightarrow> Some r | None \<Rightarrow> row_where p ys)"
  by (induction xs) (auto simp: row_where_def)

lemma row_where_simps [simp]:
  "row_where p [] = None"
  "row_where p (r # rows) = (if p r then Some r else row_where p rows)"
  by (simp_all add: row_where_def)

lemma row_where_update:
  "(\<And>r. p (f r) = p r) \<Longrightarrow>
    row_where p (update_where q f rows)
    = map_option (\<lambda>r. if q r then f r else r) (row_where p rows)"
  by (induction rows) (auto simp: row_where_def update_where_def)

lemma row_where_unique:
  "unique_on key rows \<Longrightarrow> r \<in> set rows \<Longrightarrow> row_where (\<lambda>x. key x = key r) rows = Some r"
  by (induction rows) (auto simp: row_where_def unique_on_def image_iff)

lemma unique_on_Nil [simp]: "unique_on key []"
  by (simp add: unique_on_def)

lemma unique_on_snoc:
  "unique_on key (rows @ [r]) \<longleftrightarrow> unique_on key rows \<and> row_where (\<lambda>x. key x = key r) rows = None"
  by (auto simp: unique_on_def row_where_None image_iff)

lemma unique_on_update:
  "(\<And>r. key (f r) = key r) \<Longrightarrow> unique_on key (update_where p f rows) = unique_on key rows"
  by (simp add: unique_on_def update_where_def comp_def if_distrib cong: if_cong)

lemma unique_on_delete: "unique_on key rows \<Longrightarrow> unique_on key (delete_where p rows)"
  by (simp add: unique_on_def delete_where_def distinct_map_filter)

lemma unique_onD:
  "unique_on key rows \<Longrightarrow> r \<in> set rows \<Longrightarrow> r' \<in> set rows \<Longrightarrow> key r = key r' \<Longrightarrow> r = r'"
  by (auto simp: unique_on_def distinct_map dest: inj_onD)

lemma set_update_where:
  "set (update_where p f rows) = (\<lambda>r. if p r then f r else r) ` set rows"
  by (simp add: update_where_def)

lemma set_delete_where: "set (delete_where p rows) = {r \<in> set rows. \<not> p r}"
  by (auto simp: delete_where_def)

lemma set_rows_where: "set (rows_where p rows) = {r \<in> set rows. p r}"
  by (auto simp: rows_where_def)

lemma count_where_zero: "count_where p rows = 0 \<longleftrightarrow> (\<forall>r\<in>set rows. \<not> p r)"
  by (auto simp: count_where_def filter_empty_conv)

lemma count_where_unique:
  "unique_on key rows \<Longrightarrow> count_where (\<lambda>r. key r = k) rows \<le> 1"
proof (induction rows)
  case Nil
  then show ?case by (simp add: count_where_def)
next
  case (Cons r rows)
  show ?case
  proof (cases "key r = k")
    case True
    with Cons.prems have "\<forall>x\<in>set rows. key x \<noteq> k"
      by (auto simp: unique_on_def image_iff)
    then have "count_where (\<lambda>r. key r = k) rows = 0" by (simp add: count_where_zero)
    with True show ?thesis by (simp add: count_where_def)
  next
    case False
    with Cons show ?thesis by (simp add: count_where_def unique_on_def)
  qed
qed

lemma sum_rows_where:
  fixes w :: "'r \<Rightarrow> 'n::comm_monoid_add"
  shows "sum_list (map w (rows_where p rows)) = sum_list (map (\<lambda>r. if p r then w r else 0) rows)"
  by (induction rows) (auto simp: rows_where_def)

text \<open>Updating the one row that a statement selects moves an additive measure by the difference.\<close>

lemma sum_update_none:
  fixes w :: "'r \<Rightarrow> 'n::comm_monoid_add"
  shows "\<forall>r\<in>set rows. \<not> p r \<Longrightarrow> sum_list (map w (update_where p f rows)) = sum_list (map w rows)"
  by (induction rows) (auto simp: update_where_def)

lemma sum_update_where:
  fixes w :: "'r \<Rightarrow> 'n::ab_group_add"
  assumes "unique_on key rows" and "r \<in> set rows" and "p r"
    and "\<And>c. c \<in> set rows \<Longrightarrow> p c \<Longrightarrow> key c = key r"
  shows "sum_list (map w (update_where p f rows)) = sum_list (map w rows) - w r + w (f r)"
  using assms
proof (induction rows)
  case Nil
  then show ?case by simp
next
  case (Cons c rows)
  have u: "unique_on key rows" using Cons.prems(1) by (simp add: unique_on_def)
  show ?case
  proof (cases "c = r")
    case True
    have "\<forall>x\<in>set rows. \<not> p x"
    proof
      fix x assume x: "x \<in> set rows"
      then have "key x \<noteq> key c" using Cons.prems(1) by (auto simp: unique_on_def image_iff)
      with True x Cons.prems(4) [of x] show "\<not> p x" by auto
    qed
    with True Cons.prems(3) sum_update_none [of rows p w f] show ?thesis
      by (simp add: update_where_def)
  next
    case False
    with Cons.prems(2) have r: "r \<in> set rows" by simp
    have "\<not> p c"
      using Cons.prems(1,4) r by (force simp: unique_on_def image_iff)
    moreover have "sum_list (map w (update_where p f rows)) = sum_list (map w rows) - w r + w (f r)"
      using Cons.IH [OF u r Cons.prems(3)] Cons.prems(4) by simp
    ultimately show ?thesis by (simp add: update_where_def)
  qed
qed

lemmas table_sets = set_update_where set_delete_where set_rows_where

section \<open>Machine contracts\<close>

text \<open>
  A component is a state and a step per public operation.  \<open>invariant_machine\<close> is the contract
  "every operation keeps the state good"; the conclusion is about every run.
\<close>

locale invariant_machine =
  fixes step :: "'s \<Rightarrow> 'op \<Rightarrow> 's"
    and good :: "'s \<Rightarrow> bool"
  assumes step_good: "good s \<Longrightarrow> good (step s x)"
begin

lemma run_good: "good s \<Longrightarrow> good (foldl step s xs)"
  by (induction xs arbitrary: s) (simp_all add: step_good)

end

text \<open>
  \<open>monotone_machine\<close> adds a preorder that every operation climbs: what holds of a state in the
  sense of the preorder is never lost later.
\<close>

locale monotone_machine = invariant_machine step good
  for step :: "'s \<Rightarrow> 'op \<Rightarrow> 's" and good :: "'s \<Rightarrow> bool" +
  fixes le :: "'s \<Rightarrow> 's \<Rightarrow> bool"
  assumes le_refl: "le s s"
    and le_trans: "le s t \<Longrightarrow> le t u \<Longrightarrow> le s u"
    and step_le: "good s \<Longrightarrow> le s (step s x)"
begin

lemma run_le: "good s \<Longrightarrow> le s (foldl step s xs)"
proof (induction xs arbitrary: s)
  case Nil
  show ?case by (simp add: le_refl)
next
  case (Cons x xs)
  from Cons.prems have "le s (step s x)" by (rule step_le)
  moreover have "le (step s x) (foldl step (step s x) xs)"
    using Cons.IH Cons.prems step_good by blast
  ultimately show ?case using le_trans by simp
qed

end

text \<open>
  \<open>frozen_entries\<close>: once an entry is settled it never changes and never disappears.
\<close>

locale frozen_entries = invariant_machine step good
  for step :: "'s \<Rightarrow> 'op \<Rightarrow> 's" and good :: "'s \<Rightarrow> bool" +
  fixes entry :: "'s \<Rightarrow> 'id \<Rightarrow> 'e option"
    and settled :: "'e \<Rightarrow> bool"
  assumes settled_frozen:
      "good s \<Longrightarrow> entry s i = Some e \<Longrightarrow> settled e \<Longrightarrow> entry (step s x) i = Some e"
begin

definition frozen_le :: "'s \<Rightarrow> 's \<Rightarrow> bool" where
  "frozen_le s t \<longleftrightarrow> (\<forall>i e. entry s i = Some e \<longrightarrow> settled e \<longrightarrow> entry t i = Some e)"

sublocale frozen: monotone_machine step good frozen_le
  by unfold_locales (simp_all add: frozen_le_def settled_frozen)

lemma run_settled_frozen:
  "good s \<Longrightarrow> entry s i = Some e \<Longrightarrow> settled e \<Longrightarrow> entry (foldl step s xs) i = Some e"
  using frozen.run_le [of s xs] by (simp add: frozen_le_def)

end

text \<open>
  \<open>settlement_ledger\<close>: in addition, an entry that is still open may move but does not disappear.
\<close>

locale settlement_ledger = frozen_entries step good entry settled
  for step :: "'s \<Rightarrow> 'op \<Rightarrow> 's" and good :: "'s \<Rightarrow> bool"
    and entry :: "'s \<Rightarrow> 'id \<Rightarrow> 'e option" and settled :: "'e \<Rightarrow> bool" +
  assumes entry_kept: "good s \<Longrightarrow> entry s i = Some e \<Longrightarrow> entry (step s x) i \<noteq> None"
begin

lemma run_entry_kept: "good s \<Longrightarrow> entry s i = Some e \<Longrightarrow> entry (foldl step s xs) i \<noteq> None"
proof (induction xs arbitrary: s e)
  case (Cons x xs)
  with entry_kept obtain e' where "entry (step s x) i = Some e'" by blast
  with Cons.IH [OF step_good [OF Cons.prems(1)]] show ?case by simp
qed simp

end

text \<open>\<open>append_only_log\<close>: every operation only appends to the log.\<close>

locale append_only_log =
  fixes step :: "'s \<Rightarrow> 'op \<Rightarrow> 's"
    and log_of :: "'s \<Rightarrow> 'e list"
  assumes step_appends: "\<exists>ys. log_of (step s x) = log_of s @ ys"
begin

lemma run_appends: "\<exists>ys. log_of (foldl step s xs) = log_of s @ ys"
proof (induction xs arbitrary: s)
  case Nil
  show ?case by simp
next
  case (Cons x xs)
  obtain ys where "log_of (step s x) = log_of s @ ys" using step_appends by blast
  moreover obtain zs where "log_of (foldl step (step s x) xs) = log_of (step s x) @ zs"
    using Cons.IH by blast
  ultimately show ?case by simp
qed

end

end
