(* ===== verification/Py_Text.thy ===== *)
theory Py_Text imports Prelude "HOL-Library.Char_ord" "HOL-Library.List_Lexorder"
  "HOL-Library.Product_Lexorder" "HOL-Library.Multiset" begin

text \<open>
  Python's \<open>str\<close> as the program uses it.  Characters are code points 0 to 255 (the range of HOL's
  \<open>char\<close>), compared by code point as Python compares them; surrogates and the rest of Unicode are
  outside this range, so the branches that reject unpaired surrogates have no input here.
\<close>

section \<open>Whitespace and trimming\<close>

text \<open>\<open>str.isspace\<close> on one character of the range.\<close>

definition py_isspace :: "char \<Rightarrow> bool" where
  "py_isspace c \<longleftrightarrow> (let n = (of_char c :: nat) in
     (9 \<le> n \<and> n \<le> 13) \<or> (28 \<le> n \<and> n \<le> 32) \<or> n = 133 \<or> n = 160)"

definition py_lstrip :: "string \<Rightarrow> string" where
  "py_lstrip s = dropWhile py_isspace s"

definition py_strip :: "string \<Rightarrow> string" where
  "py_strip s = rev (py_lstrip (rev (py_lstrip s)))"

text \<open>\<open>value and value == value.strip()\<close>: a non-empty string with no surrounding whitespace.\<close>

definition trimmed :: "string \<Rightarrow> bool" where
  "trimmed s \<longleftrightarrow> s \<noteq> [] \<and> s = py_strip s"

text \<open>\<open>bool(value.strip())\<close>.\<close>

definition nonblank :: "string \<Rightarrow> bool" where
  "nonblank s \<longleftrightarrow> py_strip s \<noteq> []"

lemma py_strip_Nil [simp]: "py_strip [] = []"
  by (simp add: py_strip_def py_lstrip_def)

lemma dropWhile_rev_dropWhile:
  "dropWhile p (rev (dropWhile p (rev (dropWhile p s)))) = rev (dropWhile p (rev (dropWhile p s)))"
proof (cases "dropWhile p s")
  case Nil
  show ?thesis unfolding Nil by simp
next
  case (Cons c cs)
  then have "\<not> p c" by (metis dropWhile_eq_Cons_conv)
  with Cons show ?thesis by (simp add: dropWhile_append3)
qed

lemma py_strip_idem [simp]: "py_strip (py_strip s) = py_strip s"
  by (simp add: py_strip_def py_lstrip_def dropWhile_rev_dropWhile dropWhile_idem)

lemma length_py_strip: "length (py_strip s) \<le> length s"
  unfolding py_strip_def py_lstrip_def
  by (metis length_dropWhile_le length_rev le_trans)

lemma trimmed_strip: "nonblank s \<Longrightarrow> trimmed (py_strip s)"
  by (simp add: trimmed_def nonblank_def)

lemma trimmed_nonblank: "trimmed s \<Longrightarrow> nonblank s"
  by (auto simp: trimmed_def nonblank_def)

definition newline :: string where
  "newline = [char_of (10 :: nat)]"

section \<open>Case folding and the sort key\<close>

text \<open>
  \<open>str.casefold\<close>: upper case letters of ASCII and Latin-1 move down by 32, sharp s becomes
  \<open>ss\<close>; everything else stays (the micro sign, whose folding leaves the range, too).
\<close>

definition py_casefold_char :: "char \<Rightarrow> string" where
  "py_casefold_char c = (let n = (of_char c :: nat) in
     if (65 \<le> n \<and> n \<le> 90) \<or> (192 \<le> n \<and> n \<le> 222 \<and> n \<noteq> 215) then [char_of (n + 32)]
     else if n = 223 then ''ss''
     else [c])"

definition py_casefold :: "string \<Rightarrow> string" where
  "py_casefold s = concat (map py_casefold_char s)"

text \<open>\<open>str.lower\<close> on one character of the range.\<close>

definition py_lower_char :: "char \<Rightarrow> char" where
  "py_lower_char c = (let n = (of_char c :: nat) in
     if (65 \<le> n \<and> n \<le> 90) \<or> (192 \<le> n \<and> n \<le> 222 \<and> n \<noteq> 215) then char_of (n + 32) else c)"

text \<open>The key \<open>(value.casefold(), value)\<close> that the protocol sorts by.\<close>

definition fold_key :: "string \<Rightarrow> string \<times> string" where
  "fold_key s = (py_casefold s, s)"

lemma inj_fold_key: "inj fold_key"
  by (simp add: inj_def fold_key_def)

text \<open>\<open>sorted(values, key=fold_key)\<close> and \<open>sorted(values)\<close>.\<close>

definition sort_folded :: "string list \<Rightarrow> string list" where
  "sort_folded xs = sort_key fold_key xs"

lemma set_sort_folded [simp]: "set (sort_folded xs) = set xs"
  by (simp add: sort_folded_def)

lemma mset_sort_folded [simp]: "mset (sort_folded xs) = mset xs"
  by (simp add: sort_folded_def)

lemma distinct_sort_folded [simp]: "distinct (sort_folded xs) = distinct xs"
  by (simp add: sort_folded_def)

lemma length_sort_folded [simp]: "length (sort_folded xs) = length xs"
  by (simp add: sort_folded_def)

text \<open>Sorting by an injective key forgets the order of its input.\<close>

lemma sort_key_cong_mset:
  assumes "inj_on k (set xs)" and "mset xs = mset ys"
  shows "sort_key k xs = sort_key k ys"
  using assms by (intro sort_key_inj_key_eq) simp_all

lemma sort_folded_cong: "mset xs = mset ys \<Longrightarrow> sort_folded xs = sort_folded ys"
  unfolding sort_folded_def
  by (rule sort_key_cong_mset) (auto intro: inj_on_subset [OF inj_fold_key])

section \<open>JSON string length\<close>

text \<open>
  \<open>len(json.dumps(value, ensure_ascii=False)) - 2\<close>: the short escapes take two characters, other
  control characters six, everything else one.
\<close>

definition json_char_width :: "char \<Rightarrow> nat" where
  "json_char_width c = (let n = (of_char c :: nat) in
     if n = 34 \<or> n = 92 \<or> n = 8 \<or> n = 9 \<or> n = 10 \<or> n = 12 \<or> n = 13 then 2
     else if n < 32 then 6 else 1)"

definition serialized_string_chars :: "string \<Rightarrow> nat" where
  "serialized_string_chars s = sum_list (map json_char_width s)"

lemma length_le_serialized: "length s \<le> serialized_string_chars s"
proof (induction s)
  case Nil
  then show ?case by (simp add: serialized_string_chars_def)
next
  case (Cons c s)
  have "1 \<le> json_char_width c" by (simp add: json_char_width_def Let_def)
  with Cons show ?case by (simp add: serialized_string_chars_def)
qed

end
