(* ===== verification/Py_Time.thy ===== *)
theory Py_Time imports Prelude begin

text \<open>
  Python's \<open>datetime\<close> as the budget code uses it.  A datetime is its wall clock reading, in
  microseconds since 0001-01-01T00:00, with an optional UTC offset; after normalisation the code
  works on UTC instants, compared as integers.  ISO timestamps of UTC instants have a fixed
  width with microseconds, so text equality and text order of stored timestamps are equality and
  order of instants; the tables therefore hold instants.
\<close>

type_synonym instant = int

record py_datetime =
  dt_wall :: int
  dt_offset :: "int option"

definition day_us :: int where
  "day_us = 86400000000"

text \<open>Days 0001-01-01 to 9999-12-31.\<close>

definition max_instant :: int where
  "max_instant = 3652059 * day_us"

text \<open>\<open>value.astimezone(timezone.utc)\<close> for an aware datetime, refused for a naive one.\<close>

definition utc :: "string \<Rightarrow> py_datetime \<Rightarrow> instant result" where
  "utc name dt = (case dt_offset dt of
     None \<Rightarrow> Inl (ValueError (name @ '' must be timezone-aware''))
   | Some off \<Rightarrow>
       (let t = dt_wall dt - off in
        if 0 \<le> t \<and> t < max_instant then Inr t else Inl OverflowError))"

text \<open>\<open>datetime.date()\<close> as the zero-based day number.\<close>

definition date_of :: "instant \<Rightarrow> int" where
  "date_of t = t div day_us"

text \<open>The standard library's conversion of a day number to year, month and day.\<close>

definition days_before_month :: "int \<Rightarrow> int" where
  "days_before_month m =
     (if m = 1 then 0 else if m = 2 then 31 else if m = 3 then 59 else if m = 4 then 90
      else if m = 5 then 120 else if m = 6 then 151 else if m = 7 then 181
      else if m = 8 then 212 else if m = 9 then 243 else if m = 10 then 273
      else if m = 11 then 304 else 334)"

definition month_length :: "int \<Rightarrow> int" where
  "month_length m = (if m = 2 then 28 else if m \<in> {4, 6, 9, 11} then 30 else 31)"

definition ord_ymd :: "int \<Rightarrow> int \<times> int \<times> int" where
  "ord_ymd n =
    (let n400 = n div 146097; a = n mod 146097;
         n100 = a div 36524; b = a mod 36524;
         n4 = b div 1461; c = b mod 1461;
         n1 = c div 365; d = c mod 365;
         year = n400 * 400 + 1 + n100 * 100 + n4 * 4 + n1 in
     if n1 = 4 \<or> n100 = 4 then (year - 1, 12, 31)
     else
      (let leap = (n1 = 3 \<and> (n4 \<noteq> 24 \<or> n100 = 3));
           m = (d + 50) div 32;
           prevd = days_before_month m + (if 2 < m \<and> leap then 1 else 0) in
       if d < prevd then
         (let m' = m - 1;
              prevd' = prevd - (month_length m' + (if m' = 2 \<and> leap then 1 else 0)) in
          (year, m', d - prevd' + 1))
       else (year, m, d - prevd + 1)))"

definition month_of :: "instant \<Rightarrow> int \<times> int" where
  "month_of t = (let (y, m, d) = ord_ymd (date_of t) in (y, m))"

lemma same_day_same_month: "date_of s = date_of t \<Longrightarrow> month_of s = month_of t"
  by (simp add: month_of_def)

text \<open>Sanity of the calendar: the epoch, a leap day, a century and the last day of the range.\<close>

lemma ord_ymd_samples:
  "ord_ymd 0 = (1, 1, 1)" "ord_ymd 719162 = (1970, 1, 1)" "ord_ymd 730178 = (2000, 2, 29)"
  "ord_ymd 693653 = (1900, 2, 28)" "ord_ymd 693654 = (1900, 3, 1)"
  "ord_ymd 3652058 = (9999, 12, 31)"
  by (simp_all add: ord_ymd_def days_before_month_def month_length_def)

end
