(* ===== verification/Access_Types.thy ===== *)
theory Access_Types imports Complex_Main Py_Text Py_Time begin

text \<open>
  The value types of \<open>access_policy.py\<close>: tenants, principals, mandates, requests, budget snapshots
  and decisions, each with the validating constructor its \<open>__post_init__\<close> is.  Dollar amounts are
  rationals: \<open>Decimal\<close> addition is exact while a sum stays within the 28 significant digits of
  the default context, which is the range modelled.
\<close>

section \<open>Enumerations\<close>

datatype tenant = PERSONAL | WORK

datatype principal_kind = HUMAN | AGENT

datatype council_action =
    RUN_CREATE | RUN_READ | RUN_CANCEL | RUN_RESUME | RUN_EXPORT
  | PROVIDER_INVOKE | MANDATE_APPROVE | AGENT_REVOKE

datatype decision_code =
    D_ALLOWED | D_UNKNOWN_PRINCIPAL | D_PRINCIPAL_DISABLED | D_UNKNOWN_MANDATE
  | D_MANDATE_REVOKED | D_MANDATE_NOT_ACTIVE | D_MANDATE_EXPIRED | D_TENANT_MISMATCH
  | D_SUBJECT_MISMATCH | D_OWNER_INVALID | D_ACTION_DENIED | D_PROVIDER_REQUIRED
  | D_PROVIDER_DENIED | D_MODEL_REQUIRED | D_MODEL_DENIED | D_INVALID_AMOUNT
  | D_RESERVATION_CONFLICT | D_RESERVATION_SETTLED | D_PER_RUN_LIMIT_EXCEEDED
  | D_DAILY_LIMIT_EXCEEDED | D_MONTHLY_LIMIT_EXCEEDED

datatype reconciliation_code =
    RC_RECONCILED | RC_IDEMPOTENT | RC_RESERVATION_NOT_FOUND | RC_RESERVATION_RELEASED
  | RC_RECONCILIATION_CONFLICT | RC_INVALID_AMOUNT

fun tenant_value :: "tenant \<Rightarrow> string" where
  "tenant_value PERSONAL = ''personal''"
| "tenant_value WORK = ''work''"

text \<open>\<open>Tenant(value)\<close>.\<close>

definition tenant_of :: "string \<Rightarrow> tenant result" where
  "tenant_of v =
     (if v = ''personal'' then Inr PERSONAL
      else if v = ''work'' then Inr WORK
      else Inl (ValueError (''not a valid Tenant'')))"

fun kind_value :: "principal_kind \<Rightarrow> string" where
  "kind_value HUMAN = ''human''"
| "kind_value AGENT = ''agent''"

fun action_value :: "council_action \<Rightarrow> string" where
  "action_value RUN_CREATE = ''run:create''"
| "action_value RUN_READ = ''run:read''"
| "action_value RUN_CANCEL = ''run:cancel''"
| "action_value RUN_RESUME = ''run:resume''"
| "action_value RUN_EXPORT = ''run:export''"
| "action_value PROVIDER_INVOKE = ''provider:invoke''"
| "action_value MANDATE_APPROVE = ''mandate:approve''"
| "action_value AGENT_REVOKE = ''agent:revoke''"

lemma tenant_of_value [simp]: "tenant_of (tenant_value t) = Inr t"
  by (cases t) (simp_all add: tenant_of_def)

section \<open>Field validation\<close>

definition require_identifier :: "string \<Rightarrow> string \<Rightarrow> unit result" where
  "require_identifier value field =
     (if \<not> nonblank value then Inl (ValueError (field @ '' must be a non-empty string''))
      else if value \<noteq> py_strip value
        then Inl (ValueError (field @ '' must not have surrounding whitespace''))
      else Inr ())"

lemma require_identifier_ok [result_simps]: "require_identifier v f = Inr u \<longleftrightarrow> trimmed v"
  by (auto simp: require_identifier_def trimmed_def nonblank_def)

text \<open>\<open>_normalized_allowlist\<close>: the set of the values, each an identifier.\<close>

definition normalized_allowlist :: "string list \<Rightarrow> string \<Rightarrow> string set result" where
  "normalized_allowlist values field =
     rbind (rmap (\<lambda>v. require_identifier v field) values) (\<lambda>_. Inr (set values))"

text \<open>
  What reaches \<open>_money\<close>: a bool, a float, an int, a \<open>Decimal\<close>, or a text together with what the
  \<open>Decimal\<close> constructor makes of it (\<open>None\<close> when it is not a number).
\<close>

datatype decimal = Finite rat | Infinite | NaN

datatype money_arg = AmtBool bool | AmtFloat | AmtInt int | AmtDecimal decimal | AmtText "decimal option"

definition money_finite :: "decimal \<Rightarrow> string \<Rightarrow> rat result" where
  "money_finite d field = (case d of
     Finite q \<Rightarrow> (if q < 0 then Inl (ValueError (field @ '' must be finite and non-negative''))
                  else Inr q)
   | _ \<Rightarrow> Inl (ValueError (field @ '' must be finite and non-negative'')))"

fun money :: "money_arg \<Rightarrow> string \<Rightarrow> rat result" where
  "money (AmtBool b) field = Inl (ValueError (field @ '' must use Decimal, int, or a string''))"
| "money AmtFloat field = Inl (ValueError (field @ '' must use Decimal, int, or a string''))"
| "money (AmtInt n) field = money_finite (Finite (of_int n)) field"
| "money (AmtDecimal d) field = money_finite d field"
| "money (AmtText None) field = Inl (ValueError (field @ '' must be a valid dollar amount''))"
| "money (AmtText (Some d)) field = money_finite d field"

lemma money_nonneg: "money a f = Inr q \<Longrightarrow> 0 \<le> q"
  by (induction a f rule: money.induct) (auto simp: money_finite_def split: decimal.splits if_splits)

section \<open>Principals\<close>

record principal =
  pr_id :: string
  pr_tenant :: tenant
  pr_kind :: principal_kind
  pr_enabled :: bool

definition mk_principal :: "string \<Rightarrow> tenant \<Rightarrow> principal_kind \<Rightarrow> bool \<Rightarrow> principal result" where
  "mk_principal pid t k en =
     rbind (require_identifier pid ''principal_id'') (\<lambda>_.
       Inr \<lparr>pr_id = pid, pr_tenant = t, pr_kind = k, pr_enabled = en\<rparr>)"

text \<open>The fixed deployment catalogue.\<close>

definition six_principals :: "bool \<Rightarrow> principal list" where
  "six_principals enable_work =
     [\<lparr>pr_id = ''mini-a-agent'', pr_tenant = PERSONAL, pr_kind = AGENT, pr_enabled = True\<rparr>,
      \<lparr>pr_id = ''mini-b-agent'', pr_tenant = PERSONAL, pr_kind = AGENT, pr_enabled = True\<rparr>,
      \<lparr>pr_id = ''personal-laptop-human'', pr_tenant = PERSONAL, pr_kind = HUMAN, pr_enabled = True\<rparr>,
      \<lparr>pr_id = ''personal-laptop-agent'', pr_tenant = PERSONAL, pr_kind = AGENT, pr_enabled = True\<rparr>,
      \<lparr>pr_id = ''work-laptop-human'', pr_tenant = WORK, pr_kind = HUMAN, pr_enabled = enable_work\<rparr>,
      \<lparr>pr_id = ''work-laptop-agent'', pr_tenant = WORK, pr_kind = AGENT, pr_enabled = enable_work\<rparr>]"

section \<open>Mandates\<close>

record mandate =
  md_id :: string
  md_owner :: string
  md_principal :: string
  md_tenant :: tenant
  md_actions :: "string set"
  md_providers :: "string set"
  md_models :: "string set"
  md_per_run :: rat
  md_daily :: rat
  md_monthly :: rat
  md_issued :: instant
  md_expires :: instant
  md_revoked :: "instant option"

definition opt_utc :: "string \<Rightarrow> py_datetime option \<Rightarrow> instant option result" where
  "opt_utc name d = (case d of None \<Rightarrow> Inr None | Some v \<Rightarrow> rbind (utc name v) (\<lambda>t. Inr (Some t)))"

text \<open>\<open>Mandate.__post_init__\<close>, in its order of checks.\<close>

definition mk_mandate ::
  "string \<Rightarrow> string \<Rightarrow> string \<Rightarrow> tenant \<Rightarrow> string list \<Rightarrow> string list \<Rightarrow> string list \<Rightarrow>
   money_arg \<Rightarrow> money_arg \<Rightarrow> money_arg \<Rightarrow> py_datetime \<Rightarrow> py_datetime \<Rightarrow> py_datetime option \<Rightarrow>
   mandate result" where
  "mk_mandate mid owner subj t acts provs mods per_run daily monthly issued expires revoked =
     rbind (require_identifier mid ''mandate_id'') (\<lambda>_.
     rbind (require_identifier owner ''owner_principal_id'') (\<lambda>_.
     rbind (require_identifier subj ''principal_id'') (\<lambda>_.
     rbind (normalized_allowlist acts ''allowed_actions'') (\<lambda>as.
     rbind (normalized_allowlist provs ''allowed_providers'') (\<lambda>ps.
     rbind (normalized_allowlist mods ''allowed_models'') (\<lambda>ms.
     rbind (money per_run ''per_run_limit'') (\<lambda>pr.
     rbind (money daily ''daily_limit'') (\<lambda>dl.
     rbind (money monthly ''monthly_limit'') (\<lambda>ml.
     rbind (utc ''issued_at'' issued) (\<lambda>i.
     rbind (utc ''expires_at'' expires) (\<lambda>e.
     rbind (opt_utc ''revoked_at'' revoked) (\<lambda>r.
       require (i < e) (ValueError ''expires_at must be later than issued_at'')
        (Inr \<lparr>md_id = mid, md_owner = owner, md_principal = subj, md_tenant = t,
              md_actions = as, md_providers = ps, md_models = ms,
              md_per_run = pr, md_daily = dl, md_monthly = ml,
              md_issued = i, md_expires = e, md_revoked = r\<rparr>)))))))))))))"

definition wf_mandate :: "mandate \<Rightarrow> bool" where
  "wf_mandate m \<longleftrightarrow> trimmed (md_id m) \<and> trimmed (md_owner m) \<and> trimmed (md_principal m)
     \<and> 0 \<le> md_per_run m \<and> 0 \<le> md_daily m \<and> 0 \<le> md_monthly m \<and> md_issued m < md_expires m"

lemma mk_mandate_wf:
  "mk_mandate mid owner subj t acts provs mods a b c i e r = Inr m \<Longrightarrow> wf_mandate m"
  by (auto simp: mk_mandate_def wf_mandate_def result_simps dest: money_nonneg)

section \<open>Requests and results\<close>

record auth_request =
  ar_principal :: string
  ar_tenant :: tenant
  ar_mandate :: string
  ar_action :: string
  ar_run :: string
  ar_reservation :: string
  ar_provider :: "string option"
  ar_model :: "string option"
  ar_max :: rat

definition opt_identifier :: "string option \<Rightarrow> string \<Rightarrow> unit result" where
  "opt_identifier v field = (case v of None \<Rightarrow> Inr () | Some s \<Rightarrow> require_identifier s field)"

definition mk_auth_request ::
  "string \<Rightarrow> tenant \<Rightarrow> string \<Rightarrow> string \<Rightarrow> string \<Rightarrow> string \<Rightarrow> string option \<Rightarrow> string option \<Rightarrow>
   money_arg \<Rightarrow> auth_request result" where
  "mk_auth_request pid t mid act run res prov mdl cost =
     rbind (require_identifier pid ''principal_id'') (\<lambda>_.
     rbind (require_identifier mid ''mandate_id'') (\<lambda>_.
     rbind (require_identifier act ''action'') (\<lambda>_.
     rbind (require_identifier run ''run_id'') (\<lambda>_.
     rbind (require_identifier res ''reservation_id'') (\<lambda>_.
     rbind (opt_identifier prov ''provider'') (\<lambda>_.
     rbind (opt_identifier mdl ''model'') (\<lambda>_.
     rbind (money cost ''maximum_cost'') (\<lambda>c.
       Inr \<lparr>ar_principal = pid, ar_tenant = t, ar_mandate = mid, ar_action = act, ar_run = run,
            ar_reservation = res, ar_provider = prov, ar_model = mdl, ar_max = c\<rparr>))))))))"

record budget_snapshot =
  bs_principal :: string
  bs_run :: string
  bs_at :: instant
  bs_run_actual :: rat
  bs_run_reserved :: rat
  bs_daily_actual :: rat
  bs_daily_reserved :: rat
  bs_monthly_actual :: rat
  bs_monthly_reserved :: rat
  bs_per_run_limit :: rat
  bs_daily_limit :: rat
  bs_monthly_limit :: rat

definition run_committed :: "budget_snapshot \<Rightarrow> rat" where
  "run_committed s = bs_run_actual s + bs_run_reserved s"

definition daily_committed :: "budget_snapshot \<Rightarrow> rat" where
  "daily_committed s = bs_daily_actual s + bs_daily_reserved s"

definition monthly_committed :: "budget_snapshot \<Rightarrow> rat" where
  "monthly_committed s = bs_monthly_actual s + bs_monthly_reserved s"

definition run_remaining :: "budget_snapshot \<Rightarrow> rat" where
  "run_remaining s = max 0 (bs_per_run_limit s - run_committed s)"

definition daily_remaining :: "budget_snapshot \<Rightarrow> rat" where
  "daily_remaining s = max 0 (bs_daily_limit s - daily_committed s)"

definition monthly_remaining :: "budget_snapshot \<Rightarrow> rat" where
  "monthly_remaining s = max 0 (bs_monthly_limit s - monthly_committed s)"

lemmas committed_defs = run_committed_def daily_committed_def monthly_committed_def

record decision =
  dc_allowed :: bool
  dc_code :: decision_code
  dc_principal :: string
  dc_tenant :: tenant
  dc_mandate :: string
  dc_run :: string
  dc_reservation :: string
  dc_max :: rat
  dc_budget :: "budget_snapshot option"

record reconcile_request =
  rr_reservation :: string
  rr_principal :: string
  rr_tenant :: tenant
  rr_actual :: rat

definition mk_reconcile_request ::
  "string \<Rightarrow> string \<Rightarrow> tenant \<Rightarrow> money_arg \<Rightarrow> reconcile_request result" where
  "mk_reconcile_request res pid t cost =
     rbind (require_identifier res ''reservation_id'') (\<lambda>_.
     rbind (require_identifier pid ''principal_id'') (\<lambda>_.
     rbind (money cost ''actual_cost'') (\<lambda>c.
       Inr \<lparr>rr_reservation = res, rr_principal = pid, rr_tenant = t, rr_actual = c\<rparr>)))"

record reconcile_result =
  rs_accepted :: bool
  rs_code :: reconciliation_code
  rs_reservation :: string
  rs_principal :: string
  rs_actual :: rat
  rs_exceeded_reservation :: bool
  rs_exceeded_limit :: bool
  rs_budget :: "budget_snapshot option"

datatype reservation_state = RESERVED | RECONCILED | RELEASED

record reservation =
  rv_request :: auth_request
  rv_at :: instant
  rv_decision :: decision
  rv_state :: reservation_state
  rv_actual :: "rat option"

end
