(* ===== verification/Policy_Core.thy ===== *)
theory Policy_Core imports Access_Types begin

text \<open>
  \<open>PolicyCore\<close> of \<open>access_policy.py\<close>: the in-memory authorization and budget ledger.  Every public
  method takes the lock for its whole body, so a run is a sequence of the operations below.  An
  operation returns its result (or the exception) together with the state it leaves, because
  \<open>reconcile\<close> stores the settled reservation before it can still raise.
\<close>

section \<open>State\<close>

record policy_core =
  pc_principals :: "(string, principal) dict"
  pc_mandates :: "(string, mandate) dict"
  pc_reservations :: "(string, reservation) dict"

text \<open>\<open>PolicyCore.__init__\<close>: duplicate identifiers collapse in the dict and are refused.\<close>

definition policy_init :: "principal list \<Rightarrow> policy_core result" where
  "policy_init catalog =
     (let pm = foldl (\<lambda>d p. dict_set (pr_id p) p d) [] catalog in
      if length pm \<noteq> length catalog then Inl (ValueError ''principal_id values must be unique'')
      else Inr \<lparr>pc_principals = pm, pc_mandates = [], pc_reservations = []\<rparr>)"

text \<open>\<open>_now\<close>: the explicit time, else the clock reading, normalised to UTC.\<close>

definition policy_now :: "py_datetime option \<Rightarrow> py_datetime \<Rightarrow> instant result" where
  "policy_now tm clk = utc ''current time'' (case tm of Some d \<Rightarrow> d | None \<Rightarrow> clk)"

definition principals :: "policy_core \<Rightarrow> principal list" where
  "principals pc =
     map (\<lambda>k. the (dict_get (pc_principals pc) k)) (sort (map fst (pc_principals pc)))"

section \<open>Principals and mandates\<close>

definition set_principal_enabled ::
  "policy_core \<Rightarrow> string \<Rightarrow> bool \<Rightarrow> principal result \<times> policy_core" where
  "set_principal_enabled pc pid en =
     (case dict_get (pc_principals pc) pid of
        None \<Rightarrow> (Inl (KeyError pid), pc)
      | Some p \<Rightarrow>
          (let u = p\<lparr>pr_enabled := en\<rparr> in
           (Inr u, pc\<lparr>pc_principals := dict_set pid u (pc_principals pc)\<rparr>)))"

definition register_mandate ::
  "policy_core \<Rightarrow> mandate \<Rightarrow> mandate result \<times> policy_core" where
  "register_mandate pc m =
     (case dict_get (pc_principals pc) (md_principal m) of
        None \<Rightarrow> (Inl (ValueError ''mandate subject is not a configured principal''), pc)
      | Some subject \<Rightarrow>
          (case dict_get (pc_principals pc) (md_owner m) of
             None \<Rightarrow> (Inl (ValueError ''mandate owner must be a configured human''), pc)
           | Some owner \<Rightarrow>
               if pr_kind owner \<noteq> HUMAN
                 then (Inl (ValueError ''mandate owner must be a configured human''), pc)
               else if pr_tenant owner \<noteq> md_tenant m
                 then (Inl (ValueError ''mandate owner tenant does not match mandate''), pc)
               else if pr_tenant subject \<noteq> md_tenant m
                 then (Inl (ValueError ''mandate subject tenant does not match mandate''), pc)
               else if (case dict_get (pc_mandates pc) (md_id m) of
                          None \<Rightarrow> False | Some m' \<Rightarrow> m' \<noteq> m)
                 then (Inl (ValueError ''mandate_id is already registered''), pc)
               else (Inr m, pc\<lparr>pc_mandates := dict_set (md_id m) m (pc_mandates pc)\<rparr>)))"

definition revoke_mandate ::
  "policy_core \<Rightarrow> string \<Rightarrow> py_datetime option \<Rightarrow> py_datetime \<Rightarrow> mandate result \<times> policy_core" where
  "revoke_mandate pc mid tm clk =
     (case dict_get (pc_mandates pc) mid of
        None \<Rightarrow> (Inl (KeyError mid), pc)
      | Some m \<Rightarrow>
          (case policy_now tm clk of
             Inl e \<Rightarrow> (Inl e, pc)
           | Inr t \<Rightarrow>
               (case md_revoked m of
                  Some _ \<Rightarrow> (Inr m, pc)
                | None \<Rightarrow>
                    (let r = m\<lparr>md_revoked := Some t\<rparr> in
                     (Inr r, pc\<lparr>pc_mandates := dict_set mid r (pc_mandates pc)\<rparr>)))))"

section \<open>Budget snapshots\<close>

text \<open>The guard of the loop in \<open>_snapshot_locked\<close>: whose reservations count.\<close>

definition counts_for :: "auth_request \<Rightarrow> reservation \<Rightarrow> bool" where
  "counts_for req rv \<longleftrightarrow>
     \<not> (ar_principal (rv_request rv) \<noteq> ar_principal req
        \<or> ar_tenant (rv_request rv) \<noteq> ar_tenant req
        \<or> rv_state rv = RELEASED)"

definition actual_part :: "reservation \<Rightarrow> rat" where
  "actual_part rv =
     (if rv_state rv = RECONCILED then (case rv_actual rv of Some a \<Rightarrow> a | None \<Rightarrow> 0) else 0)"

definition reserved_part :: "reservation \<Rightarrow> rat" where
  "reserved_part rv = (if rv_state rv = RESERVED then ar_max (rv_request rv) else 0)"

record budget_acc =
  ba_run_actual :: rat
  ba_run_reserved :: rat
  ba_daily_actual :: rat
  ba_daily_reserved :: rat
  ba_monthly_actual :: rat
  ba_monthly_reserved :: rat

text \<open>One pass of the loop body.\<close>

definition snapshot_step ::
  "auth_request \<Rightarrow> instant \<Rightarrow> budget_acc \<Rightarrow> reservation \<Rightarrow> budget_acc" where
  "snapshot_step req now acc rv =
     (if \<not> counts_for req rv then acc
      else
        (let a = actual_part rv; r = reserved_part rv;
             acc1 = (if ar_run (rv_request rv) = ar_run req
                     then acc\<lparr>ba_run_actual := ba_run_actual acc + a,
                              ba_run_reserved := ba_run_reserved acc + r\<rparr> else acc);
             acc2 = (if date_of (rv_at rv) = date_of now
                     then acc1\<lparr>ba_daily_actual := ba_daily_actual acc1 + a,
                               ba_daily_reserved := ba_daily_reserved acc1 + r\<rparr> else acc1) in
         (if month_of (rv_at rv) = month_of now
          then acc2\<lparr>ba_monthly_actual := ba_monthly_actual acc2 + a,
                    ba_monthly_reserved := ba_monthly_reserved acc2 + r\<rparr> else acc2)))"

definition zero_acc :: budget_acc where
  "zero_acc = \<lparr>ba_run_actual = 0, ba_run_reserved = 0, ba_daily_actual = 0,
               ba_daily_reserved = 0, ba_monthly_actual = 0, ba_monthly_reserved = 0\<rparr>"

definition snapshot_locked ::
  "policy_core \<Rightarrow> auth_request \<Rightarrow> instant \<Rightarrow> budget_snapshot result" where
  "snapshot_locked pc req now =
     (case dict_get (pc_mandates pc) (ar_mandate req) of
        None \<Rightarrow> Inl (KeyError (ar_mandate req))
      | Some m \<Rightarrow>
          (let acc = foldl (snapshot_step req now) zero_acc (dict_values (pc_reservations pc)) in
           Inr \<lparr>bs_principal = ar_principal req, bs_run = ar_run req, bs_at = now,
                bs_run_actual = ba_run_actual acc, bs_run_reserved = ba_run_reserved acc,
                bs_daily_actual = ba_daily_actual acc, bs_daily_reserved = ba_daily_reserved acc,
                bs_monthly_actual = ba_monthly_actual acc,
                bs_monthly_reserved = ba_monthly_reserved acc,
                bs_per_run_limit = md_per_run m, bs_daily_limit = md_daily m,
                bs_monthly_limit = md_monthly m\<rparr>))"

definition exceeded :: "budget_snapshot \<Rightarrow> bool" where
  "exceeded s \<longleftrightarrow> run_committed s > bs_per_run_limit s
     \<or> daily_committed s > bs_daily_limit s
     \<or> monthly_committed s > bs_monthly_limit s"

definition mk_decision ::
  "auth_request \<Rightarrow> decision_code \<Rightarrow> budget_snapshot option \<Rightarrow> decision" where
  "mk_decision req code b =
     \<lparr>dc_allowed = (code = D_ALLOWED), dc_code = code, dc_principal = ar_principal req,
      dc_tenant = ar_tenant req, dc_mandate = ar_mandate req, dc_run = ar_run req,
      dc_reservation = ar_reservation req, dc_max = ar_max req, dc_budget = b\<rparr>"

text \<open>\<open>budget_snapshot\<close> builds a synthetic read request and takes its snapshot.\<close>

definition budget_snapshot_op ::
  "policy_core \<Rightarrow> string \<Rightarrow> string \<Rightarrow> py_datetime option \<Rightarrow> py_datetime \<Rightarrow>
   budget_snapshot result" where
  "budget_snapshot_op pc mid run tm clk =
     (case dict_get (pc_mandates pc) mid of
        None \<Rightarrow> Inl (KeyError mid)
      | Some m \<Rightarrow>
          rbind (mk_auth_request (md_principal m) (md_tenant m) (md_id m) (action_value RUN_READ)
                   run ''snapshot'' None None (AmtDecimal (Finite 0))) (\<lambda>req.
          rbind (policy_now tm clk) (\<lambda>now. snapshot_locked pc req now)))"

section \<open>Evaluation\<close>

text \<open>\<open>_evaluate_locked\<close>: the owner test, then the whole chain of early returns.\<close>

definition owner_valid :: "policy_core \<Rightarrow> mandate \<Rightarrow> auth_request \<Rightarrow> bool" where
  "owner_valid pc m req =
     (case dict_get (pc_principals pc) (md_owner m) of
        None \<Rightarrow> False
      | Some owner \<Rightarrow> pr_kind owner = HUMAN \<and> pr_enabled owner \<and> pr_tenant owner = ar_tenant req)"

text \<open>The checks on action, provider and model; \<open>None\<close> lets the request through.\<close>

definition scope_denial :: "mandate \<Rightarrow> auth_request \<Rightarrow> decision_code option" where
  "scope_denial m req =
     (if ar_action req \<notin> md_actions m then Some D_ACTION_DENIED
      else if ar_action req = action_value PROVIDER_INVOKE \<and> ar_provider req = None
        then Some D_PROVIDER_REQUIRED
      else if ar_action req = action_value PROVIDER_INVOKE \<and> ar_model req = None
        then Some D_MODEL_REQUIRED
      else if (case ar_provider req of None \<Rightarrow> False | Some p \<Rightarrow> p \<notin> md_providers m)
        then Some D_PROVIDER_DENIED
      else if (case ar_model req of None \<Rightarrow> False | Some x \<Rightarrow> x \<notin> md_models m)
        then Some D_MODEL_DENIED
      else None)"

definition budget_decision :: "mandate \<Rightarrow> auth_request \<Rightarrow> budget_snapshot \<Rightarrow> decision" where
  "budget_decision m req s =
     (if run_committed s + ar_max req > md_per_run m
        then mk_decision req D_PER_RUN_LIMIT_EXCEEDED (Some s)
      else if daily_committed s + ar_max req > md_daily m
        then mk_decision req D_DAILY_LIMIT_EXCEEDED (Some s)
      else if monthly_committed s + ar_max req > md_monthly m
        then mk_decision req D_MONTHLY_LIMIT_EXCEEDED (Some s)
      else mk_decision req D_ALLOWED
        (Some (s\<lparr>bs_run_reserved := bs_run_reserved s + ar_max req,
                 bs_daily_reserved := bs_daily_reserved s + ar_max req,
                 bs_monthly_reserved := bs_monthly_reserved s + ar_max req\<rparr>)))"

definition evaluate_locked :: "policy_core \<Rightarrow> auth_request \<Rightarrow> instant \<Rightarrow> decision result" where
  "evaluate_locked pc req now =
     (case dict_get (pc_principals pc) (ar_principal req) of
        None \<Rightarrow> Inr (mk_decision req D_UNKNOWN_PRINCIPAL None)
      | Some p \<Rightarrow>
          if \<not> pr_enabled p then Inr (mk_decision req D_PRINCIPAL_DISABLED None)
          else if pr_tenant p \<noteq> ar_tenant req then Inr (mk_decision req D_TENANT_MISMATCH None)
          else
            (case dict_get (pc_mandates pc) (ar_mandate req) of
               None \<Rightarrow> Inr (mk_decision req D_UNKNOWN_MANDATE None)
             | Some m \<Rightarrow>
                 if md_principal m \<noteq> ar_principal req
                   then Inr (mk_decision req D_SUBJECT_MISMATCH None)
                 else if md_tenant m \<noteq> ar_tenant req
                   then Inr (mk_decision req D_TENANT_MISMATCH None)
                 else if \<not> owner_valid pc m req then Inr (mk_decision req D_OWNER_INVALID None)
                 else if (case md_revoked m of None \<Rightarrow> False | Some r \<Rightarrow> r \<le> now)
                   then Inr (mk_decision req D_MANDATE_REVOKED None)
                 else if now < md_issued m then Inr (mk_decision req D_MANDATE_NOT_ACTIVE None)
                 else if md_expires m \<le> now then Inr (mk_decision req D_MANDATE_EXPIRED None)
                 else (case scope_denial m req of
                         Some c \<Rightarrow> Inr (mk_decision req c None)
                       | None \<Rightarrow>
                           rbind (snapshot_locked pc req now) (\<lambda>s.
                             Inr (budget_decision m req s)))))"

definition check :: "policy_core \<Rightarrow> auth_request \<Rightarrow> py_datetime option \<Rightarrow> py_datetime \<Rightarrow>
    decision result" where
  "check pc req tm clk = rbind (policy_now tm clk) (evaluate_locked pc req)"

section \<open>The reservation lifecycle\<close>

definition authorize_and_reserve ::
  "policy_core \<Rightarrow> auth_request \<Rightarrow> py_datetime option \<Rightarrow> py_datetime \<Rightarrow>
   decision result \<times> policy_core" where
  "authorize_and_reserve pc req tm clk =
     (case dict_get (pc_reservations pc) (ar_reservation req) of
        Some ex \<Rightarrow>
          (if rv_request ex = req \<and> rv_state ex = RESERVED then (Inr (rv_decision ex), pc)
           else if rv_request ex = req then (Inr (mk_decision req D_RESERVATION_SETTLED None), pc)
           else (Inr (mk_decision req D_RESERVATION_CONFLICT None), pc))
      | None \<Rightarrow>
          (case policy_now tm clk of
             Inl e \<Rightarrow> (Inl e, pc)
           | Inr now \<Rightarrow>
               (case evaluate_locked pc req now of
                  Inl e \<Rightarrow> (Inl e, pc)
                | Inr d \<Rightarrow>
                    if \<not> dc_allowed d then (Inr d, pc)
                    else (Inr d,
                      pc\<lparr>pc_reservations := dict_set (ar_reservation req)
                           \<lparr>rv_request = req, rv_at = now, rv_decision = d,
                            rv_state = RESERVED, rv_actual = None\<rparr> (pc_reservations pc)\<rparr>))))"

definition mk_reconcile_result ::
  "reconcile_request \<Rightarrow> bool \<Rightarrow> reconciliation_code \<Rightarrow> bool \<Rightarrow> bool \<Rightarrow> budget_snapshot option \<Rightarrow>
   reconcile_result" where
  "mk_reconcile_result req ok code xr xl b =
     \<lparr>rs_accepted = ok, rs_code = code, rs_reservation = rr_reservation req,
      rs_principal = rr_principal req, rs_actual = rr_actual req,
      rs_exceeded_reservation = xr, rs_exceeded_limit = xl, rs_budget = b\<rparr>"

text \<open>The accepted result both the first and a repeated reconciliation build.\<close>

definition accepted_result ::
  "policy_core \<Rightarrow> reservation \<Rightarrow> reconcile_request \<Rightarrow> reconciliation_code \<Rightarrow>
   py_datetime option \<Rightarrow> py_datetime \<Rightarrow> reconcile_result result" where
  "accepted_result pc rv req code tm clk =
     rbind (policy_now tm clk) (\<lambda>now.
     rbind (snapshot_locked pc (rv_request rv) now) (\<lambda>s.
       Inr (mk_reconcile_result req True code
              (rr_actual req > ar_max (rv_request rv)) (exceeded s) (Some s))))"

definition reconcile ::
  "policy_core \<Rightarrow> reconcile_request \<Rightarrow> py_datetime option \<Rightarrow> py_datetime \<Rightarrow>
   reconcile_result result \<times> policy_core" where
  "reconcile pc req tm clk =
     (case dict_get (pc_reservations pc) (rr_reservation req) of
        None \<Rightarrow> (Inr (mk_reconcile_result req False RC_RESERVATION_NOT_FOUND False False None), pc)
      | Some rv \<Rightarrow>
          if ar_principal (rv_request rv) \<noteq> rr_principal req
             \<or> ar_tenant (rv_request rv) \<noteq> rr_tenant req
            then (Inr (mk_reconcile_result req False RC_RESERVATION_NOT_FOUND False False None), pc)
          else (case rv_state rv of
              RELEASED \<Rightarrow>
                (Inr (mk_reconcile_result req False RC_RESERVATION_RELEASED False False None), pc)
            | RECONCILED \<Rightarrow>
                if rv_actual rv = Some (rr_actual req)
                  then (accepted_result pc rv req RC_IDEMPOTENT tm clk, pc)
                else (Inr (mk_reconcile_result req False RC_RECONCILIATION_CONFLICT
                             False False None), pc)
            | RESERVED \<Rightarrow>
                (let pc' = pc\<lparr>pc_reservations := dict_set (rr_reservation req)
                       (rv\<lparr>rv_state := RECONCILED, rv_actual := Some (rr_actual req)\<rparr>)
                       (pc_reservations pc)\<rparr> in
                 (accepted_result pc' rv req RC_RECONCILED tm clk, pc'))))"

definition release_reservation ::
  "policy_core \<Rightarrow> string \<Rightarrow> string \<Rightarrow> tenant \<Rightarrow> bool \<times> policy_core" where
  "release_reservation pc rid pid t =
     (case dict_get (pc_reservations pc) rid of
        None \<Rightarrow> (False, pc)
      | Some rv \<Rightarrow>
          if ar_principal (rv_request rv) \<noteq> pid \<or> ar_tenant (rv_request rv) \<noteq> t
             \<or> rv_state rv \<noteq> RESERVED
            then (False, pc)
          else (True, pc\<lparr>pc_reservations := dict_set rid (rv\<lparr>rv_state := RELEASED\<rparr>)
                          (pc_reservations pc)\<rparr>))"

section \<open>Runs of the core\<close>

datatype policy_op =
    SetEnabled string bool
  | Register mandate
  | Revoke string "py_datetime option" py_datetime
  | Authorize auth_request "py_datetime option" py_datetime
  | Reconcile reconcile_request "py_datetime option" py_datetime
  | Release string string tenant

fun policy_step :: "policy_core \<Rightarrow> policy_op \<Rightarrow> policy_core" where
  "policy_step pc (SetEnabled pid en) = snd (set_principal_enabled pc pid en)"
| "policy_step pc (Register m) = snd (register_mandate pc m)"
| "policy_step pc (Revoke mid tm clk) = snd (revoke_mandate pc mid tm clk)"
| "policy_step pc (Authorize req tm clk) = snd (authorize_and_reserve pc req tm clk)"
| "policy_step pc (Reconcile req tm clk) = snd (reconcile pc req tm clk)"
| "policy_step pc (Release rid pid t) = snd (release_reservation pc rid pid t)"

definition policy_run :: "policy_core \<Rightarrow> policy_op list \<Rightarrow> policy_core" where
  "policy_run pc ops = foldl policy_step pc ops"

end
