(* ===== verification/Policy_Laws.thy ===== *)
theory Policy_Laws imports Policy_Core begin

text \<open>
  The lemma library of the policy core: the loop of \<open>_snapshot_locked\<close> as sums, the frame of
  every operation, the invariant, and the core as a \<open>settlement_ledger\<close> twice (its reservations and
  its mandates).
\<close>

section \<open>The snapshot loop is a sum\<close>

definition sum_if :: "(reservation \<Rightarrow> bool) \<Rightarrow> (reservation \<Rightarrow> rat) \<Rightarrow> reservation list \<Rightarrow> rat" where
  "sum_if p w rvs = sum_list (map (\<lambda>rv. if p rv then w rv else 0) rvs)"

lemma sum_if_simps [simp]:
  "sum_if p w [] = 0"
  "sum_if p w (rv # rvs) = (if p rv then w rv else 0) + sum_if p w rvs"
  by (simp_all add: sum_if_def)

lemma sum_if_add: "sum_if p f rvs + sum_if p g rvs = sum_if p (\<lambda>rv. f rv + g rv) rvs"
  by (induction rvs) auto

definition charge :: "reservation \<Rightarrow> rat" where
  "charge rv = actual_part rv + reserved_part rv"

lemma snapshot_fold:
  fixes req now
  defines "in_run \<equiv> \<lambda>rv. counts_for req rv \<and> ar_run (rv_request rv) = ar_run req"
    and "in_day \<equiv> \<lambda>rv. counts_for req rv \<and> date_of (rv_at rv) = date_of now"
    and "in_month \<equiv> \<lambda>rv. counts_for req rv \<and> month_of (rv_at rv) = month_of now"
  shows "foldl (snapshot_step req now) acc rvs =
    \<lparr>ba_run_actual = ba_run_actual acc + sum_if in_run actual_part rvs,
     ba_run_reserved = ba_run_reserved acc + sum_if in_run reserved_part rvs,
     ba_daily_actual = ba_daily_actual acc + sum_if in_day actual_part rvs,
     ba_daily_reserved = ba_daily_reserved acc + sum_if in_day reserved_part rvs,
     ba_monthly_actual = ba_monthly_actual acc + sum_if in_month actual_part rvs,
     ba_monthly_reserved = ba_monthly_reserved acc + sum_if in_month reserved_part rvs\<rparr>"
  unfolding assms
  by (induction rvs arbitrary: acc) (simp_all add: snapshot_step_def Let_def)

section \<open>Buckets\<close>

text \<open>A budget is kept per run, per day and per month; a bucket names one of them.\<close>

datatype bucket = Run_Bucket string | Day_Bucket int | Month_Bucket "int \<times> int"

fun in_bucket :: "bucket \<Rightarrow> reservation \<Rightarrow> bool" where
  "in_bucket (Run_Bucket r) rv \<longleftrightarrow> ar_run (rv_request rv) = r"
| "in_bucket (Day_Bucket d) rv \<longleftrightarrow> date_of (rv_at rv) = d"
| "in_bucket (Month_Bucket m) rv \<longleftrightarrow> month_of (rv_at rv) = m"

fun bucket_limit :: "bucket \<Rightarrow> mandate \<Rightarrow> rat" where
  "bucket_limit (Run_Bucket r) m = md_per_run m"
| "bucket_limit (Day_Bucket d) m = md_daily m"
| "bucket_limit (Month_Bucket mo) m = md_monthly m"

text \<open>What a principal of a tenant has committed in a bucket: the specification of the ledger.\<close>

definition owned_by :: "string \<Rightarrow> tenant \<Rightarrow> reservation \<Rightarrow> bool" where
  "owned_by pid t rv \<longleftrightarrow> ar_principal (rv_request rv) = pid \<and> ar_tenant (rv_request rv) = t"

definition bucket_weight :: "string \<Rightarrow> tenant \<Rightarrow> bucket \<Rightarrow> reservation \<Rightarrow> rat" where
  "bucket_weight pid t b rv = (if owned_by pid t rv \<and> in_bucket b rv then charge rv else 0)"

definition bucket_spend :: "policy_core \<Rightarrow> string \<Rightarrow> tenant \<Rightarrow> bucket \<Rightarrow> rat" where
  "bucket_spend pc pid t b =
     sum_list (map (bucket_weight pid t b) (dict_values (pc_reservations pc)))"

lemma charge_released: "rv_state rv = RELEASED \<Longrightarrow> charge rv = 0"
  by (simp add: charge_def actual_part_def reserved_part_def)

lemma sum_if_bucket:
  assumes "\<And>rv. q rv \<longleftrightarrow> in_bucket b rv"
  shows "sum_if (\<lambda>rv. counts_for req rv \<and> q rv) charge rvs
       = sum_list (map (bucket_weight (ar_principal req) (ar_tenant req) b) rvs)"
  by (induction rvs)
    (auto simp: assms bucket_weight_def counts_for_def owned_by_def charge_released)

lemma sum_if_bucket_spend:
  assumes "\<And>rv. q rv \<longleftrightarrow> in_bucket b rv"
  shows "sum_if (\<lambda>rv. counts_for req rv \<and> q rv) (\<lambda>rv. actual_part rv + reserved_part rv)
           (dict_values (pc_reservations pc))
       = bucket_spend pc (ar_principal req) (ar_tenant req) b"
  unfolding bucket_spend_def
  using sum_if_bucket [where q = q and b = b and req = req, OF assms]
  by (simp only: charge_def [abs_def])

text \<open>The buckets a request at an instant falls into.\<close>

definition request_buckets :: "auth_request \<Rightarrow> instant \<Rightarrow> bucket list" where
  "request_buckets req now =
     [Run_Bucket (ar_run req), Day_Bucket (date_of now), Month_Bucket (month_of now)]"

lemma snapshot_committed:
  assumes "snapshot_locked pc req now = Inr s"
  shows "run_committed s
           = bucket_spend pc (ar_principal req) (ar_tenant req) (Run_Bucket (ar_run req))"
    and "daily_committed s
           = bucket_spend pc (ar_principal req) (ar_tenant req) (Day_Bucket (date_of now))"
    and "monthly_committed s
           = bucket_spend pc (ar_principal req) (ar_tenant req) (Month_Bucket (month_of now))"
  using assms
  by (auto simp: snapshot_locked_def snapshot_fold zero_acc_def committed_defs sum_if_add Let_def
      split: option.splits intro!: sum_if_bucket_spend)

lemma snapshot_fields:
  assumes "snapshot_locked pc req now = Inr s"
  obtains m where "dict_get (pc_mandates pc) (ar_mandate req) = Some m"
    "bs_per_run_limit s = md_per_run m" "bs_daily_limit s = md_daily m"
    "bs_monthly_limit s = md_monthly m" "bs_principal s = ar_principal req" "bs_at s = now"
  using assms by (auto simp: snapshot_locked_def Let_def split: option.splits)

lemma snapshot_total:
  "dict_get (pc_mandates pc) (ar_mandate req) \<noteq> None \<Longrightarrow> \<exists>s. snapshot_locked pc req now = Inr s"
  by (auto simp: snapshot_locked_def Let_def)

section \<open>When a request is allowed\<close>

text \<open>The declarative reading of the mandate's time window, and of its scope.\<close>

definition mandate_live :: "mandate \<Rightarrow> instant \<Rightarrow> bool" where
  "mandate_live m now \<longleftrightarrow> md_issued m \<le> now \<and> now < md_expires m
     \<and> (\<forall>r. md_revoked m \<noteq> Some r \<or> now < r)"

definition in_scope :: "mandate \<Rightarrow> auth_request \<Rightarrow> bool" where
  "in_scope m req \<longleftrightarrow> ar_action req \<in> md_actions m
     \<and> set_option (ar_provider req) \<subseteq> md_providers m
     \<and> set_option (ar_model req) \<subseteq> md_models m
     \<and> (ar_action req \<noteq> action_value PROVIDER_INVOKE
        \<or> ar_provider req \<noteq> None \<and> ar_model req \<noteq> None)"

definition affordable :: "policy_core \<Rightarrow> mandate \<Rightarrow> auth_request \<Rightarrow> instant \<Rightarrow> bool" where
  "affordable pc m req now \<longleftrightarrow>
     list_all (\<lambda>b. bucket_spend pc (ar_principal req) (ar_tenant req) b + ar_max req
                     \<le> bucket_limit b m) (request_buckets req now)"

lemma scope_denial_None: "scope_denial m req = None \<longleftrightarrow> in_scope m req"
  by (auto simp: scope_denial_def in_scope_def split: option.splits)

lemma owner_valid_iff:
  "owner_valid pc m req \<longleftrightarrow>
     (\<exists>owner. dict_get (pc_principals pc) (md_owner m) = Some owner \<and> pr_kind owner = HUMAN
        \<and> pr_enabled owner \<and> pr_tenant owner = ar_tenant req)"
  by (auto simp: owner_valid_def split: option.splits)

lemma mk_decision_allowed [simp]: "dc_allowed (mk_decision req c b) \<longleftrightarrow> c = D_ALLOWED"
  by (simp add: mk_decision_def)

lemma mk_decision_sel [simp]:
  "dc_code (mk_decision req c b) = c" "dc_budget (mk_decision req c b) = b"
  "dc_reservation (mk_decision req c b) = ar_reservation req"
  by (simp_all add: mk_decision_def)

lemma budget_decision_allowed:
  assumes "snapshot_locked pc req now = Inr s"
  shows "dc_allowed (budget_decision m req s) \<longleftrightarrow> affordable pc m req now"
  by (auto simp: budget_decision_def affordable_def request_buckets_def snapshot_committed [OF assms])

lemma scope_denial_not_allowed: "scope_denial m req \<noteq> Some D_ALLOWED"
  by (simp add: scope_denial_def split: option.splits)

lemma evaluate_cases:
  assumes "evaluate_locked pc req now = Inr d" and "dc_allowed d"
  obtains p m s where
    "dict_get (pc_principals pc) (ar_principal req) = Some p" "pr_enabled p"
    "pr_tenant p = ar_tenant req"
    "dict_get (pc_mandates pc) (ar_mandate req) = Some m"
    "md_principal m = ar_principal req" "md_tenant m = ar_tenant req"
    "owner_valid pc m req" "mandate_live m now" "in_scope m req"
    "snapshot_locked pc req now = Inr s" "affordable pc m req now" "d = budget_decision m req s"
  using assms
  by (auto simp: evaluate_locked_def result_simps mandate_live_def scope_denial_None [symmetric]
      budget_decision_allowed scope_denial_not_allowed not_le not_less
      split: option.splits if_splits)

lemma evaluate_allows:
  assumes "dict_get (pc_principals pc) (ar_principal req) = Some p" "pr_enabled p"
    "pr_tenant p = ar_tenant req"
    "dict_get (pc_mandates pc) (ar_mandate req) = Some m"
    "md_principal m = ar_principal req" "md_tenant m = ar_tenant req"
    "owner_valid pc m req" "mandate_live m now" "in_scope m req" "affordable pc m req now"
  shows "\<exists>d. evaluate_locked pc req now = Inr d \<and> dc_allowed d"
proof -
  obtain s where s: "snapshot_locked pc req now = Inr s"
    using snapshot_total assms(4) by blast
  have live: "\<not> (case md_revoked m of None \<Rightarrow> False | Some r \<Rightarrow> r \<le> now)"
    "\<not> now < md_issued m" "\<not> md_expires m \<le> now"
    using assms(8) by (auto simp: mandate_live_def split: option.splits)
  have "scope_denial m req = None" using assms(9) by (simp add: scope_denial_None)
  with assms live s have "evaluate_locked pc req now = Inr (budget_decision m req s)"
    by (simp add: evaluate_locked_def)
  then show ?thesis using budget_decision_allowed [OF s] assms(10) by simp
qed

lemma evaluate_total: "\<exists>d. evaluate_locked pc req now = Inr d"
proof (cases "dict_get (pc_mandates pc) (ar_mandate req)")
  case None
  then show ?thesis by (simp add: evaluate_locked_def split: option.split)
next
  case (Some m)
  then obtain s where "snapshot_locked pc req now = Inr s" using snapshot_total by blast
  with Some show ?thesis by (simp add: evaluate_locked_def split: option.split)
qed

section \<open>The invariant\<close>

definition wf_reservation :: "policy_core \<Rightarrow> string \<Rightarrow> reservation \<Rightarrow> bool" where
  "wf_reservation pc k rv \<longleftrightarrow>
     ar_reservation (rv_request rv) = k
     \<and> dict_get (pc_mandates pc) (ar_mandate (rv_request rv)) \<noteq> None
     \<and> dc_allowed (rv_decision rv)
     \<and> (rv_state rv = RECONCILED \<longleftrightarrow> rv_actual rv \<noteq> None)"

definition policy_good :: "policy_core \<Rightarrow> bool" where
  "policy_good pc \<longleftrightarrow>
     wf_dict (pc_principals pc) \<and> wf_dict (pc_mandates pc) \<and> wf_dict (pc_reservations pc)
     \<and> (\<forall>k p. dict_get (pc_principals pc) k = Some p \<longrightarrow> pr_id p = k)
     \<and> (\<forall>k m. dict_get (pc_mandates pc) k = Some m \<longrightarrow> md_id m = k)
     \<and> (\<forall>k rv. dict_get (pc_reservations pc) k = Some rv \<longrightarrow> wf_reservation pc k rv)"

lemma policy_goodD:
  assumes "policy_good pc"
  shows "wf_dict (pc_reservations pc)"
    and "dict_get (pc_principals pc) k = Some p \<Longrightarrow> pr_id p = k"
    and "dict_get (pc_mandates pc) k = Some m \<Longrightarrow> md_id m = k"
    and "dict_get (pc_reservations pc) k = Some rv \<Longrightarrow> wf_reservation pc k rv"
  using assms by (auto simp: policy_good_def)

named_theorems policy_ops

lemmas [policy_ops] = set_principal_enabled_def register_mandate_def revoke_mandate_def
  authorize_and_reserve_def reconcile_def release_reservation_def

lemmas policy_splits = option.splits sum.splits if_splits reservation_state.splits

text \<open>What each operation may change.\<close>

lemma set_enabled_frame:
  "pc_mandates (snd (set_principal_enabled pc pid en)) = pc_mandates pc"
  "pc_reservations (snd (set_principal_enabled pc pid en)) = pc_reservations pc"
  by (simp_all add: policy_ops Let_def split: policy_splits)

lemma register_frame:
  "pc_principals (snd (register_mandate pc m)) = pc_principals pc"
  "pc_reservations (snd (register_mandate pc m)) = pc_reservations pc"
  by (simp_all add: policy_ops split: policy_splits)

lemma revoke_frame:
  "pc_principals (snd (revoke_mandate pc mid tm clk)) = pc_principals pc"
  "pc_reservations (snd (revoke_mandate pc mid tm clk)) = pc_reservations pc"
  by (simp_all add: policy_ops Let_def split: policy_splits)

lemma authorize_frame:
  "pc_principals (snd (authorize_and_reserve pc req tm clk)) = pc_principals pc"
  "pc_mandates (snd (authorize_and_reserve pc req tm clk)) = pc_mandates pc"
  by (simp_all add: policy_ops split: policy_splits)

lemma reconcile_frame:
  "pc_principals (snd (reconcile pc rq tm clk)) = pc_principals pc"
  "pc_mandates (snd (reconcile pc rq tm clk)) = pc_mandates pc"
  by (simp_all add: policy_ops Let_def split: policy_splits)

lemma release_frame:
  "pc_principals (snd (release_reservation pc rid pid t)) = pc_principals pc"
  "pc_mandates (snd (release_reservation pc rid pid t)) = pc_mandates pc"
  by (simp_all add: policy_ops split: policy_splits)

lemmas policy_frames [simp] =
  set_enabled_frame register_frame revoke_frame authorize_frame reconcile_frame release_frame

text \<open>The three ways an operation can change the reservations.\<close>

lemma authorize_reservations:
  "pc_reservations (snd (authorize_and_reserve pc req tm clk)) = pc_reservations pc \<or>
   (\<exists>now d. dict_get (pc_reservations pc) (ar_reservation req) = None
      \<and> policy_now tm clk = Inr now \<and> evaluate_locked pc req now = Inr d \<and> dc_allowed d
      \<and> fst (authorize_and_reserve pc req tm clk) = Inr d
      \<and> pc_reservations (snd (authorize_and_reserve pc req tm clk))
        = dict_set (ar_reservation req)
            \<lparr>rv_request = req, rv_at = now, rv_decision = d, rv_state = RESERVED, rv_actual = None\<rparr>
            (pc_reservations pc))"
  by (simp add: authorize_and_reserve_def split: policy_splits)

lemma reconcile_reservations:
  "pc_reservations (snd (reconcile pc rq tm clk)) = pc_reservations pc \<or>
   (\<exists>rv. dict_get (pc_reservations pc) (rr_reservation rq) = Some rv \<and> rv_state rv = RESERVED
      \<and> pc_reservations (snd (reconcile pc rq tm clk))
        = dict_set (rr_reservation rq)
            (rv\<lparr>rv_state := RECONCILED, rv_actual := Some (rr_actual rq)\<rparr>) (pc_reservations pc))"
  by (simp add: reconcile_def Let_def split: policy_splits)

lemma release_reservations:
  "pc_reservations (snd (release_reservation pc rid pid t)) = pc_reservations pc \<or>
   (\<exists>rv. dict_get (pc_reservations pc) rid = Some rv \<and> rv_state rv = RESERVED
      \<and> pc_reservations (snd (release_reservation pc rid pid t))
        = dict_set rid (rv\<lparr>rv_state := RELEASED\<rparr>) (pc_reservations pc))"
  by (simp add: release_reservation_def split: policy_splits)

text \<open>And the two ways an operation can change the mandates.\<close>

lemma register_mandates:
  "pc_mandates (snd (register_mandate pc m)) = pc_mandates pc \<or>
   ((dict_get (pc_mandates pc) (md_id m) = None \<or> dict_get (pc_mandates pc) (md_id m) = Some m)
    \<and> pc_mandates (snd (register_mandate pc m)) = dict_set (md_id m) m (pc_mandates pc))"
  by (simp add: register_mandate_def split: policy_splits)

lemma revoke_mandates:
  "pc_mandates (snd (revoke_mandate pc mid tm clk)) = pc_mandates pc \<or>
   (\<exists>m r. dict_get (pc_mandates pc) mid = Some m \<and> md_revoked m = None
      \<and> pc_mandates (snd (revoke_mandate pc mid tm clk))
        = dict_set mid (m\<lparr>md_revoked := Some r\<rparr>) (pc_mandates pc))"
  by (auto simp: revoke_mandate_def Let_def split: policy_splits)

lemma set_enabled_principals:
  "pc_principals (snd (set_principal_enabled pc pid en)) = pc_principals pc \<or>
   (\<exists>p. dict_get (pc_principals pc) pid = Some p
      \<and> pc_principals (snd (set_principal_enabled pc pid en))
        = dict_set pid (p\<lparr>pr_enabled := en\<rparr>) (pc_principals pc))"
  by (simp add: set_principal_enabled_def Let_def split: policy_splits)

text \<open>Each shape of change keeps the invariant.\<close>

lemma good_principals:
  assumes "policy_good pc" "pc_mandates pc' = pc_mandates pc"
    "pc_reservations pc' = pc_reservations pc"
    "pc_principals pc' = dict_set pid p (pc_principals pc)" "pr_id p = pid"
  shows "policy_good pc'"
  using assms by (auto simp: policy_good_def wf_reservation_def dict_get_set)

lemma good_mandates:
  assumes "policy_good pc" "pc_principals pc' = pc_principals pc"
    "pc_reservations pc' = pc_reservations pc"
    "pc_mandates pc' = dict_set mid m (pc_mandates pc)" "md_id m = mid"
  shows "policy_good pc'"
  using assms by (auto simp: policy_good_def wf_reservation_def dict_get_set)

lemma good_reservations:
  assumes "policy_good pc" "pc_principals pc' = pc_principals pc" "pc_mandates pc' = pc_mandates pc"
    "pc_reservations pc' = dict_set rid rv (pc_reservations pc)" "wf_reservation pc rid rv"
  shows "policy_good pc'"
  using assms by (auto simp: policy_good_def wf_reservation_def dict_get_set)

lemma good_same:
  assumes "policy_good pc" "pc_principals pc' = pc_principals pc" "pc_mandates pc' = pc_mandates pc"
    "pc_reservations pc' = pc_reservations pc"
  shows "policy_good pc'"
  using assms by (simp add: policy_good_def wf_reservation_def)

lemma set_enabled_good:
  assumes g: "policy_good pc"
  shows "policy_good (snd (set_principal_enabled pc pid en))"
  using set_enabled_principals [of pc pid en]
proof (elim disjE exE conjE)
  fix p assume "dict_get (pc_principals pc) pid = Some p"
  then have "pr_id (p\<lparr>pr_enabled := en\<rparr>) = pid" using policy_goodD(2) [OF g] by simp
  moreover assume upd: "pc_principals (snd (set_principal_enabled pc pid en))
    = dict_set pid (p\<lparr>pr_enabled := en\<rparr>) (pc_principals pc)"
  ultimately show ?thesis by (intro good_principals [OF g _ _ upd]) simp_all
qed (intro good_same [OF g], simp_all)

lemma register_good:
  assumes g: "policy_good pc"
  shows "policy_good (snd (register_mandate pc m))"
  using register_mandates [of pc m]
proof
  assume "pc_mandates (snd (register_mandate pc m)) = pc_mandates pc"
  then show ?thesis by (intro good_same [OF g]) simp_all
next
  assume "(dict_get (pc_mandates pc) (md_id m) = None
      \<or> dict_get (pc_mandates pc) (md_id m) = Some m)
    \<and> pc_mandates (snd (register_mandate pc m)) = dict_set (md_id m) m (pc_mandates pc)"
  then have upd: "pc_mandates (snd (register_mandate pc m)) = dict_set (md_id m) m (pc_mandates pc)" ..
  show ?thesis by (intro good_mandates [OF g _ _ upd]) simp_all
qed

lemma revoke_good:
  assumes g: "policy_good pc"
  shows "policy_good (snd (revoke_mandate pc mid tm clk))"
  using revoke_mandates [of pc mid tm clk]
proof (elim disjE exE conjE)
  fix m r assume "dict_get (pc_mandates pc) mid = Some m"
  then have "md_id (m\<lparr>md_revoked := Some r\<rparr>) = mid" using policy_goodD(3) [OF g] by simp
  moreover assume upd: "pc_mandates (snd (revoke_mandate pc mid tm clk))
    = dict_set mid (m\<lparr>md_revoked := Some r\<rparr>) (pc_mandates pc)"
  ultimately show ?thesis by (intro good_mandates [OF g _ _ upd]) simp_all
qed (intro good_same [OF g], simp_all)

lemma authorize_good:
  assumes g: "policy_good pc"
  shows "policy_good (snd (authorize_and_reserve pc req tm clk))"
  using authorize_reservations [of pc req tm clk]
proof (elim disjE exE conjE)
  fix now d
  assume ev: "evaluate_locked pc req now = Inr d" "dc_allowed d"
    and upd: "pc_reservations (snd (authorize_and_reserve pc req tm clk))
      = dict_set (ar_reservation req)
          \<lparr>rv_request = req, rv_at = now, rv_decision = d, rv_state = RESERVED, rv_actual = None\<rparr>
          (pc_reservations pc)"
  obtain m where "dict_get (pc_mandates pc) (ar_mandate req) = Some m"
    using ev by (rule evaluate_cases)
  with ev have "wf_reservation pc (ar_reservation req)
      \<lparr>rv_request = req, rv_at = now, rv_decision = d, rv_state = RESERVED, rv_actual = None\<rparr>"
    by (simp add: wf_reservation_def)
  then show ?thesis by (intro good_reservations [OF g _ _ upd]) simp_all
qed (intro good_same [OF g], simp_all)

lemma reconcile_good:
  assumes g: "policy_good pc"
  shows "policy_good (snd (reconcile pc rq tm clk))"
  using reconcile_reservations [of pc rq tm clk]
proof (elim disjE exE conjE)
  fix rv
  assume rv: "dict_get (pc_reservations pc) (rr_reservation rq) = Some rv"
    and upd: "pc_reservations (snd (reconcile pc rq tm clk)) = dict_set (rr_reservation rq)
      (rv\<lparr>rv_state := RECONCILED, rv_actual := Some (rr_actual rq)\<rparr>) (pc_reservations pc)"
  show ?thesis
    by (intro good_reservations [OF g _ _ upd])
      (use policy_goodD(4) [OF g rv] in \<open>simp_all add: wf_reservation_def\<close>)
qed (intro good_same [OF g], simp_all)

lemma release_good:
  assumes g: "policy_good pc"
  shows "policy_good (snd (release_reservation pc rid pid t))"
  using release_reservations [of pc rid pid t]
proof (elim disjE exE conjE)
  fix rv
  assume rv: "dict_get (pc_reservations pc) rid = Some rv" "rv_state rv = RESERVED"
    and upd: "pc_reservations (snd (release_reservation pc rid pid t))
      = dict_set rid (rv\<lparr>rv_state := RELEASED\<rparr>) (pc_reservations pc)"
  show ?thesis
    by (intro good_reservations [OF g _ _ upd])
      (use policy_goodD(4) [OF g rv(1)] rv(2) in \<open>simp_all add: wf_reservation_def\<close>)
qed (intro good_same [OF g], simp_all)

lemmas policy_ops_good =
  set_enabled_good register_good revoke_good authorize_good reconcile_good release_good

lemma policy_step_good: "policy_good pc \<Longrightarrow> policy_good (policy_step pc x)"
  by (cases x) (simp_all add: policy_ops_good)

section \<open>The ledgers\<close>

lemma reservation_frozen:
  assumes "policy_good pc" "dict_get (pc_reservations pc) i = Some rv" "rv_state rv \<noteq> RESERVED"
  shows "dict_get (pc_reservations (policy_step pc x)) i = Some rv"
proof (cases x)
  case (Authorize req tm clk)
  then show ?thesis using assms authorize_reservations [of pc req tm clk]
    by (auto simp: dict_get_set)
next
  case (Reconcile rq tm clk)
  then show ?thesis using assms reconcile_reservations [of pc rq tm clk]
    by (auto simp: dict_get_set)
next
  case (Release rid pid t)
  then show ?thesis using assms release_reservations [of pc rid pid t]
    by (auto simp: dict_get_set)
qed (use assms in simp_all)

lemma reservation_kept:
  assumes "dict_get (pc_reservations pc) i = Some rv"
  shows "dict_get (pc_reservations (policy_step pc x)) i \<noteq> None"
proof (cases x)
  case (Authorize req tm clk)
  then show ?thesis using assms authorize_reservations [of pc req tm clk]
    by (auto simp: dict_get_set)
next
  case (Reconcile rq tm clk)
  then show ?thesis using assms reconcile_reservations [of pc rq tm clk]
    by (auto simp: dict_get_set)
next
  case (Release rid pid t)
  then show ?thesis using assms release_reservations [of pc rid pid t]
    by (auto simp: dict_get_set)
qed (use assms in simp_all)

interpretation reservations: settlement_ledger policy_step policy_good
  "\<lambda>pc. dict_get (pc_reservations pc)" "\<lambda>rv. rv_state rv \<noteq> RESERVED"
  by unfold_locales (rule policy_step_good reservation_frozen reservation_kept; assumption)+

lemma mandate_frozen:
  assumes "dict_get (pc_mandates pc) i = Some m" "md_revoked m \<noteq> None"
  shows "dict_get (pc_mandates (policy_step pc x)) i = Some m"
proof (cases x)
  case (Register m')
  then show ?thesis using assms register_mandates [of pc m'] by (auto simp: dict_get_set)
next
  case (Revoke mid tm clk)
  then show ?thesis using assms revoke_mandates [of pc mid tm clk] by (auto simp: dict_get_set)
qed (use assms in simp_all)

lemma mandate_kept:
  assumes "dict_get (pc_mandates pc) i = Some m"
  shows "dict_get (pc_mandates (policy_step pc x)) i \<noteq> None"
proof (cases x)
  case (Register m')
  then show ?thesis using assms register_mandates [of pc m'] by (auto simp: dict_get_set)
next
  case (Revoke mid tm clk)
  then show ?thesis using assms revoke_mandates [of pc mid tm clk] by (auto simp: dict_get_set)
qed (use assms in simp_all)

interpretation mandates: settlement_ledger policy_step policy_good
  "\<lambda>pc. dict_get (pc_mandates pc)" "\<lambda>m. md_revoked m \<noteq> None"
  by unfold_locales (rule mandate_frozen mandate_kept; assumption)+

end
