(* ===== verification/Policy_Properties.thy ===== *)
theory Policy_Properties imports Policy_Laws begin

text \<open>
  What the policy core promises: exactly when a request is allowed, that a granted reservation is
  inside every budget, that budgets hold along whole runs, and the lifecycle of reservations and
  mandates.  The concrete core of the last section instantiates the hypotheses.
\<close>

section \<open>Accounting lemmas\<close>

lemma bucket_weight_simps:
  "bucket_weight pid t b rv = (if owned_by pid t rv \<and> in_bucket b rv then charge rv else 0)"
  by (simp add: bucket_weight_def)

lemma spend_fresh:
  assumes "dict_get (pc_reservations pc) k = None"
    and "pc_reservations pc' = dict_set k rv (pc_reservations pc)"
  shows "bucket_spend pc' pid t b = bucket_spend pc pid t b + bucket_weight pid t b rv"
  unfolding bucket_spend_def assms(2) using sum_dict_fresh [OF assms(1)] by blast

lemma spend_update:
  assumes "policy_good pc" and "dict_get (pc_reservations pc) k = Some rv"
    and "pc_reservations pc' = dict_set k rv' (pc_reservations pc)"
  shows "bucket_spend pc' pid t b
       = bucket_spend pc pid t b - bucket_weight pid t b rv + bucket_weight pid t b rv'"
  unfolding bucket_spend_def assms(3)
  using sum_dict_set [OF policy_goodD(1) [OF assms(1)] assms(2)] by blast

lemma spend_same:
  "pc_reservations pc' = pc_reservations pc \<Longrightarrow> bucket_spend pc' pid t b = bucket_spend pc pid t b"
  by (simp add: bucket_spend_def)

lemma charge_cases:
  "rv_state rv = RESERVED \<Longrightarrow> charge rv = ar_max (rv_request rv)"
  "rv_state rv = RECONCILED \<Longrightarrow> rv_actual rv = Some a \<Longrightarrow> charge rv = a"
  by (simp_all add: charge_def actual_part_def reserved_part_def)

lemma bucket_of_request:
  "in_bucket b \<lparr>rv_request = req, rv_at = now, rv_decision = d, rv_state = st, rv_actual = a\<rparr>
   \<longleftrightarrow> b \<in> set (request_buckets req now)"
  by (cases b) (auto simp: request_buckets_def)

lemma affordableD:
  "affordable pc m req now \<Longrightarrow> b \<in> set (request_buckets req now) \<Longrightarrow>
   bucket_spend pc (ar_principal req) (ar_tenant req) b + ar_max req \<le> bucket_limit b m"
  by (auto simp: affordable_def list_all_iff)

section \<open>Authorization\<close>

text \<open>C15: A request is allowed exactly when its principal exists, is enabled and is in the request's
  tenant, the named mandate belongs to that principal and tenant, the mandate's owner is an enabled
  human of the tenant, the mandate is live, the action, provider and model are in scope, and the
  per-run, daily and monthly commitments plus the maximum cost stay within the mandate's limits.\<close>

theorem policy_allowed_iff:
  "(\<exists>d. evaluate_locked pc req now = Inr d \<and> dc_allowed d) \<longleftrightarrow>
   (\<exists>p m. dict_get (pc_principals pc) (ar_principal req) = Some p \<and> pr_enabled p
      \<and> pr_tenant p = ar_tenant req
      \<and> dict_get (pc_mandates pc) (ar_mandate req) = Some m
      \<and> md_principal m = ar_principal req \<and> md_tenant m = ar_tenant req
      \<and> owner_valid pc m req \<and> mandate_live m now \<and> in_scope m req
      \<and> affordable pc m req now)"
  (is "?L \<longleftrightarrow> ?R")
proof
  assume ?L
  then obtain d where d: "evaluate_locked pc req now = Inr d" "dc_allowed d" by blast
  show ?R using d by (rule evaluate_cases) blast
next
  assume ?R
  then show ?L using evaluate_allows by blast
qed

lemma authorize_fresh_cases:
  assumes "authorize_and_reserve pc req tm clk = (Inr d, pc')" and "dc_allowed d"
    and "dict_get (pc_reservations pc) (ar_reservation req) = None"
  obtains now where "policy_now tm clk = Inr now" "evaluate_locked pc req now = Inr d"
    "pc' = pc\<lparr>pc_reservations := dict_set (ar_reservation req)
       \<lparr>rv_request = req, rv_at = now, rv_decision = d, rv_state = RESERVED, rv_actual = None\<rparr>
       (pc_reservations pc)\<rparr>"
  using assms by (auto simp: authorize_and_reserve_def split: sum.splits if_splits)

lemma snapshot_after_reserve:
  assumes "dict_get (pc_reservations pc) (ar_reservation req) = None"
    and "snapshot_locked pc req now = Inr s"
  shows "snapshot_locked (pc\<lparr>pc_reservations := dict_set (ar_reservation req)
       \<lparr>rv_request = req, rv_at = now, rv_decision = d, rv_state = RESERVED, rv_actual = None\<rparr>
       (pc_reservations pc)\<rparr>) req now
     = Inr (s\<lparr>bs_run_reserved := bs_run_reserved s + ar_max req,
              bs_daily_reserved := bs_daily_reserved s + ar_max req,
              bs_monthly_reserved := bs_monthly_reserved s + ar_max req\<rparr>)"
  using assms
  by (auto simp: snapshot_locked_def dict_set_fresh snapshot_step_def counts_for_def
      actual_part_def reserved_part_def Let_def split: option.splits)

text \<open>C16: When a fresh reservation is granted, the budget reported in the decision is exactly the
  snapshot of the ledger after the reservation was stored, and every committed amount in it is
  within the corresponding limit of the mandate.\<close>

theorem policy_grant_within_limits:
  assumes "authorize_and_reserve pc req tm clk = (Inr d, pc')" and "dc_allowed d"
    and "dict_get (pc_reservations pc) (ar_reservation req) = None"
    and "policy_now tm clk = Inr now"
  shows "\<exists>s. snapshot_locked pc' req now = Inr s \<and> dc_budget d = Some s
      \<and> run_committed s \<le> bs_per_run_limit s
      \<and> daily_committed s \<le> bs_daily_limit s
      \<and> monthly_committed s \<le> bs_monthly_limit s"
proof -
  obtain m s where ev: "evaluate_locked pc req now = Inr d"
    and pc': "pc' = pc\<lparr>pc_reservations := dict_set (ar_reservation req)
       \<lparr>rv_request = req, rv_at = now, rv_decision = d, rv_state = RESERVED, rv_actual = None\<rparr>
       (pc_reservations pc)\<rparr>"
    using authorize_fresh_cases [OF assms(1-3)] assms(4) by (metis sum.inject(2))
  obtain m s where m: "dict_get (pc_mandates pc) (ar_mandate req) = Some m"
    and s: "snapshot_locked pc req now = Inr s" and d: "d = budget_decision m req s"
    using ev assms(2) by (rule evaluate_cases)
  have lim: "bs_per_run_limit s = md_per_run m" "bs_daily_limit s = md_daily m"
    "bs_monthly_limit s = md_monthly m"
    using s m by (auto simp: snapshot_locked_def Let_def)
  show ?thesis
    using assms(2) unfolding pc' snapshot_after_reserve [OF assms(3) s] d
    by (auto simp: budget_decision_def committed_defs lim split: if_splits)
qed

text \<open>C17: Repeating a granted request returns the stored decision and leaves the core unchanged,
  whatever the clock says.\<close>

theorem policy_authorize_replay:
  assumes "authorize_and_reserve pc req tm clk = (Inr d, pc')" and "dc_allowed d"
  shows "authorize_and_reserve pc' req tm' clk' = (Inr d, pc')"
proof (cases "dict_get (pc_reservations pc) (ar_reservation req)")
  case None
  show ?thesis using assms None
    by (rule authorize_fresh_cases) (simp add: authorize_and_reserve_def dict_get_set)
next
  case (Some rv)
  with assms show ?thesis by (auto simp: authorize_and_reserve_def split: if_splits)
qed

section \<open>Budgets along runs\<close>

text \<open>What a run may do for the cap \<open>L\<close> on one bucket of one principal: mandates of the principal
  stay within the cap and requests are non-negative (as the constructor ensures).  Providers may
  report any cost: what they report above the reservation is the bucket's overrun.\<close>

definition excess :: "reservation \<Rightarrow> rat" where
  "excess rv = (case rv_actual rv of
     Some a \<Rightarrow> if rv_state rv = RECONCILED then max 0 (a - ar_max (rv_request rv)) else 0
   | None \<Rightarrow> 0)"

definition excess_weight :: "string \<Rightarrow> tenant \<Rightarrow> bucket \<Rightarrow> reservation \<Rightarrow> rat" where
  "excess_weight pid t b rv = (if owned_by pid t rv \<and> in_bucket b rv then excess rv else 0)"

definition bucket_overrun :: "policy_core \<Rightarrow> string \<Rightarrow> tenant \<Rightarrow> bucket \<Rightarrow> rat" where
  "bucket_overrun pc pid t b =
     sum_list (map (excess_weight pid t b) (dict_values (pc_reservations pc)))"

lemma excess_open: "rv_state rv \<noteq> RECONCILED \<Longrightarrow> excess rv = 0"
  by (simp add: excess_def split: option.splits)

lemma overrun_fresh:
  assumes "dict_get (pc_reservations pc) k = None"
    and "pc_reservations pc' = dict_set k rv (pc_reservations pc)"
  shows "bucket_overrun pc' pid t b = bucket_overrun pc pid t b + excess_weight pid t b rv"
  unfolding bucket_overrun_def assms(2) using sum_dict_fresh [OF assms(1)] by blast

lemma overrun_update:
  assumes "policy_good pc" and "dict_get (pc_reservations pc) k = Some rv"
    and "pc_reservations pc' = dict_set k rv' (pc_reservations pc)"
  shows "bucket_overrun pc' pid t b
       = bucket_overrun pc pid t b - excess_weight pid t b rv + excess_weight pid t b rv'"
  unfolding bucket_overrun_def assms(3)
  using sum_dict_set [OF policy_goodD(1) [OF assms(1)] assms(2)] by blast

fun capped_op :: "rat \<Rightarrow> string \<Rightarrow> bucket \<Rightarrow> policy_op \<Rightarrow> bool" where
  "capped_op L pid b (Register m) \<longleftrightarrow> md_principal m \<noteq> pid \<or> bucket_limit b m \<le> L"
| "capped_op L pid b (Authorize req tm clk) \<longleftrightarrow> 0 \<le> ar_max req"
| "capped_op L pid b _ \<longleftrightarrow> True"

definition under_cap :: "rat \<Rightarrow> string \<Rightarrow> tenant \<Rightarrow> bucket \<Rightarrow> policy_core \<Rightarrow> bool" where
  "under_cap L pid t b pc \<longleftrightarrow> bucket_spend pc pid t b \<le> L + bucket_overrun pc pid t b
     \<and> (\<forall>k m. dict_get (pc_mandates pc) k = Some m \<longrightarrow> md_principal m = pid \<longrightarrow> bucket_limit b m \<le> L)
     \<and> (\<forall>k rv. dict_get (pc_reservations pc) k = Some rv \<longrightarrow> 0 \<le> ar_max (rv_request rv))"

lemma under_capD:
  assumes "under_cap L pid t b pc"
  shows "bucket_spend pc pid t b \<le> L + bucket_overrun pc pid t b"
    and "dict_get (pc_mandates pc) k = Some m \<Longrightarrow> md_principal m = pid \<Longrightarrow> bucket_limit b m \<le> L"
    and "dict_get (pc_reservations pc) k = Some rv \<Longrightarrow> 0 \<le> ar_max (rv_request rv)"
  using assms by (auto simp: under_cap_def)

lemma under_cap_same:
  "under_cap L pid t b pc \<Longrightarrow> pc_mandates pc' = pc_mandates pc \<Longrightarrow>
   pc_reservations pc' = pc_reservations pc \<Longrightarrow> under_cap L pid t b pc'"
  by (simp add: under_cap_def bucket_spend_def bucket_overrun_def)

lemma under_cap_mandate:
  "under_cap L pid t b pc \<Longrightarrow> pc_mandates pc' = dict_set k m (pc_mandates pc) \<Longrightarrow>
   pc_reservations pc' = pc_reservations pc \<Longrightarrow> md_principal m \<noteq> pid \<or> bucket_limit b m \<le> L \<Longrightarrow>
   under_cap L pid t b pc'"
  by (auto simp: under_cap_def bucket_spend_def bucket_overrun_def dict_get_set)

lemma under_cap_reservation:
  "under_cap L pid t b pc \<Longrightarrow> pc_mandates pc' = pc_mandates pc \<Longrightarrow>
   pc_reservations pc' = dict_set k rv (pc_reservations pc) \<Longrightarrow> 0 \<le> ar_max (rv_request rv) \<Longrightarrow>
   bucket_spend pc' pid t b \<le> L + bucket_overrun pc' pid t b \<Longrightarrow> under_cap L pid t b pc'"
  by (auto simp: under_cap_def dict_get_set)

lemma under_cap_authorize:
  assumes g: "policy_good pc" and u: "under_cap L pid t b pc" and nn: "0 \<le> ar_max req"
  shows "under_cap L pid t b (snd (authorize_and_reserve pc req tm clk))"
  using authorize_reservations [of pc req tm clk]
proof (elim disjE exE conjE)
  fix now d
  assume fresh: "dict_get (pc_reservations pc) (ar_reservation req) = None"
    and ev: "evaluate_locked pc req now = Inr d" "dc_allowed d"
    and upd: "pc_reservations (snd (authorize_and_reserve pc req tm clk))
      = dict_set (ar_reservation req)
          \<lparr>rv_request = req, rv_at = now, rv_decision = d, rv_state = RESERVED, rv_actual = None\<rparr>
          (pc_reservations pc)"
  let ?rv = "\<lparr>rv_request = req, rv_at = now, rv_decision = d, rv_state = RESERVED, rv_actual = None\<rparr>"
  obtain m where m: "dict_get (pc_mandates pc) (ar_mandate req) = Some m"
    "md_principal m = ar_principal req" and aff: "affordable pc m req now"
    using ev by (rule evaluate_cases)
  have over: "0 \<le> bucket_overrun pc pid t b"
    by (auto simp: bucket_overrun_def excess_weight_def excess_def split: option.splits
        intro!: sum_list_nonneg)
  have "bucket_spend pc pid t b + bucket_weight pid t b ?rv \<le> L + bucket_overrun pc pid t b"
  proof (cases "owned_by pid t ?rv \<and> b \<in> set (request_buckets req now)")
    case True
    then have "bucket_spend pc pid t b + ar_max req \<le> bucket_limit b m"
      using affordableD [OF aff] by (auto simp: owned_by_def)
    moreover have "bucket_limit b m \<le> L"
      using True under_capD(2) [OF u m(1)] m(2) by (simp add: owned_by_def)
    ultimately show ?thesis
      using True over by (simp add: bucket_weight_def bucket_of_request charge_cases)
  next
    case False
    then have "bucket_weight pid t b ?rv = 0"
      by (auto simp: bucket_weight_def bucket_of_request)
    then show ?thesis using under_capD(1) [OF u] by simp
  qed
  then show ?thesis
    by (intro under_cap_reservation [OF u _ upd]) (simp_all add: nn spend_fresh [OF fresh upd] overrun_fresh [OF fresh upd]
        excess_weight_def excess_open)
qed (intro under_cap_same [OF u], simp_all)

lemma under_cap_settle:
  assumes g: "policy_good pc" and u: "under_cap L pid t b pc"
    and rv: "dict_get (pc_reservations pc) k = Some rv" "rv_state rv = RESERVED"
    and upd: "pc_reservations pc' = dict_set k rv' (pc_reservations pc)"
      "pc_mandates pc' = pc_mandates pc"
    and rv': "rv_request rv' = rv_request rv" "rv_at rv' = rv_at rv"
      "charge rv' \<le> ar_max (rv_request rv) + excess rv'" "0 \<le> excess rv'"
  shows "under_cap L pid t b pc'"
proof -
  have eq: "owned_by pid t rv' = owned_by pid t rv" "in_bucket b rv' = in_bucket b rv"
    using rv' by (cases b; simp add: owned_by_def)+
  have "bucket_weight pid t b rv' - bucket_weight pid t b rv
      \<le> excess_weight pid t b rv' - excess_weight pid t b rv"
    using rv rv' eq by (simp add: bucket_weight_def excess_weight_def excess_open charge_cases)
  then have "bucket_spend pc' pid t b \<le> L + bucket_overrun pc' pid t b"
    using under_capD(1) [OF u] spend_update [OF g rv(1) upd(1), of pid t b]
      overrun_update [OF g rv(1) upd(1), of pid t b] by simp
  then show ?thesis
    using under_capD(3) [OF u rv(1)] rv' by (intro under_cap_reservation [OF u upd(2,1)]) simp_all
qed

lemma under_cap_step:
  assumes g: "policy_good pc" and u: "under_cap L pid t b pc" and c: "capped_op L pid b x"
  shows "under_cap L pid t b (policy_step pc x)"
proof (cases x)
  case (SetEnabled p en)
  then show ?thesis by (simp add: under_cap_same [OF u])
next
  case (Register m)
  show ?thesis using register_mandates [of pc m] c Register
    by (auto intro: under_cap_same [OF u] under_cap_mandate [OF u])
next
  case (Revoke mid tm clk)
  have "md_principal m \<noteq> pid \<or> bucket_limit b (m\<lparr>md_revoked := r\<rparr>) \<le> L"
    if "dict_get (pc_mandates pc) mid = Some m" for m r
    using under_capD(2) [OF u that] by (cases b) auto
  then show ?thesis using revoke_mandates [of pc mid tm clk] Revoke
    by (auto intro: under_cap_same [OF u] under_cap_mandate [OF u])
next
  case (Authorize req tm clk)
  then show ?thesis using under_cap_authorize [OF g u] c by simp
next
  case (Reconcile rq tm clk)
  from reconcile_reservations [of pc rq tm clk] show ?thesis
  proof (elim disjE exE conjE)
    fix rv
    assume rv: "dict_get (pc_reservations pc) (rr_reservation rq) = Some rv" "rv_state rv = RESERVED"
      and upd: "pc_reservations (snd (reconcile pc rq tm clk)) = dict_set (rr_reservation rq)
        (rv\<lparr>rv_state := RECONCILED, rv_actual := Some (rr_actual rq)\<rparr>) (pc_reservations pc)"
    show ?thesis unfolding Reconcile policy_step.simps
      by (rule under_cap_settle [OF g u rv upd]) (simp_all add: charge_cases excess_def)
  qed (intro under_cap_same [OF u], simp_all add: Reconcile)
next
  case (Release rid p t')
  show ?thesis using release_reservations [of pc rid p t'] Release under_capD(3) [OF u]
    by (auto intro: under_cap_same [OF u] under_cap_settle [OF g u]
        simp: charge_released excess_open)
qed

lemma under_cap_run:
  "policy_good pc \<Longrightarrow> under_cap L pid t b pc \<Longrightarrow> list_all (capped_op L pid b) ops \<Longrightarrow>
   under_cap L pid t b (foldl policy_step pc ops)"
  by (induction ops arbitrary: pc) (simp_all add: under_cap_step policy_step_good)

text \<open>C18: Along every run in which the principal's mandates stay within a cap, what the principal
  has committed in a run, a day or a month never passes the cap by more than what settled calls
  reported above their own reservations, however many mandates, runs and requests are interleaved
  and whatever cost the providers report.\<close>

theorem policy_budget_never_overrun:
  assumes "policy_good pc" and "under_cap L pid t b pc" and "list_all (capped_op L pid b) ops"
  shows "bucket_spend (policy_run pc ops) pid t b \<le> L + bucket_overrun (policy_run pc ops) pid t b"
  using under_capD(1) [OF under_cap_run [OF assms]] by (simp add: policy_run_def)

section \<open>The lifecycle of reservations\<close>

text \<open>C16: A reservation that was reconciled or released keeps its state, cost and request for ever.\<close>

theorem policy_settlement_final:
  assumes "policy_good pc" and "dict_get (pc_reservations pc) rid = Some rv"
    and "rv_state rv \<noteq> RESERVED"
  shows "dict_get (pc_reservations (policy_run pc ops)) rid = Some rv"
  unfolding policy_run_def using assms by (rule reservations.run_settled_frozen)

lemma accepted_total:
  assumes "policy_good pc" "dict_get (pc_mandates pc) (ar_mandate (rv_request rv)) \<noteq> None"
    "policy_now tm clk = Inr now"
  obtains r where "accepted_result pc rv rq code tm clk = Inr r" "rs_accepted r" "rs_code r = code"
proof -
  obtain s where "snapshot_locked pc (rv_request rv) now = Inr s"
    using snapshot_total [OF assms(2)] by blast
  with assms(3) that show ?thesis
    by (simp add: accepted_result_def mk_reconcile_result_def)
qed

text \<open>With a valid clock no reconciliation can fail with an exception in a well-formed core: the
  mandate whose limits the answer quotes is always still registered.\<close>

theorem policy_reconcile_total:
  assumes "policy_good pc" and "policy_now tm clk = Inr now"
  shows "\<exists>r. fst (reconcile pc rq tm clk) = Inr r"
proof (cases "dict_get (pc_reservations pc) (rr_reservation rq)")
  case None
  then show ?thesis by (simp add: reconcile_def)
next
  case (Some rv)
  then have md: "dict_get (pc_mandates pc) (ar_mandate (rv_request rv)) \<noteq> None"
    using policy_goodD(4) [OF assms(1)] by (simp add: wf_reservation_def)
  let ?pc' = "snd (reconcile pc rq tm clk)"
  have "\<exists>r. accepted_result pc0 rv rq code tm clk = Inr r"
    if "pc_mandates pc0 = pc_mandates pc" for pc0 code
    using md that snapshot_total [of pc0 "rv_request rv" now] assms(2)
    by (auto simp: accepted_result_def)
  with Some show ?thesis
    by (auto simp: reconcile_def Let_def split: reservation_state.split)
qed

text \<open>C13: Once a reconciliation is accepted, repeating it is accepted as idempotent, a different
  amount is refused as a conflict, a release is refused, and none of them changes the core.\<close>

theorem policy_reconcile_idempotent:
  assumes "policy_good pc" and "reconcile pc rq tm clk = (Inr r, pc')" and "rs_accepted r"
    and "policy_now tm' clk' = Inr now'"
    and "rr_reservation rq' = rr_reservation rq" and "rr_principal rq' = rr_principal rq"
    and "rr_tenant rq' = rr_tenant rq" and "rr_actual rq' \<noteq> rr_actual rq"
  shows "(\<exists>r'. reconcile pc' rq tm' clk' = (Inr r', pc') \<and> rs_code r' = RC_IDEMPOTENT
             \<and> rs_accepted r')
    \<and> (\<exists>r'. reconcile pc' rq' tm' clk' = (Inr r', pc') \<and> rs_code r' = RC_RECONCILIATION_CONFLICT
             \<and> \<not> rs_accepted r')
    \<and> release_reservation pc' (rr_reservation rq) (rr_principal rq) (rr_tenant rq) = (False, pc')"
proof -
  have good': "policy_good pc'" using reconcile_good [OF assms(1), of rq tm clk] assms(2) by simp
  obtain rv where rv: "dict_get (pc_reservations pc') (rr_reservation rq) = Some rv"
    "rv_state rv = RECONCILED" "rv_actual rv = Some (rr_actual rq)"
    "ar_principal (rv_request rv) = rr_principal rq" "ar_tenant (rv_request rv) = rr_tenant rq"
    using assms(2,3)
    by (auto simp: reconcile_def mk_reconcile_result_def Let_def dict_get_set
        split: option.splits if_splits reservation_state.splits)
  have "dict_get (pc_mandates pc') (ar_mandate (rv_request rv)) \<noteq> None"
    using policy_goodD(4) [OF good' rv(1)] by (simp add: wf_reservation_def)
  then obtain r' where "accepted_result pc' rv rq RC_IDEMPOTENT tm' clk' = Inr r'"
    "rs_accepted r'" "rs_code r' = RC_IDEMPOTENT"
    using accepted_total [OF good' _ assms(4)] by metis
  with rv assms(5-8) show ?thesis
    by (simp add: reconcile_def release_reservation_def mk_reconcile_result_def)
qed

lemma settled_bucket:
  "in_bucket b (rv\<lparr>rv_state := st, rv_actual := a\<rparr>) = in_bucket b rv"
  "in_bucket b (rv\<lparr>rv_state := st\<rparr>) = in_bucket b rv"
  "owned_by pid t (rv\<lparr>rv_state := st, rv_actual := a\<rparr>) = owned_by pid t rv"
  "owned_by pid t (rv\<lparr>rv_state := st\<rparr>) = owned_by pid t rv"
  by (cases b; simp add: owned_by_def)+

lemma release_accounting:
  assumes "policy_good pc" and "dict_get (pc_reservations pc) rid = Some rv"
    and "rv_state rv = RESERVED" and "owned_by pid t rv"
  shows "bucket_spend (snd (release_reservation pc rid pid t)) pid t b
       = bucket_spend pc pid t b - (if in_bucket b rv then ar_max (rv_request rv) else 0)"
proof -
  have "pc_reservations (snd (release_reservation pc rid pid t))
      = dict_set rid (rv\<lparr>rv_state := RELEASED\<rparr>) (pc_reservations pc)"
    using assms(2-4) by (simp add: release_reservation_def owned_by_def)
  from spend_update [OF assms(1,2) this] show ?thesis
    using assms(3,4) by (simp add: bucket_weight_def settled_bucket charge_cases charge_released)
qed

lemma reconcile_accounting:
  assumes "policy_good pc" and "dict_get (pc_reservations pc) (rr_reservation rq) = Some rv"
    and "rv_state rv = RESERVED" and "owned_by (rr_principal rq) (rr_tenant rq) rv"
  shows "bucket_spend (snd (reconcile pc rq tm clk)) (rr_principal rq) (rr_tenant rq) b
       = bucket_spend pc (rr_principal rq) (rr_tenant rq) b
         + (if in_bucket b rv then rr_actual rq - ar_max (rv_request rv) else 0)"
proof -
  have "pc_reservations (snd (reconcile pc rq tm clk))
      = dict_set (rr_reservation rq)
          (rv\<lparr>rv_state := RECONCILED, rv_actual := Some (rr_actual rq)\<rparr>) (pc_reservations pc)"
    using assms(2-4) by (simp add: reconcile_def owned_by_def Let_def)
  from spend_update [OF assms(1,2) this] show ?thesis
    using assms(3,4) by (simp add: bucket_weight_def settled_bucket charge_cases)
qed

text \<open>Settling moves a principal's commitment by exactly the settled amount: a release gives
  back the reserved maximum, a reconciliation replaces it by the actual cost, in every bucket the
  reservation was made in and in no other.\<close>

theorem policy_settlement_accounting:
  assumes "policy_good pc" and "dict_get (pc_reservations pc) (rr_reservation rq) = Some rv"
    and "rv_state rv = RESERVED" and "owned_by (rr_principal rq) (rr_tenant rq) rv"
  shows "bucket_spend (snd (release_reservation pc (rr_reservation rq) (rr_principal rq)
             (rr_tenant rq))) (rr_principal rq) (rr_tenant rq) b
       = bucket_spend pc (rr_principal rq) (rr_tenant rq) b
         - (if in_bucket b rv then ar_max (rv_request rv) else 0)
    \<and> bucket_spend (snd (reconcile pc rq tm clk)) (rr_principal rq) (rr_tenant rq) b
       = bucket_spend pc (rr_principal rq) (rr_tenant rq) b
         + (if in_bucket b rv then rr_actual rq - ar_max (rv_request rv) else 0)"
  using release_accounting [OF assms] reconcile_accounting [OF assms] by blast

section \<open>Mandates\<close>


definition keyed :: "(string, principal) dict \<Rightarrow> bool" where
  "keyed d \<longleftrightarrow> wf_dict d \<and> (\<forall>k p. dict_get d k = Some p \<longrightarrow> pr_id p = k)"

lemma keyed_set: "keyed d \<Longrightarrow> keyed (dict_set (pr_id p) p d)"
  by (simp add: keyed_def dict_get_set)

lemma keyed_fold: "keyed d \<Longrightarrow> keyed (foldl (\<lambda>d p. dict_set (pr_id p) p d) d ps)"
  by (induction ps arbitrary: d) (simp_all add: keyed_set)

lemma keyed_good:
  "keyed d \<Longrightarrow> policy_good \<lparr>pc_principals = d, pc_mandates = [], pc_reservations = []\<rparr>"
  by (simp add: policy_good_def keyed_def)

lemma policy_init_good:
  assumes "policy_init catalog = Inr pc"
  shows "policy_good pc"
proof -
  have "pc = \<lparr>pc_principals = foldl (\<lambda>d p. dict_set (pr_id p) p d) [] catalog,
              pc_mandates = [], pc_reservations = []\<rparr>"
    using assms by (simp add: policy_init_def Let_def split: if_split_asm)
  moreover have "keyed (foldl (\<lambda>d p. dict_set (pr_id p) p d) [] catalog)"
    by (rule keyed_fold) (simp add: keyed_def)
  ultimately show ?thesis by (simp only: keyed_good)
qed

text \<open>The core is well-formed after construction from any catalogue and after any sequence of
  operations: keys match identifiers, stored decisions were grants, every reservation's mandate is
  registered, and a cost is recorded exactly for the reconciled ones.\<close>

theorem policy_reachable_good:
  assumes "policy_init catalog = Inr pc"
  shows "policy_good (policy_run pc ops)"
  unfolding policy_run_def by (rule reservations.run_good) (rule policy_init_good [OF assms])

section \<open>A concrete core\<close>

text \<open>One personal agent, one mandate of a personal human, one billable request.\<close>

definition ex_clock :: py_datetime where
  "ex_clock = \<lparr>dt_wall = 63900000000000000, dt_offset = Some 0\<rparr>"

definition ex_now :: instant where
  "ex_now = 63900000000000000"

definition ex_mandate :: mandate where
  "ex_mandate = \<lparr>md_id = ''m1'', md_owner = ''personal-laptop-human'',
     md_principal = ''mini-a-agent'', md_tenant = PERSONAL, md_actions = {''provider:invoke''},
     md_providers = {''openai''}, md_models = {''gpt''}, md_per_run = 5, md_daily = 8,
     md_monthly = 20, md_issued = 63800000000000000, md_expires = 64000000000000000,
     md_revoked = None\<rparr>"

definition ex_request :: auth_request where
  "ex_request = \<lparr>ar_principal = ''mini-a-agent'', ar_tenant = PERSONAL, ar_mandate = ''m1'',
     ar_action = ''provider:invoke'', ar_run = ''run-1'', ar_reservation = ''r1'',
     ar_provider = Some ''openai'', ar_model = Some ''gpt'', ar_max = 3\<rparr>"

definition ex_settle :: reconcile_request where
  "ex_settle = \<lparr>rr_reservation = ''r1'', rr_principal = ''mini-a-agent'', rr_tenant = PERSONAL,
     rr_actual = 2\<rparr>"

definition ex_core :: policy_core where
  "ex_core = \<lparr>pc_principals = map (\<lambda>p. (pr_id p, p)) (six_principals False),
     pc_mandates = [(''m1'', ex_mandate)], pc_reservations = []\<rparr>"

definition ex_decision :: decision where
  "ex_decision = (case fst (authorize_and_reserve ex_core ex_request None ex_clock) of
     Inr d \<Rightarrow> d | Inl e \<Rightarrow> mk_decision ex_request D_OWNER_INVALID None)"

text \<open>The core with the reservation open, and with it settled.\<close>

definition ex_open :: policy_core where
  "ex_open = snd (authorize_and_reserve ex_core ex_request None ex_clock)"

definition ex_reservation :: reservation where
  "ex_reservation = \<lparr>rv_request = ex_request, rv_at = ex_now, rv_decision = ex_decision,
     rv_state = RESERVED, rv_actual = None\<rparr>"

definition ex_settled :: policy_core where
  "ex_settled = snd (reconcile ex_open ex_settle None ex_clock)"

definition ex_settled_reservation :: reservation where
  "ex_settled_reservation = ex_reservation\<lparr>rv_state := RECONCILED, rv_actual := Some 2\<rparr>"

definition ex_ops :: "policy_op list" where
  "ex_ops = [Authorize ex_request None ex_clock, Reconcile ex_settle None ex_clock]"

definition ex_month :: bucket where
  "ex_month = Month_Bucket (month_of ex_now)"

lemma ex_now_eq: "policy_now None ex_clock = Inr ex_now"
  by code_simp

lemma ex_good: "policy_good ex_core"
  by (simp add: policy_good_def ex_core_def wf_dict_def six_principals_def ex_mandate_def)

lemma ex_fresh: "dict_get (pc_reservations ex_core) (ar_reservation ex_request) = None"
  by code_simp

lemma ex_grant: "authorize_and_reserve ex_core ex_request None ex_clock = (Inr ex_decision, ex_open)"
  by code_simp

lemma ex_allowed: "dc_allowed ex_decision"
  by code_simp

lemma ex_open_good: "policy_good ex_open"
  unfolding ex_open_def by (rule authorize_good [OF ex_good])

lemma ex_open_reservations: "pc_reservations ex_open = [(''r1'', ex_reservation)]"
  by code_simp

lemma ex_open_reservation: "dict_get (pc_reservations ex_open) ''r1'' = Some ex_reservation"
  by (simp add: ex_open_reservations)

lemma ex_settled_good: "policy_good ex_settled"
  unfolding ex_settled_def by (rule reconcile_good [OF ex_open_good])

lemma ex_settled_reservations:
  "pc_reservations ex_settled = [(''r1'', ex_settled_reservation)]"
  by (simp add: ex_settled_def reconcile_def ex_settle_def ex_open_reservations Let_def
      ex_reservation_def ex_request_def ex_settled_reservation_def)

lemma ex_settled_get: "dict_get (pc_reservations ex_settled) ''r1'' = Some ex_settled_reservation"
  by (simp add: ex_settled_reservations)

lemma ex_mandate_kept:
  "dict_get (pc_mandates ex_settled) (ar_mandate (rv_request ex_reservation)) \<noteq> None"
  by (simp add: ex_settled_def ex_open_def ex_core_def ex_reservation_def ex_request_def)

lemma ex_under_cap: "under_cap 20 ''mini-a-agent'' PERSONAL ex_month ex_core"
  by (simp add: under_cap_def ex_core_def bucket_spend_def bucket_overrun_def ex_mandate_def ex_month_def)

lemma ex_step: "policy_step ex_core (Authorize ex_request None ex_clock) = ex_open"
  by (simp add: ex_open_def)

lemma ex_sel:
  "rr_reservation ex_settle = ''r1''" "rr_actual ex_settle = 2" "ar_max ex_request = 3"
  "rv_request ex_reservation = ex_request"
  by (simp_all add: ex_settle_def ex_request_def ex_reservation_def)

lemma ex_capped: "list_all (capped_op 20 ''mini-a-agent'' ex_month) ex_ops"
  by (simp add: ex_ops_def ex_sel)

lemma ex_run: "policy_run ex_core ex_ops = ex_settled"
  by (simp add: policy_run_def ex_ops_def ex_grant ex_settled_def)

lemma ex_settled_spend: "bucket_spend ex_settled ''mini-a-agent'' PERSONAL ex_month = 2"
  by (simp add: bucket_spend_def ex_settled_reservations bucket_weight_def owned_by_def
      ex_settled_reservation_def ex_reservation_def ex_request_def ex_month_def charge_cases)

section \<open>The hypotheses can hold\<close>

theorem policy_grant_within_limits_witness:
  "\<exists>s. snapshot_locked ex_open ex_request ex_now = Inr s \<and> dc_budget ex_decision = Some s
      \<and> run_committed s \<le> bs_per_run_limit s
      \<and> daily_committed s \<le> bs_daily_limit s
      \<and> monthly_committed s \<le> bs_monthly_limit s"
  by (rule policy_grant_within_limits [OF ex_grant ex_allowed ex_fresh ex_now_eq])

theorem policy_authorize_replay_witness:
  "authorize_and_reserve ex_open ex_request (Some ex_clock) ex_clock = (Inr ex_decision, ex_open)"
  by (rule policy_authorize_replay [OF ex_grant ex_allowed])

theorem policy_budget_never_overrun_witness:
  "bucket_spend (policy_run ex_core ex_ops) ''mini-a-agent'' PERSONAL ex_month
     \<le> 20 + bucket_overrun (policy_run ex_core ex_ops) ''mini-a-agent'' PERSONAL ex_month
   \<and> bucket_spend (policy_run ex_core ex_ops) ''mini-a-agent'' PERSONAL ex_month = 2"
proof
  show "bucket_spend (policy_run ex_core ex_ops) ''mini-a-agent'' PERSONAL ex_month
      \<le> 20 + bucket_overrun (policy_run ex_core ex_ops) ''mini-a-agent'' PERSONAL ex_month"
    by (rule policy_budget_never_overrun [OF ex_good ex_under_cap ex_capped])
  show "bucket_spend (policy_run ex_core ex_ops) ''mini-a-agent'' PERSONAL ex_month = 2"
    by (simp only: ex_run ex_settled_spend)
qed

theorem policy_settlement_final_witness:
  "dict_get (pc_reservations (policy_run ex_settled ex_ops)) ''r1'' = Some ex_settled_reservation"
  by (rule policy_settlement_final [OF ex_settled_good ex_settled_get])
    (simp add: ex_settled_reservation_def)

theorem policy_reconcile_total_witness:
  "\<exists>r. fst (reconcile ex_open ex_settle None ex_clock) = Inr r"
  by (rule policy_reconcile_total [OF ex_open_good ex_now_eq])

theorem policy_reconcile_idempotent_witness:
  "(\<exists>r'. reconcile ex_settled ex_settle None ex_clock = (Inr r', ex_settled)
        \<and> rs_code r' = RC_IDEMPOTENT \<and> rs_accepted r')
   \<and> (\<exists>r'. reconcile ex_settled (ex_settle\<lparr>rr_actual := 1\<rparr>) None ex_clock = (Inr r', ex_settled)
        \<and> rs_code r' = RC_RECONCILIATION_CONFLICT \<and> \<not> rs_accepted r')
   \<and> release_reservation ex_settled (rr_reservation ex_settle) (rr_principal ex_settle)
        (rr_tenant ex_settle) = (False, ex_settled)"
proof -
  obtain r where acc: "accepted_result ex_settled ex_reservation ex_settle RC_RECONCILED None ex_clock
      = Inr r" "rs_accepted r"
    using accepted_total [OF ex_settled_good _ ex_now_eq, of ex_reservation ex_settle] ex_mandate_kept
    by metis
  have r: "reconcile ex_open ex_settle None ex_clock = (Inr r, ex_settled)"
    using acc(1) by (simp add: prod_eq_iff ex_settled_def [symmetric])
      (simp add: ex_settled_def reconcile_def ex_settle_def ex_open_reservations Let_def
        ex_reservation_def ex_request_def)
  show ?thesis
    by (rule policy_reconcile_idempotent [OF ex_open_good r acc(2) ex_now_eq])
      (simp_all add: ex_settle_def)
qed

theorem policy_settlement_accounting_witness:
  "bucket_spend (snd (release_reservation ex_open (rr_reservation ex_settle)
             (rr_principal ex_settle) (rr_tenant ex_settle)))
       (rr_principal ex_settle) (rr_tenant ex_settle) ex_month
     = bucket_spend ex_open (rr_principal ex_settle) (rr_tenant ex_settle) ex_month
       - (if in_bucket ex_month ex_reservation then ar_max (rv_request ex_reservation) else 0)
   \<and> bucket_spend (snd (reconcile ex_open ex_settle None ex_clock))
       (rr_principal ex_settle) (rr_tenant ex_settle) ex_month
     = bucket_spend ex_open (rr_principal ex_settle) (rr_tenant ex_settle) ex_month
       + (if in_bucket ex_month ex_reservation
          then rr_actual ex_settle - ar_max (rv_request ex_reservation) else 0)"
  by (rule policy_settlement_accounting [OF ex_open_good])
    (simp_all add: ex_settle_def ex_open_reservation ex_reservation_def ex_request_def owned_by_def)


theorem policy_reachable_good_witness:
  "\<exists>pc. policy_init (six_principals True) = Inr pc \<and> policy_good (policy_run pc ex_ops)"
proof -
  have "\<exists>pc. policy_init (six_principals True) = Inr pc"
    by (simp add: policy_init_def six_principals_def)
  then show ?thesis using policy_reachable_good by blast
qed

end
