(* ===== verification/Service_Types.thy ===== *)
theory Service_Types imports Access_Types begin

text \<open>
  The durable service state of \<open>service_store.py\<close>: result codes, the value objects with their
  validating constructors, and the six SQLite tables as row lists.  Text columns that hold an
  enumeration value, a UTC timestamp, a day or a month are kept as the value they encode; the three
  JSON columns of a policy hold sorted arrays of strings and are kept as the sets they decode to.
\<close>

section \<open>Result codes\<close>

datatype run_binding_code =
  B_CREATED | B_REPLAY | B_IDEMPOTENCY_CONFLICT | B_RUN_ID_CONFLICT | B_PRINCIPAL_DISABLED

datatype call_reservation_code =
    C_RESERVED | C_REPLAY | C_RESERVATION_CONFLICT | C_UNKNOWN_PRINCIPAL | C_PRINCIPAL_DISABLED
  | C_TENANT_MISMATCH | C_RUN_NOT_OWNED | C_UNKNOWN_POLICY | C_POLICY_REVOKED
  | C_POLICY_NOT_ACTIVE | C_POLICY_EXPIRED | C_ACTION_DENIED | C_PROVIDER_DENIED
  | C_MODEL_DENIED | C_MAX_INFLIGHT_EXCEEDED | C_DAILY_LIMIT_EXCEEDED | C_MONTHLY_LIMIT_EXCEEDED

datatype call_reconciliation_code =
  K_RECONCILED | K_IDEMPOTENT | K_NOT_FOUND | K_RELEASED | K_CONFLICT

section \<open>Validation helpers\<close>

definition check_text :: "string \<Rightarrow> string \<Rightarrow> unit result" where
  "check_text v name =
     (if trimmed v then Inr ()
      else Inl (ValueError (name @ '' must be a non-empty trimmed string'')))"

lemma check_text_ok [result_simps]: "check_text v n = Inr u \<longleftrightarrow> trimmed v"
  by (simp add: check_text_def)

definition positive_or_zero :: "int \<Rightarrow> string \<Rightarrow> unit result" where
  "positive_or_zero v name =
     (if v < 0 then Inl (ValueError (name @ '' must be a non-negative integer'')) else Inr ())"

definition check_positive :: "int \<Rightarrow> string \<Rightarrow> unit result" where
  "check_positive v name =
     (if v < 1 then Inl (ValueError (name @ '' must be a positive integer'')) else Inr ())"

lemma check_positive_ok [result_simps]: "check_positive v n = Inr u \<longleftrightarrow> 1 \<le> v"
  by (simp add: check_positive_def)

lemma positive_or_zero_ok [result_simps]: "positive_or_zero v n = Inr u \<longleftrightarrow> 0 \<le> v"
  by (simp add: positive_or_zero_def not_less)

definition text_set :: "string list \<Rightarrow> string \<Rightarrow> string set result" where
  "text_set vs name = rbind (rmap (\<lambda>v. check_text v name) vs) (\<lambda>_. Inr (set vs))"

text \<open>\<open>_utc_now\<close>.\<close>

definition utc_now :: "py_datetime option \<Rightarrow> py_datetime \<Rightarrow> instant result" where
  "utc_now tm clk = utc ''current time'' (case tm of Some d \<Rightarrow> d | None \<Rightarrow> clk)"

definition max_bearer_token_chars :: nat where
  "max_bearer_token_chars = 512"

text \<open>The shared validation prefix of \<open>put_bearer_token\<close> and \<open>rotate_bearer_token\<close>.\<close>

definition check_bearer ::
  "string \<Rightarrow> string \<Rightarrow> string \<Rightarrow> py_datetime \<Rightarrow> py_datetime \<Rightarrow> (instant \<times> instant) result" where
  "check_bearer tid pid tok issued_at expires_at =
     rbind (check_text tid ''token_id'') (\<lambda>_.
     rbind (check_text pid ''principal_id'') (\<lambda>_.
     rbind (check_text tok ''bearer_token'') (\<lambda>_.
       require (\<not> (length tok < 32 \<or> length tok > max_bearer_token_chars
                     \<or> list_ex py_isspace tok))
         (ValueError ''bearer_token must be a 32-512 character high-entropy non-whitespace value'')
     (rbind (utc ''issued_at'' issued_at) (\<lambda>issued.
      rbind (utc ''expires_at'' expires_at) (\<lambda>expires.
       require (issued < expires) (ValueError ''expires_at must be later than issued_at'')
         (Inr (issued, expires))))))))"

section \<open>Value objects\<close>

record action_result =
  ax_allowed :: bool
  ax_code :: call_reservation_code
  ax_policy :: string
  ax_principal :: string
  ax_action :: string

record authenticated_principal =
  au_principal :: principal
  au_token :: string

record service_policy =
  sv_id :: string
  sv_principal :: string
  sv_tenant :: tenant
  sv_actions :: "string set"
  sv_providers :: "string set"
  sv_models :: "string set"
  sv_inflight :: int
  sv_daily :: int
  sv_monthly :: int
  sv_issued :: instant
  sv_expires :: instant
  sv_revoked :: "instant option"

text \<open>\<open>ServicePolicy.__post_init__\<close>.\<close>

definition mk_service_policy ::
  "string \<Rightarrow> string \<Rightarrow> tenant \<Rightarrow> string list \<Rightarrow> string list \<Rightarrow> string list \<Rightarrow> int \<Rightarrow> int \<Rightarrow> int \<Rightarrow>
   py_datetime \<Rightarrow> py_datetime \<Rightarrow> py_datetime option \<Rightarrow> service_policy result" where
  "mk_service_policy pid subj t acts provs mods infl daily monthly issued_at expires_at revoked_at =
     rbind (check_text pid ''policy_id'') (\<lambda>_.
     rbind (check_text subj ''principal_id'') (\<lambda>_.
     rbind (text_set acts ''allowed_actions'') (\<lambda>as.
     rbind (text_set provs ''allowed_providers'') (\<lambda>ps.
     rbind (text_set mods ''allowed_models'') (\<lambda>ms.
     rbind (check_positive infl ''max_inflight'') (\<lambda>_.
     rbind (check_positive daily ''daily_call_units'') (\<lambda>_.
     rbind (check_positive monthly ''monthly_call_units'') (\<lambda>_.
     rbind (utc ''issued_at'' issued_at) (\<lambda>i.
     rbind (utc ''expires_at'' expires_at) (\<lambda>e.
       require (i < e) (ValueError ''expires_at must be later than issued_at'')
     (rbind (opt_utc ''revoked_at'' revoked_at) (\<lambda>r.
        Inr \<lparr>sv_id = pid, sv_principal = subj, sv_tenant = t, sv_actions = as,
             sv_providers = ps, sv_models = ms, sv_inflight = infl, sv_daily = daily,
             sv_monthly = monthly, sv_issued = i, sv_expires = e, sv_revoked = r\<rparr>))))))))))))"

definition wf_policy :: "service_policy \<Rightarrow> bool" where
  "wf_policy p \<longleftrightarrow> trimmed (sv_id p) \<and> trimmed (sv_principal p) \<and> 1 \<le> sv_inflight p
     \<and> 1 \<le> sv_daily p \<and> 1 \<le> sv_monthly p \<and> sv_issued p < sv_expires p"

lemma mk_service_policy_wf:
  "mk_service_policy a b c d e f g h i j k l = Inr p \<Longrightarrow> wf_policy p"
  by (auto simp: mk_service_policy_def wf_policy_def result_simps)

record run_binding =
  bn_code :: run_binding_code
  bn_principal :: string
  bn_run :: string
  bn_key :: string
  bn_payload :: string

definition binding_created :: "run_binding \<Rightarrow> bool" where
  "binding_created b \<longleftrightarrow> bn_code b = B_CREATED"

definition binding_replay :: "run_binding \<Rightarrow> bool" where
  "binding_replay b \<longleftrightarrow> bn_code b = B_REPLAY"

definition binding_conflict :: "run_binding \<Rightarrow> bool" where
  "binding_conflict b \<longleftrightarrow> bn_code b \<in> {B_IDEMPOTENCY_CONFLICT, B_RUN_ID_CONFLICT}"

record call_request =
  cq_reservation :: string
  cq_policy :: string
  cq_principal :: string
  cq_tenant :: tenant
  cq_run :: string
  cq_action :: string
  cq_provider :: string
  cq_model :: string
  cq_units :: int

definition mk_call_request ::
  "string \<Rightarrow> string \<Rightarrow> string \<Rightarrow> tenant \<Rightarrow> string \<Rightarrow> string \<Rightarrow> string \<Rightarrow> string \<Rightarrow> int \<Rightarrow>
   call_request result" where
  "mk_call_request rid pol pid t run act prov mdl units =
     rbind (check_text rid ''reservation_id'') (\<lambda>_.
     rbind (check_text pol ''policy_id'') (\<lambda>_.
     rbind (check_text pid ''principal_id'') (\<lambda>_.
     rbind (check_text run ''run_id'') (\<lambda>_.
     rbind (check_text act ''action'') (\<lambda>_.
     rbind (check_text prov ''provider'') (\<lambda>_.
     rbind (check_text mdl ''model'') (\<lambda>_.
     rbind (check_positive units ''units'') (\<lambda>_.
       Inr \<lparr>cq_reservation = rid, cq_policy = pol, cq_principal = pid, cq_tenant = t,
            cq_run = run, cq_action = act, cq_provider = prov, cq_model = mdl,
            cq_units = units\<rparr>))))))))"

text \<open>What the constructor's checks leave: a request exists only in this form.\<close>

definition wf_call_request :: "call_request \<Rightarrow> bool" where
  "wf_call_request q \<longleftrightarrow> trimmed (cq_reservation q) \<and> trimmed (cq_policy q)
     \<and> trimmed (cq_principal q) \<and> trimmed (cq_run q) \<and> trimmed (cq_action q)
     \<and> trimmed (cq_provider q) \<and> trimmed (cq_model q) \<and> 1 \<le> cq_units q"

lemma mk_call_request_wf: "mk_call_request a b c d e f g h i = Inr q \<Longrightarrow> wf_call_request q"
  by (auto simp: mk_call_request_def wf_call_request_def result_simps)

record call_result =
  ca_allowed :: bool
  ca_code :: call_reservation_code
  ca_reservation :: string
  ca_principal :: string
  ca_run :: string
  ca_units :: int
  ca_inflight :: int
  ca_daily :: int
  ca_monthly :: int

record call_reconciliation =
  kr_accepted :: bool
  kr_code :: call_reconciliation_code
  kr_reservation :: string
  kr_principal :: string
  kr_actual :: int
  kr_exceeded_reservation :: bool
  kr_exceeded_daily :: bool
  kr_exceeded_monthly :: bool

section \<open>Tables\<close>

type_synonym digest = string

datatype retire_reason = Revoked | Rotated

datatype call_state = CS_Reserved | CS_Reconciled | CS_Released

record token_row =
  tk_id :: string
  tk_principal :: string
  tk_hash :: digest
  tk_issued :: instant
  tk_expires :: instant
  tk_revoked :: "instant option"

record tombstone_row =
  tb_hash :: digest
  tb_principal :: string
  tb_token :: string
  tb_retired :: instant
  tb_reason :: retire_reason

record binding_row =
  rb_run :: string
  rb_principal :: string
  rb_key :: string
  rb_payload :: string
  rb_created :: instant

record call_row =
  cr_id :: string
  cr_policy :: string
  cr_principal :: string
  cr_run :: string
  cr_action :: string
  cr_provider :: string
  cr_model :: string
  cr_reserved :: int
  cr_actual :: "int option"
  cr_state :: call_state
  cr_reserved_at :: instant
  cr_day :: int
  cr_month :: "int \<times> int"
  cr_reconciled_at :: "instant option"

record service_db =
  db_principals :: "principal list"
  db_tokens :: "token_row list"
  db_tombstones :: "tombstone_row list"
  db_policies :: "service_policy list"
  db_bindings :: "binding_row list"
  db_calls :: "call_row list"

definition empty_service_db :: service_db where
  "empty_service_db = \<lparr>db_principals = [], db_tokens = [], db_tombstones = [],
     db_policies = [], db_bindings = [], db_calls = []\<rparr>"

text \<open>Row lookups by primary key.\<close>

definition find_principal :: "service_db \<Rightarrow> string \<Rightarrow> principal option" where
  "find_principal db pid = row_where (\<lambda>r. pr_id r = pid) (db_principals db)"

definition find_policy :: "service_db \<Rightarrow> string \<Rightarrow> service_policy option" where
  "find_policy db pid = row_where (\<lambda>r. sv_id r = pid) (db_policies db)"

definition find_call :: "service_db \<Rightarrow> string \<Rightarrow> call_row option" where
  "find_call db rid = row_where (\<lambda>r. cr_id r = rid) (db_calls db)"

definition find_tombstone :: "service_db \<Rightarrow> digest \<Rightarrow> tombstone_row option" where
  "find_tombstone db h = row_where (\<lambda>r. tb_hash r = h) (db_tombstones db)"

definition find_run :: "service_db \<Rightarrow> string \<Rightarrow> binding_row option" where
  "find_run db rid = row_where (\<lambda>r. rb_run r = rid) (db_bindings db)"

definition find_key :: "service_db \<Rightarrow> string \<Rightarrow> string \<Rightarrow> binding_row option" where
  "find_key db pid k = row_where (\<lambda>r. rb_principal r = pid \<and> rb_key r = k) (db_bindings db)"

lemmas table_finds = find_principal_def find_policy_def find_call_def find_tombstone_def
  find_run_def find_key_def

end
