(* ===== verification/Service_Store.thy ===== *)
theory Service_Store imports Service_Types begin

text \<open>
  The operations of \<open>ServiceStore\<close>.  The SHA-256 of a token is the argument \<open>sha\<close>; clock readings
  are arguments.  Each operation that writes is one transaction, so an exception leaves the
  database as it was.
\<close>

section \<open>Principals\<close>

text \<open>\<open>put_principals\<close>: one principal of the loop.\<close>

definition put_principal :: "principal \<Rightarrow> service_db \<Rightarrow> service_db result" where
  "put_principal p db =
     (case find_principal db (pr_id p) of
        Some ex \<Rightarrow>
          if pr_tenant ex \<noteq> pr_tenant p \<or> pr_kind ex \<noteq> pr_kind p
            then Inl (ValueError (''principal identity changed: '' @ pr_id p))
          else Inr db
      | None \<Rightarrow> Inr (db\<lparr>db_principals := db_principals db @ [p]\<rparr>))"

fun put_principals_loop :: "principal list \<Rightarrow> service_db \<Rightarrow> service_db result" where
  "put_principals_loop [] db = Inr db"
| "put_principals_loop (p # ps) db = rbind (put_principal p db) (put_principals_loop ps)"

definition put_principals :: "principal list \<Rightarrow> service_db \<Rightarrow> unit result \<times> service_db" where
  "put_principals ps =
     write_txn (\<lambda>db. rbind (put_principals_loop ps db) (\<lambda>db'. Inr ((), db')))"

definition store_set_principal_enabled ::
  "string \<Rightarrow> bool \<Rightarrow> service_db \<Rightarrow> unit result \<times> service_db" where
  "store_set_principal_enabled pid en =
     write_txn (\<lambda>db.
       if count_where (\<lambda>r. pr_id r = pid) (db_principals db) \<noteq> 1 then Inl (KeyError pid)
       else Inr ((), db\<lparr>db_principals :=
              update_where (\<lambda>r. pr_id r = pid) (\<lambda>r. r\<lparr>pr_enabled := en\<rparr>) (db_principals db)\<rparr>))"

section \<open>Bearer tokens\<close>

definition token_is_retired :: "service_db \<Rightarrow> digest \<Rightarrow> bool" where
  "token_is_retired db h \<longleftrightarrow> find_tombstone db h \<noteq> None"

text \<open>
  \<open>_retire_token_row\<close>: \<open>INSERT OR IGNORE\<close> keyed by the digest.  The retirement time is the given
  one, else the row's revocation time, else the wall clock.
\<close>

definition retire_token_row ::
  "token_row \<Rightarrow> retire_reason \<Rightarrow> instant option \<Rightarrow> instant \<Rightarrow> service_db \<Rightarrow> service_db" where
  "retire_token_row row reason retired_at wall db =
     (if token_is_retired db (tk_hash row) then db
      else db\<lparr>db_tombstones := db_tombstones db @
        [\<lparr>tb_hash = tk_hash row, tb_principal = tk_principal row, tb_token = tk_id row,
          tb_retired = (case retired_at of Some t \<Rightarrow> t
                        | None \<Rightarrow> (case tk_revoked row of Some t \<Rightarrow> t | None \<Rightarrow> wall)),
          tb_reason = reason\<rparr>]\<rparr>)"

fun retire_rows ::
  "(token_row \<Rightarrow> retire_reason) \<Rightarrow> instant option \<Rightarrow> instant \<Rightarrow> token_row list \<Rightarrow>
   service_db \<Rightarrow> service_db" where
  "retire_rows reason ret wall [] db = db"
| "retire_rows reason ret wall (r # rs) db =
     retire_rows reason ret wall rs (retire_token_row r (reason r) ret wall db)"

definition delete_tokens :: "(token_row \<Rightarrow> bool) \<Rightarrow> service_db \<Rightarrow> service_db" where
  "delete_tokens p db = db\<lparr>db_tokens := delete_where p (db_tokens db)\<rparr>"

text \<open>\<open>INSERT INTO service_bearer_tokens\<close> with its constraints.\<close>

definition insert_token ::
  "string \<Rightarrow> string \<Rightarrow> digest \<Rightarrow> instant \<Rightarrow> instant \<Rightarrow> service_db \<Rightarrow> service_db result" where
  "insert_token tid pid h issued expires db =
     (if row_where (\<lambda>r. tk_id r = tid \<or> tk_hash r = h) (db_tokens db) \<noteq> None
        then Inl (IntegrityError ''UNIQUE constraint failed'')
      else if find_principal db pid = None
        then Inl (IntegrityError ''FOREIGN KEY constraint failed'')
      else Inr (db\<lparr>db_tokens := db_tokens db @
        [\<lparr>tk_id = tid, tk_principal = pid, tk_hash = h, tk_issued = issued,
          tk_expires = expires, tk_revoked = None\<rparr>]\<rparr>))"

definition put_bearer_token ::
  "(string \<Rightarrow> digest) \<Rightarrow> string \<Rightarrow> string \<Rightarrow> string \<Rightarrow> py_datetime \<Rightarrow> py_datetime \<Rightarrow>
   service_db \<Rightarrow> unit result \<times> service_db" where
  "put_bearer_token sha tid pid tok issued_at expires_at db0 =
     (case check_bearer tid pid tok issued_at expires_at of
        Inl e \<Rightarrow> (Inl e, db0)
      | Inr (issued, expires) \<Rightarrow>
          (let h = sha tok in
           write_txn (\<lambda>db.
             if token_is_retired db h
               then Inl (ValueError ''bearer token verifier is retired and cannot be reused'')
             else if (case row_where (\<lambda>r. tk_hash r = h) (db_tokens db) of
                        None \<Rightarrow> False
                      | Some r \<Rightarrow> tk_id r \<noteq> tid \<or> tk_principal r \<noteq> pid)
               then Inl (ValueError ''bearer token verifier is already registered'')
             else (case row_where (\<lambda>r. tk_id r = tid) (db_tokens db) of
                Some r \<Rightarrow>
                  if tk_principal r \<noteq> pid \<or> tk_hash r \<noteq> h \<or> tk_issued r \<noteq> issued
                     \<or> tk_expires r \<noteq> expires
                    then Inl (ValueError ''token_id is already registered'')
                  else Inr ((), db)
              | None \<Rightarrow>
                  rbind (insert_token tid pid h issued expires db) (\<lambda>db'. Inr ((), db')))) db0))"

text \<open>\<open>rotate_bearer_token\<close>; \<open>wall\<close> is the clock reading of \<open>_utc_now(None)\<close>.\<close>

definition rotate_bearer_token ::
  "(string \<Rightarrow> digest) \<Rightarrow> string \<Rightarrow> string \<Rightarrow> string \<Rightarrow> py_datetime \<Rightarrow> py_datetime \<Rightarrow> instant \<Rightarrow>
   service_db \<Rightarrow> unit result \<times> service_db" where
  "rotate_bearer_token sha tid pid tok issued_at expires_at wall db0 =
     (case check_bearer tid pid tok issued_at expires_at of
        Inl e \<Rightarrow> (Inl e, db0)
      | Inr (issued, expires) \<Rightarrow>
          (let h = sha tok in
           write_txn (\<lambda>db.
             if find_principal db pid = None then Inl (KeyError pid)
             else if token_is_retired db h
               then Inl (ValueError ''bearer token verifier is retired and cannot be reused'')
             else
               (let rows = sort_key tk_id (db_tokens db) in
                case row_where (\<lambda>r. tk_hash r = h) rows of
                  Some m \<Rightarrow>
                    if tk_principal m \<noteq> pid \<or> tk_revoked m \<noteq> None
                      then Inl (ValueError ''bearer token verifier is already registered'')
                    else
                      Inr ((), delete_tokens (\<lambda>r. tk_principal r = pid \<and> tk_id r \<noteq> tk_id m)
                        (retire_rows (\<lambda>r. Rotated) None wall
                          (rows_where (\<lambda>r. tk_principal r = pid \<and> tk_id r \<noteq> tk_id m) rows) db))
                | None \<Rightarrow>
                    rbind (insert_token tid pid h issued expires
                      (delete_tokens (\<lambda>r. tk_principal r = pid)
                        (retire_rows (\<lambda>r. if tk_revoked r \<noteq> None then Revoked else Rotated)
                          None wall (rows_where (\<lambda>r. tk_principal r = pid) rows) db)))
                      (\<lambda>db'. Inr ((), db')))) db0))"

definition revoke_bearer_token ::
  "string \<Rightarrow> py_datetime option \<Rightarrow> py_datetime \<Rightarrow> service_db \<Rightarrow> bool result \<times> service_db" where
  "revoke_bearer_token tid tm clk db0 =
     (case utc_now tm clk of
        Inl e \<Rightarrow> (Inl e, db0)
      | Inr now \<Rightarrow>
          write_txn (\<lambda>db.
            case row_where (\<lambda>r. tk_id r = tid) (db_tokens db) of
              None \<Rightarrow> Inr (False, db)
            | Some r \<Rightarrow> Inr (True, delete_tokens (\<lambda>r. tk_id r = tid)
                                 (retire_token_row r Revoked (Some now) now db))) db0)"

definition revoke_principal_tokens ::
  "string \<Rightarrow> py_datetime option \<Rightarrow> py_datetime \<Rightarrow> service_db \<Rightarrow> nat result \<times> service_db" where
  "revoke_principal_tokens pid tm clk db0 =
     (case rbind (check_text pid ''principal_id'') (\<lambda>_. utc_now tm clk) of
        Inl e \<Rightarrow> (Inl e, db0)
      | Inr now \<Rightarrow>
          write_txn (\<lambda>db.
            if find_principal db pid = None then Inl (KeyError pid)
            else
              (let rows = rows_where (\<lambda>r. tk_principal r = pid) (db_tokens db) in
               Inr (length rows,
                    delete_tokens (\<lambda>r. tk_principal r = pid)
                      (retire_rows (\<lambda>r. Revoked) (Some now) now rows db)))) db0)"

text \<open>The data part of \<open>_migrate\<close>: rows revoked in place by older versions become tombstones.\<close>

definition migrate_tokens :: "service_db \<Rightarrow> service_db" where
  "migrate_tokens db =
     delete_tokens (\<lambda>r. tk_revoked r \<noteq> None)
       (retire_rows (\<lambda>r. Revoked) None 0 (rows_where (\<lambda>r. tk_revoked r \<noteq> None) (db_tokens db)) db)"

text \<open>
  \<open>authenticate_bearer\<close>: every joined row is compared, the last match in token order is kept.
\<close>

definition join_principal :: "service_db \<Rightarrow> token_row \<Rightarrow> (token_row \<times> principal) list" where
  "join_principal db t =
     (case find_principal db (tk_principal t) of None \<Rightarrow> [] | Some p \<Rightarrow> [(t, p)])"

definition match_token :: "digest \<Rightarrow> (token_row \<times> principal) list \<Rightarrow> (token_row \<times> principal) option" where
  "match_token h rows =
     foldl (\<lambda>matched row. if tk_hash (fst row) = h then Some row else matched) None rows"

definition authenticate_bearer ::
  "(string \<Rightarrow> digest) \<Rightarrow> service_db \<Rightarrow> string \<Rightarrow> py_datetime option \<Rightarrow> py_datetime \<Rightarrow>
   authenticated_principal option result" where
  "authenticate_bearer sha db tok tm clk =
     rbind (check_text tok ''bearer_token'') (\<lambda>_.
     rbind (utc_now tm clk) (\<lambda>now.
       Inr (case match_token (sha tok)
                   (concat (map (join_principal db) (sort_key tk_id (db_tokens db)))) of
              None \<Rightarrow> None
            | Some (t, p) \<Rightarrow>
                if \<not> pr_enabled p \<or> tk_revoked t \<noteq> None then None
                else if now < tk_issued t then None
                else if tk_expires t \<le> now then None
                else Some \<lparr>au_principal = \<lparr>pr_id = pr_id p, pr_tenant = pr_tenant p,
                                pr_kind = pr_kind p, pr_enabled = True\<rparr>,
                           au_token = tk_id t\<rparr>)))"

section \<open>Policies\<close>

definition put_policy ::
  "service_policy \<Rightarrow> service_db \<Rightarrow> service_policy result \<times> service_db" where
  "put_policy pol =
     write_txn (\<lambda>db.
       case find_principal db (sv_principal pol) of
         None \<Rightarrow> Inl (ValueError ''policy principal is not configured'')
       | Some p \<Rightarrow>
           if pr_tenant p \<noteq> sv_tenant pol
             then Inl (ValueError ''policy tenant does not match principal'')
           else
             (case find_policy db (sv_id pol) of
                Some ex \<Rightarrow>
                  if ex\<lparr>sv_revoked := None\<rparr> \<noteq> pol\<lparr>sv_revoked := None\<rparr>
                    then Inl (ValueError ''policy_id is already registered'')
                  else Inr (ex, db)
              | None \<Rightarrow> Inr (pol, db\<lparr>db_policies := db_policies db @ [pol]\<rparr>)))"

text \<open>The checks on a policy's window shared by \<open>authorize_action\<close> and \<open>reserve_call\<close>.\<close>

definition policy_window :: "service_policy \<Rightarrow> tenant \<Rightarrow> instant \<Rightarrow> call_reservation_code option" where
  "policy_window pol t now =
     (if sv_tenant pol \<noteq> t then Some C_TENANT_MISMATCH
      else if (case sv_revoked pol of None \<Rightarrow> False | Some r \<Rightarrow> r \<le> now) then Some C_POLICY_REVOKED
      else if now < sv_issued pol then Some C_POLICY_NOT_ACTIVE
      else if sv_expires pol \<le> now then Some C_POLICY_EXPIRED
      else None)"

definition principal_gate :: "service_db \<Rightarrow> string \<Rightarrow> tenant \<Rightarrow> call_reservation_code option" where
  "principal_gate db pid t =
     (case find_principal db pid of
        None \<Rightarrow> Some C_UNKNOWN_PRINCIPAL
      | Some p \<Rightarrow>
          if \<not> pr_enabled p then Some C_PRINCIPAL_DISABLED
          else if pr_tenant p \<noteq> t then Some C_TENANT_MISMATCH
          else None)"

definition action_code ::
  "service_db \<Rightarrow> string \<Rightarrow> string \<Rightarrow> tenant \<Rightarrow> string \<Rightarrow> instant \<Rightarrow> call_reservation_code" where
  "action_code db pol_id pid t act now =
     (case principal_gate db pid t of
        Some c \<Rightarrow> c
      | None \<Rightarrow>
          (case find_policy db pol_id of
             None \<Rightarrow> C_UNKNOWN_POLICY
           | Some pol \<Rightarrow>
               if sv_principal pol \<noteq> pid then C_UNKNOWN_POLICY
               else (case policy_window pol t now of
                       Some c \<Rightarrow> c
                     | None \<Rightarrow> if act \<notin> sv_actions pol then C_ACTION_DENIED else C_RESERVED)))"

definition authorize_action ::
  "service_db \<Rightarrow> string \<Rightarrow> string \<Rightarrow> tenant \<Rightarrow> string \<Rightarrow> py_datetime option \<Rightarrow> py_datetime \<Rightarrow>
   action_result result" where
  "authorize_action db pol_id pid t act tm clk =
     rbind (check_text pol_id ''policy_id'') (\<lambda>_.
     rbind (check_text pid ''principal_id'') (\<lambda>_.
     rbind (check_text act ''action'') (\<lambda>_.
     rbind (utc_now tm clk) (\<lambda>now.
       (let c = action_code db pol_id pid t act now in
        Inr \<lparr>ax_allowed = (c = C_RESERVED), ax_code = c, ax_policy = pol_id,
             ax_principal = pid, ax_action = act\<rparr>)))))"

definition revoke_policy ::
  "string \<Rightarrow> py_datetime option \<Rightarrow> py_datetime \<Rightarrow> service_db \<Rightarrow>
   service_policy option result \<times> service_db" where
  "revoke_policy pol_id tm clk db0 =
     (case utc_now tm clk of
        Inl e \<Rightarrow> (Inl e, db0)
      | Inr now \<Rightarrow>
          write_txn (\<lambda>db.
            if count_where (\<lambda>r. sv_id r = pol_id) (db_policies db) \<noteq> 1 then Inl (KeyError pol_id)
            else
              (let db' = db\<lparr>db_policies := update_where (\<lambda>r. sv_id r = pol_id)
                     (\<lambda>r. r\<lparr>sv_revoked :=
                        (case sv_revoked r of Some t \<Rightarrow> Some t | None \<Rightarrow> Some now)\<rparr>)
                     (db_policies db)\<rparr> in
               Inr (find_policy db' pol_id, db'))) db0)"

section \<open>Run bindings\<close>

definition mk_binding ::
  "run_binding_code \<Rightarrow> string \<Rightarrow> string \<Rightarrow> string \<Rightarrow> string \<Rightarrow> run_binding" where
  "mk_binding c pid run k payload =
     \<lparr>bn_code = c, bn_principal = pid, bn_run = run, bn_key = k, bn_payload = payload\<rparr>"

definition bind_run_body ::
  "string \<Rightarrow> string \<Rightarrow> string \<Rightarrow> string \<Rightarrow> instant \<Rightarrow> service_db \<Rightarrow> run_binding \<times> service_db" where
  "bind_run_body pid k run payload now db =
     (case find_principal db pid of
        None \<Rightarrow> (mk_binding B_PRINCIPAL_DISABLED pid run k payload, db)
      | Some p \<Rightarrow>
          if \<not> pr_enabled p then (mk_binding B_PRINCIPAL_DISABLED pid run k payload, db)
          else
            (case find_key db pid k of
               Some ex \<Rightarrow>
                 (mk_binding (if rb_payload ex = payload then B_REPLAY else B_IDEMPOTENCY_CONFLICT)
                    pid (rb_run ex) k (rb_payload ex), db)
             | None \<Rightarrow>
                 (case find_run db run of
                    Some oc \<Rightarrow>
                      (mk_binding B_RUN_ID_CONFLICT (rb_principal oc) run (rb_key oc)
                         (rb_payload oc), db)
                  | None \<Rightarrow>
                      (mk_binding B_CREATED pid run k payload,
                       db\<lparr>db_bindings := db_bindings db @
                         [\<lparr>rb_run = run, rb_principal = pid, rb_key = k, rb_payload = payload,
                           rb_created = now\<rparr>]\<rparr>))))"

definition bind_run ::
  "string \<Rightarrow> string \<Rightarrow> string \<Rightarrow> string \<Rightarrow> py_datetime option \<Rightarrow> py_datetime \<Rightarrow>
   service_db \<Rightarrow> run_binding result \<times> service_db" where
  "bind_run pid k run payload tm clk db0 =
     (case rbind (check_text pid ''principal_id'') (\<lambda>_.
           rbind (check_text k ''idempotency_key'') (\<lambda>_.
           rbind (check_text run ''run_id'') (\<lambda>_.
           rbind (check_text payload ''payload_hash'') (\<lambda>_. utc_now tm clk)))) of
        Inl e \<Rightarrow> (Inl e, db0)
      | Inr now \<Rightarrow> write_txn (\<lambda>db. Inr (bind_run_body pid k run payload now db)) db0)"

definition run_owner :: "service_db \<Rightarrow> string \<Rightarrow> string option" where
  "run_owner db run = map_option rb_principal (find_run db run)"

definition list_run_bindings :: "service_db \<Rightarrow> run_binding list" where
  "list_run_bindings db =
     map (\<lambda>r. mk_binding B_REPLAY (rb_principal r) (rb_run r) (rb_key r) (rb_payload r))
       (sort_key (\<lambda>r. (rb_created r, rb_run r)) (db_bindings db))"

definition find_run_binding ::
  "service_db \<Rightarrow> string \<Rightarrow> string \<Rightarrow> string \<Rightarrow> run_binding option result" where
  "find_run_binding db pid k payload =
     rbind (check_text pid ''principal_id'') (\<lambda>_.
     rbind (check_text k ''idempotency_key'') (\<lambda>_.
     rbind (check_text payload ''payload_hash'') (\<lambda>_.
       Inr (map_option (\<lambda>ex.
              mk_binding (if rb_payload ex = payload then B_REPLAY else B_IDEMPOTENCY_CONFLICT)
                pid (rb_run ex) k (rb_payload ex)) (find_key db pid k)))))"

text \<open>\<open>abandon_run_binding\<close>: only a binding no reservation refers to.\<close>

definition abandonable :: "service_db \<Rightarrow> string \<Rightarrow> string \<Rightarrow> string \<Rightarrow> string \<Rightarrow> binding_row \<Rightarrow> bool" where
  "abandonable db pid k run payload r \<longleftrightarrow>
     rb_principal r = pid \<and> rb_key r = k \<and> rb_run r = run \<and> rb_payload r = payload
     \<and> row_where (\<lambda>c. cr_run c = rb_run r) (db_calls db) = None"

definition abandon_run_binding ::
  "string \<Rightarrow> string \<Rightarrow> string \<Rightarrow> string \<Rightarrow> service_db \<Rightarrow> bool result \<times> service_db" where
  "abandon_run_binding pid k run payload =
     write_txn (\<lambda>db.
       Inr (count_where (abandonable db pid k run payload) (db_bindings db) = 1,
            db\<lparr>db_bindings := delete_where (abandonable db pid k run payload) (db_bindings db)\<rparr>))"

section \<open>Call reservations\<close>

definition call_units :: "call_row \<Rightarrow> int" where
  "call_units r = (case cr_state r of
     CS_Reserved \<Rightarrow> cr_reserved r
   | CS_Reconciled \<Rightarrow> (case cr_actual r of Some a \<Rightarrow> a | None \<Rightarrow> 0)
   | CS_Released \<Rightarrow> 0)"

text \<open>\<open>_usage\<close>: the three sums of the aggregate query.\<close>

definition usage :: "service_db \<Rightarrow> string \<Rightarrow> instant \<Rightarrow> int \<times> int \<times> int" where
  "usage db pid now =
     (let rows = rows_where (\<lambda>r. cr_principal r = pid) (db_calls db) in
      (sum_list (map (\<lambda>r. if cr_state r = CS_Reserved then 1 else 0) rows),
       sum_list (map (\<lambda>r. if cr_day r = date_of now then call_units r else 0) rows),
       sum_list (map (\<lambda>r. if cr_month r = month_of now then call_units r else 0) rows)))"

definition reservation_matches :: "call_row \<Rightarrow> call_request \<Rightarrow> bool" where
  "reservation_matches r q \<longleftrightarrow>
     cr_policy r = cq_policy q \<and> cr_principal r = cq_principal q \<and> cr_run r = cq_run q
     \<and> cr_action r = cq_action q \<and> cr_provider r = cq_provider q \<and> cr_model r = cq_model q
     \<and> cr_reserved r = cq_units q"

definition mk_call_result ::
  "call_request \<Rightarrow> bool \<Rightarrow> call_reservation_code \<Rightarrow> int \<times> int \<times> int \<Rightarrow> call_result" where
  "mk_call_result q ok c u = (case u of (i, d, m) \<Rightarrow>
     \<lparr>ca_allowed = ok, ca_code = c, ca_reservation = cq_reservation q,
      ca_principal = cq_principal q, ca_run = cq_run q, ca_units = cq_units q,
      ca_inflight = i, ca_daily = d, ca_monthly = m\<rparr>)"

text \<open>The checks before the budget; the policy that lets the call through, or the refusal.\<close>

definition call_gate ::
  "service_db \<Rightarrow> call_request \<Rightarrow> instant \<Rightarrow> call_reservation_code + service_policy" where
  "call_gate db q now =
     (case principal_gate db (cq_principal q) (cq_tenant q) of
        Some c \<Rightarrow> Inl c
      | None \<Rightarrow>
          if run_owner db (cq_run q) \<noteq> Some (cq_principal q) then Inl C_RUN_NOT_OWNED
          else
            (case find_policy db (cq_policy q) of
               None \<Rightarrow> Inl C_UNKNOWN_POLICY
             | Some pol \<Rightarrow>
                 if sv_principal pol \<noteq> cq_principal q then Inl C_UNKNOWN_POLICY
                 else
                   (case policy_window pol (cq_tenant q) now of
                      Some c \<Rightarrow> Inl c
                    | None \<Rightarrow>
                        if cq_action q \<notin> sv_actions pol then Inl C_ACTION_DENIED
                        else if cq_provider q \<notin> sv_providers pol then Inl C_PROVIDER_DENIED
                        else if cq_model q \<notin> sv_models pol then Inl C_MODEL_DENIED
                        else Inr pol)))"

definition new_call_row :: "call_request \<Rightarrow> instant \<Rightarrow> call_row" where
  "new_call_row q now =
     \<lparr>cr_id = cq_reservation q, cr_policy = cq_policy q, cr_principal = cq_principal q,
      cr_run = cq_run q, cr_action = cq_action q, cr_provider = cq_provider q,
      cr_model = cq_model q, cr_reserved = cq_units q, cr_actual = None, cr_state = CS_Reserved,
      cr_reserved_at = now, cr_day = date_of now, cr_month = month_of now,
      cr_reconciled_at = None\<rparr>"

definition reserve_call_body ::
  "call_request \<Rightarrow> instant \<Rightarrow> service_db \<Rightarrow> call_result \<times> service_db" where
  "reserve_call_body q now db =
     (case find_call db (cq_reservation q) of
        Some ex \<Rightarrow>
          if reservation_matches ex q
            then (mk_call_result q True C_REPLAY (usage db (cq_principal q) now), db)
          else (mk_call_result q False C_RESERVATION_CONFLICT (0, 0, 0), db)
      | None \<Rightarrow>
          (case call_gate db q now of
             Inl c \<Rightarrow> (mk_call_result q False c (0, 0, 0), db)
           | Inr pol \<Rightarrow>
               (case usage db (cq_principal q) now of (inflight, daily, monthly) \<Rightarrow>
                  if inflight \<ge> sv_inflight pol
                    then (mk_call_result q False C_MAX_INFLIGHT_EXCEEDED
                            (inflight, daily, monthly), db)
                  else if daily + cq_units q > sv_daily pol
                    then (mk_call_result q False C_DAILY_LIMIT_EXCEEDED
                            (inflight, daily, monthly), db)
                  else if monthly + cq_units q > sv_monthly pol
                    then (mk_call_result q False C_MONTHLY_LIMIT_EXCEEDED
                            (inflight, daily, monthly), db)
                  else
                    (mk_call_result q True C_RESERVED
                       (inflight + 1, daily + cq_units q, monthly + cq_units q),
                     db\<lparr>db_calls := db_calls db @ [new_call_row q now]\<rparr>))))"

definition reserve_call ::
  "call_request \<Rightarrow> py_datetime option \<Rightarrow> py_datetime \<Rightarrow> service_db \<Rightarrow>
   call_result result \<times> service_db" where
  "reserve_call q tm clk db0 =
     (case utc_now tm clk of
        Inl e \<Rightarrow> (Inl e, db0)
      | Inr now \<Rightarrow> write_txn (\<lambda>db. Inr (reserve_call_body q now db)) db0)"

definition mk_reconciliation ::
  "string \<Rightarrow> string \<Rightarrow> int \<Rightarrow> bool \<Rightarrow> call_reconciliation_code \<Rightarrow> bool \<Rightarrow> bool \<Rightarrow> bool \<Rightarrow>
   call_reconciliation" where
  "mk_reconciliation rid pid actual ok c xr xd xm =
     \<lparr>kr_accepted = ok, kr_code = c, kr_reservation = rid, kr_principal = pid, kr_actual = actual,
      kr_exceeded_reservation = xr, kr_exceeded_daily = xd, kr_exceeded_monthly = xm\<rparr>"

text \<open>The accepting end of \<open>reconcile_call\<close>, over the database after the update.\<close>

definition reconciled_answer ::
  "call_row \<Rightarrow> service_policy \<Rightarrow> string \<Rightarrow> int \<Rightarrow> instant \<Rightarrow> call_reconciliation_code \<Rightarrow>
   service_db \<Rightarrow> call_reconciliation \<times> service_db" where
  "reconciled_answer r pol pid actual now c db =
     (case usage db pid now of (_, daily, monthly) \<Rightarrow>
        (mk_reconciliation (cr_id r) pid actual True c (actual > cr_reserved r)
           (daily > sv_daily pol) (monthly > sv_monthly pol), db))"

definition settle_call :: "int \<Rightarrow> instant \<Rightarrow> call_row \<Rightarrow> call_row" where
  "settle_call actual now r =
     r\<lparr>cr_state := CS_Reconciled, cr_actual := Some actual, cr_reconciled_at := Some now\<rparr>"

definition reconcile_call_body ::
  "string \<Rightarrow> string \<Rightarrow> int \<Rightarrow> instant \<Rightarrow> service_db \<Rightarrow> call_reconciliation \<times> service_db" where
  "reconcile_call_body rid pid actual now db =
     (case row_where (\<lambda>r. cr_id r = rid \<and> cr_principal r = pid
                         \<and> find_policy db (cr_policy r) \<noteq> None) (db_calls db) of
        None \<Rightarrow> (mk_reconciliation rid pid actual False K_NOT_FOUND False False False, db)
      | Some r \<Rightarrow>
          (case find_policy db (cr_policy r) of
             None \<Rightarrow> (mk_reconciliation rid pid actual False K_NOT_FOUND False False False, db)
           | Some pol \<Rightarrow>
               (case cr_state r of
                  CS_Released \<Rightarrow>
                    (mk_reconciliation rid pid actual False K_RELEASED False False False, db)
                | CS_Reconciled \<Rightarrow>
                    if cr_actual r \<noteq> Some actual
                      then (mk_reconciliation rid pid actual False K_CONFLICT False False False, db)
                    else reconciled_answer r pol pid actual now K_IDEMPOTENT db
                | CS_Reserved \<Rightarrow>
                    reconciled_answer r pol pid actual now K_RECONCILED
                      (db\<lparr>db_calls := update_where (\<lambda>c. cr_id c = rid)
                            (settle_call actual now) (db_calls db)\<rparr>))))"

definition reconcile_call ::
  "string \<Rightarrow> string \<Rightarrow> int \<Rightarrow> py_datetime option \<Rightarrow> py_datetime \<Rightarrow> service_db \<Rightarrow>
   call_reconciliation result \<times> service_db" where
  "reconcile_call rid pid actual tm clk db0 =
     (case rbind (positive_or_zero actual ''actual_units'') (\<lambda>_. utc_now tm clk) of
        Inl e \<Rightarrow> (Inl e, db0)
      | Inr now \<Rightarrow> write_txn (\<lambda>db. Inr (reconcile_call_body rid pid actual now db)) db0)"

definition releasable :: "string \<Rightarrow> string \<Rightarrow> call_row \<Rightarrow> bool" where
  "releasable rid pid r \<longleftrightarrow> cr_id r = rid \<and> cr_principal r = pid \<and> cr_state r = CS_Reserved"

definition release_call ::
  "string \<Rightarrow> string \<Rightarrow> service_db \<Rightarrow> bool result \<times> service_db" where
  "release_call rid pid =
     write_txn (\<lambda>db.
       Inr (count_where (releasable rid pid) (db_calls db) = 1,
            db\<lparr>db_calls := update_where (releasable rid pid)
                  (\<lambda>r. r\<lparr>cr_state := CS_Released\<rparr>) (db_calls db)\<rparr>))"

section \<open>Runs of the store\<close>

text \<open>
  A policy or a request that its constructor refuses is never passed: the constructor raises and
  the call is not made, so such a step leaves the database.
\<close>

datatype service_op =
    PutPrincipals "principal list"
  | StoreSetEnabled string bool
  | PutToken string string string py_datetime py_datetime
  | RotateToken string string string py_datetime py_datetime instant
  | RevokeToken string "py_datetime option" py_datetime
  | RevokePrincipalTokens string "py_datetime option" py_datetime
  | PutPolicy service_policy
  | RevokePolicy string "py_datetime option" py_datetime
  | BindRun string string string string "py_datetime option" py_datetime
  | AbandonRun string string string string
  | ReserveCall call_request "py_datetime option" py_datetime
  | ReconcileCall string string int "py_datetime option" py_datetime
  | ReleaseCall string string

fun service_step :: "(string \<Rightarrow> digest) \<Rightarrow> service_db \<Rightarrow> service_op \<Rightarrow> service_db" where
  "service_step sha db (PutPrincipals ps) = snd (put_principals ps db)"
| "service_step sha db (StoreSetEnabled pid en) = snd (store_set_principal_enabled pid en db)"
| "service_step sha db (PutToken tid pid tok i e) = snd (put_bearer_token sha tid pid tok i e db)"
| "service_step sha db (RotateToken tid pid tok i e w) =
     snd (rotate_bearer_token sha tid pid tok i e w db)"
| "service_step sha db (RevokeToken tid tm clk) = snd (revoke_bearer_token tid tm clk db)"
| "service_step sha db (RevokePrincipalTokens pid tm clk) =
     snd (revoke_principal_tokens pid tm clk db)"
| "service_step sha db (PutPolicy pol) = (if wf_policy pol then snd (put_policy pol db) else db)"
| "service_step sha db (RevokePolicy pol tm clk) = snd (revoke_policy pol tm clk db)"
| "service_step sha db (BindRun pid k run pl tm clk) = snd (bind_run pid k run pl tm clk db)"
| "service_step sha db (AbandonRun pid k run pl) = snd (abandon_run_binding pid k run pl db)"
| "service_step sha db (ReserveCall q tm clk) =
     (if wf_call_request q then snd (reserve_call q tm clk db) else db)"
| "service_step sha db (ReconcileCall rid pid a tm clk) = snd (reconcile_call rid pid a tm clk db)"
| "service_step sha db (ReleaseCall rid pid) = snd (release_call rid pid db)"

definition service_run :: "(string \<Rightarrow> digest) \<Rightarrow> service_db \<Rightarrow> service_op list \<Rightarrow> service_db" where
  "service_run sha db ops = foldl (service_step sha) db ops"

end
