(* ===== verification/Service_Laws.thy ===== *)
theory Service_Laws imports Service_Store begin

text \<open>
  The lemma library of the service store: referential integrity and key uniqueness as an
  invariant of every operation, and the store as a \<open>settlement_ledger\<close> three times over (call
  reservations, retired token digests, policies).
\<close>

section \<open>The invariant\<close>

definition principals_ok :: "service_db \<Rightarrow> bool" where
  "principals_ok db \<longleftrightarrow> unique_on pr_id (db_principals db)"

definition tokens_ok :: "service_db \<Rightarrow> bool" where
  "tokens_ok db \<longleftrightarrow>
     unique_on tk_id (db_tokens db) \<and> unique_on tk_hash (db_tokens db)
     \<and> unique_on tb_hash (db_tombstones db)
     \<and> (\<forall>t\<in>set (db_tokens db). find_principal db (tk_principal t) \<noteq> None
          \<and> tk_revoked t = None \<and> \<not> token_is_retired db (tk_hash t))"

definition policies_ok :: "service_db \<Rightarrow> bool" where
  "policies_ok db \<longleftrightarrow> unique_on sv_id (db_policies db)
     \<and> (\<forall>pol\<in>set (db_policies db). wf_policy pol \<and>
          map_option pr_tenant (find_principal db (sv_principal pol)) = Some (sv_tenant pol))"

definition bindings_ok :: "service_db \<Rightarrow> bool" where
  "bindings_ok db \<longleftrightarrow> unique_on rb_run (db_bindings db)
     \<and> unique_on (\<lambda>r. (rb_principal r, rb_key r)) (db_bindings db)
     \<and> (\<forall>r\<in>set (db_bindings db). find_principal db (rb_principal r) \<noteq> None)"

definition wf_call :: "service_db \<Rightarrow> call_row \<Rightarrow> bool" where
  "wf_call db c \<longleftrightarrow>
     map_option sv_principal (find_policy db (cr_policy c)) = Some (cr_principal c)
     \<and> run_owner db (cr_run c) = Some (cr_principal c)
     \<and> cr_day c = date_of (cr_reserved_at c) \<and> cr_month c = month_of (cr_reserved_at c)
     \<and> (cr_state c = CS_Reconciled \<longleftrightarrow> cr_actual c \<noteq> None)
     \<and> 1 \<le> cr_reserved c"

definition calls_ok :: "service_db \<Rightarrow> bool" where
  "calls_ok db \<longleftrightarrow> unique_on cr_id (db_calls db) \<and> (\<forall>c\<in>set (db_calls db). wf_call db c)"

definition service_good :: "service_db \<Rightarrow> bool" where
  "service_good db \<longleftrightarrow> principals_ok db \<and> tokens_ok db \<and> policies_ok db \<and> bindings_ok db
     \<and> calls_ok db"

lemmas ok_defs = principals_ok_def tokens_ok_def policies_ok_def bindings_ok_def calls_ok_def

lemma empty_good: "service_good empty_service_db"
  by (simp add: service_good_def ok_defs empty_service_db_def)

section \<open>Principals\<close>

text \<open>A principal, once known, stays known with its tenant and kind.\<close>

definition extends :: "service_db \<Rightarrow> service_db \<Rightarrow> bool" where
  "extends db db' \<longleftrightarrow> (\<forall>pid p. find_principal db pid = Some p \<longrightarrow>
     (\<exists>p'. find_principal db' pid = Some p' \<and> pr_tenant p' = pr_tenant p \<and> pr_kind p' = pr_kind p))"

lemma extends_refl [simp]: "extends db db"
  by (simp add: extends_def)

lemma extends_trans: "extends a b \<Longrightarrow> extends b c \<Longrightarrow> extends a c"
  by (fastforce simp: extends_def)

lemma extends_same: "db_principals db' = db_principals db \<Longrightarrow> extends db db'"
  by (simp add: extends_def find_principal_def)

lemma extends_known: "extends db db' \<Longrightarrow> find_principal db pid \<noteq> None \<Longrightarrow> find_principal db' pid \<noteq> None"
  by (fastforce simp: extends_def)

lemma extends_tenant:
  "extends db db' \<Longrightarrow> map_option pr_tenant (find_principal db pid) = Some t \<Longrightarrow>
   map_option pr_tenant (find_principal db' pid) = Some t"
  by (fastforce simp: extends_def)

text \<open>The tables other than the principals.\<close>

definition same_rest :: "service_db \<Rightarrow> service_db \<Rightarrow> bool" where
  "same_rest db db' \<longleftrightarrow> db_tokens db' = db_tokens db \<and> db_tombstones db' = db_tombstones db
     \<and> db_policies db' = db_policies db \<and> db_bindings db' = db_bindings db
     \<and> db_calls db' = db_calls db"

lemma same_rest_finds:
  assumes "same_rest db db'"
  shows "find_policy db' = find_policy db" "run_owner db' = run_owner db"
    "token_is_retired db' = token_is_retired db"
  using assms
  by (simp_all add: same_rest_def fun_eq_iff find_policy_def run_owner_def find_run_def
      token_is_retired_def find_tombstone_def)

lemma good_principals_change:
  assumes g: "service_good db" and r: "same_rest db db'" and e: "extends db db'"
    and u: "unique_on pr_id (db_principals db')"
  shows "service_good db'"
  using g r u extends_known [OF e] extends_tenant [OF e] same_rest_finds [OF r]
  unfolding service_good_def ok_defs wf_call_def same_rest_def by (simp only: HOL.simp_thms) blast

lemma put_principal_effect:
  assumes "put_principal p db = Inr db'" and "unique_on pr_id (db_principals db)"
  shows "same_rest db db' \<and> extends db db' \<and> unique_on pr_id (db_principals db')"
  using assms
  by (auto simp: put_principal_def same_rest_def extends_def find_principal_def row_where_append
      unique_on_snoc split: option.splits if_splits)

lemma put_principals_effect:
  "put_principals_loop ps db = Inr db' \<Longrightarrow> unique_on pr_id (db_principals db) \<Longrightarrow>
   same_rest db db' \<and> extends db db' \<and> unique_on pr_id (db_principals db')"
proof (induction ps arbitrary: db)
  case Nil
  then show ?case by (simp add: same_rest_def)
next
  case (Cons p ps)
  then obtain d where d: "put_principal p db = Inr d" "put_principals_loop ps d = Inr db'"
    by (auto simp: result_simps)
  note e = put_principal_effect [OF d(1) Cons.prems(2)]
  then have "same_rest d db' \<and> extends d db' \<and> unique_on pr_id (db_principals db')"
    using Cons.IH [OF d(2)] by blast
  with e show ?case by (auto simp: same_rest_def intro: extends_trans)
qed

lemma service_goodD:
  assumes "service_good db"
  shows "unique_on pr_id (db_principals db)" "tokens_ok db" "policies_ok db" "bindings_ok db"
    "calls_ok db"
  using assms by (simp_all add: service_good_def principals_ok_def)

lemma put_principals_good:
  assumes g: "service_good db"
  shows "service_good (snd (put_principals ps db))"
proof (cases "put_principals_loop ps db")
  case (Inl e)
  with g show ?thesis by (simp add: put_principals_def write_txn_snd)
next
  case (Inr db')
  note e = put_principals_effect [OF Inr service_goodD(1) [OF g]]
  have "service_good db'" using g e by (blast intro: good_principals_change)
  with Inr show ?thesis by (simp add: put_principals_def write_txn_snd)
qed

lemma put_principals_rest: "same_rest db (snd (put_principals ps db))"
proof -
  have "put_principal p db = Inr db' \<Longrightarrow> same_rest db db'" for p db db'
    by (auto simp: put_principal_def same_rest_def split: option.splits if_splits)
  then have "put_principals_loop ps db = Inr db' \<Longrightarrow> same_rest db db'" for ps db db'
    by (induction ps arbitrary: db) (force simp: result_simps same_rest_def)+
  then show ?thesis
    by (auto simp: put_principals_def write_txn_snd rbind_def same_rest_def split: sum.splits)
qed

lemma set_enabled_rest: "same_rest db (snd (store_set_principal_enabled pid en db))"
  by (simp add: store_set_principal_enabled_def write_txn_snd same_rest_def)

lemma store_set_enabled_good:
  assumes g: "service_good db"
  shows "service_good (snd (store_set_principal_enabled pid en db))"
proof -
  let ?f = "\<lambda>r::principal. r\<lparr>pr_enabled := en\<rparr>"
  let ?db = "db\<lparr>db_principals := update_where (\<lambda>r. pr_id r = pid) ?f (db_principals db)\<rparr>"
  have find: "find_principal ?db q
    = map_option (\<lambda>r. if pr_id r = pid then ?f r else r) (find_principal db q)" for q
    by (simp add: find_principal_def row_where_update)
  have "extends db ?db" by (auto simp: extends_def find)
  then have "service_good ?db"
    by (rule good_principals_change [OF g, rotated])
      (simp_all add: same_rest_def unique_on_update service_goodD(1) [OF g])
  with g show ?thesis by (simp add: store_set_principal_enabled_def write_txn_snd)
qed

section \<open>Tokens and tombstones\<close>

text \<open>The tables other than tokens and tombstones.\<close>

definition same_but_tokens :: "service_db \<Rightarrow> service_db \<Rightarrow> bool" where
  "same_but_tokens db db' \<longleftrightarrow> db_principals db' = db_principals db
     \<and> db_policies db' = db_policies db \<and> db_bindings db' = db_bindings db
     \<and> db_calls db' = db_calls db"

lemma good_tokens_change:
  assumes g: "service_good db" and s: "same_but_tokens db db'" and t: "tokens_ok db'"
  shows "service_good db'"
  using g s t
  by (simp add: service_good_def principals_ok_def policies_ok_def bindings_ok_def calls_ok_def
      wf_call_def same_but_tokens_def table_finds run_owner_def)

lemma same_but_tokens_trans:
  "same_but_tokens a b \<Longrightarrow> same_but_tokens b c \<Longrightarrow> same_but_tokens a c"
  by (simp add: same_but_tokens_def)

lemma retire_row_rest:
  "same_but_tokens db (retire_token_row r reason ret wall db)"
  "db_tokens (retire_token_row r reason ret wall db) = db_tokens db"
  by (simp_all add: retire_token_row_def same_but_tokens_def)

lemma retire_rows_rest:
  "same_but_tokens db (retire_rows reason ret wall rs db)
   \<and> db_tokens (retire_rows reason ret wall rs db) = db_tokens db"
  by (induction rs arbitrary: db)
    (auto simp: retire_row_rest same_but_tokens_def retire_token_row_def)

lemma retire_row_retired:
  "token_is_retired (retire_token_row r reason ret wall db) h
     \<longleftrightarrow> h = tk_hash r \<or> token_is_retired db h"
  by (auto simp: retire_token_row_def token_is_retired_def find_tombstone_def row_where_append
      split: option.splits if_splits)

lemma retire_rows_retired:
  "token_is_retired (retire_rows reason ret wall rs db) h
     \<longleftrightarrow> h \<in> tk_hash ` set rs \<or> token_is_retired db h"
  by (induction rs arbitrary: db) (auto simp: retire_row_retired)

lemma retire_row_keeps:
  "find_tombstone db h = Some t \<Longrightarrow> find_tombstone (retire_token_row r reason ret wall db) h = Some t"
  by (simp add: retire_token_row_def find_tombstone_def row_where_append)

lemma retire_rows_keeps:
  "find_tombstone db h = Some t \<Longrightarrow> find_tombstone (retire_rows reason ret wall rs db) h = Some t"
  by (induction rs arbitrary: db) (simp_all add: retire_row_keeps)

lemma retire_row_unique:
  "unique_on tb_hash (db_tombstones db) \<Longrightarrow>
   unique_on tb_hash (db_tombstones (retire_token_row r reason ret wall db))"
  by (simp add: retire_token_row_def unique_on_snoc token_is_retired_def find_tombstone_def)

lemma retire_rows_unique:
  "unique_on tb_hash (db_tombstones db) \<Longrightarrow>
   unique_on tb_hash (db_tombstones (retire_rows reason ret wall rs db))"
  by (induction rs arbitrary: db) (simp_all add: retire_row_unique)

lemma delete_tokens_sel [simp]:
  "db_tombstones (delete_tokens p db) = db_tombstones db"
  "db_principals (delete_tokens p db) = db_principals db"
  "db_tokens (delete_tokens p db) = delete_where p (db_tokens db)"
  "token_is_retired (delete_tokens p db) h = token_is_retired db h"
  "find_tombstone (delete_tokens p db) h = find_tombstone db h"
  "find_principal (delete_tokens p db) pid = find_principal db pid"
  "same_but_tokens db (delete_tokens p db)"
  by (simp_all add: delete_tokens_def token_is_retired_def find_tombstone_def find_principal_def
      same_but_tokens_def)

text \<open>Retiring exactly the rows that are then deleted keeps the token tables consistent.\<close>

lemma retire_delete_ok:
  assumes t: "tokens_ok db" and rows: "set rs = {r \<in> set (db_tokens db). p r}"
  shows "tokens_ok (delete_tokens p (retire_rows reason ret wall rs db))"
proof -
  let ?d = "retire_rows reason ret wall rs db"
  have same: "db_tokens ?d = db_tokens db" "db_principals ?d = db_principals db"
    using retire_rows_rest [of db reason ret wall rs] by (simp_all add: same_but_tokens_def)
  have fp: "find_principal ?d = find_principal db" by (simp add: find_principal_def same fun_eq_iff)
  have "tk_hash x \<notin> tk_hash ` set rs" if "x \<in> set (db_tokens db)" "\<not> p x" for x
    using that t rows by (auto simp: tokens_ok_def dest: unique_onD)
  then show ?thesis
    using t by (auto simp: tokens_ok_def same fp retire_rows_retired retire_rows_unique
        unique_on_delete set_delete_where)
qed

lemma insert_token_ok:
  assumes t: "tokens_ok db" and i: "insert_token tid pid h i e db = Inr db'"
    and fresh: "\<not> token_is_retired db h"
  shows "tokens_ok db' \<and> same_but_tokens db db'"
proof -
  have "row_where (\<lambda>r. tk_id r = tid \<or> tk_hash r = h) (db_tokens db) = None"
    and fk: "find_principal db pid \<noteq> None"
    and db': "db' = db\<lparr>db_tokens := db_tokens db @ [\<lparr>tk_id = tid, tk_principal = pid, tk_hash = h,
        tk_issued = i, tk_expires = e, tk_revoked = None\<rparr>]\<rparr>"
    using i by (auto simp: insert_token_def split: if_splits)
  then have "\<forall>r\<in>set (db_tokens db). tk_id r \<noteq> tid \<and> tk_hash r \<noteq> h"
    by (auto simp: row_where_None)
  with t fk fresh db' show ?thesis
    by (auto simp: tokens_ok_def unique_on_def same_but_tokens_def find_principal_def
        token_is_retired_def find_tombstone_def)
qed

text \<open>A token operation either leaves the database, retires and deletes rows, or also inserts one.\<close>

lemma put_token_cases:
  "snd (put_bearer_token sha tid pid tok i e db) = db \<or>
   (\<exists>issued expires. \<not> token_is_retired db (sha tok)
      \<and> insert_token tid pid (sha tok) issued expires db
        = Inr (snd (put_bearer_token sha tid pid tok i e db)))"
  by (auto simp: put_bearer_token_def write_txn_snd rbind_def Let_def
      split: sum.splits prod.splits option.splits)

lemma put_token_good:
  assumes g: "service_good db"
  shows "service_good (snd (put_bearer_token sha tid pid tok i e db))"
  using put_token_cases [of sha tid pid tok i e db]
proof (elim disjE exE conjE)
  assume "snd (put_bearer_token sha tid pid tok i e db) = db"
  with g show ?thesis by simp
next
  fix issued expires
  assume "\<not> token_is_retired db (sha tok)"
    "insert_token tid pid (sha tok) issued expires db
       = Inr (snd (put_bearer_token sha tid pid tok i e db))"
  with insert_token_ok [OF service_goodD(2) [OF g]] show ?thesis
    by (blast intro: good_tokens_change [OF g])
qed

lemma retire_delete_good:
  assumes g: "service_good db" and rows: "set rs = {r \<in> set (db_tokens db). p r}"
  shows "service_good (delete_tokens p (retire_rows reason ret wall rs db))"
  using retire_rows_rest [of db reason ret wall rs]
  by (intro good_tokens_change [OF g _ retire_delete_ok [OF service_goodD(2) [OF g] rows]])
    (auto intro: same_but_tokens_trans)

text \<open>\<open>token_sweep wall db d\<close>: \<open>d\<close> is \<open>db\<close> after some rows were retired and deleted.\<close>

definition token_sweep :: "instant \<Rightarrow> service_db \<Rightarrow> service_db \<Rightarrow> bool" where
  "token_sweep wall db d \<longleftrightarrow> (\<exists>p reason rs. set rs = {r \<in> set (db_tokens db). p r}
     \<and> d = delete_tokens p (retire_rows reason None wall rs db))"

lemma token_sweepI:
  "set rs = {r \<in> set (db_tokens db). p r} \<Longrightarrow>
   token_sweep wall db (delete_tokens p (retire_rows reason None wall rs db))"
  unfolding token_sweep_def by (intro exI conjI) (assumption, rule refl)

lemma token_sweep_good: "token_sweep wall db d \<Longrightarrow> service_good db \<Longrightarrow> service_good d"
  unfolding token_sweep_def by (elim exE conjE) (simp only: retire_delete_good)

lemma token_sweep_retired:
  "token_sweep wall db d \<Longrightarrow> token_is_retired d h \<Longrightarrow>
   token_is_retired db h \<or> (\<exists>r\<in>set (db_tokens db). tk_hash r = h)"
  unfolding token_sweep_def by (elim exE conjE) (auto simp: retire_rows_retired)

lemma token_sweep_keeps:
  "token_sweep wall db d \<Longrightarrow> find_tombstone db h = Some t \<Longrightarrow> find_tombstone d h = Some t"
  unfolding token_sweep_def by (elim exE conjE) (simp add: retire_rows_keeps)

lemma token_sweep_rest: "token_sweep wall db d \<Longrightarrow> same_but_tokens db d"
  unfolding token_sweep_def using retire_rows_rest delete_tokens_sel(7)
  by (elim exE conjE) (blast intro: same_but_tokens_trans)

lemma rotate_cases:
  "snd (rotate_bearer_token sha tid pid tok i e wall db) = db \<or>
   (\<exists>d. token_sweep wall db d \<and> \<not> token_is_retired db (sha tok) \<and>
      (snd (rotate_bearer_token sha tid pid tok i e wall db) = d
       \<or> (\<exists>issued expires. (\<forall>r\<in>set (db_tokens db). tk_hash r \<noteq> sha tok)
            \<and> insert_token tid pid (sha tok) issued expires d
             = Inr (snd (rotate_bearer_token sha tid pid tok i e wall db)))))"
  (is "?same \<or> ?changed")
proof (cases "check_bearer tid pid tok i e")
  case (Inl er)
  then have ?same by (simp add: rotate_bearer_token_def)
  then show ?thesis ..
next
  case (Inr ie)
  obtain issued expires where ie: "ie = (issued, expires)" by (cases ie)
  let ?rows = "sort_key tk_id (db_tokens db)"
  let ?p1 = "\<lambda>m r. tk_principal r = pid \<and> tk_id r \<noteq> tk_id m"
  let ?p2 = "\<lambda>r. tk_principal r = pid"
  have s1: "set (rows_where (?p1 m) ?rows) = {r \<in> set (db_tokens db). ?p1 m r}" for m
    by (simp add: set_rows_where)
  have s2: "set (rows_where ?p2 ?rows) = {r \<in> set (db_tokens db). ?p2 r}"
    by (simp add: set_rows_where)
  show ?thesis
  proof (cases "find_principal db pid = None \<or> token_is_retired db (sha tok)")
    case True
    then have ?same by (auto simp: rotate_bearer_token_def Inr ie write_txn_snd Let_def)
    then show ?thesis ..
  next
    case False
    then obtain pr where live: "find_principal db pid = Some pr" "\<not> token_is_retired db (sha tok)"
      by auto
    show ?thesis
    proof (cases "row_where (\<lambda>r. tk_hash r = sha tok) ?rows")
      case (Some m)
      let ?d = "delete_tokens (?p1 m) (retire_rows (\<lambda>r. Rotated) None wall
                  (rows_where (?p1 m) ?rows) db)"
      have "snd (rotate_bearer_token sha tid pid tok i e wall db)
        = (if tk_principal m \<noteq> pid \<or> tk_revoked m \<noteq> None then db else ?d)"
        using live Some by (simp add: rotate_bearer_token_def Inr ie write_txn_snd Let_def)
      then have "?same \<or> snd (rotate_bearer_token sha tid pid tok i e wall db) = ?d" by simp
      then show ?thesis using live(2) token_sweepI [OF s1 [of m]] by blast
    next
      case None
      let ?reason = "\<lambda>r. if tk_revoked r \<noteq> None then Revoked else Rotated"
      let ?d = "delete_tokens ?p2 (retire_rows ?reason None wall (rows_where ?p2 ?rows) db)"
      have fresh: "\<forall>r\<in>set (db_tokens db). tk_hash r \<noteq> sha tok"
        using None by (simp add: row_where_None)
      have eq: "snd (rotate_bearer_token sha tid pid tok i e wall db)
        = (case insert_token tid pid (sha tok) issued expires ?d of Inl e \<Rightarrow> db | Inr d \<Rightarrow> d)"
        using live None
        by (simp add: rotate_bearer_token_def Inr ie write_txn_snd Let_def rbind_def split: sum.split)
      show ?thesis
      proof (cases "insert_token tid pid (sha tok) issued expires ?d")
        case (Inl er)
        with eq show ?thesis by simp
      next
        case (Inr d)
        with eq have "insert_token tid pid (sha tok) issued expires ?d
          = Inr (snd (rotate_bearer_token sha tid pid tok i e wall db))" by simp
        with fresh live(2) token_sweepI [OF s2] show ?thesis by blast
      qed
    qed
  qed
qed

lemma rotate_good:
  assumes g: "service_good db"
  shows "service_good (snd (rotate_bearer_token sha tid pid tok i e wall db))"
  using rotate_cases [of sha tid pid tok i e wall db]
proof (elim disjE exE conjE)
  assume "snd (rotate_bearer_token sha tid pid tok i e wall db) = db"
  with g show ?thesis by simp
next
  fix d assume "token_sweep wall db d" "snd (rotate_bearer_token sha tid pid tok i e wall db) = d"
  with g show ?thesis by (simp add: token_sweep_good)
next
  fix d issued expires
  assume sw: "token_sweep wall db d" and "\<not> token_is_retired db (sha tok)"
    and "\<forall>r\<in>set (db_tokens db). tk_hash r \<noteq> sha tok"
    and ins: "insert_token tid pid (sha tok) issued expires d
      = Inr (snd (rotate_bearer_token sha tid pid tok i e wall db))"
  then have fresh: "\<not> token_is_retired d (sha tok)" using token_sweep_retired by blast
  have d: "service_good d" using sw g by (rule token_sweep_good)
  show ?thesis
    using insert_token_ok [OF service_goodD(2) [OF d] ins fresh]
    by (blast intro: good_tokens_change [OF d])
qed

lemma revoke_token_cases:
  "snd (revoke_bearer_token tid tm clk db) = db \<or>
   (\<exists>r now. r \<in> set (db_tokens db) \<and> tk_id r = tid
      \<and> snd (revoke_bearer_token tid tm clk db)
        = delete_tokens (\<lambda>r. tk_id r = tid) (retire_rows (\<lambda>r. Revoked) (Some now) now [r] db))"
  by (auto simp: revoke_bearer_token_def write_txn_snd dest: row_where_Some
      split: sum.splits option.splits)

lemma revoke_token_good:
  assumes g: "service_good db"
  shows "service_good (snd (revoke_bearer_token tid tm clk db))"
  using revoke_token_cases [of tid tm clk db]
proof (elim disjE exE conjE)
  assume "snd (revoke_bearer_token tid tm clk db) = db"
  with g show ?thesis by simp
next
  fix r now
  assume r: "r \<in> set (db_tokens db)" "tk_id r = tid"
    and eq: "snd (revoke_bearer_token tid tm clk db)
      = delete_tokens (\<lambda>r. tk_id r = tid) (retire_rows (\<lambda>r. Revoked) (Some now) now [r] db)"
  have "set [r] = {x \<in> set (db_tokens db). tk_id x = tid}"
    using r service_goodD(2) [OF g] by (auto simp: tokens_ok_def dest: unique_onD)
  then show ?thesis unfolding eq by (rule retire_delete_good [OF g])
qed

lemma revoke_principal_cases:
  "snd (revoke_principal_tokens pid tm clk db) = db \<or>
   (\<exists>now. snd (revoke_principal_tokens pid tm clk db)
      = delete_tokens (\<lambda>r. tk_principal r = pid) (retire_rows (\<lambda>r. Revoked) (Some now) now
          (rows_where (\<lambda>r. tk_principal r = pid) (db_tokens db)) db))"
  by (auto simp: revoke_principal_tokens_def write_txn_snd Let_def split: sum.splits)

lemma revoke_principal_good:
  assumes g: "service_good db"
  shows "service_good (snd (revoke_principal_tokens pid tm clk db))"
  using revoke_principal_cases [of pid tm clk db]
proof (elim disjE exE)
  assume "snd (revoke_principal_tokens pid tm clk db) = db"
  with g show ?thesis by simp
next
  fix now
  assume eq: "snd (revoke_principal_tokens pid tm clk db)
      = delete_tokens (\<lambda>r. tk_principal r = pid) (retire_rows (\<lambda>r. Revoked) (Some now) now
          (rows_where (\<lambda>r. tk_principal r = pid) (db_tokens db)) db)"
  show ?thesis unfolding eq by (rule retire_delete_good [OF g]) (simp add: set_rows_where)
qed

section \<open>Policies\<close>

lemma good_policies_change:
  assumes g: "service_good db" and rows: "policies_ok (db\<lparr>db_policies := ps\<rparr>)"
    and keep: "\<And>pid pol. find_policy db pid = Some pol \<Longrightarrow>
      \<exists>pol'. find_policy (db\<lparr>db_policies := ps\<rparr>) pid = Some pol' \<and> sv_principal pol' = sv_principal pol"
  shows "service_good (db\<lparr>db_policies := ps\<rparr>)"
proof -
  let ?d = "db\<lparr>db_policies := ps\<rparr>"
  have same: "find_principal ?d = find_principal db" "run_owner ?d = run_owner db"
    "token_is_retired ?d = token_is_retired db"
    by (simp_all add: fun_eq_iff table_finds run_owner_def token_is_retired_def)
  have "wf_call ?d c" if "wf_call db c" for c
  proof -
    from that obtain pol where "find_policy db (cr_policy c) = Some pol"
      "sv_principal pol = cr_principal c"
      by (auto simp: wf_call_def)
    with keep [of "cr_policy c" pol] that show ?thesis by (auto simp: wf_call_def same)
  qed
  then show ?thesis using g rows
    by (simp add: service_good_def principals_ok_def tokens_ok_def bindings_ok_def calls_ok_def same)
qed

lemma put_policy_cases:
  "snd (put_policy pol db) = db \<or>
   (find_policy db (sv_id pol) = None
    \<and> map_option pr_tenant (find_principal db (sv_principal pol)) = Some (sv_tenant pol)
    \<and> snd (put_policy pol db) = db\<lparr>db_policies := db_policies db @ [pol]\<rparr>)"
  by (simp add: put_policy_def write_txn_snd split: option.split)

lemma put_policy_good:
  assumes g: "service_good db" and w: "wf_policy pol"
  shows "service_good (snd (put_policy pol db))"
  using put_policy_cases [of pol db]
proof (elim disjE conjE)
  assume "snd (put_policy pol db) = db"
  with g show ?thesis by simp
next
  assume new: "find_policy db (sv_id pol) = None"
    and t: "map_option pr_tenant (find_principal db (sv_principal pol)) = Some (sv_tenant pol)"
    and eq: "snd (put_policy pol db) = db\<lparr>db_policies := db_policies db @ [pol]\<rparr>"
  have "policies_ok (db\<lparr>db_policies := db_policies db @ [pol]\<rparr>)"
    using service_goodD(3) [OF g] new t w
    by (auto simp: policies_ok_def unique_on_snoc find_policy_def find_principal_def)
  then show ?thesis unfolding eq
    by (rule good_policies_change [OF g]) (simp add: find_policy_def row_where_append)
qed

text \<open>The row a revocation writes: the first revocation time is kept.\<close>

definition revoke_row :: "instant \<Rightarrow> service_policy \<Rightarrow> service_policy" where
  "revoke_row now r = r\<lparr>sv_revoked := (case sv_revoked r of Some t \<Rightarrow> Some t | None \<Rightarrow> Some now)\<rparr>"

lemma revoke_row_sel [simp]:
  "sv_id (revoke_row now r) = sv_id r" "sv_principal (revoke_row now r) = sv_principal r"
  "sv_tenant (revoke_row now r) = sv_tenant r" "sv_revoked (revoke_row now r) \<noteq> None"
  "wf_policy (revoke_row now r) = wf_policy r"
  by (simp_all add: revoke_row_def wf_policy_def split: option.split)

lemma revoke_policy_cases:
  "snd (revoke_policy pol_id tm clk db) = db \<or>
   (\<exists>now. snd (revoke_policy pol_id tm clk db)
      = db\<lparr>db_policies := update_where (\<lambda>r. sv_id r = pol_id) (revoke_row now) (db_policies db)\<rparr>)"
  by (auto simp: revoke_policy_def write_txn_snd Let_def revoke_row_def [abs_def] split: sum.splits)

lemma find_policy_update:
  "find_policy (db\<lparr>db_policies := update_where (\<lambda>r. sv_id r = k) (revoke_row now) (db_policies db)\<rparr>) pid
   = map_option (\<lambda>r. if sv_id r = k then revoke_row now r else r) (find_policy db pid)"
  by (simp add: find_policy_def row_where_update)

lemma revoke_policy_good:
  assumes g: "service_good db"
  shows "service_good (snd (revoke_policy pol_id tm clk db))"
  using revoke_policy_cases [of pol_id tm clk db]
proof (elim disjE exE)
  assume "snd (revoke_policy pol_id tm clk db) = db"
  with g show ?thesis by simp
next
  fix now
  let ?d = "db\<lparr>db_policies := update_where (\<lambda>r. sv_id r = pol_id) (revoke_row now) (db_policies db)\<rparr>"
  assume eq: "snd (revoke_policy pol_id tm clk db) = ?d"
  have fp: "find_principal ?d = find_principal db" by (simp add: fun_eq_iff find_principal_def)
  have "policies_ok ?d"
    using service_goodD(3) [OF g]
    by (auto simp: policies_ok_def unique_on_update set_update_where fp)
  then show ?thesis unfolding eq
    by (rule good_policies_change [OF g]) (auto simp: find_policy_update)
qed

section \<open>Run bindings\<close>

lemma good_bindings_change:
  assumes g: "service_good db" and rows: "bindings_ok (db\<lparr>db_bindings := bs\<rparr>)"
    and keep: "\<And>c. c \<in> set (db_calls db) \<Longrightarrow>
      run_owner (db\<lparr>db_bindings := bs\<rparr>) (cr_run c) = run_owner db (cr_run c)"
  shows "service_good (db\<lparr>db_bindings := bs\<rparr>)"
proof -
  let ?d = "db\<lparr>db_bindings := bs\<rparr>"
  have same: "find_principal ?d = find_principal db" "find_policy ?d = find_policy db"
    "token_is_retired ?d = token_is_retired db"
    by (simp_all add: fun_eq_iff table_finds token_is_retired_def)
  have "wf_call ?d c" if "wf_call db c" "c \<in> set (db_calls db)" for c
    using that keep by (auto simp: wf_call_def same)
  then show ?thesis using g rows
    by (simp add: service_good_def principals_ok_def tokens_ok_def policies_ok_def calls_ok_def same)
qed

lemma bind_run_cases:
  "snd (bind_run pid k run payload tm clk db) = db \<or>
   (\<exists>now. find_principal db pid \<noteq> None \<and> find_key db pid k = None \<and> find_run db run = None
      \<and> snd (bind_run pid k run payload tm clk db)
        = db\<lparr>db_bindings := db_bindings db @
            [\<lparr>rb_run = run, rb_principal = pid, rb_key = k, rb_payload = payload,
              rb_created = now\<rparr>]\<rparr>)"
  by (simp add: bind_run_def bind_run_body_def write_txn_snd rbind_def
      split: sum.split option.split) blast

lemma bind_run_good:
  assumes g: "service_good db"
  shows "service_good (snd (bind_run pid k run payload tm clk db))"
  using bind_run_cases [of pid k run payload tm clk db]
proof (elim disjE exE conjE)
  assume "snd (bind_run pid k run payload tm clk db) = db"
  with g show ?thesis by simp
next
  fix now
  let ?b = "\<lparr>rb_run = run, rb_principal = pid, rb_key = k, rb_payload = payload, rb_created = now\<rparr>"
  let ?d = "db\<lparr>db_bindings := db_bindings db @ [?b]\<rparr>"
  assume p: "find_principal db pid \<noteq> None" and key: "find_key db pid k = None"
    and new: "find_run db run = None" and eq: "snd (bind_run pid k run payload tm clk db) = ?d"
  have fp: "find_principal ?d = find_principal db" by (simp add: fun_eq_iff find_principal_def)
  have "bindings_ok ?d"
    using service_goodD(4) [OF g] p key new
    by (simp add: bindings_ok_def unique_on_snoc fp find_key_def find_run_def)
  then show ?thesis unfolding eq
  proof (rule good_bindings_change [OF g])
    fix c assume "c \<in> set (db_calls db)"
    then have "run_owner db (cr_run c) \<noteq> None"
      using service_goodD(5) [OF g] by (auto simp: calls_ok_def wf_call_def)
    then show "run_owner ?d (cr_run c) = run_owner db (cr_run c)"
      by (auto simp: run_owner_def find_run_def row_where_append)
  qed
qed

text \<open>Deleting rows that the selection does not meet leaves the selection.\<close>

lemma row_where_delete:
  "(\<And>r. r \<in> set rows \<Longrightarrow> p r \<Longrightarrow> \<not> q r) \<Longrightarrow> row_where p (delete_where q rows) = row_where p rows"
  by (induction rows) (auto simp: delete_where_def)

lemma abandon_good:
  assumes g: "service_good db"
  shows "service_good (snd (abandon_run_binding pid k run payload db))"
proof -
  let ?q = "abandonable db pid k run payload"
  let ?d = "db\<lparr>db_bindings := delete_where ?q (db_bindings db)\<rparr>"
  have fp: "find_principal ?d = find_principal db" by (simp add: fun_eq_iff find_principal_def)
  have "bindings_ok ?d"
    using service_goodD(4) [OF g] by (auto simp: bindings_ok_def unique_on_delete set_delete_where fp)
  then have "service_good ?d"
  proof (rule good_bindings_change [OF g])
    fix c assume "c \<in> set (db_calls db)"
    then have "\<not> ?q r" if "rb_run r = cr_run c" for r
      using that by (auto simp: abandonable_def row_where_None)
    then show "run_owner ?d (cr_run c) = run_owner db (cr_run c)"
      by (simp add: run_owner_def find_run_def row_where_delete)
  qed
  then show ?thesis by (simp add: abandon_run_binding_def write_txn_snd)
qed

section \<open>Call reservations\<close>

lemma good_calls_change:
  assumes g: "service_good db" and u: "unique_on cr_id cs"
    and wf: "\<And>c. c \<in> set cs \<Longrightarrow> wf_call db c"
  shows "service_good (db\<lparr>db_calls := cs\<rparr>)"
proof -
  let ?d = "db\<lparr>db_calls := cs\<rparr>"
  have same: "find_principal ?d = find_principal db" "find_policy ?d = find_policy db"
    "run_owner ?d = run_owner db" "token_is_retired ?d = token_is_retired db"
    by (simp_all add: fun_eq_iff table_finds run_owner_def token_is_retired_def)
  then show ?thesis using g u wf
    by (simp add: service_good_def principals_ok_def tokens_ok_def policies_ok_def bindings_ok_def
        calls_ok_def wf_call_def)
qed

lemma call_gate_ok:
  "call_gate db q now = Inr pol \<longleftrightarrow>
     principal_gate db (cq_principal q) (cq_tenant q) = None
     \<and> run_owner db (cq_run q) = Some (cq_principal q)
     \<and> find_policy db (cq_policy q) = Some pol \<and> sv_principal pol = cq_principal q
     \<and> policy_window pol (cq_tenant q) now = None
     \<and> cq_action q \<in> sv_actions pol \<and> cq_provider q \<in> sv_providers pol \<and> cq_model q \<in> sv_models pol"
  by (auto simp: call_gate_def split: option.splits if_splits)

definition within_caps :: "service_policy \<Rightarrow> int \<Rightarrow> int \<times> int \<times> int \<Rightarrow> bool" where
  "within_caps pol units u \<longleftrightarrow> (case u of (inflight, daily, monthly) \<Rightarrow>
     inflight < sv_inflight pol \<and> daily + units \<le> sv_daily pol \<and> monthly + units \<le> sv_monthly pol)"

lemma reserve_body_cases:
  "snd (reserve_call_body q now db) = db \<or>
   (find_call db (cq_reservation q) = None
    \<and> (\<exists>pol. call_gate db q now = Inr pol
         \<and> within_caps pol (cq_units q) (usage db (cq_principal q) now))
    \<and> snd (reserve_call_body q now db) = db\<lparr>db_calls := db_calls db @ [new_call_row q now]\<rparr>)"
  by (simp add: reserve_call_body_def within_caps_def split: option.split sum.split prod.split)

lemma reserve_cases:
  "snd (reserve_call q tm clk db) = db \<or>
   (\<exists>now pol. find_call db (cq_reservation q) = None \<and> call_gate db q now = Inr pol
    \<and> within_caps pol (cq_units q) (usage db (cq_principal q) now)
    \<and> snd (reserve_call q tm clk db) = db\<lparr>db_calls := db_calls db @ [new_call_row q now]\<rparr>)"
proof (cases "utc_now tm clk")
  case (Inr now)
  then have "snd (reserve_call q tm clk db) = snd (reserve_call_body q now db)"
    by (simp add: reserve_call_def write_txn_snd)
  with reserve_body_cases [of q now db] show ?thesis by metis
qed (simp add: reserve_call_def)

lemma reserve_call_good:
  assumes g: "service_good db" and w: "wf_call_request q"
  shows "service_good (snd (reserve_call q tm clk db))"
  using reserve_cases [of q tm clk db]
proof (elim disjE exE conjE)
  assume "snd (reserve_call q tm clk db) = db"
  with g show ?thesis by simp
next
  fix now pol
  assume new: "find_call db (cq_reservation q) = None" and gate: "call_gate db q now = Inr pol"
    and eq: "snd (reserve_call q tm clk db) = db\<lparr>db_calls := db_calls db @ [new_call_row q now]\<rparr>"
  have "wf_call db (new_call_row q now)"
    using gate w by (simp add: call_gate_ok wf_call_def new_call_row_def wf_call_request_def)
  moreover have "cr_id (new_call_row q now) = cq_reservation q" by (simp add: new_call_row_def)
  ultimately show ?thesis unfolding eq
    using service_goodD(5) [OF g] new
    by (intro good_calls_change [OF g]) (auto simp: calls_ok_def unique_on_snoc find_call_def)
qed

text \<open>Reconciling and releasing update one open row.\<close>

lemma reconcile_cases:
  "snd (reconcile_call rid pid actual tm clk db) = db \<or>
   (\<exists>now r. find_call db rid = Some r \<and> cr_state r = CS_Reserved \<and> cr_principal r = pid
      \<and> 0 \<le> actual
      \<and> snd (reconcile_call rid pid actual tm clk db)
        = db\<lparr>db_calls := update_where (\<lambda>c. cr_id c = rid) (settle_call actual now) (db_calls db)\<rparr>)"
  if g: "service_good db"
proof (cases "rbind (positive_or_zero actual ''actual_units'') (\<lambda>_. utc_now tm clk)")
  case (Inl e)
  then show ?thesis by (simp add: reconcile_call_def)
next
  case (Inr now)
  then have body: "snd (reconcile_call rid pid actual tm clk db)
      = snd (reconcile_call_body rid pid actual now db)"
    by (simp add: reconcile_call_def write_txn_snd)
  have nn: "0 \<le> actual" using Inr by (simp add: result_simps)
  let ?p = "\<lambda>r. cr_id r = rid \<and> cr_principal r = pid \<and> find_policy db (cr_policy r) \<noteq> None"
  show ?thesis
  proof (cases "row_where ?p (db_calls db)")
    case None
    then show ?thesis unfolding body by (simp add: reconcile_call_body_def)
  next
    case (Some r)
    then have r: "r \<in> set (db_calls db)" "cr_id r = rid" "cr_principal r = pid"
      by (auto dest: row_where_Some)
    then have "find_call db rid = Some r"
      using service_goodD(5) [OF g] row_where_unique [of cr_id "db_calls db" r]
      by (simp add: calls_ok_def find_call_def)
    then show ?thesis unfolding body using Some r nn
      by (auto simp: reconcile_call_body_def reconciled_answer_def
          split: option.split call_state.split prod.split)
  qed
qed

lemma find_call_update:
  "(\<And>r. cr_id (f r) = cr_id r) \<Longrightarrow>
   find_call (db\<lparr>db_calls := update_where p f (db_calls db)\<rparr>) k
   = map_option (\<lambda>r. if p r then f r else r) (find_call db k)"
  by (simp add: find_call_def row_where_update)

lemma settle_call_id [simp]: "cr_id (settle_call a now r) = cr_id r"
  by (simp add: settle_call_def)

lemma settle_call_good:
  assumes g: "service_good db"
  shows "service_good (snd (reconcile_call rid pid actual tm clk db))"
  using reconcile_cases [OF g, of rid pid actual tm clk]
proof (elim disjE exE conjE)
  assume "snd (reconcile_call rid pid actual tm clk db) = db"
  with g show ?thesis by simp
next
  fix now r
  assume eq: "snd (reconcile_call rid pid actual tm clk db)
    = db\<lparr>db_calls := update_where (\<lambda>c. cr_id c = rid) (settle_call actual now) (db_calls db)\<rparr>"
  have "wf_call db c \<Longrightarrow> wf_call db (settle_call actual now c)" for c
    by (simp add: wf_call_def settle_call_def)
  then show ?thesis unfolding eq
    using service_goodD(5) [OF g]
    by (intro good_calls_change [OF g]) (auto simp: calls_ok_def unique_on_update set_update_where)
qed

lemma release_call_good:
  assumes g: "service_good db"
  shows "service_good (snd (release_call rid pid db))"
proof -
  have "wf_call db c \<Longrightarrow> releasable rid pid c \<Longrightarrow> wf_call db (c\<lparr>cr_state := CS_Released\<rparr>)" for c
    by (simp add: wf_call_def releasable_def)
  then show ?thesis
    using service_goodD(5) [OF g] unfolding release_call_def write_txn_snd
    by simp (intro good_calls_change [OF g], auto simp: calls_ok_def unique_on_update set_update_where)
qed

section \<open>The store as a machine\<close>

lemma service_step_good: "service_good db \<Longrightarrow> service_good (service_step sha db op)"
  by (cases op)
    (simp_all add: put_principals_good store_set_enabled_good put_token_good rotate_good
      revoke_token_good revoke_principal_good put_policy_good revoke_policy_good bind_run_good
      abandon_good reserve_call_good settle_call_good release_call_good)

interpretation service: invariant_machine "service_step sha" service_good for sha
  by unfold_locales (rule service_step_good)

lemma service_run_good: "service_good db \<Longrightarrow> service_good (service_run sha db ops)"
  unfolding service_run_def by (rule service.run_good)

end
