(* ===== verification/Service_Ledgers.thy ===== *)
theory Service_Ledgers imports Service_Laws begin

text \<open>
  What each operation of the store may do to the call, tombstone and policy tables, as transition
  relations; the store as a \<open>settlement_ledger\<close> for reservations, retired digests and policies; and
  the accounting behind the in-flight, daily and monthly limits.
\<close>

section \<open>Transitions of the call table\<close>

inductive call_step :: "service_db \<Rightarrow> call_row list \<Rightarrow> bool" for db where
  call_same: "call_step db (db_calls db)"
| call_reserve:
    "find_call db (cq_reservation q) = None \<Longrightarrow> call_gate db q now = Inr pol \<Longrightarrow>
     within_caps pol (cq_units q) (usage db (cq_principal q) now) \<Longrightarrow> wf_call_request q \<Longrightarrow>
     call_step db (db_calls db @ [new_call_row q now])"
| call_settle:
    "find_call db rid = Some r \<Longrightarrow> cr_state r = CS_Reserved \<Longrightarrow> 0 \<le> a \<Longrightarrow>
     call_step db (update_where (\<lambda>c. cr_id c = rid) (settle_call a now) (db_calls db))"
| call_release:
    "find_call db rid = Some r \<Longrightarrow> cr_state r = CS_Reserved \<Longrightarrow>
     call_step db (update_where (\<lambda>c. cr_id c = rid) (\<lambda>r. r\<lparr>cr_state := CS_Released\<rparr>) (db_calls db))"

lemma update_where_cong:
  "(\<And>r. r \<in> set rows \<Longrightarrow> p r = q r) \<Longrightarrow> update_where p f rows = update_where q f rows"
  by (simp add: update_where_def)

lemma update_where_none: "(\<And>r. r \<in> set rows \<Longrightarrow> \<not> p r) \<Longrightarrow> update_where p f rows = rows"
  by (simp add: update_where_def map_idI)

lemma call_unique: "service_good db \<Longrightarrow> unique_on cr_id (db_calls db)"
  by (drule service_goodD(5)) (simp add: calls_ok_def)

lemma find_call_mem: "find_call db k = Some r \<Longrightarrow> r \<in> set (db_calls db) \<and> cr_id r = k"
  unfolding find_call_def by (drule row_where_Some) simp

lemma find_call_of: "service_good db \<Longrightarrow> r \<in> set (db_calls db) \<Longrightarrow> find_call db (cr_id r) = Some r"
  unfolding find_call_def by (rule row_where_unique [OF call_unique])

lemma release_step:
  assumes g: "service_good db"
  shows "call_step db (db_calls (snd (release_call rid pid db)))"
proof (cases "\<exists>r\<in>set (db_calls db). releasable rid pid r")
  case True
  then obtain r where r: "r \<in> set (db_calls db)" "releasable rid pid r" ..
  then have f: "find_call db rid = Some r" using find_call_of [OF g] by (auto simp: releasable_def)
  have "releasable rid pid c \<longleftrightarrow> cr_id c = rid" if "c \<in> set (db_calls db)" for c
    using that r unique_onD [OF call_unique [OF g], of c r] by (auto simp: releasable_def)
  then have "update_where (releasable rid pid) h (db_calls db)
      = update_where (\<lambda>c. cr_id c = rid) h (db_calls db)" for h
    by (rule update_where_cong)
  moreover have "cr_state r = CS_Reserved" using r by (simp add: releasable_def)
  ultimately show ?thesis using call_release [OF f]
    by (simp add: release_call_def write_txn_snd)
next
  case False
  then have "update_where (releasable rid pid) h (db_calls db) = db_calls db" for h
    by (auto intro: update_where_none)
  then show ?thesis by (simp add: release_call_def write_txn_snd call_same)
qed

text \<open>Operations of the other tables keep the calls.\<close>

lemma put_token_rest: "same_but_tokens db (snd (put_bearer_token sha tid pid tok i e db))"
  by (auto simp: put_bearer_token_def write_txn_snd rbind_def Let_def insert_token_def
      same_but_tokens_def split: sum.splits prod.splits option.splits)

lemma insert_token_rest: "insert_token tid pid h i e db = Inr db' \<Longrightarrow> same_but_tokens db db'"
  by (auto simp: insert_token_def same_but_tokens_def split: if_splits)

lemma rotate_rest: "same_but_tokens db (snd (rotate_bearer_token sha tid pid tok i e wall db))"
  using rotate_cases [of sha tid pid tok i e wall db]
proof (elim disjE exE conjE)
  assume "snd (rotate_bearer_token sha tid pid tok i e wall db) = db"
  then show ?thesis by (simp add: same_but_tokens_def)
qed (auto dest: token_sweep_rest insert_token_rest intro: same_but_tokens_trans)

lemma sweep_rest: "same_but_tokens db (delete_tokens p (retire_rows reason ret wall rs db))"
  using retire_rows_rest [of db reason ret wall rs] delete_tokens_sel(7)
  by (blast intro: same_but_tokens_trans)

lemma revoke_tokens_rest:
  "same_but_tokens db (snd (revoke_bearer_token tid tm clk db))"
  "same_but_tokens db (snd (revoke_principal_tokens pid tm clk db))"
proof -
  have r: "same_but_tokens db db" by (simp add: same_but_tokens_def)
  show "same_but_tokens db (snd (revoke_bearer_token tid tm clk db))"
    using revoke_token_cases [of tid tm clk db]
    by (elim disjE exE conjE) (simp_all only: r sweep_rest)
  show "same_but_tokens db (snd (revoke_principal_tokens pid tm clk db))"
    using revoke_principal_cases [of pid tm clk db]
    by (elim disjE exE conjE) (simp_all only: r sweep_rest)
qed

lemmas token_ops_rest = put_token_rest rotate_rest revoke_tokens_rest

lemma policy_ops_rest:
  "db_calls (snd (put_policy pol db)) = db_calls db"
  "db_calls (snd (revoke_policy pid tm clk db)) = db_calls db"
  "db_tombstones (snd (put_policy pol db)) = db_tombstones db"
  "db_tombstones (snd (revoke_policy pid tm clk db)) = db_tombstones db"
  using put_policy_cases [of pol db] revoke_policy_cases [of pid tm clk db] by auto

lemma binding_ops_rest:
  "db_calls (snd (bind_run pid k run pl tm clk db)) = db_calls db"
  "db_tombstones (snd (bind_run pid k run pl tm clk db)) = db_tombstones db"
  "db_policies (snd (bind_run pid k run pl tm clk db)) = db_policies db"
  "db_calls (snd (abandon_run_binding pid k run pl db)) = db_calls db"
  "db_tombstones (snd (abandon_run_binding pid k run pl db)) = db_tombstones db"
  "db_policies (snd (abandon_run_binding pid k run pl db)) = db_policies db"
  using bind_run_cases [of pid k run pl tm clk db]
  by (auto simp: abandon_run_binding_def write_txn_snd)

lemma reserve_rest:
  "db_tombstones (snd (reserve_call q tm clk db)) = db_tombstones db"
  "db_policies (snd (reserve_call q tm clk db)) = db_policies db"
  using reserve_cases [of q tm clk db] by auto

lemma settle_rest:
  assumes "service_good db"
  shows "db_tombstones (snd (reconcile_call rid pid a tm clk db)) = db_tombstones db"
    "db_policies (snd (reconcile_call rid pid a tm clk db)) = db_policies db"
    "db_tombstones (snd (release_call rid pid db)) = db_tombstones db"
    "db_policies (snd (release_call rid pid db)) = db_policies db"
  using reconcile_cases [OF assms, of rid pid a tm clk]
  by (auto simp: release_call_def write_txn_snd)

lemma same_but_tokensD:
  "same_but_tokens db db' \<Longrightarrow> db_calls db' = db_calls db"
  "same_but_tokens db db' \<Longrightarrow> db_policies db' = db_policies db"
  by (simp_all add: same_but_tokens_def)

lemma same_restD:
  "same_rest db db' \<Longrightarrow> db_calls db' = db_calls db"
  "same_rest db db' \<Longrightarrow> db_policies db' = db_policies db"
  "same_rest db db' \<Longrightarrow> db_tombstones db' = db_tombstones db"
  by (simp_all add: same_rest_def)

lemmas rest_eqs = same_but_tokensD [OF put_token_rest] same_but_tokensD [OF rotate_rest]
  same_but_tokensD [OF revoke_tokens_rest(1)] same_but_tokensD [OF revoke_tokens_rest(2)]
  same_restD [OF put_principals_rest] same_restD [OF set_enabled_rest]
  policy_ops_rest binding_ops_rest reserve_rest

lemma service_call_step:
  assumes g: "service_good db"
  shows "call_step db (db_calls (service_step sha db op))"
proof (cases op)
  case (ReserveCall q tm clk)
  show ?thesis using reserve_cases [of q tm clk db] unfolding ReserveCall
    by (auto intro: call_same call_reserve)
next
  case (ReconcileCall rid pid a tm clk)
  show ?thesis using reconcile_cases [OF g, of rid pid a tm clk] unfolding ReconcileCall
    by (auto intro: call_same call_settle)
next
  case (ReleaseCall rid pid)
  then show ?thesis by (simp add: release_step [OF g])
qed (simp_all add: rest_eqs call_same)

section \<open>The three ledgers\<close>

lemma call_step_frozen:
  assumes "call_step db cs" and "find_call db i = Some e" and "cr_state e \<noteq> CS_Reserved"
  shows "row_where (\<lambda>r. cr_id r = i) cs = Some e"
  using assms find_call_mem [OF assms(2)]
  by (cases rule: call_step.cases) (auto simp: find_call_def row_where_append row_where_update)

lemma call_step_kept:
  assumes "call_step db cs" and "find_call db i = Some e"
  shows "row_where (\<lambda>r. cr_id r = i) cs \<noteq> None"
  using assms
  by (cases rule: call_step.cases) (auto simp: find_call_def row_where_append row_where_update)

interpretation calls: settlement_ledger "service_step sha" service_good find_call
  "\<lambda>e. cr_state e \<noteq> CS_Reserved" for sha
proof unfold_locales
  fix db i e op assume "service_good db" "find_call db i = Some e"
  then show "find_call (service_step sha db op) i \<noteq> None"
    unfolding find_call_def [of "service_step sha db op"]
    using call_step_kept [OF service_call_step] by blast
next
  fix db i e op
  assume "service_good db" "find_call db i = Some e" "cr_state e \<noteq> CS_Reserved"
  then show "find_call (service_step sha db op) i = Some e"
    unfolding find_call_def [of "service_step sha db op"]
    using call_step_frozen [OF service_call_step] by blast
qed

lemma insert_token_keeps:
  "insert_token tid pid h i e db = Inr db' \<Longrightarrow> find_tombstone db' k = find_tombstone db k"
  by (auto simp: insert_token_def find_tombstone_def split: if_splits)

lemma tombstone_kept:
  assumes g: "service_good db" and f: "find_tombstone db h = Some t"
  shows "find_tombstone (service_step sha db op) h = Some t"
proof (cases op)
  case (PutToken tid pid tok i e)
  show ?thesis using put_token_cases [of sha tid pid tok i e db] f unfolding PutToken
    by (elim disjE exE conjE) (simp_all add: insert_token_keeps)
next
  case (RotateToken tid pid tok i e w)
  show ?thesis using rotate_cases [of sha tid pid tok i e w db] unfolding RotateToken
  proof (elim disjE exE conjE)
    fix d issued expires
    assume "token_sweep w db d" "insert_token tid pid (sha tok) issued expires d
      = Inr (snd (rotate_bearer_token sha tid pid tok i e w db))"
    with f show "find_tombstone (service_step sha db (RotateToken tid pid tok i e w)) h = Some t"
      by (simp add: insert_token_keeps token_sweep_keeps)
  qed (auto simp: f token_sweep_keeps)
next
  case (RevokeToken tid tm clk)
  show ?thesis using revoke_token_cases [of tid tm clk db] f unfolding RevokeToken
    by (auto simp: retire_rows_keeps simp del: retire_rows.simps)
next
  case (RevokePrincipalTokens pid tm clk)
  show ?thesis using revoke_principal_cases [of pid tm clk db] f unfolding RevokePrincipalTokens
    by (auto simp: retire_rows_keeps)
qed (use f in \<open>simp_all add: find_tombstone_def rest_eqs settle_rest [OF g]\<close>)

interpretation tombstones: settlement_ledger "service_step sha" service_good find_tombstone
  "\<lambda>_. True" for sha
  by unfold_locales (simp_all add: tombstone_kept)

text \<open>Everything of a policy but its revocation time.\<close>

definition policy_terms :: "service_policy \<Rightarrow> service_policy" where
  "policy_terms p = p\<lparr>sv_revoked := None\<rparr>"

lemma policy_terms_revoke [simp]: "policy_terms (revoke_row now r) = policy_terms r"
  by (simp add: policy_terms_def revoke_row_def)

lemma policy_kept:
  assumes g: "service_good db" and f: "find_policy db k = Some pol"
  shows "\<exists>pol'. find_policy (service_step sha db op) k = Some pol'
     \<and> policy_terms pol' = policy_terms pol \<and> (sv_revoked pol \<noteq> None \<longrightarrow> pol' = pol)"
proof (cases op)
  case (PutPolicy p)
  show ?thesis using put_policy_cases [of p db] f unfolding PutPolicy
    by (auto simp: find_policy_def row_where_append)
next
  case (RevokePolicy pid tm clk)
  have frozen: "sv_revoked r \<noteq> None \<Longrightarrow> revoke_row now r = r" for r now
    by (auto simp: revoke_row_def)
  show ?thesis using revoke_policy_cases [of pid tm clk db] unfolding RevokePolicy
  proof (elim disjE exE)
    assume "snd (revoke_policy pid tm clk db) = db"
    with f show "\<exists>pol'. find_policy (service_step sha db (RevokePolicy pid tm clk)) k = Some pol'
      \<and> policy_terms pol' = policy_terms pol \<and> (sv_revoked pol \<noteq> None \<longrightarrow> pol' = pol)" by simp
  next
    fix now
    assume "snd (revoke_policy pid tm clk db) = db\<lparr>db_policies :=
      update_where (\<lambda>r. sv_id r = pid) (revoke_row now) (db_policies db)\<rparr>"
    with f frozen [of pol now]
    show "\<exists>pol'. find_policy (service_step sha db (RevokePolicy pid tm clk)) k = Some pol'
      \<and> policy_terms pol' = policy_terms pol \<and> (sv_revoked pol \<noteq> None \<longrightarrow> pol' = pol)"
      by (simp add: find_policy_update)
  qed
qed (use f in \<open>simp_all add: find_policy_def rest_eqs settle_rest [OF g]\<close>)

interpretation policies: settlement_ledger "service_step sha" service_good find_policy
  "\<lambda>p. sv_revoked p \<noteq> None" for sha
proof unfold_locales
  fix db i e op assume "service_good db" "find_policy db i = Some e" "sv_revoked e \<noteq> None"
  with policy_kept [of db i e sha op] show "find_policy (service_step sha db op) i = Some e" by auto
next
  fix db i e op assume "service_good db" "find_policy db i = Some e"
  with policy_kept [of db i e sha op] show "find_policy (service_step sha db op) i \<noteq> None" by auto
qed

section \<open>Accounting for the limits\<close>

text \<open>
  The abstract account: reservations open for a principal, the units that a selection of rows
  (a principal's day or month) stands for, and by how much settled rows exceeded what they reserved.
\<close>

definition open_of :: "string \<Rightarrow> call_row list \<Rightarrow> int" where
  "open_of pid rows =
     sum_list (map (\<lambda>c. if cr_principal c = pid \<and> cr_state c = CS_Reserved then 1 else 0) rows)"

definition units_of :: "(call_row \<Rightarrow> bool) \<Rightarrow> call_row list \<Rightarrow> int" where
  "units_of sel rows = sum_list (map (\<lambda>c. if sel c then call_units c else 0) rows)"

definition overrun_of :: "(call_row \<Rightarrow> bool) \<Rightarrow> call_row list \<Rightarrow> int" where
  "overrun_of sel rows = sum_list (map (\<lambda>c. if sel c
     then (case cr_actual c of None \<Rightarrow> 0 | Some a \<Rightarrow> max 0 (a - cr_reserved c)) else 0) rows)"

definition day_sel :: "string \<Rightarrow> int \<Rightarrow> call_row \<Rightarrow> bool" where
  "day_sel pid d c \<longleftrightarrow> cr_principal c = pid \<and> cr_day c = d"

definition month_sel :: "string \<Rightarrow> int \<times> int \<Rightarrow> call_row \<Rightarrow> bool" where
  "month_sel pid m c \<longleftrightarrow> cr_principal c = pid \<and> cr_month c = m"

lemma usage_eq:
  "usage db pid now = (open_of pid (db_calls db), units_of (day_sel pid (date_of now)) (db_calls db),
     units_of (month_sel pid (month_of now)) (db_calls db))"
  unfolding usage_def Let_def sum_rows_where open_of_def units_of_def day_sel_def month_sel_def
  by (simp add: if_bool_eq_conj) (auto intro!: arg_cong [of _ _ sum_list] map_cong)

text \<open>Settling or releasing the row with a key moves each account by one row's difference.\<close>

lemma sum_call_update:
  fixes w :: "call_row \<Rightarrow> int"
  assumes g: "service_good db" and f: "find_call db rid = Some r"
  shows "sum_list (map w (update_where (\<lambda>c. cr_id c = rid) h (db_calls db)))
    = sum_list (map w (db_calls db)) - w r + w (h r)"
  using find_call_mem [OF f] by (intro sum_update_where [OF call_unique [OF g]]) auto

lemma open_row: 
  assumes "service_good db" and "find_call db rid = Some r" and "cr_state r = CS_Reserved"
  shows "cr_actual r = None \<and> 1 \<le> cr_reserved r"
  using service_goodD(5) [OF assms(1)] find_call_mem [OF assms(2)] assms(3)
  by (auto simp: calls_ok_def wf_call_def)

lemma overrun_snoc: "overrun_of sel (rows @ [new_call_row q now]) = overrun_of sel rows"
  by (simp add: overrun_of_def new_call_row_def)

lemma units_snoc:
  "units_of sel (rows @ [new_call_row q now])
   = units_of sel rows + (if sel (new_call_row q now) then cq_units q else 0)"
  by (simp add: units_of_def new_call_row_def call_units_def)

lemma units_step:
  assumes step: "call_step db cs" and g: "service_good db"
    and stable: "\<And>c a now. sel (settle_call a now c) = sel c" "\<And>c. sel (c\<lparr>cr_state := CS_Released\<rparr>) = sel c"
    and bound: "units_of sel (db_calls db) \<le> B + overrun_of sel (db_calls db)"
    and nonneg: "0 \<le> overrun_of sel (db_calls db)"
    and room: "\<And>q now pol. call_gate db q now = Inr pol \<Longrightarrow>
      within_caps pol (cq_units q) (usage db (cq_principal q) now) \<Longrightarrow> sel (new_call_row q now) \<Longrightarrow>
      units_of sel (db_calls db) + cq_units q \<le> B"
  shows "units_of sel cs \<le> B + overrun_of sel cs"
  using step
proof (cases rule: call_step.cases)
  case call_same
  with bound show ?thesis by simp
next
  case (call_reserve q now pol)
  then show ?thesis using bound nonneg room [of q now pol]
    by (cases "sel (new_call_row q now)") (auto simp: units_snoc overrun_snoc)
next
  case (call_settle rid r a now)
  note row = open_row [OF g call_settle(2,3)] and upd = sum_call_update [OF g call_settle(2)]
  have "units_of sel cs = units_of sel (db_calls db) + (if sel r then a - cr_reserved r else 0)"
    using row call_settle(3) unfolding call_settle(1) units_of_def
    by (simp add: upd stable) (simp add: call_units_def settle_call_def)
  moreover have "overrun_of sel cs
    = overrun_of sel (db_calls db) + (if sel r then max 0 (a - cr_reserved r) else 0)"
    using row call_settle(3) unfolding call_settle(1) overrun_of_def
    by (simp add: upd stable) (simp add: settle_call_def)
  ultimately show ?thesis using bound by (auto simp: max_def)
next
  case (call_release rid r)
  note row = open_row [OF g call_release(2,3)] and upd = sum_call_update [OF g call_release(2)]
  have "units_of sel cs = units_of sel (db_calls db) - (if sel r then cr_reserved r else 0)"
    using row call_release(3) unfolding call_release(1) units_of_def
    by (simp add: upd stable) (simp add: call_units_def)
  moreover have "overrun_of sel cs = overrun_of sel (db_calls db)"
    using row call_release(3) unfolding call_release(1) overrun_of_def
    by (simp add: upd stable)
  ultimately show ?thesis using bound row by simp
qed

lemma open_step:
  assumes step: "call_step db cs" and g: "service_good db"
    and bound: "open_of pid (db_calls db) \<le> B"
    and room: "\<And>q now pol. call_gate db q now = Inr pol \<Longrightarrow>
      within_caps pol (cq_units q) (usage db (cq_principal q) now) \<Longrightarrow> cq_principal q = pid \<Longrightarrow>
      open_of pid (db_calls db) < B"
  shows "open_of pid cs \<le> B"
  using step
proof (cases rule: call_step.cases)
  case call_same
  with bound show ?thesis by simp
next
  case (call_reserve q now pol)
  then show ?thesis using bound room [of q now pol]
    by (auto simp: open_of_def new_call_row_def)
next
  case (call_settle rid r a now)
  then show ?thesis using bound unfolding call_settle(1) open_of_def
    by (simp add: sum_call_update [OF g call_settle(2)]) (simp add: settle_call_def)
next
  case (call_release rid r)
  then show ?thesis using bound unfolding call_release(1) open_of_def
    by (simp add: sum_call_update [OF g call_release(2)])
qed

lemma overrun_nonneg: "0 \<le> overrun_of sel rows"
  unfolding overrun_of_def by (rule sum_list_nonneg) (auto split: option.split)

text \<open>\<open>caps cap db pid n\<close>: no policy of the principal allows more than \<open>n\<close>.\<close>

definition caps :: "(service_policy \<Rightarrow> int) \<Rightarrow> service_db \<Rightarrow> string \<Rightarrow> int \<Rightarrow> bool" where
  "caps cap db pid n \<longleftrightarrow> 0 \<le> n \<and> (\<forall>pol\<in>set (db_policies db). sv_principal pol = pid \<longrightarrow> cap pol \<le> n)"

lemma caps_before:
  assumes g: "service_good db" and c: "caps cap (service_step sha db op) pid n"
    and terms: "\<And>p q. policy_terms p = policy_terms q \<Longrightarrow> cap p = cap q"
  shows "caps cap db pid n"
proof -
  have "cap pol \<le> n" if "pol \<in> set (db_policies db)" "sv_principal pol = pid" for pol
  proof -
    have "find_policy db (sv_id pol) = Some pol"
      using service_goodD(3) [OF g] that by (simp add: find_policy_def policies_ok_def row_where_unique)
    then obtain pol' where p: "find_policy (service_step sha db op) (sv_id pol) = Some pol'"
      "policy_terms pol' = policy_terms pol" using policy_kept [OF g] by blast
    then have "pol' \<in> set (db_policies (service_step sha db op))"
      unfolding find_policy_def by (blast dest: row_where_Some)
    moreover have "sv_principal pol' = pid"
      using arg_cong [OF p(2), of sv_principal] that by (simp add: policy_terms_def)
    ultimately show ?thesis using c terms [OF p(2)] by (auto simp: caps_def)
  qed
  with c show ?thesis by (auto simp: caps_def)
qed

lemma terms_limits:
  assumes "policy_terms p = policy_terms q"
  shows "sv_inflight p = sv_inflight q" "sv_daily p = sv_daily q" "sv_monthly p = sv_monthly q"
  using arg_cong [OF assms, of sv_inflight] arg_cong [OF assms, of sv_daily]
    arg_cong [OF assms, of sv_monthly] by (simp_all add: policy_terms_def)

lemma caps_gate:
  assumes "caps cap db (cq_principal q) n" and "call_gate db q now = Inr pol"
  shows "cap pol \<le> n"
  using assms by (auto simp: caps_def call_gate_ok find_policy_def dest: row_where_Some)

definition quota_good :: "service_db \<Rightarrow> bool" where
  "quota_good db \<longleftrightarrow> service_good db
     \<and> (\<forall>pid n. caps sv_inflight db pid n \<longrightarrow> open_of pid (db_calls db) \<le> n)
     \<and> (\<forall>pid n d. caps sv_daily db pid n \<longrightarrow>
          units_of (day_sel pid d) (db_calls db) \<le> n + overrun_of (day_sel pid d) (db_calls db))
     \<and> (\<forall>pid n m. caps sv_monthly db pid n \<longrightarrow>
          units_of (month_sel pid m) (db_calls db) \<le> n + overrun_of (month_sel pid m) (db_calls db))"

lemma sel_stable:
  "day_sel pid d (settle_call a now c) = day_sel pid d c"
  "day_sel pid d (c\<lparr>cr_state := CS_Released\<rparr>) = day_sel pid d c"
  "month_sel pid m (settle_call a now c) = month_sel pid m c"
  "month_sel pid m (c\<lparr>cr_state := CS_Released\<rparr>) = month_sel pid m c"
  by (simp_all add: day_sel_def month_sel_def settle_call_def)

lemma sel_new:
  "day_sel pid d (new_call_row q now) \<longleftrightarrow> cq_principal q = pid \<and> date_of now = d"
  "month_sel pid m (new_call_row q now) \<longleftrightarrow> cq_principal q = pid \<and> month_of now = m"
  by (auto simp: day_sel_def month_sel_def new_call_row_def)

lemma quota_step:
  assumes q: "quota_good db"
  shows "quota_good (service_step sha db op)"
proof -
  have g: "service_good db" using q by (simp add: quota_good_def)
  note step = service_call_step [OF g, of sha op]
  have "open_of pid (db_calls (service_step sha db op)) \<le> n"
    if c: "caps sv_inflight (service_step sha db op) pid n" for pid n
  proof -
    have "caps sv_inflight db pid n" by (rule caps_before [OF g c terms_limits(1)])
    with q show ?thesis
      by (intro open_step [OF step g])
        (auto simp: quota_good_def within_caps_def usage_eq dest: caps_gate)
  qed
  moreover have "units_of (day_sel pid d) (db_calls (service_step sha db op))
      \<le> n + overrun_of (day_sel pid d) (db_calls (service_step sha db op))"
    if c: "caps sv_daily (service_step sha db op) pid n" for pid n d
  proof -
    have "caps sv_daily db pid n" by (rule caps_before [OF g c terms_limits(2)])
    with q show ?thesis
      by (intro units_step [OF step g sel_stable(1,2) _ overrun_nonneg])
        (auto simp: quota_good_def within_caps_def usage_eq sel_new dest: caps_gate)
  qed
  moreover have "units_of (month_sel pid m) (db_calls (service_step sha db op))
      \<le> n + overrun_of (month_sel pid m) (db_calls (service_step sha db op))"
    if c: "caps sv_monthly (service_step sha db op) pid n" for pid n m
  proof -
    have "caps sv_monthly db pid n" by (rule caps_before [OF g c terms_limits(3)])
    with q show ?thesis
      by (intro units_step [OF step g sel_stable(3,4) _ overrun_nonneg])
        (auto simp: quota_good_def within_caps_def usage_eq sel_new simp del: split_paired_All
            dest: caps_gate)
  qed
  ultimately show ?thesis using service_step_good [OF g] by (simp add: quota_good_def)
qed

interpretation quota: invariant_machine "service_step sha" quota_good for sha
  by unfold_locales (rule quota_step)

lemma quota_run: "quota_good db \<Longrightarrow> quota_good (service_run sha db ops)"
  unfolding service_run_def by (rule quota.run_good)

lemma quota_empty: "quota_good empty_service_db"
  using empty_good unfolding quota_good_def
  by (simp add: caps_def empty_service_db_def open_of_def units_of_def overrun_of_def)

end
