(* ===== verification/Service_Properties.thy ===== *)
theory Service_Properties imports Service_Ledgers begin

text \<open>
  What the service store promises: the limits hold along every run, reservations settle once and
  replay, retired credentials stay dead, rotation leaves one credential, run ownership and policy
  terms are permanent, and the tables stay consistent.
\<close>

section \<open>Lemmas for the properties\<close>

lemma run_append: "service_run sha (service_run sha db xs) ys = service_run sha db (xs @ ys)"
  by (simp add: service_run_def)

lemma reachable_good: "service_good (service_run sha empty_service_db ops)"
  by (rule service_run_good [OF empty_good])

text \<open>A row keeps what it was reserved for.\<close>

definition call_identity :: "call_row \<Rightarrow> call_request \<times> instant" where
  "call_identity c = (\<lparr>cq_reservation = cr_id c, cq_policy = cr_policy c, cq_principal = cr_principal c,
     cq_tenant = PERSONAL, cq_run = cr_run c, cq_action = cr_action c, cq_provider = cr_provider c,
     cq_model = cr_model c, cq_units = cr_reserved c\<rparr>, cr_reserved_at c)"

lemma call_step_identity:
  assumes "call_step db cs" and "find_call db i = Some c"
  shows "\<exists>c'. row_where (\<lambda>r. cr_id r = i) cs = Some c' \<and> call_identity c' = call_identity c"
  using assms
  by (cases rule: call_step.cases)
    (auto simp: find_call_def row_where_append row_where_update call_identity_def settle_call_def)

lemma call_identity_kept:
  "service_good db \<Longrightarrow> find_call db i = Some c \<Longrightarrow>
   \<exists>c'. find_call (service_run sha db ops) i = Some c' \<and> call_identity c' = call_identity c"
proof (induction ops arbitrary: db c)
  case Nil
  then show ?case by (simp add: service_run_def)
next
  case (Cons op ops)
  let ?d = "service_step sha db op"
  obtain c1 where "find_call ?d i = Some c1" "call_identity c1 = call_identity c"
    using call_step_identity [OF service_call_step [OF Cons.prems(1)] Cons.prems(2)]
    by (auto simp: find_call_def)
  with Cons.IH [OF service_step_good [OF Cons.prems(1)]] show ?case
    by (fastforce simp: service_run_def)
qed

lemma call_owner:
  "service_good db \<Longrightarrow> find_call db i = Some c \<Longrightarrow> run_owner db (cr_run c) = Some (cr_principal c)"
  by (auto dest!: service_goodD(5) find_call_mem simp: calls_ok_def wf_call_def)

text \<open>Authentication looks the digest up.\<close>

lemma match_token_acc:
  "foldl (\<lambda>matched row. if tk_hash (fst row) = h then Some row else matched) acc rows
   = (case match_token h rows of Some r \<Rightarrow> Some r | None \<Rightarrow> acc)"
proof (induction rows arbitrary: acc)
  case Nil
  show ?case by (simp add: match_token_def)
next
  case (Cons r rows)
  let ?F = "\<lambda>matched row. if tk_hash (fst row) = h then Some row else matched"
  have "match_token h (r # rows) = foldl ?F (?F None r) rows"
    by (simp add: match_token_def)
  moreover have "foldl ?F acc (r # rows) = foldl ?F (?F acc r) rows" by simp
  ultimately show ?case by (simp only: Cons.IH) (simp split: option.split)
qed

lemma match_token_Cons:
  "match_token h (r # rows) = (case match_token h rows of Some x \<Rightarrow> Some x
     | None \<Rightarrow> if tk_hash (fst r) = h then Some r else None)"
proof -
  let ?F = "\<lambda>matched row. if tk_hash (fst row) = h then Some row else matched"
  have "match_token h (r # rows) = foldl ?F (?F None r) rows"
    by (simp add: match_token_def)
  then show ?thesis by (simp only: match_token_acc)
qed

lemma match_token_Nil: "match_token h [] = None"
  by (simp add: match_token_def)

lemma match_token_None: "match_token h rows = None \<longleftrightarrow> (\<forall>r\<in>set rows. tk_hash (fst r) \<noteq> h)"
  by (induction rows) (auto simp: match_token_Nil match_token_Cons split: option.splits)

lemma match_token_Some: "match_token h rows = Some r \<Longrightarrow> r \<in> set rows \<and> tk_hash (fst r) = h"
  by (induction rows) (auto simp: match_token_Nil match_token_Cons split: option.splits if_splits)

lemma joined_rows:
  "set (concat (map (join_principal db) (sort_key tk_id (db_tokens db))))
   = {(t, p). t \<in> set (db_tokens db) \<and> find_principal db (tk_principal t) = Some p}"
  by (auto simp: join_principal_def split: option.splits)

text \<open>In a consistent store the digest decides: the row of the digest, if any, is the match.\<close>

lemma match_good:
  assumes "service_good db"
  shows "match_token h (concat (map (join_principal db) (sort_key tk_id (db_tokens db)))) = Some (t, p)
    \<longleftrightarrow> t \<in> set (db_tokens db) \<and> tk_hash t = h \<and> find_principal db (tk_principal t) = Some p"
    (is "match_token h ?rows = _ \<longleftrightarrow> ?row")
proof
  assume "match_token h ?rows = Some (t, p)"
  then show ?row using match_token_Some joined_rows by fastforce
next
  assume r: ?row
  then have "(t, p) \<in> set ?rows" by (simp only: joined_rows) simp
  with r obtain t' p' where m: "match_token h ?rows = Some (t', p')"
    using match_token_None [of h ?rows] by fastforce
  then have "t' \<in> set (db_tokens db)" "tk_hash t' = h" "find_principal db (tk_principal t') = Some p'"
    using match_token_Some joined_rows by fastforce+
  moreover from this r have "t' = t"
    using service_goodD(2) [OF assms] by (auto simp: tokens_ok_def dest: unique_onD)
  ultimately show "match_token h ?rows = Some (t, p)" using m r by simp
qed

lemma reserve_eq:
  "utc_now tm clk = Inr now \<Longrightarrow>
   reserve_call q tm clk db = (Inr (fst (reserve_call_body q now db)), snd (reserve_call_body q now db))"
  by (simp add: reserve_call_def write_txn_def split: prod.split)

lemma reconcile_eq:
  "utc_now tm clk = Inr now \<Longrightarrow> 0 \<le> a \<Longrightarrow>
   reconcile_call rid pid a tm clk db
   = (Inr (fst (reconcile_call_body rid pid a now db)), snd (reconcile_call_body rid pid a now db))"
  by (simp add: reconcile_call_def write_txn_def positive_or_zero_def split: prod.split)

lemma principal_gate_None:
  "principal_gate db pid t = None \<longleftrightarrow>
   (\<exists>p. find_principal db pid = Some p \<and> pr_enabled p \<and> pr_tenant p = t)"
  by (auto simp: principal_gate_def split: option.splits if_splits)

lemma policy_window_None:
  "policy_window pol t now = None \<longleftrightarrow>
   sv_tenant pol = t \<and> (\<forall>r. sv_revoked pol = Some r \<longrightarrow> now < r) \<and> sv_issued pol \<le> now
   \<and> now < sv_expires pol"
  by (auto simp: policy_window_def split: option.splits if_splits)

lemma gate_code: "call_gate db q now = Inl c \<Longrightarrow> c \<noteq> C_RESERVED \<and> c \<noteq> C_REPLAY"
  by (auto simp: call_gate_def principal_gate_def policy_window_def split: option.splits if_splits)

lemma matches_identity:
  "reservation_matches c q \<Longrightarrow> call_identity c' = call_identity c \<Longrightarrow> reservation_matches c' q"
  by (simp add: reservation_matches_def call_identity_def)

lemma new_row_matches: "reservation_matches (new_call_row q now) q'
  \<longleftrightarrow> q'\<lparr>cq_tenant := cq_tenant q, cq_reservation := cq_reservation q\<rparr> = q"
  by (cases q; cases q') (auto simp: reservation_matches_def new_call_row_def)

text \<open>A retired digest has no live row, now or later.\<close>

lemma retired_no_row:
  assumes "service_good db" and "token_is_retired db h" and "t \<in> set (db_tokens db)"
  shows "tk_hash t \<noteq> h"
  using service_goodD(2) [OF assms(1)] assms(2,3) by (auto simp: tokens_ok_def)

lemma retired_stays:
  "service_good db \<Longrightarrow> token_is_retired db h \<Longrightarrow> token_is_retired (service_run sha db ops) h"
  using tombstones.run_settled_frozen [of db h _ sha ops]
  by (auto simp: token_is_retired_def service_run_def)

lemma retired_refused:
  assumes g: "service_good db" and r: "token_is_retired db (sha tok)"
  shows "authenticate_bearer sha db tok tm clk \<noteq> Inr (Some au)
    \<and> (\<exists>e. put_bearer_token sha tid pid tok i x db = (Inl e, db))
    \<and> (\<exists>e. rotate_bearer_token sha tid pid tok i x wall db = (Inl e, db))"
proof -
  let ?rows = "concat (map (join_principal db) (sort_key tk_id (db_tokens db)))"
  have "match_token (sha tok) ?rows = None"
    using retired_no_row [OF g r] match_good [OF g] by (cases "match_token (sha tok) ?rows") auto
  then have "authenticate_bearer sha db tok tm clk \<noteq> Inr (Some au)"
    by (auto simp: authenticate_bearer_def result_simps)
  moreover have "\<exists>e. put_bearer_token sha tid pid tok i x db = (Inl e, db)"
    using r by (simp add: put_bearer_token_def write_txn_def Let_def split: sum.split prod.split)
  moreover have "\<exists>e. rotate_bearer_token sha tid pid tok i x wall db = (Inl e, db)"
    using r by (simp add: rotate_bearer_token_def write_txn_def Let_def split: sum.split prod.split)
  ultimately show ?thesis by blast
qed

lemma filter_single:
  assumes "unique_on key rows" and "m \<in> set rows" and "\<And>r. r \<in> set rows \<Longrightarrow> p r \<longleftrightarrow> r = m"
  shows "rows_where p rows = [m]"
  using assms
proof (induction rows)
  case (Cons r rows)
  show ?case
  proof (cases "r = m")
    case True
    with Cons.prems have "\<forall>x\<in>set rows. \<not> p x" by (auto simp: unique_on_def image_iff)
    then have "rows_where p rows = []" by (simp add: rows_where_def filter_empty_conv)
    with True Cons.prems show ?thesis by (simp add: rows_where_def)
  next
    case False
    with Cons show ?thesis by (simp add: rows_where_def unique_on_def)
  qed
qed simp

lemma rows_where_delete: "rows_where q (delete_where p rows) = rows_where (\<lambda>r. q r \<and> \<not> p r) rows"
  by (simp add: rows_where_def delete_where_def conj_commute)

lemma rows_where_cong: "(\<And>r. r \<in> set rows \<Longrightarrow> p r = q r) \<Longrightarrow> rows_where p rows = rows_where q rows"
  by (simp add: rows_where_def cong: filter_cong)

lemma insert_token_rows:
  "insert_token tid pid h issued expires db = Inr db' \<Longrightarrow>
   db_tokens db' = db_tokens db @ [\<lparr>tk_id = tid, tk_principal = pid, tk_hash = h,
     tk_issued = issued, tk_expires = expires, tk_revoked = None\<rparr>]"
  by (auto simp: insert_token_def split: if_splits)

text \<open>A successful rotation, case by case: the row that carries the digest is kept, or inserted.\<close>

lemma rotate_success:
  assumes "fst (rotate_bearer_token sha tid pid tok i e wall db) = Inr ()"
  obtains (kept) m reason rs where
      "m \<in> set (db_tokens db)" "tk_hash m = sha tok" "tk_principal m = pid"
      "set rs = {r \<in> set (db_tokens db). tk_principal r = pid \<and> tk_id r \<noteq> tk_id m}"
      "snd (rotate_bearer_token sha tid pid tok i e wall db)
        = delete_tokens (\<lambda>r. tk_principal r = pid \<and> tk_id r \<noteq> tk_id m)
            (retire_rows reason None wall rs db)"
    | (inserted) issued expires reason rs where
      "set rs = {r \<in> set (db_tokens db). tk_principal r = pid}"
      "insert_token tid pid (sha tok) issued expires (delete_tokens (\<lambda>r. tk_principal r = pid)
          (retire_rows reason None wall rs db))
        = Inr (snd (rotate_bearer_token sha tid pid tok i e wall db))"
proof -
  obtain issued expires where ie: "check_bearer tid pid tok i e = Inr (issued, expires)"
    using assms by (cases "check_bearer tid pid tok i e") (auto simp: rotate_bearer_token_def)
  obtain p where live: "find_principal db pid = Some p" "\<not> token_is_retired db (sha tok)"
    using assms by (auto simp: rotate_bearer_token_def ie write_txn_fst Let_def split: if_splits)
  let ?rows = "sort_key tk_id (db_tokens db)"
  show ?thesis
  proof (cases "row_where (\<lambda>r. tk_hash r = sha tok) ?rows")
    case (Some m)
    then have "m \<in> set (db_tokens db)" "tk_hash m = sha tok" by (auto dest: row_where_Some)
    moreover have "tk_principal m = pid" "tk_revoked m = None"
      using assms live Some
      by (auto simp: rotate_bearer_token_def ie write_txn_fst Let_def split: if_splits)
    moreover from this have "snd (rotate_bearer_token sha tid pid tok i e wall db)
      = delete_tokens (\<lambda>r. tk_principal r = pid \<and> tk_id r \<noteq> tk_id m) (retire_rows (\<lambda>r. Rotated)
          None wall (rows_where (\<lambda>r. tk_principal r = pid \<and> tk_id r \<noteq> tk_id m) ?rows) db)"
      using live Some by (simp add: rotate_bearer_token_def ie write_txn_snd Let_def)
    ultimately show ?thesis
      by (intro kept [of m "rows_where (\<lambda>r. tk_principal r = pid \<and> tk_id r \<noteq> tk_id m) ?rows"])
        (simp_all add: set_rows_where)
  next
    case None
    let ?reason = "\<lambda>r. if tk_revoked r \<noteq> None then Revoked else Rotated"
    let ?rs = "rows_where (\<lambda>r. tk_principal r = pid) ?rows"
    let ?ins = "insert_token tid pid (sha tok) issued expires
      (delete_tokens (\<lambda>r. tk_principal r = pid) (retire_rows ?reason None wall ?rs db))"
    have f: "fst (rotate_bearer_token sha tid pid tok i e wall db)
        = (case ?ins of Inl er \<Rightarrow> Inl er | Inr d \<Rightarrow> Inr ())"
      using live None
      by (simp add: rotate_bearer_token_def ie write_txn_fst Let_def rbind_def split: sum.split)
    obtain d where d: "?ins = Inr d" using assms f by (cases "?ins") auto
    have "snd (rotate_bearer_token sha tid pid tok i e wall db) = d"
      using live None d by (simp add: rotate_bearer_token_def ie write_txn_snd Let_def)
    with d show ?thesis by (intro inserted [of ?rs issued expires ?reason]) (simp_all add: set_rows_where)
  qed
qed

section \<open>The properties\<close>

text \<open>C20: Along every run of store operations from the empty store, a principal's usage as the
  store reports it stays within every bound that all of the principal's policies respect: never
  more reservations in flight, and never more daily or monthly units except by what settled calls
  reported above their own reservation.\<close>

theorem service_limits_hold:
  assumes "usage (service_run sha empty_service_db ops) pid now = (inflight, daily, monthly)"
    and "caps sv_inflight (service_run sha empty_service_db ops) pid n"
    and "caps sv_daily (service_run sha empty_service_db ops) pid d"
    and "caps sv_monthly (service_run sha empty_service_db ops) pid m"
  shows "inflight \<le> n
    \<and> daily \<le> d + overrun_of (day_sel pid (date_of now))
                    (db_calls (service_run sha empty_service_db ops))
    \<and> monthly \<le> m + overrun_of (month_sel pid (month_of now))
                      (db_calls (service_run sha empty_service_db ops))"
proof -
  have "quota_good (service_run sha empty_service_db ops)" by (rule quota_run [OF quota_empty])
  with assms show ?thesis unfolding quota_good_def usage_eq by blast
qed

text \<open>C21: A call is allowed exactly when it repeats a known reservation, or the principal is
  enabled in the request's tenant, owns the run, and the named policy is its own, unrevoked, in its
  window, covers action, provider and model, and has room in flight, for the day and for the month;
  a row is written exactly when the answer is RESERVED.\<close>

theorem service_reserve_allowed_iff:
  assumes "utc_now tm clk = Inr now"
  shows "\<exists>r. fst (reserve_call q tm clk db) = Inr r
    \<and> (ca_allowed r \<longleftrightarrow> (case find_call db (cq_reservation q) of
         Some ex \<Rightarrow> reservation_matches ex q
       | None \<Rightarrow> \<exists>p pol. find_principal db (cq_principal q) = Some p \<and> pr_enabled p
           \<and> pr_tenant p = cq_tenant q \<and> run_owner db (cq_run q) = Some (cq_principal q)
           \<and> find_policy db (cq_policy q) = Some pol \<and> sv_principal pol = cq_principal q
           \<and> sv_tenant pol = cq_tenant q \<and> (\<forall>t. sv_revoked pol = Some t \<longrightarrow> now < t)
           \<and> sv_issued pol \<le> now \<and> now < sv_expires pol \<and> cq_action q \<in> sv_actions pol
           \<and> cq_provider q \<in> sv_providers pol \<and> cq_model q \<in> sv_models pol
           \<and> within_caps pol (cq_units q) (usage db (cq_principal q) now)))
    \<and> snd (reserve_call q tm clk db)
        = (if ca_code r = C_RESERVED then db\<lparr>db_calls := db_calls db @ [new_call_row q now]\<rparr> else db)"
proof (cases "find_call db (cq_reservation q)")
  case (Some ex)
  then show ?thesis unfolding reserve_eq [OF assms]
    by (simp add: reserve_call_body_def mk_call_result_def split: prod.split)
next
  case None
  show ?thesis
  proof (cases "call_gate db q now")
    case (Inl c)
    then have no: "\<nexists>pol. call_gate db q now = Inr pol" by simp
    show ?thesis unfolding reserve_eq [OF assms]
      using None Inl gate_code [OF Inl]
        no [unfolded call_gate_ok principal_gate_None policy_window_None]
      by (auto simp: reserve_call_body_def mk_call_result_def)
  next
    case (Inr pol)
    show ?thesis unfolding reserve_eq [OF assms]
      using None Inr Inr [unfolded call_gate_ok principal_gate_None policy_window_None]
      by (auto simp: reserve_call_body_def mk_call_result_def within_caps_def split: prod.split)
  qed
qed

text \<open>C20: A reservation id is granted at most once: after a call was allowed, whatever
  operations follow, the same request answers REPLAY and a request with the same id for anything
  else is a conflict, and neither changes the store.\<close>

theorem service_reserved_once:
  assumes "service_good db" and "wf_call_request q"
    and "fst (reserve_call q tm clk db) = Inr r" and "ca_allowed r"
    and "utc_now tm' clk' = Inr now'" and "cq_reservation q' = cq_reservation q"
  shows "\<exists>r'. reserve_call q' tm' clk' (service_run sha (snd (reserve_call q tm clk db)) ops)
      = (Inr r', service_run sha (snd (reserve_call q tm clk db)) ops)
    \<and> ca_code r' = (if q'\<lparr>cq_tenant := cq_tenant q\<rparr> = q then C_REPLAY else C_RESERVATION_CONFLICT)
    \<and> ca_allowed r' = (q'\<lparr>cq_tenant := cq_tenant q\<rparr> = q)"
proof -
  let ?d = "snd (reserve_call q tm clk db)"
  obtain now where now: "utc_now tm clk = Inr now"
    using assms(3) by (cases "utc_now tm clk") (simp_all add: reserve_call_def)
  note body = reserve_eq [OF now, of q db]
  have "\<exists>c. find_call ?d (cq_reservation q) = Some c \<and> reservation_matches c q"
  proof (cases "find_call db (cq_reservation q)")
    case (Some ex)
    then show ?thesis using assms(3,4) unfolding body
      by (auto simp: reserve_call_body_def mk_call_result_def split: if_splits prod.splits)
  next
    case None
    then show ?thesis using assms(3,4) unfolding body
      by (auto simp: reserve_call_body_def mk_call_result_def find_call_def row_where_append
          new_row_matches new_call_row_def reservation_matches_def
          split: if_splits prod.splits sum.splits)
  qed
  then obtain c where c: "find_call ?d (cq_reservation q) = Some c" "reservation_matches c q" by blast
  have good: "service_good ?d" by (rule reserve_call_good [OF assms(1,2)])
  obtain c' where c': "find_call (service_run sha ?d ops) (cq_reservation q) = Some c'"
    "call_identity c' = call_identity c" using call_identity_kept [OF good c(1)] by blast
  have m: "reservation_matches c' q" by (rule matches_identity [OF c(2) c'(2)])
  have "reservation_matches c' q' \<longleftrightarrow> q'\<lparr>cq_tenant := cq_tenant q\<rparr> = q"
    using m assms(6) by (cases q; cases q') (auto simp: reservation_matches_def)
  then show ?thesis unfolding reserve_eq [OF assms(5)] using c'(1) assms(6)
    by (simp add: reserve_call_body_def mk_call_result_def split: prod.split)
qed

text \<open>C18: Settlement is idempotent.  Once a reservation is settled with \<open>a\<close> units, settling it
  again with \<open>a\<close> is accepted as IDEMPOTENT, with another amount refused as CONFLICT, and releasing it
  answers False; none of these changes the store.\<close>

theorem service_reconcile_idempotent:
  assumes "service_good db" and "fst (reconcile_call rid pid a tm clk db) = Inr k" and "kr_accepted k"
    and "utc_now tm' clk' = Inr now'" and "0 \<le> b"
  shows "\<exists>k'. reconcile_call rid pid b tm' clk' (snd (reconcile_call rid pid a tm clk db))
        = (Inr k', snd (reconcile_call rid pid a tm clk db))
      \<and> kr_code k' = (if b = a then K_IDEMPOTENT else K_CONFLICT) \<and> kr_accepted k' = (b = a)
      \<and> release_call rid pid (snd (reconcile_call rid pid a tm clk db))
        = (Inr False, snd (reconcile_call rid pid a tm clk db))"
proof -
  let ?d = "snd (reconcile_call rid pid a tm clk db)"
  obtain now where now: "utc_now tm clk = Inr now" and a: "0 \<le> a"
    using assms(2)
    by (cases "rbind (positive_or_zero a ''actual_units'') (\<lambda>_. utc_now tm clk)")
      (auto simp: reconcile_call_def result_simps)
  note body = reconcile_eq [OF now a, of rid pid db]
  let ?p = "\<lambda>r. cr_id r = rid \<and> cr_principal r = pid \<and> find_policy db (cr_policy r) \<noteq> None"
  obtain r where r: "row_where ?p (db_calls db) = Some r"
    using assms(2,3) unfolding body
    by (cases "row_where ?p (db_calls db)")
      (auto simp: reconcile_call_body_def mk_reconciliation_def)
  then have rr: "r \<in> set (db_calls db)" "cr_id r = rid" "cr_principal r = pid"
    "find_policy db (cr_policy r) \<noteq> None" using row_where_Some [OF r] by auto
  then obtain pol where pol: "find_policy db (cr_policy r) = Some pol" by blast
  have good: "service_good ?d" by (rule settle_call_good [OF assms(1)])
  have polsame: "db_policies ?d = db_policies db" by (rule settle_rest(2) [OF assms(1)])
  have "\<exists>c. find_call ?d rid = Some c \<and> cr_principal c = pid \<and> cr_policy c = cr_policy r
    \<and> cr_state c = CS_Reconciled \<and> cr_actual c = Some a"
  proof -
    have f: "find_call db rid = Some r" using find_call_of [OF assms(1) rr(1)] rr(2) by simp
    show ?thesis
      using assms(2,3) r pol f rr unfolding body
      by (auto simp: reconcile_call_body_def mk_reconciliation_def reconciled_answer_def
          find_call_update settle_call_def split: call_state.splits prod.splits if_splits)
  qed
  then obtain c where c: "find_call ?d rid = Some c" "cr_principal c = pid" "cr_policy c = cr_policy r"
    "cr_state c = CS_Reconciled" "cr_actual c = Some a" by blast
  have cm: "c \<in> set (db_calls ?d)" "cr_id c = rid" using find_call_mem [OF c(1)] by auto
  have only: "x = c" if "x \<in> set (db_calls ?d)" "cr_id x = rid" for x
    using unique_onD [OF call_unique [OF good] that(1) cm(1)] that cm by simp
  have fp: "find_policy ?d = find_policy db" by (simp add: fun_eq_iff find_policy_def polsame)
  have row: "row_where (\<lambda>r. cr_id r = rid \<and> cr_principal r = pid
      \<and> find_policy ?d (cr_policy r) \<noteq> None) (db_calls ?d) = Some c"
  proof (cases "row_where (\<lambda>r. cr_id r = rid \<and> cr_principal r = pid
      \<and> find_policy ?d (cr_policy r) \<noteq> None) (db_calls ?d)")
    case None
    then show ?thesis using cm c pol by (auto simp: row_where_None fp)
  next
    case (Some x)
    then show ?thesis using row_where_Some [OF Some] only by auto
  qed
  have rel: "\<not> releasable rid pid x" if "x \<in> set (db_calls ?d)" for x
    using only [OF that] c(4) by (auto simp: releasable_def)
  have "release_call rid pid ?d = (Inr False, ?d)"
    using rel by (simp add: release_call_def write_txn_def update_where_none count_where_zero)
      (metis One_nat_def count_where_zero rel zero_neq_one)
  moreover have "reconcile_call_body rid pid b now' ?d
    = (if b = a then reconciled_answer c pol pid b now' K_IDEMPOTENT ?d
       else (mk_reconciliation rid pid b False K_CONFLICT False False False, ?d))"
    using row c pol by (simp add: reconcile_call_body_def fp)
  ultimately show ?thesis unfolding reconcile_eq [OF assms(4,5)]
    by (simp add: reconciled_answer_def mk_reconciliation_def split: prod.split)
qed

text \<open>C19: A reservation that was reconciled or released keeps its row, whatever operations
  follow.\<close>

theorem service_settlement_final:
  assumes "service_good db" and "find_call db rid = Some c" and "cr_state c \<noteq> CS_Reserved"
  shows "find_call (service_run sha db ops) rid = Some c"
  unfolding service_run_def by (rule calls.run_settled_frozen [OF assms])

text \<open>C22: A revoked bearer token is dead for good: after the revocation of its row succeeded, and
  whatever operations follow, the token never authenticates, and registering it or rotating to it,
  for any principal and token id, fails and leaves the store as it is.\<close>

theorem service_revoked_token_dead:
  assumes "service_good db" and "r \<in> set (db_tokens db)" and "tk_hash r = sha tok"
    and "utc_now tm clk = Inr now"
  shows "authenticate_bearer sha (service_run sha (snd (revoke_bearer_token (tk_id r) tm clk db)) ops)
        tok tm' clk' \<noteq> Inr (Some au)
    \<and> (\<exists>e. put_bearer_token sha tid pid tok i x
           (service_run sha (snd (revoke_bearer_token (tk_id r) tm clk db)) ops)
         = (Inl e, service_run sha (snd (revoke_bearer_token (tk_id r) tm clk db)) ops))
    \<and> (\<exists>e. rotate_bearer_token sha tid pid tok i x wall
           (service_run sha (snd (revoke_bearer_token (tk_id r) tm clk db)) ops)
         = (Inl e, service_run sha (snd (revoke_bearer_token (tk_id r) tm clk db)) ops))"
proof -
  let ?d = "snd (revoke_bearer_token (tk_id r) tm clk db)"
  have "row_where (\<lambda>x. tk_id x = tk_id r) (db_tokens db) = Some r"
    using service_goodD(2) [OF assms(1)] assms(2) by (simp add: tokens_ok_def row_where_unique)
  then have "token_is_retired ?d (sha tok)"
    by (simp add: revoke_bearer_token_def assms(4) write_txn_snd retire_row_retired assms(3))
  then have "token_is_retired (service_run sha ?d ops) (sha tok)"
    by (rule retired_stays [OF revoke_token_good [OF assms(1)]])
  then show ?thesis
    by (rule retired_refused [OF service_run_good [OF revoke_token_good [OF assms(1)]]])
qed

text \<open>C21: A successful rotation leaves the principal exactly one token row, the one of the new
  token; every other token the principal had is retired, and nobody else's tokens change.\<close>

theorem service_rotation_single:
  assumes "service_good db" and "fst (rotate_bearer_token sha tid pid tok i e wall db) = Inr ()"
  shows "(\<exists>t. rows_where (\<lambda>r. tk_principal r = pid)
            (db_tokens (snd (rotate_bearer_token sha tid pid tok i e wall db))) = [t]
          \<and> tk_hash t = sha tok)
    \<and> (\<forall>r\<in>set (db_tokens db). tk_principal r = pid \<and> tk_hash r \<noteq> sha tok \<longrightarrow>
         token_is_retired (snd (rotate_bearer_token sha tid pid tok i e wall db)) (tk_hash r))
    \<and> rows_where (\<lambda>r. tk_principal r \<noteq> pid)
        (db_tokens (snd (rotate_bearer_token sha tid pid tok i e wall db)))
      = rows_where (\<lambda>r. tk_principal r \<noteq> pid) (db_tokens db)"
  using assms(2)
proof (cases rule: rotate_success)
  case (kept m reason rs)
  have u: "unique_on tk_id (db_tokens db)"
    using service_goodD(2) [OF assms(1)] by (simp add: tokens_ok_def)
  have toks: "db_tokens (retire_rows reason None wall rs db) = db_tokens db"
    using retire_rows_rest by blast
  have same: "r = m" if "r \<in> set (db_tokens db)" "tk_id r = tk_id m" for r
    using unique_onD [OF u that(1) kept(1)] that(2) by simp
  have "rows_where (\<lambda>r. tk_principal r = pid \<and> \<not> (tk_principal r = pid \<and> tk_id r \<noteq> tk_id m))
      (db_tokens db) = [m]"
    using same kept(3) by (intro filter_single [OF u kept(1)]) auto
  moreover have "rows_where (\<lambda>r. tk_principal r \<noteq> pid \<and> \<not> (tk_principal r = pid \<and> tk_id r \<noteq> tk_id m))
      (db_tokens db) = rows_where (\<lambda>r. tk_principal r \<noteq> pid) (db_tokens db)"
    by (rule rows_where_cong) auto
  moreover have "tk_hash r \<in> tk_hash ` set rs"
    if "r \<in> set (db_tokens db)" "tk_principal r = pid" "tk_hash r \<noteq> sha tok" for r
  proof -
    have "tk_id r \<noteq> tk_id m" using that same [of r] kept(2) by auto
    with that kept(4) have "r \<in> set rs" by simp
    then show ?thesis by (rule imageI)
  qed
  ultimately show ?thesis unfolding kept(5)
    by (simp add: toks rows_where_delete kept(2) retire_rows_retired)
next
  case (inserted issued expires reason rs)
  let ?d = "delete_tokens (\<lambda>r. tk_principal r = pid) (retire_rows reason None wall rs db)"
  have toks: "db_tokens (retire_rows reason None wall rs db) = db_tokens db"
    using retire_rows_rest by blast
  have res: "db_tokens (snd (rotate_bearer_token sha tid pid tok i e wall db))
      = delete_where (\<lambda>r. tk_principal r = pid) (db_tokens db) @
        [\<lparr>tk_id = tid, tk_principal = pid, tk_hash = sha tok, tk_issued = issued,
          tk_expires = expires, tk_revoked = None\<rparr>]"
    by (simp add: insert_token_rows [OF inserted(2)] toks)
  have ret: "token_is_retired (snd (rotate_bearer_token sha tid pid tok i e wall db)) h
      \<longleftrightarrow> token_is_retired ?d h" for h
    by (simp only: token_is_retired_def insert_token_keeps [OF inserted(2)])
  show ?thesis unfolding ret res
    using inserted(1)
    by (auto simp: rows_where_def delete_where_def retire_rows_retired)
qed

text \<open>C22: Bearer authentication succeeds exactly for the token row that stores the token's
  digest, inside its validity window, when its principal is enabled, and then names that row's
  principal and token id.\<close>

theorem service_authenticate_iff:
  assumes "service_good db" and "trimmed tok" and "utc_now tm clk = Inr now"
  shows "authenticate_bearer sha db tok tm clk = Inr (Some au) \<longleftrightarrow>
    (\<exists>t p. t \<in> set (db_tokens db) \<and> tk_hash t = sha tok
       \<and> find_principal db (tk_principal t) = Some p \<and> pr_enabled p
       \<and> tk_issued t \<le> now \<and> now < tk_expires t
       \<and> au = \<lparr>au_principal = p, au_token = tk_id t\<rparr>)"
proof -
  let ?match = "match_token (sha tok)
    (concat (map (join_principal db) (sort_key tk_id (db_tokens db))))"
  have live: "tk_revoked t = None" if "t \<in> set (db_tokens db)" for t
    using service_goodD(2) [OF assms(1)] that by (simp add: tokens_ok_def)
  have auth: "authenticate_bearer sha db tok tm clk = Inr (Some au) \<longleftrightarrow>
    (\<exists>t p. ?match = Some (t, p) \<and> pr_enabled p \<and> tk_revoked t = None \<and> tk_issued t \<le> now
       \<and> now < tk_expires t \<and> au = \<lparr>au_principal = p, au_token = tk_id t\<rparr>)"
    using assms(2,3)
    by (cases ?match)
      (auto simp: authenticate_bearer_def check_text_def not_less not_le intro!: principal.equality
        split: if_splits)
  show ?thesis unfolding auth match_good [OF assms(1)] using live by blast
qed

text \<open>C23: Binding is idempotent per principal and key: once a run was created or replayed for a
  key, any later proposal for the same key answers with the original run, as a REPLAY for the same
  payload and as an IDEMPOTENCY_CONFLICT for another one, and changes nothing.\<close>

theorem service_bind_idempotent:
  assumes "fst (bind_run pid k run pl tm clk db) = Inr b"
    and "bn_code b = B_CREATED \<or> bn_code b = B_REPLAY"
    and "trimmed run'" and "trimmed pl'" and "utc_now tm' clk' = Inr now'"
  shows "bind_run pid k run' pl' tm' clk' (snd (bind_run pid k run pl tm clk db))
    = (Inr \<lparr>bn_code = (if pl' = pl then B_REPLAY else B_IDEMPOTENCY_CONFLICT), bn_principal = pid,
          bn_run = bn_run b, bn_key = k, bn_payload = pl\<rparr>,
       snd (bind_run pid k run pl tm clk db))"
proof -
  obtain now where now: "utc_now tm clk = Inr now" and t: "trimmed pid" "trimmed k" "trimmed run" "trimmed pl"
    using assms(1)
    by (cases "rbind (check_text pid ''principal_id'') (\<lambda>_.
           rbind (check_text k ''idempotency_key'') (\<lambda>_.
           rbind (check_text run ''run_id'') (\<lambda>_.
           rbind (check_text pl ''payload_hash'') (\<lambda>_. utc_now tm clk))))")
      (auto simp: bind_run_def result_simps)
  have eq: "bind_run pid k r p tm0 clk0 d
    = (Inr (fst (bind_run_body pid k r p n d)), snd (bind_run_body pid k r p n d))"
    if "trimmed r" "trimmed p" "utc_now tm0 clk0 = Inr n" for r p tm0 clk0 n d
    using that t by (simp add: bind_run_def check_text_def write_txn_def split: prod.split)
  note first = eq [OF t(3,4) now, of db] and second = eq [OF assms(3,4,5)]
  have b: "b = fst (bind_run_body pid k run pl now db)" using assms(1) unfolding first by simp
  show ?thesis unfolding second unfolding first using assms(2) unfolding b
    by (auto simp: bind_run_body_def mk_binding_def find_key_def find_run_def find_principal_def
        row_where_append split: option.splits if_splits)
qed

text \<open>C23: A run that has a reservation can never change hands: whatever operations follow, its
  owner is the principal the reservation is charged to, and abandoning it answers False.\<close>

theorem service_run_owner_permanent:
  assumes "service_good db" and "find_call db rid = Some c"
  shows "run_owner (service_run sha db ops) (cr_run c) = Some (cr_principal c)
    \<and> fst (abandon_run_binding pid k (cr_run c) pl (service_run sha db ops)) = Inr False"
proof -
  let ?d = "service_run sha db ops"
  obtain c' where c': "find_call ?d rid = Some c'" "call_identity c' = call_identity c"
    using call_identity_kept [OF assms] by blast
  then have same: "cr_run c' = cr_run c" "cr_principal c' = cr_principal c"
    by (simp_all add: call_identity_def)
  have "\<not> abandonable ?d pid k (cr_run c) pl r" for r
    using find_call_mem [OF c'(1)] same by (auto simp: abandonable_def row_where_None)
  then have "count_where (abandonable ?d pid k (cr_run c) pl) (db_bindings ?d) = 0"
    by (simp add: count_where_zero)
  then show ?thesis
    using call_owner [OF service_run_good [OF assms(1)] c'(1)] same
    by (simp add: abandon_run_binding_def write_txn_fst)
qed

text \<open>C24: Revoking a policy is permanent: from its revocation time on, and whatever operations
  follow, no action is authorized under the policy and no new call is reserved under it.\<close>

theorem service_policy_revocation_permanent:
  assumes "service_good db" and "fst (revoke_policy pol_id tm clk db) = Inr (Some pol)"
    and "sv_revoked pol = Some t" and "t \<le> now" and "utc_now tm' clk' = Inr now"
  shows "(\<forall>r. authorize_action (service_run sha (snd (revoke_policy pol_id tm clk db)) ops)
             pol_id pid tn act tm' clk' = Inr r \<longrightarrow> \<not> ax_allowed r)
    \<and> (\<forall>q r. cq_policy q = pol_id \<longrightarrow>
         fst (reserve_call q tm' clk' (service_run sha (snd (revoke_policy pol_id tm clk db)) ops))
           = Inr r \<longrightarrow> ca_code r \<noteq> C_RESERVED)"
proof -
  let ?d1 = "snd (revoke_policy pol_id tm clk db)" let ?d = "service_run sha ?d1 ops"
  have "find_policy ?d1 pol_id = Some pol"
    using assms(2)
    by (auto simp: revoke_policy_def write_txn_fst write_txn_snd Let_def split: sum.splits if_splits)
  then have p: "find_policy ?d pol_id = Some pol"
    using policies.run_settled_frozen [OF revoke_policy_good [OF assms(1)], of pol_id tm clk pol_id pol]
      assms(3) by (simp add: service_run_def)
  have w: "policy_window pol tn' now \<noteq> None" for tn'
    using assms(3,4) by (simp add: policy_window_def)
  have "action_code ?d pol_id pid tn act now \<noteq> C_RESERVED"
    using p assms(3,4) by (simp add: action_code_def principal_gate_def policy_window_def split: option.split)
  then have "\<not> ax_allowed r"
    if "authorize_action ?d pol_id pid tn act tm' clk' = Inr r" for r
    using that assms(5) by (auto simp: authorize_action_def result_simps Let_def)
  moreover have "ca_code r \<noteq> C_RESERVED"
    if q: "cq_policy q = pol_id" and f: "fst (reserve_call q tm' clk' ?d) = Inr r" for q r
  proof -
    have "\<nexists>pl. call_gate ?d q now = Inr pl" using p w q by (auto simp: call_gate_ok)
    then obtain c where "call_gate ?d q now = Inl c" by (cases "call_gate ?d q now") auto
    with gate_code [OF this] f show ?thesis unfolding reserve_eq [OF assms(5)]
      by (auto simp: reserve_call_body_def mk_call_result_def split: option.splits if_splits prod.splits)
  qed
  ultimately show ?thesis by blast
qed

text \<open>Every database the operations can reach from the empty one is consistent: ids and
  digests are unique, every token, policy and binding refers to a known principal and every call to
  a policy and a run of its own principal, no revoked row is live, no live digest is retired, and a
  call has an actual amount exactly when it is reconciled.\<close>

theorem service_reachable_good: "service_good (service_run sha empty_service_db ops)"
  by (rule reachable_good)

text \<open>C26: Reservation never outruns authorization: whenever a call is newly reserved, the action
  alone is authorized under the same policy, principal and tenant at the same time.\<close>

theorem service_reserve_implies_authorized:
  assumes "fst (reserve_call q tm clk db) = Inr r" and "ca_code r = C_RESERVED"
    and "wf_call_request q"
  shows "\<exists>x. authorize_action db (cq_policy q) (cq_principal q) (cq_tenant q) (cq_action q) tm clk
      = Inr x \<and> ax_allowed x"
proof -
  obtain now where now: "utc_now tm clk = Inr now"
    using assms(1) by (cases "utc_now tm clk") (simp_all add: reserve_call_def)
  obtain pol where "call_gate db q now = Inr pol"
    using assms(1,2) gate_code unfolding reserve_eq [OF now]
    by (fastforce simp: reserve_call_body_def mk_call_result_def
        split: option.splits if_splits prod.splits sum.splits)
  then have "action_code db (cq_policy q) (cq_principal q) (cq_tenant q) (cq_action q) now = C_RESERVED"
    by (simp add: call_gate_ok action_code_def)
  then show ?thesis using assms(3) now
    by (simp add: authorize_action_def check_text_def wf_call_request_def)
qed

section \<open>A concrete store\<close>

text \<open>One agent with a token, a policy and a run; one call reserved, one settled.\<close>

definition sx_clock :: py_datetime where
  "sx_clock = \<lparr>dt_wall = 63900000000000000, dt_offset = Some 0\<rparr>"

definition sx_now :: instant where
  "sx_now = 63900000000000000"

definition sx_from :: py_datetime where
  "sx_from = \<lparr>dt_wall = 63800000000000000, dt_offset = Some 0\<rparr>"

definition sx_until :: py_datetime where
  "sx_until = \<lparr>dt_wall = 64000000000000000, dt_offset = Some 0\<rparr>"

definition sx_token :: string where
  "sx_token = replicate 32 (CHR ''t'')"

definition sx_other :: string where
  "sx_other = replicate 33 (CHR ''u'')"

text \<open>A digest function for the examples: injective on strings.\<close>

definition sx_sha :: "string \<Rightarrow> digest" where
  "sx_sha s = ''#'' @ s"

definition sx_agent :: principal where
  "sx_agent = \<lparr>pr_id = ''a'', pr_tenant = PERSONAL, pr_kind = AGENT, pr_enabled = True\<rparr>"

definition sx_policy :: service_policy where
  "sx_policy = \<lparr>sv_id = ''p'', sv_principal = ''a'', sv_tenant = PERSONAL,
     sv_actions = {''provider:invoke''}, sv_providers = {''openai''}, sv_models = {''gpt''},
     sv_inflight = 2, sv_daily = 5, sv_monthly = 9, sv_issued = 63800000000000000,
     sv_expires = 64000000000000000, sv_revoked = None\<rparr>"

definition sx_row :: token_row where
  "sx_row = \<lparr>tk_id = ''t'', tk_principal = ''a'', tk_hash = sx_sha sx_token,
     tk_issued = 63800000000000000, tk_expires = 64000000000000000, tk_revoked = None\<rparr>"

definition sx_binding :: binding_row where
  "sx_binding = \<lparr>rb_run = ''run'', rb_principal = ''a'', rb_key = ''k'', rb_payload = ''h'',
     rb_created = sx_now\<rparr>"

definition sx_request :: call_request where
  "sx_request = \<lparr>cq_reservation = ''c1'', cq_policy = ''p'', cq_principal = ''a'',
     cq_tenant = PERSONAL, cq_run = ''run'', cq_action = ''provider:invoke'',
     cq_provider = ''openai'', cq_model = ''gpt'', cq_units = 2\<rparr>"

definition sx_db :: service_db where
  "sx_db = \<lparr>db_principals = [sx_agent], db_tokens = [sx_row], db_tombstones = [],
     db_policies = [sx_policy], db_bindings = [sx_binding], db_calls = []\<rparr>"

definition sx_open :: service_db where
  "sx_open = sx_db\<lparr>db_calls := [new_call_row sx_request sx_now]\<rparr>"

definition sx_settled :: service_db where
  "sx_settled = sx_db\<lparr>db_calls := [settle_call 1 sx_now (new_call_row sx_request sx_now)]\<rparr>"

definition sx_ops :: "service_op list" where
  "sx_ops = [PutPrincipals [sx_agent], PutToken ''t'' ''a'' sx_token sx_from sx_until,
     PutPolicy sx_policy, BindRun ''a'' ''k'' ''run'' ''h'' None sx_clock,
     ReserveCall sx_request None sx_clock]"

lemmas sx_defs = sx_clock_def sx_from_def sx_until_def sx_token_def sx_other_def sx_agent_def
  sx_policy_def sx_row_def sx_binding_def sx_request_def sx_db_def sx_open_def sx_settled_def

lemma sx_now_eq: "utc_now tm sx_clock = Inr sx_now" if "tm = None"
  using that by (simp add: utc_now_def utc_def sx_clock_def sx_now_def max_instant_def day_us_def)

lemma sx_trimmed:
  "trimmed ''a''" "trimmed ''p''" "trimmed ''t''" "trimmed ''k''" "trimmed ''run''" "trimmed ''h''"
  "trimmed ''c1''" "trimmed ''provider:invoke''" "trimmed ''openai''" "trimmed ''gpt''"
  "trimmed sx_token" "trimmed sx_other" "trimmed ''run2''" "trimmed ''h2''"
  by code_simp+

lemma sx_check: "check_bearer ''t'' ''a'' sx_token sx_from sx_until
    = Inr (63800000000000000, 64000000000000000)"
  "check_bearer ''t2'' ''a'' sx_other sx_from sx_until
    = Inr (63800000000000000, 64000000000000000)"
  by code_simp+

lemma sx_wf: "wf_policy sx_policy" "wf_call_request sx_request"
  by (simp_all add: wf_policy_def wf_call_request_def sx_trimmed sx_policy_def sx_request_def)

lemma sx_steps:
  "service_step sx_sha empty_service_db (PutPrincipals [sx_agent])
   = \<lparr>db_principals = [sx_agent], db_tokens = [], db_tombstones = [], db_policies = [],
      db_bindings = [], db_calls = []\<rparr>"
  "service_step sx_sha \<lparr>db_principals = [sx_agent], db_tokens = [], db_tombstones = [],
      db_policies = [], db_bindings = [], db_calls = []\<rparr>
      (PutToken ''t'' ''a'' sx_token sx_from sx_until)
   = \<lparr>db_principals = [sx_agent], db_tokens = [sx_row], db_tombstones = [], db_policies = [],
      db_bindings = [], db_calls = []\<rparr>"
  "service_step sx_sha \<lparr>db_principals = [sx_agent], db_tokens = [sx_row], db_tombstones = [],
      db_policies = [], db_bindings = [], db_calls = []\<rparr> (PutPolicy sx_policy)
   = \<lparr>db_principals = [sx_agent], db_tokens = [sx_row], db_tombstones = [],
      db_policies = [sx_policy], db_bindings = [], db_calls = []\<rparr>"
  "service_step sx_sha \<lparr>db_principals = [sx_agent], db_tokens = [sx_row], db_tombstones = [],
      db_policies = [sx_policy], db_bindings = [], db_calls = []\<rparr>
      (BindRun ''a'' ''k'' ''run'' ''h'' None sx_clock) = sx_db"
  by (simp_all add: put_principals_def write_txn_snd put_principal_def find_principal_def
      empty_service_db_def put_bearer_token_def sx_check Let_def token_is_retired_def
      find_tombstone_def insert_token_def sx_wf put_policy_def find_policy_def bind_run_def
      bind_run_body_def sx_now_eq check_text_def sx_trimmed find_key_def find_run_def)
    (simp_all add: sx_agent_def sx_row_def sx_policy_def sx_binding_def sx_db_def)

lemma sx_usage: "usage sx_db ''a'' sx_now = (0, 0, 0)"
  "usage sx_open ''a'' sx_now = (1, 2, 2)"
  by (simp_all add: usage_def rows_where_def sx_db_def sx_open_def new_call_row_def sx_request_def
      call_units_def)

lemma sx_gate: "call_gate sx_db sx_request sx_now = Inr sx_policy"
  by (simp add: call_gate_def principal_gate_def policy_window_def find_principal_def find_policy_def
      run_owner_def find_run_def sx_defs sx_now_def)

lemma sx_reserve: "reserve_call sx_request None sx_clock sx_db
    = (Inr (mk_call_result sx_request True C_RESERVED (1, 2, 2)), sx_open)"
proof -
  have [simp]: "cq_reservation sx_request = ''c1''" "cq_principal sx_request = ''a''"
    "cq_units sx_request = 2" "find_call sx_db ''c1'' = None" "sv_inflight sx_policy = 2"
    "sv_daily sx_policy = 5" "sv_monthly sx_policy = 9" "db_calls sx_db = []"
    by (simp_all add: sx_request_def find_call_def sx_db_def sx_policy_def)
  show ?thesis
    by (simp add: reserve_eq [OF sx_now_eq] reserve_call_body_def sx_gate sx_usage sx_open_def)
qed

lemma sx_run: "service_run sx_sha empty_service_db sx_ops = sx_open"
  by (simp add: service_run_def sx_ops_def sx_steps sx_wf sx_reserve del: service_step.simps(1-9))

lemma sx_open_good: "service_good sx_open"
  unfolding sx_run [symmetric] by (rule reachable_good)

lemma sx_reconcile: "reconcile_call ''c1'' ''a'' 1 None sx_clock sx_open
    = (Inr (mk_reconciliation ''c1'' ''a'' 1 True K_RECONCILED False False False), sx_settled)"
proof -
  have u: "usage sx_settled ''a'' sx_now = (0, 1, 1)"
    by (simp add: usage_def rows_where_def sx_db_def sx_settled_def new_call_row_def sx_request_def
        settle_call_def call_units_def)
  have upd: "sx_open\<lparr>db_calls := update_where (\<lambda>c. cr_id c = ''c1'') (settle_call 1 sx_now)
      (db_calls sx_open)\<rparr> = sx_settled"
    by (simp add: sx_open_def sx_settled_def update_where_def new_call_row_def sx_request_def)
  have p: "find_policy sx_open ''p'' = Some sx_policy"
    by (simp add: find_policy_def sx_open_def sx_db_def sx_policy_def)
  have r: "row_where (\<lambda>r. cr_id r = ''c1'' \<and> cr_principal r = ''a''
      \<and> find_policy sx_open (cr_policy r) \<noteq> None) (db_calls sx_open)
    = Some (new_call_row sx_request sx_now)"
    by (simp add: sx_open_def new_call_row_def sx_request_def find_policy_def sx_db_def sx_policy_def)
  have [simp]: "cr_policy (new_call_row sx_request sx_now) = ''p''"
    "cr_state (new_call_row sx_request sx_now) = CS_Reserved"
    "cr_id (new_call_row sx_request sx_now) = ''c1''"
    "cr_reserved (new_call_row sx_request sx_now) = 2"
    by (simp_all add: new_call_row_def sx_request_def)
  show ?thesis
    unfolding reconcile_eq [OF sx_now_eq [OF refl] zero_le_one] reconcile_call_body_def r
    by (simp add: p upd reconciled_answer_def u sx_policy_def)
qed

lemma sx_settled_good: "service_good sx_settled"
  using settle_call_good [OF sx_open_good, of "''c1''" "''a''" 1 None sx_clock]
  by (simp add: sx_reconcile)

lemma sx_db_good: "service_good sx_db"
  using reachable_good [of sx_sha "butlast sx_ops"]
  by (simp add: service_run_def sx_ops_def sx_steps del: service_step.simps)

lemma sx_row_mem: "sx_row \<in> set (db_tokens sx_db)" "tk_hash sx_row = sx_sha sx_token"
  by (simp_all add: sx_db_def sx_row_def)

section \<open>The hypotheses can hold\<close>

theorem service_limits_hold_witness:
  "(1::int) \<le> 2
    \<and> 2 \<le> 5 + overrun_of (day_sel ''a'' (date_of sx_now))
                    (db_calls (service_run sx_sha empty_service_db sx_ops))
    \<and> 2 \<le> 9 + overrun_of (month_sel ''a'' (month_of sx_now))
                      (db_calls (service_run sx_sha empty_service_db sx_ops))"
proof (rule service_limits_hold)
  show "usage (service_run sx_sha empty_service_db sx_ops) ''a'' sx_now = (1, 2, 2)"
    by (simp add: sx_run sx_usage(2))
qed (simp_all add: sx_run caps_def sx_open_def sx_db_def sx_policy_def)

theorem service_reserve_allowed_iff_witness:
  "snd (reserve_call sx_request None sx_clock sx_db)
     = sx_db\<lparr>db_calls := db_calls sx_db @ [new_call_row sx_request sx_now]\<rparr>
   \<and> snd (reserve_call sx_request None sx_clock sx_open) = sx_open"
proof -
  have "find_call sx_open (cq_reservation sx_request) = Some (new_call_row sx_request sx_now)"
    by (simp add: find_call_def sx_open_def new_call_row_def)
  then have "ca_code r \<noteq> C_RESERVED"
    if "fst (reserve_call sx_request None sx_clock sx_open) = Inr r" for r
    using that unfolding reserve_eq [OF sx_now_eq [OF refl]]
    by (auto simp: reserve_call_body_def mk_call_result_def split: if_splits prod.splits)
  then show ?thesis
    using service_reserve_allowed_iff [OF sx_now_eq [OF refl], of sx_request sx_open]
      service_reserve_allowed_iff [OF sx_now_eq [OF refl], of sx_request sx_db]
    by (auto simp: sx_reserve mk_call_result_def)
qed

theorem service_reserved_once_witness:
  "\<exists>r'. reserve_call (sx_request\<lparr>cq_units := 1\<rparr>) None sx_clock
        (service_run sx_sha (snd (reserve_call sx_request None sx_clock sx_db)) [ReleaseCall ''c1'' ''a''])
      = (Inr r', service_run sx_sha (snd (reserve_call sx_request None sx_clock sx_db))
                   [ReleaseCall ''c1'' ''a''])
    \<and> ca_code r' = (if (sx_request\<lparr>cq_units := 1\<rparr>)\<lparr>cq_tenant := cq_tenant sx_request\<rparr> = sx_request
                     then C_REPLAY else C_RESERVATION_CONFLICT)
    \<and> ca_allowed r'
      = ((sx_request\<lparr>cq_units := 1\<rparr>)\<lparr>cq_tenant := cq_tenant sx_request\<rparr> = sx_request)"
  by (rule service_reserved_once [OF sx_db_good sx_wf(2) _ _ sx_now_eq [OF refl],
        of None sx_clock "mk_call_result sx_request True C_RESERVED (1, 2, 2)"])
    (simp_all add: sx_reserve mk_call_result_def)

theorem service_reconcile_idempotent_witness:
  "\<exists>k'. reconcile_call ''c1'' ''a'' 3 None sx_clock
          (snd (reconcile_call ''c1'' ''a'' 1 None sx_clock sx_open))
        = (Inr k', snd (reconcile_call ''c1'' ''a'' 1 None sx_clock sx_open))
      \<and> kr_code k' = (if (3::int) = 1 then K_IDEMPOTENT else K_CONFLICT)
      \<and> kr_accepted k' = ((3::int) = 1)
      \<and> release_call ''c1'' ''a'' (snd (reconcile_call ''c1'' ''a'' 1 None sx_clock sx_open))
        = (Inr False, snd (reconcile_call ''c1'' ''a'' 1 None sx_clock sx_open))"
  by (rule service_reconcile_idempotent [OF sx_open_good _ _ sx_now_eq [OF refl],
        where k = "mk_reconciliation ''c1'' ''a'' 1 True K_RECONCILED False False False"])
    (simp_all add: sx_reconcile mk_reconciliation_def)

theorem service_settlement_final_witness:
  "find_call (service_run sx_sha sx_settled (ReleaseCall ''c1'' ''a'' # sx_ops)) ''c1''
    = Some (settle_call 1 sx_now (new_call_row sx_request sx_now))"
  by (rule service_settlement_final [OF sx_settled_good])
    (simp_all add: find_call_def sx_settled_def settle_call_def new_call_row_def sx_request_def)

theorem service_revoked_token_dead_witness:
  "authenticate_bearer sx_sha (service_run sx_sha
        (snd (revoke_bearer_token (tk_id sx_row) None sx_clock sx_db)) sx_ops)
        sx_token None sx_clock \<noteq> Inr (Some \<lparr>au_principal = sx_agent, au_token = ''t''\<rparr>)"
  using service_revoked_token_dead [of sx_db sx_row sx_sha sx_token None sx_clock sx_now]
    sx_db_good sx_row_mem sx_now_eq by blast

lemma sx_rotate:
  "fst (rotate_bearer_token sx_sha ''t2'' ''a'' sx_other sx_from sx_until 0 sx_db) = Inr ()"
proof -
  have h: "tk_hash sx_row \<noteq> sx_sha sx_other" "tk_principal sx_row = ''a''" "tk_revoked sx_row = None"
    by (simp_all add: sx_row_def sx_sha_def sx_token_def sx_other_def numeral_eq_Suc)
  have s: "sort_key tk_id [sx_row] = [sx_row]" by (simp add: sort_key_def)
  have d: "db_tokens sx_db = [sx_row]" "find_principal sx_db ''a'' = Some sx_agent"
    "db_tombstones sx_db = []"
    by (simp_all add: sx_db_def find_principal_def sx_agent_def)
  have p: "find_principal (retire_token_row r x y z sx_db) ''a'' = Some sx_agent" for r x y z
    using d by (simp add: retire_token_row_def find_principal_def)
  show ?thesis
    by (simp add: rotate_bearer_token_def sx_check write_txn_fst Let_def d s h p rows_where_def
        token_is_retired_def find_tombstone_def insert_token_def delete_where_def retire_row_rest)
qed

theorem service_rotation_single_witness:
  "token_is_retired (snd (rotate_bearer_token sx_sha ''t2'' ''a'' sx_other sx_from sx_until 0 sx_db))
     (tk_hash sx_row)"
proof -
  have "tk_hash sx_row \<noteq> sx_sha sx_other" "tk_principal sx_row = ''a''"
    by (simp_all add: sx_row_def sx_sha_def sx_token_def sx_other_def numeral_eq_Suc)
  then show ?thesis using service_rotation_single [OF sx_db_good sx_rotate] sx_row_mem(1) by blast
qed

theorem service_authenticate_iff_witness:
  "authenticate_bearer sx_sha sx_db sx_token None sx_clock
     = Inr (Some \<lparr>au_principal = sx_agent, au_token = ''t''\<rparr>)"
  unfolding service_authenticate_iff [OF sx_db_good sx_trimmed(11) sx_now_eq [OF refl]]
  by (rule exI [of _ sx_row], rule exI [of _ sx_agent])
    (simp add: sx_db_def sx_row_def find_principal_def sx_agent_def sx_now_def)

theorem service_bind_idempotent_witness:
  "bind_run ''a'' ''k'' ''run2'' ''h2'' None sx_clock (snd (bind_run ''a'' ''k'' ''run'' ''h'' None sx_clock sx_db))
    = (Inr \<lparr>bn_code = (if ''h2'' = ''h'' then B_REPLAY else B_IDEMPOTENCY_CONFLICT),
          bn_principal = ''a'', bn_run = bn_run (mk_binding B_REPLAY ''a'' ''run'' ''k'' ''h''),
          bn_key = ''k'', bn_payload = ''h''\<rparr>,
       snd (bind_run ''a'' ''k'' ''run'' ''h'' None sx_clock sx_db))"
  by (rule service_bind_idempotent [OF _ _ sx_trimmed(13,14) sx_now_eq [OF refl]])
    (simp_all add: bind_run_def sx_now_eq check_text_def sx_trimmed write_txn_def bind_run_body_def
      find_principal_def find_key_def mk_binding_def sx_db_def sx_agent_def sx_binding_def)

theorem service_run_owner_permanent_witness:
  "run_owner (service_run sx_sha sx_open [AbandonRun ''a'' ''k'' ''run'' ''h'']) ''run'' = Some ''a''"
  using service_run_owner_permanent [OF sx_open_good, of "''c1''" "new_call_row sx_request sx_now"]
  by (simp add: find_call_def sx_open_def new_call_row_def sx_request_def)

theorem service_policy_revocation_permanent_witness:
  "\<not> (\<exists>r. authorize_action (service_run sx_sha (snd (revoke_policy ''p'' None sx_clock sx_db)) sx_ops)
        ''p'' ''a'' PERSONAL ''provider:invoke'' None sx_clock = Inr r \<and> ax_allowed r)"
proof -
  have "fst (revoke_policy ''p'' None sx_clock sx_db) = Inr (Some (sx_policy\<lparr>sv_revoked := Some sx_now\<rparr>))"
    by (simp add: revoke_policy_def sx_now_eq write_txn_fst Let_def count_where_def sx_db_def
        sx_policy_def find_policy_def update_where_def)
  from service_policy_revocation_permanent [OF sx_db_good this _ _ sx_now_eq [OF refl]]
  show ?thesis by auto
qed

theorem service_reserve_implies_authorized_witness:
  "\<exists>x. authorize_action sx_db (cq_policy sx_request) (cq_principal sx_request)
      (cq_tenant sx_request) (cq_action sx_request) None sx_clock = Inr x \<and> ax_allowed x"
  by (rule service_reserve_implies_authorized [OF _ _ sx_wf(2),
        where r = "mk_call_result sx_request True C_RESERVED (1, 2, 2)"])
    (simp_all add: sx_reserve mk_call_result_def)

end
