(* ===== verification/Json_Value.thy ===== *)
theory Json_Value imports Complex_Main Py_Text begin

text \<open>
  Python values of JSON shape, as the validators of \<open>protocol.py\<close> and the stores receive them, and
  the decimal rendering that messages and labels use.  The value of a float is never inspected by
  the modelled code.
\<close>

datatype json =
    JNull
  | JBool bool
  | JInt int
  | JFloat rat
  | JStr string
  | JList "json list"
  | JObj "(string \<times> json) list"

text \<open>\<open>value[key]\<close> on a mapping.\<close>

definition obj_get :: "(string \<times> json) list \<Rightarrow> string \<Rightarrow> json result" where
  "obj_get m k = (case dict_get m k of None \<Rightarrow> Inl (KeyError k) | Some v \<Rightarrow> Inr v)"

lemma obj_get_in: "k \<in> fst ` set m \<Longrightarrow> \<exists>v. obj_get m k = Inr v"
  by (auto simp: obj_get_def map_of_eq_None_iff split: option.split)

definition is_str :: "json \<Rightarrow> bool" where
  "is_str v \<longleftrightarrow> (case v of JStr _ \<Rightarrow> True | _ \<Rightarrow> False)"

fun str_of :: "json \<Rightarrow> string" where
  "str_of (JStr s) = s"
| "str_of _ = []"

lemma is_str_of: "is_str v \<Longrightarrow> v = JStr (str_of v)"
  by (cases v) (simp_all add: is_str_def)

lemma is_str_JStr [simp]: "is_str (JStr s)"
  by (simp add: is_str_def)

text \<open>\<open>bool(value)\<close> and \<open>mapping.get(key)\<close>.\<close>

fun truthy :: "json \<Rightarrow> bool" where
  "truthy JNull = False"
| "truthy (JBool b) = b"
| "truthy (JInt n) = (n \<noteq> 0)"
| "truthy (JFloat q) = (q \<noteq> 0)"
| "truthy (JStr s) = (s \<noteq> [])"
| "truthy (JList xs) = (xs \<noteq> [])"
| "truthy (JObj m) = (m \<noteq> [])"

definition get_or_null :: "(string \<times> json) list \<Rightarrow> string \<Rightarrow> json" where
  "get_or_null m k = (case dict_get m k of None \<Rightarrow> JNull | Some v \<Rightarrow> v)"

type_synonym jobj = "(string \<times> json) list"

text \<open>\<open>{**d, **m}\<close>.\<close>

definition dict_merge :: "jobj \<Rightarrow> jobj \<Rightarrow> jobj" where
  "dict_merge d m = foldl (\<lambda>acc kv. dict_set (fst kv) (snd kv) acc) d m"

text \<open>A text, or an exception.\<close>

definition text_value :: "json \<Rightarrow> string result" where
  "text_value v = (case v of JStr s \<Rightarrow> Inr s | _ \<Rightarrow> Inl (TypeError ''not a text''))"

text \<open>\<open>dict(value or {})\<close>; a value that is not a mapping is refused (Python would take an array of
  pairs apart).\<close>

definition obj_or_empty :: "json \<Rightarrow> jobj result" where
  "obj_or_empty v =
     (if \<not> truthy v then Inr []
      else (case v of JObj m \<Rightarrow> Inr m | _ \<Rightarrow> Inl (TypeError ''not a mapping'')))"

text \<open>The message of the \<open>TypeError\<close> that hashing a list or a dict raises.\<close>

definition unhashable :: "string \<Rightarrow> string" where
  "unhashable t = ''unhashable type: '' @ [char_of (39 :: nat)] @ t @ [char_of (39 :: nat)]"

text \<open>Decimal digits of a natural number, and the zero-padded form \<open>{n:02d}\<close>.\<close>

definition digit :: "nat \<Rightarrow> char" where
  "digit d = char_of (48 + d)"

fun decimal_text :: "nat \<Rightarrow> string" where
  "decimal_text n = (if n < 10 then [digit n] else decimal_text (n div 10) @ [digit (n mod 10)])"

declare decimal_text.simps [simp del]

lemma decimal_digit: "n < 10 \<Longrightarrow> decimal_text n = [digit n]"
  by (subst decimal_text.simps) simp

definition two_digits :: "nat \<Rightarrow> string" where
  "two_digits n = (if n < 10 then CHR ''0'' # decimal_text n else decimal_text n)"

definition digit_value :: "char \<Rightarrow> nat" where
  "digit_value c = of_char c - 48"

definition number_of :: "string \<Rightarrow> nat" where
  "number_of s = foldl (\<lambda>v c. 10 * v + digit_value c) 0 s"

lemma digit_value_digit: "d < 10 \<Longrightarrow> digit_value (digit d) = d"
  by (simp add: digit_value_def digit_def)

lemma number_of_decimal [simp]: "number_of (decimal_text n) = n"
proof (induction n rule: decimal_text.induct)
  case (1 n)
  show ?case
  proof (cases "n < 10")
    case True
    then show ?thesis by (subst decimal_text.simps) (simp add: number_of_def digit_value_digit)
  next
    case False
    then have "number_of (decimal_text (n div 10)) = n div 10" by (rule 1)
    moreover from False have "decimal_text n = decimal_text (n div 10) @ [digit (n mod 10)]"
      by (subst decimal_text.simps) simp
    ultimately show ?thesis by (simp add: number_of_def digit_value_digit)
  qed
qed

lemma number_of_two_digits [simp]: "number_of (two_digits n) = n"
proof -
  have "number_of (CHR ''0'' # s) = number_of s" for s
    by (simp add: number_of_def digit_value_def)
  then show ?thesis by (simp add: two_digits_def)
qed

lemma decimal_text_inj: "decimal_text m = decimal_text n \<longleftrightarrow> m = n"
  by (metis number_of_decimal)

text \<open>\<open>s.startswith(prefix)\<close>.\<close>

definition starts_with :: "string \<Rightarrow> string \<Rightarrow> bool" where
  "starts_with s prefix \<longleftrightarrow> take (length prefix) s = prefix"

lemma starts_with_append [simp]: "starts_with (p @ s) p"
  by (simp add: starts_with_def)

text \<open>\<open>str\<close> of an integer.\<close>

definition int_text :: "int \<Rightarrow> string" where
  "int_text n = (if n < 0 then ''-'' @ decimal_text (nat (- n)) else decimal_text (nat n))"

text \<open>\<open>sep.join(parts)\<close>.\<close>

fun join_text :: "string \<Rightarrow> string list \<Rightarrow> string" where
  "join_text sep [] = []"
| "join_text sep [x] = x"
| "join_text sep (x # y # xs) = x @ sep @ join_text sep (y # xs)"

text \<open>\<open>sorted\<close> on strings, by code point.\<close>

definition sorted_text :: "string list \<Rightarrow> string list" where
  "sorted_text xs = sort xs"

section \<open>Canonical JSON\<close>

text \<open>\<open>json.dumps(..., sort_keys=True)\<close>: two values have the same text exactly when these agree.\<close>

fun canon :: "json \<Rightarrow> json" where
  "canon (JList xs) = JList (map canon xs)"
| "canon (JObj m) = JObj (sort_key fst (map (\<lambda>p. (fst p, canon (snd p))) m))"
| "canon v = v"

section \<open>Prompts\<close>

text \<open>The system and the user prompt of a call, and the text that is recorded.\<close>

type_synonym prompts = "string \<times> string"

definition combined_prompt :: "prompts \<Rightarrow> string" where
  "combined_prompt p = ''[SYSTEM]'' @ newline @ fst p @ newline @ newline @ ''[USER]'' @ newline @ snd p"

definition combined_prompt_chars :: "prompts \<Rightarrow> int" where
  "combined_prompt_chars p = int (length (combined_prompt p))"

end
