(* ===== verification/Jury_Protocol.thy ===== *)
theory Jury_Protocol imports Json_Value begin

text \<open>
  The judging half of \<open>protocol.py\<close>: candidate labels, the strict validation of proposals and
  judgments, the Borda aggregation of judgments and its re-run without self votes.  The extraction of
  a JSON object from a model's text is the argument \<open>extract\<close> of the definitions that parse text.
\<close>

section \<open>Labels and bounds\<close>

definition candidate_label :: "int \<Rightarrow> string result" where
  "candidate_label i =
     (if i < 0 then Inl (ValueError ''candidate label index must be a non-negative integer'')
      else Inr (''CANDIDATE_'' @ two_digits (nat i + 1)))"

definition validated_labels :: "string list \<Rightarrow> string list result" where
  "validated_labels labels =
     (if labels = [] then Inl (ValueError ''candidate_labels must not be empty'')
      else if list_ex (\<lambda>l. \<not> nonblank l) labels
        then Inl (ValueError ''candidate labels must be non-empty strings'')
      else if card (set labels) \<noteq> length labels
        then Inl (ValueError ''candidate labels must be unique'')
      else Inr labels)"

definition valid_labels :: "string list \<Rightarrow> bool" where
  "valid_labels ls \<longleftrightarrow> ls \<noteq> [] \<and> (\<forall>l\<in>set ls. nonblank l) \<and> distinct ls"

lemma validated_labels_ok [result_simps]: "validated_labels ls = Inr r \<longleftrightarrow> r = ls \<and> valid_labels ls"
proof -
  have "card (set ls) = length ls \<longleftrightarrow> distinct ls"
    using card_distinct distinct_card by blast
  then show ?thesis by (auto simp: validated_labels_def valid_labels_def list_ex_iff)
qed

definition string_list ::
  "json \<Rightarrow> string \<Rightarrow> nat option \<Rightarrow> nat option \<Rightarrow> string list result" where
  "string_list value name max_items max_chars =
     (case value of
        JList items \<Rightarrow>
          require (list_all (\<lambda>v. is_str v \<and> nonblank (str_of v)) items)
            (ValueError (name @ '' must contain only non-empty strings''))
          (let normalized = map (\<lambda>v. py_strip (str_of v)) items in
             require (case max_items of None \<Rightarrow> True | Some n \<Rightarrow> length normalized \<le> n)
               (ValueError (name @ '' must contain at most ''
                  @ decimal_text (case max_items of None \<Rightarrow> 0 | Some n \<Rightarrow> n) @ '' items''))
            (require (case max_chars of None \<Rightarrow> True
                      | Some n \<Rightarrow> list_all (\<lambda>s. length s \<le> n) normalized)
               (ValueError (name @ '' items must be at most ''
                  @ decimal_text (case max_chars of None \<Rightarrow> 0 | Some n \<Rightarrow> n) @ '' characters''))
            (require (case max_chars of None \<Rightarrow> True
                      | Some n \<Rightarrow> list_all (\<lambda>s. serialized_string_chars s \<le> n) normalized)
               (ValueError (name @ '' items must fit within ''
                  @ decimal_text (case max_chars of None \<Rightarrow> 0 | Some n \<Rightarrow> n) @ '' serialized JSON characters''))
            (require (distinct normalized)
               (ValueError (name @ '' must not contain duplicates''))
               (Inr normalized)))))
      | _ \<Rightarrow> Inl (ValueError (name @ '' must be a JSON array'')))"

definition bounded_string :: "json \<Rightarrow> string \<Rightarrow> nat \<Rightarrow> string result" where
  "bounded_string value name n =
     (case value of
        JStr s \<Rightarrow>
          require (nonblank s) (ValueError (name @ '' must be a non-empty string''))
         (require (length (py_strip s) \<le> n)
            (ValueError (name @ '' must be at most '' @ decimal_text n @ '' characters''))
         (require (serialized_string_chars (py_strip s) \<le> n)
            (ValueError (name @ '' must fit within '' @ decimal_text n
               @ '' serialized JSON characters''))
            (Inr (py_strip s))))
      | _ \<Rightarrow> Inl (ValueError (name @ '' must be a non-empty string'')))"

text \<open>The comparison of an object's keys with the required ones.\<close>

definition check_keys :: "string list \<Rightarrow> (string \<times> json) list \<Rightarrow> unit result" where
  "check_keys required m =
     (let keys = map fst m;
          missing = sorted_text (filter (\<lambda>k. k \<notin> set keys) required);
          extra = sorted_text (filter (\<lambda>k. k \<notin> set required) keys) in
      if missing = [] \<and> extra = [] then Inr ()
      else Inl (ValueError (join_text ''; ''
        ((if missing \<noteq> [] then [''missing keys: '' @ join_text '', '' missing] else [])
         @ (if extra \<noteq> [] then [''unexpected keys: '' @ join_text '', '' extra] else [])))))"

lemma sorted_text_Nil: "sorted_text xs = [] \<longleftrightarrow> xs = []"
  unfolding sorted_text_def by (metis length_sort length_0_conv)

lemma check_keys_ok [result_simps]: "check_keys req m = Inr u \<longleftrightarrow> fst ` set m = set req"
  by (auto simp: check_keys_def Let_def sorted_text_Nil filter_empty_conv)

section \<open>Proposals\<close>

definition proposal_keys :: "string list" where
  "proposal_keys = [''outcome'', ''evidence_and_reasoning'', ''uncertainty'', ''verification_needed'']"

record proposal =
  pp_outcome :: string
  pp_evidence :: "string list"
  pp_uncertainty :: "string list"
  pp_verification :: "string list"

definition validate_proposal_object :: "(string \<times> json) list \<Rightarrow> proposal result" where
  "validate_proposal_object m =
     rbind (check_keys proposal_keys m) (\<lambda>_.
     rbind (rbind (obj_get m ''outcome'') (\<lambda>v. bounded_string v ''outcome'' 600)) (\<lambda>out.
     rbind (rbind (obj_get m ''evidence_and_reasoning'')
       (\<lambda>v. string_list v ''evidence_and_reasoning'' (Some 4) (Some 350))) (\<lambda>ev.
     rbind (rbind (obj_get m ''uncertainty'')
       (\<lambda>v. string_list v ''uncertainty'' (Some 3) (Some 280))) (\<lambda>un.
     rbind (rbind (obj_get m ''verification_needed'')
       (\<lambda>v. string_list v ''verification_needed'' (Some 4) (Some 280))) (\<lambda>ver.
       Inr \<lparr>pp_outcome = out, pp_evidence = ev, pp_uncertainty = un, pp_verification = ver\<rparr>)))))"

definition parse_proposal ::
  "(string \<Rightarrow> string \<Rightarrow> (string \<times> json) list result) \<Rightarrow> string \<Rightarrow> proposal result" where
  "parse_proposal extract text = rbind (extract ''proposal response'' text) validate_proposal_object"

section \<open>Judgments\<close>

definition jury_keys :: "string list" where
  "jury_keys = [''winner'', ''ranking'', ''confidence'', ''abstain'', ''rationale'',
     ''material_disagreements'', ''verification_needed'']"

record jury_decision =
  jd_winner :: "string option"
  jd_ranking :: "string list"
  jd_confidence :: string
  jd_abstain :: bool

record jury_judgment = jury_decision +
  jd_rationale :: string
  jd_disagreements :: "string list"
  jd_verification :: "string list"

text \<open>\<open>type(abstain) is bool\<close>.\<close>

definition bool_field :: "json \<Rightarrow> bool result" where
  "bool_field v = (case v of JBool b \<Rightarrow> Inr b
     | _ \<Rightarrow> Inl (ValueError ''abstain must be a JSON boolean''))"

text \<open>\<open>confidence not in _CONFIDENCE_VALUES\<close> hashes the value: a list or a dict raises.\<close>

definition confidence_field :: "json \<Rightarrow> string result" where
  "confidence_field v = (case v of
     JStr s \<Rightarrow> (if s = ''low'' \<or> s = ''medium'' \<or> s = ''high'' then Inr s
                else Inl (ValueError ''confidence must be \"low\", \"medium\", or \"high\"''))
   | JList _ \<Rightarrow> Inl (TypeError (unhashable ''list''))
   | JObj _ \<Rightarrow> Inl (TypeError (unhashable ''dict''))
   | _ \<Rightarrow> Inl (ValueError ''confidence must be \"low\", \"medium\", or \"high\"''))"

definition ranking_field :: "json \<Rightarrow> string list result" where
  "ranking_field v = (case v of
     JList items \<Rightarrow> (if list_all is_str items then Inr (map str_of items)
                     else Inl (ValueError ''ranking must contain only candidate labels''))
   | _ \<Rightarrow> Inl (ValueError ''ranking must be a JSON array''))"

definition choice_fields :: "bool \<Rightarrow> json \<Rightarrow> string list \<Rightarrow> string list \<Rightarrow> string option result" where
  "choice_fields abstain winner ranking labels =
     (if abstain then
        require (winner = JNull) (ValueError ''winner must be null when abstain is true'')
       (require (ranking = []) (ValueError ''ranking must be empty when abstain is true'')
          (Inr None))
      else
        require (is_str winner \<and> str_of winner \<in> set labels)
          (ValueError ''winner must be an allowed candidate label'')
       (require (length ranking = length labels \<and> set ranking = set labels)
          (ValueError ''ranking must contain every allowed candidate label exactly once'')
       (require (card (set ranking) = length ranking)
          (ValueError ''ranking must not contain duplicate labels'')
       (require (ranking ! 0 = str_of winner)
          (ValueError ''winner must equal the first ranked candidate'')
          (Inr (Some (str_of winner)))))))"

definition validate_jury_decision ::
  "(string \<times> json) list \<Rightarrow> string list \<Rightarrow> jury_decision result" where
  "validate_jury_decision m labels =
     rbind (rbind (obj_get m ''abstain'') bool_field) (\<lambda>abstain.
     rbind (rbind (obj_get m ''confidence'') confidence_field) (\<lambda>confidence.
     rbind (rbind (obj_get m ''ranking'') ranking_field) (\<lambda>ranking.
     rbind (rbind (obj_get m ''winner'') (\<lambda>w. choice_fields abstain w ranking labels)) (\<lambda>winner.
       Inr \<lparr>jd_winner = winner, jd_ranking = ranking, jd_confidence = confidence,
            jd_abstain = abstain\<rparr>))))"

definition validate_jury_object ::
  "(string \<times> json) list \<Rightarrow> string list \<Rightarrow> jury_judgment result" where
  "validate_jury_object m candidate_labels =
     rbind (validated_labels candidate_labels) (\<lambda>labels.
     rbind (check_keys jury_keys m) (\<lambda>_.
     rbind (validate_jury_decision m labels) (\<lambda>d.
     rbind (rbind (obj_get m ''rationale'') (\<lambda>v. bounded_string v ''rationale'' 1000)) (\<lambda>why.
     rbind (rbind (obj_get m ''material_disagreements'')
       (\<lambda>v. string_list v ''material_disagreements'' (Some 4) (Some 280))) (\<lambda>dis.
     rbind (rbind (obj_get m ''verification_needed'')
       (\<lambda>v. string_list v ''verification_needed'' (Some 4) (Some 280))) (\<lambda>ver.
       Inr \<lparr>jd_winner = jd_winner d, jd_ranking = jd_ranking d,
            jd_confidence = jd_confidence d, jd_abstain = jd_abstain d, jd_rationale = why,
            jd_disagreements = dis, jd_verification = ver\<rparr>))))))"

definition parse_jury ::
  "(string \<Rightarrow> string \<Rightarrow> (string \<times> json) list result) \<Rightarrow> string \<Rightarrow> string list \<Rightarrow>
   jury_judgment result" where
  "parse_jury extract text candidate_labels =
     rbind (validated_labels candidate_labels) (\<lambda>labels.
     rbind (extract ''jury response'' text) (\<lambda>m. validate_jury_object m labels))"

text \<open>The dictionaries that the two validators return.\<close>

definition proposal_object :: "proposal \<Rightarrow> (string \<times> json) list" where
  "proposal_object p =
     [(''outcome'', JStr (pp_outcome p)),
      (''evidence_and_reasoning'', JList (map JStr (pp_evidence p))),
      (''uncertainty'', JList (map JStr (pp_uncertainty p))),
      (''verification_needed'', JList (map JStr (pp_verification p)))]"

definition jury_object :: "jury_judgment \<Rightarrow> (string \<times> json) list" where
  "jury_object j =
     [(''winner'', case jd_winner j of None \<Rightarrow> JNull | Some w \<Rightarrow> JStr w),
      (''ranking'', JList (map JStr (jd_ranking j))),
      (''confidence'', JStr (jd_confidence j)), (''abstain'', JBool (jd_abstain j)),
      (''rationale'', JStr (jd_rationale j)),
      (''material_disagreements'', JList (map JStr (jd_disagreements j))),
      (''verification_needed'', JList (map JStr (jd_verification j)))]"

section \<open>Aggregation\<close>

definition jury_entries :: "json \<Rightarrow> json list" where
  "jury_entries juries = (case juries of
     JObj m \<Rightarrow> (if fst ` set m = set jury_keys then [JObj m] else map snd m)
   | JList xs \<Rightarrow> xs
   | v \<Rightarrow> [v])"

definition stable_unique :: "string list \<Rightarrow> string list" where
  "stable_unique values =
     sort_folded (remdups (map py_strip (filter nonblank values)))"

text \<open>The running totals of the loop over the judgments.\<close>

record tally =
  ta_points :: "(string, int) dict"
  ta_wins :: "(string, int) dict"
  ta_abstentions :: int
  ta_valid :: int
  ta_reasons :: "string list"
  ta_disagreements :: "string list"
  ta_verification :: "string list"

definition dict_add :: "string \<Rightarrow> int \<Rightarrow> (string, int) dict \<Rightarrow> (string, int) dict" where
  "dict_add k n d = (case dict_get d k of None \<Rightarrow> d | Some v \<Rightarrow> dict_set k (v + n) d)"

text \<open>\<open>for index, label in enumerate(ranking): points[label] += size - index - 1\<close>.\<close>

fun award :: "int \<Rightarrow> int \<Rightarrow> string list \<Rightarrow> (string, int) dict \<Rightarrow> (string, int) dict" where
  "award n index [] points = points"
| "award n index (label # rest) points =
     award n (index + 1) rest (dict_add label (n - index - 1) points)"

definition judge_entry ::
  "(string \<Rightarrow> string \<Rightarrow> (string \<times> json) list result) \<Rightarrow> string list \<Rightarrow> json \<Rightarrow>
   jury_judgment result" where
  "judge_entry extract labels entry = (case entry of
     JStr text \<Rightarrow> parse_jury extract text labels
   | JObj m \<Rightarrow> validate_jury_object m labels
   | _ \<Rightarrow> Inl (ValueError ''judgment must be a mapping or JSON text''))"

definition count_judgment :: "string list \<Rightarrow> jury_judgment \<Rightarrow> tally \<Rightarrow> tally" where
  "count_judgment labels j t =
     (let t1 = t\<lparr>ta_valid := ta_valid t + 1,
                 ta_disagreements := ta_disagreements t @ jd_disagreements j,
                 ta_verification := ta_verification t @ jd_verification j\<rparr> in
      if jd_abstain j then t1\<lparr>ta_abstentions := ta_abstentions t1 + 1\<rparr>
      else t1\<lparr>ta_points := award (int (length labels)) 0 (jd_ranking j) (ta_points t1),
              ta_wins := dict_add (jd_ranking j ! 0) 1 (ta_wins t1)\<rparr>)"

definition tally_entry ::
  "(string \<Rightarrow> string \<Rightarrow> (string \<times> json) list result) \<Rightarrow> string list \<Rightarrow> tally \<Rightarrow> json \<Rightarrow>
   tally result" where
  "tally_entry extract labels t entry = (case judge_entry extract labels entry of
     Inr j \<Rightarrow> Inr (count_judgment labels j t)
   | Inl (ValueError msg) \<Rightarrow> Inr (t\<lparr>ta_reasons := ta_reasons t @ [msg]\<rparr>)
   | Inl (TypeError msg) \<Rightarrow> Inr (t\<lparr>ta_reasons := ta_reasons t @ [msg]\<rparr>)
   | Inl e \<Rightarrow> Inl e)"

fun tally_entries ::
  "(string \<Rightarrow> string \<Rightarrow> (string \<times> json) list result) \<Rightarrow> string list \<Rightarrow> tally \<Rightarrow>
   json list \<Rightarrow> tally result" where
  "tally_entries extract labels t [] = Inr t"
| "tally_entries extract labels t (x # xs) =
     rbind (tally_entry extract labels t x) (\<lambda>t'. tally_entries extract labels t' xs)"

definition canonical_labels :: "string list \<Rightarrow> string list" where
  "canonical_labels labels = sort_folded labels"

definition empty_tally :: "string list \<Rightarrow> tally" where
  "empty_tally labels =
     \<lparr>ta_points = map (\<lambda>l. (l, 0)) (canonical_labels labels),
      ta_wins = map (\<lambda>l. (l, 0)) (canonical_labels labels),
      ta_abstentions = 0, ta_valid = 0, ta_reasons = [], ta_disagreements = [],
      ta_verification = []\<rparr>"

definition score :: "(string, int) dict \<Rightarrow> string \<Rightarrow> int" where
  "score d l = (case dict_get d l of None \<Rightarrow> 0 | Some v \<Rightarrow> v)"

definition order_labels ::
  "(string, int) dict \<Rightarrow> (string, int) dict \<Rightarrow> string list \<Rightarrow> string list" where
  "order_labels points wins labels =
     sort_key (\<lambda>l. (- score points l, - score wins l, fold_key l)) labels"

text \<open>The labels that share the best points and, among those, the most first places.\<close>

definition leaders ::
  "(string, int) dict \<Rightarrow> (string, int) dict \<Rightarrow> string list \<Rightarrow> string list" where
  "leaders points wins ordered =
     (let best_points = score points (ordered ! 0);
          point_leaders = filter (\<lambda>l. score points l = best_points) ordered;
          best_wins = Max (score wins ` set point_leaders) in
      sort_folded (filter (\<lambda>l. score wins l = best_wins) point_leaders))"

record aggregate =
  ag_winner :: "string option"
  ag_outcome :: string
  ag_consensus :: string
  ag_ranking :: "string list"
  ag_points :: "(string, int) dict"
  ag_wins :: "(string, int) dict"
  ag_tie :: bool
  ag_tied :: "string list"
  ag_valid :: int
  ag_counted :: int
  ag_abstentions :: int
  ag_invalid :: int
  ag_reasons :: "string list"
  ag_has_disagreement :: bool
  ag_disagreements :: "string list"
  ag_verification :: "string list"

text \<open>Everything after the loop.\<close>

definition summarize :: "string list \<Rightarrow> tally \<Rightarrow> aggregate" where
  "summarize labels t =
     (let counted = ta_valid t - ta_abstentions t;
          ordered = order_labels (ta_points t) (ta_wins t) (canonical_labels labels);
          tied = (if counted \<noteq> 0 then leaders (ta_points t) (ta_wins t) ordered else []);
          winner = (if counted \<noteq> 0 \<and> length tied = 1 then Some (tied ! 0) else None);
          tie = (counted \<noteq> 0 \<and> length tied \<noteq> 1);
          first_choices = length (filter (\<lambda>v. v \<noteq> 0) (dict_values (ta_wins t)));
          disagreements = stable_unique (ta_disagreements t) in
      \<lparr>ag_winner = winner,
       ag_outcome = (if counted = 0 then (if ta_valid t \<noteq> 0 then ''abstained'' else ''invalid'')
                     else if tie then ''tie'' else ''winner''),
       ag_consensus = (if counted = 0 then ''none'' else if tie then ''tie''
                       else if (case winner of None \<Rightarrow> False
                                | Some w \<Rightarrow> score (ta_wins t) w = counted)
                         then ''unanimous'' else ''divided''),
       ag_ranking = ordered, ag_points = ta_points t, ag_wins = ta_wins t, ag_tie = tie,
       ag_tied = (if tie then tied else []), ag_valid = ta_valid t, ag_counted = counted,
       ag_abstentions = ta_abstentions t, ag_invalid = int (length (ta_reasons t)),
       ag_reasons = stable_unique (ta_reasons t),
       ag_has_disagreement = (disagreements \<noteq> [] \<or> tie \<or> 1 < first_choices),
       ag_disagreements = disagreements,
       ag_verification = stable_unique (ta_verification t)\<rparr>)"

definition aggregate_juries ::
  "(string \<Rightarrow> string \<Rightarrow> (string \<times> json) list result) \<Rightarrow> json \<Rightarrow> string list \<Rightarrow>
   aggregate result" where
  "aggregate_juries extract juries candidate_labels =
     rbind (validated_labels candidate_labels) (\<lambda>labels.
     rbind (tally_entries extract labels (empty_tally labels) (jury_entries juries)) (\<lambda>t.
       Inr (summarize labels t)))"

section \<open>Self votes\<close>

text \<open>Iterating over \<open>value or []\<close>.\<close>

definition iter_or_empty :: "json \<Rightarrow> json list result" where
  "iter_or_empty v =
     (if \<not> truthy v then Inr []
      else (case v of
        JList xs \<Rightarrow> Inr xs
      | JStr s \<Rightarrow> Inr (map (\<lambda>c. JStr [c]) s)
      | JObj m \<Rightarrow> Inr (map (\<lambda>p. JStr (fst p)) m)
      | _ \<Rightarrow> Inl (TypeError ''object is not iterable'')))"

text \<open>\<open>value in collection\<close> for a hashed collection of strings.\<close>

definition member_of :: "json \<Rightarrow> string list \<Rightarrow> bool result" where
  "member_of v keys = (case v of
     JStr s \<Rightarrow> Inr (s \<in> set keys)
   | JList _ \<Rightarrow> Inl (TypeError (unhashable ''list''))
   | JObj _ \<Rightarrow> Inl (TypeError (unhashable ''dict''))
   | _ \<Rightarrow> Inr False)"

text \<open>The juror's ranking without its own candidate.\<close>

definition others_ranking :: "(string \<times> json) list \<Rightarrow> string list \<Rightarrow> string list result" where
  "others_ranking jury labels =
     rbind (iter_or_empty (get_or_null jury ''ranking'')) (\<lambda>items.
     rbind (rmap (\<lambda>v. rbind (member_of v labels) (\<lambda>ok.
              Inr (if ok \<and> v \<noteq> get_or_null jury ''juror'' then [str_of v] else []))) items) (\<lambda>parts.
       Inr (concat parts)))"

record vote_count =
  vc_points :: "(string, int) dict"
  vc_wins :: "(string, int) dict"
  vc_counted :: int

definition count_ranking :: "string list \<Rightarrow> vote_count \<Rightarrow> vote_count" where
  "count_ranking ranking c =
     (if ranking = [] then c
      else \<lparr>vc_points = award (int (length ranking)) 0 ranking (vc_points c),
            vc_wins = dict_add (ranking ! 0) 1 (vc_wins c), vc_counted = vc_counted c + 1\<rparr>)"

definition count_other_votes :: "string list \<Rightarrow> vote_count \<Rightarrow> json \<Rightarrow> vote_count result" where
  "count_other_votes labels c entry = (case entry of
     JObj jury \<Rightarrow>
       if truthy (get_or_null jury ''abstain'') then Inr c
       else rbind (others_ranking jury labels) (\<lambda>ranking. Inr (count_ranking ranking c))
   | _ \<Rightarrow> Inr c)"

fun count_all_others :: "string list \<Rightarrow> vote_count \<Rightarrow> json list \<Rightarrow> vote_count result" where
  "count_all_others labels c [] = Inr c"
| "count_all_others labels c (x # xs) =
     rbind (count_other_votes labels c x) (\<lambda>c'. count_all_others labels c' xs)"

definition no_votes :: "string list \<Rightarrow> vote_count" where
  "no_votes labels =
     \<lparr>vc_points = map (\<lambda>l. (l, 0)) (canonical_labels labels),
      vc_wins = map (\<lambda>l. (l, 0)) (canonical_labels labels), vc_counted = 0\<rparr>"

record excluding =
  xv_winner :: "string option"
  xv_outcome :: string
  xv_tie :: bool
  xv_tied :: "string list"
  xv_ranking :: "string list"
  xv_points :: "(string, int) dict"
  xv_wins :: "(string, int) dict"
  xv_counted :: int

definition summarize_excluding :: "string list \<Rightarrow> vote_count \<Rightarrow> excluding" where
  "summarize_excluding labels c =
     (let ordered = order_labels (vc_points c) (vc_wins c) (canonical_labels labels);
          tied = (if vc_counted c \<noteq> 0 then leaders (vc_points c) (vc_wins c) ordered else []);
          winner = (if length tied = 1 then Some (tied ! 0) else None);
          tie = (1 < length tied) in
      \<lparr>xv_winner = winner,
       xv_outcome = (if winner \<noteq> None then ''winner'' else if tie then ''tie''
                     else ''no_counted_judgments''),
       xv_tie = tie, xv_tied = (if tie then tied else []), xv_ranking = ordered,
       xv_points = vc_points c, xv_wins = vc_wins c, xv_counted = vc_counted c\<rparr>)"

definition aggregate_excluding_self_votes :: "json list \<Rightarrow> string list \<Rightarrow> excluding result" where
  "aggregate_excluding_self_votes juries candidate_labels =
     rbind (validated_labels candidate_labels) (\<lambda>labels.
     rbind (count_all_others labels (no_votes labels) juries) (\<lambda>c.
       Inr (summarize_excluding labels c)))"

record self_votes =
  sr_self_votes :: "string list"
  sr_count :: int
  sr_ranked_own :: "string list"
  sr_excluding :: excluding
  sr_changes :: bool

text \<open>One juror of the report: did it rank its own candidate, and did it put it first?\<close>

definition own_candidate :: "string list \<Rightarrow> json \<Rightarrow> (string \<times> bool) option result" where
  "own_candidate labels entry = (case entry of
     JObj jury \<Rightarrow>
       if truthy (get_or_null jury ''abstain'') then Inr None
       else
         (let juror = get_or_null jury ''juror'' in
          rbind (member_of juror labels) (\<lambda>ok.
            Inr (if ok then Some (str_of juror, get_or_null jury ''winner'' = juror) else None)))
   | _ \<Rightarrow> Inr None)"

definition self_vote_report :: "json list \<Rightarrow> string list \<Rightarrow> aggregate \<Rightarrow> self_votes result" where
  "self_vote_report juries candidate_labels ag =
     rbind (validated_labels candidate_labels) (\<lambda>labels.
     rbind (rmap (own_candidate labels) juries) (\<lambda>marks.
     rbind (aggregate_excluding_self_votes juries labels) (\<lambda>ex.
       (let own = List.map_filter id marks;
            first = map fst (filter snd own) in
        Inr \<lparr>sr_self_votes = sorted_text first, sr_count = int (length first),
             sr_ranked_own = sorted_text (map fst own), sr_excluding = ex,
             sr_changes = ((ag_winner ag, ag_tie ag) \<noteq> (xv_winner ex, xv_tie ex))\<rparr>))))"

end
