(* ===== verification/Jury_Laws.thy ===== *)
theory Jury_Laws imports Jury_Protocol begin

text \<open>
  The lemma library of the jury protocol: what validation accepts, the loop of the aggregation as
  one closed form over the accepted judgments (the reference specification), and the leaders as
  the lexicographic maxima of points and first places.
\<close>

section \<open>What validation accepts\<close>

definition bounded_items :: "nat \<Rightarrow> nat \<Rightarrow> string list \<Rightarrow> bool" where
  "bounded_items n k xs \<longleftrightarrow> length xs \<le> n \<and> distinct xs
     \<and> (\<forall>s\<in>set xs. trimmed s \<and> serialized_string_chars s \<le> k)"

definition bounded_text :: "nat \<Rightarrow> string \<Rightarrow> bool" where
  "bounded_text n s \<longleftrightarrow> trimmed s \<and> serialized_string_chars s \<le> n"

lemma trimmed_str: "trimmed s \<Longrightarrow> py_strip s = s"
  by (simp add: trimmed_def)

lemma string_list_sound:
  "string_list v name (Some n) (Some k) = Inr xs \<Longrightarrow> bounded_items n k xs"
  by (auto simp: string_list_def bounded_items_def result_simps Let_def list_all_iff trimmed_strip
      split: json.splits)

lemma string_list_complete:
  assumes "bounded_items n k xs"
  shows "string_list (JList (map JStr xs)) name (Some n) (Some k) = Inr xs"
proof -
  have t: "\<forall>s\<in>set xs. trimmed s" using assms by (simp add: bounded_items_def)
  then have "map py_strip xs = xs" by (simp add: map_idI trimmed_str)
  moreover have "\<forall>s\<in>set xs. nonblank s" using t trimmed_nonblank by blast
  moreover have "\<forall>s\<in>set xs. length s \<le> k"
    using assms length_le_serialized unfolding bounded_items_def by (meson le_trans)
  ultimately show ?thesis using assms
    by (simp add: string_list_def bounded_items_def list_all_iff comp_def)
qed

lemma bounded_string_sound: "bounded_string v name n = Inr s \<Longrightarrow> bounded_text n s"
  by (auto simp: bounded_string_def bounded_text_def result_simps intro: trimmed_strip split: json.splits)

lemma bounded_string_complete:
  assumes "bounded_text n s"
  shows "bounded_string (JStr s) name n = Inr s"
  using assms length_le_serialized [of s]
  by (simp add: bounded_string_def bounded_text_def trimmed_str trimmed_nonblank)

text \<open>A well-formed judgment over the labels.\<close>

definition wf_ballot :: "string list \<Rightarrow> bool \<Rightarrow> string option \<Rightarrow> string list \<Rightarrow> bool" where
  "wf_ballot labels abstain winner ranking \<longleftrightarrow>
     (if abstain then winner = None \<and> ranking = []
      else mset ranking = mset labels \<and> winner = Some (ranking ! 0))"

definition wf_judgment :: "string list \<Rightarrow> jury_judgment \<Rightarrow> bool" where
  "wf_judgment labels j \<longleftrightarrow> wf_ballot labels (jd_abstain j) (jd_winner j) (jd_ranking j)
     \<and> jd_confidence j \<in> {''low'', ''medium'', ''high''} \<and> bounded_text 1000 (jd_rationale j)
     \<and> bounded_items 4 280 (jd_disagreements j) \<and> bounded_items 4 280 (jd_verification j)"

lemma mset_ranking:
  assumes "distinct labels"
  shows "mset r = mset labels \<longleftrightarrow> length r = length labels \<and> set r = set labels \<and> card (set r) = length r"
proof
  assume "mset r = mset labels"
  then show "length r = length labels \<and> set r = set labels \<and> card (set r) = length r"
    using assms distinct_card mset_eq_length mset_eq_setD by metis
next
  assume "length r = length labels \<and> set r = set labels \<and> card (set r) = length r"
  then show "mset r = mset labels"
    using assms card_distinct set_eq_iff_mset_eq_distinct by metis
qed

lemma is_str_iff: "is_str v \<and> str_of v = s \<longleftrightarrow> v = JStr s"
  using is_str_of by auto

lemma choice_iff:
  assumes "distinct labels" and "labels \<noteq> []"
  shows "choice_fields abstain w r labels = Inr x \<longleftrightarrow>
     wf_ballot labels abstain x r \<and> w = (case x of None \<Rightarrow> JNull | Some s \<Rightarrow> JStr s)"
proof (cases abstain)
  case True
  then show ?thesis by (auto simp: choice_fields_def wf_ballot_def result_simps)
next
  case False
  have top: "r ! 0 \<in> set labels" if "mset r = mset labels"
    using that assms by (metis length_greater_0_conv mset_eq_setD mset_eq_length nth_mem)
  have "choice_fields abstain w r labels = Inr x \<longleftrightarrow>
      is_str w \<and> str_of w \<in> set labels \<and> mset r = mset labels \<and> r ! 0 = str_of w \<and> x = Some (str_of w)"
    using False by (simp only: choice_fields_def result_simps mset_ranking [OF assms(1)] if_False) auto
  also have "\<dots> \<longleftrightarrow> mset r = mset labels \<and> x = Some (r ! 0) \<and> w = JStr (r ! 0)"
    using top is_str_iff [of w "r ! 0"] by auto
  also have "\<dots> \<longleftrightarrow> wf_ballot labels abstain x r \<and> w = (case x of None \<Rightarrow> JNull | Some s \<Rightarrow> JStr s)"
    using False by (auto simp: wf_ballot_def)
  finally show ?thesis .
qed

lemma confidence_iff:
  "confidence_field v = Inr s \<longleftrightarrow> v = JStr s \<and> s \<in> {''low'', ''medium'', ''high''}"
  by (cases v) (auto simp: confidence_field_def)

lemma decision_sound:
  assumes "validate_jury_decision m labels = Inr d" and "distinct labels" and "labels \<noteq> []"
  shows "wf_ballot labels (jd_abstain d) (jd_winner d) (jd_ranking d)
    \<and> jd_confidence d \<in> {''low'', ''medium'', ''high''}"
  using assms
  by (auto simp: validate_jury_decision_def result_simps choice_iff confidence_iff)

lemma jury_object_sound:
  "validate_jury_object m labels = Inr j \<Longrightarrow> valid_labels labels \<and> wf_judgment labels j"
  using decision_sound [of m labels]
  by (auto simp: validate_jury_object_def wf_judgment_def result_simps valid_labels_def
      dest: string_list_sound bounded_string_sound)

text \<open>The JSON object of a judgment.\<close>

lemma jury_object_get:
  "obj_get (jury_object j) ''winner'' = Inr (case jd_winner j of None \<Rightarrow> JNull | Some w \<Rightarrow> JStr w)"
  "obj_get (jury_object j) ''ranking'' = Inr (JList (map JStr (jd_ranking j)))"
  "obj_get (jury_object j) ''confidence'' = Inr (JStr (jd_confidence j))"
  "obj_get (jury_object j) ''abstain'' = Inr (JBool (jd_abstain j))"
  "obj_get (jury_object j) ''rationale'' = Inr (JStr (jd_rationale j))"
  "obj_get (jury_object j) ''material_disagreements'' = Inr (JList (map JStr (jd_disagreements j)))"
  "obj_get (jury_object j) ''verification_needed'' = Inr (JList (map JStr (jd_verification j)))"
  by (simp_all add: obj_get_def jury_object_def)

lemma jury_object_complete:
  assumes v: "valid_labels labels" and w: "wf_judgment labels j"
  shows "validate_jury_object (jury_object j) labels = Inr j"
proof -
  have keys: "check_keys jury_keys (jury_object j) = Inr ()"
    by (simp add: check_keys_ok jury_object_def jury_keys_def)
  have ch: "choice_fields (jd_abstain j) (case jd_winner j of None \<Rightarrow> JNull | Some w \<Rightarrow> JStr w)
      (jd_ranking j) labels = Inr (jd_winner j)"
    using v w by (simp add: choice_iff valid_labels_def wf_judgment_def)
  have conf: "confidence_field (JStr (jd_confidence j)) = Inr (jd_confidence j)"
    using w by (simp add: wf_judgment_def confidence_iff)
  have rank: "ranking_field (JList (map JStr r)) = Inr r" for r
    by (simp add: ranking_field_def list_all_iff comp_def)
  show ?thesis using v w
    by (simp add: validate_jury_object_def validate_jury_decision_def validated_labels_ok [THEN iffD2]
        keys jury_object_get ch conf rank bool_field_def wf_judgment_def string_list_complete
        bounded_string_complete)
qed

text \<open>Proposals.\<close>

definition wf_proposal :: "proposal \<Rightarrow> bool" where
  "wf_proposal p \<longleftrightarrow> bounded_text 600 (pp_outcome p) \<and> bounded_items 4 350 (pp_evidence p)
     \<and> bounded_items 3 280 (pp_uncertainty p) \<and> bounded_items 4 280 (pp_verification p)"

lemma proposal_sound: "validate_proposal_object m = Inr p \<Longrightarrow> wf_proposal p"
  by (auto simp: validate_proposal_object_def wf_proposal_def result_simps
      dest: string_list_sound bounded_string_sound)

lemma proposal_complete: "wf_proposal p \<Longrightarrow> validate_proposal_object (proposal_object p) = Inr p"
proof -
  assume w: "wf_proposal p"
  have keys: "check_keys proposal_keys (proposal_object p) = Inr ()"
    by (simp add: check_keys_ok proposal_object_def proposal_keys_def)
  have get: "obj_get (proposal_object p) ''outcome'' = Inr (JStr (pp_outcome p))"
    "obj_get (proposal_object p) ''evidence_and_reasoning'' = Inr (JList (map JStr (pp_evidence p)))"
    "obj_get (proposal_object p) ''uncertainty'' = Inr (JList (map JStr (pp_uncertainty p)))"
    "obj_get (proposal_object p) ''verification_needed'' = Inr (JList (map JStr (pp_verification p)))"
    by (simp_all add: obj_get_def proposal_object_def)
  show ?thesis using w
    by (simp add: validate_proposal_object_def keys get wf_proposal_def string_list_complete
        bounded_string_complete)
qed

text \<open>The exact form of what the field validators accept.\<close>

definition text_field :: "jobj \<Rightarrow> string \<Rightarrow> string \<Rightarrow> bool" where
  "text_field m k s \<longleftrightarrow> (\<exists>t. dict_get m k = Some (JStr t) \<and> py_strip t = s)"

definition list_field :: "jobj \<Rightarrow> string \<Rightarrow> string list \<Rightarrow> bool" where
  "list_field m k ss \<longleftrightarrow> (\<exists>ts. dict_get m k = Some (JList (map JStr ts)) \<and> map py_strip ts = ss)"

lemma strings_iff: "list_all is_str vs \<longleftrightarrow> vs = map JStr (map str_of vs)"
proof (induction vs)
  case (Cons v vs)
  have "is_str v \<longleftrightarrow> v = JStr (str_of v)" using is_str_of is_str_JStr by metis
  with Cons show ?case by simp
qed simp

lemma strip_nonblank: "trimmed (py_strip t) \<Longrightarrow> nonblank t"
  by (simp add: trimmed_def nonblank_def)

lemma bounded_string_iff:
  "bounded_string v name n = Inr s \<longleftrightarrow> (\<exists>t. v = JStr t \<and> py_strip t = s) \<and> bounded_text n s"
  (is "?l \<longleftrightarrow> ?r")
proof
  assume ?l
  then show ?r using bounded_string_sound by (auto simp: bounded_string_def result_simps split: json.splits)
next
  assume ?r
  then obtain t where "v = JStr t" "py_strip t = s" "bounded_text n s" by blast
  then show ?l using length_le_serialized [of s] strip_nonblank [of t]
    by (auto simp: bounded_string_def bounded_text_def)
qed

lemma string_list_iff:
  "string_list v name (Some n) (Some k) = Inr ss
   \<longleftrightarrow> (\<exists>ts. v = JList (map JStr ts) \<and> map py_strip ts = ss) \<and> bounded_items n k ss" (is "?l \<longleftrightarrow> ?r")
proof
  assume l: ?l
  then obtain vs where vs: "v = JList vs" "list_all is_str vs" "map (\<lambda>v. py_strip (str_of v)) vs = ss"
    by (auto simp: string_list_def result_simps Let_def list_all_iff split: json.splits)
  then have "v = JList (map JStr (map str_of vs)) \<and> map py_strip (map str_of vs) = ss"
    using strings_iff by (simp add: comp_def)
  with l show ?r using string_list_sound by blast
next
  assume ?r
  then obtain ts where v: "v = JList (map JStr ts)" and ss: "map py_strip ts = ss" and b: "bounded_items n k ss"
    by blast
  have "trimmed (py_strip t)" if "t \<in> set ts" for t using b ss that by (auto simp: bounded_items_def)
  then have "\<forall>t\<in>set ts. nonblank t" using strip_nonblank by blast
  moreover have "\<forall>s\<in>set ss. length s \<le> k"
    using b length_le_serialized unfolding bounded_items_def by (meson le_trans)
  ultimately show ?l using b ss
    by (auto simp: v string_list_def bounded_items_def list_all_iff comp_def)
qed

lemma ranking_iff: "ranking_field v = Inr r \<longleftrightarrow> v = JList (map JStr r)"
proof
  assume "ranking_field v = Inr r"
  then obtain vs where "v = JList vs" "list_all is_str vs" "map str_of vs = r"
    by (auto simp: ranking_field_def split: json.splits if_splits)
  then show "v = JList (map JStr r)" using strings_iff by metis
qed (simp add: ranking_field_def list_all_iff comp_def)

lemma bool_iff: "bool_field v = Inr b \<longleftrightarrow> v = JBool b"
  by (cases v) (auto simp: bool_field_def)

lemma obj_get_iff: "obj_get m k = Inr v \<longleftrightarrow> dict_get m k = Some v"
  by (simp add: obj_get_def split: option.split)

lemmas field_iffs = obj_get_iff bounded_string_iff string_list_iff ranking_iff bool_iff confidence_iff
  check_keys_ok validated_labels_ok

text \<open>The JSON object states this judgment.\<close>

definition states_judgment :: "jobj \<Rightarrow> jury_judgment \<Rightarrow> bool" where
  "states_judgment m j \<longleftrightarrow> fst ` set m = set jury_keys
     \<and> dict_get m ''winner'' = Some (case jd_winner j of None \<Rightarrow> JNull | Some w \<Rightarrow> JStr w)
     \<and> dict_get m ''ranking'' = Some (JList (map JStr (jd_ranking j)))
     \<and> dict_get m ''confidence'' = Some (JStr (jd_confidence j))
     \<and> dict_get m ''abstain'' = Some (JBool (jd_abstain j))
     \<and> text_field m ''rationale'' (jd_rationale j)
     \<and> list_field m ''material_disagreements'' (jd_disagreements j)
     \<and> list_field m ''verification_needed'' (jd_verification j)"

definition states_proposal :: "jobj \<Rightarrow> proposal \<Rightarrow> bool" where
  "states_proposal m p \<longleftrightarrow> fst ` set m = set proposal_keys \<and> text_field m ''outcome'' (pp_outcome p)
     \<and> list_field m ''evidence_and_reasoning'' (pp_evidence p) \<and> list_field m ''uncertainty'' (pp_uncertainty p)
     \<and> list_field m ''verification_needed'' (pp_verification p)"

lemma decision_iff:
  assumes "distinct labels" and "labels \<noteq> []"
  shows "validate_jury_decision m labels = Inr d \<longleftrightarrow> wf_ballot labels (jd_abstain d) (jd_winner d) (jd_ranking d)
    \<and> jd_confidence d \<in> {''low'', ''medium'', ''high''}
    \<and> dict_get m ''winner'' = Some (case jd_winner d of None \<Rightarrow> JNull | Some w \<Rightarrow> JStr w)
    \<and> dict_get m ''ranking'' = Some (JList (map JStr (jd_ranking d)))
    \<and> dict_get m ''confidence'' = Some (JStr (jd_confidence d))
    \<and> dict_get m ''abstain'' = Some (JBool (jd_abstain d))"
  by (cases d) (auto simp: validate_jury_decision_def result_simps choice_iff [OF assms] field_iffs)

lemma jury_object_iff:
  "validate_jury_object m labels = Inr j \<longleftrightarrow> valid_labels labels \<and> wf_judgment labels j \<and> states_judgment m j"
proof (cases "valid_labels labels")
  case True
  then have l: "distinct labels" "labels \<noteq> []" by (simp_all add: valid_labels_def)
  have "validate_jury_object m labels = Inr j \<longleftrightarrow> fst ` set m = set jury_keys
    \<and> validate_jury_decision m labels = Inr \<lparr>jd_winner = jd_winner j, jd_ranking = jd_ranking j,
        jd_confidence = jd_confidence j, jd_abstain = jd_abstain j\<rparr>
    \<and> text_field m ''rationale'' (jd_rationale j) \<and> bounded_text 1000 (jd_rationale j)
    \<and> list_field m ''material_disagreements'' (jd_disagreements j) \<and> bounded_items 4 280 (jd_disagreements j)
    \<and> list_field m ''verification_needed'' (jd_verification j) \<and> bounded_items 4 280 (jd_verification j)"
    using True by (cases j) (auto simp: validate_jury_object_def result_simps field_iffs text_field_def list_field_def)
  then show ?thesis using True
    by (auto simp: decision_iff [OF l] wf_judgment_def states_judgment_def)
qed (auto simp: validate_jury_object_def result_simps field_iffs)

lemma proposal_object_iff:
  "validate_proposal_object m = Inr p \<longleftrightarrow> wf_proposal p \<and> states_proposal m p"
  by (cases p) (auto simp: validate_proposal_object_def result_simps field_iffs wf_proposal_def states_proposal_def
      text_field_def list_field_def)

section \<open>Refusals are caught\<close>

text \<open>An outcome the aggregation loop catches: a value, or a ValueError or a TypeError.\<close>

definition caught :: "'a result \<Rightarrow> bool" where
  "caught r \<longleftrightarrow> (case r of Inr _ \<Rightarrow> True | Inl (ValueError _) \<Rightarrow> True | Inl (TypeError _) \<Rightarrow> True
     | Inl _ \<Rightarrow> False)"

lemma caught_simps [simp]:
  "caught (Inr x)" "caught (Inl (ValueError s))" "caught (Inl (TypeError s))"
  by (simp_all add: caught_def)

lemma caught_bind: "caught m \<Longrightarrow> (\<And>x. m = Inr x \<Longrightarrow> caught (f x)) \<Longrightarrow> caught (rbind m f)"
  by (cases m) (simp_all add: caught_def)

lemma caught_require: "caught (Inl e :: 'a result) \<Longrightarrow> caught (k :: 'a result) \<Longrightarrow> caught (require c e k)"
  by (simp add: require_def)

lemma caught_fields:
  "caught (string_list v name a b)" "caught (bounded_string v name n)" "caught (check_keys ks m)"
  "caught (bool_field v)" "caught (confidence_field v)" "caught (ranking_field v)"
  "caught (choice_fields ab w r labels)" "caught (validated_labels labels)"
  by (auto simp: string_list_def bounded_string_def check_keys_def bool_field_def
      confidence_field_def ranking_field_def choice_fields_def validated_labels_def Let_def
      intro!: caught_require split: json.split)

lemma caught_get: "k \<in> fst ` set m \<Longrightarrow> caught (obj_get m k)"
  using obj_get_in by fastforce

lemma caught_jury_object: "caught (validate_jury_object m labels)"
proof -
  have "caught (obj_get m k)" if "check_keys jury_keys m = Inr u" "k \<in> set jury_keys" for k u
    using that by (intro caught_get) (simp add: check_keys_ok)
  then show ?thesis
    unfolding validate_jury_object_def validate_jury_decision_def
    by (intro caught_bind caught_fields caught_simps) (simp_all add: jury_keys_def)
qed

lemma caught_judge: "(\<And>t. caught (extract ''jury response'' t)) \<Longrightarrow> caught (judge_entry extract labels x)"
  by (auto simp: judge_entry_def parse_jury_def
      intro!: caught_bind caught_fields caught_jury_object split: json.split)

section \<open>The reference specification of the count\<close>

text \<open>The place of a label in a ranking, counted from 0.\<close>

fun position :: "string \<Rightarrow> string list \<Rightarrow> nat" where
  "position l [] = 0"
| "position l (x # xs) = (if x = l then 0 else 1 + position l xs)"

definition ballots :: "jury_judgment list \<Rightarrow> string list list" where
  "ballots js = map jd_ranking (filter (\<lambda>j. \<not> jd_abstain j) js)"

text \<open>Borda points of a label over ballots, each worth \<open>length - 1 - position\<close>, and first places.\<close>

definition ballot_points :: "string \<Rightarrow> string list \<Rightarrow> int" where
  "ballot_points l r = (if l \<in> set r then int (length r) - 1 - int (position l r) else 0)"

definition borda :: "string list list \<Rightarrow> string \<Rightarrow> int" where
  "borda bs l = sum_list (map (ballot_points l) bs)"

definition firsts :: "string list list \<Rightarrow> string \<Rightarrow> int" where
  "firsts bs l = int (length (filter (\<lambda>r. r ! 0 = l) bs))"

section \<open>Score tables\<close>

text \<open>The tables always hold exactly the canonical labels; \<open>table ks f\<close> is such a table.\<close>

definition table :: "string list \<Rightarrow> (string \<Rightarrow> int) \<Rightarrow> (string, int) dict" where
  "table ks f = map (\<lambda>l. (l, f l)) ks"

lemma table_get: "dict_get (table ks f) l = (if l \<in> set ks then Some (f l) else None)"
  by (induction ks) (auto simp: table_def)

lemma score_table [simp]: "l \<in> set ks \<Longrightarrow> score (table ks f) l = f l"
  by (simp add: score_def table_get)

lemma table_set:
  "distinct ks \<Longrightarrow> k \<in> set ks \<Longrightarrow> dict_set k v (table ks f) = table ks (f(k := v))"
proof (induction ks)
  case (Cons x ks)
  have fresh: "map (\<lambda>l. (l, if l = k then v else f l)) ks = map (\<lambda>l. (l, f l)) ks" if "k \<notin> set ks"
    using that by (auto intro: map_cong)
  from Cons fresh show ?case by (auto simp: table_def)
qed (simp add: table_def)

lemma table_add:
  "distinct ks \<Longrightarrow> dict_add k n (table ks f) = table ks (\<lambda>l. f l + (if l = k then n else 0))"
proof (cases "k \<in> set ks")
  case True
  assume "distinct ks"
  moreover have "f(k := f k + n) = (\<lambda>l. f l + (if l = k then n else 0))" by auto
  ultimately show ?thesis using True by (simp add: dict_add_def table_get table_set)
next
  case False
  then have "dict_add k n (table ks f) = table ks f" by (simp add: dict_add_def table_get)
  with False show ?thesis by (auto simp: table_def)
qed

lemma position_Cons_shift: "l \<in> set xs \<Longrightarrow> position l xs < length xs"
  by (induction xs) auto

lemma award_table:
  assumes "distinct ks"
  shows "distinct r \<Longrightarrow> award n i r (table ks f)
    = table ks (\<lambda>l. f l + (if l \<in> set r then n - i - 1 - int (position l r) else 0))"
proof (induction r arbitrary: i f)
  case Nil
  then show ?case by simp
next
  case (Cons x r)
  have fun_eq: "(\<lambda>l. f l + (if l = x then n - i - 1 else 0)
        + (if l \<in> set r then n - (i + 1) - 1 - int (position l r) else 0))
      = (\<lambda>l. f l + (if l \<in> set (x # r) then n - i - 1 - int (position l (x # r)) else 0))"
    using Cons.prems by (auto simp: fun_eq_iff)
  from Cons show ?case by (simp add: table_add [OF assms] fun_eq)
qed

lemma award_ballot:
  assumes "distinct ks" and "distinct r"
  shows "award (int (length r)) 0 r (table ks f) = table ks (\<lambda>l. f l + ballot_points l r)"
  using award_table [OF assms] by (simp add: ballot_points_def cong: if_cong)

section \<open>The loop in closed form\<close>

definition accepted ::
  "(string \<Rightarrow> string \<Rightarrow> (string \<times> json) list result) \<Rightarrow> string list \<Rightarrow> json list \<Rightarrow>
   jury_judgment list" where
  "accepted extract labels xs = concat (map (\<lambda>x. case judge_entry extract labels x of
     Inr j \<Rightarrow> [j] | Inl _ \<Rightarrow> []) xs)"

definition refusals ::
  "(string \<Rightarrow> string \<Rightarrow> (string \<times> json) list result) \<Rightarrow> string list \<Rightarrow> json list \<Rightarrow>
   string list" where
  "refusals extract labels xs = concat (map (\<lambda>x. case judge_entry extract labels x of
     Inl (ValueError m) \<Rightarrow> [m] | Inl (TypeError m) \<Rightarrow> [m] | _ \<Rightarrow> []) xs)"

definition tally_of :: "string list \<Rightarrow> jury_judgment list \<Rightarrow> string list \<Rightarrow> tally" where
  "tally_of labels js reasons =
     \<lparr>ta_points = table (canonical_labels labels) (borda (ballots js)),
      ta_wins = table (canonical_labels labels) (firsts (ballots js)),
      ta_abstentions = int (length (filter jd_abstain js)), ta_valid = int (length js),
      ta_reasons = reasons, ta_disagreements = concat (map jd_disagreements js),
      ta_verification = concat (map jd_verification js)\<rparr>"

lemma canonical_set [simp]: "set (canonical_labels ls) = set ls"
  "distinct (canonical_labels ls) = distinct ls"
  by (simp_all add: canonical_labels_def)

lemma empty_tally_of: "empty_tally labels = tally_of labels [] []"
  by (simp add: empty_tally_def tally_of_def table_def ballots_def borda_def firsts_def)

lemma ballot_valid:
  assumes "valid_labels labels" and "wf_judgment labels j" and "\<not> jd_abstain j"
  shows "mset (jd_ranking j) = mset labels" "distinct (jd_ranking j)"
    "length (jd_ranking j) = length labels" "jd_ranking j \<noteq> []" "set (jd_ranking j) = set labels"
proof -
  show m: "mset (jd_ranking j) = mset labels"
    using assms(2,3) by (simp add: wf_judgment_def wf_ballot_def)
  then show "distinct (jd_ranking j)"
    using assms(1) by (metis distinct_count_atmost_1 set_mset_mset valid_labels_def)
  show "length (jd_ranking j) = length labels" by (rule mset_eq_length [OF m])
  show "set (jd_ranking j) = set labels" by (rule mset_eq_setD [OF m])
  then show "jd_ranking j \<noteq> []" using assms(1) by (auto simp: valid_labels_def)
qed

lemma count_judgment_of:
  assumes v: "valid_labels labels" and w: "wf_judgment labels j"
  shows "count_judgment labels j (tally_of labels js rs) = tally_of labels (js @ [j]) rs"
proof (cases "jd_abstain j")
  case True
  then show ?thesis by (simp add: count_judgment_def tally_of_def ballots_def Let_def)
next
  case False
  note b = ballot_valid [OF v w False]
  have d: "distinct (canonical_labels labels)" using v by (simp add: valid_labels_def)
  have bs: "ballots (js @ [j]) = ballots js @ [jd_ranking j]"
    using False by (simp add: ballots_def)
  have pts: "award (int (length labels)) 0 (jd_ranking j)
      (table (canonical_labels labels) (borda (ballots js)))
    = table (canonical_labels labels) (borda (ballots (js @ [j])))"
  proof -
    have "borda (ballots (js @ [j])) = (\<lambda>l. borda (ballots js) l + ballot_points l (jd_ranking j))"
      by (simp add: fun_eq_iff bs borda_def)
    then show ?thesis using award_ballot [OF d b(2)] b(3) by simp
  qed
  have "(\<lambda>l. firsts (ballots js) l + (if l = jd_ranking j ! 0 then 1 else 0)) = firsts (ballots (js @ [j]))"
    by (auto simp: fun_eq_iff firsts_def bs)
  then have wins: "dict_add (jd_ranking j ! 0) 1
      (table (canonical_labels labels) (firsts (ballots js)))
    = table (canonical_labels labels) (firsts (ballots (js @ [j])))"
    by (simp add: table_add [OF d])
  from False pts wins show ?thesis by (simp add: count_judgment_def tally_of_def Let_def)
qed

lemma judge_entry_wf: "judge_entry extract labels x = Inr j \<Longrightarrow> wf_judgment labels j"
  by (auto simp: judge_entry_def parse_jury_def result_simps split: json.splits
      dest: jury_object_sound)

lemma tally_entries_of:
  assumes v: "valid_labels labels"
    and c: "\<And>x. x \<in> set xs \<Longrightarrow> caught (judge_entry extract labels x)"
  shows "tally_entries extract labels (tally_of labels js rs) xs
    = Inr (tally_of labels (js @ accepted extract labels xs) (rs @ refusals extract labels xs))"
  using c
proof (induction xs arbitrary: js rs)
  case Nil
  then show ?case by (simp add: accepted_def refusals_def)
next
  case (Cons x xs)
  have IH: "tally_entries extract labels (tally_of labels js rs) xs
    = Inr (tally_of labels (js @ accepted extract labels xs) (rs @ refusals extract labels xs))" for js rs
    using Cons by simp
  have reason: "(tally_of labels js rs)\<lparr>ta_reasons := ta_reasons (tally_of labels js rs) @ [m]\<rparr>
      = tally_of labels js (rs @ [m])" for m
    by (simp add: tally_of_def)
  show ?case
  proof (cases "judge_entry extract labels x")
    case (Inr j)
    then show ?thesis using count_judgment_of [OF v judge_entry_wf [OF Inr], of js rs]
      by (simp add: tally_entry_def IH accepted_def refusals_def)
  next
    case (Inl e)
    with Cons.prems [of x] have "caught (Inl e :: jury_judgment result)" by simp
    with Inl show ?thesis
      by (cases e) (simp_all add: tally_entry_def reason IH accepted_def refusals_def caught_def)
  qed
qed

text \<open>The aggregation is the summary of the closed form.\<close>

lemma aggregate_closed_form:
  assumes "valid_labels labels" and "\<And>t. caught (extract ''jury response'' t)"
  shows "aggregate_juries extract juries labels
    = Inr (summarize labels (tally_of labels (accepted extract labels (jury_entries juries))
        (refusals extract labels (jury_entries juries))))"
proof -
  have "caught (judge_entry extract labels x)" for x using assms(2) by (rule caught_judge)
  from tally_entries_of [OF assms(1) this, where xs = "jury_entries juries" and js = "[]" and rs = "[]"]
    assms(1)
  show ?thesis by (simp add: aggregate_juries_def validated_labels_ok [THEN iffD2] empty_tally_of)
qed

section \<open>Leaders\<close>

text \<open>\<open>beats p w a b\<close>: \<open>a\<close> has more points than \<open>b\<close>, or as many and more first places.\<close>

definition beats :: "(string \<Rightarrow> int) \<Rightarrow> (string \<Rightarrow> int) \<Rightarrow> string \<Rightarrow> string \<Rightarrow> bool" where
  "beats p w a b \<longleftrightarrow> p b < p a \<or> (p b = p a \<and> w b < w a)"

lemma order_labels_set [simp]: "set (order_labels p w ls) = set ls" "mset (order_labels p w ls) = mset ls"
  by (simp_all add: order_labels_def)

lemma order_head:
  assumes "ls \<noteq> []" and "l \<in> set ls"
  shows "score p l \<le> score p (order_labels p w ls ! 0)"
proof -
  let ?k = "\<lambda>l. (- score p l, - score w l, fold_key l)"
  let ?xs = "sort_key ?k ls"
  have "l \<in> set ?xs" using assms(2) by simp
  then obtain i where i: "i < length ?xs" "?xs ! i = l" unfolding in_set_conv_nth by blast
  from i(1) have ne: "?xs \<noteq> []" by (metis less_nat_zero_code list.size(3))
  have "map ?k ?xs ! 0 \<le> map ?k ?xs ! i"
    by (rule sorted_nth_mono) (use i in simp_all)
  moreover have "0 < length ls" using assms(1) by simp
  ultimately have "?k (?xs ! 0) \<le> ?k l" using i by simp
  then show ?thesis by (auto simp: order_labels_def less_eq_prod_def less_prod_def)
qed

lemma leaders_set:
  assumes "ls \<noteq> []"
  shows "set (leaders p w (order_labels p w ls))
    = {l \<in> set ls. \<forall>m\<in>set ls. \<not> beats (score p) (score w) m l}"
proof -
  let ?o = "order_labels p w ls" let ?best = "score p (?o ! 0)"
  let ?pl = "filter (\<lambda>l. score p l = ?best) ?o"
  have ne: "?o \<noteq> []" using assms by (metis order_labels_set(1) set_empty)
  then have head: "?o ! 0 \<in> set ls" using nth_mem [of 0 ?o] by simp
  have top: "score p l \<le> ?best" if "l \<in> set ls" for l by (rule order_head [OF assms that])
  have fin: "finite (score w ` set ?pl)" "score w ` set ?pl \<noteq> {}" using head by auto
  have lead: "l \<in> set (leaders p w ?o) \<longleftrightarrow> l \<in> set ls \<and> score p l = ?best
      \<and> score w l = Max (score w ` set ?pl)" for l
    by (auto simp: leaders_def Let_def)
  have mx: "score w l = Max (score w ` set ?pl) \<longleftrightarrow>
      (\<forall>m\<in>set ls. score p m = ?best \<longrightarrow> score w m \<le> score w l)"
    if "l \<in> set ls" "score p l = ?best" for l
    using that fin by (auto simp: eq_commute [of "score w l"] Max_eq_iff)
  show ?thesis
  proof (intro set_eqI iffI)
    fix l assume "l \<in> set (leaders p w ?o)"
    then have l: "l \<in> set ls" "score p l = ?best" and "score w l = Max (score w ` set ?pl)"
      by (simp_all add: lead)
    then have "\<forall>m\<in>set ls. score p m = ?best \<longrightarrow> score w m \<le> score w l" by (simp only: mx)
    with l top show "l \<in> {l \<in> set ls. \<forall>m\<in>set ls. \<not> beats (score p) (score w) m l}"
      by (force simp: beats_def)
  next
    fix l assume l: "l \<in> {l \<in> set ls. \<forall>m\<in>set ls. \<not> beats (score p) (score w) m l}"
    then have best: "score p l = ?best" using top [of l] head by (force simp: beats_def)
    have "\<forall>m\<in>set ls. score p m = ?best \<longrightarrow> score w m \<le> score w l"
      using l best by (force simp: beats_def)
    with l best mx [of l] show "l \<in> set (leaders p w ?o)" by (simp add: lead)
  qed
qed

lemma leaders_distinct: "distinct ls \<Longrightarrow> distinct (leaders p w (order_labels p w ls))"
  by (simp add: leaders_def Let_def order_labels_def)

lemma leaders_ne:
  assumes "ls \<noteq> []"
  shows "leaders p w (order_labels p w ls) \<noteq> []"
proof -
  let ?o = "order_labels p w ls"
  let ?pl = "filter (\<lambda>l. score p l = score p (?o ! 0)) ?o"
  have "?o \<noteq> []" using assms by (metis order_labels_set(1) set_empty)
  then have "?o ! 0 \<in> set ?pl" using nth_mem [of 0 ?o] by simp
  then have "Max (score w ` set ?pl) \<in> score w ` set ?pl" by (intro Max_in) auto
  then obtain l where "l \<in> set ?pl" "score w l = Max (score w ` set ?pl)" by auto
  then have "l \<in> set (leaders p w ?o)" by (simp add: leaders_def Let_def)
  then show ?thesis by auto
qed

lemma single_iff: "distinct xs \<Longrightarrow> xs = [c] \<longleftrightarrow> set xs = {c}"
  by (cases xs) (auto simp: subset_singleton_iff)

lemma leaders_single:
  assumes "ls \<noteq> []" and "distinct ls"
  shows "leaders p w (order_labels p w ls) = [c] \<longleftrightarrow>
    c \<in> set ls \<and> (\<forall>m\<in>set ls. m \<noteq> c \<longrightarrow> beats (score p) (score w) c m)"
proof -
  let ?L = "leaders p w (order_labels p w ls)"
  have "?L = [c] \<longleftrightarrow> set ?L = {c}"
    by (rule single_iff [OF leaders_distinct [OF assms(2)]])
  also have "\<dots> \<longleftrightarrow> c \<in> set ls \<and> (\<forall>m\<in>set ls. m \<noteq> c \<longrightarrow> beats (score p) (score w) c m)"
    (is "_ \<longleftrightarrow> ?R")
  proof
    assume s: "set ?L = {c}"
    have "beats (score p) (score w) c m" if m: "m \<in> set ls" "m \<noteq> c" for m
    proof -
      from s m have "m \<notin> set ?L" "c \<in> set ?L" by auto
      then obtain m' where "m' \<in> set ls" "beats (score p) (score w) m' m"
        "\<not> beats (score p) (score w) m c" "\<not> beats (score p) (score w) m' c"
        using m by (auto simp: leaders_set [OF assms(1)])
      then show ?thesis by (auto simp: beats_def)
    qed
    with s show ?R using leaders_set [OF assms(1), of p w] by auto
  next
    assume r: ?R
    have "\<not> beats (score p) (score w) m c" if "m \<in> set ls" for m
    proof (cases "m = c")
      case False
      with r that have "beats (score p) (score w) c m" by blast
      then show ?thesis by (auto simp: beats_def)
    qed (simp add: beats_def)
    with r show "set ?L = {c}" unfolding leaders_set [OF assms(1)] by blast
  qed
  finally show ?thesis .
qed

end
