(* ===== verification/Jury_Properties.thy ===== *)
theory Jury_Properties imports Jury_Laws begin

text \<open>
  What the jury protocol promises: validation accepts exactly the well-formed judgments, the
  aggregation is the Borda count of the accepted ones with first places as the tie break, it treats
  judges and candidates alike, and without self-voting jurors the re-count agrees with it.
\<close>

section \<open>Lemmas for the properties\<close>

lemma tally_caught:
  "tally_entries extract labels t xs = Inr t' \<Longrightarrow> x \<in> set xs \<Longrightarrow> caught (judge_entry extract labels x)"
proof (induction xs arbitrary: t)
  case (Cons y ys)
  then obtain u where u: "tally_entry extract labels t y = Inr u" "tally_entries extract labels u ys = Inr t'"
    by (auto simp: result_simps)
  from u(1) have "caught (judge_entry extract labels y)"
    by (auto simp: tally_entry_def caught_def split: sum.splits py_error.splits)
  with Cons.IH [OF u(2)] Cons.prems(2) show ?case by auto
qed simp

text \<open>Whenever the aggregation returns, it returns the summary of the closed form.\<close>

lemma aggregate_returns:
  assumes "aggregate_juries extract juries labels = Inr ag"
  shows "valid_labels labels \<and> ag = summarize labels (tally_of labels
      (accepted extract labels (jury_entries juries)) (refusals extract labels (jury_entries juries)))"
proof -
  obtain t where t: "tally_entries extract labels (empty_tally labels) (jury_entries juries) = Inr t"
    and v: "valid_labels labels" and ag: "ag = summarize labels t"
    using assms by (auto simp: aggregate_juries_def result_simps)
  from tally_entries_of [OF v tally_caught [OF t], where js = "[]" and rs = "[]"] t v ag
  show ?thesis by (simp add: empty_tally_of)
qed

lemma accepted_wf: "j \<in> set (accepted extract labels xs) \<Longrightarrow> wf_judgment labels j"
  by (auto simp: accepted_def dest: judge_entry_wf [OF sym] split: sum.splits)

lemma ballots_valid:
  assumes "valid_labels labels" and "r \<in> set (ballots (accepted extract labels xs))"
  shows "distinct r" "set r = set labels" "length r = length labels" "r \<noteq> []"
  using assms ballot_valid [OF assms(1) accepted_wf] by (auto simp: ballots_def)

lemma counted_ballots:
  "int (length js) - int (length (filter jd_abstain js)) = int (length (ballots js))"
  using sum_length_filter_compl [of jd_abstain js] by (simp add: ballots_def)

lemma summary_fields:
  fixes labels js rs
  defines "p \<equiv> table (canonical_labels labels) (borda (ballots js))"
    and "w \<equiv> table (canonical_labels labels) (firsts (ballots js))"
    and "ag \<equiv> summarize labels (tally_of labels js rs)"
  shows "ag_points ag = p" "ag_wins ag = w" "ag_counted ag = int (length (ballots js))"
    "ag_valid ag = int (length js)" "ag_ranking ag = order_labels p w (canonical_labels labels)"
    "ballots js \<noteq> [] \<Longrightarrow> ag_tied ag = (if ag_tie ag then leaders p w (ag_ranking ag) else [])"
    "ballots js \<noteq> [] \<Longrightarrow> ag_tie ag \<longleftrightarrow> length (leaders p w (ag_ranking ag)) \<noteq> 1"
    "ballots js \<noteq> [] \<Longrightarrow> ag_winner ag
       = (if ag_tie ag then None else Some (leaders p w (ag_ranking ag) ! 0))"
    "ballots js = [] \<Longrightarrow> \<not> ag_tie ag \<and> ag_winner ag = None \<and> ag_tied ag = []"
    "ag_outcome ag = (if ballots js = [] then (if js = [] then ''invalid'' else ''abstained'')
       else if ag_tie ag then ''tie'' else ''winner'')"
    "ag_consensus ag = (if ballots js = [] then ''none'' else if ag_tie ag then ''tie''
       else if (case ag_winner ag of None \<Rightarrow> False | Some c \<Rightarrow> score w c = int (length (ballots js)))
         then ''unanimous'' else ''divided'')"
  unfolding assms summarize_def Let_def
  by (simp_all add: tally_of_def counted_ballots)

lemma canonical_ne: "valid_labels labels \<Longrightarrow> canonical_labels labels \<noteq> []"
  by (metis canonical_set(1) set_empty valid_labels_def)

text \<open>Points of one ballot add up to the triangle number of its length.\<close>

lemma ballot_total:
  "distinct r \<Longrightarrow> 2 * (\<Sum>l\<in>set r. int (length r) - 1 - int (position l r)) = int (length r) * (int (length r) - 1)"
proof (induction r)
  case (Cons x r)
  have shift: "(\<Sum>l\<in>set r. int (length (x # r)) - 1 - int (position l (x # r)))
      = (\<Sum>l\<in>set r. int (length r) - 1 - int (position l r))"
    using Cons.prems by (intro sum.cong) auto
  have "(\<Sum>l\<in>set (x # r). int (length (x # r)) - 1 - int (position l (x # r)))
      = int (length r) + (\<Sum>l\<in>set r. int (length r) - 1 - int (position l r))"
    using Cons.prems shift by simp
  then have "2 * (\<Sum>l\<in>set (x # r). int (length (x # r)) - 1 - int (position l (x # r)))
      = 2 * int (length r) + int (length r) * (int (length r) - 1)"
    using Cons by simp
  then show ?case by (simp add: algebra_simps)
qed simp

lemma borda_total:
  assumes "\<And>r. r \<in> set bs \<Longrightarrow> distinct r \<and> set r = L \<and> length r = n"
  shows "2 * (\<Sum>l\<in>L. borda bs l) = int (length bs) * (int n * (int n - 1))"
  using assms
proof (induction bs)
  case (Cons r bs)
  then have r: "distinct r" "set r = L" "length r = n" by simp_all
  have "(\<Sum>l\<in>L. ballot_points l r) = (\<Sum>l\<in>set r. int (length r) - 1 - int (position l r))"
    using r by (intro sum.cong) (auto simp: ballot_points_def)
  then have "2 * (\<Sum>l\<in>L. ballot_points l r) = int n * (int n - 1)"
    using ballot_total [OF r(1)] r(3) by simp
  moreover have "2 * (\<Sum>l\<in>L. borda bs l) = int (length bs) * (int n * (int n - 1))"
    using Cons by simp
  ultimately show ?case by (simp add: borda_def sum.distrib algebra_simps)
qed (simp add: borda_def)

text \<open>A ballot gives at most \<open>n - 1\<close> points, and only to its first label.\<close>

lemma position_zero: "l \<in> set r \<Longrightarrow> position l r = 0 \<longleftrightarrow> r ! 0 = l"
  by (cases r) auto

lemma ballot_points_max:
  assumes "l \<in> set r"
  shows "ballot_points l r \<le> int (length r) - 1"
    and "ballot_points l r = int (length r) - 1 \<longleftrightarrow> r ! 0 = l"
  using assms position_zero [OF assms] by (auto simp: ballot_points_def)

lemma borda_unanimous:
  assumes "\<And>r. r \<in> set bs \<Longrightarrow> r ! 0 = c \<and> length r = n \<and> set r = L" and "bs \<noteq> []" and "c \<in> L"
  shows "borda bs c = int (length bs) * (int n - 1)"
    and "m \<in> L \<Longrightarrow> m \<noteq> c \<Longrightarrow> borda bs m < int (length bs) * (int n - 1)"
proof -
  have "borda bs c = sum_list (map (\<lambda>r. int n - 1) bs)"
    unfolding borda_def using assms(1,3) ballot_points_max(2) [of c]
    by (intro arg_cong [of _ _ sum_list] map_cong) auto
  then show "borda bs c = int (length bs) * (int n - 1)" by (simp add: sum_list_triv)
next
  assume m: "m \<in> L" "m \<noteq> c"
  have one: "ballot_points m r \<le> int n - 2" if "r \<in> set bs" for r
  proof -
    have len: "length r = n" and mr: "m \<in> set r" and ne: "r ! 0 \<noteq> m"
      using assms(1) [OF that] m by auto
    have "ballot_points m r \<le> int n - 1" using ballot_points_max(1) [OF mr] unfolding len .
    moreover have "ballot_points m r \<noteq> int n - 1"
      using ballot_points_max(2) [OF mr] ne unfolding len by blast
    ultimately show ?thesis by linarith
  qed
  then have "borda bs m \<le> sum_list (map (\<lambda>r. int n - 2) bs)"
    unfolding borda_def by (intro sum_list_mono) simp
  also have "\<dots> = int (length bs) * (int n - 2)" by (simp add: sum_list_triv)
  also have "\<dots> < int (length bs) * (int n - 1)" using assms(2) by simp
  finally show "borda bs m < int (length bs) * (int n - 1)" .
qed

lemma length_filter_all: "length (filter p xs) = length xs \<longleftrightarrow> (\<forall>x\<in>set xs. p x)"
proof (induction xs)
  case (Cons x xs)
  have "length (filter p xs) \<noteq> Suc (length xs)" using length_filter_le [of p xs] by linarith
  with Cons show ?case by simp
qed simp

lemma firsts_all: "firsts bs c = int (length bs) \<longleftrightarrow> (\<forall>r\<in>set bs. r ! 0 = c)"
  by (simp add: firsts_def length_filter_all)

text \<open>The result depends on the judgments and the labels only as collections.\<close>

lemma stable_unique_cong: "set xs = set ys \<Longrightarrow> stable_unique xs = stable_unique ys"
proof -
  assume "set xs = set ys"
  then have "set (map py_strip (filter nonblank xs)) = set (map py_strip (filter nonblank ys))" by simp
  then show ?thesis unfolding stable_unique_def
    by (intro sort_folded_cong) (simp only: set_eq_iff_mset_remdups_eq)
qed

lemma sum_list_cong_mset:
  fixes f :: "'a \<Rightarrow> int"
  assumes "mset xs = mset ys"
  shows "sum_list (map f xs) = sum_list (map f ys)"
proof -
  have "sum_list (map f zs) = sum_mset (image_mset f (mset zs))" for zs
    by (induction zs) simp_all
  with assms show ?thesis by simp
qed

lemma length_filter_cong_mset:
  assumes "mset xs = mset ys"
  shows "length (filter p xs) = length (filter p ys)"
proof -
  have "length (filter p zs) = size (filter_mset p (mset zs))" for zs
    by (induction zs) simp_all
  with assms show ?thesis by simp
qed

lemma summarize_cong:
  assumes "mset labels = mset labels'" and "mset js = mset js'" and "mset rs = mset rs'"
  shows "summarize labels (tally_of labels js rs) = summarize labels' (tally_of labels' js' rs')"
proof -
  have lab: "canonical_labels labels = canonical_labels labels'"
    unfolding canonical_labels_def by (rule sort_folded_cong [OF assms(1)])
  have bs: "mset (ballots js) = mset (ballots js')" using assms(2) by (simp add: ballots_def)
  have pts: "borda (ballots js) = borda (ballots js')"
    by (simp add: fun_eq_iff borda_def sum_list_cong_mset [OF bs])
  have wins: "firsts (ballots js) = firsts (ballots js')"
    by (simp add: fun_eq_iff firsts_def length_filter_cong_mset [OF bs])
  have sets: "set (concat (map f js)) = set (concat (map f js'))" for f :: "jury_judgment \<Rightarrow> string list"
    by (simp add: mset_eq_setD [OF assms(2)])
  show ?thesis
    using mset_eq_length [OF assms(2)] mset_eq_length [OF assms(3)]
      length_filter_cong_mset [OF assms(2), of jd_abstain]
      stable_unique_cong [OF sets [of jd_disagreements]]
      stable_unique_cong [OF sets [of jd_verification]]
      stable_unique_cong [OF mset_eq_setD [OF assms(3)]]
    by (simp add: summarize_def tally_of_def lab pts wins Let_def)
qed

lemma judge_entry_labels:
  assumes "mset labels = mset labels'"
  shows "judge_entry extract labels x = judge_entry extract labels' x"
proof -
  note m = mset_eq_setD [OF assms] mset_eq_length [OF assms]
  have ne: "labels = [] \<longleftrightarrow> labels' = []" using m(2) by auto
  have v: "validated_labels labels' = map_sum id (\<lambda>_. labels') (validated_labels labels)"
    by (simp add: validated_labels_def list_ex_iff ne m)
  have vl: "valid_labels labels' = valid_labels labels"
    using m distinct_card card_distinct by (metis valid_labels_def set_empty)
  have cf: "choice_fields ab w r labels = choice_fields ab w r labels'" for ab w r
    by (cases ab) (simp_all add: choice_fields_def m)
  have d: "validate_jury_decision mp labels = validate_jury_decision mp labels'" for mp
    by (simp add: validate_jury_decision_def cf)
  have bad: "\<exists>e. validated_labels labels = Inl e \<and> validated_labels labels' = Inl e"
    if "\<not> valid_labels labels"
  proof (cases "validated_labels labels")
    case (Inl e)
    with v show ?thesis by simp
  next
    case (Inr r)
    with that show ?thesis by (simp add: validated_labels_ok)
  qed
  have ok: "validated_labels labels = Inr labels" "validated_labels labels' = Inr labels'"
    if "valid_labels labels" using that vl by (simp_all add: validated_labels_ok)
  have obj: "validate_jury_object mp labels = validate_jury_object mp labels'" for mp
    using bad ok by (cases "valid_labels labels") (auto simp: validate_jury_object_def d)
  show ?thesis using bad ok
    by (cases "valid_labels labels")
      (auto simp: judge_entry_def parse_jury_def obj split: json.split)
qed

text \<open>The re-count without self votes, for any jurors.\<close>

lemma get_or_null_obj: "obj_get m k = Inr v \<Longrightarrow> get_or_null m k = v"
  by (simp add: obj_get_def get_or_null_def split: option.splits)

lemma strings_back: "\<forall>v\<in>set vs. is_str v \<Longrightarrow> map str_of vs = ss \<Longrightarrow> vs = map JStr ss"
  by (induction vs arbitrary: ss) (auto dest: is_str_of)

lemma validated_fields:
  assumes "validate_jury_object m labels = Inr j"
  shows "get_or_null m ''abstain'' = JBool (jd_abstain j)
    \<and> get_or_null m ''ranking'' = JList (map JStr (jd_ranking j))"
proof -
  obtain a r where a: "obj_get m ''abstain'' = Inr a" "bool_field a = Inr (jd_abstain j)"
    and r: "obj_get m ''ranking'' = Inr r" "ranking_field r = Inr (jd_ranking j)"
    using assms by (auto simp: validate_jury_object_def validate_jury_decision_def result_simps)
  have "a = JBool (jd_abstain j)" using a(2) by (simp add: bool_field_def split: json.splits)
  moreover have "r = JList (map JStr (jd_ranking j))"
    using r(2) by (auto simp: ranking_field_def list_all_iff strings_back split: json.splits if_splits)
  ultimately show ?thesis using a(1) r(1) by (simp add: get_or_null_obj)
qed

definition others_of :: "json \<Rightarrow> string list \<Rightarrow> string list" where
  "others_of v r = filter (\<lambda>l. JStr l \<noteq> v) r"

lemma others_exact:
  assumes "set r \<subseteq> set labels" and "get_or_null m ''ranking'' = JList (map JStr r)"
  shows "others_ranking m labels = Inr (others_of (get_or_null m ''juror'') r)"
proof -
  let ?v = "get_or_null m ''juror''"
  let ?f = "\<lambda>v. rbind (member_of v labels) (\<lambda>ok. Inr (if ok \<and> v \<noteq> ?v then [str_of v] else []))"
  have "rmap ?f (map JStr r) = Inr (map (\<lambda>l. if JStr l \<noteq> ?v then [l] else []) r)"
    using assms(1) by (induction r) (auto simp: member_of_def)
  moreover have "iter_or_empty (JList (map JStr r)) = Inr (map JStr r)"
    by (simp add: iter_or_empty_def)
  moreover have "concat (map (\<lambda>l. if JStr l \<noteq> ?v then [l] else []) r) = others_of ?v r"
    by (induction r) (auto simp: others_of_def)
  ultimately show ?thesis by (simp add: others_ranking_def assms(2))
qed

definition votes_of :: "string list \<Rightarrow> string list list \<Rightarrow> vote_count" where
  "votes_of labels bs = \<lparr>vc_points = table (canonical_labels labels) (borda bs),
     vc_wins = table (canonical_labels labels) (firsts bs), vc_counted = int (length bs)\<rparr>"

lemma count_ranking_of:
  assumes "distinct labels" and "distinct r" and "r \<noteq> []"
  shows "count_ranking r (votes_of labels bs) = votes_of labels (bs @ [r])"
proof -
  have d: "distinct (canonical_labels labels)" using assms(1) by simp
  have "borda (bs @ [r]) = (\<lambda>l. borda bs l + ballot_points l r)"
    by (simp add: fun_eq_iff borda_def)
  moreover have "firsts (bs @ [r]) = (\<lambda>l. firsts bs l + (if l = r ! 0 then 1 else 0))"
    by (auto simp: fun_eq_iff firsts_def)
  ultimately show ?thesis
    using assms(3) award_ballot [OF d assms(2)] table_add [OF d]
    by (simp add: count_ranking_def votes_of_def)
qed

text \<open>The entries of jurors \<open>es\<close>, each the juror's own label with its judgment; the votes that they
  cast; the ballots that are left of them.\<close>

definition juror_entries :: "(json \<times> jobj) list \<Rightarrow> json list" where
  "juror_entries es = map (\<lambda>(v, m). JObj ((''juror'', v) # m)) es"

definition votes_cast :: "(json \<times> jobj) list \<Rightarrow> jury_judgment list \<Rightarrow> (json \<times> string list) list" where
  "votes_cast es js = map (\<lambda>(e, j). (fst e, jd_ranking j)) (filter (\<lambda>(e, j). \<not> jd_abstain j) (zip es js))"

definition other_ballots :: "(json \<times> string list) list \<Rightarrow> string list list" where
  "other_ballots votes = filter (\<lambda>r. r \<noteq> []) (map (\<lambda>(v, r). others_of v r) votes)"

definition valid_entry :: "string list \<Rightarrow> json \<times> jobj \<Rightarrow> jury_judgment \<Rightarrow> bool" where
  "valid_entry labels e j \<longleftrightarrow> validate_jury_object (snd e) labels = Inr j"

lemma entry_fields:
  assumes "valid_entry labels (v, m) j"
  shows "get_or_null ((''juror'', v) # m) ''abstain'' = JBool (jd_abstain j)"
    and "get_or_null ((''juror'', v) # m) ''ranking'' = JList (map JStr (jd_ranking j))"
    and "get_or_null ((''juror'', v) # m) ''winner'' = (case jd_winner j of None \<Rightarrow> JNull | Some w \<Rightarrow> JStr w)"
    and "get_or_null ((''juror'', v) # m) ''juror'' = v"
  using assms by (simp_all add: valid_entry_def jury_object_iff states_judgment_def get_or_null_def)

lemma count_others_of:
  assumes "valid_labels labels" and "list_all2 (valid_entry labels) es js"
  shows "count_all_others labels (votes_of labels bs) (juror_entries es)
    = Inr (votes_of labels (bs @ other_ballots (votes_cast es js)))"
  using assms(2)
proof (induction es js arbitrary: bs rule: list_all2_induct)
  case Nil
  then show ?case by (simp add: other_ballots_def votes_cast_def juror_entries_def)
next
  case (Cons e es j js)
  obtain v m where e: "e = (v, m)" by (cases e)
  note f = entry_fields [OF Cons(1) [unfolded e]]
  have wf: "wf_judgment labels j" using Cons(1) by (simp add: valid_entry_def jury_object_iff)
  let ?rest = "other_ballots (votes_cast es js)"
  show ?case
  proof (cases "jd_abstain j")
    case True
    then have "count_other_votes labels (votes_of labels bs) (JObj ((''juror'', v) # m)) = Inr (votes_of labels bs)"
      by (simp add: count_other_votes_def f)
    moreover have "other_ballots (votes_cast (e # es) (j # js)) = ?rest"
      using True by (simp add: votes_cast_def)
    ultimately show ?thesis using Cons.IH by (simp add: juror_entries_def e)
  next
    case False
    note b = ballot_valid [OF assms(1) wf False]
    let ?r = "others_of v (jd_ranking j)"
    have "others_ranking ((''juror'', v) # m) labels = Inr ?r"
      using others_exact [of "jd_ranking j" labels "(''juror'', v) # m"] b(5) f by simp
    moreover have "distinct labels" "distinct ?r" using assms(1) b(2) by (simp_all add: valid_labels_def others_of_def)
    ultimately have "count_other_votes labels (votes_of labels bs) (JObj ((''juror'', v) # m))
        = Inr (votes_of labels (bs @ (if ?r = [] then [] else [?r])))"
      using False by (simp add: count_other_votes_def f count_ranking_of) (simp add: count_ranking_def)
    moreover have "other_ballots (votes_cast (e # es) (j # js)) = (if ?r = [] then [] else [?r]) @ ?rest"
      using False by (simp add: votes_cast_def other_ballots_def e)
    ultimately show ?thesis using Cons.IH by (simp add: juror_entries_def e)
  qed
qed

lemma cast_facts:
  assumes "valid_labels labels" and "list_all2 (valid_entry labels) es js" and "(v, r) \<in> set (votes_cast es js)"
  shows "distinct r" and "set r = set labels"
proof -
  obtain e j where "(e, j) \<in> set (zip es js)" "\<not> jd_abstain j" "r = jd_ranking j"
    using assms(3) by (auto simp: votes_cast_def)
  moreover from this assms(2) have "wf_judgment labels j"
    by (auto simp: list_all2_iff valid_entry_def jury_object_iff)
  ultimately show "distinct r" "set r = set labels" using ballot_valid [OF assms(1)] by auto
qed

text \<open>Points and first places by what is ranked below.\<close>

lemma points_below:
  "distinct r \<Longrightarrow> l \<in> set r \<Longrightarrow> ballot_points l r = int (card {m \<in> set r. position l r < position m r})"
proof (induction r)
  case (Cons x r)
  show ?case
  proof (cases "l = x")
    case True
    have "{m \<in> set (x # r). position l (x # r) < position m (x # r)} = set r"
      using Cons.prems True by auto
    then show ?thesis using Cons.prems True by (simp add: ballot_points_def distinct_card)
  next
    case False
    then have "{m \<in> set (x # r). position l (x # r) < position m (x # r)}
        = {m \<in> set r. position l r < position m r}"
      using Cons.prems by auto
    with Cons False show ?thesis by (auto simp: ballot_points_def)
  qed
qed simp

lemma position_filter:
  "p l \<Longrightarrow> p m \<Longrightarrow> l \<in> set r \<Longrightarrow> m \<in> set r \<Longrightarrow>
   position l (filter p r) < position m (filter p r) \<longleftrightarrow> position l r < position m r"
  by (induction r) auto

definition ranked_below :: "string list \<Rightarrow> string \<Rightarrow> json \<times> string list \<Rightarrow> string set" where
  "ranked_below labels l x = {m \<in> set labels. JStr m \<noteq> fst x \<and> position l (snd x) < position m (snd x)}"

lemma others_points:
  assumes "distinct r" and "set r = set labels" and "l \<in> set labels"
  shows "ballot_points l (others_of v r) = (if JStr l = v then 0 else int (card (ranked_below labels l (v, r))))"
proof (cases "JStr l = v")
  case True
  then show ?thesis by (simp add: ballot_points_def others_of_def)
next
  case False
  have "l \<in> set (others_of v r)" using assms False by (simp add: others_of_def)
  moreover have "distinct (others_of v r)" using assms(1) by (simp add: others_of_def)
  moreover have "{m \<in> set (others_of v r). position l (others_of v r) < position m (others_of v r)}
      = ranked_below labels l (v, r)"
    using assms False position_filter [of "\<lambda>l. JStr l \<noteq> v" l _ r]
    by (auto simp: ranked_below_def others_of_def)
  ultimately show ?thesis using points_below [of "others_of v r" l] False by simp
qed

lemma head_first: "r \<noteq> [] \<Longrightarrow> distinct r \<Longrightarrow>
    r ! 0 = l \<longleftrightarrow> l \<in> set r \<and> (\<forall>m\<in>set r. m \<noteq> l \<longrightarrow> position l r < position m r)"
  by (cases r) auto

definition best_other :: "string list \<Rightarrow> string \<Rightarrow> json \<times> string list \<Rightarrow> bool" where
  "best_other labels l x \<longleftrightarrow> JStr l \<noteq> fst x
     \<and> (\<forall>m\<in>set labels. JStr m \<noteq> fst x \<longrightarrow> m \<noteq> l \<longrightarrow> position l (snd x) < position m (snd x))"

lemma others_first:
  assumes "distinct r" and "set r = set labels" and "l \<in> set labels"
  shows "others_of v r \<noteq> [] \<and> others_of v r ! 0 = l \<longleftrightarrow> best_other labels l (v, r)"
proof (cases "others_of v r = []")
  case True
  then have "JStr l = v" using assms by (auto simp: others_of_def filter_empty_conv)
  with True show ?thesis by (simp add: best_other_def)
next
  case False
  have "distinct (others_of v r)" using assms(1) by (simp add: others_of_def)
  from head_first [OF False this, of l] False show ?thesis
    using assms position_filter [of "\<lambda>l. JStr l \<noteq> v" l _ r]
    by (auto simp: best_other_def others_of_def)
qed

lemma other_scores:
  assumes "\<forall>x\<in>set votes. distinct (snd x) \<and> set (snd x) = set labels" and "l \<in> set labels"
  shows "borda (other_ballots votes) l
      = (\<Sum>x\<leftarrow>votes. if JStr l = fst x then 0 else int (card (ranked_below labels l x)))"
    and "firsts (other_ballots votes) l = int (length (filter (best_other labels l) votes))"
    and "length (other_ballots votes) = length (filter (\<lambda>x. \<exists>m\<in>set labels. JStr m \<noteq> fst x) votes)"
proof (atomize (full), use assms(1) in \<open>induction votes\<close>)
  case Nil
  then show ?case by (simp add: other_ballots_def borda_def firsts_def)
next
  case (Cons x votes)
  obtain v r where x: "x = (v, r)" by (cases x)
  have r: "distinct r" "set r = set labels" using Cons.prems by (simp_all add: x)
  let ?o = "others_of v r" and ?bs = "other_ballots votes"
  have bs: "other_ballots (x # votes) = (if ?o = [] then [] else [?o]) @ ?bs"
    by (simp add: other_ballots_def x)
  have one: "borda (other_ballots (x # votes)) l = ballot_points l ?o + borda ?bs l"
    "firsts (other_ballots (x # votes)) l = (if ?o \<noteq> [] \<and> ?o ! 0 = l then 1 else 0) + firsts ?bs l"
    "length (other_ballots (x # votes)) = (if ?o = [] then 0 else 1) + length ?bs"
    unfolding bs by (simp_all add: borda_def firsts_def) (simp add: ballot_points_def)
  have "?o = [] \<longleftrightarrow> \<not> (\<exists>m\<in>set labels. JStr m \<noteq> v)"
    using r by (auto simp: others_of_def filter_empty_conv)
  moreover have "borda ?bs l = (\<Sum>x\<leftarrow>votes. if JStr l = fst x then 0 else int (card (ranked_below labels l x)))"
    "firsts ?bs l = int (length (filter (best_other labels l) votes))"
    "length ?bs = length (filter (\<lambda>x. \<exists>m\<in>set labels. JStr m \<noteq> fst x) votes)"
    using Cons.IH Cons.prems by auto
  ultimately show ?case
    unfolding one others_points [OF r assms(2)] others_first [OF r assms(2)] by (simp add: x)
qed

lemma own_candidates:
  assumes "valid_labels labels" and "list_all2 (valid_entry labels) es js"
    and "\<forall>e\<in>set es. fst e = JNull \<or> is_str (fst e)"
  shows "\<exists>marks. rmap (own_candidate labels) (juror_entries es) = Inr marks
    \<and> List.map_filter id marks = map (\<lambda>x. (str_of (fst x), snd x ! 0 = str_of (fst x)))
        (filter (\<lambda>x. is_str (fst x) \<and> str_of (fst x) \<in> set labels) (votes_cast es js))"
  using assms(2,3)
proof (induction es js rule: list_all2_induct)
  case Nil
  then show ?case by (simp add: juror_entries_def votes_cast_def)
next
  case (Cons e es j js)
  obtain v m where e: "e = (v, m)" by (cases e)
  note f = entry_fields [OF Cons(1) [unfolded e]]
  have wf: "wf_judgment labels j" using Cons(1) by (simp add: valid_entry_def jury_object_iff)
  have v: "v = JNull \<or> is_str v" using Cons.prems by (simp add: e)
  have "\<forall>e\<in>set es. fst e = JNull \<or> is_str (fst e)" using Cons.prems by simp
  from Cons.IH [OF this] obtain marks where IH: "rmap (own_candidate labels) (juror_entries es) = Inr marks"
      "List.map_filter id marks = map (\<lambda>x. (str_of (fst x), snd x ! 0 = str_of (fst x)))
        (filter (\<lambda>x. is_str (fst x) \<and> str_of (fst x) \<in> set labels) (votes_cast es js))"
    by blast
  let ?mine = "\<not> jd_abstain j \<and> is_str v \<and> str_of v \<in> set labels"
  have win: "\<not> jd_abstain j \<Longrightarrow> jd_winner j = Some (jd_ranking j ! 0)"
    using wf by (simp add: wf_judgment_def wf_ballot_def)
  have "own_candidate labels (JObj ((''juror'', v) # m))
      = Inr (if ?mine then Some (str_of v, jd_ranking j ! 0 = str_of v) else None)"
    using v win f by (cases v) (auto simp: own_candidate_def Let_def member_of_def is_str_def)
  with IH show ?case
    by (auto simp: juror_entries_def e votes_cast_def List.map_filter_simps id_def)
qed

lemma excluding_outcome:
  fixes labels bs
  assumes "valid_labels labels"
  defines "ex \<equiv> summarize_excluding labels (votes_of labels bs)"
  shows "(xv_winner ex = Some c \<longleftrightarrow> bs \<noteq> [] \<and> c \<in> set labels
      \<and> (\<forall>m\<in>set labels. m \<noteq> c \<longrightarrow> beats (score (xv_points ex)) (score (xv_wins ex)) c m))
    \<and> (xv_tie ex \<longleftrightarrow> bs \<noteq> [] \<and> xv_winner ex = None)"
proof (cases "bs = []")
  case True
  then show ?thesis by (simp add: ex_def summarize_excluding_def votes_of_def Let_def)
next
  case False
  have d: "distinct (canonical_labels labels)" using assms(1) by (simp add: valid_labels_def)
  note ne = canonical_ne [OF assms(1)]
  let ?L = "leaders (xv_points ex) (xv_wins ex) (order_labels (xv_points ex) (xv_wins ex) (canonical_labels labels))"
  have L: "?L \<noteq> []" by (rule leaders_ne [OF ne])
  have "xv_winner ex = (if length ?L = 1 then Some (?L ! 0) else None)" "xv_tie ex = (1 < length ?L)"
    using False by (simp_all add: ex_def summarize_excluding_def votes_of_def Let_def)
  moreover have "?L = [c] \<longleftrightarrow> c \<in> set labels \<and> (\<forall>m\<in>set labels. m \<noteq> c \<longrightarrow>
      beats (score (xv_points ex)) (score (xv_wins ex)) c m)"
    using leaders_single [OF ne d, of "xv_points ex" "xv_wins ex" c] by simp
  moreover have "length ?L = 1 \<and> ?L ! 0 = c \<longleftrightarrow> ?L = [c]" using L by (cases ?L) auto
  moreover have "1 < length ?L \<longleftrightarrow> length ?L \<noteq> 1" using L by (cases ?L) auto
  ultimately show ?thesis using False by auto
qed

section \<open>The properties\<close>


text \<open>C31: With valid labels, and an extraction that fails only with a ValueError or a TypeError,
  the aggregation always returns; the points of a label are its Borda count over the accepted,
  non-abstaining judgments, its wins the number of them it heads, and the points of all labels
  together are what that many full rankings distribute.\<close>

theorem jury_borda_count:
  assumes "valid_labels labels" and "\<And>t. caught (extract ''jury response'' t)"
  shows "\<exists>ag. aggregate_juries extract juries labels = Inr ag
    \<and> ag_counted ag = int (length (ballots (accepted extract labels (jury_entries juries))))
    \<and> (\<forall>l\<in>set labels.
         dict_get (ag_points ag) l
           = Some (borda (ballots (accepted extract labels (jury_entries juries))) l)
       \<and> dict_get (ag_wins ag) l
           = Some (firsts (ballots (accepted extract labels (jury_entries juries))) l))
    \<and> 2 * (\<Sum>l\<in>set labels. score (ag_points ag) l)
        = ag_counted ag * (int (length labels) * (int (length labels) - 1))"
proof -
  let ?js = "accepted extract labels (jury_entries juries)"
  let ?ag = "summarize labels (tally_of labels ?js (refusals extract labels (jury_entries juries)))"
  note f = summary_fields [where labels = labels and js = ?js and rs = "refusals extract labels (jury_entries juries)"]
  have "2 * (\<Sum>l\<in>set labels. borda (ballots ?js) l)
      = int (length (ballots ?js)) * (int (length labels) * (int (length labels) - 1))"
    using ballots_valid [OF assms(1)] by (intro borda_total) blast
  moreover have "(\<Sum>l\<in>set labels. score (ag_points ?ag) l) = (\<Sum>l\<in>set labels. borda (ballots ?js) l)"
    by (rule sum.cong) (simp_all add: f)
  moreover have "aggregate_juries extract juries labels = Inr ?ag"
    by (rule aggregate_closed_form [OF assms(1)]) (rule assms(2))
  ultimately show ?thesis by (simp add: f table_get)
qed

text \<open>C32: The outcome is decided by points first and first places second.  With no counted
  judgment there is no winner and no tie, and the outcome says whether judgments abstained or none
  was valid; otherwise, if some label beats every other, it alone is the winner, and else the
  labels that nobody beats are reported as a tie, and there are at least two of them.\<close>

theorem jury_outcome_decided:
  assumes "aggregate_juries extract juries labels = Inr ag"
  shows "if ag_counted ag = 0
    then ag_winner ag = None \<and> \<not> ag_tie ag \<and> ag_tied ag = [] \<and> ag_consensus ag = ''none''
      \<and> ag_outcome ag = (if ag_valid ag = 0 then ''invalid'' else ''abstained'')
    else (\<forall>c. ag_winner ag = Some c \<longleftrightarrow> c \<in> set labels \<and>
            (\<forall>m\<in>set labels. m \<noteq> c \<longrightarrow> beats (score (ag_points ag)) (score (ag_wins ag)) c m))
      \<and> ag_tie ag = (ag_winner ag = None)
      \<and> ag_outcome ag = (if ag_tie ag then ''tie'' else ''winner'')
      \<and> (ag_tie ag \<longrightarrow> distinct (ag_tied ag) \<and> 2 \<le> length (ag_tied ag)
          \<and> set (ag_tied ag) = {l \<in> set labels. \<forall>m\<in>set labels.
               \<not> beats (score (ag_points ag)) (score (ag_wins ag)) m l})"
proof -
  let ?js = "accepted extract labels (jury_entries juries)"
  let ?rs = "refusals extract labels (jury_entries juries)"
  note ret = aggregate_returns [OF assms]
  then have v: "valid_labels labels" and ag: "ag = summarize labels (tally_of labels ?js ?rs)"
    by simp_all
  note f = summary_fields [where labels = labels and js = ?js and rs = ?rs, folded ag]
  have d: "distinct (canonical_labels labels)" using v by (simp add: valid_labels_def)
  have ne: "canonical_labels labels \<noteq> []" by (rule canonical_ne [OF v])
  show ?thesis
  proof (cases "ballots ?js = []")
    case True
    then show ?thesis using f(9) by (simp add: f(3,4,10,11))
  next
    case False
    let ?p = "ag_points ag" let ?w = "ag_wins ag"
    let ?L = "leaders ?p ?w (order_labels ?p ?w (canonical_labels labels))"
    have L: "leaders ?p ?w (ag_ranking ag) = ?L" by (simp only: f(1,2,5))
    have Ld: "distinct ?L" "?L \<noteq> []" by (rule leaders_distinct [OF d], rule leaders_ne [OF ne])
    have tie: "ag_tie ag \<longleftrightarrow> length ?L \<noteq> 1" using f(7) [OF False] L f(1,2) by simp
    have win: "ag_winner ag = (if ag_tie ag then None else Some (?L ! 0))"
      using f(8) [OF False] L f(1,2) by simp
    have tied: "ag_tied ag = (if ag_tie ag then ?L else [])" using f(6) [OF False] L f(1,2) by simp
    have one: "ag_winner ag = Some c \<longleftrightarrow> ?L = [c]" for c
      unfolding win tie using Ld(2) by (cases ?L) auto
    have "2 \<le> length ?L" if "ag_tie ag"
      using that Ld(2) unfolding tie by (cases ?L) (auto simp: Suc_le_eq)
    moreover have "ag_tie ag = (ag_winner ag = None)" unfolding win by simp
    moreover have "set ?L = {l \<in> set labels. \<forall>m\<in>set labels. \<not> beats (score ?p) (score ?w) m l}"
      using leaders_set [OF ne, of ?p ?w] by simp
    moreover have "ag_winner ag = Some c \<longleftrightarrow> c \<in> set labels \<and>
        (\<forall>m\<in>set labels. m \<noteq> c \<longrightarrow> beats (score ?p) (score ?w) c m)" for c
      unfolding one using leaders_single [OF ne d, of ?p ?w c] by simp
    ultimately show ?thesis using False Ld(1) tied by (simp add: f(3,10))
  qed
qed

text \<open>C33: The count is anonymous and neutral to presentation: permuting the judgments, and
  permuting the candidate labels, changes nothing of the aggregate.\<close>

theorem jury_anonymous:
  assumes "aggregate_juries extract (JList xs) labels = Inr ag"
    and "mset xs = mset ys" and "mset labels = mset labels'"
  shows "aggregate_juries extract (JList ys) labels' = Inr ag"
proof -
  have je: "judge_entry extract labels' = judge_entry extract labels"
    using judge_entry_labels [OF assms(3)] by (simp add: fun_eq_iff)
  obtain t where t: "tally_entries extract labels (empty_tally labels) xs = Inr t"
    and v: "valid_labels labels"
    using assms(1) by (auto simp: aggregate_juries_def result_simps jury_entries_def)
  have c: "caught (judge_entry extract labels' y)" if "y \<in> set ys" for y
    unfolding je using tally_caught [OF t] that mset_eq_setD [OF assms(2)] by simp
  have v': "valid_labels labels'"
    using v assms(3) by (metis distinct_count_atmost_1 mset_eq_setD set_empty set_mset_mset valid_labels_def)
  have "aggregate_juries extract (JList ys) labels'
    = Inr (summarize labels' (tally_of labels' (accepted extract labels' ys) (refusals extract labels' ys)))"
    using tally_entries_of [OF v' c, where js = "[]" and rs = "[]"] v'
    by (simp add: aggregate_juries_def validated_labels_ok [THEN iffD2] empty_tally_of jury_entries_def)
  moreover have "mset (accepted extract labels xs) = mset (accepted extract labels' ys)"
    "mset (refusals extract labels xs) = mset (refusals extract labels' ys)"
    using assms(2) unfolding accepted_def refusals_def je by (simp_all add: mset_concat flip: sum_mset_sum_list)
  ultimately show ?thesis
    using aggregate_returns [OF assms(1)] summarize_cong [OF assms(3)] by (simp add: jury_entries_def)
qed

text \<open>The reported ranking is a permutation of the labels in which nobody is beaten by a later
  label.\<close>

theorem jury_ranking_sorted:
  assumes "aggregate_juries extract juries labels = Inr ag"
  shows "mset (ag_ranking ag) = mset labels
    \<and> sorted_wrt (\<lambda>a b. \<not> beats (score (ag_points ag)) (score (ag_wins ag)) b a) (ag_ranking ag)"
proof -
  note f = summary_fields [where labels = labels and js = "accepted extract labels (jury_entries juries)" and rs = "refusals extract labels (jury_entries juries)"]
  have ag: "ag_ranking ag = order_labels (ag_points ag) (ag_wins ag) (canonical_labels labels)"
    using aggregate_returns [OF assms] f(1,2,5) by simp
  let ?k = "\<lambda>l. (- score (ag_points ag) l, - score (ag_wins ag) l, fold_key l)"
  have "sorted_wrt (\<lambda>a b. ?k a \<le> ?k b) (order_labels (ag_points ag) (ag_wins ag) (canonical_labels labels))"
    using sorted_sort_key [of ?k "canonical_labels labels"] by (simp add: order_labels_def sorted_wrt_map)
  then have "sorted_wrt (\<lambda>a b. \<not> beats (score (ag_points ag)) (score (ag_wins ag)) b a)
      (order_labels (ag_points ag) (ag_wins ag) (canonical_labels labels))"
    by (rule sorted_wrt_mono_rel [rotated]) (auto simp: beats_def less_eq_prod_def less_prod_def)
  then show ?thesis unfolding ag by (simp add: canonical_labels_def)
qed

text \<open>The consensus is unanimous exactly when at least one judgment counted and one label heads
  every counted ranking; that label is then the winner.\<close>

theorem jury_unanimous_iff:
  assumes "aggregate_juries extract juries labels = Inr ag"
  shows "(ag_consensus ag = ''unanimous'' \<and> ag_winner ag = Some c) \<longleftrightarrow>
    ballots (accepted extract labels (jury_entries juries)) \<noteq> []
    \<and> (\<forall>r\<in>set (ballots (accepted extract labels (jury_entries juries))). r ! 0 = c)"
proof -
  let ?js = "accepted extract labels (jury_entries juries)"
  let ?rs = "refusals extract labels (jury_entries juries)"
  have v: "valid_labels labels" and ag: "ag = summarize labels (tally_of labels ?js ?rs)"
    using aggregate_returns [OF assms] by simp_all
  note f = summary_fields [where labels = labels and js = ?js and rs = ?rs, folded ag]
  have d: "distinct (canonical_labels labels)" and ne: "canonical_labels labels \<noteq> []"
    using v canonical_ne by (simp_all add: valid_labels_def)
  show ?thesis
  proof (cases "ballots ?js = []")
    case True
    then show ?thesis using f(9) by simp
  next
    case False
    let ?p = "ag_points ag" let ?w = "ag_wins ag"
    let ?L = "leaders ?p ?w (order_labels ?p ?w (canonical_labels labels))"
    have L: "leaders ?p ?w (ag_ranking ag) = ?L" by (simp only: f(1,2,5))
    have one: "ag_winner ag = Some c \<longleftrightarrow> ?L = [c]"
      using f(7,8) [OF False] L f(1,2) leaders_ne [OF ne, of ?p ?w] by (cases ?L) auto
    have tie: "ag_winner ag = Some c \<Longrightarrow> \<not> ag_tie ag"
      using f(8) [OF False] by (auto split: if_splits)
    have mem: "?L = [c] \<Longrightarrow> c \<in> set labels"
      using leaders_single [OF ne d, of ?p ?w c] by simp
    have score_c: "c \<in> set labels \<Longrightarrow> score ?w c = firsts (ballots ?js) c" by (simp add: f(2))
    have "?L = [c]" if heads: "\<forall>r\<in>set (ballots ?js). r ! 0 = c"
    proof -
      have b: "r ! 0 = c \<and> length r = length labels \<and> set r = set labels" if "r \<in> set (ballots ?js)" for r
        using ballots_valid [OF v that] heads that by simp
      obtain r where r: "r \<in> set (ballots ?js)" using False by (cases "ballots ?js") auto
      then have c: "c \<in> set labels" using b [OF r] ballots_valid(4) [OF v r] nth_mem [of 0 r]
        by (metis length_greater_0_conv)
      have "borda (ballots ?js) m < borda (ballots ?js) c" if "m \<in> set labels" "m \<noteq> c" for m
        using borda_unanimous [OF b False c] that by simp
      then show ?thesis using leaders_single [OF ne d, of ?p ?w c] c
        by (simp add: f(1) beats_def)
    qed
    moreover have "(ag_consensus ag = ''unanimous'') = (\<forall>r\<in>set (ballots ?js). r ! 0 = c)"
      if "ag_winner ag = Some c"
    proof -
      have "c \<in> set labels" using that one mem by simp
      then have "score ?w c = int (length (ballots ?js)) \<longleftrightarrow> (\<forall>r\<in>set (ballots ?js). r ! 0 = c)"
        by (simp add: score_c firsts_all)
      with that tie False show ?thesis using f(2) by (simp add: f(11))
    qed
    ultimately show ?thesis using False one by blast
  qed
qed

text \<open>C34: Self votes do not count.  In the re-count over valid judgments, a juror that is itself a
  candidate gives its own label nothing: a label gets from every other non-abstaining juror one point
  for each label that this juror ranks below it, the juror's own label left out, and a first place when
  the juror prefers it to all labels but its own; a judgment counts when a label other than the
  juror's own is left; the winner beats all others, and otherwise there is a tie.  The report names the
  jurors that rank their own candidate and those that rank it first, and says whether the outcome
  differs from the aggregate's.\<close>

theorem jury_self_votes_excluded:
  fixes labels es js
  assumes v: "valid_labels labels" and es: "list_all2 (valid_entry labels) es js"
    and hashable: "\<forall>e\<in>set es. fst e = JNull \<or> is_str (fst e)"
  defines "votes \<equiv> votes_cast es js"
  shows "\<exists>rep ex. self_vote_report (juror_entries es) labels ag = Inr rep \<and> sr_excluding rep = ex
    \<and> aggregate_excluding_self_votes (juror_entries es) labels = Inr ex
    \<and> (\<forall>l\<in>set labels.
         dict_get (xv_points ex) l
           = Some (\<Sum>x\<leftarrow>votes. if JStr l = fst x then 0 else int (card (ranked_below labels l x)))
       \<and> dict_get (xv_wins ex) l = Some (int (length (filter (best_other labels l) votes))))
    \<and> xv_counted ex = int (length (filter (\<lambda>x. \<exists>m\<in>set labels. JStr m \<noteq> fst x) votes))
    \<and> (\<forall>c. xv_winner ex = Some c \<longleftrightarrow> xv_counted ex \<noteq> 0 \<and> c \<in> set labels \<and> (\<forall>m\<in>set labels. m \<noteq> c \<longrightarrow>
         beats (score (xv_points ex)) (score (xv_wins ex)) c m))
    \<and> xv_tie ex = (xv_counted ex \<noteq> 0 \<and> xv_winner ex = None)
    \<and> mset (sr_ranked_own rep) = mset (filter (\<lambda>s. s \<in> set labels) (map str_of (filter is_str (map fst votes))))
    \<and> mset (sr_self_votes rep) = mset (map (str_of \<circ> fst) (filter (\<lambda>x. is_str (fst x)
         \<and> str_of (fst x) \<in> set labels \<and> snd x ! 0 = str_of (fst x)) votes))
    \<and> sr_changes rep = ((ag_winner ag, ag_tie ag) \<noteq> (xv_winner ex, xv_tie ex))"
proof -
  let ?bs = "other_ballots votes" and ?ex = "summarize_excluding labels (votes_of labels (other_ballots votes))"
  have "no_votes labels = votes_of labels []"
    by (simp add: no_votes_def votes_of_def table_def borda_def firsts_def)
  then have ex: "aggregate_excluding_self_votes (juror_entries es) labels = Inr ?ex"
    using count_others_of [OF v es, of "[]"] v
    by (simp add: aggregate_excluding_self_votes_def validated_labels_ok [THEN iffD2] votes_def)
  obtain marks where marks: "rmap (own_candidate labels) (juror_entries es) = Inr marks"
      "List.map_filter id marks = map (\<lambda>x. (str_of (fst x), snd x ! 0 = str_of (fst x)))
        (filter (\<lambda>x. is_str (fst x) \<and> str_of (fst x) \<in> set labels) votes)"
    using own_candidates [OF v es hashable] unfolding votes_def by blast
  have fields: "xv_points ?ex = table (canonical_labels labels) (borda ?bs)"
      "xv_wins ?ex = table (canonical_labels labels) (firsts ?bs)" "xv_counted ?ex = int (length ?bs)"
    by (simp_all add: summarize_excluding_def votes_of_def Let_def)
  have "\<forall>x\<in>set votes. distinct (snd x) \<and> set (snd x) = set labels"
    using cast_facts [OF v es] unfolding votes_def by (metis prod.collapse)
  note scores = other_scores [OF this]
  obtain l where l: "l \<in> set labels" using v by (cases labels) (auto simp: valid_labels_def)
  have own: "filter (\<lambda>s. s \<in> set labels) (map str_of (filter is_str (map fst votes)))
      = map (str_of \<circ> fst) (filter (\<lambda>x. is_str (fst x) \<and> str_of (fst x) \<in> set labels) votes)"
    by (simp add: filter_map comp_def conj_commute)
  have first: "map fst (filter snd (map (\<lambda>x. (str_of (fst x), snd x ! 0 = str_of (fst x)))
        (filter (\<lambda>x. is_str (fst x) \<and> str_of (fst x) \<in> set labels) votes)))
      = map (str_of \<circ> fst) (filter (\<lambda>x. is_str (fst x) \<and> str_of (fst x) \<in> set labels
         \<and> snd x ! 0 = str_of (fst x)) votes)"
    by (simp add: filter_map comp_def conj_ac)
  let ?own = "map (\<lambda>x. (str_of (fst x), snd x ! 0 = str_of (fst x)))
        (filter (\<lambda>x. is_str (fst x) \<and> str_of (fst x) \<in> set labels) votes)"
  obtain rep where rep: "self_vote_report (juror_entries es) labels ag = Inr rep" "sr_excluding rep = ?ex"
      "sr_self_votes rep = sorted_text (map fst (filter snd ?own))" "sr_ranked_own rep = sorted_text (map fst ?own)"
      "sr_changes rep = ((ag_winner ag, ag_tie ag) \<noteq> (xv_winner ?ex, xv_tie ?ex))"
    using v ex marks by (simp add: self_vote_report_def validated_labels_ok [THEN iffD2] Let_def)
  have lists: "mset (sr_ranked_own rep) = mset (filter (\<lambda>s. s \<in> set labels) (map str_of (filter is_str (map fst votes))))"
    "mset (sr_self_votes rep) = mset (map (str_of \<circ> fst) (filter (\<lambda>x. is_str (fst x)
         \<and> str_of (fst x) \<in> set labels \<and> snd x ! 0 = str_of (fst x)) votes))"
    unfolding rep(3,4) own first by (simp_all add: sorted_text_def comp_def)
  have counted: "xv_counted ?ex = int (length (filter (\<lambda>x. \<exists>m\<in>set labels. JStr m \<noteq> fst x) votes))"
    using scores(3) [OF l] by (simp add: fields)
  have tables: "dict_get (xv_points ?ex) l = Some (borda ?bs l)" "dict_get (xv_wins ?ex) l = Some (firsts ?bs l)"
    if "l \<in> set labels" for l using that by (simp_all add: fields table_get)
  have "?bs \<noteq> [] \<longleftrightarrow> xv_counted ?ex \<noteq> 0" by (simp add: fields)
  note outcome = excluding_outcome [OF v, of ?bs, unfolded this]
  show ?thesis
    by (rule exI [of _ rep], rule exI [of _ ?ex], intro conjI ballI allI)
      (use rep(1,2,5) ex lists counted tables scores(1,2) outcome in simp_all)
qed

section \<open>A concrete council\<close>

text \<open>Two candidates, one judgment for the first, one entry that is no judgment.\<close>

definition jx_labels :: "string list" where
  "jx_labels = [''A'', ''B'']"

definition jx_extract :: "string \<Rightarrow> string \<Rightarrow> (string \<times> json) list result" where
  "jx_extract name text = Inl (ValueError (''no JSON object found in '' @ name))"

definition jx_judgment :: jury_judgment where
  "jx_judgment = \<lparr>jd_winner = Some ''A'', jd_ranking = [''A'', ''B''], jd_confidence = ''high'',
     jd_abstain = False, jd_rationale = ''sound'', jd_disagreements = [],
     jd_verification = [''dates'']\<rparr>"

definition jx_entries :: "json list" where
  "jx_entries = [JObj (jury_object jx_judgment), JNull]"

definition jx_result :: aggregate where
  "jx_result = summarize jx_labels (tally_of jx_labels [jx_judgment]
     [''judgment must be a mapping or JSON text''])"

lemma jx_valid: "valid_labels jx_labels"
  by code_simp

lemma jx_wf: "wf_judgment jx_labels jx_judgment"
  by code_simp

lemma jx_caught: "caught (jx_extract name t)"
  by (simp add: jx_extract_def)

lemma jx_object: "validate_jury_object (jury_object jx_judgment) jx_labels = Inr jx_judgment"
  by (rule jury_object_complete [OF jx_valid jx_wf])

lemma jx_accepted: "accepted jx_extract jx_labels jx_entries = [jx_judgment]"
  "refusals jx_extract jx_labels jx_entries = [''judgment must be a mapping or JSON text'']"
  by (simp_all add: accepted_def refusals_def jx_entries_def judge_entry_def jx_object)

lemma jx_aggregate: "aggregate_juries jx_extract (JList jx_entries) jx_labels = Inr jx_result"
proof -
  have "aggregate_juries jx_extract (JList jx_entries) jx_labels
    = Inr (summarize jx_labels (tally_of jx_labels
        (accepted jx_extract jx_labels (jury_entries (JList jx_entries)))
        (refusals jx_extract jx_labels (jury_entries (JList jx_entries)))))"
    by (rule aggregate_closed_form [OF jx_valid]) (rule jx_caught)
  then show ?thesis by (simp add: jury_entries_def jx_accepted jx_result_def)
qed

lemma jx_ballots: "ballots [jx_judgment] = [[''A'', ''B'']]"
  by (simp add: ballots_def jx_judgment_def)

lemma jx_scores:
  "ag_counted jx_result = 1" "ag_valid jx_result = 1"
  "score (ag_points jx_result) ''A'' = 1" "score (ag_points jx_result) ''B'' = 0"
  "score (ag_wins jx_result) ''A'' = 1" "score (ag_wins jx_result) ''B'' = 0"
  by (simp_all add: jx_result_def summary_fields jx_ballots jx_labels_def borda_def firsts_def
      ballot_points_def)

section \<open>The hypotheses can hold\<close>

theorem jury_borda_count_witness:
  "ag_counted jx_result = 1 \<and> dict_get (ag_points jx_result) ''A'' = Some 1
   \<and> dict_get (ag_wins jx_result) ''A'' = Some 1"
proof -
  obtain ag where ag: "aggregate_juries jx_extract (JList jx_entries) jx_labels = Inr ag"
    and "ag_counted ag = int (length (ballots [jx_judgment]))"
    and "\<forall>l\<in>set jx_labels. dict_get (ag_points ag) l = Some (borda (ballots [jx_judgment]) l)
       \<and> dict_get (ag_wins ag) l = Some (firsts (ballots [jx_judgment]) l)"
    using jury_borda_count [of jx_labels jx_extract "JList jx_entries", OF jx_valid jx_caught]
    by (auto simp: jury_entries_def jx_accepted)
  moreover have "ag = jx_result" using ag jx_aggregate by simp
  ultimately show ?thesis
    by (simp add: jx_ballots jx_labels_def borda_def firsts_def ballot_points_def)
qed

theorem jury_outcome_decided_witness:
  "ag_winner jx_result = Some ''A'' \<and> ag_outcome jx_result = ''winner''"
proof -
  have "ag_winner jx_result = Some ''A''" "ag_tie jx_result = (ag_winner jx_result = None)"
    "ag_outcome jx_result = (if ag_tie jx_result then ''tie'' else ''winner'')"
    using jury_outcome_decided [OF jx_aggregate]
    by (simp_all add: jx_scores jx_labels_def beats_def)
  then show ?thesis by simp
qed

theorem jury_anonymous_witness:
  "aggregate_juries jx_extract (JList [JNull, JObj (jury_object jx_judgment)]) [''B'', ''A'']
    = Inr jx_result"
  by (rule jury_anonymous [OF jx_aggregate]) (simp_all add: jx_entries_def jx_labels_def)

theorem jury_ranking_sorted_witness:
  "mset (ag_ranking jx_result) = mset [''A'', ''B'']"
  using jury_ranking_sorted [OF jx_aggregate] by (simp add: jx_labels_def)

theorem jury_unanimous_iff_witness:
  "ag_consensus jx_result = ''unanimous'' \<and> ag_winner jx_result = Some ''A''"
  unfolding jury_unanimous_iff [OF jx_aggregate]
  by (simp add: jury_entries_def jx_accepted jx_ballots)

text \<open>The author of a candidate puts itself first and is not counted for it.\<close>

theorem jury_self_votes_excluded_witness:
  "\<exists>rep. self_vote_report [JObj ((''juror'', JStr ''A'') # jury_object jx_judgment)] jx_labels jx_result = Inr rep
    \<and> xv_winner (sr_excluding rep) = Some ''B'' \<and> sr_changes rep \<and> sr_self_votes rep = [''A'']"
proof -
  have "list_all2 (valid_entry jx_labels) [(JStr ''A'', jury_object jx_judgment)] [jx_judgment]"
    using jx_object by (simp add: valid_entry_def)
  note excluded = jury_self_votes_excluded [OF jx_valid this, of jx_result]
  have votes: "votes_cast [(JStr ''A'', jury_object jx_judgment)] [jx_judgment] = [(JStr ''A'', [''A'', ''B''])]"
    by (simp add: votes_cast_def jx_judgment_def)
  have below: "ranked_below jx_labels ''B'' (JStr ''A'', [''A'', ''B'']) = {}"
    "best_other jx_labels ''B'' (JStr ''A'', [''A'', ''B''])" "\<not> best_other jx_labels ''A'' (JStr ''A'', [''A'', ''B''])"
    by (auto simp: ranked_below_def best_other_def jx_labels_def)
  obtain rep ex where rep: "self_vote_report (juror_entries [(JStr ''A'', jury_object jx_judgment)]) jx_labels jx_result = Inr rep"
      "sr_excluding rep = ex" "dict_get (xv_points ex) ''A'' = Some 0" "dict_get (xv_points ex) ''B'' = Some 0"
      "dict_get (xv_wins ex) ''A'' = Some 0" "dict_get (xv_wins ex) ''B'' = Some 1"
      "xv_winner ex = Some ''B'' \<longleftrightarrow> beats (score (xv_points ex)) (score (xv_wins ex)) ''B'' ''A''"
      "mset (sr_self_votes rep) = {#''A''#}"
      "sr_changes rep = ((ag_winner jx_result, ag_tie jx_result) \<noteq> (xv_winner ex, xv_tie ex))"
    using excluded [unfolded votes] below by (fastforce simp: jx_labels_def)
  then have "xv_winner ex = Some ''B''" by (simp add: beats_def score_def)
  moreover have "ag_winner jx_result = Some ''A''" by code_simp
  ultimately show ?thesis using rep by (auto simp: juror_entries_def)
qed

end
