(* ===== verification/Models.thy ===== *)
theory Models imports Json_Value begin

text \<open>
  The value objects of \<open>models.py\<close> that cross the provider boundary and reach the store: error
  categories, token usage, responses and errors, with their JSON renderings.  Usage counts come
  unvalidated from provider payloads, so they are JSON values.
\<close>

datatype error_category =
    AUTHENTICATION | PERMISSION | RATE_LIMIT | TIMEOUT | CONNECTION | PROVIDER_SERVER
  | INVALID_REQUEST | INVALID_RESPONSE | CONTENT_FILTER | BUDGET | CANCELLED | UNKNOWN

fun category_value :: "error_category \<Rightarrow> string" where
  "category_value AUTHENTICATION = ''authentication''"
| "category_value PERMISSION = ''permission''"
| "category_value RATE_LIMIT = ''rate_limit''"
| "category_value TIMEOUT = ''timeout''"
| "category_value CONNECTION = ''connection''"
| "category_value PROVIDER_SERVER = ''provider_server''"
| "category_value INVALID_REQUEST = ''invalid_request''"
| "category_value INVALID_RESPONSE = ''invalid_response''"
| "category_value CONTENT_FILTER = ''content_filter''"
| "category_value BUDGET = ''budget''"
| "category_value CANCELLED = ''cancelled''"
| "category_value UNKNOWN = ''unknown''"

lemma category_value_inj: "category_value a = category_value b \<longleftrightarrow> a = b"
  by (cases a; cases b) simp_all

definition safe_provider_error_codes :: "string list" where
  "safe_provider_error_codes =
     [''api_error'', ''authentication_error'', ''billing_error'', ''context_length_exceeded'',
      ''content_policy_violation'', ''deadline_exceeded'', ''gateway_timeout'',
      ''insufficient_quota'', ''internal'', ''invalid_api_key'', ''invalid_argument'',
      ''invalid_request_error'', ''missing_required_parameter'', ''model_not_found'', ''not_found'',
      ''not_found_error'', ''overloaded_error'', ''permission_denied'', ''permission_error'',
      ''rate_limit_error'', ''rate_limit_exceeded'', ''request_too_large'',
      ''resource_exhausted'', ''unauthenticated'', ''unavailable'', ''unsupported_parameter'']"

definition safe_provider_error_code :: "json \<Rightarrow> string option" where
  "safe_provider_error_code v = (case v of
     JStr s \<Rightarrow>
       (let n = py_casefold (py_strip s) in
        if n = [] \<or> 64 < length n \<or> n \<notin> set safe_provider_error_codes then None else Some n)
   | _ \<Rightarrow> None)"

lemma safe_code_listed: "safe_provider_error_code v = Some c \<Longrightarrow> c \<in> set safe_provider_error_codes"
  by (auto simp: safe_provider_error_code_def Let_def split: json.splits if_splits)

text \<open>\<open>None\<close> or the value, as JSON.\<close>

definition opt_str :: "string option \<Rightarrow> json" where
  "opt_str x = (case x of None \<Rightarrow> JNull | Some s \<Rightarrow> JStr s)"

definition opt_int :: "int option \<Rightarrow> json" where
  "opt_int x = (case x of None \<Rightarrow> JNull | Some n \<Rightarrow> JInt n)"

definition opt_bool :: "bool option \<Rightarrow> json" where
  "opt_bool x = (case x of None \<Rightarrow> JNull | Some b \<Rightarrow> JBool b)"

lemma opt_inj [simp]:
  "opt_str a = opt_str b \<longleftrightarrow> a = b" "opt_int c = opt_int d \<longleftrightarrow> c = d"
  by (auto simp: opt_str_def opt_int_def split: option.splits)

record usage_counts =
  ug_input :: json
  ug_output :: json
  ug_total :: json
  ug_cached :: json
  ug_reasoning :: json

definition usage_to_dict :: "usage_counts \<Rightarrow> (string \<times> json) list" where
  "usage_to_dict u =
     [(''input_tokens'', ug_input u), (''output_tokens'', ug_output u),
      (''total_tokens'', ug_total u), (''cached_input_tokens'', ug_cached u),
      (''reasoning_tokens'', ug_reasoning u)]"

definition usage_from_dict :: "(string \<times> json) list option \<Rightarrow> usage_counts" where
  "usage_from_dict value =
     (let m = (case value of None \<Rightarrow> [] | Some m \<Rightarrow> m) in
      \<lparr>ug_input = get_or_null m ''input_tokens'', ug_output = get_or_null m ''output_tokens'',
       ug_total = get_or_null m ''total_tokens'', ug_cached = get_or_null m ''cached_input_tokens'',
       ug_reasoning = get_or_null m ''reasoning_tokens''\<rparr>)"

lemma usage_round_trip: "usage_from_dict (Some (usage_to_dict u)) = u"
  by (simp add: usage_from_dict_def usage_to_dict_def get_or_null_def)

record provider_response =
  rs_content :: string
  rs_model :: string
  rs_request :: "string option"
  rs_usage :: usage_counts
  rs_latency :: int
  rs_attempts :: int
  rs_finish :: "string option"
  rs_metadata :: "(string \<times> json) list"

definition response_to_dict :: "provider_response \<Rightarrow> (string \<times> json) list" where
  "response_to_dict r =
     [(''content'', JStr (rs_content r)), (''resolved_model'', JStr (rs_model r)),
      (''request_id'', opt_str (rs_request r)), (''usage'', JObj (usage_to_dict (rs_usage r))),
      (''latency_ms'', JInt (rs_latency r)), (''attempts'', JInt (rs_attempts r)),
      (''finish_reason'', opt_str (rs_finish r)), (''metadata'', JObj (rs_metadata r))]"

record provider_error =
  pe_message :: string
  pe_category :: error_category
  pe_retryable :: bool
  pe_status :: "int option"
  pe_request :: "string option"
  pe_attempts :: int
  pe_ambiguous :: bool
  pe_client_request :: "string option"
  pe_elapsed :: "int option"
  pe_phase :: "string option"
  pe_timeout :: "string option"
  pe_code :: "string option"

text \<open>\<open>ProviderError.__init__\<close> keeps only an allowlisted provider code.\<close>

definition mk_provider_error ::
  "string \<Rightarrow> error_category \<Rightarrow> bool \<Rightarrow> int option \<Rightarrow> string option \<Rightarrow> int \<Rightarrow> bool \<Rightarrow>
   string option \<Rightarrow> int option \<Rightarrow> string option \<Rightarrow> string option \<Rightarrow> json \<Rightarrow> provider_error" where
  "mk_provider_error msg cat retry status req att amb creq elapsed phase tmo code =
     \<lparr>pe_message = msg, pe_category = cat, pe_retryable = retry, pe_status = status,
      pe_request = req, pe_attempts = att, pe_ambiguous = amb, pe_client_request = creq,
      pe_elapsed = elapsed, pe_phase = phase, pe_timeout = tmo,
      pe_code = safe_provider_error_code code\<rparr>"

definition error_to_dict :: "provider_error \<Rightarrow> (string \<times> json) list" where
  "error_to_dict e =
     [(''message'', JStr (pe_message e)), (''category'', JStr (category_value (pe_category e))),
      (''retryable'', JBool (pe_retryable e)), (''status_code'', opt_int (pe_status e)),
      (''request_id'', opt_str (pe_request e)), (''attempts'', JInt (pe_attempts e)),
      (''ambiguous'', JBool (pe_ambiguous e)),
      (''client_request_id'', opt_str (pe_client_request e)),
      (''elapsed_ms'', opt_int (pe_elapsed e)), (''transport_phase'', opt_str (pe_phase e)),
      (''timeout_subtype'', opt_str (pe_timeout e)),
      (''provider_error_code'', opt_str (pe_code e))]"

text \<open>The provider configuration and the run policy, with the per-stage overrides.\<close>

record provider_config =
  cf_name :: string
  cf_model :: string
  cf_lineage :: string
  cf_secret :: string
  cf_endpoint :: string
  cf_max_output :: int
  cf_timeout :: rat
  cf_attempts :: int
  cf_enabled :: bool
  cf_stage_output :: "(string, int) dict"
  cf_stage_timeout :: "(string, rat) dict"
  cf_extra :: "(string \<times> json) list"

definition output_tokens_for :: "provider_config \<Rightarrow> string \<Rightarrow> int" where
  "output_tokens_for c stage =
     (case dict_get (cf_stage_output c) stage of None \<Rightarrow> cf_max_output c | Some n \<Rightarrow> n)"

definition timeout_for :: "provider_config \<Rightarrow> string \<Rightarrow> rat" where
  "timeout_for c stage =
     (case dict_get (cf_stage_timeout c) stage of None \<Rightarrow> cf_timeout c | Some t \<Rightarrow> t)"

record run_policy =
  rp_proposal_quorum :: int
  rp_jury_quorum :: int
  rp_min_lineages :: int
  rp_max_calls :: int
  rp_max_parallel :: int
  rp_deadline :: rat
  rp_allow_partial :: bool
  rp_max_question :: int
  rp_max_prompt :: int
  rp_truncation_retries :: int
  rp_max_recovery_output :: int
  rp_jury_repairs :: int

definition default_policy :: run_policy where
  "default_policy =
     \<lparr>rp_proposal_quorum = 3, rp_jury_quorum = 3, rp_min_lineages = 3, rp_max_calls = 16,
      rp_max_parallel = 5, rp_deadline = 900, rp_allow_partial = True, rp_max_question = 30000,
      rp_max_prompt = 60000, rp_truncation_retries = 1, rp_max_recovery_output = 8192,
      rp_jury_repairs = 0\<rparr>"

end
