(* ===== verification/Council_Types.thy ===== *)
theory Council_Types imports Models Py_Time begin

text \<open>
  The audit store of \<open>store.py\<close>: canonical JSON, the credential screen, and the tables.  A column
  that holds canonical JSON text is kept as the canonical value it encodes, a timestamp as its
  instant.  SHA-256 of a text is the argument \<open>sha\<close>, SHA-256 of the canonical text of a JSON value
  the argument \<open>shaj\<close>; what \<open>urlsplit\<close> and \<open>parse_qsl\<close> make of an endpoint (does it carry user
  information, and its query keys) is the argument \<open>url\<close>; clock readings and fresh UUIDs are
  arguments of the operations.
\<close>

section \<open>The credential screen\<close>

definition normalized_key :: "string \<Rightarrow> string" where
  "normalized_key s = map (\<lambda>c. if c = CHR ''-'' \<or> c = CHR '' '' then CHR ''_'' else c)
     (map py_lower_char (py_strip s))"

definition raw_credential_keys :: "string list" where
  "raw_credential_keys =
     [''api_key'', ''apikey'', ''access_token'', ''refresh_token'', ''bws_access_token'',
      ''authorization'', ''proxy_authorization'', ''password'', ''passwd'', ''client_secret'',
      ''private_key'', ''secret'', ''secret_value'', ''credential'', ''credentials'', ''bearer'',
      ''bearer_token'']"

definition credential_query_keys :: "string list" where
  "credential_query_keys =
     [''key'', ''api_key'', ''apikey'', ''access_token'', ''token'', ''password'', ''client_secret'']"

definition assert_endpoint_clean ::
  "(string \<Rightarrow> bool \<times> string list) \<Rightarrow> string \<Rightarrow> string \<Rightarrow> unit result" where
  "assert_endpoint_clean url endpoint path =
     (case url endpoint of (userinfo, query_keys) \<Rightarrow>
        require (\<not> userinfo) (ValueError (''raw credentials are forbidden at '' @ path))
       (require (\<not> list_ex (\<lambda>k. normalized_key k \<in> set credential_query_keys) query_keys)
          (ValueError (''credential-bearing endpoint is forbidden at '' @ path)) (Inr ())))"

fun assert_no_credentials ::
      "(string \<Rightarrow> bool \<times> string list) \<Rightarrow> string \<Rightarrow> json \<Rightarrow> unit result"
and assert_items_clean ::
      "(string \<Rightarrow> bool \<times> string list) \<Rightarrow> string \<Rightarrow> (string \<times> json) list \<Rightarrow> unit result"
and assert_elements_clean ::
      "(string \<Rightarrow> bool \<times> string list) \<Rightarrow> string \<Rightarrow> nat \<Rightarrow> json list \<Rightarrow> unit result" where
  "assert_no_credentials url path (JObj m) = assert_items_clean url path m"
| "assert_no_credentials url path (JList xs) = assert_elements_clean url path 0 xs"
| "assert_no_credentials url path _ = Inr ()"
| "assert_items_clean url path [] = Inr ()"
| "assert_items_clean url path ((k, v) # rest) =
     (let child = path @ ''.'' @ k in
      require (normalized_key k \<notin> set raw_credential_keys)
        (ValueError (''raw credential field is forbidden at '' @ child))
      (rbind (if normalized_key k = ''endpoint'' \<and> is_str v
              then assert_endpoint_clean url (str_of v) child else Inr ()) (\<lambda>_.
       rbind (assert_no_credentials url child v) (\<lambda>_. assert_items_clean url path rest))))"
| "assert_elements_clean url path i [] = Inr ()"
| "assert_elements_clean url path i (x # xs) =
     rbind (assert_no_credentials url (path @ ''['' @ decimal_text i @ '']'') x) (\<lambda>_.
       assert_elements_clean url path (i + 1) xs)"

definition required_text :: "string \<Rightarrow> json \<Rightarrow> string result" where
  "required_text name v = (case v of
     JStr s \<Rightarrow> require (nonblank s) (ValueError (name @ '' must be a non-empty string'')) (Inr s)
   | _ \<Rightarrow> Inl (ValueError (name @ '' must be a non-empty string'')))"

section \<open>Tables\<close>

type_synonym sha = string

record run_row =
  ru_id :: string
  ru_created :: instant
  ru_updated :: instant
  ru_finished :: "instant option"
  ru_status :: string
  ru_question :: string
  ru_question_sha :: sha
  ru_protocol :: string
  ru_version :: string
  ru_protocol_hash :: string
  ru_configs :: json
  ru_policy :: json
  ru_request_sha :: sha
  ru_key :: "string option"
  ru_result :: "json option"
  ru_result_sha :: "sha option"
  ru_error :: "json option"

datatype slot_status = RUNNING | SUCCEEDED | FAILED

text \<open>The columns of an invocation that a call fills in.\<close>

record call_outcome =
  oc_text :: "string option"
  oc_text_sha :: "sha option"
  oc_response :: "json option"
  oc_model :: "string option"
  oc_request :: "string option"
  oc_usage :: "json option"
  oc_latency :: "int option"
  oc_attempts :: "int option"
  oc_finish :: "string option"
  oc_metadata :: "json option"
  oc_category :: "string option"
  oc_message :: "string option"
  oc_retryable :: "bool option"
  oc_status :: "int option"
  oc_ambiguous :: "bool option"
  oc_error :: "json option"

definition no_outcome :: call_outcome where
  "no_outcome = \<lparr>oc_text = None, oc_text_sha = None, oc_response = None, oc_model = None,
     oc_request = None, oc_usage = None, oc_latency = None, oc_attempts = None, oc_finish = None,
     oc_metadata = None, oc_category = None, oc_message = None, oc_retryable = None,
     oc_status = None, oc_ambiguous = None, oc_error = None\<rparr>"

record invocation =
  iv_id :: string
  iv_run :: string
  iv_stage :: string
  iv_provider :: string
  iv_model :: string
  iv_lineage :: string
  iv_status :: slot_status
  iv_prompt :: string
  iv_prompt_sha :: sha
  iv_outcome :: call_outcome
  iv_calls :: int
  iv_started :: instant
  iv_updated :: instant
  iv_finished :: "instant option"

record event_row =
  ev_id :: nat
  ev_run :: string
  ev_type :: string
  ev_payload :: json
  ev_sha :: sha
  ev_created :: instant

record decision_row =
  hd_id :: nat
  hd_run :: string
  hd_decision :: string
  hd_note :: string
  hd_aggregate_outcome :: json
  hd_aggregate_winner :: json
  hd_result_sha :: sha
  hd_previous :: "sha option"
  hd_record :: json
  hd_sha :: sha
  hd_decided :: instant

record approval_row =
  ap_token :: sha
  ap_plan :: string
  ap_by :: string
  ap_max :: int
  ap_at :: instant
  ap_consumed :: "instant option"
  ap_run :: "string option"

record agent_request =
  gr_id :: string
  gr_payload :: sha
  gr_run :: string
  gr_created :: instant

record council_db =
  cd_runs :: "run_row list"
  cd_slots :: "invocation list"
  cd_events :: "event_row list"
  cd_next_event :: nat
  cd_decisions :: "decision_row list"
  cd_next_decision :: nat
  cd_approvals :: "approval_row list"
  cd_requests :: "agent_request list"

definition empty_council_db :: council_db where
  "empty_council_db = \<lparr>cd_runs = [], cd_slots = [], cd_events = [], cd_next_event = 1,
     cd_decisions = [], cd_next_decision = 1, cd_approvals = [], cd_requests = []\<rparr>"

definition find_run_row :: "council_db \<Rightarrow> string \<Rightarrow> run_row option" where
  "find_run_row db rid = row_where (\<lambda>r. ru_id r = rid) (cd_runs db)"

definition find_slot :: "council_db \<Rightarrow> string \<Rightarrow> invocation option" where
  "find_slot db i = row_where (\<lambda>r. iv_id r = i) (cd_slots db)"

definition slot_at :: "council_db \<Rightarrow> string \<Rightarrow> string \<Rightarrow> string \<Rightarrow> invocation option" where
  "slot_at db run stage prov =
     row_where (\<lambda>r. iv_run r = run \<and> iv_stage r = stage \<and> iv_provider r = prov) (cd_slots db)"

definition find_approval :: "council_db \<Rightarrow> sha \<Rightarrow> approval_row option" where
  "find_approval db t = row_where (\<lambda>r. ap_token r = t) (cd_approvals db)"

text \<open>\<open>INSERT INTO events\<close> with \<open>AUTOINCREMENT\<close>: identifiers are never reused.\<close>

definition add_event ::
  "(json \<Rightarrow> sha) \<Rightarrow> string \<Rightarrow> string \<Rightarrow> json \<Rightarrow> instant \<Rightarrow> council_db \<Rightarrow> council_db" where
  "add_event shaj run typ payload now db =
     db\<lparr>cd_events := cd_events db @ [\<lparr>ev_id = cd_next_event db, ev_run = run, ev_type = typ,
          ev_payload = canon payload, ev_sha = shaj (canon payload), ev_created = now\<rparr>],
        cd_next_event := cd_next_event db + 1\<rparr>"

end
