(* ===== verification/Council_Store.thy ===== *)
theory Council_Store imports Council_Types begin

text \<open>
  The operations of \<open>CouncilStore\<close>.  Each one that writes is one transaction: an exception leaves the
  database as it was.
\<close>

section \<open>Runs\<close>

definition request_value ::
  "string \<Rightarrow> string \<Rightarrow> string \<Rightarrow> string \<Rightarrow> json \<Rightarrow> json \<Rightarrow> json" where
  "request_value question pid pver phash configs policy =
     JObj [(''question'', JStr question), (''protocol_id'', JStr pid),
       (''protocol_version'', JStr pver), (''protocol_hash'', JStr phash),
       (''provider_configs'', configs), (''policy'', policy)]"

text \<open>The transaction of \<open>create_run\<close>.\<close>

definition create_run_body ::
  "(string \<Rightarrow> sha) \<Rightarrow> string \<Rightarrow> string \<Rightarrow> string \<Rightarrow> string \<Rightarrow> json \<Rightarrow> json \<Rightarrow> sha \<Rightarrow> string option \<Rightarrow>
   bool \<Rightarrow> string \<Rightarrow> instant \<Rightarrow> council_db \<Rightarrow> (string \<times> council_db) result" where
  "create_run_body sha question pid pver phash configs policy req key explicit rid now db =
     (case find_run_row db rid of
        Some ex \<Rightarrow>
          if ru_request_sha ex \<noteq> req
            then Inl (ValueError ''run_id was already used for another request'')
          else Inr (ru_id ex, db)
      | None \<Rightarrow>
          (case (if key = None then None else row_where (\<lambda>r. ru_key r = key) (cd_runs db)) of
             Some ex \<Rightarrow>
               if ru_request_sha ex \<noteq> req
                 then Inl (ValueError ''idempotency key was already used for another request'')
               else if explicit \<and> ru_id ex \<noteq> rid
                 then Inl (ValueError ''idempotency key is already bound to another run_id'')
               else Inr (ru_id ex, db)
           | None \<Rightarrow>
               Inr (rid, db\<lparr>cd_runs := cd_runs db @
                 [\<lparr>ru_id = rid, ru_created = now, ru_updated = now, ru_finished = None,
                   ru_status = ''created'', ru_question = question,
                   ru_question_sha = sha question, ru_protocol = pid, ru_version = pver,
                   ru_protocol_hash = phash, ru_configs = configs, ru_policy = policy,
                   ru_request_sha = req, ru_key = key, ru_result = None, ru_result_sha = None,
                   ru_error = None\<rparr>]\<rparr>)))"

definition create_run ::
  "(string \<Rightarrow> sha) \<Rightarrow> (json \<Rightarrow> sha) \<Rightarrow> (string \<Rightarrow> bool \<times> string list) \<Rightarrow> json \<Rightarrow> json \<Rightarrow> json \<Rightarrow> json \<Rightarrow>
   json \<Rightarrow> json \<Rightarrow> json option \<Rightarrow> json option \<Rightarrow> string \<Rightarrow> instant \<Rightarrow> council_db \<Rightarrow>
   string result \<times> council_db" where
  "create_run sha shaj url question pid pver phash configs policy key run_id uuid now db0 =
     (case
        rbind (required_text ''question'' question) (\<lambda>q.
        rbind (required_text ''protocol_id'' pid) (\<lambda>p.
        rbind (required_text ''protocol_version'' pver) (\<lambda>v.
        rbind (required_text ''protocol_hash'' phash) (\<lambda>h.
          require (case configs of JList _ \<Rightarrow> True | _ \<Rightarrow> False)
            (TypeError ''provider_configs must be a list'')
         (require (case policy of JObj _ \<Rightarrow> True | _ \<Rightarrow> False)
            (TypeError ''policy must be a dict-like model'')
         (rbind (assert_no_credentials url ''$.provider_configs'' configs) (\<lambda>_.
          rbind (assert_no_credentials url ''$.policy'' policy) (\<lambda>_.
          rbind (case key of None \<Rightarrow> Inr None
                 | Some k \<Rightarrow> rbind (required_text ''idempotency_key'' k) (\<lambda>t. Inr (Some t))) (\<lambda>k.
          rbind (case run_id of None \<Rightarrow> Inr uuid
                 | Some r \<Rightarrow> required_text ''run_id'' r) (\<lambda>rid.
            Inr (q, p, v, h, k, rid))))))))))) of
        Inl e \<Rightarrow> (Inl e, db0)
      | Inr (q, p, v, h, k, rid) \<Rightarrow>
          write_txn (create_run_body sha q p v h (canon configs) (canon policy)
            (shaj (canon (request_value q p v h configs policy))) k (run_id \<noteq> None) rid now) db0)"

definition get_run :: "council_db \<Rightarrow> string \<Rightarrow> run_row option" where
  "get_run db rid = find_run_row db rid"

definition list_runs :: "council_db \<Rightarrow> int option \<Rightarrow> run_row list result" where
  "list_runs db limit =
     (let rows = rev (sort_key (\<lambda>r. (ru_created r, ru_id r)) (cd_runs db)) in
      case limit of
        None \<Rightarrow> Inr rows
      | Some n \<Rightarrow> require (1 \<le> n) (ValueError ''limit must be a positive integer'')
                   (Inr (take (nat n) rows)))"

text \<open>What \<open>_error_value\<close> is given: nothing, a provider error, a dict, an exception (its type
  name and text) or the text of anything else.\<close>

datatype error_arg =
    NoError
  | ErrProvider provider_error
  | ErrDict "(string \<times> json) list"
  | ErrException string string
  | ErrOther string

fun error_value :: "error_arg \<Rightarrow> json option" where
  "error_value NoError = None"
| "error_value (ErrProvider e) = Some (JObj (error_to_dict e))"
| "error_value (ErrDict m) = Some (JObj m)"
| "error_value (ErrException typ msg) = Some (JObj [(''message'', JStr msg), (''type'', JStr typ)])"
| "error_value (ErrOther msg) = Some (JObj [(''message'', JStr msg)])"

definition terminal_run_statuses :: "string list" where
  "terminal_run_statuses = [''succeeded'', ''completed'', ''partial'', ''failed'', ''cancelled'']"

text \<open>\<open>UPDATE runs ... WHERE id = ?\<close> followed by the row count check.\<close>

definition update_run ::
  "string \<Rightarrow> (run_row \<Rightarrow> run_row) \<Rightarrow> council_db \<Rightarrow> council_db result" where
  "update_run rid f db =
     (if count_where (\<lambda>r. ru_id r = rid) (cd_runs db) \<noteq> 1
        then Inl (KeyError (''unknown run: '' @ rid))
      else Inr (db\<lparr>cd_runs := update_where (\<lambda>r. ru_id r = rid) f (cd_runs db)\<rparr>))"

definition set_run_status ::
  "(string \<Rightarrow> bool \<times> string list) \<Rightarrow> string \<Rightarrow> json \<Rightarrow> error_arg \<Rightarrow> instant \<Rightarrow> council_db \<Rightarrow>
   unit result \<times> council_db" where
  "set_run_status url rid status err now db0 =
     (case rbind (required_text ''status'' status) (\<lambda>s.
           rbind (case error_value err of None \<Rightarrow> Inr ()
                  | Some v \<Rightarrow> assert_no_credentials url ''$.error'' v) (\<lambda>_. Inr s)) of
        Inl e \<Rightarrow> (Inl e, db0)
      | Inr s \<Rightarrow>
          write_txn (\<lambda>db. rbind (update_run rid (\<lambda>r. r\<lparr>ru_status := s,
              ru_error := map_option canon (error_value err), ru_updated := now,
              ru_finished := (if s \<in> set terminal_run_statuses then Some now else None)\<rparr>) db)
            (\<lambda>db'. Inr ((), db'))) db0)"

definition save_result ::
  "(json \<Rightarrow> sha) \<Rightarrow> (string \<Rightarrow> bool \<times> string list) \<Rightarrow> string \<Rightarrow> json \<Rightarrow> instant \<Rightarrow> council_db \<Rightarrow>
   unit result \<times> council_db" where
  "save_result shaj url rid result now db0 =
     (case assert_no_credentials url ''$.result'' result of
        Inl e \<Rightarrow> (Inl e, db0)
      | Inr _ \<Rightarrow>
          write_txn (\<lambda>db. rbind (update_run rid (\<lambda>r. r\<lparr>ru_result := Some (canon result),
              ru_result_sha := Some (shaj (canon result)), ru_updated := now\<rparr>) db)
            (\<lambda>db'. Inr ((), db'))) db0)"

text \<open>\<open>len(value or [])\<close>.\<close>

definition length_or_zero :: "json \<Rightarrow> int result" where
  "length_or_zero v =
     (if \<not> truthy v then Inr 0
      else (case v of
        JList xs \<Rightarrow> Inr (int (length xs)) | JStr s \<Rightarrow> Inr (int (length s))
      | JObj m \<Rightarrow> Inr (int (length m)) | _ \<Rightarrow> Inl (TypeError ''object has no len()'')))"

text \<open>The checks of \<open>finish_run\<close>; the status and the number of failures.\<close>

definition terminal_result ::
  "(string \<Rightarrow> bool \<times> string list) \<Rightarrow> json \<Rightarrow> (string \<times> int) result" where
  "terminal_result url result = (case result of
     JObj m \<Rightarrow>
       rbind (required_text ''result.status'' (get_or_null m ''status'')) (\<lambda>s.
         require (s \<in> set terminal_run_statuses) (ValueError ''result status must be terminal'')
        (rbind (assert_no_credentials url ''$.result'' result) (\<lambda>_.
         rbind (length_or_zero (get_or_null m ''failures'')) (\<lambda>n. Inr (s, n)))))
   | _ \<Rightarrow> Inl (TypeError ''terminal result must be an object''))"

definition finish_run ::
  "(json \<Rightarrow> sha) \<Rightarrow> (string \<Rightarrow> bool \<times> string list) \<Rightarrow> string \<Rightarrow> json \<Rightarrow> instant \<Rightarrow> council_db \<Rightarrow>
   unit result \<times> council_db" where
  "finish_run shaj url rid result now db0 =
     (case terminal_result url result of
        Inl e \<Rightarrow> (Inl e, db0)
      | Inr (s, n) \<Rightarrow>
          write_txn (\<lambda>db. rbind (update_run rid (\<lambda>r. r\<lparr>ru_result := Some (canon result),
              ru_result_sha := Some (shaj (canon result)), ru_status := s, ru_error := None,
              ru_updated := now, ru_finished := Some now\<rparr>) db)
            (\<lambda>db'. Inr ((), add_event shaj rid ''run_finished''
               (JObj [(''status'', JStr s), (''failure_count'', JInt n)]) now db'))) db0)"

section \<open>Events\<close>

definition append_event ::
  "(json \<Rightarrow> sha) \<Rightarrow> (string \<Rightarrow> bool \<times> string list) \<Rightarrow> string \<Rightarrow> json \<Rightarrow> json \<Rightarrow> instant \<Rightarrow> council_db \<Rightarrow>
   nat result \<times> council_db" where
  "append_event shaj url rid typ payload now db0 =
     (case rbind (required_text ''event_type'' typ) (\<lambda>t.
             require (case payload of JObj _ \<Rightarrow> True | _ \<Rightarrow> False)
               (TypeError ''event payload must be a dict'')
            (rbind (assert_no_credentials url ''$.event'' payload) (\<lambda>_. Inr t))) of
        Inl e \<Rightarrow> (Inl e, db0)
      | Inr t \<Rightarrow>
          write_txn (\<lambda>db.
            if find_run_row db rid = None then Inl (KeyError (''unknown run: '' @ rid))
            else Inr (cd_next_event db, add_event shaj rid t payload now db)) db0)"

definition list_events :: "council_db \<Rightarrow> string \<Rightarrow> event_row list" where
  "list_events db rid = sort_key ev_id (rows_where (\<lambda>e. ev_run e = rid) (cd_events db))"

section \<open>Invocations\<close>

text \<open>\<open>str(prior_failure.get("message") or "")\<close>; the message of a recorded error is a text.\<close>

definition message_text :: "json \<Rightarrow> string" where
  "message_text v = (case v of
     JObj m \<Rightarrow> (case get_or_null m ''message'' of JStr s \<Rightarrow> s | _ \<Rightarrow> []) | _ \<Rightarrow> [])"

definition ends_with :: "string \<Rightarrow> string \<Rightarrow> bool" where
  "ends_with s suffix \<longleftrightarrow>
     length suffix \<le> length s \<and> drop (length s - length suffix) s = suffix"

definition truthy_bool :: "bool option \<Rightarrow> bool" where
  "truthy_bool x = (case x of None \<Rightarrow> False | Some b \<Rightarrow> b)"

text \<open>The failure on record, rebuilt from the columns when the row has no error JSON.\<close>

definition recorded_failure :: "call_outcome \<Rightarrow> json" where
  "recorded_failure oc = (case oc_error oc of
     Some v \<Rightarrow> v
   | None \<Rightarrow> JObj [(''message'', opt_str (oc_message oc)), (''category'', opt_str (oc_category oc)),
       (''retryable'', JBool (truthy_bool (oc_retryable oc))),
       (''status_code'', opt_int (oc_status oc)), (''request_id'', opt_str (oc_request oc)),
       (''attempts'', opt_int (oc_attempts oc)),
       (''ambiguous'', JBool (truthy_bool (oc_ambiguous oc)))])"

definition retry_event :: "invocation \<Rightarrow> json" where
  "retry_event ex =
     (let prior = recorded_failure (iv_outcome ex) in
      JObj [(''stage'', JStr (iv_stage ex)), (''provider'', JStr (iv_provider ex)),
        (''retry_call_count'', JInt (iv_calls ex + 1)),
        (''retry_kind'', JStr (if ends_with (message_text prior) ''(finish_reason=length)''
                              then ''truncation'' else ''application'')),
        (''prior_failure'', prior)])"

definition restart_slot :: "instant \<Rightarrow> invocation \<Rightarrow> invocation" where
  "restart_slot now r = r\<lparr>iv_status := RUNNING, iv_outcome := no_outcome, iv_calls := iv_calls r + 1,
     iv_started := now, iv_updated := now, iv_finished := None\<rparr>"

definition new_slot ::
  "string \<Rightarrow> string \<Rightarrow> string \<Rightarrow> string \<Rightarrow> string \<Rightarrow> string \<Rightarrow> string \<Rightarrow> sha \<Rightarrow> instant \<Rightarrow> invocation" where
  "new_slot uuid run stage prov model lineage prompt psha now =
     \<lparr>iv_id = uuid, iv_run = run, iv_stage = stage, iv_provider = prov, iv_model = model,
      iv_lineage = lineage, iv_status = RUNNING, iv_prompt = prompt, iv_prompt_sha = psha,
      iv_outcome = no_outcome, iv_calls = 1, iv_started = now, iv_updated = now,
      iv_finished = None\<rparr>"

definition start_invocation_body ::
  "(json \<Rightarrow> sha) \<Rightarrow> string \<Rightarrow> string \<Rightarrow> string \<Rightarrow> string \<Rightarrow> string \<Rightarrow> string \<Rightarrow> sha \<Rightarrow> string \<Rightarrow>
   instant \<Rightarrow> council_db \<Rightarrow> (string \<times> council_db) result" where
  "start_invocation_body shaj run stage prov model lineage prompt psha uuid now db =
     (if find_run_row db run = None then Inl (KeyError (''unknown run: '' @ run))
      else (case slot_at db run stage prov of
        Some ex \<Rightarrow>
          if iv_model ex \<noteq> model \<or> iv_lineage ex \<noteq> lineage \<or> iv_prompt_sha ex \<noteq> psha
            then Inl (ValueError ''stage/provider invocation already exists with different input'')
          else if iv_status ex = RUNNING \<or> iv_status ex = SUCCEEDED then Inr (iv_id ex, db)
          else
            (let db1 = add_event shaj run ''provider_retry_started'' (retry_event ex) now db in
             Inr (iv_id ex, db1\<lparr>cd_slots :=
               update_where (\<lambda>r. iv_id r = iv_id ex) (restart_slot now) (cd_slots db1)\<rparr>))
      | None \<Rightarrow>
          if find_slot db uuid \<noteq> None then Inl (IntegrityError ''UNIQUE constraint failed'')
          else Inr (uuid, db\<lparr>cd_slots := cd_slots db @
                 [new_slot uuid run stage prov model lineage prompt psha now]\<rparr>)))"

definition start_invocation ::
  "(string \<Rightarrow> sha) \<Rightarrow> (json \<Rightarrow> sha) \<Rightarrow> string \<Rightarrow> json \<Rightarrow> json \<Rightarrow> json \<Rightarrow> json \<Rightarrow> json \<Rightarrow> string \<Rightarrow>
   instant \<Rightarrow> council_db \<Rightarrow> string result \<times> council_db" where
  "start_invocation sha shaj run stage prov model lineage prompt uuid now db0 =
     (case rbind (required_text ''stage'' stage) (\<lambda>s.
           rbind (required_text ''provider'' prov) (\<lambda>p.
           rbind (required_text ''model'' model) (\<lambda>m.
           rbind (required_text ''lineage'' lineage) (\<lambda>l.
           rbind (required_text ''prompt'' prompt) (\<lambda>t. Inr (s, p, m, l, t)))))) of
        Inl e \<Rightarrow> (Inl e, db0)
      | Inr (s, p, m, l, t) \<Rightarrow>
          write_txn (start_invocation_body shaj run s p m l t (sha t) uuid now) db0)"

definition success_outcome :: "(string \<Rightarrow> sha) \<Rightarrow> provider_response \<Rightarrow> call_outcome" where
  "success_outcome sha r = no_outcome\<lparr>oc_text := Some (rs_content r),
     oc_text_sha := Some (sha (rs_content r)),
     oc_response := Some (canon (JObj (response_to_dict r))), oc_model := Some (rs_model r),
     oc_request := rs_request r, oc_usage := Some (canon (JObj (usage_to_dict (rs_usage r)))),
     oc_latency := Some (rs_latency r), oc_attempts := Some (rs_attempts r),
     oc_finish := rs_finish r, oc_metadata := Some (canon (JObj (rs_metadata r)))\<rparr>"

definition finish_invocation_success ::
  "(string \<Rightarrow> sha) \<Rightarrow> (string \<Rightarrow> bool \<times> string list) \<Rightarrow> string \<Rightarrow> provider_response \<Rightarrow> instant \<Rightarrow>
   council_db \<Rightarrow> unit result \<times> council_db" where
  "finish_invocation_success sha url slot r now db0 =
     (case assert_no_credentials url ''$.response.metadata'' (JObj (rs_metadata r)) of
        Inl e \<Rightarrow> (Inl e, db0)
      | Inr _ \<Rightarrow>
          write_txn (\<lambda>db. case find_slot db slot of
            None \<Rightarrow> Inl (KeyError (''unknown invocation: '' @ slot))
          | Some row \<Rightarrow>
              if iv_status row = SUCCEEDED then
                (if oc_response (iv_outcome row) \<noteq> Some (canon (JObj (response_to_dict r)))
                 then Inl (ValueError ''invocation already has a different successful response'')
                 else Inr ((), db))
              else if iv_status row \<noteq> RUNNING
                then Inl (RuntimeError ''failed invocation must be restarted before success'')
              else Inr ((), db\<lparr>cd_slots := update_where (\<lambda>x. iv_id x = slot)
                (\<lambda>x. x\<lparr>iv_status := SUCCEEDED, iv_outcome := success_outcome sha r,
                      iv_updated := now, iv_finished := Some now\<rparr>) (cd_slots db)\<rparr>)) db0)"

definition failure_outcome :: "provider_error \<Rightarrow> call_outcome" where
  "failure_outcome e = no_outcome\<lparr>oc_request := pe_request e, oc_attempts := Some (pe_attempts e),
     oc_category := Some (category_value (pe_category e)), oc_message := Some (pe_message e),
     oc_retryable := Some (pe_retryable e), oc_status := pe_status e,
     oc_ambiguous := Some (pe_ambiguous e), oc_error := Some (canon (JObj (error_to_dict e)))\<rparr>"

definition finish_invocation_failure ::
  "(string \<Rightarrow> bool \<times> string list) \<Rightarrow> string \<Rightarrow> provider_error \<Rightarrow> instant \<Rightarrow>
   council_db \<Rightarrow> unit result \<times> council_db" where
  "finish_invocation_failure url slot e now db0 =
     (case assert_no_credentials url ''$.provider_error'' (JObj (error_to_dict e)) of
        Inl er \<Rightarrow> (Inl er, db0)
      | Inr _ \<Rightarrow>
          write_txn (\<lambda>db. case find_slot db slot of
            None \<Rightarrow> Inl (KeyError (''unknown invocation: '' @ slot))
          | Some row \<Rightarrow>
              if iv_status row = FAILED then
                (if oc_error (iv_outcome row) \<noteq> Some (canon (JObj (error_to_dict e)))
                 then Inl (ValueError ''invocation already has a different failure'')
                 else Inr ((), db))
              else if iv_status row \<noteq> RUNNING
                then Inl (RuntimeError ''successful invocation cannot be overwritten by failure'')
              else Inr ((), db\<lparr>cd_slots := update_where (\<lambda>x. iv_id x = slot)
                (\<lambda>x. x\<lparr>iv_status := FAILED, iv_outcome := failure_outcome e,
                      iv_updated := now, iv_finished := Some now\<rparr>) (cd_slots db)\<rparr>)) db0)"

section \<open>Releasing a call that was never dispatched\<close>

text \<open>\<open>prior\<close> is the slot as \<open>get_invocation\<close> returned it before the restart.  The checks that the
  Python code makes on the types of its fields are the types of the record.\<close>

definition same_slot :: "invocation \<Rightarrow> invocation \<Rightarrow> bool" where
  "same_slot p r \<longleftrightarrow> iv_id p = iv_id r \<and> iv_run p = iv_run r \<and> iv_stage p = iv_stage r
     \<and> iv_provider p = iv_provider r \<and> iv_model p = iv_model r \<and> iv_lineage p = iv_lineage r
     \<and> iv_prompt p = iv_prompt r \<and> iv_prompt_sha p = iv_prompt_sha r"

definition failure_consistent :: "call_outcome \<Rightarrow> (string \<times> json) list \<Rightarrow> bool" where
  "failure_consistent oc f \<longleftrightarrow>
     oc_ambiguous oc = Some False \<and> get_or_null f ''ambiguous'' = JBool False
     \<and> opt_str (oc_message oc) = get_or_null f ''message''
     \<and> opt_str (oc_category oc) = get_or_null f ''category''
     \<and> opt_bool (oc_retryable oc) = get_or_null f ''retryable''
     \<and> opt_int (oc_status oc) = get_or_null f ''status_code''
     \<and> opt_str (oc_request oc) = get_or_null f ''request_id''
     \<and> opt_int (oc_attempts oc) = get_or_null f ''attempts''"

definition retry_matches :: "invocation \<Rightarrow> event_row \<Rightarrow> bool" where
  "retry_matches r e \<longleftrightarrow> ev_run e = iv_run r \<and> ev_type e = ''provider_retry_started'' \<and>
     (case ev_payload e of
        JObj m \<Rightarrow> get_or_null m ''stage'' = JStr (iv_stage r)
          \<and> get_or_null m ''provider'' = JStr (iv_provider r)
          \<and> get_or_null m ''retry_call_count'' = JInt (iv_calls r)
      | _ \<Rightarrow> False)"

text \<open>The audit trail of a retry: the identifier of its event, its kind and the prior failure.\<close>

definition retry_audit ::
  "(string \<Rightarrow> bool \<times> string list) \<Rightarrow> council_db \<Rightarrow> invocation \<Rightarrow> invocation \<Rightarrow>
   (nat \<times> json \<times> json) result" where
  "retry_audit url db row prior =
     require (same_slot prior row) (ValueError ''prior invocation does not match the running slot'')
    (require (iv_status prior = FAILED \<and> 1 \<le> iv_calls prior \<and> iv_calls prior + 1 = iv_calls row)
       (ValueError ''prior invocation is not the immediately preceding failed state'')
    (case oc_error (iv_outcome prior) of
       Some (JObj f) \<Rightarrow>
         rbind (assert_no_credentials url ''$.prior_failure'' (JObj f)) (\<lambda>_.
           require (failure_consistent (iv_outcome prior) f)
             (ValueError ''prior invocation failure fields are inconsistent'')
          (case sort_key ev_id (rows_where (retry_matches row) (cd_events db)) of
             [e] \<Rightarrow>
               (case ev_payload e of
                  JObj m \<Rightarrow>
                    require (canon (get_or_null m ''prior_failure'') = canon (JObj f))
                      (ValueError ''retry audit does not match the prior invocation'')
                   (require (case get_or_null m ''retry_kind'' of
                        JList _ \<Rightarrow> False | JObj _ \<Rightarrow> False | _ \<Rightarrow> True)
                      (TypeError (unhashable (case get_or_null m ''retry_kind'' of
                        JList _ \<Rightarrow> ''list'' | _ \<Rightarrow> ''dict'')))
                   (require (get_or_null m ''retry_kind'' \<in> {JStr ''application'', JStr ''truncation''})
                      (ValueError ''retry audit kind is invalid'')
                      (Inr (ev_id e, get_or_null m ''retry_kind'', JObj f))))
                | _ \<Rightarrow> Inl (RuntimeError ''undispatched retry has no unique retry audit event''))
           | _ \<Rightarrow> Inl (RuntimeError ''undispatched retry has no unique retry audit event'')))
     | _ \<Rightarrow> Inl (ValueError ''prior invocation failure is malformed'')))"

definition undispatched_event ::
  "invocation \<Rightarrow> int \<Rightarrow> int \<Rightarrow> json \<Rightarrow> json \<Rightarrow> provider_error \<Rightarrow> json" where
  "undispatched_event row attempt restored kind prior e =
     JObj [(''version'', JInt 1), (''invocation_id'', JStr (iv_id row)),
       (''stage'', JStr (iv_stage row)), (''provider'', JStr (iv_provider row)),
       (''model'', JStr (iv_model row)), (''lineage'', JStr (iv_lineage row)),
       (''prompt_sha256'', JStr (iv_prompt_sha row)), (''reservation_attempt'', JInt attempt),
       (''attempted_call_count'', JInt (iv_calls row)), (''restored_call_count'', JInt restored),
       (''retry_kind'', kind), (''prior_failure'', prior),
       (''error'', JObj (error_to_dict e))]"

text \<open>The columns the restoring \<open>UPDATE\<close> writes.\<close>

definition keep_truthy :: "json option \<Rightarrow> json option" where
  "keep_truthy x = (case x of None \<Rightarrow> None | Some v \<Rightarrow> if truthy v then Some (canon v) else None)"

definition restored_outcome :: "call_outcome \<Rightarrow> json \<Rightarrow> call_outcome" where
  "restored_outcome oc prior = oc\<lparr>oc_response := map_option canon (oc_response oc),
     oc_usage := keep_truthy (oc_usage oc), oc_metadata := keep_truthy (oc_metadata oc),
     oc_retryable := Some (truthy_bool (oc_retryable oc)),
     oc_ambiguous := Some (truthy_bool (oc_ambiguous oc)), oc_error := Some (canon prior)\<rparr>"

definition restore_slot :: "invocation \<Rightarrow> json \<Rightarrow> invocation \<Rightarrow> invocation" where
  "restore_slot prior failure r = r\<lparr>iv_status := FAILED,
     iv_outcome := restored_outcome (iv_outcome prior) failure, iv_calls := iv_calls prior,
     iv_started := iv_started prior, iv_updated := iv_updated prior,
     iv_finished := iv_finished prior\<rparr>"

definition release_body ::
  "(json \<Rightarrow> sha) \<Rightarrow> (string \<Rightarrow> bool \<times> string list) \<Rightarrow> string \<Rightarrow> provider_error \<Rightarrow> int \<Rightarrow>
   invocation option \<Rightarrow> instant \<Rightarrow> council_db \<Rightarrow> (unit \<times> council_db) result" where
  "release_body shaj url slot e attempt prior now db =
     (case find_slot db slot of
        None \<Rightarrow> Inl (KeyError (''unknown invocation: '' @ slot))
      | Some row \<Rightarrow>
          require (iv_status row = RUNNING)
            (RuntimeError ''only a running invocation can be released as undispatched'')
         (require (iv_calls row \<le> attempt)
            (ValueError ''reservation_attempt precedes the logical call count'')
         (case prior of
            None \<Rightarrow>
              require (iv_calls row = 1)
                (RuntimeError ''a retried invocation requires its prior failed state'')
             (let ev = undispatched_event row attempt 0 JNull JNull e in
              rbind (assert_no_credentials url ''$.undispatched_call'' ev) (\<lambda>_.
                Inr ((), (add_event shaj (iv_run row) ''provider_call_not_dispatched'' ev now db)
                  \<lparr>cd_slots := delete_where (\<lambda>r. iv_id r = slot \<and> iv_status r = RUNNING
                      \<and> iv_calls r = 1) (cd_slots db)\<rparr>)))
          | Some p \<Rightarrow>
              rbind (retry_audit url db row p) (\<lambda>audit. case audit of (eid, kind, failure) \<Rightarrow>
                (let ev = undispatched_event row attempt (iv_calls p) kind failure e;
                     db1 = add_event shaj (iv_run row) ''provider_call_not_dispatched'' ev now db in
                 rbind (assert_no_credentials url ''$.undispatched_call'' ev) (\<lambda>_.
                   Inr ((), db1\<lparr>cd_events := delete_where (\<lambda>x. ev_id x = eid) (cd_events db1),
                     cd_slots := update_where (\<lambda>r. iv_id r = slot \<and> iv_status r = RUNNING
                       \<and> iv_calls r = iv_calls row) (restore_slot p failure) (cd_slots db)\<rparr>)))))))"

definition release_undispatched_invocation ::
  "(json \<Rightarrow> sha) \<Rightarrow> (string \<Rightarrow> bool \<times> string list) \<Rightarrow> string \<Rightarrow> provider_error \<Rightarrow> int \<Rightarrow>
   invocation option \<Rightarrow> instant \<Rightarrow> council_db \<Rightarrow> unit result \<times> council_db" where
  "release_undispatched_invocation shaj url slot e attempt prior now db0 =
     (case require (\<not> pe_ambiguous e)
             (ValueError ''undispatched invocation error must be unambiguous'')
          (require (1 \<le> attempt) (ValueError ''reservation_attempt must be a positive integer'')
             (assert_no_credentials url ''$.provider_error'' (JObj (error_to_dict e)))) of
        Inl er \<Rightarrow> (Inl er, db0)
      | Inr _ \<Rightarrow> write_txn (release_body shaj url slot e attempt prior now) db0)"

definition get_successful_invocation ::
  "council_db \<Rightarrow> string \<Rightarrow> string \<Rightarrow> string \<Rightarrow> invocation option" where
  "get_successful_invocation db run stage prov =
     row_where (\<lambda>r. iv_run r = run \<and> iv_stage r = stage \<and> iv_provider r = prov
       \<and> iv_status r = SUCCEEDED) (cd_slots db)"

definition get_invocation :: "council_db \<Rightarrow> string \<Rightarrow> invocation option" where
  "get_invocation db slot = find_slot db slot"

definition list_invocations :: "council_db \<Rightarrow> string \<Rightarrow> invocation list" where
  "list_invocations db run =
     sort_key (\<lambda>r. (iv_started r, iv_id r)) (rows_where (\<lambda>r. iv_run r = run) (cd_slots db))"

definition count_calls :: "council_db \<Rightarrow> string \<Rightarrow> int" where
  "count_calls db run = sum_list (map iv_calls (rows_where (\<lambda>r. iv_run r = run) (cd_slots db)))"

text \<open>\<open>invocation_progress\<close>: running, succeeded, failed.\<close>

definition invocation_progress :: "council_db \<Rightarrow> string \<Rightarrow> nat \<times> nat \<times> nat" where
  "invocation_progress db run =
     (count_where (\<lambda>r. iv_run r = run \<and> iv_status r = RUNNING) (cd_slots db),
      count_where (\<lambda>r. iv_run r = run \<and> iv_status r = SUCCEEDED) (cd_slots db),
      count_where (\<lambda>r. iv_run r = run \<and> iv_status r = FAILED) (cd_slots db))"

section \<open>Run approvals\<close>

definition record_run_approval ::
  "sha \<Rightarrow> string \<Rightarrow> string \<Rightarrow> int \<Rightarrow> instant \<Rightarrow> council_db \<Rightarrow> unit result \<times> council_db" where
  "record_run_approval t plan by_name calls now =
     write_txn (\<lambda>db. Inr ((), if find_approval db t \<noteq> None then db
       else db\<lparr>cd_approvals := cd_approvals db @ [\<lparr>ap_token = t, ap_plan = plan, ap_by = by_name,
              ap_max = calls, ap_at = now, ap_consumed = None, ap_run = None\<rparr>]\<rparr>))"

text \<open>The answer is the approval with its consumption time.\<close>

definition consume_run_approval ::
  "sha \<Rightarrow> string \<Rightarrow> instant \<Rightarrow> council_db \<Rightarrow> approval_row result \<times> council_db" where
  "consume_run_approval t plan now =
     write_txn (\<lambda>db. case find_approval db t of
       None \<Rightarrow> Inl (PermissionError ''Paid run refused: no recorded human approval for this plan'')
     | Some row \<Rightarrow>
         if ap_plan row \<noteq> plan
           then Inl (PermissionError ''Paid run refused: no recorded human approval for this plan'')
         else if ap_consumed row \<noteq> None
           then Inl (PermissionError (''Paid run refused: approval token was already used (run ''
                  @ (case ap_run row of None \<Rightarrow> ''unknown''
                     | Some r \<Rightarrow> if r = [] then ''unknown'' else r) @ ''); approve a new plan''))
         else Inr (row\<lparr>ap_consumed := Some now\<rparr>,
                db\<lparr>cd_approvals := update_where (\<lambda>r. ap_token r = t)
                     (\<lambda>r. r\<lparr>ap_consumed := Some now\<rparr>) (cd_approvals db)\<rparr>))"

definition run_approval_for :: "council_db \<Rightarrow> string \<Rightarrow> approval_row option" where
  "run_approval_for db run =
     row_where (\<lambda>_. True) (sort_key ap_at
       (rows_where (\<lambda>r. ap_run r = Some run \<and> ap_consumed r \<noteq> None) (cd_approvals db)))"

definition attach_run_approval ::
  "sha \<Rightarrow> string \<Rightarrow> council_db \<Rightarrow> unit result \<times> council_db" where
  "attach_run_approval t run =
     write_txn (\<lambda>db. Inr ((), db\<lparr>cd_approvals :=
       update_where (\<lambda>r. ap_token r = t \<and> ap_run r = None) (\<lambda>r. r\<lparr>ap_run := Some run\<rparr>)
         (cd_approvals db)\<rparr>))"

section \<open>Human decisions\<close>

definition human_decisions :: "string list" where
  "human_decisions = [''accept'', ''reject'', ''defer'']"

definition decision_record ::
  "string \<Rightarrow> string \<Rightarrow> string \<Rightarrow> string \<Rightarrow> json \<Rightarrow> json \<Rightarrow> json \<Rightarrow> sha \<Rightarrow> sha option \<Rightarrow> instant \<Rightarrow> json" where
  "decision_record run decision note status quality outcome winner rsha prev now =
     JObj [(''run_id'', JStr run), (''decision'', JStr decision), (''note'', JStr note),
       (''run_status'', JStr status), (''completion_quality'', quality),
       (''aggregate_outcome'', outcome), (''aggregate_winner'', winner),
       (''result_sha256'', JStr rsha), (''previous_record_sha256'', opt_str prev),
       (''decided_at'', JInt now)]"

text \<open>The newest decision of a run.\<close>

definition last_decision :: "council_db \<Rightarrow> string \<Rightarrow> decision_row option" where
  "last_decision db run =
     row_where (\<lambda>_. True) (rev (sort_key hd_id (rows_where (\<lambda>d. hd_run d = run) (cd_decisions db))))"

text \<open>SQLite refuses to bind a list or a dict.\<close>

definition bindable :: "json \<Rightarrow> bool" where
  "bindable v \<longleftrightarrow> (case v of JList _ \<Rightarrow> False | JObj _ \<Rightarrow> False | _ \<Rightarrow> True)"

definition object_or_error :: "json \<Rightarrow> (string \<times> json) list result" where
  "object_or_error v = (case v of JObj m \<Rightarrow> Inr m
     | _ \<Rightarrow> Inl (AttributeError ''object has no attribute get''))"

definition record_decision_body ::
  "(json \<Rightarrow> sha) \<Rightarrow> string \<Rightarrow> string \<Rightarrow> string \<Rightarrow> instant \<Rightarrow> council_db \<Rightarrow>
   (decision_row \<times> council_db) result" where
  "record_decision_body shaj run decision note now db =
     (case find_run_row db run of
        None \<Rightarrow> Inl (KeyError (''unknown run: '' @ run))
      | Some row \<Rightarrow>
          (let result = (case ru_result row of None \<Rightarrow> JNull | Some v \<Rightarrow> v) in
           require (truthy result)
             (ValueError ''run has no result yet; resume or wait before deciding'')
          (rbind (object_or_error result) (\<lambda>m.
           rbind (if truthy (get_or_null m ''aggregate'')
                  then object_or_error (get_or_null m ''aggregate'') else Inr []) (\<lambda>agg.
             let prev = map_option hd_sha (last_decision db run);
                 rsha = shaj (canon result);
                 record = canon (decision_record run decision note (ru_status row)
                   (get_or_null m ''completion_quality'') (get_or_null agg ''outcome'')
                   (get_or_null agg ''winner'') rsha prev now);
                 new = \<lparr>hd_id = cd_next_decision db, hd_run = run, hd_decision = decision,
                   hd_note = note, hd_aggregate_outcome = get_or_null agg ''outcome'',
                   hd_aggregate_winner = get_or_null agg ''winner'', hd_result_sha = rsha,
                   hd_previous = prev, hd_record = record, hd_sha = shaj record,
                   hd_decided = now\<rparr> in
             if \<not> bindable (get_or_null agg ''outcome'') \<or> \<not> bindable (get_or_null agg ''winner'')
               then Inl (InterfaceError ''Error binding parameter'')
             else if row_where (\<lambda>d. hd_sha d = shaj record) (cd_decisions db) \<noteq> None
               then Inl (IntegrityError ''UNIQUE constraint failed'')
             else Inr (new, db\<lparr>cd_decisions := cd_decisions db @ [new],
                          cd_next_decision := cd_next_decision db + 1\<rparr>))))))"

definition record_human_decision ::
  "(json \<Rightarrow> sha) \<Rightarrow> string \<Rightarrow> string \<Rightarrow> string \<Rightarrow> instant \<Rightarrow> council_db \<Rightarrow>
   decision_row result \<times> council_db" where
  "record_human_decision shaj run decision note now db0 =
     (case require (decision \<in> set human_decisions)
             (ValueError (''decision must be one of: '' @ join_text '', '' human_decisions))
          (require (length (py_strip note) \<le> 4000)
             (ValueError (''decision note must be at most '' @ decimal_text 4000 @ '' characters''))
             (Inr (py_strip note))) of
        Inl e \<Rightarrow> (Inl e, db0)
      | Inr n \<Rightarrow> write_txn (record_decision_body shaj run decision n now) db0)"

text \<open>A decision as listed, with the verdict on its hash.\<close>

definition list_human_decisions ::
  "(json \<Rightarrow> sha) \<Rightarrow> council_db \<Rightarrow> string \<Rightarrow> (decision_row \<times> bool) list" where
  "list_human_decisions shaj db run =
     map (\<lambda>d. (d, shaj (hd_record d) = hd_sha d))
       (sort_key hd_id (rows_where (\<lambda>d. hd_run d = run) (cd_decisions db)))"

section \<open>Agent requests\<close>

definition get_agent_request :: "council_db \<Rightarrow> string \<Rightarrow> agent_request option" where
  "get_agent_request db rid = row_where (\<lambda>r. gr_id r = rid) (cd_requests db)"

definition bind_agent_request ::
  "string \<Rightarrow> sha \<Rightarrow> string \<Rightarrow> instant \<Rightarrow> council_db \<Rightarrow> unit result \<times> council_db" where
  "bind_agent_request rid payload run now =
     write_txn (\<lambda>db.
       if get_agent_request db rid \<noteq> None then Inl (IntegrityError ''UNIQUE constraint failed'')
       else if find_run_row db run = None then Inl (IntegrityError ''FOREIGN KEY constraint failed'')
       else Inr ((), db\<lparr>cd_requests := cd_requests db @
              [\<lparr>gr_id = rid, gr_payload = payload, gr_run = run, gr_created = now\<rparr>]\<rparr>))"

section \<open>Runs of the store\<close>

text \<open>The digests and the URL split the store is run with.\<close>

record council_env =
  en_sha :: "string \<Rightarrow> sha"
  en_shaj :: "json \<Rightarrow> sha"
  en_url :: "string \<Rightarrow> bool \<times> string list"

datatype council_op =
    CreateRun json json json json json json "json option" "json option" string instant
  | SetStatus string json error_arg instant
  | SaveResult string json instant
  | FinishRun string json instant
  | AppendEvent string json json instant
  | StartSlot string json json json json json string instant
  | SlotSuccess string provider_response instant
  | SlotFailure string provider_error instant
  | ReleaseSlot string provider_error int "invocation option" instant
  | RecordApproval sha string string int instant
  | ConsumeApproval sha string instant
  | AttachApproval sha string
  | Decide string string string instant
  | BindAgent string sha string instant

fun council_step :: "council_env \<Rightarrow> council_db \<Rightarrow> council_op \<Rightarrow> council_db" where
  "council_step en db (CreateRun q p v h c pol k r uuid now) =
     snd (create_run (en_sha en) (en_shaj en) (en_url en) q p v h c pol k r uuid now db)"
| "council_step en db (SetStatus rid s err now) = snd (set_run_status (en_url en) rid s err now db)"
| "council_step en db (SaveResult rid v now) = snd (save_result (en_shaj en) (en_url en) rid v now db)"
| "council_step en db (FinishRun rid v now) = snd (finish_run (en_shaj en) (en_url en) rid v now db)"
| "council_step en db (AppendEvent rid t v now) =
     snd (append_event (en_shaj en) (en_url en) rid t v now db)"
| "council_step en db (StartSlot run s p m l t uuid now) =
     snd (start_invocation (en_sha en) (en_shaj en) run s p m l t uuid now db)"
| "council_step en db (SlotSuccess i r now) =
     snd (finish_invocation_success (en_sha en) (en_url en) i r now db)"
| "council_step en db (SlotFailure i e now) = snd (finish_invocation_failure (en_url en) i e now db)"
| "council_step en db (ReleaseSlot i e a p now) =
     snd (release_undispatched_invocation (en_shaj en) (en_url en) i e a p now db)"
| "council_step en db (RecordApproval t plan by_name calls now) =
     snd (record_run_approval t plan by_name calls now db)"
| "council_step en db (ConsumeApproval t plan now) = snd (consume_run_approval t plan now db)"
| "council_step en db (AttachApproval t run) = snd (attach_run_approval t run db)"
| "council_step en db (Decide run d note now) =
     snd (record_human_decision (en_shaj en) run d note now db)"
| "council_step en db (BindAgent rid payload run now) =
     snd (bind_agent_request rid payload run now db)"

definition council_run :: "council_env \<Rightarrow> council_db \<Rightarrow> council_op list \<Rightarrow> council_db" where
  "council_run en db ops = foldl (council_step en) db ops"

end
