(* ===== verification/Council_Laws.thy ===== *)
theory Council_Laws imports Council_Store begin

text \<open>
  What the operations of the audit store may do to each table, as transition relations, and the
  contracts that follow: successful invocations are frozen, runs keep their identity, decisions are
  only appended, consumed approvals stay consumed.
\<close>

section \<open>Canonical JSON and the credential screen\<close>

lemma canon_idem [simp]: "canon (canon v) = canon v"
proof (induction v rule: canon.induct)
  case (2 m)
  let ?m = "sort_key fst (map (\<lambda>p. (fst p, canon (snd p))) m)"
  have "map (\<lambda>p. (fst p, canon (snd p))) ?m = ?m"
    by (rule map_idI) (use 2 in \<open>auto simp: image_iff\<close>)
  then show ?case by (simp add: sort_key_id_if_sorted)
qed simp_all

lemma sorted_get:
  assumes "wf_dict m"
  shows "dict_get (sort_key fst m) k = dict_get m k"
proof -
  have "mset (map fst (sort_key fst m)) = mset (map fst m)" by simp
  then have "distinct (map fst (sort_key fst m))"
    using assms mset_eq_imp_distinct_iff unfolding wf_dict_def by blast
  then have "dict_get (sort_key fst m) k = Some v \<longleftrightarrow> dict_get m k = Some v" for v
    using assms by (simp add: wf_dict_def)
  then show ?thesis by (metis not_Some_eq)
qed

lemma dict_get_map: "dict_get (map (\<lambda>p. (fst p, g (snd p))) m) k = map_option g (dict_get m k)"
  by (induction m) auto

lemma canon_get:
  assumes "wf_dict m"
  shows "get_or_null (sort_key fst (map (\<lambda>p. (fst p, canon (snd p))) m)) k = canon (get_or_null m k)"
proof -
  have "wf_dict (map (\<lambda>p. (fst p, canon (snd p))) m)" using assms by (simp add: wf_dict_def comp_def)
  then have "dict_get (sort_key fst (map (\<lambda>p. (fst p, canon (snd p))) m)) k
      = map_option canon (dict_get m k)"
    by (simp add: sorted_get dict_get_map)
  then show ?thesis by (simp add: get_or_null_def split: option.split)
qed

definition plain_leaf :: "json \<Rightarrow> bool" where
  "plain_leaf v \<longleftrightarrow> (case v of JList _ \<Rightarrow> False | JObj _ \<Rightarrow> False | _ \<Rightarrow> True)"

definition harmless_key :: "string \<Rightarrow> bool" where
  "harmless_key k \<longleftrightarrow> normalized_key k \<notin> set raw_credential_keys \<and> normalized_key k \<noteq> ''endpoint''"

lemma leaf_clean: "plain_leaf v \<Longrightarrow> assert_no_credentials url path v = Inr ()"
  by (cases v) (simp_all add: plain_leaf_def)

lemma items_clean:
  "(\<And>k v. (k, v) \<in> set m \<Longrightarrow> harmless_key k \<and> (\<forall>p. assert_no_credentials url p v = Inr ())) \<Longrightarrow>
   assert_items_clean url path m = Inr ()"
proof (induction m)
  case (Cons x m)
  obtain k v where x: "x = (k, v)" by (cases x)
  then have "normalized_key k \<notin> set raw_credential_keys" "normalized_key k \<noteq> ''endpoint''"
    "assert_no_credentials url p v = Inr ()" for p
    using Cons.prems [of k v] by (auto simp: harmless_key_def)
  moreover have "assert_items_clean url path m = Inr ()"
    by (rule Cons.IH) (use Cons.prems in auto)
  ultimately show ?case by (simp add: x Let_def)
qed simp

lemma plain_opts [simp]:
  "plain_leaf (opt_str a)" "plain_leaf (opt_int b)" "plain_leaf (opt_bool c)"
  "plain_leaf (JStr s)" "plain_leaf (JInt i)" "plain_leaf (JBool d)" "plain_leaf JNull"
  by (simp_all add: plain_leaf_def opt_str_def opt_int_def opt_bool_def split: option.split)

lemma opt_Some:
  "opt_str (Some a) = JStr a" "opt_int (Some b) = JInt b" "opt_bool (Some c) = JBool c"
  by (simp_all add: opt_str_def opt_int_def opt_bool_def)

lemma canon_plain [simp]: "plain_leaf v \<Longrightarrow> canon v = v"
  by (cases v) (simp_all add: plain_leaf_def)

lemma error_keys_harmless: "list_all harmless_key (map fst (error_to_dict e))"
  unfolding error_to_dict_def list.map fst_conv by code_simp

lemma error_leaves: "(k, v) \<in> set (error_to_dict e) \<Longrightarrow> harmless_key k \<and> plain_leaf v"
  using error_keys_harmless [of e] by (force simp: list_all_iff error_to_dict_def)

lemma wf_error_dict: "wf_dict (error_to_dict e)"
  by (simp add: wf_dict_def error_to_dict_def)

lemma error_clean:
  "assert_no_credentials url path (JObj (error_to_dict e)) = Inr ()"
  "assert_no_credentials url path (canon (JObj (error_to_dict e))) = Inr ()"
  using error_leaves [of _ _ e] by (auto intro!: items_clean leaf_clean)

text \<open>The error of a failed slot as \<open>get_invocation\<close> decodes it.\<close>

definition error_object :: "provider_error \<Rightarrow> (string \<times> json) list" where
  "error_object e = sort_key fst (map (\<lambda>p. (fst p, canon (snd p))) (error_to_dict e))"

lemma error_object_canon: "canon (JObj (error_to_dict e)) = JObj (error_object e)"
  by (simp add: error_object_def)

lemma error_object_get: "get_or_null (error_object e) k = canon (get_or_null (error_to_dict e) k)"
  unfolding error_object_def by (rule canon_get [OF wf_error_dict])

lemma failure_is_consistent:
  "\<not> pe_ambiguous e \<Longrightarrow> failure_consistent (failure_outcome e) (error_object e)"
  by (simp add: failure_consistent_def error_object_get)
    (simp add: failure_outcome_def no_outcome_def error_to_dict_def get_or_null_def opt_Some)

section \<open>Transitions of the run table\<close>

definition run_identity :: "run_row \<Rightarrow> string \<times> sha \<times> string option \<times> string \<times> instant" where
  "run_identity r = (ru_id r, ru_request_sha r, ru_key r, ru_question r, ru_created r)"

inductive runs_step :: "run_row list \<Rightarrow> run_row list \<Rightarrow> bool" for rows where
  runs_same: "runs_step rows rows"
| runs_new: "row_where (\<lambda>r. ru_id r = ru_id row) rows = None \<Longrightarrow>
    ru_key row = None \<or> row_where (\<lambda>r. ru_key r = ru_key row) rows = None \<Longrightarrow>
    runs_step rows (rows @ [row])"
| runs_update: "(\<And>r. run_identity (f r) = run_identity r) \<Longrightarrow>
    runs_step rows (update_where (\<lambda>r. ru_id r = rid) f rows)"

lemma update_run_rows:
  "update_run rid f db = Inr db' \<Longrightarrow>
   db' = db\<lparr>cd_runs := update_where (\<lambda>r. ru_id r = rid) f (cd_runs db)\<rparr>"
  by (simp add: update_run_def split: if_splits)

lemma add_event_sel [simp]:
  "cd_runs (add_event shaj run t v now db) = cd_runs db"
  "cd_slots (add_event shaj run t v now db) = cd_slots db"
  "cd_decisions (add_event shaj run t v now db) = cd_decisions db"
  "cd_next_decision (add_event shaj run t v now db) = cd_next_decision db"
  "cd_approvals (add_event shaj run t v now db) = cd_approvals db"
  "cd_requests (add_event shaj run t v now db) = cd_requests db"
  by (simp_all add: add_event_def)

text \<open>What each run operation leaves.\<close>

lemma create_run_cases:
  "snd (create_run sha shaj url q p v h c pol k rid uuid now db) = db \<or>
   (\<exists>row. row_where (\<lambda>r. ru_id r = ru_id row) (cd_runs db) = None
      \<and> (ru_key row = None \<or> row_where (\<lambda>r. ru_key r = ru_key row) (cd_runs db) = None)
      \<and> snd (create_run sha shaj url q p v h c pol k rid uuid now db)
        = db\<lparr>cd_runs := cd_runs db @ [row]\<rparr>)"
proof -
  have body: "create_run_body sha q p v h c pol req key ex rid now db = Inr (a, db') \<Longrightarrow> db' = db \<or>
     (\<exists>row. row_where (\<lambda>r. ru_id r = ru_id row) (cd_runs db) = None
      \<and> (ru_key row = None \<or> row_where (\<lambda>r. ru_key r = ru_key row) (cd_runs db) = None)
      \<and> db' = db\<lparr>cd_runs := cd_runs db @ [row]\<rparr>)" for q p v h c pol req key ex rid a db'
    by (simp add: create_run_body_def find_run_row_def split: option.splits if_splits)
      (metis run_row.select_convs(1,14))+
  show ?thesis
    unfolding create_run_def
    by (auto simp: write_txn_snd simp del: split_paired_Ex split: sum.split prod.split dest: body)
qed

lemma update_txn_cases:
  "snd (write_txn (\<lambda>db. rbind (update_run rid f db) (\<lambda>db'. Inr (a, g db'))) db) = db \<or>
   snd (write_txn (\<lambda>db. rbind (update_run rid f db) (\<lambda>db'. Inr (a, g db'))) db)
     = g (db\<lparr>cd_runs := update_where (\<lambda>r. ru_id r = rid) f (cd_runs db)\<rparr>)"
  by (auto simp: write_txn_snd rbind_def split: sum.split dest!: update_run_rows)

definition run_update :: "council_db \<Rightarrow> council_db \<Rightarrow> bool" where
  "run_update db d \<longleftrightarrow> (\<exists>rid f. (\<forall>r. run_identity (f r) = run_identity r)
     \<and> d = db\<lparr>cd_runs := update_where (\<lambda>r. ru_id r = rid) f (cd_runs db)\<rparr>)"

lemma run_updateI:
  "(\<And>r. run_identity (f r) = run_identity r) \<Longrightarrow>
   run_update db (db\<lparr>cd_runs := update_where (\<lambda>r. ru_id r = rid) f (cd_runs db)\<rparr>)"
  unfolding run_update_def by blast

lemma update_txn_run:
  assumes "\<And>r. run_identity (f r) = run_identity r"
  shows "snd (write_txn (\<lambda>db. rbind (update_run rid f db) (\<lambda>db'. Inr (a, db'))) db) = db \<or>
    run_update db (snd (write_txn (\<lambda>db. rbind (update_run rid f db) (\<lambda>db'. Inr (a, db'))) db))"
  using update_txn_cases [of rid f a "\<lambda>x. x" db] run_updateI [of f, OF assms] by auto

lemma set_run_status_cases:
  "snd (set_run_status url rid s err now db) = db \<or> run_update db (snd (set_run_status url rid s err now db))"
  unfolding set_run_status_def
  by (simp split: sum.split) (intro allI conjI impI update_txn_run; simp add: run_identity_def)

lemma save_result_cases:
  "snd (save_result shaj url rid v now db) = db \<or> run_update db (snd (save_result shaj url rid v now db))"
  unfolding save_result_def
  by (simp split: sum.split) (intro allI impI update_txn_run, simp add: run_identity_def)

lemma finish_run_cases:
  "snd (finish_run shaj url rid v now db) = db \<or>
   (\<exists>d payload. run_update db d
      \<and> snd (finish_run shaj url rid v now db) = add_event shaj rid ''run_finished'' payload now d)"
proof (cases "terminal_result url v")
  case (Inl e)
  then show ?thesis by (simp add: finish_run_def)
next
  case (Inr sn)
  obtain s n where sn: "sn = (s, n)" by (cases sn)
  let ?f = "\<lambda>r. r\<lparr>ru_result := Some (canon v), ru_result_sha := Some (shaj (canon v)),
     ru_status := s, ru_error := None, ru_updated := now, ru_finished := Some now\<rparr>"
  have "run_update db (db\<lparr>cd_runs := update_where (\<lambda>r. ru_id r = rid) ?f (cd_runs db)\<rparr>)"
    by (rule run_updateI) (simp add: run_identity_def)
  with update_txn_cases [of rid ?f "()" _ db] show ?thesis
    unfolding finish_run_def Inr sn by simp blast
qed

lemma append_event_cases:
  "snd (append_event shaj url rid t v now db) = db \<or>
   (\<exists>typ. snd (append_event shaj url rid t v now db) = add_event shaj rid typ v now db)"
  by (auto simp: append_event_def write_txn_snd split: sum.split)

lemma run_update_sel:
  "run_update db d \<Longrightarrow> cd_slots d = cd_slots db \<and> cd_events d = cd_events db
     \<and> cd_next_event d = cd_next_event db \<and> cd_decisions d = cd_decisions db
     \<and> cd_next_decision d = cd_next_decision db \<and> cd_approvals d = cd_approvals db"
  by (auto simp: run_update_def)

section \<open>Transitions of the invocation table\<close>

definition slot_place :: "invocation \<Rightarrow> string \<times> string \<times> string" where
  "slot_place r = (iv_run r, iv_stage r, iv_provider r)"

inductive slots_step :: "council_db \<Rightarrow> invocation list \<Rightarrow> bool" for db where
  slots_same: "slots_step db (cd_slots db)"
| slots_new: "find_slot db (iv_id row) = None \<Longrightarrow>
    slot_at db (iv_run row) (iv_stage row) (iv_provider row) = None \<Longrightarrow>
    iv_status row = RUNNING \<Longrightarrow> iv_calls row = 1 \<Longrightarrow> slots_step db (cd_slots db @ [row])"
| slots_restart: "find_slot db i = Some r \<Longrightarrow> iv_status r = FAILED \<Longrightarrow>
    slots_step db (update_where (\<lambda>x. iv_id x = i) (restart_slot now) (cd_slots db))"
| slots_done: "find_slot db i = Some r \<Longrightarrow> iv_status r = RUNNING \<Longrightarrow>
    (\<And>x. iv_id (f x) = iv_id x \<and> slot_place (f x) = slot_place x \<and> iv_calls (f x) = iv_calls x) \<Longrightarrow>
    slots_step db (update_where (\<lambda>x. iv_id x = i) f (cd_slots db))"
| slots_drop: "find_slot db i = Some r \<Longrightarrow> iv_status r = RUNNING \<Longrightarrow> iv_calls r = 1 \<Longrightarrow>
    slots_step db (delete_where (\<lambda>x. iv_id x = i \<and> iv_status x = RUNNING \<and> iv_calls x = 1)
      (cd_slots db))"
| slots_restore: "find_slot db i = Some r \<Longrightarrow> iv_status r = RUNNING \<Longrightarrow> 1 \<le> iv_calls p \<Longrightarrow>
    iv_calls p + 1 = iv_calls r \<Longrightarrow>
    slots_step db (update_where (\<lambda>x. iv_id x = i \<and> iv_status x = RUNNING \<and> iv_calls x = iv_calls r)
      (restore_slot p fl) (cd_slots db))"

definition slots_ok :: "invocation list \<Rightarrow> bool" where
  "slots_ok rows \<longleftrightarrow> unique_on iv_id rows \<and> unique_on slot_place rows \<and> (\<forall>r\<in>set rows. 1 \<le> iv_calls r)"

definition events_ok :: "council_db \<Rightarrow> bool" where
  "events_ok db \<longleftrightarrow> unique_on ev_id (cd_events db) \<and> (\<forall>e\<in>set (cd_events db). ev_id e < cd_next_event db)"

definition council_good :: "council_db \<Rightarrow> bool" where
  "council_good db \<longleftrightarrow> slots_ok (cd_slots db) \<and> events_ok db"

lemma find_slot_mem: "find_slot db i = Some r \<Longrightarrow> r \<in> set (cd_slots db) \<and> iv_id r = i"
  unfolding find_slot_def by (drule row_where_Some) simp

lemma slot_at_mem:
  "slot_at db run stage prov = Some r \<Longrightarrow>
   r \<in> set (cd_slots db) \<and> iv_run r = run \<and> iv_stage r = stage \<and> iv_provider r = prov"
  unfolding slot_at_def by (drule row_where_Some) simp

lemma find_slot_of:
  "council_good db \<Longrightarrow> r \<in> set (cd_slots db) \<Longrightarrow> find_slot db (iv_id r) = Some r"
  unfolding find_slot_def by (rule row_where_unique) (simp_all add: council_good_def slots_ok_def)

lemma restart_slot_sel [simp]:
  "iv_id (restart_slot now r) = iv_id r" "slot_place (restart_slot now r) = slot_place r"
  "iv_calls (restart_slot now r) = iv_calls r + 1" "iv_status (restart_slot now r) = RUNNING"
  by (simp_all add: restart_slot_def slot_place_def)

lemma restore_slot_sel [simp]:
  "iv_id (restore_slot p fl r) = iv_id r" "slot_place (restore_slot p fl r) = slot_place r"
  "iv_calls (restore_slot p fl r) = iv_calls p"
  by (simp_all add: restore_slot_def slot_place_def)

lemma unique_snoc_fresh:
  "unique_on key rows \<Longrightarrow> (\<And>r. r \<in> set rows \<Longrightarrow> key r \<noteq> key x) \<Longrightarrow> unique_on key (rows @ [x])"
  by (auto simp: unique_on_snoc row_where_None)

lemma slots_step_ok:
  assumes step: "slots_step db rows" and ok: "slots_ok (cd_slots db)"
  shows "slots_ok rows"
  using step
proof (cases rule: slots_step.cases)
  case (slots_new row)
  then have "iv_id r \<noteq> iv_id row" "slot_place r \<noteq> slot_place row" if "r \<in> set (cd_slots db)" for r
    using that by (auto simp: find_slot_def slot_at_def row_where_None slot_place_def)
  with ok slots_new show ?thesis by (auto simp: slots_ok_def intro!: unique_snoc_fresh)
next
  case (slots_done i r f)
  then show ?thesis using ok by (auto simp: slots_ok_def unique_on_update set_update_where)
next
  case (slots_restart i r now)
  then show ?thesis using ok by (auto simp: slots_ok_def unique_on_update set_update_where)
next
  case (slots_drop i r)
  then show ?thesis using ok by (auto simp: slots_ok_def unique_on_delete set_delete_where)
next
  case (slots_restore i r p fl)
  then show ?thesis using ok by (auto simp: slots_ok_def unique_on_update set_update_where)
qed (use ok in simp)

lemma row_where_delete_keep:
  "row_where p rows = Some e \<Longrightarrow> \<not> q e \<Longrightarrow> row_where p (delete_where q rows) = Some e"
  by (induction rows) (auto simp: delete_where_def split: if_splits)

lemma slots_step_frozen:
  assumes step: "slots_step db rows" and f: "find_slot db k = Some e" and s: "iv_status e = SUCCEEDED"
  shows "row_where (\<lambda>r. iv_id r = k) rows = Some e"
  using step
proof (cases rule: slots_step.cases)
  case (slots_drop i r)
  have "row_where (\<lambda>r. iv_id r = k) (delete_where (\<lambda>x. iv_id x = i \<and> iv_status x = RUNNING
      \<and> iv_calls x = 1) (cd_slots db)) = Some e"
    using f s unfolding find_slot_def by (intro row_where_delete_keep) simp_all
  then show ?thesis using slots_drop by simp
next
  case (slots_new row)
  then show ?thesis using f by (simp add: find_slot_def row_where_append)
next
  case (slots_restart i r now)
  then show ?thesis using f s find_slot_mem [OF f] by (auto simp: find_slot_def row_where_update)
next
  case (slots_done i r g)
  then have "row_where (\<lambda>r. iv_id r = k) (update_where (\<lambda>x. iv_id x = i) g (cd_slots db))
    = map_option (\<lambda>r. if iv_id r = i then g r else r) (find_slot db k)"
    by (simp add: find_slot_def row_where_update)
  with slots_done show ?thesis using f s find_slot_mem [OF f] by auto
next
  case (slots_restore i r p fl)
  then show ?thesis using f s by (simp add: find_slot_def row_where_update)
qed (use f in \<open>simp add: find_slot_def\<close>)

text \<open>The effect of each slot operation.\<close>

lemma start_body_cases:
  assumes g: "council_good db"
    and b: "start_invocation_body shaj run s p m l t psha uuid now db = Inr (i, db')"
  shows "slots_step db (cd_slots db') \<and>
    (cd_events db' = cd_events db \<and> cd_next_event db' = cd_next_event db
     \<or> (\<exists>v. cd_events db' = cd_events (add_event shaj run ''provider_retry_started'' v now db)
          \<and> cd_next_event db' = cd_next_event db + 1))
    \<and> cd_runs db' = cd_runs db \<and> cd_decisions db' = cd_decisions db
    \<and> cd_next_decision db' = cd_next_decision db \<and> cd_approvals db' = cd_approvals db"
proof (cases "slot_at db run s p")
  case None
  then show ?thesis using b
    by (auto simp: start_invocation_body_def new_slot_def intro!: slots_new split: if_splits)
next
  case (Some ex)
  have f: "find_slot db (iv_id ex) = Some ex"
    using slot_at_mem [OF Some] find_slot_of [OF g] by blast
  have "slots_step db (cd_slots db)" by (rule slots_same)
  moreover have "iv_status ex = FAILED \<Longrightarrow>
      slots_step db (update_where (\<lambda>x. iv_id x = iv_id ex) (restart_slot now) (cd_slots db))"
    by (rule slots_restart [OF f])
  ultimately show ?thesis using b Some
    by (cases "iv_status ex") (auto simp: start_invocation_body_def Let_def add_event_def split: if_splits)
qed

lemma start_cases:
  assumes g: "council_good db"
  shows "snd (start_invocation sha shaj run s p m l t uuid now db) = db \<or>
    (\<exists>i s' p' m' l' t'. start_invocation_body shaj run s' p' m' l' t' (sha t') uuid now db
      = Inr (i, snd (start_invocation sha shaj run s p m l t uuid now db)))"
  unfolding start_invocation_def
  by (auto simp: write_txn_snd simp del: split_paired_Ex split: sum.split prod.split)

lemma success_cases:
  assumes g: "council_good db"
  shows "snd (finish_invocation_success sha url i r now db) = db \<or>
    (\<exists>rows. slots_step db rows \<and> snd (finish_invocation_success sha url i r now db) = db\<lparr>cd_slots := rows\<rparr>)"
proof -
  let ?f = "\<lambda>x. x\<lparr>iv_status := SUCCEEDED, iv_outcome := success_outcome sha r, iv_updated := now,
    iv_finished := Some now\<rparr>"
  have "slots_step db (update_where (\<lambda>x. iv_id x = i) ?f (cd_slots db))"
    if "find_slot db i = Some row" "iv_status row = RUNNING" for row
    using that by (rule slots_done) (simp add: slot_place_def)
  then show ?thesis
    by (auto simp: finish_invocation_success_def write_txn_snd split: sum.split option.split)
qed

lemma success_recorded:
  assumes "finish_invocation_success sha url i r now db = (Inr (), db1)"
  shows "\<exists>row. find_slot db1 i = Some row \<and> iv_status row = SUCCEEDED
    \<and> oc_response (iv_outcome row) = Some (canon (JObj (response_to_dict r)))"
proof -
  from assms have "find_slot db i \<noteq> None"
    by (auto simp: finish_invocation_success_def write_txn_eq split: sum.splits option.splits)
  then obtain row where f: "find_slot db i = Some row" by blast
  show ?thesis
    using assms f
    by (auto simp: finish_invocation_success_def write_txn_eq success_outcome_def find_slot_def
        row_where_update dest: row_where_Some split: sum.splits if_splits)
qed

lemma failure_cases:
  assumes g: "council_good db"
  shows "snd (finish_invocation_failure url i e now db) = db \<or>
    (\<exists>rows. slots_step db rows \<and> snd (finish_invocation_failure url i e now db) = db\<lparr>cd_slots := rows\<rparr>)"
proof -
  let ?f = "\<lambda>x. x\<lparr>iv_status := FAILED, iv_outcome := failure_outcome e, iv_updated := now,
    iv_finished := Some now\<rparr>"
  have "slots_step db (update_where (\<lambda>x. iv_id x = i) ?f (cd_slots db))"
    if "find_slot db i = Some row" "iv_status row = RUNNING" for row
    using that by (rule slots_done) (simp add: slot_place_def)
  then show ?thesis
    by (auto simp: finish_invocation_failure_def write_txn_snd split: sum.split option.split)
qed

lemma retry_audit_calls:
  "retry_audit url db row prior = Inr a \<Longrightarrow> 1 \<le> iv_calls prior \<and> iv_calls prior + 1 = iv_calls row"
  by (simp add: retry_audit_def result_simps)

lemma release_body_cases:
  assumes b: "release_body shaj url i e attempt prior now db = Inr (u, db')"
  shows "slots_step db (cd_slots db') \<and>
    (\<exists>run v q. cd_events db' = delete_where q
         (cd_events (add_event shaj run ''provider_call_not_dispatched'' v now db)))
    \<and> cd_next_event db' = cd_next_event db + 1
    \<and> cd_runs db' = cd_runs db \<and> cd_decisions db' = cd_decisions db
    \<and> cd_next_decision db' = cd_next_decision db \<and> cd_approvals db' = cd_approvals db"
proof -
  obtain row where row: "find_slot db i = Some row" and run: "iv_status row = RUNNING"
    using b by (auto simp: release_body_def result_simps split: option.splits)
  show ?thesis
  proof (cases prior)
    case None
    then have one: "iv_calls row = 1" using b row by (simp add: release_body_def result_simps)
    let ?ev = "undispatched_event row attempt 0 JNull JNull e"
    let ?db1 = "add_event shaj (iv_run row) ''provider_call_not_dispatched'' ?ev now db"
    have eq: "db' = ?db1\<lparr>cd_slots := delete_where (\<lambda>r. iv_id r = i \<and> iv_status r = RUNNING
        \<and> iv_calls r = 1) (cd_slots db)\<rparr>"
      using b row None by (simp add: release_body_def result_simps Let_def)
    have "cd_events ?db1 = delete_where (\<lambda>_. False) (cd_events ?db1)" by (simp add: delete_where_def)
    then show ?thesis unfolding eq using slots_drop [OF row run one]
      by (auto simp: add_event_def)
  next
    case (Some p)
    then obtain eid kind fl where a: "retry_audit url db row p = Inr (eid, kind, fl)"
      using b row by (auto simp: release_body_def result_simps)
    let ?ev = "undispatched_event row attempt (iv_calls p) kind fl e"
    let ?db1 = "add_event shaj (iv_run row) ''provider_call_not_dispatched'' ?ev now db"
    have eq: "db' = ?db1\<lparr>cd_events := delete_where (\<lambda>x. ev_id x = eid) (cd_events ?db1),
        cd_slots := update_where (\<lambda>r. iv_id r = i \<and> iv_status r = RUNNING
          \<and> iv_calls r = iv_calls row) (restore_slot p fl) (cd_slots db)\<rparr>"
      using b row Some a by (simp add: release_body_def result_simps Let_def)
    have "slots_step db (cd_slots db')" unfolding eq
      using slots_restore [OF row run] retry_audit_calls [OF a] by simp
    then show ?thesis unfolding eq by (auto simp: add_event_def)
  qed
qed

lemma release_cases:
  "snd (release_undispatched_invocation shaj url i e attempt prior now db) = db \<or>
   (\<exists>u. release_body shaj url i e attempt prior now db
      = Inr (u, snd (release_undispatched_invocation shaj url i e attempt prior now db)))"
  by (auto simp: release_undispatched_invocation_def write_txn_snd split: sum.split)

section \<open>The store as a machine\<close>

text \<open>The frame of the remaining operations.\<close>

lemma approval_ops_frame:
  "cd_slots (snd (record_run_approval t plan nm calls now db)) = cd_slots db"
  "cd_slots (snd (consume_run_approval t plan now db)) = cd_slots db"
  "cd_slots (snd (attach_run_approval t run db)) = cd_slots db"
  "events_ok (snd (record_run_approval t plan nm calls now db)) = events_ok db"
  "events_ok (snd (consume_run_approval t plan now db)) = events_ok db"
  "events_ok (snd (attach_run_approval t run db)) = events_ok db"
  "cd_runs (snd (record_run_approval t plan nm calls now db)) = cd_runs db"
  "cd_runs (snd (consume_run_approval t plan now db)) = cd_runs db"
  "cd_runs (snd (attach_run_approval t run db)) = cd_runs db"
  "cd_decisions (snd (record_run_approval t plan nm calls now db)) = cd_decisions db"
  "cd_decisions (snd (consume_run_approval t plan now db)) = cd_decisions db"
  "cd_decisions (snd (attach_run_approval t run db)) = cd_decisions db"
  by (simp_all add: record_run_approval_def consume_run_approval_def attach_run_approval_def
      write_txn_snd events_ok_def split: option.split)

lemma decide_cases:
  "snd (record_human_decision shaj run d memo now db) = db \<or>
   (\<exists>row n. record_decision_body shaj run d n now db
      = Inr (row, snd (record_human_decision shaj run d memo now db)))"
  by (auto simp: record_human_decision_def write_txn_snd split: sum.split)

lemma decide_body_effect:
  assumes "record_decision_body shaj run d n now db = Inr (row, db')"
  shows "db' = db\<lparr>cd_decisions := cd_decisions db @ [row], cd_next_decision := cd_next_decision db + 1\<rparr>
    \<and> hd_run row = run \<and> hd_id row = cd_next_decision db
    \<and> hd_previous row = map_option hd_sha (last_decision db run) \<and> hd_sha row = shaj (hd_record row)
    \<and> row_where (\<lambda>x. hd_sha x = hd_sha row) (cd_decisions db) = None
    \<and> (\<exists>status quality outcome winner rsha. hd_record row = canon (decision_record run d n status
         quality outcome winner rsha (hd_previous row) now))"
proof -
  obtain row0 where r: "find_run_row db run = Some row0"
    using assms by (auto simp: record_decision_body_def split: option.splits)
  from assms obtain m agg where
    "(let prev = map_option hd_sha (last_decision db run);
          rsha = shaj (canon (case ru_result row0 of None \<Rightarrow> JNull | Some v \<Rightarrow> v));
          record = canon (decision_record run d n (ru_status row0)
            (get_or_null m ''completion_quality'') (get_or_null agg ''outcome'')
            (get_or_null agg ''winner'') rsha prev now);
          new = \<lparr>hd_id = cd_next_decision db, hd_run = run, hd_decision = d,
            hd_note = n, hd_aggregate_outcome = get_or_null agg ''outcome'',
            hd_aggregate_winner = get_or_null agg ''winner'', hd_result_sha = rsha,
            hd_previous = prev, hd_record = record, hd_sha = shaj record, hd_decided = now\<rparr> in
      if \<not> bindable (get_or_null agg ''outcome'') \<or> \<not> bindable (get_or_null agg ''winner'')
        then Inl (InterfaceError ''Error binding parameter'')
      else if row_where (\<lambda>d. hd_sha d = shaj record) (cd_decisions db) \<noteq> None
        then Inl (IntegrityError ''UNIQUE constraint failed'')
      else Inr (new, db\<lparr>cd_decisions := cd_decisions db @ [new],
                   cd_next_decision := cd_next_decision db + 1\<rparr>)) = Inr (row, db')"
    unfolding record_decision_body_def r option.case Let_def result_simps by blast
  then show ?thesis by (clarsimp simp: Let_def split: if_split_asm) blast
qed

lemma bind_agent_frame:
  "cd_slots (snd (bind_agent_request rid pl run now db)) = cd_slots db"
  "events_ok (snd (bind_agent_request rid pl run now db)) = events_ok db"
  "cd_runs (snd (bind_agent_request rid pl run now db)) = cd_runs db"
  "cd_decisions (snd (bind_agent_request rid pl run now db)) = cd_decisions db"
  "cd_approvals (snd (bind_agent_request rid pl run now db)) = cd_approvals db"
  by (simp_all add: bind_agent_request_def write_txn_snd events_ok_def)

lemma events_ok_add: "events_ok db \<Longrightarrow> events_ok (add_event shaj run t v now db)"
  by (fastforce simp: events_ok_def add_event_def unique_on_snoc row_where_None)

lemma events_ok_delete:
  "events_ok db \<Longrightarrow> cd_events d = delete_where q (cd_events db) \<Longrightarrow>
   cd_next_event d = cd_next_event db \<Longrightarrow> events_ok d"
  by (simp add: events_ok_def unique_on_delete set_delete_where)

lemma events_ok_same:
  "cd_events d = cd_events db \<Longrightarrow> cd_next_event d = cd_next_event db \<Longrightarrow> events_ok d = events_ok db"
  by (simp add: events_ok_def)

text \<open>The footprint of an operation on the invocations and the events.\<close>

definition slots_frame :: "council_db \<Rightarrow> council_db \<Rightarrow> bool" where
  "slots_frame db d \<longleftrightarrow> slots_step db (cd_slots d) \<and> (events_ok db \<longrightarrow> events_ok d)"

lemma slots_frameI:
  "cd_slots d = cd_slots db \<Longrightarrow> (events_ok db \<Longrightarrow> events_ok d) \<Longrightarrow> slots_frame db d"
  by (simp add: slots_frame_def slots_same)

lemma slots_frame_refl [simp]: "slots_frame db db"
  by (simp add: slots_frameI)

lemma create_run_frame: "slots_frame db (snd (create_run sha shaj url q p v h c pol k rid uuid now db))"
  using create_run_cases [of sha shaj url q p v h c pol k rid uuid now db]
  by (elim disjE exE conjE) (auto intro!: slots_frameI simp: events_ok_def)

lemma run_update_frame: "run_update db d \<Longrightarrow> slots_frame db d"
  using run_update_sel [of db d] by (auto intro!: slots_frameI simp: events_ok_def)

lemma set_run_status_frame: "slots_frame db (snd (set_run_status url rid s err now db))"
  using set_run_status_cases [of url rid s err now db] run_update_frame slots_frame_refl by metis

lemma save_result_frame: "slots_frame db (snd (save_result shaj url rid v now db))"
  using save_result_cases [of shaj url rid v now db] run_update_frame slots_frame_refl by metis

lemma finish_run_frame: "slots_frame db (snd (finish_run shaj url rid v now db))"
  using finish_run_cases [of shaj url rid v now db]
proof (elim disjE exE conjE)
  fix d payload
  assume u: "run_update db d"
    and eq: "snd (finish_run shaj url rid v now db) = add_event shaj rid ''run_finished'' payload now d"
  show ?thesis unfolding eq
    using run_update_sel [OF u] events_ok_same [of d db]
    by (intro slots_frameI) (simp_all add: events_ok_add)
qed simp

lemma append_event_frame: "slots_frame db (snd (append_event shaj url rid t v now db))"
  using append_event_cases [of shaj url rid t v now db]
  by (auto intro!: slots_frameI events_ok_add)

lemma start_frame:
  assumes g: "council_good db"
  shows "slots_frame db (snd (start_invocation sha shaj run s p m l t uuid now db))"
  using start_cases [OF g, of sha shaj run s p m l t uuid now]
proof (elim disjE exE)
  fix i s' p' m' l' t'
  let ?d = "snd (start_invocation sha shaj run s p m l t uuid now db)"
  assume "start_invocation_body shaj run s' p' m' l' t' (sha t') uuid now db = Inr (i, ?d)"
  from start_body_cases [OF g this] show ?thesis
    using events_ok_add [of db shaj run "''provider_retry_started''" _ now]
    by (auto simp: slots_frame_def events_ok_def add_event_def)
qed simp

lemma success_frame:
  "council_good db \<Longrightarrow> slots_frame db (snd (finish_invocation_success sha url i r now db))"
  using success_cases [of db sha url i r now] by (auto simp: slots_frame_def slots_same events_ok_def)

lemma failure_frame:
  "council_good db \<Longrightarrow> slots_frame db (snd (finish_invocation_failure url i e now db))"
  using failure_cases [of db url i e now] by (auto simp: slots_frame_def slots_same events_ok_def)

lemma undispatched_frame:
  "slots_frame db (snd (release_undispatched_invocation shaj url i e attempt prior now db))"
  using release_cases [of shaj url i e attempt prior now db]
proof (elim disjE exE)
  fix u
  let ?d = "snd (release_undispatched_invocation shaj url i e attempt prior now db)"
  assume b: "release_body shaj url i e attempt prior now db = Inr (u, ?d)"
  obtain run v q where ev: "cd_events ?d
      = delete_where q (cd_events (add_event shaj run ''provider_call_not_dispatched'' v now db))"
    using release_body_cases [OF b] by blast
  have n: "cd_next_event ?d = cd_next_event (add_event shaj run ''provider_call_not_dispatched'' v now db)"
    using release_body_cases [OF b] by (simp add: add_event_def)
  show ?thesis unfolding slots_frame_def
    using release_body_cases [OF b] events_ok_delete [OF events_ok_add ev n] by blast
qed simp

lemma decide_frame:
  "slots_frame db (snd (record_human_decision shaj run d memo now db))"
  using decide_cases [of shaj run d memo now db]
  by (auto dest!: decide_body_effect intro!: slots_frameI simp: events_ok_def)

lemma council_step_frame: "council_good db \<Longrightarrow> slots_frame db (council_step en db x)"
  by (cases x)
    (simp_all add: create_run_frame set_run_status_frame save_result_frame finish_run_frame
      append_event_frame start_frame success_frame failure_frame undispatched_frame decide_frame
      slots_frameI approval_ops_frame bind_agent_frame)

lemma council_step_good: "council_good db \<Longrightarrow> council_good (council_step en db x)"
  using council_step_frame [of db en x] slots_step_ok
  by (auto simp: council_good_def slots_frame_def)

interpretation council: invariant_machine "council_step en" council_good for en
  by unfold_locales (rule council_step_good)

interpretation slots: frozen_entries "council_step en" council_good find_slot
  "\<lambda>r. iv_status r = SUCCEEDED" for en
proof
  fix db i e x
  assume "council_good db" and f: "find_slot db i = Some e" "iv_status e = SUCCEEDED"
  then have "slots_step db (cd_slots (council_step en db x))"
    using council_step_frame by (auto simp: slots_frame_def)
  from slots_step_frozen [OF this f] show "find_slot (council_step en db x) i = Some e"
    by (simp add: find_slot_def)
qed

lemma empty_council_good [simp]: "council_good empty_council_db"
  by (simp add: council_good_def slots_ok_def events_ok_def empty_council_db_def)

end
