(* ===== verification/Council_Ledgers.thy ===== *)
theory Council_Ledgers imports Council_Laws begin

text \<open>
  What the audit store never loses: the identity of a run, the consumption of an approval, and the
  chain of human decisions.
\<close>

section \<open>Runs keep their identity\<close>

definition run_named :: "council_db \<Rightarrow> string \<Rightarrow> (string \<times> sha \<times> string option \<times> string \<times> instant) option" where
  "run_named db rid = map_option run_identity (find_run_row db rid)"

definition run_keyed :: "council_db \<Rightarrow> string \<Rightarrow> (string \<times> sha \<times> string option \<times> string \<times> instant) option" where
  "run_keyed db k = map_option run_identity (row_where (\<lambda>r. ru_key r = Some k) (cd_runs db))"

lemma start_runs [simp]:
  "cd_runs (snd (start_invocation sha shaj run s p m l t uuid now db)) = cd_runs db"
  "cd_decisions (snd (start_invocation sha shaj run s p m l t uuid now db)) = cd_decisions db"
  "cd_next_decision (snd (start_invocation sha shaj run s p m l t uuid now db)) = cd_next_decision db"
  "cd_approvals (snd (start_invocation sha shaj run s p m l t uuid now db)) = cd_approvals db"
  by (auto simp: start_invocation_def start_invocation_body_def write_txn_snd Let_def
      split: sum.split option.split prod.split)

lemma success_others [simp]:
  "cd_runs (snd (finish_invocation_success sha url i r now db)) = cd_runs db"
  "cd_decisions (snd (finish_invocation_success sha url i r now db)) = cd_decisions db"
  "cd_next_decision (snd (finish_invocation_success sha url i r now db)) = cd_next_decision db"
  "cd_approvals (snd (finish_invocation_success sha url i r now db)) = cd_approvals db"
  by (auto simp: finish_invocation_success_def write_txn_snd split: sum.split option.split)

lemma failure_others [simp]:
  "cd_runs (snd (finish_invocation_failure url i e now db)) = cd_runs db"
  "cd_decisions (snd (finish_invocation_failure url i e now db)) = cd_decisions db"
  "cd_next_decision (snd (finish_invocation_failure url i e now db)) = cd_next_decision db"
  "cd_approvals (snd (finish_invocation_failure url i e now db)) = cd_approvals db"
  by (auto simp: finish_invocation_failure_def write_txn_snd split: sum.split option.split)

lemma release_others [simp]:
  "cd_runs (snd (release_undispatched_invocation shaj url i e a p now db)) = cd_runs db"
  "cd_decisions (snd (release_undispatched_invocation shaj url i e a p now db)) = cd_decisions db"
  "cd_next_decision (snd (release_undispatched_invocation shaj url i e a p now db))
    = cd_next_decision db"
  "cd_approvals (snd (release_undispatched_invocation shaj url i e a p now db)) = cd_approvals db"
  using release_cases [of shaj url i e a p now db] by (auto dest!: release_body_cases)

lemma decide_others [simp]:
  "cd_runs (snd (record_human_decision shaj run d memo now db)) = cd_runs db"
  "cd_approvals (snd (record_human_decision shaj run d memo now db)) = cd_approvals db"
  using decide_cases [of shaj run d memo now db] by (auto dest!: decide_body_effect)

text \<open>What an operation may do to the run table.\<close>

lemma create_run_runs:
  "runs_step (cd_runs db) (cd_runs (snd (create_run sha shaj url q p v h c pol k rid uuid now db)))"
  using create_run_cases [of sha shaj url q p v h c pol k rid uuid now db]
  by (elim disjE exE conjE) (auto intro: runs_same runs_new)

lemma run_update_runs: "run_update db d \<Longrightarrow> runs_step (cd_runs db) (cd_runs d)"
  unfolding run_update_def by (elim exE conjE) (simp add: runs_update)

lemma set_run_status_runs: "runs_step (cd_runs db) (cd_runs (snd (set_run_status url rid s err now db)))"
  using set_run_status_cases [of url rid s err now db] run_update_runs runs_same by metis

lemma save_result_runs: "runs_step (cd_runs db) (cd_runs (snd (save_result shaj url rid v now db)))"
  using save_result_cases [of shaj url rid v now db] run_update_runs runs_same by metis

lemma finish_run_runs: "runs_step (cd_runs db) (cd_runs (snd (finish_run shaj url rid v now db)))"
  using finish_run_cases [of shaj url rid v now db]
  by (elim disjE exE conjE) (simp_all add: runs_same run_update_runs)

lemma append_event_runs [simp]: "cd_runs (snd (append_event shaj url rid t v now db)) = cd_runs db"
  using append_event_cases [of shaj url rid t v now db] by auto

lemma bind_agent_runs [simp]: "cd_runs (snd (bind_agent_request rid pl run now db)) = cd_runs db"
  by (simp add: bind_agent_frame)

lemma council_step_runs: "runs_step (cd_runs db) (cd_runs (council_step en db x))"
  by (cases x) (simp_all add: create_run_runs set_run_status_runs save_result_runs finish_run_runs
      runs_same approval_ops_frame)

lemma runs_step_find:
  assumes "runs_step rows rows'" and "\<And>r r'. run_identity r = run_identity r' \<Longrightarrow> p r = p r'"
    and "map_option run_identity (row_where p rows) = Some i"
  shows "map_option run_identity (row_where p rows') = Some i"
  using assms(1)
proof (cases rule: runs_step.cases)
  case (runs_new row)
  then show ?thesis using assms(3) by (auto simp: row_where_append)
next
  case (runs_update f rid)
  have "row_where p rows' = map_option (\<lambda>r. if ru_id r = rid then f r else r) (row_where p rows)"
    unfolding runs_update by (rule row_where_update) (rule assms(2) [OF runs_update(2)])
  with assms(3) show ?thesis by (cases "row_where p rows") (simp_all add: runs_update(2))
qed (use assms(3) in simp)

lemma run_identity_fields:
  "run_identity r = run_identity r' \<Longrightarrow> ru_id r = ru_id r' \<and> ru_key r = ru_key r'
     \<and> ru_request_sha r = ru_request_sha r'"
  by (simp add: run_identity_def)

interpretation named_runs: frozen_entries "council_step en" council_good run_named "\<lambda>_. True" for en
proof
  fix db i e x
  assume "run_named db i = Some e"
  then show "run_named (council_step en db x) i = Some e"
    unfolding run_named_def find_run_row_def
    by (intro runs_step_find [OF council_step_runs]) (auto dest: run_identity_fields)
qed

interpretation keyed_runs: frozen_entries "council_step en" council_good run_keyed "\<lambda>_. True" for en
proof
  fix db k e x
  assume "run_keyed db k = Some e"
  then show "run_keyed (council_step en db x) k = Some e"
    unfolding run_keyed_def
    by (intro runs_step_find [OF council_step_runs]) (auto dest: run_identity_fields)
qed

definition run_ids_ok :: "council_db \<Rightarrow> bool" where
  "run_ids_ok db \<longleftrightarrow> unique_on ru_id (cd_runs db)"

lemma runs_step_unique: "runs_step rows rows' \<Longrightarrow> unique_on ru_id rows \<Longrightarrow> unique_on ru_id rows'"
proof (induction rule: runs_step.induct)
  case (runs_update f rid)
  then have "ru_id (f r) = ru_id r" for r using run_identity_fields by blast
  with runs_update show ?case by (simp add: unique_on_update)
qed (simp_all add: unique_on_snoc)

interpretation run_ids: invariant_machine "council_step en" run_ids_ok for en
  by unfold_locales (simp add: run_ids_ok_def runs_step_unique [OF council_step_runs])

section \<open>Consumed approvals\<close>

text \<open>The approved plan, the approver, the bound on paid calls and the consumption time.\<close>

definition approval_terms :: "approval_row \<Rightarrow> string \<times> string \<times> int \<times> instant option" where
  "approval_terms a = (ap_plan a, ap_by a, ap_max a, ap_consumed a)"

definition approval_entry :: "council_db \<Rightarrow> sha \<Rightarrow> (string \<times> string \<times> int \<times> instant option) option" where
  "approval_entry db t = map_option approval_terms (find_approval db t)"

lemma update_txn_approvals:
  "cd_approvals (snd (write_txn (\<lambda>db. rbind (update_run rid f db) (\<lambda>db'. Inr (a, db'))) db))
     = cd_approvals db"
  using update_txn_cases [of rid f a "\<lambda>x. x" db] by auto

lemma run_ops_approvals [simp]:
  "cd_approvals (snd (create_run sha shaj url q p v h c pol k r uuid now db)) = cd_approvals db"
  "cd_approvals (snd (set_run_status url rid s err now db)) = cd_approvals db"
  "cd_approvals (snd (save_result shaj url rid u now db)) = cd_approvals db"
  "cd_approvals (snd (finish_run shaj url rid u now db)) = cd_approvals db"
  "cd_approvals (snd (append_event shaj url rid t u now db)) = cd_approvals db"
  "cd_approvals (snd (bind_agent_request rid pl run now db)) = cd_approvals db"
  using create_run_cases [of sha shaj url q p v h c pol k r uuid now db]
    set_run_status_cases [of url rid s err now db] save_result_cases [of shaj url rid u now db]
    finish_run_cases [of shaj url rid u now db] append_event_cases [of shaj url rid t u now db]
    run_update_sel [of db] bind_agent_frame(5)
  by auto

lemma record_approval_entry:
  "approval_entry db t = Some e \<Longrightarrow>
   approval_entry (snd (record_run_approval t' plan nm calls now db)) t = Some e"
  by (auto simp: approval_entry_def record_run_approval_def write_txn_snd find_approval_def
      row_where_append)

lemma attach_approval_entry:
  "approval_entry (snd (attach_run_approval t' run db)) t = approval_entry db t"
  by (simp add: approval_entry_def attach_run_approval_def write_txn_snd find_approval_def
      row_where_update option.map_comp comp_def)
    (rule option.map_cong0, simp add: approval_terms_def)

lemma consume_approval_entry:
  assumes "approval_entry db t = Some e" and "snd (snd (snd e)) \<noteq> None"
  shows "approval_entry (snd (consume_run_approval t' plan now db)) t = Some e"
proof -
  obtain a where f: "find_approval db t = Some a" and e: "approval_terms a = e" and c: "ap_consumed a \<noteq> None"
    using assms by (auto simp: approval_entry_def approval_terms_def)
  have "find_approval (db\<lparr>cd_approvals := update_where (\<lambda>r. ap_token r = t')
      (\<lambda>r. r\<lparr>ap_consumed := Some now\<rparr>) (cd_approvals db)\<rparr>) t = Some a" if "t' \<noteq> t"
    using f that row_where_Some [OF f [unfolded find_approval_def]]
    by (auto simp: find_approval_def row_where_update)
  then show ?thesis using f e c
    by (cases "t' = t")
      (auto simp: approval_entry_def consume_run_approval_def write_txn_snd split: option.split)
qed

interpretation approvals: frozen_entries "council_step en" council_good approval_entry
  "\<lambda>e. snd (snd (snd e)) \<noteq> None" for en
proof
  fix db t e x
  assume a: "approval_entry db t = Some e" "snd (snd (snd e)) \<noteq> None"
  show "approval_entry (council_step en db x) t = Some e"
    using a record_approval_entry [OF a(1)] consume_approval_entry [OF a]
    by (cases x) (simp_all only: council_step.simps attach_approval_entry,
      simp_all add: approval_entry_def find_approval_def)
qed

section \<open>The chain of human decisions\<close>

lemma run_ops_decisions [simp]:
  "cd_decisions (snd (create_run sha shaj url q p v h c pol k r uuid now db)) = cd_decisions db"
  "cd_next_decision (snd (create_run sha shaj url q p v h c pol k r uuid now db)) = cd_next_decision db"
  "cd_decisions (snd (set_run_status url rid s err now db)) = cd_decisions db"
  "cd_next_decision (snd (set_run_status url rid s err now db)) = cd_next_decision db"
  "cd_decisions (snd (save_result shaj url rid u now db)) = cd_decisions db"
  "cd_next_decision (snd (save_result shaj url rid u now db)) = cd_next_decision db"
  "cd_decisions (snd (finish_run shaj url rid u now db)) = cd_decisions db"
  "cd_next_decision (snd (finish_run shaj url rid u now db)) = cd_next_decision db"
  "cd_decisions (snd (append_event shaj url rid t u now db)) = cd_decisions db"
  "cd_next_decision (snd (append_event shaj url rid t u now db)) = cd_next_decision db"
  using create_run_cases [of sha shaj url q p v h c pol k r uuid now db]
    set_run_status_cases [of url rid s err now db] save_result_cases [of shaj url rid u now db]
    finish_run_cases [of shaj url rid u now db] append_event_cases [of shaj url rid t u now db]
    run_update_sel [of db]
  by auto

lemma token_ops_decisions [simp]:
  "cd_decisions (snd (record_run_approval t plan nm calls now db)) = cd_decisions db"
  "cd_next_decision (snd (record_run_approval t plan nm calls now db)) = cd_next_decision db"
  "cd_decisions (snd (consume_run_approval t plan now db)) = cd_decisions db"
  "cd_next_decision (snd (consume_run_approval t plan now db)) = cd_next_decision db"
  "cd_decisions (snd (attach_run_approval t run db)) = cd_decisions db"
  "cd_next_decision (snd (attach_run_approval t run db)) = cd_next_decision db"
  "cd_decisions (snd (bind_agent_request rid pl run now db)) = cd_decisions db"
  "cd_next_decision (snd (bind_agent_request rid pl run now db)) = cd_next_decision db"
  by (simp_all add: record_run_approval_def consume_run_approval_def attach_run_approval_def
      bind_agent_request_def write_txn_snd split: option.split)

definition record_previous :: "json \<Rightarrow> json" where
  "record_previous v = (case v of JObj m \<Rightarrow> get_or_null m ''previous_record_sha256'' | _ \<Rightarrow> JNull)"

text \<open>Each row holds the hash of its record, and its record names the hash of the row before.\<close>

fun decision_chain :: "(json \<Rightarrow> sha) \<Rightarrow> sha option \<Rightarrow> decision_row list \<Rightarrow> bool" where
  "decision_chain shaj prev [] = True"
| "decision_chain shaj prev (d # ds) \<longleftrightarrow>
     hd_previous d = prev \<and> hd_sha d = shaj (hd_record d)
     \<and> record_previous (hd_record d) = opt_str prev
     \<and> decision_chain shaj (Some (hd_sha d)) ds"

definition chain_head :: "sha option \<Rightarrow> decision_row list \<Rightarrow> sha option" where
  "chain_head prev ds = (if ds = [] then prev else Some (hd_sha (last ds)))"

lemma decision_chain_snoc:
  "decision_chain shaj prev (ds @ [d]) \<longleftrightarrow>
     decision_chain shaj prev ds \<and> hd_previous d = chain_head prev ds
     \<and> hd_sha d = shaj (hd_record d) \<and> record_previous (hd_record d) = opt_str (chain_head prev ds)"
  by (induction ds arbitrary: prev) (auto simp: chain_head_def)

text \<open>Two chains that end in the same hash are the same chain.\<close>

lemma decision_chain_unique:
  assumes "decision_chain shaj None ds" and "decision_chain shaj None ds'"
    and "chain_head None ds = chain_head None ds'"
    and "inj_on shaj (hd_record ` (set ds \<union> set ds'))"
  shows "map hd_record ds = map hd_record ds'"
  using assms
proof (induction ds arbitrary: ds' rule: rev_induct)
  case Nil
  then show ?case by (simp add: chain_head_def split: if_splits)
next
  case (snoc d ds)
  then have "ds' \<noteq> []" by (auto simp: chain_head_def)
  then obtain es e where ds': "ds' = es @ [e]" by (cases ds' rule: rev_cases) auto
  have "shaj (hd_record d) = shaj (hd_record e)"
    using snoc.prems by (simp add: ds' chain_head_def decision_chain_snoc)
  then have same: "hd_record d = hd_record e"
    by (rule inj_onD [OF snoc.prems(4)]) (simp_all add: ds')
  have "record_previous (hd_record d) = opt_str (chain_head None ds)"
    "record_previous (hd_record e) = opt_str (chain_head None es)"
    using snoc.prems(1,2) by (simp_all add: ds' decision_chain_snoc)
  then have "chain_head None ds = chain_head None es"
    using same by simp
  moreover have "inj_on shaj (hd_record ` (set ds \<union> set es))"
    using snoc.prems(4) by (rule inj_on_subset) (auto simp: ds')
  ultimately have "map hd_record ds = map hd_record es"
    using snoc.IH [of es] snoc.prems(1,2) by (simp add: ds' decision_chain_snoc)
  with same show ?case by (simp add: ds')
qed

definition decisions_of :: "council_db \<Rightarrow> string \<Rightarrow> decision_row list" where
  "decisions_of db run = rows_where (\<lambda>d. hd_run d = run) (cd_decisions db)"

definition decisions_good :: "(json \<Rightarrow> sha) \<Rightarrow> council_db \<Rightarrow> bool" where
  "decisions_good shaj db \<longleftrightarrow> sorted (map hd_id (cd_decisions db))
     \<and> (\<forall>d\<in>set (cd_decisions db). hd_id d < cd_next_decision db)
     \<and> (\<forall>run. decision_chain shaj None (decisions_of db run))"

lemma decisions_sorted:
  "decisions_good shaj db \<Longrightarrow> sort_key hd_id (decisions_of db run) = decisions_of db run"
  by (rule sort_key_id_if_sorted) (simp add: decisions_good_def decisions_of_def rows_where_def sorted_filter)

lemma last_decision_eq:
  "decisions_good shaj db \<Longrightarrow>
   map_option hd_sha (last_decision db run) = chain_head None (decisions_of db run)"
  using decisions_sorted [of shaj db run]
  by (cases "decisions_of db run" rule: rev_cases)
    (simp_all add: last_decision_def chain_head_def flip: decisions_of_def)

lemma decision_record_previous:
  "record_previous (canon (decision_record run d n st ql oc w rsha prev now)) = opt_str prev"
proof -
  let ?m = "[(''run_id'', JStr run), (''decision'', JStr d), (''note'', JStr n),
       (''run_status'', JStr st), (''completion_quality'', ql),
       (''aggregate_outcome'', oc), (''aggregate_winner'', w),
       (''result_sha256'', JStr rsha), (''previous_record_sha256'', opt_str prev),
       (''decided_at'', JInt now)]"
  have "wf_dict ?m" by (simp add: wf_dict_def)
  from canon_get [OF this] show ?thesis
    by (simp add: decision_record_def record_previous_def) (simp add: get_or_null_def)
qed

lemma decide_good:
  assumes good: "decisions_good shaj db"
    and b: "record_decision_body shaj run d n now db = Inr (row, db')"
  shows "decisions_good shaj db'"
proof -
  note eff = decide_body_effect [OF b]
  have "decisions_of db' r = (if r = run then decisions_of db r @ [row] else decisions_of db r)" for r
    using eff by (simp add: decisions_of_def rows_where_def)
  moreover have "hd_previous row = chain_head None (decisions_of db run)"
    using eff last_decision_eq [OF good] by simp
  moreover have "record_previous (hd_record row) = opt_str (hd_previous row)"
    using eff by (auto simp: decision_record_previous)
  ultimately show ?thesis
    using good eff by (auto simp: decisions_good_def decision_chain_snoc sorted_append less_imp_le
        intro: less_SucI)
qed

lemma decisions_good_same:
  "cd_decisions d = cd_decisions db \<Longrightarrow> cd_next_decision d = cd_next_decision db \<Longrightarrow>
   decisions_good shaj d = decisions_good shaj db"
  by (simp add: decisions_good_def decisions_of_def)

lemma council_step_decisions:
  assumes good: "decisions_good (en_shaj en) db"
  shows "decisions_good (en_shaj en) (council_step en db x)"
proof (cases x)
  case (Decide run d memo now)
  then show ?thesis
    using decide_cases [of "en_shaj en" run d memo now db] decide_good [OF good] good by auto
qed (use good in \<open>simp_all add: decisions_good_def decisions_of_def\<close>)

interpretation decisions: invariant_machine "council_step en" "decisions_good (en_shaj en)" for en
  by unfold_locales (rule council_step_decisions)

interpretation decision_log: append_only_log "council_step en" cd_decisions for en
proof
  show "\<exists>ys. cd_decisions (council_step en db x) = cd_decisions db @ ys" for db x
  proof (cases x)
    case (Decide run d memo now)
    then show ?thesis
      using decide_cases [of "en_shaj en" run d memo now db] by (auto dest!: decide_body_effect)
  qed simp_all
qed

lemma empty_decisions_good [simp]: "decisions_good shaj empty_council_db"
  by (simp add: decisions_good_def decisions_of_def rows_where_def empty_council_db_def)

end
