(* ===== verification/Council_Properties.thy ===== *)
theory Council_Properties imports Council_Ledgers begin

text \<open>The properties of the audit store.\<close>

section \<open>Creating a run again\<close>

lemma council_reachable_good: "council_good (council_run en empty_council_db ops)"
  unfolding council_run_def by (rule council.run_good) simp

lemma reachable_run_ids: "run_ids_ok (council_run en empty_council_db ops)"
  unfolding council_run_def by (rule run_ids.run_good) (simp add: run_ids_ok_def empty_council_db_def)

lemma find_run_unique:
  "run_ids_ok db \<Longrightarrow> row \<in> set (cd_runs db) \<Longrightarrow> find_run_row db (ru_id row) = Some row"
  unfolding find_run_row_def run_ids_ok_def by (rule row_where_unique)

lemma create_run_body_result:
  assumes u: "run_ids_ok db"
    and b: "create_run_body sha q p v h c pol req k explicit rid now db = Inr (r, db')"
  shows "\<exists>row. find_run_row db' r = Some row \<and> ru_request_sha row = req \<and> (explicit \<longrightarrow> r = rid)
    \<and> (find_run_row db rid = None \<longrightarrow> k \<noteq> None \<longrightarrow> row_where (\<lambda>x. ru_key x = k) (cd_runs db') = Some row)"
proof (cases "find_run_row db rid")
  case (Some ex)
  then show ?thesis using b
    by (auto simp: create_run_body_def find_run_row_def split: if_splits dest: row_where_Some)
next
  case None
  show ?thesis
  proof (cases "if k = None then None else row_where (\<lambda>r. ru_key r = k) (cd_runs db)")
    case (Some ex)
    then have ex: "row_where (\<lambda>r. ru_key r = k) (cd_runs db) = Some ex" by (simp split: if_splits)
    then have "find_run_row db (ru_id ex) = Some ex"
      using find_run_unique [OF u] row_where_Some [OF ex] by blast
    with None Some ex b show ?thesis by (auto simp: create_run_body_def split: if_splits)
  next
    case None2: None
    with None b show ?thesis
      by (auto simp: create_run_body_def find_run_row_def row_where_append split: if_splits)
  qed
qed

lemma create_run_validated:
  assumes "create_run sha shaj url q p v h c pol key run_id uuid now db = (Inr r, db1)"
  shows "\<exists>q' p' v' h' k' name. (k' = None \<longleftrightarrow> key = None) \<and> (\<forall>uuid now db.
    create_run sha shaj url q p v h c pol key run_id uuid now db
    = write_txn (create_run_body sha q' p' v' h' (canon c) (canon pol)
        (shaj (canon (request_value q' p' v' h' c pol))) k' (run_id \<noteq> None)
        (if run_id = None then uuid else name) now) db)"
proof -
  from assms obtain q' p' v' h' k' rid where
    texts: "required_text ''question'' q = Inr q'" "required_text ''protocol_id'' p = Inr p'"
      "required_text ''protocol_version'' v = Inr v'" "required_text ''protocol_hash'' h = Inr h'"
    and shapes: "case c of JList _ \<Rightarrow> True | _ \<Rightarrow> False" "case pol of JObj _ \<Rightarrow> True | _ \<Rightarrow> False"
    and clean: "assert_no_credentials url ''$.provider_configs'' c = Inr ()"
      "assert_no_credentials url ''$.policy'' pol = Inr ()"
    and key: "(case key of None \<Rightarrow> Inr None
        | Some k \<Rightarrow> rbind (required_text ''idempotency_key'' k) (\<lambda>t. Inr (Some t))) = Inr k'"
    and name: "(case run_id of None \<Rightarrow> Inr uuid | Some r \<Rightarrow> required_text ''run_id'' r) = Inr rid"
    by (auto simp: create_run_def result_simps simp del: split_paired_Ex split: sum.splits)
  from shapes obtain cs pm where cp: "c = JList cs" "pol = JObj pm"
    by (cases c; cases pol) simp_all
  have k: "k' = None \<longleftrightarrow> key = None" using key by (auto simp: result_simps split: option.splits)
  have n: "(case run_id of None \<Rightarrow> Inr u | Some r \<Rightarrow> required_text ''run_id'' r)
      = Inr (if run_id = None then u else rid)" for u
    using name by (simp split: option.splits)
  have "create_run sha shaj url q p v h c pol key run_id u t d
    = write_txn (create_run_body sha q' p' v' h' (canon c) (canon pol)
        (shaj (canon (request_value q' p' v' h' c pol))) k' (run_id \<noteq> None)
        (if run_id = None then u else rid) t) d" for u t d
    unfolding create_run_def texts rbind_simps require_def clean key n cp by (simp only: json.case if_True rbind_simps clean [unfolded cp] key n sum.case prod.case)
  with k show ?thesis by blast
qed

text \<open>C34: Creating a run is idempotent.  Once \<open>create_run\<close> has answered a call that carries an
  idempotency key or a run id, then whatever the store does afterwards, the same call (with a
  fresh UUID and at any later time) answers the same run and changes nothing.\<close>

theorem create_run_idempotent:
  assumes first: "create_run (en_sha en) (en_shaj en) (en_url en) q p v h c pol key run_id uuid now
      (council_run en empty_council_db before) = (Inr r, db1)"
    and named: "key \<noteq> None \<or> run_id \<noteq> None"
    and fresh: "find_run_row (council_run en empty_council_db before) uuid = None"
      "find_run_row (council_run en db1 later) uuid' = None"
  shows "create_run (en_sha en) (en_shaj en) (en_url en) q p v h c pol key run_id uuid' now'
    (council_run en db1 later) = (Inr r, council_run en db1 later)"
proof -
  let ?db = "council_run en empty_council_db before" and ?db2 = "council_run en db1 later"
  obtain q' p' v' h' k' name where key: "k' = None \<longleftrightarrow> key = None"
    and run: "\<And>uuid now db. create_run (en_sha en) (en_shaj en) (en_url en) q p v h c pol key run_id uuid now db
      = write_txn (create_run_body (en_sha en) q' p' v' h' (canon c) (canon pol)
        (en_shaj en (canon (request_value q' p' v' h' c pol))) k' (run_id \<noteq> None)
        (if run_id = None then uuid else name) now) db"
    using create_run_validated [OF first] by blast
  let ?req = "en_shaj en (canon (request_value q' p' v' h' c pol))"
  have b: "create_run_body (en_sha en) q' p' v' h' (canon c) (canon pol) ?req k' (run_id \<noteq> None)
      (if run_id = None then uuid else name) now ?db = Inr (r, db1)"
    using first unfolding run write_txn_eq .
  obtain row where row: "find_run_row db1 r = Some row" "ru_request_sha row = ?req"
      "run_id \<noteq> None \<longrightarrow> r = name"
    and keyed: "run_id = None \<longrightarrow> row_where (\<lambda>x. ru_key x = k') (cd_runs db1) = Some row"
    using create_run_body_result [OF reachable_run_ids b] fresh(1) named key
    by (cases "run_id = None") (simp_all, blast+)
  have good: "council_good db1"
    using council_step_good [OF council_reachable_good [of en before],
        of en "CreateRun q p v h c pol key run_id uuid now"] first by simp
  have id: "ru_id row = r" using row(1) by (auto simp: find_run_row_def dest: row_where_Some)
  have "run_named ?db2 r = Some (run_identity row)"
    unfolding council_run_def
    by (rule named_runs.run_settled_frozen [OF good]) (simp_all add: run_named_def row(1))
  then obtain row2 where n: "find_run_row ?db2 r = Some row2" "run_identity row2 = run_identity row"
    by (auto simp: run_named_def)
  have keyed2: "\<exists>row3. row_where (\<lambda>x. ru_key x = k') (cd_runs ?db2) = Some row3
      \<and> run_identity row3 = run_identity row" if "run_id = None"
  proof -
    from that named key obtain t where t: "k' = Some t" by auto
    with keyed that have "run_keyed db1 t = Some (run_identity row)" by (simp add: run_keyed_def)
    then have "run_keyed ?db2 t = Some (run_identity row)"
      unfolding council_run_def by (rule keyed_runs.run_settled_frozen [OF good]) simp
    then show ?thesis by (auto simp: run_keyed_def t)
  qed
  have "create_run_body (en_sha en) q' p' v' h' (canon c) (canon pol) ?req k' (run_id \<noteq> None)
      (if run_id = None then uuid' else name) now' ?db2 = Inr (r, ?db2)"
  proof (cases "run_id = None")
    case False
    with n row id run_identity_fields [OF n(2)] show ?thesis by (auto simp: create_run_body_def)
  next
    case True
    obtain row3 where r3: "row_where (\<lambda>x. ru_key x = k') (cd_runs ?db2) = Some row3"
      "run_identity row3 = run_identity row" using keyed2 [OF True] by blast
    moreover have "k' \<noteq> None" using True named key by simp
    ultimately show ?thesis using True fresh(2) row id run_identity_fields [OF r3(2)]
      by (auto simp: create_run_body_def)
  qed
  then show ?thesis unfolding run by (rule write_txn_Inr)
qed

text \<open>A concrete environment and store for the witnesses.\<close>

definition example_env :: council_env where
  "example_env = \<lparr>en_sha = (\<lambda>s. s), en_shaj = (\<lambda>v. case v of
     JObj m \<Rightarrow> (case get_or_null m ''note'' of JStr s \<Rightarrow> s | _ \<Rightarrow> ''h'') | _ \<Rightarrow> ''h''),
     en_url = (\<lambda>_. (False, []))\<rparr>"

definition example_create :: council_op where
  "example_create = CreateRun (JStr ''q'') (JStr ''p'') (JStr ''1'') (JStr ''h'') (JList []) (JObj [])
     (Some (JStr ''k'')) None ''u1'' 1"

lemma create_run_idempotent_witness:
  "create_run (en_sha example_env) (en_shaj example_env) (en_url example_env) (JStr ''q'') (JStr ''p'')
     (JStr ''1'') (JStr ''h'') (JList []) (JObj []) (Some (JStr ''k'')) None ''u2'' 9
     (council_run example_env (council_step example_env empty_council_db example_create)
       [SetStatus ''u1'' (JStr ''failed'') NoError 5])
   = (Inr ''u1'', council_run example_env (council_step example_env empty_council_db example_create)
       [SetStatus ''u1'' (JStr ''failed'') NoError 5])"
  by (rule create_run_idempotent [where uuid = "''u1''" and now = 1 and before = "[]"]; code_simp)

section \<open>Successful calls\<close>

lemma success_on_succeeded:
  assumes "find_slot db i = Some row" and "iv_status row = SUCCEEDED"
  shows "snd (finish_invocation_success sha url i r now db) = db"
  using assms by (simp add: finish_invocation_success_def write_txn_snd split: sum.split)

lemma failure_on_succeeded:
  assumes "find_slot db i = Some row" and "iv_status row = SUCCEEDED"
  shows "finish_invocation_failure url i e now db
    = (Inl (RuntimeError ''successful invocation cannot be overwritten by failure''), db)"
  using assms unfolding finish_invocation_failure_def error_clean(1) by (simp add: write_txn_def)

lemma release_on_succeeded:
  assumes "find_slot db i = Some row" and "iv_status row = SUCCEEDED"
  shows "snd (release_undispatched_invocation shaj url i e a p now db) = db"
  using assms
  by (simp add: release_undispatched_invocation_def release_body_def write_txn_snd split: sum.split)

text \<open>C35: The result of a paid call is kept for good.  Once the store has accepted a response for an
  invocation, then after any further operations \<open>get_invocation\<close> still answers the very same
  row, which is succeeded and holds that response; reporting a failure for it is refused, and
  neither another response nor a release changes the store.\<close>

theorem succeeded_invocation_permanent:
  assumes stored: "finish_invocation_success (en_sha en) (en_url en) i r now
      (council_run en empty_council_db before) = (Inr (), db1)"
  shows "\<exists>row. iv_status row = SUCCEEDED
    \<and> oc_response (iv_outcome row) = Some (canon (JObj (response_to_dict r)))
    \<and> get_invocation (council_run en db1 later) i = Some row
    \<and> finish_invocation_failure (en_url en) i e t (council_run en db1 later)
        = (Inl (RuntimeError ''successful invocation cannot be overwritten by failure''),
           council_run en db1 later)
    \<and> snd (finish_invocation_success (en_sha en) (en_url en) i r' t (council_run en db1 later))
        = council_run en db1 later
    \<and> snd (release_undispatched_invocation (en_shaj en) (en_url en) i e a p t
            (council_run en db1 later)) = council_run en db1 later"
proof -
  obtain row where row: "find_slot db1 i = Some row" "iv_status row = SUCCEEDED"
      "oc_response (iv_outcome row) = Some (canon (JObj (response_to_dict r)))"
    using success_recorded [OF stored] by blast
  have "council_good db1"
    using council_step_good [OF council_reachable_good [of en before], of en "SlotSuccess i r now"] stored
    by simp
  then have "find_slot (council_run en db1 later) i = Some row"
    unfolding council_run_def by (rule slots.run_settled_frozen) (rule row)+
  with row show ?thesis
    by (intro exI [of _ row])
      (simp add: get_invocation_def failure_on_succeeded success_on_succeeded release_on_succeeded)
qed

definition example_response :: provider_response where
  "example_response = \<lparr>rs_content = ''a'', rs_model = ''m'', rs_request = None,
     rs_usage = usage_from_dict None, rs_latency = 5, rs_attempts = 1, rs_finish = None,
     rs_metadata = []\<rparr>"

definition example_error :: provider_error where
  "example_error = mk_provider_error ''lost'' CONNECTION True None None 1 False None None None None JNull"

definition example_start :: council_op where
  "example_start = StartSlot ''u1'' (JStr ''s'') (JStr ''p'') (JStr ''m'') (JStr ''l'') (JStr ''t'') ''i1'' 2"

lemma succeeded_invocation_permanent_witness:
  "\<exists>row. iv_status row = SUCCEEDED
    \<and> oc_response (iv_outcome row) = Some (canon (JObj (response_to_dict example_response)))
    \<and> get_invocation (council_run example_env (snd (finish_invocation_success (en_sha example_env)
        (en_url example_env) ''i1'' example_response 3 (council_run example_env empty_council_db
          [example_create, example_start]))) [example_start]) ''i1'' = Some row"
proof -
  let ?db = "council_run example_env empty_council_db [example_create, example_start]"
  have "finish_invocation_success (en_sha example_env) (en_url example_env) ''i1'' example_response 3 ?db
    = (Inr (), snd (finish_invocation_success (en_sha example_env) (en_url example_env) ''i1''
        example_response 3 ?db))" by code_simp
  from succeeded_invocation_permanent [OF this, of "[example_start]"] show ?thesis by blast
qed

section \<open>Releasing an undispatched retry\<close>

lemma start_failed_slot:
  assumes good: "council_good db" and p: "find_slot db i = Some p" "iv_status p = FAILED"
    and start: "start_invocation sha shaj run s q m l t uuid now db = (Inr i, db1)"
  shows "db1 = (add_event shaj (iv_run p) ''provider_retry_started'' (retry_event p) now db)
    \<lparr>cd_slots := update_where (\<lambda>r. iv_id r = i) (restart_slot now) (cd_slots db)\<rparr>"
proof -
  from start obtain s' q' m' l' t' where b:
    "start_invocation_body shaj run s' q' m' l' t' (sha t') uuid now db = Inr (i, db1)"
    by (auto simp: start_invocation_def write_txn_eq simp del: split_paired_Ex split: sum.splits prod.splits)
  show ?thesis
  proof (cases "slot_at db run s' q'")
    case None
    then show ?thesis using b p by (auto simp: start_invocation_body_def split: if_splits)
  next
    case (Some ex)
    then have "iv_id ex = i" using b
      by (auto simp: start_invocation_body_def Let_def split: if_splits)
    then have "ex = p" using find_slot_of [OF good, of ex] slot_at_mem [OF Some] p(1) by simp
    then show ?thesis using b Some p(2) slot_at_mem [OF Some] \<open>iv_id ex = i\<close>
      by (auto simp: start_invocation_body_def Let_def split: if_splits)
  qed
qed

lemma retry_event_fields:
  "\<exists>pl. canon (retry_event p) = JObj pl \<and> get_or_null pl ''stage'' = JStr (iv_stage p)
    \<and> get_or_null pl ''provider'' = JStr (iv_provider p)
    \<and> get_or_null pl ''retry_call_count'' = JInt (iv_calls p + 1)
    \<and> get_or_null pl ''retry_kind'' \<in> {JStr ''application'', JStr ''truncation''}
    \<and> get_or_null pl ''prior_failure'' = canon (recorded_failure (iv_outcome p))"
proof -
  let ?m = "[(''stage'', JStr (iv_stage p)), (''provider'', JStr (iv_provider p)),
        (''retry_call_count'', JInt (iv_calls p + 1)),
        (''retry_kind'', JStr (if ends_with (message_text (recorded_failure (iv_outcome p)))
            ''(finish_reason=length)'' then ''truncation'' else ''application'')),
        (''prior_failure'', recorded_failure (iv_outcome p))]"
  let ?pl = "sort_key fst (map (\<lambda>x. (fst x, canon (snd x))) ?m)"
  have w: "wf_dict ?m" by (simp add: wf_dict_def)
  have "canon (retry_event p) = JObj ?pl" by (simp only: retry_event_def Let_def canon.simps)
  moreover have "get_or_null ?pl k = canon (get_or_null ?m k)" for k by (rule canon_get [OF w])
  ultimately show ?thesis by (intro exI [of _ ?pl]) (simp, simp add: get_or_null_def)
qed

lemma undispatched_clean:
  "assert_no_credentials url path (undispatched_event row a n kind (JObj (error_object e0)) e) = Inr ()"
  if "plain_leaf kind"
proof -
  let ?keys = "[''version'', ''invocation_id'', ''stage'', ''provider'', ''model'', ''lineage'',
    ''prompt_sha256'', ''reservation_attempt'', ''attempted_call_count'', ''restored_call_count'',
    ''retry_kind'', ''prior_failure'', ''error'']"
  have "list_all harmless_key ?keys" by code_simp
  then show ?thesis
    unfolding undispatched_event_def assert_no_credentials.simps
    using that error_clean(1) [of _ _ e] error_clean(2) [of _ _ e0, unfolded error_object_canon]
    by (intro items_clean) (auto simp: leaf_clean simp del: assert_no_credentials.simps)
qed

lemma failure_restored:
  "restored_outcome (failure_outcome e) (JObj (error_object e)) = failure_outcome e"
proof -
  have "canon (JObj (error_object e)) = JObj (error_object e)"
    unfolding error_object_canon [symmetric] by (rule canon_idem)
  then show ?thesis unfolding failure_outcome_def error_object_canon restored_outcome_def
    by (simp add: no_outcome_def keep_truthy_def truthy_bool_def del: canon.simps)
qed

lemma restored_slots:
  assumes "unique_on iv_id rows" and "p \<in> set rows" and "iv_status p = FAILED"
    and "restored_outcome (iv_outcome p) f = iv_outcome p"
  shows "update_where (\<lambda>r. iv_id r = iv_id p \<and> iv_status r = RUNNING \<and> iv_calls r = iv_calls p + 1)
    (restore_slot p f) (update_where (\<lambda>r. iv_id r = iv_id p) (restart_slot now) rows) = rows"
proof -
  have again: "restore_slot p f (restart_slot now p) = p"
    using assms(3,4) by (simp add: restore_slot_def restart_slot_def)
  show ?thesis unfolding update_where_def list.map_comp
  proof (rule map_idI)
    fix x assume x: "x \<in> set rows"
    let ?f = "(\<lambda>r. if iv_id r = iv_id p \<and> iv_status r = RUNNING \<and> iv_calls r = iv_calls p + 1
        then restore_slot p f r else r) \<circ> (\<lambda>r. if iv_id r = iv_id p then restart_slot now r else r)"
    show "?f x = x"
    proof (cases "iv_id x = iv_id p")
      case True
      then have "x = p" by (rule unique_onD [OF assms(1) x assms(2)])
      with again show ?thesis by simp
    qed simp
  qed
qed

text \<open>The audit trail that the restart of a failed slot leaves is the one the release asks for.\<close>

lemma retry_audit_found:
  assumes out: "iv_outcome p = failure_outcome e0" "\<not> pe_ambiguous e0" and p: "iv_status p = FAILED" "1 \<le> iv_calls p"
    and fresh: "list_all (\<lambda>x. \<not> retry_matches (restart_slot t p) x) (cd_events db)"
    and ev: "cd_events db1 = cd_events (add_event shaj (iv_run p) ''provider_retry_started'' (retry_event p) t db)"
  shows "\<exists>kind. plain_leaf kind
    \<and> retry_audit url db1 (restart_slot t p) p = Inr (cd_next_event db, kind, JObj (error_object e0))"
proof -
  obtain pl where pl: "canon (retry_event p) = JObj pl" "get_or_null pl ''stage'' = JStr (iv_stage p)"
    "get_or_null pl ''provider'' = JStr (iv_provider p)"
    "get_or_null pl ''retry_call_count'' = JInt (iv_calls p + 1)"
    "get_or_null pl ''retry_kind'' \<in> {JStr ''application'', JStr ''truncation''}"
    "get_or_null pl ''prior_failure'' = canon (recorded_failure (iv_outcome p))"
    using retry_event_fields by blast
  let ?e = "\<lparr>ev_id = cd_next_event db, ev_run = iv_run p, ev_type = ''provider_retry_started'',
     ev_payload = JObj pl, ev_sha = shaj (JObj pl), ev_created = t\<rparr>"
  have "retry_matches (restart_slot t p) ?e"
    using pl by (simp add: retry_matches_def restart_slot_def)
  then have "rows_where (retry_matches (restart_slot t p)) (cd_events db1) = [?e]"
    using fresh by (simp add: ev add_event_def pl(1) rows_where_def list_all_iff)
  moreover have err: "oc_error (iv_outcome p) = Some (JObj (error_object e0))"
    unfolding out(1) by (simp add: failure_outcome_def error_object_canon del: canon.simps)
  moreover have "same_slot p (restart_slot t p)" by (simp add: same_slot_def restart_slot_def)
  moreover have "failure_consistent (iv_outcome p) (error_object e0)"
    unfolding out(1) by (rule failure_is_consistent [OF out(2)])
  moreover have "assert_no_credentials url ''$.prior_failure'' (JObj (error_object e0)) = Inr ()"
    using error_clean(2) [of _ _ e0] unfolding error_object_canon .
  moreover have "canon (get_or_null pl ''prior_failure'') = canon (JObj (error_object e0))"
    unfolding pl(6) canon_idem recorded_failure_def err by (simp only: option.case)
  ultimately have "retry_audit url db1 (restart_slot t p) p
      = Inr (cd_next_event db, get_or_null pl ''retry_kind'', JObj (error_object e0))"
    using pl(5) p unfolding retry_audit_def
    by (auto simp del: assert_no_credentials.simps canon.simps)
  moreover have "plain_leaf (get_or_null pl ''retry_kind'')" using pl(5) by auto
  ultimately show ?thesis by blast
qed

text \<open>C36: Releasing a retry that was never dispatched undoes it.  A failed invocation with an
  unambiguous failure is restarted; when the call is then released as undispatched, the table of
  invocations (and so the number of calls charged to every run) is exactly what it was before the
  restart, and the event log gains one entry, the note that the call was not dispatched.  The
  event log must not already hold a retry entry with the new call number.\<close>

theorem release_undoes_restart:
  assumes db: "db = council_run en empty_council_db before"
    and p: "find_slot db i = Some p" "iv_status p = FAILED"
    and failure: "iv_outcome p = failure_outcome e0" "\<not> pe_ambiguous e0"
    and fresh: "list_all (\<lambda>x. \<not> retry_matches (restart_slot t p) x) (cd_events db)"
    and start: "start_invocation (en_sha en) (en_shaj en) run s q m l txt uuid t db = (Inr i, db1)"
    and e: "\<not> pe_ambiguous e" and attempt: "iv_calls p + 1 \<le> attempt"
  shows "\<exists>ev db2. release_undispatched_invocation (en_shaj en) (en_url en) i e attempt (Some p) t2 db1
      = (Inr (), db2) \<and> cd_slots db2 = cd_slots db \<and> (\<forall>r. count_calls db2 r = count_calls db r)
    \<and> cd_events db2 = cd_events db @ [ev] \<and> ev_type ev = ''provider_call_not_dispatched''
    \<and> ev_run ev = iv_run p \<and> cd_runs db2 = cd_runs db"
proof -
  have good: "council_good db" unfolding db by (rule council_reachable_good)
  then have mem: "p \<in> set (cd_slots db)" "iv_id p = i" "1 \<le> iv_calls p"
    using find_slot_mem [OF p(1)] by (auto simp: council_good_def slots_ok_def)
  let ?row = "restart_slot t p"
  have db1: "db1 = (add_event (en_shaj en) (iv_run p) ''provider_retry_started'' (retry_event p) t db)
    \<lparr>cd_slots := update_where (\<lambda>r. iv_id r = i) (restart_slot t) (cd_slots db)\<rparr>"
    by (rule start_failed_slot [OF good p start])
  then obtain kind where kind: "plain_leaf kind"
    "retry_audit (en_url en) db1 ?row p = Inr (cd_next_event db, kind, JObj (error_object e0))"
    using retry_audit_found [OF failure p(2) mem(3) fresh, of db1 "en_shaj en" "en_url en"] by auto
  have row: "find_slot db1 i = Some ?row"
    using p(1) mem(2) by (simp add: db1 find_slot_def row_where_update)
  have run: "iv_run ?row = iv_run p" by (simp add: restart_slot_def)
  let ?ev = "undispatched_event ?row attempt (iv_calls p) kind (JObj (error_object e0)) e"
  let ?d = "add_event (en_shaj en) (iv_run p) ''provider_call_not_dispatched'' ?ev t2 db1"
  let ?db2 = "?d\<lparr>cd_events := delete_where (\<lambda>x. ev_id x = cd_next_event db) (cd_events ?d),
    cd_slots := update_where (\<lambda>r. iv_id r = i \<and> iv_status r = RUNNING \<and> iv_calls r = iv_calls p + 1)
      (restore_slot p (JObj (error_object e0))) (cd_slots db1)\<rparr>"
  have "release_body (en_shaj en) (en_url en) i e attempt (Some p) t2 db1 = Inr ((), ?db2)"
    using attempt unfolding release_body_def row
    by (simp add: kind undispatched_clean [OF kind(1)] Let_def run del: assert_no_credentials.simps)
  then have "release_undispatched_invocation (en_shaj en) (en_url en) i e attempt (Some p) t2 db1
      = (Inr (), ?db2)"
    using e attempt mem(3)
    by (simp add: release_undispatched_invocation_def error_clean write_txn_eq
        del: assert_no_credentials.simps)
  moreover have "cd_slots ?db2 = cd_slots db"
    using restored_slots [OF _ mem(1) p(2), of "JObj (error_object e0)" t] good failure_restored
    by (simp add: db1 council_good_def slots_ok_def failure mem(2))
  moreover have "delete_where (\<lambda>x. ev_id x = cd_next_event db) (cd_events db) = cd_events db"
    using good by (fastforce simp: delete_where_def council_good_def events_ok_def filter_id_conv)
  ultimately show ?thesis
    by (intro exI [of _ "last (cd_events ?d)"] exI [of _ ?db2])
      (simp add: count_calls_def, simp add: db1 add_event_def delete_where_def)
qed

definition example_failed :: "council_op list" where
  "example_failed = [example_create, example_start, SlotFailure ''i1'' example_error 3]"

definition example_slot :: invocation where
  "example_slot = new_slot ''i1'' ''u1'' ''s'' ''p'' ''m'' ''l'' ''t'' ''t'' 2"

lemma example_started:
  "cd_slots (council_run example_env empty_council_db [example_create, example_start]) = [example_slot]"
  "cd_events (council_run example_env empty_council_db [example_create, example_start]) = []"
  "find_run_row (council_run example_env empty_council_db [example_create, example_start]) ''u1'' \<noteq> None"
  by code_simp+

lemma example_failed_state:
  "council_run example_env empty_council_db example_failed
   = (council_run example_env empty_council_db [example_create, example_start])
     \<lparr>cd_slots := [example_slot\<lparr>iv_status := FAILED, iv_outcome := failure_outcome example_error,
        iv_updated := 3, iv_finished := Some 3\<rparr>]\<rparr>"
proof -
  let ?db = "council_run example_env empty_council_db [example_create, example_start]"
  have "finish_invocation_failure (en_url example_env) ''i1'' example_error 3 ?db
    = (Inr (), ?db\<lparr>cd_slots := [example_slot\<lparr>iv_status := FAILED,
        iv_outcome := failure_outcome example_error, iv_updated := 3, iv_finished := Some 3\<rparr>]\<rparr>)"
    unfolding finish_invocation_failure_def error_clean(1)
    by (simp add: write_txn_def find_slot_def example_started update_where_def)
      (simp add: example_slot_def new_slot_def)
  then show ?thesis by (simp add: example_failed_def council_run_def)
qed

lemma release_undoes_restart_witness:
  "\<exists>ev db2. release_undispatched_invocation (en_shaj example_env) (en_url example_env) ''i1''
      example_error 2 (find_slot (council_run example_env empty_council_db example_failed) ''i1'') 5
      (council_run example_env empty_council_db (example_failed @ [example_start])) = (Inr (), db2)
    \<and> cd_slots db2 = cd_slots (council_run example_env empty_council_db example_failed)
    \<and> ev_type ev = ''provider_call_not_dispatched'' \<and> cd_events db2 = [ev]"
proof -
  let ?db = "council_run example_env empty_council_db example_failed"
  let ?p = "example_slot\<lparr>iv_status := FAILED, iv_outcome := failure_outcome example_error,
        iv_updated := 3, iv_finished := Some 3\<rparr>"
  let ?db1 = "council_run example_env empty_council_db (example_failed @ [example_start])"
  have p: "find_slot ?db ''i1'' = Some ?p" "iv_status ?p = FAILED"
    "iv_outcome ?p = failure_outcome example_error" "iv_calls ?p + 1 \<le> 2" "cd_events ?db = []"
    "find_run_row ?db ''u1'' \<noteq> None" "slot_at ?db ''u1'' ''s'' ''p'' = Some ?p"
    unfolding example_failed_state
    using example_started by (simp_all add: find_slot_def slot_at_def find_run_row_def)
      (simp_all add: example_slot_def new_slot_def)
  have e: "\<not> pe_ambiguous example_error" by code_simp
  have texts: "nonblank ''s''" "nonblank ''p''" "nonblank ''m''" "nonblank ''l''" "nonblank ''t''"
    by code_simp+
  have sha: "en_sha example_env ''t'' = ''t''" by (simp add: example_env_def)
  have "start_invocation (en_sha example_env) shaj ''u1'' (JStr ''s'') (JStr ''p'') (JStr ''m'')
      (JStr ''l'') (JStr ''t'') ''i1'' 2 d = (Inr ''i1'', snd (start_invocation (en_sha example_env)
        shaj ''u1'' (JStr ''s'') (JStr ''p'') (JStr ''m'') (JStr ''l'') (JStr ''t'') ''i1'' 2 d))"
    if "find_run_row d ''u1'' \<noteq> None" "slot_at d ''u1'' ''s'' ''p'' = Some ?p" for d shaj
    using that by (simp add: start_invocation_def start_invocation_body_def write_txn_def Let_def
      required_text_def texts sha) (simp add: example_slot_def new_slot_def)
  from this [OF p(6,7)] have "start_invocation (en_sha example_env) (en_shaj example_env) ''u1''
      (JStr ''s'') (JStr ''p'') (JStr ''m'') (JStr ''l'') (JStr ''t'') ''i1'' 2 ?db = (Inr ''i1'', ?db1)"
    by (simp add: council_run_def example_start_def)
  moreover have "list_all (\<lambda>x. \<not> retry_matches (restart_slot 2 ?p) x) (cd_events ?db)"
    by (simp add: p(5))
  ultimately show ?thesis
    using release_undoes_restart [OF refl p(1-3) e _ _ e p(4), of 2 _ _ _ _ _ _ _ ?db1 5]
    unfolding p(1) [symmetric] p(5) append_Nil by blast
qed

section \<open>Human decisions\<close>

lemma reachable_decisions: "decisions_good (en_shaj en) (council_run en empty_council_db ops)"
  unfolding council_run_def by (rule decisions.run_good) simp

lemma chain_verified:
  "decision_chain shaj prev ds \<Longrightarrow> d \<in> set ds \<Longrightarrow> shaj (hd_record d) = hd_sha d"
  by (induction ds arbitrary: prev) auto

lemma listed_decisions:
  assumes "decisions_good shaj db"
  shows "list_human_decisions shaj db run = map (\<lambda>d. (d, True)) (decisions_of db run)"
proof -
  have "decision_chain shaj None (decisions_of db run)" using assms by (simp add: decisions_good_def)
  then show ?thesis
    using decisions_sorted [OF assms] chain_verified
    unfolding list_human_decisions_def decisions_of_def [symmetric] by fastforce
qed

text \<open>C37: The history of human decisions is append-only.  Whatever the store does after a state it
  can be in, the decisions listed for a run are the ones listed before, in the same order and with
  every record hash verified, followed by newer ones.\<close>

theorem decision_history_append_only:
  "\<exists>newer. list_human_decisions (en_shaj en) (council_run en empty_council_db (before @ later)) run
      = list_human_decisions (en_shaj en) (council_run en empty_council_db before) run @ newer
    \<and> list_all snd (list_human_decisions (en_shaj en) (council_run en empty_council_db (before @ later)) run)"
proof -
  let ?db = "council_run en empty_council_db before"
  have split: "council_run en empty_council_db (before @ later) = council_run en ?db later"
    by (simp add: council_run_def)
  obtain ys where "cd_decisions (council_run en ?db later) = cd_decisions ?db @ ys"
    using decision_log.run_appends [of en ?db later] by (auto simp: council_run_def)
  then have "decisions_of (council_run en ?db later) run
      = decisions_of ?db run @ rows_where (\<lambda>d. hd_run d = run) ys"
    by (simp add: decisions_of_def rows_where_def)
  then show ?thesis
    using listed_decisions [OF reachable_decisions [of en before], of run]
      listed_decisions [OF reachable_decisions [of en "before @ later"], of run]
    by (auto simp: split list_all_iff)
qed

text \<open>C38: The history of human decisions is tamper evident.  Let the store be in a state it can
  reach, and let anybody replace the database by one in which the listed decisions of a run still
  form a chain (each row holds the hash of its record, each record names the previous hash).  If
  the newest hash is the same, every record of the history is the same, unless two different
  records collide under the digest.\<close>

theorem decision_history_tamper_evident:
  assumes newest: "last_decision (council_run en empty_council_db ops) run = Some d"
    and chain: "decision_chain (en_shaj en) None (map fst (list_human_decisions (en_shaj en) forged run))"
    and same: "map fst (list_human_decisions (en_shaj en) forged run) = ds @ [d']" "hd_sha d' = hd_sha d"
    and no_collision: "inj_on (en_shaj en) (hd_record ` (fst `
      (set (list_human_decisions (en_shaj en) (council_run en empty_council_db ops) run)
       \<union> set (list_human_decisions (en_shaj en) forged run))))"
  shows "map (\<lambda>p. hd_record (fst p)) (list_human_decisions (en_shaj en) forged run)
    = map (\<lambda>p. hd_record (fst p)) (list_human_decisions (en_shaj en) (council_run en empty_council_db ops) run)"
proof -
  let ?db = "council_run en empty_council_db ops"
  let ?forged = "map fst (list_human_decisions (en_shaj en) forged run)"
  have l: "list_human_decisions (en_shaj en) ?db run = map (\<lambda>d. (d, True)) (decisions_of ?db run)"
    by (rule listed_decisions [OF reachable_decisions])
  have "chain_head None (decisions_of ?db run) = Some (hd_sha d)"
    using last_decision_eq [OF reachable_decisions, of en ops run] newest by simp
  then have "chain_head None ?forged = chain_head None (decisions_of ?db run)"
    by (simp add: same chain_head_def)
  moreover have "decision_chain (en_shaj en) None (decisions_of ?db run)"
    using reachable_decisions [of en ops] by (simp add: decisions_good_def)
  moreover have "inj_on (en_shaj en) (hd_record ` (set ?forged \<union> set (decisions_of ?db run)))"
    using no_collision unfolding l by (simp add: image_Un image_image Un_commute)
  ultimately have "map hd_record ?forged = map hd_record (decisions_of ?db run)"
    using chain by (intro decision_chain_unique) simp_all
  then show ?thesis by (simp add: l comp_def)
qed

definition example_decided :: "council_op list" where
  "example_decided = [example_create,
     FinishRun ''u1'' (JObj [(''status'', JStr ''succeeded''), (''failures'', JList [])]) 4,
     Decide ''u1'' ''accept'' ''one'' 5]"

definition example_forged :: council_db where
  "example_forged = (let db = council_run example_env empty_council_db example_decided in
     db\<lparr>cd_decisions := map (\<lambda>d. d\<lparr>hd_note := ''forged''\<rparr>) (cd_decisions db)\<rparr>)"

lemma decision_history_tamper_evident_witness:
  "map (\<lambda>p. hd_record (fst p)) (list_human_decisions (en_shaj example_env) example_forged ''u1'')
    = map (\<lambda>p. hd_record (fst p)) (list_human_decisions (en_shaj example_env)
      (council_run example_env empty_council_db example_decided) ''u1'')"
proof -
  let ?db = "council_run example_env empty_council_db example_decided"
  let ?s = "council_run example_env empty_council_db (butlast example_decided)"
  have s: "map_option ru_result (find_run_row ?s ''u1'')
      = Some (Some (JObj [(''failures'', JList []), (''status'', JStr ''succeeded'')]))"
    "cd_decisions ?s = []"
    by code_simp+
  then obtain row db' where body: "record_decision_body (en_shaj example_env) ''u1'' ''accept'' ''one'' 5 ?s
      = Inr (row, db')"
    by (auto simp: record_decision_body_def Let_def get_or_null_def object_or_error_def bindable_def
      simp del: canon.simps)
  have "?db = snd (record_human_decision (en_shaj example_env) ''u1'' ''accept'' ''one'' 5 ?s)"
    by (simp add: example_decided_def council_run_def)
  moreover have "''accept'' \<in> set human_decisions" "py_strip ''one'' = ''one''" by code_simp+
  ultimately have "?db = db'" using body by (simp add: record_human_decision_def write_txn_def)
  with decide_body_effect [OF body] s(2) obtain d where
    one: "cd_decisions ?db = [d]" and run: "hd_run d = ''u1''" by simp
  have "decisions_of ?db ''u1'' = [d]" by (simp add: decisions_of_def one rows_where_def run)
  then have chain: "decision_chain (en_shaj example_env) None [d]"
    using reachable_decisions [of example_env example_decided] unfolding decisions_good_def by metis
  have forged: "cd_decisions example_forged = [d\<lparr>hd_note := ''forged''\<rparr>]"
    by (simp add: example_forged_def Let_def one)
  show ?thesis
    by (rule decision_history_tamper_evident [where d = d and ds = "[]" and d' = "d\<lparr>hd_note := ''forged''\<rparr>"])
      (use chain in \<open>simp_all add: list_human_decisions_def last_decision_def rows_where_def one forged run\<close>)
qed

section \<open>Approvals\<close>

text \<open>C39: An approval is used at most once.  After \<open>consume_run_approval\<close> has accepted a token, then
  whatever the store does afterwards, consuming the token again is refused, for any plan and at any
  time, and leaves the database unchanged.\<close>

theorem approval_single_use:
  assumes used: "consume_run_approval t plan now (council_run en empty_council_db before) = (Inr a, db1)"
  shows "\<exists>msg. consume_run_approval t plan' now' (council_run en db1 later)
    = (Inl (PermissionError msg), council_run en db1 later)"
proof -
  let ?db = "council_run en empty_council_db before"
  obtain row where row: "find_approval ?db t = Some row"
    and db1: "db1 = ?db\<lparr>cd_approvals := update_where (\<lambda>r. ap_token r = t)
      (\<lambda>r. r\<lparr>ap_consumed := Some now\<rparr>) (cd_approvals ?db)\<rparr>"
    using used by (auto simp: consume_run_approval_def write_txn_eq split: option.splits if_splits)
  have "find_approval db1 t = Some (row\<lparr>ap_consumed := Some now\<rparr>)"
    using row row_where_Some [OF row [unfolded find_approval_def]]
    by (simp add: db1 find_approval_def row_where_update)
  then have "approval_entry db1 t = Some (ap_plan row, ap_by row, ap_max row, Some now)"
    by (simp add: approval_entry_def approval_terms_def)
  moreover have "council_good db1"
    using council_step_good [OF council_reachable_good [of en before], of en "ConsumeApproval t plan now"] used
    by simp
  ultimately have "approval_entry (council_run en db1 later) t
      = Some (ap_plan row, ap_by row, ap_max row, Some now)"
    unfolding council_run_def by (intro approvals.run_settled_frozen) simp_all
  then obtain r where "find_approval (council_run en db1 later) t = Some r" "ap_consumed r = Some now"
    by (auto simp: approval_entry_def approval_terms_def)
  then show ?thesis by (simp add: consume_run_approval_def write_txn_def)
qed

lemma approval_single_use_witness:
  "\<exists>msg. consume_run_approval ''t'' ''plan'' 7 (council_run example_env
      (council_run example_env empty_council_db [RecordApproval ''t'' ''plan'' ''me'' 4 1,
        ConsumeApproval ''t'' ''plan'' 2]) [AttachApproval ''t'' ''u1'', RecordApproval ''t'' ''plan'' ''me'' 4 6])
    = (Inl (PermissionError msg), council_run example_env (council_run example_env empty_council_db
        [RecordApproval ''t'' ''plan'' ''me'' 4 1, ConsumeApproval ''t'' ''plan'' 2])
        [AttachApproval ''t'' ''u1'', RecordApproval ''t'' ''plan'' ''me'' 4 6])"
proof -
  have "consume_run_approval ''t'' ''plan'' 2 (council_run example_env empty_council_db
      [RecordApproval ''t'' ''plan'' ''me'' 4 1])
    = (Inr \<lparr>ap_token = ''t'', ap_plan = ''plan'', ap_by = ''me'', ap_max = 4, ap_at = 1,
         ap_consumed = Some 2, ap_run = None\<rparr>, council_run example_env empty_council_db
        [RecordApproval ''t'' ''plan'' ''me'' 4 1, ConsumeApproval ''t'' ''plan'' 2])" by code_simp
  then show ?thesis by (rule approval_single_use)
qed

section \<open>The table of invocations\<close>

lemma partition_status:
  "length (rows_where p rows) = count_where (\<lambda>r. p r \<and> iv_status r = RUNNING) rows
    + count_where (\<lambda>r. p r \<and> iv_status r = SUCCEEDED) rows
    + count_where (\<lambda>r. p r \<and> iv_status r = FAILED) rows"
proof (induction rows)
  case (Cons r rows)
  then show ?case by (cases "iv_status r") (auto simp: rows_where_def count_where_def)
qed (simp add: rows_where_def count_where_def)

lemma calls_bound:
  "\<forall>r\<in>set rows. 1 \<le> iv_calls r \<Longrightarrow> int (length (rows_where p rows)) \<le> sum_list (map iv_calls (rows_where p rows))"
  by (induction rows) (auto simp: rows_where_def)

lemma distinct_listed:
  "distinct (map f (list_invocations db run))
     = distinct (map f (rows_where (\<lambda>r. iv_run r = run) (cd_slots db)))"
  by (rule mset_eq_imp_distinct_iff) (simp add: list_invocations_def)

lemma length_listed:
  "length (list_invocations db run) = length (rows_where (\<lambda>r. iv_run r = run) (cd_slots db))"
  by (simp add: list_invocations_def)

text \<open>C40: In every state the store can reach, each stage of a run has at most one invocation per
  provider, no two invocations share their identifier, the progress counters add up to the
  invocations listed, and the number of calls charged to a run is at least their number.\<close>

theorem invocations_consistent:
  assumes db: "db = council_run en empty_council_db ops"
  shows "distinct (map (\<lambda>r. (iv_stage r, iv_provider r)) (list_invocations db run))
    \<and> distinct (map iv_id (list_invocations db run))
    \<and> (case invocation_progress db run of (running, succeeded, failed) \<Rightarrow>
         running + succeeded + failed = length (list_invocations db run))
    \<and> int (length (list_invocations db run)) \<le> count_calls db run"
proof -
  have ok: "slots_ok (cd_slots db)"
    using council_reachable_good [of en ops] by (simp add: db council_good_def)
  let ?rows = "rows_where (\<lambda>r. iv_run r = run) (cd_slots db)"
  have "distinct (map slot_place ?rows)" "distinct (map iv_id ?rows)"
    using ok by (simp_all add: slots_ok_def unique_on_def rows_where_def distinct_map_filter)
  moreover have "map slot_place ?rows = map (Pair run) (map (\<lambda>r. (iv_stage r, iv_provider r)) ?rows)"
    by (auto simp: slot_place_def rows_where_def)
  ultimately have d: "distinct (map (\<lambda>r. (iv_stage r, iv_provider r)) ?rows)" "distinct (map iv_id ?rows)"
    by (simp_all only: distinct_map)
  then show ?thesis
    using partition_status [of "\<lambda>r. iv_run r = run" "cd_slots db"]
      calls_bound [of "cd_slots db" "\<lambda>r. iv_run r = run"] ok
    by (simp add: invocation_progress_def count_calls_def slots_ok_def length_listed distinct_listed)
qed

lemma invocations_consistent_witness:
  "int (length (list_invocations (council_run example_env empty_council_db [example_create, example_start]) ''u1''))
    \<le> count_calls (council_run example_env empty_council_db [example_create, example_start]) ''u1''"
  using invocations_consistent [OF refl, of example_env "[example_create, example_start]" "''u1''"] by blast

end
