(* ===== verification/Engine_Types.thy ===== *)
theory Engine_Types imports Council_Store begin

text \<open>
  The council engine of \<open>engine.py\<close>: what a stage works with.  The outside world is the audit store,
  the call gate with its state, and the log of the calls that reached a provider.  What a provider
  answers, clock readings and fresh UUIDs are inputs.
\<close>

section \<open>The world of a stage\<close>

text \<open>A provider should answer with a \<open>ProviderResponse\<close>; it may answer \<open>None\<close> or another object,
  one without the attributes of a response.\<close>

datatype reply_value = Proper provider_response | NoAnswer | ForeignAnswer

text \<open>What \<open>provider.generate\<close> does: answer, raise a \<open>ProviderError\<close>, raise something else (its type
  name).\<close>

datatype provider_reply = Answers reply_value | RaisesProvider provider_error | RaisesOther string

text \<open>One call of \<open>provider.generate\<close> with its arguments.\<close>

record dispatch =
  dp_stage :: string
  dp_provider :: string
  dp_system :: string
  dp_user :: string
  dp_limit :: int
  dp_timeout :: rat

record 'g world =
  wd_store :: council_db
  wd_gate :: 'g
  wd_calls :: "dispatch list"

text \<open>The \<open>CallGate\<close> and \<open>CallLease\<close> protocols; a lease is known by an identifier.  A refusal is a
  \<open>ProviderError\<close> or another exception (its type name).\<close>

datatype gate_answer = Granted string | Refused provider_error | Broken string

record 'g gate_protocol =
  cg_reserve :: "string \<Rightarrow> string \<Rightarrow> provider_config \<Rightarrow> int \<Rightarrow> py_datetime \<Rightarrow> 'g \<Rightarrow> gate_answer \<times> 'g"
  cg_reconcile :: "string \<Rightarrow> int \<Rightarrow> py_datetime \<Rightarrow> 'g \<Rightarrow> unit result \<times> 'g"
  cg_release :: "string \<Rightarrow> 'g \<Rightarrow> unit result \<times> 'g"

record 'g engine =
  eg_env :: council_env
  eg_providers :: "(string, provider_config) dict"
  eg_policy :: run_policy
  eg_synthesis :: "string list"
  eg_gate :: "'g gate_protocol option"

text \<open>The constructor's checks; \<open>eg_synthesis\<close> is the synthesis provider followed by its fallbacks.\<close>

definition mk_engine ::
  "council_env \<Rightarrow> (string, provider_config) dict \<Rightarrow> run_policy \<Rightarrow> string \<Rightarrow> string list \<Rightarrow>
   'g gate_protocol option \<Rightarrow> 'g engine result" where
  "mk_engine en provs pol synth fallbacks gate =
     (let chain = synth # fallbacks;
          unavailable = filter (\<lambda>n. n \<notin> fst ` set provs) chain in
      require (provs \<noteq> []) (ValueError ''At least one provider is required'')
     (require (distinct chain) (ValueError ''Synthesis providers must not contain duplicates'')
     (require (unavailable = [])
        (ValueError (''Synthesis providers are not available: '' @ join_text '', '' unavailable))
     (require (int (length provs) * 2 + int (length chain) \<le> rp_max_calls pol)
        (ValueError ''Max calls is too small for proposals, juries, and configured synthesis attempts'')
        (Inr \<lparr>eg_env = en, eg_providers = provs, eg_policy = pol, eg_synthesis = chain,
             eg_gate = gate\<rparr>)))))"

text \<open>An operation of the store, of the gate.\<close>

definition in_store :: "(council_db \<Rightarrow> 'a result \<times> council_db) \<Rightarrow> ('g world, 'a) action" where
  "in_store f w = (case f (wd_store w) of (r, d) \<Rightarrow> (r, w\<lparr>wd_store := d\<rparr>))"

definition in_gate :: "('g \<Rightarrow> 'a result \<times> 'g) \<Rightarrow> ('g world, 'a) action" where
  "in_gate f w = (case f (wd_gate w) of (r, g) \<Rightarrow> (r, w\<lparr>wd_gate := g\<rparr>))"

definition add_engine_event ::
  "council_env \<Rightarrow> string \<Rightarrow> string \<Rightarrow> jobj \<Rightarrow> instant \<Rightarrow> ('g world, nat) action" where
  "add_engine_event en run typ payload now =
     in_store (append_event (en_shaj en) (en_url en) run (JStr typ) (JObj payload) now)"

definition fail_slot ::
  "council_env \<Rightarrow> string \<Rightarrow> provider_error \<Rightarrow> instant \<Rightarrow> ('g world, unit) action" where
  "fail_slot en slot e now = in_store (finish_invocation_failure (en_url en) slot e now)"

section \<open>Failures and responses\<close>

definition stored_failure :: "string \<Rightarrow> string \<Rightarrow> jobj \<Rightarrow> jobj" where
  "stored_failure stage name m =
     dict_merge [(''stage'', JStr stage), (''provider'', JStr name)] m"

definition failure_payload :: "string \<Rightarrow> string \<Rightarrow> provider_error \<Rightarrow> jobj" where
  "failure_payload stage name e = stored_failure stage name (error_to_dict e)"

definition plain_error ::
  "string \<Rightarrow> error_category \<Rightarrow> bool \<Rightarrow> string option \<Rightarrow> int \<Rightarrow> bool \<Rightarrow> provider_error" where
  "plain_error msg cat retry req attempts amb =
     mk_provider_error msg cat retry None req attempts amb None None None None JNull"

text \<open>\<open>int(record.get("attempts") or 1)\<close>.\<close>

definition attempts_or_one :: "invocation \<Rightarrow> int" where
  "attempts_or_one r = (case oc_attempts (iv_outcome r) of
     None \<Rightarrow> 1 | Some n \<Rightarrow> if n = 0 then 1 else n)"

text \<open>An error about a recorded slot.\<close>

definition record_error :: "string \<Rightarrow> error_category \<Rightarrow> bool \<Rightarrow> invocation \<Rightarrow> provider_error" where
  "record_error msg cat amb r =
     plain_error msg cat False (oc_request (iv_outcome r)) (attempts_or_one r) amb"

definition error_is_ambiguous :: "invocation \<Rightarrow> bool" where
  "error_is_ambiguous r \<longleftrightarrow> truthy_bool (oc_ambiguous (iv_outcome r))"

definition length_suffix :: string where
  "length_suffix = ''(finish_reason=length)''"

definition is_length_failure_record :: "invocation option \<Rightarrow> bool" where
  "is_length_failure_record x = (case x of
     None \<Rightarrow> False
   | Some r \<Rightarrow> iv_status r = FAILED \<and> \<not> error_is_ambiguous r
       \<and> ends_with (case oc_message (iv_outcome r) of None \<Rightarrow> [] | Some m \<Rightarrow> m) length_suffix)"

definition completion_error :: "reply_value \<Rightarrow> provider_error option" where
  "completion_error v = (case v of
     Proper r \<Rightarrow>
       if rs_finish r = Some ''stop'' then None
       else Some (plain_error
         (''Provider response did not complete normally (finish_reason=''
            @ (case rs_finish r of None \<Rightarrow> ''missing'' | Some f \<Rightarrow> if f = [] then ''missing'' else f)
            @ '')'')
         (if rs_finish r = Some ''content_filter'' then CONTENT_FILTER else INVALID_RESPONSE)
         False (rs_request r) (rs_attempts r) False)
   | _ \<Rightarrow> Some (plain_error ''Provider returned an invalid response object''
             INVALID_RESPONSE False None 1 False))"

text \<open>
  \<open>ProviderResponse.from_dict\<close> on a stored response.  The store holds what \<open>to_dict\<close> produced; for a
  value of another shape, which it never holds, the conversions of the code are replaced by an
  exception.
\<close>

definition opt_text_value :: "json \<Rightarrow> string option result" where
  "opt_text_value v = (case v of JNull \<Rightarrow> Inr None | JStr s \<Rightarrow> Inr (Some s)
     | _ \<Rightarrow> Inl (TypeError ''not a text''))"

definition int_value :: "json option \<Rightarrow> int \<Rightarrow> int result" where
  "int_value v d = (case v of None \<Rightarrow> Inr d | Some (JInt n) \<Rightarrow> Inr n
     | Some _ \<Rightarrow> Inl (TypeError ''not an integer''))"

definition response_from_dict :: "jobj \<Rightarrow> provider_response result" where
  "response_from_dict m =
     rbind (rbind (obj_get m ''content'') text_value) (\<lambda>content.
     rbind (rbind (obj_get m ''resolved_model'') text_value) (\<lambda>model.
     rbind (opt_text_value (get_or_null m ''request_id'')) (\<lambda>req.
     rbind (obj_or_empty (get_or_null m ''usage'')) (\<lambda>us.
     rbind (int_value (dict_get m ''latency_ms'') 0) (\<lambda>lat.
     rbind (int_value (dict_get m ''attempts'') 1) (\<lambda>att.
     rbind (opt_text_value (get_or_null m ''finish_reason'')) (\<lambda>fin.
     rbind (obj_or_empty (get_or_null m ''metadata'')) (\<lambda>meta.
       Inr \<lparr>rs_content = content, rs_model = model, rs_request = req,
            rs_usage = usage_from_dict (Some us), rs_latency = lat, rs_attempts = att,
            rs_finish = fin, rs_metadata = meta\<rparr>))))))))"

definition obj_of :: "json option \<Rightarrow> jobj option" where
  "obj_of v = (case v of Some (JObj m) \<Rightarrow> Some m | _ \<Rightarrow> None)"

definition response_from_record :: "invocation \<Rightarrow> provider_response result" where
  "response_from_record r =
     (let oc = iv_outcome r in
      case obj_of (oc_response oc) of
        Some m \<Rightarrow> response_from_dict m
      | None \<Rightarrow>
          (case oc_text oc of
             None \<Rightarrow> Inl (TypeError ''not a text'')
           | Some t \<Rightarrow>
               Inr \<lparr>rs_content = t,
                 rs_model = (case oc_model oc of None \<Rightarrow> iv_model r
                   | Some s \<Rightarrow> if s = [] then iv_model r else s),
                 rs_request = oc_request oc,
                 rs_usage = usage_from_dict (obj_of (oc_usage oc)),
                 rs_latency = (case oc_latency oc of None \<Rightarrow> 0 | Some n \<Rightarrow> n),
                 rs_attempts = attempts_or_one r, rs_finish = oc_finish oc,
                 rs_metadata = (case obj_of (oc_metadata oc) of None \<Rightarrow> [] | Some m \<Rightarrow> m)\<rparr>))"

section \<open>Prompts and limits\<close>

text \<open>The larger output limit of a second attempt after a truncation.\<close>

definition widened_limit :: "run_policy \<Rightarrow> int \<Rightarrow> int" where
  "widened_limit pol n = min (max (n + 1024) (n * 2)) (rp_max_recovery_output pol)"

definition provider_of :: "'g engine \<Rightarrow> string \<Rightarrow> provider_config result" where
  "provider_of eg name = (case dict_get (eg_providers eg) name of
     None \<Rightarrow> Inl (KeyError name) | Some c \<Rightarrow> Inr c)"

end
