(* ===== verification/Engine_Stage.thy ===== *)
theory Engine_Stage imports Engine_Types begin

text \<open>
  \<open>_run_parallel_stage\<close> and \<open>_execute_provider_call\<close>.  The calls that a stage submits to its thread
  pool are state machines; a schedule, a list of ticks, says which call moves next and what it meets
  (clock, deadline, provider).  Every interleaving of the pool is a schedule.
\<close>

section \<open>What the store already knows\<close>

record stage_args =
  sa_run :: string
  sa_stage :: string
  sa_provider_stage :: string
  sa_retry_failed :: bool
  sa_allow_recovery :: bool
  sa_overrides :: "(string, int) dict"
  sa_preserve :: bool

definition record_at :: "invocation list \<Rightarrow> string \<Rightarrow> string \<Rightarrow> invocation option" where
  "record_at snapshot stage name = row_where (\<lambda>r. iv_stage r = stage \<and> iv_provider r = name) snapshot"

definition ambiguous_provider :: "invocation list \<Rightarrow> string \<Rightarrow> bool" where
  "ambiguous_provider snapshot name \<longleftrightarrow>
     list_ex (\<lambda>r. iv_provider r = name
       \<and> (iv_status r = RUNNING \<or> iv_status r = FAILED \<and> error_is_ambiguous r)) snapshot"

definition payload_for :: "string \<Rightarrow> string \<Rightarrow> event_row \<Rightarrow> jobj option" where
  "payload_for stage name e = (case ev_payload e of
     JObj m \<Rightarrow> if get_or_null m ''stage'' = JStr stage \<and> get_or_null m ''provider'' = JStr name
              then Some m else None
   | _ \<Rightarrow> None)"

definition recovery_recorded :: "event_row list \<Rightarrow> string \<Rightarrow> string \<Rightarrow> bool" where
  "recovery_recorded events stage name \<longleftrightarrow>
     list_ex (\<lambda>e. ev_type e = ''truncation_recovery'' \<and> (case payload_for stage name e of
         None \<Rightarrow> False | Some m \<Rightarrow> get_or_null m ''status'' \<noteq> JStr ''not_dispatched'')) events"

definition truncation_retries_of :: "event_row list \<Rightarrow> string \<Rightarrow> string \<Rightarrow> int" where
  "truncation_retries_of events stage name =
     int (count_where (\<lambda>e. ev_type e = ''provider_retry_started'' \<and> (case payload_for stage name e of
         None \<Rightarrow> False | Some m \<Rightarrow> get_or_null m ''retry_kind'' = JStr ''truncation'')) events)"

text \<open>The output limit of the newest preserved truncated response.\<close>

definition preserved_limit :: "event_row list \<Rightarrow> string \<Rightarrow> string \<Rightarrow> int option" where
  "preserved_limit events stage name =
     (case row_where (\<lambda>e. ev_type e = ''truncated_response_preserved'' \<and> payload_for stage name e \<noteq> None)
             (rev events) of
        None \<Rightarrow> None
      | Some e \<Rightarrow> (case payload_for stage name e of
           None \<Rightarrow> None
         | Some m \<Rightarrow> (case get_or_null m ''requested_max_output_tokens'' of JInt n \<Rightarrow> Some n | _ \<Rightarrow> None)))"

section \<open>Which providers still have to run\<close>

datatype verdict = Known provider_response | KnownFailure jobj | ToRun

definition exhausted_message :: string where
  "exhausted_message =
     ''Known output-length recovery is exhausted; automatic retry refused (finish_reason=length)''"

text \<open>The recorded error of a slot, or the given one when the record has none.\<close>

definition recorded_or :: "string \<Rightarrow> string \<Rightarrow> invocation \<Rightarrow> provider_error \<Rightarrow> jobj" where
  "recorded_or stage name r e = (case obj_of (oc_error (iv_outcome r)) of
     Some m \<Rightarrow> stored_failure stage name m
   | None \<Rightarrow> failure_payload stage name e)"

definition classify_known :: "stage_args \<Rightarrow> string \<Rightarrow> invocation \<Rightarrow> ('g world, verdict) action" where
  "classify_known args name ex =
     sbind (sresult (response_from_record ex)) (\<lambda>r.
       sreturn (case completion_error (Proper r) of
         Some e \<Rightarrow> KnownFailure (failure_payload (sa_stage args) name e)
       | None \<Rightarrow> Known r))"

definition running_error :: "invocation \<Rightarrow> provider_error" where
  "running_error r =
     record_error ''Prior invocation outcome is ambiguous; automatic retry refused'' UNKNOWN True r"

definition classify_record ::
  "run_policy \<Rightarrow> stage_args \<Rightarrow> invocation list \<Rightarrow> event_row list \<Rightarrow> council_env \<Rightarrow> instant \<Rightarrow>
   string \<Rightarrow> ('g world, verdict) action" where
  "classify_record pol args snapshot events en now name =
     (let stage = sa_stage args;
          later = (if ambiguous_provider snapshot name
            then KnownFailure (failure_payload stage name (plain_error
              ''Prior provider outcome in this run is ambiguous; later-stage invocation suppressed''
              UNKNOWN False None 1 True))
            else ToRun) in
      case record_at snapshot stage name of
        None \<Rightarrow> sreturn later
      | Some r \<Rightarrow>
          if iv_status r = FAILED \<and> error_is_ambiguous r then
            (case obj_of (oc_error (iv_outcome r)) of
               None \<Rightarrow> sraise (ValueError ''Ambiguous provider failure record is malformed'')
             | Some m \<Rightarrow> sreturn (KnownFailure (stored_failure stage name m)))
          else if iv_status r = RUNNING then
            sbind (fail_slot en (iv_id r) (running_error r) now) (\<lambda>_.
              sreturn (KnownFailure (failure_payload stage name (running_error r))))
          else if iv_status r = FAILED \<and> \<not> sa_retry_failed args then
            sreturn (KnownFailure (recorded_or stage name r
              (record_error ''Prior repair invocation failed; automatic retry refused''
                 INVALID_RESPONSE False r)))
          else if is_length_failure_record (Some r) \<and> recovery_recorded events stage name then
            sreturn (KnownFailure (recorded_or stage name r
              (record_error exhausted_message INVALID_RESPONSE False r)))
          else if is_length_failure_record (Some r)
              \<and> rp_truncation_retries pol \<le> truncation_retries_of events stage name then
            sreturn (KnownFailure (failure_payload stage name
              (record_error exhausted_message INVALID_RESPONSE False r)))
          else sreturn later)"

definition classify ::
  "run_policy \<Rightarrow> stage_args \<Rightarrow> invocation list \<Rightarrow> event_row list \<Rightarrow> council_env \<Rightarrow> instant \<Rightarrow>
   string \<Rightarrow> ('g world, verdict) action" where
  "classify pol args snapshot events en now name w =
     (case get_successful_invocation (wd_store w) (sa_run args) (sa_stage args) name of
        Some ex \<Rightarrow> classify_known args name ex w
      | None \<Rightarrow> classify_record pol args snapshot events en now name w)"

text \<open>What a stage has found so far.\<close>

record stage_acc =
  sg_successes :: "(string, provider_response) dict"
  sg_failures :: "jobj list"
  sg_recoveries :: "jobj list"

definition empty_acc :: stage_acc where
  "empty_acc = \<lparr>sg_successes = [], sg_failures = [], sg_recoveries = []\<rparr>"

definition add_failure :: "jobj \<Rightarrow> stage_acc \<Rightarrow> stage_acc" where
  "add_failure f a = a\<lparr>sg_failures := sg_failures a @ [f]\<rparr>"

definition add_success :: "string \<Rightarrow> provider_response \<Rightarrow> stage_acc \<Rightarrow> stage_acc" where
  "add_success name r a = a\<lparr>sg_successes := dict_set name r (sg_successes a)\<rparr>"

definition add_recovery :: "jobj \<Rightarrow> stage_acc \<Rightarrow> stage_acc" where
  "add_recovery f a = a\<lparr>sg_recoveries := sg_recoveries a @ [f]\<rparr>"

type_synonym work = "(string \<times> prompts) list"

fun classify_all ::
  "(string \<Rightarrow> ('g world, verdict) action) \<Rightarrow> work \<Rightarrow> stage_acc \<Rightarrow>
   ('g world, stage_acc \<times> work) action" where
  "classify_all judge [] acc = sreturn (acc, [])"
| "classify_all judge ((name, p) # rest) acc =
     sbind (judge name) (\<lambda>v. case v of
       Known r \<Rightarrow> classify_all judge rest (add_success name r acc)
     | KnownFailure f \<Rightarrow> classify_all judge rest (add_failure f acc)
     | ToRun \<Rightarrow> sbind (classify_all judge rest acc) (\<lambda>(acc', work). sreturn (acc', (name, p) # work)))"

section \<open>Deadline, prompt size and call budget\<close>

definition late_failure :: "stage_args \<Rightarrow> invocation list \<Rightarrow> string \<Rightarrow> jobj" where
  "late_failure args snapshot name =
     (let e = plain_error ''Run deadline exhausted'' TIMEOUT True None 1 False in
      case record_at snapshot (sa_stage args) name of
        Some r \<Rightarrow> (if iv_status r = FAILED then recorded_or (sa_stage args) name r e
                  else failure_payload (sa_stage args) name e)
      | None \<Rightarrow> failure_payload (sa_stage args) name e)"

definition too_long :: "run_policy \<Rightarrow> string \<times> prompts \<Rightarrow> bool" where
  "too_long pol x \<longleftrightarrow> rp_max_prompt pol < combined_prompt_chars (snd x)"

definition long_failure :: "run_policy \<Rightarrow> stage_args \<Rightarrow> string \<times> prompts \<Rightarrow> jobj" where
  "long_failure pol args x = failure_payload (sa_stage args) (fst x) (plain_error
     (''Stage prompt exceeds configured workload limit: ''
        @ decimal_text (nat (combined_prompt_chars (snd x))) @ '' > ''
        @ decimal_text (nat (rp_max_prompt pol))) BUDGET False None 1 False)"

definition position_of :: "string \<Rightarrow> string list \<Rightarrow> nat" where
  "position_of x xs = length (takeWhile (\<lambda>y. y \<noteq> x) xs)"

definition synthesis_result_exists :: "council_db \<Rightarrow> string \<Rightarrow> string list \<Rightarrow> bool" where
  "synthesis_result_exists db run chain \<longleftrightarrow>
     list_ex (\<lambda>n. get_successful_invocation db run ''synthesis'' n \<noteq> None) chain"

text \<open>The calls a stage must leave for the stages after it.\<close>

definition downstream_reserve ::
  "'g engine \<Rightarrow> council_db \<Rightarrow> string \<Rightarrow> string \<Rightarrow> string list \<Rightarrow> int" where
  "downstream_reserve eg db run stage names =
     (if synthesis_result_exists db run (eg_synthesis eg) then 0
      else if stage = ''synthesis'' then
        (let positions = map (\<lambda>n. position_of n (eg_synthesis eg))
               (filter (\<lambda>n. n \<in> set (eg_synthesis eg)) names) in
         if positions = [] then int (length (eg_synthesis eg))
         else int (length (eg_synthesis eg)) - int (Min (set positions)) - 1)
      else if stage = ''proposal'' then
        int (length (eg_providers eg)) + int (length (eg_synthesis eg))
      else int (length (eg_synthesis eg)))"

definition dispatch_capacity ::
  "'g engine \<Rightarrow> council_db \<Rightarrow> string \<Rightarrow> string \<Rightarrow> string list \<Rightarrow> nat" where
  "dispatch_capacity eg db run stage names =
     nat (max 0 (max 0 (rp_max_calls (eg_policy eg) - count_calls db run)
                 - downstream_reserve eg db run stage names))"

text \<open>The denied names that only the reserve keeps from running.\<close>

definition reserved_names ::
  "'g engine \<Rightarrow> council_db \<Rightarrow> string \<Rightarrow> string \<Rightarrow> string list \<Rightarrow> string list" where
  "reserved_names eg db run stage names =
     (if downstream_reserve eg db run stage names \<noteq> 0
      then drop (dispatch_capacity eg db run stage names)
             (take (nat (max 0 (rp_max_calls (eg_policy eg) - count_calls db run))) names)
      else [])"

definition reservation_reason :: "string \<Rightarrow> string" where
  "reservation_reason stage =
     (if stage = ''proposal'' then ''call budget reserved for jury calls and synthesis''
      else ''call budget reserved for synthesis'')"

text \<open>One name without budget.\<close>

definition denied_recovery ::
  "'g engine \<Rightarrow> stage_args \<Rightarrow> event_row list \<Rightarrow> string list \<Rightarrow> string \<Rightarrow> jobj result" where
  "denied_recovery eg args events reserved name =
     rbind (case preserved_limit events (sa_stage args) name of
              Some n \<Rightarrow> Inr n
            | None \<Rightarrow> rbind (provider_of eg name) (\<lambda>c.
                Inr (output_tokens_for c (sa_provider_stage args)))) (\<lambda>initial.
       Inr [(''stage'', JStr (sa_stage args)), (''provider'', JStr name),
         (''status'', JStr ''not_attempted''),
         (''reason'', JStr (if name \<in> set reserved then reservation_reason (sa_stage args)
                           else ''run call budget exhausted'')),
         (''initial_finish_reason'', JStr ''length''),
         (''initial_max_output_tokens'', JInt initial),
         (''recovery_max_output_tokens'',
            JInt (case dict_get (sa_overrides args) name of
              Some n \<Rightarrow> n | None \<Rightarrow> widened_limit (eg_policy eg) initial)),
         (''final_failure_recorded'', JBool True)])"

definition deny_one ::
  "'g engine \<Rightarrow> stage_args \<Rightarrow> invocation list \<Rightarrow> event_row list \<Rightarrow> string list \<Rightarrow> instant \<Rightarrow>
   string \<Rightarrow> stage_acc \<Rightarrow> ('g world, stage_acc) action" where
  "deny_one eg args snapshot events reserved now name acc =
     (let stage = sa_stage args;
          budget = failure_payload stage name (plain_error
            (if name \<in> set reserved then ''Run '' @ reservation_reason stage
             else ''Run call budget exhausted'') BUDGET False None 1 False) in
      case record_at snapshot stage name of
        None \<Rightarrow> sreturn (add_failure budget acc)
      | Some r \<Rightarrow>
          if is_length_failure_record (Some r) then
            (let acc1 = add_failure (recorded_or stage name r (record_error
                   ''Provider response did not complete normally (finish_reason=length)''
                   INVALID_RESPONSE False r)) acc in
             sbind (sresult (denied_recovery eg args events reserved name)) (\<lambda>recovery.
             sbind (add_engine_event (eg_env eg) (sa_run args) ''truncation_recovery'' recovery now) (\<lambda>_.
               sreturn (add_recovery recovery acc1))))
          else if iv_status r = FAILED then
            (case obj_of (oc_error (iv_outcome r)) of
               None \<Rightarrow> sraise (ValueError ''Prior provider failure record is malformed'')
             | Some m \<Rightarrow> sreturn (add_failure (stored_failure stage name m) acc))
          else sreturn (add_failure budget acc))"

fun deny_all ::
  "(string \<Rightarrow> stage_acc \<Rightarrow> ('g world, stage_acc) action) \<Rightarrow> string list \<Rightarrow> stage_acc \<Rightarrow>
   ('g world, stage_acc) action" where
  "deny_all deny [] acc = sreturn acc"
| "deny_all deny (name # rest) acc = sbind (deny name acc) (deny_all deny rest)"

end
