(* ===== verification/Engine_Calls.thy ===== *)
theory Engine_Calls imports Engine_Stage begin

text \<open>
  The calls of a stage: one provider call as a state machine (\<open>_execute_provider_call\<close>), the thread
  pool that runs them, and the loop of the main thread that takes the finished calls in.
\<close>

section \<open>One call\<close>

record provider_call_outcome =
  po_invocation :: "string option"
  po_lease :: "string option"
  po_response :: "reply_value option"
  po_error :: "provider_error option"
  po_limit :: int
  po_dispatched :: bool
  po_attempt :: "int option"

text \<open>
  A submitted call waits for a worker, has its invocation on record, holds its lease, has come back
  with an outcome or an exception, or has been taken in by the main thread.
\<close>

datatype call_phase =
    Queued
  | Started string int
  | Leased string int "string option"
  | Returned provider_call_outcome
  | Raised py_error
  | Taken

text \<open>A move of one call: the clocks of the stores, a fresh UUID, the seconds left before the
  deadline, and what the provider would do.\<close>

record tick =
  tk_name :: string
  tk_now :: instant
  tk_clock :: py_datetime
  tk_uuid :: string
  tk_remaining :: rat
  tk_reply :: provider_reply

definition deadline_error :: provider_error where
  "deadline_error = plain_error ''Run deadline exhausted'' TIMEOUT True None 1 False"

definition undispatched :: "string option \<Rightarrow> string option \<Rightarrow> provider_error \<Rightarrow> int \<Rightarrow> int option \<Rightarrow>
  provider_call_outcome" where
  "undispatched slot lease e limit attempt =
     \<lparr>po_invocation = slot, po_lease = lease, po_response = None, po_error = Some e,
      po_limit = limit, po_dispatched = False, po_attempt = attempt\<rparr>"

text \<open>The number of the attempt: the calls of the slot and the releases of it that were audited.\<close>

definition undispatched_attempts :: "council_db \<Rightarrow> string \<Rightarrow> string \<Rightarrow> string \<Rightarrow> int" where
  "undispatched_attempts db run stage name =
     int (count_where (\<lambda>e. ev_type e = ''provider_call_not_dispatched''
       \<and> payload_for stage name e \<noteq> None) (list_events db run))"

definition call_attempt :: "council_db \<Rightarrow> string \<Rightarrow> string \<Rightarrow> string \<Rightarrow> string \<Rightarrow> int" where
  "call_attempt db run stage name slot =
     (case get_invocation db slot of None \<Rightarrow> 1 | Some r \<Rightarrow> iv_calls r)
     + undispatched_attempts db run stage name"

text \<open>The three blocking parts of \<open>_execute_provider_call\<close>: put the invocation on record, reserve,
  call the provider.\<close>

definition start_call ::
  "'g engine \<Rightarrow> stage_args \<Rightarrow> prompts \<Rightarrow> int \<Rightarrow> tick \<Rightarrow> 'g world \<Rightarrow> call_phase \<times> 'g world" where
  "start_call eg args p limit tk w =
     (if tk_remaining tk \<le> 0 then (Returned (undispatched None None deadline_error limit None), w)
      else
        (case provider_of eg (tk_name tk) of
           Inl e \<Rightarrow> (Raised e, w)
         | Inr c \<Rightarrow>
             (case in_store (start_invocation (en_sha (eg_env eg)) (en_shaj (eg_env eg)) (sa_run args)
                     (JStr (sa_stage args)) (JStr (tk_name tk)) (JStr (cf_model c)) (JStr (cf_lineage c))
                     (JStr (combined_prompt p)) (tk_uuid tk) (tk_now tk)) w of
                (Inl e, w') \<Rightarrow> (Raised e, w')
              | (Inr slot, w') \<Rightarrow>
                  (Started slot (call_attempt (wd_store w') (sa_run args) (sa_stage args)
                     (tk_name tk) slot), w'))))"

definition reserve_lease ::
  "'g engine \<Rightarrow> stage_args \<Rightarrow> int \<Rightarrow> tick \<Rightarrow> string \<Rightarrow> int \<Rightarrow> 'g world \<Rightarrow> call_phase \<times> 'g world" where
  "reserve_lease eg args limit tk slot attempt w =
     (case eg_gate eg of
        None \<Rightarrow> (Leased slot attempt None, w)
      | Some g \<Rightarrow>
          (case provider_of eg (tk_name tk) of
             Inl e \<Rightarrow> (Raised e, w)
           | Inr c \<Rightarrow>
               (case cg_reserve g (sa_run args) (sa_stage args) c attempt (tk_clock tk) (wd_gate w) of
                  (Granted lease, g') \<Rightarrow> (Leased slot attempt (Some lease), w\<lparr>wd_gate := g'\<rparr>)
                | (Refused e, g') \<Rightarrow>
                    (Returned (undispatched (Some slot) None e limit (Some attempt)),
                     w\<lparr>wd_gate := g'\<rparr>)
                | (Broken t, g') \<Rightarrow>
                    (Returned (undispatched (Some slot) None
                       (plain_error (''Provider dispatch failed safely: '' @ t) UNKNOWN False None 1 False)
                       limit (Some attempt)), w\<lparr>wd_gate := g'\<rparr>))))"

definition dispatched :: "string \<Rightarrow> string option \<Rightarrow> int \<Rightarrow> int \<Rightarrow> provider_reply \<Rightarrow> provider_call_outcome" where
  "dispatched slot lease limit attempt reply =
     \<lparr>po_invocation = Some slot, po_lease = lease,
      po_response = (case reply of Answers v \<Rightarrow> Some v | _ \<Rightarrow> None),
      po_error = (case reply of
          Answers _ \<Rightarrow> None
        | RaisesProvider e \<Rightarrow> Some e
        | RaisesOther t \<Rightarrow> Some (plain_error (''Unexpected provider failure: '' @ t) UNKNOWN False None 1 True)),
      po_limit = limit, po_dispatched = True, po_attempt = Some attempt\<rparr>"

definition call_provider ::
  "'g engine \<Rightarrow> stage_args \<Rightarrow> prompts \<Rightarrow> int \<Rightarrow> tick \<Rightarrow> string \<Rightarrow> int \<Rightarrow> string option \<Rightarrow> 'g world \<Rightarrow>
   call_phase \<times> 'g world" where
  "call_provider eg args p limit tk slot attempt lease w =
     (if tk_remaining tk \<le> 0
        then (Returned (undispatched (Some slot) lease deadline_error limit (Some attempt)), w)
      else
        (case provider_of eg (tk_name tk) of
           Inl e \<Rightarrow> (Raised e, w)
         | Inr c \<Rightarrow>
             (Returned (dispatched slot lease limit attempt (tk_reply tk)),
              w\<lparr>wd_calls := wd_calls w @
                [\<lparr>dp_stage = sa_stage args, dp_provider = tk_name tk, dp_system = fst p,
                  dp_user = snd p, dp_limit = limit,
                  dp_timeout = min (timeout_for c (sa_provider_stage args))
                                 (max (1 / 1000) (tk_remaining tk))\<rparr>]\<rparr>)))"

section \<open>Taking a finished call in\<close>

text \<open>What the main thread knows about the stage while the pool runs.\<close>

record stage_ctx =
  cx_snapshot :: "invocation list"
  cx_events :: "event_row list"
  cx_work :: work
  cx_limits :: "(string, int) dict"

text \<open>A truncated answer that gets a second attempt: prompts, response, limit, calls of the slot.\<close>

record recoverable_call =
  rc_prompts :: prompts
  rc_response :: provider_response
  rc_limit :: int
  rc_calls :: int

type_synonym intake = "stage_acc \<times> (string, recoverable_call) dict"

definition take_undispatched ::
  "'g engine \<Rightarrow> stage_args \<Rightarrow> stage_ctx \<Rightarrow> tick \<Rightarrow> provider_call_outcome \<Rightarrow> provider_error \<Rightarrow>
   stage_acc \<Rightarrow> ('g world, stage_acc) action" where
  "take_undispatched eg args cx tk oc e acc =
     (let stage = sa_stage args;
          prior = record_at (cx_snapshot cx) stage (tk_name tk) in
      sbind (case po_lease oc of
               None \<Rightarrow> sreturn ()
             | Some l \<Rightarrow> (case eg_gate eg of None \<Rightarrow> sreturn () | Some g \<Rightarrow> in_gate (cg_release g l))) (\<lambda>_.
      sbind (case po_invocation oc of
               None \<Rightarrow> sreturn ()
             | Some slot \<Rightarrow>
                 (case po_attempt oc of
                    Some attempt \<Rightarrow>
                      if \<not> pe_ambiguous e
                        then in_store (release_undispatched_invocation (en_shaj (eg_env eg))
                               (en_url (eg_env eg)) slot e attempt prior (tk_now tk))
                      else fail_slot (eg_env eg) slot e (tk_now tk)
                  | None \<Rightarrow> fail_slot (eg_env eg) slot e (tk_now tk))) (\<lambda>_.
        (case prior of
           Some r \<Rightarrow>
             if iv_status r = FAILED \<and> \<not> pe_ambiguous e then
               (case obj_of (oc_error (iv_outcome r)) of
                  None \<Rightarrow> sraise (ValueError ''Prior provider failure record is malformed'')
                | Some m \<Rightarrow> sreturn (add_failure (stored_failure stage (tk_name tk) m) acc))
             else sreturn (add_failure (failure_payload stage (tk_name tk) e) acc)
         | None \<Rightarrow> sreturn (add_failure (failure_payload stage (tk_name tk) e) acc)))))"

text \<open>The class name of an exception.\<close>

fun exception_name :: "py_error \<Rightarrow> string" where
  "exception_name (ValueError _) = ''ValueError''"
| "exception_name (TypeError _) = ''TypeError''"
| "exception_name (KeyError _) = ''KeyError''"
| "exception_name (PermissionError _) = ''PermissionError''"
| "exception_name (RuntimeError _) = ''RuntimeError''"
| "exception_name (AttributeError _) = ''AttributeError''"
| "exception_name OverflowError = ''OverflowError''"
| "exception_name (IntegrityError _) = ''IntegrityError''"
| "exception_name (InterfaceError _) = ''InterfaceError''"
| "exception_name (OSError _) = ''OSError''"
| "exception_name (ServiceInputError _ _ _) = ''ServiceInputError''"
| "exception_name (AgentRequestError _ _) = ''AgentRequestError''"

text \<open>Settling the lease of a dispatched call; a failure there replaces the outcome.\<close>

definition reconcile_lease ::
  "'g engine \<Rightarrow> tick \<Rightarrow> provider_call_outcome \<Rightarrow>
   ('g world, reply_value option \<times> provider_error option) action" where
  "reconcile_lease eg tk oc w =
     (case (po_lease oc, eg_gate eg) of
        (Some l, Some g) \<Rightarrow>
          if (case po_error oc of None \<Rightarrow> False | Some e \<Rightarrow> pe_ambiguous e)
            then (Inr (po_response oc, po_error oc), w)
          else
            (case in_gate (cg_reconcile g l 1 (tk_clock tk)) w of
               (Inr _, w') \<Rightarrow> (Inr (po_response oc, po_error oc), w')
             | (Inl ex, w') \<Rightarrow>
                 (Inr (None, Some (plain_error
                    (''Provider call completed but budget reconciliation failed safely: ''
                       @ exception_name ex) BUDGET False None 1 True)), w'))
      | _ \<Rightarrow> (Inr (po_response oc, po_error oc), w))"

text \<open>May a truncated answer be tried again?\<close>

definition recovery_open :: "run_policy \<Rightarrow> stage_args \<Rightarrow> stage_ctx \<Rightarrow> string \<Rightarrow> bool" where
  "recovery_open pol args cx name \<longleftrightarrow>
     sa_allow_recovery args \<and> rp_truncation_retries pol \<noteq> 0
     \<and> \<not> is_length_failure_record (record_at (cx_snapshot cx) (sa_stage args) name)
     \<and> truncation_retries_of (cx_events cx) (sa_stage args) name < rp_truncation_retries pol"

definition preserved_event :: "stage_args \<Rightarrow> string \<Rightarrow> provider_response \<Rightarrow> jobj" where
  "preserved_event args name r =
     [(''stage'', JStr (sa_stage args)), (''provider'', JStr name),
      (''response'', JObj (response_to_dict r))]"

definition truncated_event :: "stage_args \<Rightarrow> string \<Rightarrow> int \<Rightarrow> provider_response \<Rightarrow> jobj" where
  "truncated_event args name limit r =
     [(''stage'', JStr (sa_stage args)), (''provider'', JStr name),
      (''requested_max_output_tokens'', JInt limit), (''response'', JObj (response_to_dict r))]"

text \<open>An answer that did not complete normally.\<close>

definition take_incomplete ::
  "'g engine \<Rightarrow> stage_args \<Rightarrow> stage_ctx \<Rightarrow> tick \<Rightarrow> string \<Rightarrow> int \<Rightarrow> reply_value \<Rightarrow> provider_error \<Rightarrow>
   intake \<Rightarrow> ('g world, intake) action" where
  "take_incomplete eg args cx tk slot limit v e st =
     (let name = tk_name tk;
          failed = sbind (fail_slot (eg_env eg) slot e (tk_now tk)) (\<lambda>_.
            sreturn (add_failure (failure_payload (sa_stage args) name e) (fst st), snd st)) in
      case v of
        NoAnswer \<Rightarrow> failed
      | ForeignAnswer \<Rightarrow> sraise (AttributeError ''object has no attribute finish_reason'')
      | Proper r \<Rightarrow>
          if rs_finish r = Some ''length'' \<and> recovery_open (eg_policy eg) args cx name then
            sbind (add_engine_event (eg_env eg) (sa_run args) ''truncated_response_preserved''
                     (truncated_event args name limit r) (tk_now tk)) (\<lambda>_.
            sbind (fail_slot (eg_env eg) slot e (tk_now tk)) (\<lambda>_ w.
              (case get_invocation (wd_store w) slot of
                 None \<Rightarrow> sraise (RuntimeError ''Truncated invocation disappeared'') w
               | Some row \<Rightarrow>
                   sreturn (fst st, dict_set name
                     \<lparr>rc_prompts = (case dict_get (cx_work cx) name of None \<Rightarrow> ([], []) | Some p \<Rightarrow> p),
                      rc_response = r, rc_limit = limit, rc_calls = iv_calls row\<rparr> (snd st)) w)))
          else if sa_preserve args then
            sbind (add_engine_event (eg_env eg) (sa_run args) ''incomplete_response_preserved''
                     (preserved_event args name r) (tk_now tk)) (\<lambda>_. failed)
          else failed)"

definition take_dispatched ::
  "'g engine \<Rightarrow> stage_args \<Rightarrow> stage_ctx \<Rightarrow> tick \<Rightarrow> provider_call_outcome \<Rightarrow> string \<Rightarrow> intake \<Rightarrow>
   ('g world, intake) action" where
  "take_dispatched eg args cx tk oc slot st =
     sbind (reconcile_lease eg tk oc) (\<lambda>(response, err).
       (case err of
          Some e \<Rightarrow>
            sbind (fail_slot (eg_env eg) slot e (tk_now tk)) (\<lambda>_.
              sreturn (add_failure (failure_payload (sa_stage args) (tk_name tk) e) (fst st), snd st))
        | None \<Rightarrow>
            (let v = (case response of None \<Rightarrow> NoAnswer | Some v \<Rightarrow> v) in
             case completion_error v of
               Some e \<Rightarrow> take_incomplete eg args cx tk slot (po_limit oc) v e st
             | None \<Rightarrow>
                 (case v of
                    Proper r \<Rightarrow>
                      sbind (in_store (finish_invocation_success (en_sha (eg_env eg)) (en_url (eg_env eg))
                               slot r (tk_now tk))) (\<lambda>_.
                        sreturn (add_success (tk_name tk) r (fst st), snd st))
                  | _ \<Rightarrow> sreturn st))))"

definition take_outcome ::
  "'g engine \<Rightarrow> stage_args \<Rightarrow> stage_ctx \<Rightarrow> tick \<Rightarrow> provider_call_outcome \<Rightarrow> intake \<Rightarrow>
   ('g world, intake) action" where
  "take_outcome eg args cx tk oc st =
     (if \<not> po_dispatched oc then
        (case po_error oc of
           None \<Rightarrow> sraise (RuntimeError ''assertion failed'')
         | Some e \<Rightarrow> sbind (take_undispatched eg args cx tk oc e (fst st)) (\<lambda>acc. sreturn (acc, snd st)))
      else
        (case po_invocation oc of
           None \<Rightarrow> sraise (RuntimeError ''assertion failed'')
         | Some slot \<Rightarrow> take_dispatched eg args cx tk oc slot st))"

section \<open>The pool\<close>

text \<open>
  \<open>ps_raised\<close> is the exception that ends the loop of the main thread; the calls already submitted
  still run to their end, but are not taken in any more.
\<close>

record 'g pool =
  ps_world :: "'g world"
  ps_phases :: "(string, call_phase) dict"
  ps_intake :: intake
  ps_raised :: "py_error option"

definition busy :: "call_phase \<Rightarrow> bool" where
  "busy ph \<longleftrightarrow> (case ph of Started _ _ \<Rightarrow> True | Leased _ _ _ \<Rightarrow> True | _ \<Rightarrow> False)"

definition busy_calls :: "(string, call_phase) dict \<Rightarrow> nat" where
  "busy_calls phases = count_where busy (map snd phases)"

text \<open>The pool starts calls in the order of submission, at most as many as it has workers.\<close>

definition max_workers :: "run_policy \<Rightarrow> (string, call_phase) dict \<Rightarrow> int" where
  "max_workers pol phases = min (rp_max_parallel pol) (int (length phases))"

definition may_start :: "run_policy \<Rightarrow> (string, call_phase) dict \<Rightarrow> string \<Rightarrow> bool" where
  "may_start pol phases name \<longleftrightarrow>
     int (busy_calls phases) < max_workers pol phases
     \<and> map_option fst (row_where (\<lambda>x. snd x = Queued) phases) = Some name"

definition set_phase :: "string \<Rightarrow> call_phase \<times> 'g world \<Rightarrow> 'g pool \<Rightarrow> 'g pool" where
  "set_phase name x st = st\<lparr>ps_phases := dict_set name (fst x) (ps_phases st), ps_world := snd x\<rparr>"

definition take_in ::
  "'g engine \<Rightarrow> stage_args \<Rightarrow> stage_ctx \<Rightarrow> tick \<Rightarrow> call_phase \<Rightarrow> 'g pool \<Rightarrow> 'g pool" where
  "take_in eg args cx tk ph st =
     (case ps_raised st of
        Some _ \<Rightarrow> st
      | None \<Rightarrow>
          (case (case ph of
                   Returned oc \<Rightarrow> take_outcome eg args cx tk oc (ps_intake st) (ps_world st)
                 | Raised e \<Rightarrow> (Inl e, ps_world st)
                 | _ \<Rightarrow> (Inr (ps_intake st), ps_world st)) of
             (Inl e, w) \<Rightarrow> set_phase (tk_name tk) (Taken, w) st\<lparr>ps_raised := Some e\<rparr>
           | (Inr i, w) \<Rightarrow> set_phase (tk_name tk) (Taken, w) st\<lparr>ps_intake := i\<rparr>))"

definition call_limit :: "stage_ctx \<Rightarrow> string \<Rightarrow> int" where
  "call_limit cx name = (case dict_get (cx_limits cx) name of None \<Rightarrow> 0 | Some n \<Rightarrow> n)"

definition call_prompts :: "stage_ctx \<Rightarrow> string \<Rightarrow> prompts" where
  "call_prompts cx name = (case dict_get (cx_work cx) name of None \<Rightarrow> ([], []) | Some p \<Rightarrow> p)"

definition pool_step ::
  "'g engine \<Rightarrow> stage_args \<Rightarrow> stage_ctx \<Rightarrow> 'g pool \<Rightarrow> tick \<Rightarrow> 'g pool" where
  "pool_step eg args cx st tk =
     (case dict_get (ps_phases st) (tk_name tk) of
        None \<Rightarrow> st
      | Some Queued \<Rightarrow>
          if may_start (eg_policy eg) (ps_phases st) (tk_name tk)
            then set_phase (tk_name tk) (start_call eg args (call_prompts cx (tk_name tk))
                   (call_limit cx (tk_name tk)) tk (ps_world st)) st
          else st
      | Some (Started slot attempt) \<Rightarrow>
          set_phase (tk_name tk) (reserve_lease eg args (call_limit cx (tk_name tk)) tk slot attempt
            (ps_world st)) st
      | Some (Leased slot attempt lease) \<Rightarrow>
          set_phase (tk_name tk) (call_provider eg args (call_prompts cx (tk_name tk))
            (call_limit cx (tk_name tk)) tk slot attempt lease (ps_world st)) st
      | Some Taken \<Rightarrow> st
      | Some ph \<Rightarrow> take_in eg args cx tk ph st)"

definition run_pool ::
  "'g engine \<Rightarrow> stage_args \<Rightarrow> stage_ctx \<Rightarrow> tick list \<Rightarrow> 'g pool \<Rightarrow> 'g pool" where
  "run_pool eg args cx ticks st = foldl (pool_step eg args cx) st ticks"

text \<open>Has every call come back, and been taken in unless an exception ended the loop?\<close>

definition pool_done :: "'g pool \<Rightarrow> bool" where
  "pool_done st \<longleftrightarrow> list_all (\<lambda>x. case snd x of
     Taken \<Rightarrow> True | Returned _ \<Rightarrow> ps_raised st \<noteq> None | Raised _ \<Rightarrow> ps_raised st \<noteq> None
   | _ \<Rightarrow> False) (ps_phases st)"

text \<open>
  The submission loop: it asks the provider configuration for the output limit, and stops with an
  exception at a provider it does not know.
\<close>

definition first_limit :: "'g engine \<Rightarrow> stage_args \<Rightarrow> invocation list \<Rightarrow> string \<Rightarrow> int result" where
  "first_limit eg args snapshot name =
     rbind (provider_of eg name) (\<lambda>c.
       Inr (case dict_get (sa_overrides args) name of
         Some n \<Rightarrow> n
       | None \<Rightarrow>
           (let n = output_tokens_for c (sa_provider_stage args) in
            if is_length_failure_record (record_at snapshot (sa_stage args) name)
            then widened_limit (eg_policy eg) n else n)))"

fun submit ::
  "(string \<Rightarrow> int result) \<Rightarrow> string list \<Rightarrow> (string, int) dict \<times> py_error option" where
  "submit limit_of [] = ([], None)"
| "submit limit_of (name # rest) = (case limit_of name of
     Inl e \<Rightarrow> ([], Some e)
   | Inr n \<Rightarrow> (case submit limit_of rest of (limits, e) \<Rightarrow> ((name, n) # limits, e)))"

end
