(* ===== verification/Engine_Run.thy ===== *)
theory Engine_Run imports Engine_Calls begin

text \<open>
  A whole stage: one pass over the providers, and after it the single second pass that gives
  truncated answers a larger output limit.  A pass answers \<open>None\<close> when its schedule ends before
  every call has come back.
\<close>

section \<open>One pass\<close>

record pass_inputs =
  pi_late :: bool
  pi_now :: instant
  pi_ticks :: "tick list"

text \<open>The pool after the submission loop.\<close>

definition start_pool ::
  "(string, int) dict \<Rightarrow> py_error option \<Rightarrow> stage_acc \<Rightarrow> 'g world \<Rightarrow> 'g pool" where
  "start_pool limits err acc w =
     \<lparr>ps_world = w, ps_phases = map (\<lambda>x. (fst x, Queued)) limits, ps_intake = (acc, []),
      ps_raised = err\<rparr>"

definition run_calls ::
  "'g engine \<Rightarrow> stage_args \<Rightarrow> invocation list \<Rightarrow> event_row list \<Rightarrow> work \<Rightarrow> string list \<Rightarrow> tick list \<Rightarrow>
   stage_acc \<Rightarrow> ('g world, intake option) action" where
  "run_calls eg args snapshot events work allowed ticks acc w =
     (case submit (first_limit eg args snapshot) allowed of (limits, err) \<Rightarrow>
        let cx = \<lparr>cx_snapshot = snapshot, cx_events = events, cx_work = work, cx_limits = limits\<rparr>;
            st = run_pool eg args cx ticks (start_pool limits err acc w) in
        if \<not> pool_done st then (Inr None, ps_world st)
        else (case ps_raised st of
                Some e \<Rightarrow> (Inl e, ps_world st)
              | None \<Rightarrow> (Inr (Some (ps_intake st)), ps_world st)))"

text \<open>From the list of the providers that still have to run: the deadline, the size of the prompts,
  the call budget, the calls.\<close>

definition add_failures :: "jobj list \<Rightarrow> stage_acc \<Rightarrow> stage_acc" where
  "add_failures fs a = a\<lparr>sg_failures := sg_failures a @ fs\<rparr>"

definition run_budgeted ::
  "'g engine \<Rightarrow> stage_args \<Rightarrow> pass_inputs \<Rightarrow> invocation list \<Rightarrow> event_row list \<Rightarrow> work \<Rightarrow> stage_acc \<Rightarrow>
   ('g world, intake option) action" where
  "run_budgeted eg args inp snapshot events work acc w =
     (let names = map fst work;
          db = wd_store w;
          capacity = dispatch_capacity eg db (sa_run args) (sa_stage args) names;
          allowed = take capacity names;
          reserved = reserved_names eg db (sa_run args) (sa_stage args) names in
      sbind (deny_all (deny_one eg args snapshot events reserved (pi_now inp)) (drop capacity names) acc)
        (\<lambda>acc'.
          if allowed = [] then sreturn (Some (acc', []))
          else if rp_max_parallel (eg_policy eg) \<le> 0
            then sraise (ValueError ''max_workers must be greater than 0'')
          else run_calls eg args snapshot events work allowed (pi_ticks inp) acc') w)"

definition run_pass ::
  "'g engine \<Rightarrow> stage_args \<Rightarrow> work \<Rightarrow> pass_inputs \<Rightarrow> ('g world, intake option) action" where
  "run_pass eg args prompts inp w =
     (let snapshot = list_invocations (wd_store w) (sa_run args);
          events = list_events (wd_store w) (sa_run args) in
      sbind (classify_all (classify (eg_policy eg) args snapshot events (eg_env eg) (pi_now inp))
               prompts empty_acc) (\<lambda>(acc, work).
        if work = [] then sreturn (Some (acc, []))
        else if pi_late inp then
          sreturn (Some (add_failures (map (\<lambda>x. late_failure args snapshot (fst x)) work) acc, []))
        else
          (let short = filter (\<lambda>x. \<not> too_long (eg_policy eg) x) work;
               acc2 = add_failures (map (long_failure (eg_policy eg) args)
                        (filter (too_long (eg_policy eg)) work)) acc in
           if short = [] then sreturn (Some (acc2, []))
           else run_budgeted eg args inp snapshot events short acc2)) w)"

section \<open>The second pass\<close>

text \<open>The truncated answers, in the order of the providers: no wider limit, or another attempt.\<close>

fun plan_recovery ::
  "'g engine \<Rightarrow> stage_args \<Rightarrow> instant \<Rightarrow> string list \<Rightarrow> (string, recoverable_call) dict \<Rightarrow> stage_acc \<Rightarrow>
   ('g world, stage_acc \<times> (string \<times> recoverable_call) list) action" where
  "plan_recovery eg args now [] rec acc = sreturn (acc, [])"
| "plan_recovery eg args now (name # rest) rec acc =
     (case dict_get rec name of
        None \<Rightarrow> plan_recovery eg args now rest rec acc
      | Some rc \<Rightarrow>
          if widened_limit (eg_policy eg) (rc_limit rc) \<le> rc_limit rc then
            (case completion_error (Proper (rc_response rc)) of
               None \<Rightarrow> sraise (RuntimeError ''assertion failed'')
             | Some e \<Rightarrow>
                 (let recovery = [(''stage'', JStr (sa_stage args)), (''provider'', JStr name),
                        (''status'', JStr ''not_attempted''),
                        (''reason'', JStr ''recovery output limit unavailable''),
                        (''initial_max_output_tokens'', JInt (rc_limit rc))] in
                  sbind (add_engine_event (eg_env eg) (sa_run args) ''truncation_recovery'' recovery now)
                    (\<lambda>_. plan_recovery eg args now rest rec
                       (add_recovery recovery (add_failure (failure_payload (sa_stage args) name e) acc)))))
          else
            sbind (plan_recovery eg args now rest rec acc) (\<lambda>(acc', again).
              sreturn (acc', (name, rc) # again)))"

definition recovery_record ::
  "'g engine \<Rightarrow> stage_args \<Rightarrow> stage_acc \<Rightarrow> council_db \<Rightarrow> string \<Rightarrow> recoverable_call \<Rightarrow> jobj" where
  "recovery_record eg args second db name rc =
     (let current = record_at (list_invocations db (sa_run args)) (sa_stage args) name;
          sent = (case current of None \<Rightarrow> False | Some r \<Rightarrow> rc_calls rc < iv_calls r) in
      [(''stage'', JStr (sa_stage args)), (''provider'', JStr name),
       (''status'', JStr (if dict_get (sg_successes second) name \<noteq> None then ''recovered''
                         else if sent then ''failed'' else ''not_dispatched'')),
       (''initial_finish_reason'', JStr ''length''),
       (''initial_max_output_tokens'', JInt (rc_limit rc)),
       (''recovery_max_output_tokens'', JInt (widened_limit (eg_policy eg) (rc_limit rc))),
       (''final_failure_recorded'',
          JBool (list_ex (\<lambda>f. get_or_null f ''provider'' = JStr name) (sg_failures second)))]
      @ (if sent then [] else [(''reason'', JStr ''recovery ended before provider dispatch'')]))"

fun record_recoveries ::
  "'g engine \<Rightarrow> stage_args \<Rightarrow> instant \<Rightarrow> stage_acc \<Rightarrow> (string \<times> recoverable_call) list \<Rightarrow> stage_acc \<Rightarrow>
   ('g world, stage_acc) action" where
  "record_recoveries eg args now second [] acc = sreturn acc"
| "record_recoveries eg args now second ((name, rc) # rest) acc =
     (if list_ex (\<lambda>f. get_or_null f ''stage'' = JStr (sa_stage args)
                    \<and> get_or_null f ''provider'' = JStr name) (sg_recoveries second)
      then record_recoveries eg args now second rest acc
      else (\<lambda>w.
        (let recovery = recovery_record eg args second (wd_store w) name rc in
         sbind (add_engine_event (eg_env eg) (sa_run args) ''truncation_recovery'' recovery now)
           (\<lambda>_. record_recoveries eg args now second rest (add_recovery recovery acc)) w)))"

definition merge_acc :: "stage_acc \<Rightarrow> stage_acc \<Rightarrow> stage_acc" where
  "merge_acc a b =
     \<lparr>sg_successes = foldl (\<lambda>d x. dict_set (fst x) (snd x) d) (sg_successes a) (sg_successes b),
      sg_failures = sg_failures a @ sg_failures b,
      sg_recoveries = sg_recoveries a @ sg_recoveries b\<rparr>"

definition second_args :: "'g engine \<Rightarrow> stage_args \<Rightarrow> (string \<times> recoverable_call) list \<Rightarrow> stage_args" where
  "second_args eg args again = args\<lparr>sa_retry_failed := True, sa_allow_recovery := False,
     sa_overrides := map (\<lambda>(n, rc). (n, widened_limit (eg_policy eg) (rc_limit rc))) again\<rparr>"

definition recover ::
  "'g engine \<Rightarrow> stage_args \<Rightarrow> pass_inputs \<Rightarrow> instant \<Rightarrow> intake \<Rightarrow> ('g world, stage_acc option) action" where
  "recover eg args inp now st =
     sbind (plan_recovery eg args now (map fst (eg_providers eg)) (snd st) (fst st)) (\<lambda>(acc, again).
       if again = [] then sreturn (Some acc)
       else
         sbind (run_pass eg (second_args eg args again) (map (\<lambda>(n, rc). (n, rc_prompts rc)) again) inp)
           (\<lambda>second. case second of
              None \<Rightarrow> sreturn None
            | Some (acc2, _) \<Rightarrow>
                sbind (record_recoveries eg args now acc2 again (merge_acc acc acc2)) (\<lambda>acc'.
                  sreturn (Some acc'))))"

definition run_parallel_stage ::
  "'g engine \<Rightarrow> stage_args \<Rightarrow> work \<Rightarrow> pass_inputs \<Rightarrow> pass_inputs \<Rightarrow> instant \<Rightarrow>
   ('g world, stage_acc option) action" where
  "run_parallel_stage eg args prompts first second now =
     sbind (run_pass eg args prompts first) (\<lambda>r. case r of
       None \<Rightarrow> sreturn None
     | Some st \<Rightarrow>
         if snd st = [] then sreturn (Some (fst st)) else recover eg args second now st)"

end
