(* ===== verification/Engine_Laws.thy ===== *)
theory Engine_Laws imports Engine_Run Council_Ledgers begin

text \<open>
  What a stage may do to its world.  All it does to the audit store is operations of that store; the
  number of calls on record grows only when a call is started, the log of calls only when a provider
  is called.
\<close>

section \<open>Calls on record\<close>

lemma count_calls_sum:
  "count_calls db run = sum_list (map (\<lambda>r. if iv_run r = run then iv_calls r else 0) (cd_slots db))"
  by (simp add: count_calls_def sum_rows_where)

lemma count_calls_same:
  "cd_slots d = cd_slots db \<Longrightarrow> count_calls d run = count_calls db run"
  by (simp add: count_calls_def)

lemma count_calls_update:
  assumes "\<And>x. iv_run (f x) = iv_run x" and "\<And>x. iv_calls (f x) = iv_calls x"
  shows "count_calls (db\<lparr>cd_slots := update_where p f (cd_slots db)\<rparr>) run = count_calls db run"
  using assms by (simp add: count_calls_sum update_where_def comp_def if_distrib cong: if_cong)

lemma success_calls [simp]:
  "count_calls (snd (finish_invocation_success sha url i r now db)) run = count_calls db run"
  by (auto simp: finish_invocation_success_def write_txn_snd count_calls_update
      split: sum.split option.split)

lemma failure_calls [simp]:
  "count_calls (snd (finish_invocation_failure url i e now db)) run = count_calls db run"
  by (auto simp: finish_invocation_failure_def write_txn_snd count_calls_update
      split: sum.split option.split)

lemma append_event_slots [simp]: "cd_slots (snd (append_event shaj url rid t v now db)) = cd_slots db"
  using append_event_cases [of shaj url rid t v now db] by auto

lemma sum_list_le:
  fixes f g :: "'a \<Rightarrow> int"
  shows "(\<And>x. x \<in> set xs \<Longrightarrow> f x \<le> g x) \<Longrightarrow> sum_list (map f xs) \<le> sum_list (map g xs)"
  by (rule sum_list_mono)

lemma count_calls_delete:
  assumes "slots_ok (cd_slots db)"
  shows "count_calls (d\<lparr>cd_slots := delete_where p (cd_slots db)\<rparr>) run \<le> count_calls db run"
proof -
  have "sum_list (map w (delete_where p rows)) \<le> sum_list (map w rows)"
    if "\<forall>r\<in>set rows. 0 \<le> w r" for w :: "invocation \<Rightarrow> int" and rows
    using that by (induction rows) (auto simp: delete_where_def)
  moreover have "\<forall>r\<in>set (cd_slots db). 0 \<le> (if iv_run r = run then iv_calls r else 0)"
    using assms by (auto simp: slots_ok_def)
  ultimately show ?thesis by (simp add: count_calls_sum)
qed

lemma release_body_calls:
  assumes good: "council_good db"
    and b: "release_body shaj url i e attempt prior now db = Inr (u, db')"
  shows "count_calls db' run \<le> count_calls db run"
proof -
  have ok: "slots_ok (cd_slots db)" using good by (simp add: council_good_def)
  obtain row where row: "find_slot db i = Some row"
    using b by (auto simp: release_body_def split: option.splits)
  show ?thesis
  proof (cases prior)
    case None
    then show ?thesis using b row count_calls_delete [OF ok]
      by (auto simp: release_body_def result_simps Let_def)
  next
    case (Some p)
    then obtain a where a: "retry_audit url db row p = Inr a"
      using b row by (auto simp: release_body_def result_simps)
    then have le: "iv_calls p \<le> iv_calls row" using retry_audit_calls by fastforce
    have "sum_list (map (\<lambda>r. if iv_run r = run then iv_calls r else 0)
          (map (\<lambda>r. if iv_id r = i \<and> iv_status r = RUNNING \<and> iv_calls r = iv_calls row
             then restore_slot p fl r else r) (cd_slots db)))
        \<le> sum_list (map (\<lambda>r. if iv_run r = run then iv_calls r else 0) (cd_slots db))" for fl
      unfolding map_map by (rule sum_list_le) (use le in \<open>simp add: restore_slot_def\<close>)
    then show ?thesis using b row Some
      by (auto simp: release_body_def result_simps Let_def count_calls_sum update_where_def
          split: prod.splits)
  qed
qed

lemma release_calls:
  "council_good db \<Longrightarrow>
   count_calls (snd (release_undispatched_invocation shaj url i e a p now db)) run \<le> count_calls db run"
  using release_cases [of shaj url i e a p now db] release_body_calls by fastforce

lemma restart_calls:
  assumes "slots_ok (cd_slots db)" and "find_slot db i = Some ex"
  shows "count_calls (d\<lparr>cd_slots := update_where (\<lambda>r. iv_id r = i) (restart_slot now) (cd_slots db)\<rparr>) run
    \<le> count_calls db run + 1"
proof -
  let ?w = "\<lambda>r. if iv_run r = run then iv_calls r else 0"
  have "sum_list (map ?w (update_where (\<lambda>r. iv_id r = i) (restart_slot now) (cd_slots db)))
      = sum_list (map ?w (cd_slots db)) - ?w ex + ?w (restart_slot now ex)"
    using assms find_slot_mem [OF assms(2)] by (intro sum_update_where [where key = iv_id])
      (auto simp: slots_ok_def)
  then show ?thesis by (simp add: count_calls_sum restart_slot_def)
qed

lemma start_body_calls:
  assumes good: "council_good db"
    and b: "start_invocation_body shaj run s p m l t psha uuid now db = Inr (i, d)"
  shows "count_calls d r \<le> count_calls db r + 1"
proof (cases "slot_at db run s p")
  case None
  then show ?thesis using b
    by (auto simp: start_invocation_body_def count_calls_sum new_slot_def split: if_splits)
next
  case (Some ex)
  have "find_slot db (iv_id ex) = Some ex" using slot_at_mem [OF Some] find_slot_of [OF good] by blast
  with restart_calls [OF _ this] good show ?thesis using b Some
    by (auto simp: start_invocation_body_def Let_def council_good_def split: if_splits)
qed

lemma start_calls:
  assumes good: "council_good db"
  shows "count_calls (snd (start_invocation sha shaj run s p m l t uuid now db)) r \<le> count_calls db r + 1"
  using start_cases [OF good, of sha shaj run s p m l t uuid now] start_body_calls [OF good]
  by fastforce

section \<open>Slots on record\<close>

text \<open>Every slot outside the given set stays on record, at its place.\<close>

definition slots_kept :: "string set \<Rightarrow> council_db \<Rightarrow> council_db \<Rightarrow> bool" where
  "slots_kept D db db' \<longleftrightarrow> (\<forall>i r. find_slot db i = Some r \<longrightarrow> i \<notin> D \<longrightarrow>
     (\<exists>r'. find_slot db' i = Some r' \<and> slot_place r' = slot_place r))"

lemma slots_keptD:
  "slots_kept D db db' \<Longrightarrow> find_slot db i = Some r \<Longrightarrow> i \<notin> D \<Longrightarrow>
   \<exists>r'. find_slot db' i = Some r' \<and> slot_place r' = slot_place r"
  by (simp add: slots_kept_def)

lemma kept_same: "cd_slots d = cd_slots db \<Longrightarrow> slots_kept D db d"
  by (simp add: slots_kept_def find_slot_def)

lemma kept_trans: "slots_kept D a b \<Longrightarrow> slots_kept D b c \<Longrightarrow> slots_kept D a c"
  unfolding slots_kept_def by metis

lemma kept_update:
  assumes "cd_slots d = update_where p f (cd_slots db)"
    and "\<And>x. iv_id (f x) = iv_id x \<and> slot_place (f x) = slot_place x"
  shows "slots_kept D db d"
  using assms by (auto simp: slots_kept_def find_slot_def row_where_update)

lemma kept_update_slots:
  "(\<And>x. iv_id (f x) = iv_id x \<and> slot_place (f x) = slot_place x) \<Longrightarrow>
   slots_kept D db (d\<lparr>cd_slots := update_where p f (cd_slots db)\<rparr>)"
  by (rule kept_update [where p = p and f = f]) simp_all

lemma kept_append: "cd_slots d = cd_slots db @ rows \<Longrightarrow> slots_kept D db d"
  by (auto simp: slots_kept_def find_slot_def row_where_append)

lemma kept_delete:
  assumes "cd_slots d = delete_where p (cd_slots db)" and "\<And>x. p x \<Longrightarrow> iv_id x \<in> D"
  shows "slots_kept D db d"
  unfolding slots_kept_def
proof (intro allI impI)
  fix i r
  assume r: "find_slot db i = Some r" and i: "i \<notin> D"
  have "\<not> p r" using assms(2) i find_slot_mem [OF r] by blast
  with r have "find_slot d i = Some r"
    by (simp add: find_slot_def assms(1) row_where_delete_keep)
  then show "\<exists>r'. find_slot d i = Some r' \<and> slot_place r' = slot_place r" by simp
qed

lemma success_kept: "slots_kept D db (snd (finish_invocation_success sha url i r now db))"
  by (auto simp: finish_invocation_success_def write_txn_snd slot_place_def kept_same
      intro!: kept_update_slots split: sum.split option.split)

lemma failure_kept: "slots_kept D db (snd (finish_invocation_failure url i e now db))"
  by (auto simp: finish_invocation_failure_def write_txn_snd slot_place_def kept_same
      intro!: kept_update_slots split: sum.split option.split)

lemma release_body_kept:
  assumes b: "release_body shaj url i e attempt prior now db = Inr (u, db')"
    and i: "prior = None \<Longrightarrow> i \<in> D"
  shows "slots_kept D db db'"
proof (cases prior)
  case None
  then have "\<exists>n. cd_slots db' = delete_where (\<lambda>r. iv_id r = i \<and> iv_status r = RUNNING
      \<and> iv_calls r = n) (cd_slots db)"
    using b by (auto simp: release_body_def result_simps Let_def split: option.splits)
  then show ?thesis using i [OF None] by (elim exE) (rule kept_delete, assumption, simp)
next
  case (Some p)
  obtain row where row: "find_slot db i = Some row"
    using b by (auto simp: release_body_def split: option.splits)
  obtain eid kind fl where a: "retry_audit url db row p = Inr (eid, kind, fl)"
    using b row Some by (auto simp: release_body_def result_simps)
  have "cd_slots db' = update_where (\<lambda>r. iv_id r = i \<and> iv_status r = RUNNING
      \<and> iv_calls r = iv_calls row) (restore_slot p fl) (cd_slots db)"
    using b row a Some by (auto simp: release_body_def result_simps Let_def)
  then show ?thesis by (rule kept_update) simp
qed

lemma release_kept:
  "(p = None \<Longrightarrow> i \<in> D) \<Longrightarrow>
   slots_kept D db (snd (release_undispatched_invocation shaj url i e a p now db))"
  using release_cases [of shaj url i e a p now db] release_body_kept kept_same by fastforce

text \<open>A start puts a slot on record, at the place asked for.\<close>

lemma start_body_kept:
  assumes good: "council_good db"
    and b: "start_invocation_body shaj run s p m l t psha uuid now db = Inr (i, d)"
  shows "slots_kept D db d \<and> (\<exists>r. find_slot d i = Some r \<and> slot_place r = (run, s, p))"
proof (cases "slot_at db run s p")
  case None
  then have d: "cd_slots d = cd_slots db @ [new_slot uuid run s p m l t psha now]"
      and i: "i = uuid" and fresh: "find_slot db uuid = None"
    using b by (auto simp: start_invocation_body_def split: if_splits)
  show ?thesis using kept_append [OF d] fresh
    by (simp add: find_slot_def d i row_where_append new_slot_def slot_place_def)
next
  case (Some ex)
  have ex: "find_slot db (iv_id ex) = Some ex" "slot_place ex = (run, s, p)"
    using slot_at_mem [OF Some] find_slot_of [OF good] by (auto simp: slot_place_def)
  then have row: "row_where (\<lambda>r. iv_id r = iv_id ex) (cd_slots db) = Some ex"
    by (simp add: find_slot_def)
  show ?thesis using b Some ex row
    by (auto simp: start_invocation_body_def Let_def find_slot_def row_where_update kept_same
        intro!: kept_update_slots split: if_splits)
qed

lemma start_kept:
  "council_good db \<Longrightarrow> slots_kept D db (snd (start_invocation sha shaj run s p m l t uuid now db))"
  using start_cases [of db sha shaj run s p m l t uuid now] start_body_kept kept_same by fastforce

lemma start_on_record:
  assumes good: "council_good db"
    and r: "start_invocation sha shaj run (JStr s) (JStr p) m l t uuid now db = (Inr i, d)"
  shows "\<exists>r. find_slot d i = Some r \<and> slot_place r = (run, s, p)"
proof -
  obtain m' l' t' where
      "start_invocation_body shaj run s p m' l' t' (sha t') uuid now db = Inr (i, d)"
    using r by (auto simp: start_invocation_def required_text_def write_txn_eq result_simps
        split: sum.splits)
  from start_body_kept [OF good this] show ?thesis by blast
qed

section \<open>Unknown outcomes\<close>

text \<open>A call whose outcome nobody knows: its slot runs, or has failed ambiguously.\<close>

definition outcome_unknown :: "invocation \<Rightarrow> bool" where
  "outcome_unknown r \<longleftrightarrow> iv_status r = RUNNING \<or> iv_status r = FAILED \<and> error_is_ambiguous r"

definition unknown_at :: "council_db \<Rightarrow> string \<Rightarrow> string \<times> string \<times> string \<Rightarrow> bool" where
  "unknown_at db i pl \<longleftrightarrow> (\<exists>r. find_slot db i = Some r \<and> slot_place r = pl \<and> outcome_unknown r)"

text \<open>Every unknown slot outside the given set stays unknown, at its place.\<close>

definition still_unknown :: "string set \<Rightarrow> council_db \<Rightarrow> council_db \<Rightarrow> bool" where
  "still_unknown S db d \<longleftrightarrow> (\<forall>i pl. i \<notin> S \<longrightarrow> unknown_at db i pl \<longrightarrow> unknown_at d i pl)"

lemma still_same: "cd_slots d = cd_slots db \<Longrightarrow> still_unknown S db d"
  by (simp add: still_unknown_def unknown_at_def find_slot_def)

lemma still_trans: "still_unknown S a b \<Longrightarrow> still_unknown S b c \<Longrightarrow> still_unknown S a c"
  by (simp add: still_unknown_def)

lemma still_unknownD: "still_unknown S db d \<Longrightarrow> unknown_at db i pl \<Longrightarrow> i \<notin> S \<Longrightarrow> unknown_at d i pl"
  unfolding still_unknown_def by blast

lemma unknown_update:
  assumes "unknown_at db i pl" and "cd_slots d = update_where p f (cd_slots db)"
    and "\<And>x. iv_id (f x) = iv_id x" and "\<And>x. p x \<Longrightarrow> iv_id x \<noteq> i"
  shows "unknown_at d i pl"
proof -
  obtain r where r: "row_where (\<lambda>r. iv_id r = i) (cd_slots db) = Some r" "slot_place r = pl" "outcome_unknown r"
    using assms(1) by (auto simp: unknown_at_def find_slot_def)
  from row_where_Some [OF r(1)] have "\<not> p r" using assms(4) by blast
  with r show ?thesis
    by (simp add: unknown_at_def find_slot_def assms(2,3) row_where_update)
qed

lemma still_update:
  "cd_slots d = update_where p f (cd_slots db) \<Longrightarrow> (\<And>x. iv_id (f x) = iv_id x) \<Longrightarrow>
   (\<And>x. p x \<Longrightarrow> iv_id x \<in> S) \<Longrightarrow> still_unknown S db d"
  using unknown_update [where p = p and f = f] unfolding still_unknown_def by metis

lemma still_update_slots:
  "(\<And>x. iv_id (f x) = iv_id x) \<Longrightarrow> (\<And>x. p x \<Longrightarrow> iv_id x \<in> S) \<Longrightarrow>
   still_unknown S db (d\<lparr>cd_slots := update_where p f (cd_slots db)\<rparr>)"
  by (rule still_update [where p = p and f = f]) simp_all

lemma success_unknown:
  "still_unknown {i} db (snd (finish_invocation_success sha url i r now db))"
  by (auto simp: finish_invocation_success_def write_txn_snd still_same
      intro!: still_update_slots split: sum.split option.split)

lemma still_more: "still_unknown S db d \<Longrightarrow> S \<subseteq> S' \<Longrightarrow> still_unknown S' db d"
  by (auto simp: still_unknown_def)

lemma still_settle:
  assumes f: "\<And>x. iv_id (f x) = iv_id x \<and> slot_place (f x) = slot_place x \<and> outcome_unknown (f x)"
  shows "still_unknown S db (d\<lparr>cd_slots := update_where p f (cd_slots db)\<rparr>)"
  unfolding still_unknown_def
proof (intro allI impI)
  fix i pl
  assume "unknown_at db i pl"
  then obtain r where r: "row_where (\<lambda>r. iv_id r = i) (cd_slots db) = Some r" "slot_place r = pl" "outcome_unknown r"
    by (auto simp: unknown_at_def find_slot_def)
  with f [of r] show "unknown_at (d\<lparr>cd_slots := update_where p f (cd_slots db)\<rparr>) i pl"
    by (simp add: unknown_at_def find_slot_def f row_where_update)
qed

lemma failure_unknown:
  shows "still_unknown (if pe_ambiguous e then {} else {i}) db (snd (finish_invocation_failure url i e now db))"
proof (cases "pe_ambiguous e")
  case False
  then show ?thesis
    by (auto simp: finish_invocation_failure_def write_txn_snd still_same
        intro!: still_update_slots split: sum.split option.split)
next
  case True
  then have "truthy_bool (oc_ambiguous (failure_outcome e))"
    by (simp add: failure_outcome_def truthy_bool_def)
  with True show ?thesis
    by (auto simp: finish_invocation_failure_def write_txn_snd still_same slot_place_def
        outcome_unknown_def error_is_ambiguous_def intro!: still_settle split: sum.split option.split)
qed

lemma failure_still:
  "i \<in> S \<or> pe_ambiguous e \<Longrightarrow> still_unknown S db (snd (finish_invocation_failure url i e now db))"
  by (rule still_more [OF failure_unknown]) auto

lemma unknown_delete:
  assumes "unknown_at db i pl" and "cd_slots d = delete_where p (cd_slots db)"
    and "\<And>x. p x \<Longrightarrow> iv_id x \<noteq> i"
  shows "unknown_at d i pl"
proof -
  obtain r where r: "row_where (\<lambda>r. iv_id r = i) (cd_slots db) = Some r" "slot_place r = pl" "outcome_unknown r"
    using assms(1) by (auto simp: unknown_at_def find_slot_def)
  from row_where_Some [OF r(1)] have "\<not> p r" using assms(3) by blast
  with r show ?thesis
    by (simp add: unknown_at_def find_slot_def assms(2) row_where_delete_keep)
qed

lemma release_body_unknown:
  assumes b: "release_body shaj url i e attempt prior now db = Inr (u, d)"
  shows "still_unknown {i} db d"
proof (cases prior)
  case None
  then have "\<exists>n. cd_slots d = delete_where (\<lambda>r. iv_id r = i \<and> iv_status r = RUNNING
      \<and> iv_calls r = n) (cd_slots db)"
    using b by (auto simp: release_body_def result_simps Let_def split: option.splits)
  then show ?thesis by (auto simp: still_unknown_def intro: unknown_delete)
next
  case (Some p)
  obtain row where row: "find_slot db i = Some row"
    using b by (auto simp: release_body_def split: option.splits)
  obtain eid kind fl where a: "retry_audit url db row p = Inr (eid, kind, fl)"
    using b row Some by (auto simp: release_body_def result_simps)
  have "cd_slots d = update_where (\<lambda>r. iv_id r = i \<and> iv_status r = RUNNING
      \<and> iv_calls r = iv_calls row) (restore_slot p fl) (cd_slots db)"
    using b row a Some by (auto simp: release_body_def result_simps Let_def)
  then show ?thesis by (rule still_update) auto
qed

lemma release_unknown:
  "still_unknown {i} db (snd (release_undispatched_invocation shaj url i e a p now db))"
  using release_cases [of shaj url i e a p now db] release_body_unknown still_same by fastforce

text \<open>A start changes nothing outside the place asked for.\<close>

lemma start_body_unknown:
  assumes good: "council_good db" and u: "unknown_at db i pl" "pl \<noteq> (run, s, p)"
    and b: "start_invocation_body shaj run s p m l t psha uuid now db = Inr (j, d)"
  shows "unknown_at d i pl"
proof (cases "slot_at db run s p")
  case None
  then have "cd_slots d = cd_slots db @ [new_slot uuid run s p m l t psha now]"
    using b by (auto simp: start_invocation_body_def split: if_splits)
  with u show ?thesis by (auto simp: unknown_at_def find_slot_def row_where_append)
next
  case (Some ex)
  have ex: "find_slot db (iv_id ex) = Some ex" "slot_place ex = (run, s, p)"
    using slot_at_mem [OF Some] find_slot_of [OF good] by (auto simp: slot_place_def)
  then have "iv_id ex \<noteq> i" using u by (auto simp: unknown_at_def)
  then have "still_unknown (- {i}) db d" using b Some
    by (auto simp: start_invocation_body_def Let_def still_same add_event_def
        intro!: still_update_slots split: if_splits)
  with u show ?thesis unfolding still_unknown_def by blast
qed

lemma start_unknown:
  assumes "council_good db" and "unknown_at db i pl" and "pl \<noteq> (run, s, p)"
  shows "unknown_at (snd (start_invocation sha shaj run (JStr s) (JStr p) m l t uuid now db)) i pl"
proof -
  have "snd (start_invocation sha shaj run (JStr s) (JStr p) m l t uuid now db) = db
    \<or> (\<exists>j m' l' t'. start_invocation_body shaj run s p m' l' t' (sha t') uuid now db
        = Inr (j, snd (start_invocation sha shaj run (JStr s) (JStr p) m l t uuid now db)))"
    unfolding start_invocation_def
    by (auto simp: write_txn_snd required_text_def result_simps simp del: split_paired_Ex
        split: sum.split prod.split)
  then show ?thesis using start_body_unknown [OF assms] assms(2) by fastforce
qed

section \<open>What the parts of a stage respect\<close>

text \<open>
  A reflexive and transitive relation on worlds that the store operations of a stage and the calls
  of its gate respect: then every part of the stage that is made of them respects it.  A slot with
  \<open>may\<close> may be settled in any way, every other one only by an ambiguous failure; \<open>ok\<close> says when a slot
  may be released, \<open>free\<close> which leases may be given back.
\<close>

lemma running_ambiguous: "pe_ambiguous (running_error r)"
  by (simp add: running_error_def record_error_def plain_error_def mk_provider_error_def)

locale stage_actions =
  fixes en :: council_env and gate :: "'g gate_protocol option"
    and R :: "'g world \<Rightarrow> 'g world \<Rightarrow> bool" and may :: "string \<Rightarrow> bool"
    and ok :: "string \<Rightarrow> invocation option \<Rightarrow> bool" and free :: "string \<Rightarrow> bool"
  assumes R_refl: "reflp R" and R_trans: "transp R"
    and keeps_fail_slot: "may i \<or> pe_ambiguous e \<Longrightarrow> keeps R (fail_slot en i e now)"
    and keeps_add_event: "keeps R (add_engine_event en run typ v now)"
    and keeps_success:
      "may i \<Longrightarrow> keeps R (in_store (finish_invocation_success (en_sha en) (en_url en) i r now))"
    and keeps_release: "ok i p \<Longrightarrow> keeps R (in_store
      (release_undispatched_invocation (en_shaj en) (en_url en) i e a p now))"
    and keeps_settle: "gate = Some g \<Longrightarrow> keeps R (in_gate (cg_reconcile g l n clk))"
    and keeps_give_back: "gate = Some g \<Longrightarrow> free l \<Longrightarrow> keeps R (in_gate (cg_release g l))"
begin

lemmas keeps_intros = keeps_sbind [OF R_trans] keeps_pure [OF R_refl] keeps_fail_slot keeps_add_event
  keeps_success keeps_release keeps_settle keeps_give_back

lemma keeps_action: "(\<And>w. keeps R (f w)) \<Longrightarrow> keeps R (\<lambda>w. f w w)"
  by (simp add: keeps_def)

text \<open>Classification, refusals, recovery planning and the intake of outcomes are quiet.\<close>

lemma keeps_classify_known: "keeps R (classify_known args name ex)"
  unfolding classify_known_def by (intro keeps_intros)

lemma keeps_running: "keeps R (fail_slot en i (running_error r) now)"
  by (rule keeps_fail_slot) (simp add: running_ambiguous)

lemma keeps_classify_record:
  "keeps R (classify_record pol args snapshot events en now name)"
  unfolding classify_record_def Let_def
  by (auto intro!: keeps_sbind [OF R_trans] keeps_pure [OF R_refl] keeps_running split: option.split)

lemma keeps_classify: "keeps R (classify pol args snapshot events en now name)"
  unfolding keeps_def
  by (auto simp: classify_def keeps_classify_known [unfolded keeps_def]
      keeps_classify_record [unfolded keeps_def] split: option.split)

lemma keeps_classify_all:
  assumes "\<And>name. keeps R (judge name)"
  shows "keeps R (classify_all judge prompts acc)"
  by (induction prompts arbitrary: acc) (auto intro!: keeps_intros assms split: verdict.split)

lemma keeps_deny: "keeps R (deny_one eg args snapshot events reserved now name acc)"
  if "eg_env eg = en"
  unfolding deny_one_def Let_def that by (auto intro!: keeps_intros split: option.split)

lemma keeps_deny_all:
  assumes "\<And>name acc. keeps R (deny name acc)"
  shows "keeps R (deny_all deny names acc)"
  by (induction names arbitrary: acc) (auto intro!: keeps_intros assms)

lemma keeps_undispatched:
  assumes "eg_env eg = en" and "eg_gate eg = gate"
    and "\<And>i. po_invocation oc = Some i \<Longrightarrow>
      may i \<and> ok i (record_at (cx_snapshot cx) (sa_stage args) (tk_name tk))"
    and "\<And>l. po_lease oc = Some l \<Longrightarrow> free l"
  shows "keeps R (take_undispatched eg args cx tk oc e acc)"
  unfolding take_undispatched_def Let_def assms(1,2)
  by (auto intro!: keeps_intros dest: assms(3,4) split: option.split)

lemma keeps_reconcile:
  assumes "eg_gate eg = gate"
  shows "keeps R (reconcile_lease eg tk oc)"
proof -
  have "R w w'" if "gate = Some g" "in_gate (cg_reconcile g l n clk) w = (r, w')" for g l n clk w r w'
    using keeps_settle [OF that(1)] that(2) by (metis keeps_def snd_conv)
  then show ?thesis using reflpD [OF R_refl] assms
    by (auto simp: keeps_def reconcile_lease_def split: option.split prod.split sum.split)
qed

lemma keeps_incomplete:
  assumes "eg_env eg = en" and "may slot"
  shows "keeps R (take_incomplete eg args cx tk slot limit v e st)"
proof -
  have look: "keeps R (\<lambda>w :: 'g world. case get_invocation (wd_store w) slot of
      None \<Rightarrow> sraise x w | Some row \<Rightarrow> sreturn (f row) w)" for x and f :: "invocation \<Rightarrow> intake"
    using reflpD [OF R_refl] by (auto simp: keeps_def split: option.split)
  show ?thesis
    unfolding take_incomplete_def Let_def assms(1)
    by (cases v) (auto intro!: keeps_intros look simp: assms(2))
qed

lemma keeps_dispatched:
  assumes "eg_env eg = en" and "eg_gate eg = gate" and "may slot"
  shows "keeps R (take_dispatched eg args cx tk oc slot st)"
  unfolding take_dispatched_def Let_def assms(1)
  by (auto intro!: keeps_intros keeps_reconcile [OF assms(2)] keeps_incomplete [OF assms(1)]
      simp: assms(3) split: option.split reply_value.split)

lemma keeps_outcome:
  assumes "eg_env eg = en" and "eg_gate eg = gate"
    and slot: "\<And>i. po_invocation oc = Some i \<Longrightarrow> may i"
    and gone: "\<And>i. \<not> po_dispatched oc \<Longrightarrow> po_invocation oc = Some i \<Longrightarrow>
      ok i (record_at (cx_snapshot cx) (sa_stage args) (tk_name tk))"
    and lease: "\<And>l. \<not> po_dispatched oc \<Longrightarrow> po_lease oc = Some l \<Longrightarrow> free l"
  shows "keeps R (take_outcome eg args cx tk oc st)"
proof (cases "po_dispatched oc")
  case True
  then show ?thesis unfolding take_outcome_def
    by (auto intro!: keeps_intros keeps_dispatched [OF assms(1,2)] slot split: option.split)
next
  case False
  have "keeps R (take_undispatched eg args cx tk oc e acc :: ('g world, stage_acc) action)"
    for e acc
    by (rule keeps_undispatched [OF assms(1,2)]) (use False slot gone lease in simp_all)
  with False show ?thesis unfolding take_outcome_def
    by (auto intro!: keeps_intros split: option.split)
qed

text \<open>The second pass is planned and recorded quietly.\<close>

lemma keeps_plan:
  assumes "eg_env eg = en"
  shows "keeps R (plan_recovery eg args now names tries acc)"
  by (induction names arbitrary: acc)
    (auto simp: assms Let_def intro!: keeps_intros split: option.split)

lemma keeps_record:
  assumes "eg_env eg = en"
  shows "keeps R (record_recoveries eg args now second again acc)"
proof (induction again arbitrary: acc)
  case (Cons x again)
  have "keeps R (\<lambda>w :: 'g world. sbind (add_engine_event en (sa_run args) ty (g w) now)
      (\<lambda>_. record_recoveries eg args now second again (h w)) w)" for ty g h
    by (rule keeps_action) (intro keeps_intros Cons.IH)
  then show ?case by (cases x) (auto simp: assms Let_def intro: Cons.IH)
qed (auto intro: keeps_intros)

text \<open>A stage respects the relation when its calls do.\<close>

lemma keeps_eq: "keeps R m \<Longrightarrow> (\<And>w. f w = m w) \<Longrightarrow> keeps R f"
  by (simp add: keeps_def)

lemma keeps_budgeted:
  assumes "eg_env eg = en"
    and calls: "\<And>snapshot events work allowed ticks acc.
      keeps R (run_calls eg args snapshot events work allowed ticks acc)"
  shows "keeps R (run_budgeted eg args inp snapshot events work acc)"
  unfolding run_budgeted_def Let_def
  by (rule keeps_action) (auto intro!: keeps_intros keeps_deny_all keeps_deny assms)

lemma keeps_pass:
  assumes "eg_env eg = en"
    and calls: "\<And>snapshot events work allowed ticks acc.
      keeps R (run_calls eg args snapshot events work allowed ticks acc)"
  shows "keeps R (run_pass eg args prompts inp)"
  unfolding run_pass_def Let_def
  by (rule keeps_action)
    (auto simp: assms(1) intro!: keeps_intros keeps_classify_all keeps_classify keeps_budgeted assms)

lemma keeps_recover:
  assumes "eg_env eg = en"
    and calls: "\<And>again snapshot events work allowed ticks acc.
      keeps R (run_calls eg (second_args eg args again) snapshot events work allowed ticks acc)"
  shows "keeps R (recover eg args inp now st)"
  unfolding recover_def
  by (auto intro!: keeps_intros keeps_plan keeps_record keeps_pass assms split: option.split)

lemma keeps_stage:
  assumes "eg_env eg = en"
    and calls: "\<And>args' snapshot events work allowed ticks acc. sa_run args' = sa_run args \<Longrightarrow>
      keeps R (run_calls eg args' snapshot events work allowed ticks acc)"
  shows "keeps R (run_parallel_stage eg args prompts first second now)"
  unfolding run_parallel_stage_def
  by (auto simp: second_args_def intro!: keeps_intros keeps_pass keeps_recover assms split: option.split)

end

section \<open>Quiet actions\<close>

text \<open>A change of the world that starts no call, calls no provider, takes no slot outside \<open>D\<close> off the
  record and leaves every unknown slot outside \<open>S\<close> unknown.\<close>

definition store_moves :: "council_env \<Rightarrow> 'g world \<Rightarrow> 'g world \<Rightarrow> bool" where
  "store_moves en w w' \<longleftrightarrow> (\<exists>ops. wd_store w' = council_run en (wd_store w) ops)"

definition quiet :: "council_env \<Rightarrow> string set \<Rightarrow> string set \<Rightarrow> 'g world \<Rightarrow> 'g world \<Rightarrow> bool" where
  "quiet en D S w w' \<longleftrightarrow> store_moves en w w' \<and> wd_calls w' = wd_calls w
     \<and> (council_good (wd_store w) \<longrightarrow>
          (\<forall>r. count_calls (wd_store w') r \<le> count_calls (wd_store w) r)
          \<and> slots_kept D (wd_store w) (wd_store w')
          \<and> still_unknown S (wd_store w) (wd_store w'))"

lemma council_run_append: "council_run en (council_run en db xs) ys = council_run en db (xs @ ys)"
  by (simp add: council_run_def)

lemma store_moves_refl [simp]: "store_moves en w w"
  unfolding store_moves_def by (rule exI [of _ "[]"]) (simp add: council_run_def)

lemma store_moves_trans: "store_moves en a b \<Longrightarrow> store_moves en b c \<Longrightarrow> store_moves en a c"
  unfolding store_moves_def using council_run_append by metis

lemma store_movesI: "wd_store w' = council_step en (wd_store w) x \<Longrightarrow> store_moves en w w'"
  unfolding store_moves_def by (rule exI [of _ "[x]"]) (simp add: council_run_def)

lemma store_moves_good:
  "store_moves en w w' \<Longrightarrow> council_good (wd_store w) \<Longrightarrow> council_good (wd_store w')"
  unfolding store_moves_def council_run_def using council.run_good by metis

lemma quiet_refl [simp]: "quiet en D S w w"
  by (simp add: quiet_def kept_same still_same)

lemma quiet_moves: "quiet en D S w w' \<Longrightarrow> store_moves en w w'"
  by (simp add: quiet_def)

lemma quiet_trans: "quiet en D S a b \<Longrightarrow> quiet en D S b c \<Longrightarrow> quiet en D S a c"
  unfolding quiet_def using store_moves_trans store_moves_good kept_trans still_trans by (metis order_trans)

lemma quiet_reflp: "reflp (quiet en D S)" "transp (quiet en D S)"
  by (auto intro: reflpI transpI quiet_trans)

lemma quiet_in_store:
  assumes "\<And>db. \<exists>x. snd (f db) = council_step en db x"
    and "\<And>db r. council_good db \<Longrightarrow> count_calls (snd (f db)) r \<le> count_calls db r"
    and "\<And>db. slots_kept D db (snd (f db))" and "\<And>db. still_unknown S db (snd (f db))"
  shows "keeps (quiet en D S) (in_store f)"
  unfolding keeps_def
proof
  fix w
  show "quiet en D S w (snd (in_store f w))"
    using assms(1) [of "wd_store w"] assms(2-4) [of "wd_store w"]
    by (auto simp: in_store_def quiet_def intro: store_movesI split: prod.split)
qed

lemma quiet_in_gate: "keeps (quiet en D S) (in_gate f)"
  by (auto simp: keeps_def in_gate_def quiet_def store_moves_def council_run_def kept_same still_same
      intro: exI [of _ "[]"] split: prod.split)

lemma quiet_fail_slot: "i \<in> S \<or> pe_ambiguous e \<Longrightarrow> keeps (quiet en D S) (fail_slot en i e now)"
  unfolding fail_slot_def
  by (rule quiet_in_store)
    (auto intro: exI [of _ "SlotFailure i e now"] failure_still simp: failure_kept)

lemma quiet_add_event: "keeps (quiet en D S) (add_engine_event en run typ v now)"
  unfolding add_engine_event_def
proof (rule quiet_in_store)
  show "\<exists>x. snd (append_event (en_shaj en) (en_url en) run (JStr typ) (JObj v) now db)
      = council_step en db x" for db
    by (rule exI [of _ "AppendEvent run (JStr typ) (JObj v) now"]) simp
  show "count_calls (snd (append_event (en_shaj en) (en_url en) run (JStr typ) (JObj v) now db)) r
      \<le> count_calls db r" for db r
    by (rule eq_refl, rule count_calls_same) simp
  show "slots_kept D db (snd (append_event (en_shaj en) (en_url en) run (JStr typ) (JObj v) now db))"
    for db by (rule kept_same) simp
  show "still_unknown S db (snd (append_event (en_shaj en) (en_url en) run (JStr typ) (JObj v) now db))"
    for db by (rule still_same) simp
qed

lemma quiet_success: "i \<in> S \<Longrightarrow>
  keeps (quiet en D S) (in_store (finish_invocation_success (en_sha en) (en_url en) i r now))"
  by (rule quiet_in_store)
    (auto intro: exI [of _ "SlotSuccess i r now"] still_more [OF success_unknown] simp: success_kept)

lemma quiet_release:
  "i \<in> S \<Longrightarrow> (p = None \<Longrightarrow> i \<in> D) \<Longrightarrow>
   keeps (quiet en D S) (in_store (release_undispatched_invocation (en_shaj en) (en_url en) i e a p now))"
  by (rule quiet_in_store) (auto intro: exI [of _ "ReleaseSlot i e a p now"] still_more [OF release_unknown]
      simp: release_calls release_kept)

interpretation quiet: stage_actions en gate "quiet en D S" "\<lambda>i. i \<in> S"
    "\<lambda>i p. i \<in> S \<and> (p = None \<longrightarrow> i \<in> D)" "\<lambda>_. True" for en gate D S
  by unfold_locales (auto intro: quiet_reflp quiet_fail_slot quiet_add_event quiet_success quiet_release
      quiet_in_gate)

end
