(* ===== verification/Engine_Pool.thy ===== *)
theory Engine_Pool imports Engine_Laws begin

text \<open>
  The laws of the pool, for every schedule: the calls on record and the waiting calls stay within
  what the stage was given, no provider is called twice, every call that went out is on record, and
  the pool never runs more calls at once than it may.
\<close>

section \<open>The moves of a pool\<close>

lemma set_phase_sel [simp]:
  "ps_phases (set_phase n x st) = dict_set n (fst x) (ps_phases st)"
  "ps_world (set_phase n x st) = snd x" "ps_intake (set_phase n x st) = ps_intake st"
  "ps_raised (set_phase n x st) = ps_raised st"
  by (simp_all add: set_phase_def)

lemma pool_step_cases:
  fixes st :: "'g pool"
  obtains
    (idle) "pool_step eg args cx st tk = st"
  | (start) "dict_get (ps_phases st) (tk_name tk) = Some Queued"
      "may_start (eg_policy eg) (ps_phases st) (tk_name tk)"
      "pool_step eg args cx st tk = set_phase (tk_name tk) (start_call eg args
         (call_prompts cx (tk_name tk)) (call_limit cx (tk_name tk)) tk (ps_world st)) st"
  | (reserve) slot attempt where
      "dict_get (ps_phases st) (tk_name tk) = Some (Started slot attempt)"
      "pool_step eg args cx st tk = set_phase (tk_name tk) (reserve_lease eg args
         (call_limit cx (tk_name tk)) tk slot attempt (ps_world st)) st"
  | (call) slot attempt lease where
      "dict_get (ps_phases st) (tk_name tk) = Some (Leased slot attempt lease)"
      "pool_step eg args cx st tk = set_phase (tk_name tk) (call_provider eg args
         (call_prompts cx (tk_name tk)) (call_limit cx (tk_name tk)) tk slot attempt lease
         (ps_world st)) st"
  | (take) oc i w where "dict_get (ps_phases st) (tk_name tk) = Some (Returned oc)"
      "ps_raised st = None"
      "take_outcome eg args cx tk oc (ps_intake st) (ps_world st) = (Inr i, w)"
      "pool_step eg args cx st tk = set_phase (tk_name tk) (Taken, w) st\<lparr>ps_intake := i\<rparr>"
  | (fail) oc e w where "dict_get (ps_phases st) (tk_name tk) = Some (Returned oc)"
      "ps_raised st = None"
      "take_outcome eg args cx tk oc (ps_intake st) (ps_world st) = (Inl e, w)"
      "pool_step eg args cx st tk = set_phase (tk_name tk) (Taken, w) st\<lparr>ps_raised := Some e\<rparr>"
  | (rise) e where "dict_get (ps_phases st) (tk_name tk) = Some (Raised e)" "ps_raised st = None"
      "pool_step eg args cx st tk =
         set_phase (tk_name tk) (Taken, ps_world st) st\<lparr>ps_raised := Some e\<rparr>"
proof (cases "dict_get (ps_phases st) (tk_name tk)")
  case None
  then show thesis by (intro idle) (simp add: pool_step_def)
next
  case (Some ph)
  show thesis
  proof (cases ph)
    case Queued
    then show thesis using Some idle start
      by (cases "may_start (eg_policy eg) (ps_phases st) (tk_name tk)") (simp_all add: pool_step_def)
  next
    case (Started slot attempt)
    then show thesis using Some by (intro reserve) (simp_all add: pool_step_def)
  next
    case (Leased slot attempt lease)
    then show thesis using Some by (intro call) (simp_all add: pool_step_def)
  next
    case (Raised e)
    then show thesis using Some idle rise
      by (cases "ps_raised st") (simp_all add: pool_step_def take_in_def)
  next
    case Taken
    then show thesis using Some by (intro idle) (simp add: pool_step_def)
  next
    case (Returned oc)
    show thesis
    proof (cases "ps_raised st")
      case None
      obtain r w where r: "take_outcome eg args cx tk oc (ps_intake st) (ps_world st) = (r, w)"
        by (cases "take_outcome eg args cx tk oc (ps_intake st) (ps_world st)")
      show thesis
      proof (cases r)
        case (Inl e)
        with Some Returned None r show thesis
          by (intro fail) (simp_all add: pool_step_def take_in_def)
      next
        case (Inr i)
        with Some Returned None r show thesis
          by (intro take) (simp_all add: pool_step_def take_in_def)
      qed
    qed (use Some Returned in \<open>intro idle, simp add: pool_step_def take_in_def\<close>)
  qed
qed

section \<open>What one move does to the world\<close>

text \<open>The slot a call holds, and whether it has called its provider.\<close>

definition slot_of :: "call_phase \<Rightarrow> string option" where
  "slot_of ph = (case ph of Started s _ \<Rightarrow> Some s | Leased s _ _ \<Rightarrow> Some s
     | Returned oc \<Rightarrow> po_invocation oc | _ \<Rightarrow> None)"

definition sent :: "call_phase \<Rightarrow> bool" where
  "sent ph \<longleftrightarrow> (case ph of Returned oc \<Rightarrow> po_dispatched oc | Taken \<Rightarrow> True | _ \<Rightarrow> False)"

lemma phase_simps [simp]:
  "slot_of Queued = None" "slot_of (Started s n) = Some s" "slot_of (Leased s n l) = Some s"
  "slot_of (Returned oc) = po_invocation oc" "slot_of (Raised e) = None" "slot_of Taken = None"
  "\<not> sent Queued" "\<not> sent (Started s n)" "\<not> sent (Leased s n l)"
  "sent (Returned oc) \<longleftrightarrow> po_dispatched oc" "\<not> sent (Raised e)" "sent Taken"
  by (simp_all add: slot_of_def sent_def)

lemma outcome_simps [simp]:
  "po_invocation (undispatched s l e n a) = s" "\<not> po_dispatched (undispatched s l e n a)"
  "po_invocation (dispatched i l n b r) = Some i" "po_dispatched (dispatched i l n b r)"
  by (simp_all add: undispatched_def dispatched_def)

definition placed :: "council_db \<Rightarrow> string \<Rightarrow> string \<times> string \<times> string \<Rightarrow> bool" where
  "placed db i pl \<longleftrightarrow> (\<exists>r. find_slot db i = Some r \<and> slot_place r = pl)"

definition on_record :: "council_db \<Rightarrow> string \<times> string \<times> string \<Rightarrow> bool" where
  "on_record db pl \<longleftrightarrow> (\<exists>i. placed db i pl)"

lemma placed_kept: "slots_kept D db d \<Longrightarrow> placed db i pl \<Longrightarrow> i \<notin> D \<Longrightarrow> placed d i pl"
  unfolding placed_def slots_kept_def by metis

lemma placed_unique: "placed db i pl \<Longrightarrow> placed db i pl' \<Longrightarrow> pl = pl'"
  by (auto simp: placed_def)

lemma start_call_effect:
  assumes good: "council_good (wd_store w)"
    and r: "start_call eg args p limit tk w = (ph, w')"
  shows "store_moves (eg_env eg) w w'" and "wd_calls w' = wd_calls w"
    and "slots_kept {} (wd_store w) (wd_store w')"
    and "count_calls (wd_store w') run \<le> count_calls (wd_store w) run + 1"
    and "\<not> sent ph" and "ph \<noteq> Queued"
    and "slot_of ph = Some s \<Longrightarrow> placed (wd_store w') s (sa_run args, sa_stage args, tk_name tk)"
proof -
  let ?s = "\<lambda>c :: provider_config. start_invocation (en_sha (eg_env eg)) (en_shaj (eg_env eg)) (sa_run args)
    (JStr (sa_stage args)) (JStr (tk_name tk)) (JStr (cf_model c)) (JStr (cf_lineage c))
    (JStr (combined_prompt p)) (tk_uuid tk) (tk_now tk) (wd_store w)"
  have "w' = w \<and> \<not> sent ph \<and> ph \<noteq> Queued \<and> slot_of ph = None
    \<or> (\<exists>c x d. ?s c = (x, d) \<and> w' = w\<lparr>wd_store := d\<rparr> \<and> \<not> sent ph \<and> ph \<noteq> Queued
        \<and> (\<forall>s. slot_of ph = Some s \<longrightarrow> x = Inr s))"
  proof (cases "provider_of eg (tk_name tk)")
    case (Inl e)
    then show ?thesis using r by (auto simp: start_call_def split: if_splits)
  next
    case (Inr c)
    obtain x d where s: "?s c = (x, d)" by (cases "?s c")
    show ?thesis
    proof (cases "tk_remaining tk \<le> 0")
      case False
      then have "w' = w\<lparr>wd_store := d\<rparr> \<and> \<not> sent ph \<and> ph \<noteq> Queued
          \<and> (\<forall>s. slot_of ph = Some s \<longrightarrow> x = Inr s)"
        using r Inr s by (cases x) (auto simp: start_call_def in_store_def)
      with s show ?thesis
        by - (rule disjI2, rule exI [of _ c], rule exI [of _ x], rule exI [of _ d], simp)
    qed (use r in \<open>simp add: start_call_def, auto\<close>)
  qed
  then have main: "store_moves (eg_env eg) w w' \<and> wd_calls w' = wd_calls w
    \<and> slots_kept {} (wd_store w) (wd_store w')
    \<and> count_calls (wd_store w') run \<le> count_calls (wd_store w) run + 1
    \<and> \<not> sent ph \<and> ph \<noteq> Queued
    \<and> (slot_of ph = Some s \<longrightarrow> placed (wd_store w') s (sa_run args, sa_stage args, tk_name tk))"
  proof
    assume "\<exists>c x d. ?s c = (x, d) \<and> w' = w\<lparr>wd_store := d\<rparr> \<and> \<not> sent ph \<and> ph \<noteq> Queued
        \<and> (\<forall>s. slot_of ph = Some s \<longrightarrow> x = Inr s)"
    then obtain c x d where s: "?s c = (x, d)" and w': "w' = w\<lparr>wd_store := d\<rparr>"
        and ph: "\<not> sent ph" "ph \<noteq> Queued" "\<And>s. slot_of ph = Some s \<Longrightarrow> x = Inr s"
      by blast
    have d: "d = snd (?s c)" using s by simp
    have "store_moves (eg_env eg) w w'"
      by (rule store_movesI [where x = "StartSlot (sa_run args) (JStr (sa_stage args))
          (JStr (tk_name tk)) (JStr (cf_model c)) (JStr (cf_lineage c)) (JStr (combined_prompt p))
          (tk_uuid tk) (tk_now tk)"]) (simp add: w' d)
    moreover have "slots_kept {} (wd_store w) d" unfolding d by (rule start_kept [OF good])
    moreover have "count_calls d run \<le> count_calls (wd_store w) run + 1"
      unfolding d by (rule start_calls [OF good])
    moreover have "placed d s (sa_run args, sa_stage args, tk_name tk)" if "slot_of ph = Some s"
      unfolding placed_def
    proof (rule start_on_record [OF good])
      show "?s c = (Inr s, d)" using s ph(3) [OF that] by simp
    qed
    ultimately show ?thesis using ph by (simp add: w')
  qed (simp add: kept_same)
  then show "store_moves (eg_env eg) w w'" "wd_calls w' = wd_calls w"
    "slots_kept {} (wd_store w) (wd_store w')"
    "count_calls (wd_store w') run \<le> count_calls (wd_store w) run + 1" "\<not> sent ph" "ph \<noteq> Queued"
    "slot_of ph = Some s \<Longrightarrow> placed (wd_store w') s (sa_run args, sa_stage args, tk_name tk)"
    by simp_all
qed

lemma reserve_lease_effect:
  assumes "reserve_lease eg args limit tk slot attempt w = (ph, w')"
  shows "wd_store w' = wd_store w \<and> wd_calls w' = wd_calls w \<and> \<not> sent ph \<and> ph \<noteq> Queued
    \<and> (slot_of ph = None \<or> slot_of ph = Some slot)"
  using assms by (auto simp: reserve_lease_def split: option.splits sum.splits prod.splits
      gate_answer.splits)

lemma call_provider_effect:
  assumes "call_provider eg args p limit tk slot attempt lease w = (ph, w')"
  shows "wd_store w' = wd_store w \<and> ph \<noteq> Queued \<and> (slot_of ph = None \<or> slot_of ph = Some slot)
    \<and> (wd_calls w' = wd_calls w \<and> \<not> sent ph
       \<or> sent ph \<and> slot_of ph = Some slot \<and> (\<exists>d. wd_calls w' = wd_calls w @ [d]
          \<and> dp_provider d = tk_name tk \<and> dp_stage d = sa_stage args))"
  using assms by (auto simp: call_provider_def split: if_splits sum.splits)

text \<open>The slot that taking a call in may delete: its own, when it never went out and had no record
  before.\<close>

definition dropped :: "stage_args \<Rightarrow> stage_ctx \<Rightarrow> string \<Rightarrow> provider_call_outcome \<Rightarrow> string set" where
  "dropped args cx name oc =
     (if po_dispatched oc \<or> record_at (cx_snapshot cx) (sa_stage args) name \<noteq> None then {}
      else set_option (po_invocation oc))"

lemma take_outcome_effect:
  assumes "take_outcome eg args cx tk oc i w = (r, w')"
  shows "quiet (eg_env eg) (dropped args cx (tk_name tk) oc) (set_option (po_invocation oc)) w w'"
proof -
  have "keeps (quiet (eg_env eg) (dropped args cx (tk_name tk) oc) (set_option (po_invocation oc)))
      (take_outcome eg args cx tk oc i)"
    by (rule quiet.keeps_outcome) (simp_all add: dropped_def)
  then show ?thesis using assms unfolding keeps_def by (metis snd_conv)
qed

lemma dropped_own:
  "dropped args cx name oc \<subseteq> set_option (po_invocation oc)"
  "po_dispatched oc \<Longrightarrow> dropped args cx name oc = {}"
  by (auto simp: dropped_def)

section \<open>The pool as a machine\<close>

definition stage_place :: "stage_args \<Rightarrow> string \<Rightarrow> string \<times> string \<times> string" where
  "stage_place args name = (sa_run args, sa_stage args, name)"

text \<open>
  The calls logged since \<open>log0\<close> are of this stage, one per provider, made by calls that are past
  that point, and on record; every slot a call holds is on record at the place of the call.
\<close>

definition calls_ok :: "stage_args \<Rightarrow> dispatch list \<Rightarrow> 'g pool \<Rightarrow> bool" where
  "calls_ok args new st \<longleftrightarrow> distinct (map dp_provider new)
     \<and> (\<forall>d\<in>set new. dp_stage d = sa_stage args
          \<and> (\<exists>ph. dict_get (ps_phases st) (dp_provider d) = Some ph \<and> sent ph)
          \<and> on_record (wd_store (ps_world st)) (stage_place args (dp_provider d)))"

definition slots_held :: "stage_args \<Rightarrow> 'g pool \<Rightarrow> bool" where
  "slots_held args st \<longleftrightarrow> (\<forall>name ph s. dict_get (ps_phases st) name = Some ph \<longrightarrow>
     slot_of ph = Some s \<longrightarrow> placed (wd_store (ps_world st)) s (stage_place args name))"

definition pool_ok :: "stage_args \<Rightarrow> dispatch list \<Rightarrow> 'g pool \<Rightarrow> bool" where
  "pool_ok args log0 st \<longleftrightarrow> council_good (wd_store (ps_world st)) \<and> wf_dict (ps_phases st)
     \<and> slots_held args st \<and> (\<exists>new. wd_calls (ps_world st) = log0 @ new \<and> calls_ok args new st)"

text \<open>A move of the call \<open>name\<close> that calls no provider and may take its own slot off the record.\<close>

lemma pool_ok_move:
  assumes ok: "pool_ok args log0 st" and at: "dict_get (ps_phases st) name = Some ph"
    and move: "ps_phases st' = dict_set name ph' (ps_phases st)"
      "wd_calls (ps_world st') = wd_calls (ps_world st)"
      "council_good (wd_store (ps_world st'))"
      "slots_kept D (wd_store (ps_world st)) (wd_store (ps_world st'))"
    and own: "D \<subseteq> set_option (slot_of ph)"
    and held: "\<And>s. slot_of ph' = Some s \<Longrightarrow> placed (wd_store (ps_world st')) s (stage_place args name)"
    and past: "sent ph \<Longrightarrow> sent ph' \<and> D = {}"
  shows "pool_ok args log0 st'"
proof -
  let ?db = "wd_store (ps_world st)" and ?d = "wd_store (ps_world st')"
  obtain new where log: "wd_calls (ps_world st) = log0 @ new" and new: "calls_ok args new st"
    using ok by (auto simp: pool_ok_def)
  have held0: "slots_held args st" using ok by (simp add: pool_ok_def)
  have away: "i \<notin> D" if "placed ?db i (stage_place args n)" "n \<noteq> name" for i n
  proof
    assume "i \<in> D"
    with own have "slot_of ph = Some i" by auto
    with held0 at have "placed ?db i (stage_place args name)" by (auto simp: slots_held_def)
    from placed_unique [OF this that(1)] that(2) show False by (simp add: stage_place_def)
  qed
  have "slots_held args st'"
    unfolding slots_held_def
  proof (intro allI impI)
    fix n p s
    assume n: "dict_get (ps_phases st') n = Some p" and s: "slot_of p = Some s"
    show "placed ?d s (stage_place args n)"
    proof (cases "n = name")
      case True
      with n s held show ?thesis by (simp add: move(1) dict_get_set)
    next
      case False
      with n s held0 have "placed ?db s (stage_place args n)"
        by (simp add: move(1) dict_get_set slots_held_def)
      from placed_kept [OF move(4) this away [OF this False]] show ?thesis .
    qed
  qed
  moreover have "calls_ok args new st'"
    unfolding calls_ok_def
  proof (intro conjI ballI)
    show "distinct (map dp_provider new)" using new by (simp add: calls_ok_def)
    fix d assume d: "d \<in> set new"
    from new d show "dp_stage d = sa_stage args" by (simp add: calls_ok_def)
    from new d obtain p i where p: "dict_get (ps_phases st) (dp_provider d) = Some p" "sent p"
        and i: "placed ?db i (stage_place args (dp_provider d))"
      by (auto simp: calls_ok_def on_record_def)
    show "\<exists>p. dict_get (ps_phases st') (dp_provider d) = Some p \<and> sent p"
      using p at past by (cases "dp_provider d = name") (simp_all add: move(1) dict_get_set)
    have "i \<notin> D" using away [OF i] p at past by (cases "dp_provider d = name") auto
    from placed_kept [OF move(4) i this]
    show "on_record ?d (stage_place args (dp_provider d))" by (auto simp: on_record_def)
  qed
  ultimately show ?thesis
    using ok log move(1,2,3) by (auto simp: pool_ok_def)
qed

text \<open>The move that calls the provider.\<close>

lemma pool_ok_call:
  assumes ok: "pool_ok args log0 st" and at: "dict_get (ps_phases st) name = Some ph"
    and ph: "\<not> sent ph" "slot_of ph = Some slot" "sent ph'" "slot_of ph' = Some slot"
    and move: "ps_phases st' = dict_set name ph' (ps_phases st)"
      "wd_store (ps_world st') = wd_store (ps_world st)"
      "wd_calls (ps_world st') = wd_calls (ps_world st) @ [d]"
    and d: "dp_provider d = name" "dp_stage d = sa_stage args"
  shows "pool_ok args log0 st'"
proof -
  obtain new where log: "wd_calls (ps_world st) = log0 @ new" and new: "calls_ok args new st"
    using ok by (auto simp: pool_ok_def)
  have held: "placed (wd_store (ps_world st)) slot (stage_place args name)"
    using ok at ph(2) by (auto simp: pool_ok_def slots_held_def)
  have fresh: "name \<notin> dp_provider ` set new" using new at ph(1) by (auto simp: calls_ok_def)
  have "calls_ok args (new @ [d]) st'"
    using new fresh held ph(3) d by (auto simp: calls_ok_def move dict_get_set on_record_def)
  moreover have "slots_held args st'"
    using ok held ph(4) by (auto simp: pool_ok_def slots_held_def move dict_get_set)
  ultimately show ?thesis using ok log by (auto simp: pool_ok_def move)
qed

lemma quiet_good:
  "quiet en D S w w' \<Longrightarrow> council_good (wd_store w) \<Longrightarrow>
   council_good (wd_store w') \<and> slots_kept D (wd_store w) (wd_store w') \<and> wd_calls w' = wd_calls w
   \<and> (\<forall>r. count_calls (wd_store w') r \<le> count_calls (wd_store w) r)
   \<and> still_unknown S (wd_store w) (wd_store w')"
  using quiet_moves store_moves_good by (fastforce simp: quiet_def)

lemma pool_ok_taken:
  assumes ok: "pool_ok args log0 st" and at: "dict_get (ps_phases st) name = Some (Returned oc)"
    and q: "quiet en (dropped args cx name oc) S (ps_world st) w"
    and st': "ps_phases st' = dict_set name Taken (ps_phases st)" "ps_world st' = w"
  shows "pool_ok args log0 st'"
proof -
  have good: "council_good (wd_store (ps_world st))" using ok by (simp add: pool_ok_def)
  show ?thesis
    by (rule pool_ok_move [OF ok at, where ph' = Taken and D = "dropped args cx name oc"])
      (use quiet_good [OF q good] dropped_own in \<open>simp_all add: st'\<close>)
qed

lemma pool_step_ok:
  assumes ok: "pool_ok args log0 st"
  shows "pool_ok args log0 (pool_step eg args cx st tk)"
proof -
  have good: "council_good (wd_store (ps_world st))" and held: "slots_held args st"
    using ok by (simp_all add: pool_ok_def)
  show ?thesis
  proof (cases rule: pool_step_cases [of eg args cx st tk])
    case idle
    then show ?thesis using ok by simp
  next
    case start
    obtain ph w where r: "start_call eg args (call_prompts cx (tk_name tk)) (call_limit cx (tk_name tk))
        tk (ps_world st) = (ph, w)" by fastforce
    note eff = start_call_effect [OF good r]
    show ?thesis
      by (rule pool_ok_move [OF ok start(1), where ph' = ph and D = "{}"])
        (use eff store_moves_good [OF eff(1) good] in \<open>simp_all add: start(3) r stage_place_def\<close>)
  next
    case (reserve slot attempt)
    obtain ph w where r: "reserve_lease eg args (call_limit cx (tk_name tk)) tk slot attempt
        (ps_world st) = (ph, w)" by fastforce
    have "placed (wd_store (ps_world st)) slot (stage_place args (tk_name tk))"
      using held reserve(1) by (auto simp: slots_held_def)
    with reserve_lease_effect [OF r] show ?thesis
      by (intro pool_ok_move [OF ok reserve(1), where ph' = ph and D = "{}"])
        (auto simp: reserve(2) r good kept_same)
  next
    case (call slot attempt lease)
    obtain ph w where r: "call_provider eg args (call_prompts cx (tk_name tk))
        (call_limit cx (tk_name tk)) tk slot attempt lease (ps_world st) = (ph, w)" by fastforce
    have here: "placed (wd_store (ps_world st)) slot (stage_place args (tk_name tk))"
      using held call(1) by (auto simp: slots_held_def)
    have eff: "wd_store w = wd_store (ps_world st)"
      using call_provider_effect [OF r] by blast
    from call_provider_effect [OF r] consider
        (silent) "wd_calls w = wd_calls (ps_world st)" "slot_of ph = None \<or> slot_of ph = Some slot"
      | (speaks) d where "sent ph" "slot_of ph = Some slot"
          "wd_calls w = wd_calls (ps_world st) @ [d]" "dp_provider d = tk_name tk"
          "dp_stage d = sa_stage args"
      by blast
    then show ?thesis
    proof cases
      case silent
      then show ?thesis
        by (intro pool_ok_move [OF ok call(1), where ph' = ph and D = "{}"])
          (use eff here good in \<open>auto simp: call(2) r kept_same\<close>)
    next
      case (speaks d)
      then show ?thesis
        by (intro pool_ok_call [OF ok call(1), where ph' = ph and d = d and slot = slot])
          (simp_all add: call(2) r eff)
    qed
  next
    case (take oc i w)
    show ?thesis
      by (rule pool_ok_taken [OF ok take(1) take_outcome_effect [OF take(3)]]) (simp_all add: take(4))
  next
    case (fail oc e w)
    show ?thesis
      by (rule pool_ok_taken [OF ok fail(1) take_outcome_effect [OF fail(3)]]) (simp_all add: fail(4))
  next
    case (rise e)
    show ?thesis
      by (rule pool_ok_move [OF ok rise(1), where ph' = Taken and D = "{}"])
        (simp_all add: rise(3) good kept_same)
  qed
qed

interpretation pool: invariant_machine "pool_step eg args cx" "pool_ok args log0" for eg args cx log0
  by unfold_locales (rule pool_step_ok)

text \<open>All that a pool does to the audit store are operations of that store.\<close>

lemma pool_step_moves:
  assumes ok: "pool_ok args log0 st"
  shows "store_moves (eg_env eg) (ps_world st) (ps_world (pool_step eg args cx st tk))"
proof -
  have good: "council_good (wd_store (ps_world st))" using ok by (simp add: pool_ok_def)
  have same: "store_moves (eg_env eg) v w" if "wd_store w = wd_store v" for v w :: "'a world"
    using that unfolding store_moves_def by (intro exI [of _ "[]"]) (simp add: council_run_def)
  show ?thesis
  proof (cases rule: pool_step_cases [of eg args cx st tk])
    case start
    obtain ph w where "start_call eg args (call_prompts cx (tk_name tk)) (call_limit cx (tk_name tk))
        tk (ps_world st) = (ph, w)" by fastforce
    with start_call_effect(1) [OF good this] show ?thesis by (simp add: start(3))
  next
    case (reserve slot attempt)
    obtain ph w where "reserve_lease eg args (call_limit cx (tk_name tk)) tk slot attempt
        (ps_world st) = (ph, w)" by fastforce
    with reserve_lease_effect [OF this] show ?thesis by (simp add: reserve(2) same)
  next
    case (call slot attempt lease)
    obtain ph w where "call_provider eg args (call_prompts cx (tk_name tk))
        (call_limit cx (tk_name tk)) tk slot attempt lease (ps_world st) = (ph, w)" by fastforce
    with call_provider_effect [OF this] show ?thesis by (simp add: call(2) same)
  next
    case (take oc i w)
    show ?thesis using quiet_moves [OF take_outcome_effect [OF take(3)]] by (simp add: take(4))
  next
    case (fail oc e w)
    show ?thesis using quiet_moves [OF take_outcome_effect [OF fail(3)]] by (simp add: fail(4))
  qed simp_all
qed

interpretation pool_moves: monotone_machine "pool_step eg args cx" "pool_ok args log0"
    "\<lambda>s t. store_moves (eg_env eg) (ps_world s) (ps_world t)" for eg args cx log0
  by unfold_locales (simp_all add: pool_step_moves store_moves_trans)

section \<open>The budget of a pool\<close>

text \<open>Calls on record and calls that still wait for a worker.\<close>

definition waiting :: "(string, call_phase) dict \<Rightarrow> int" where
  "waiting phases = sum_list (map (\<lambda>x. if snd x = Queued then 1 else 0) phases)"

definition pool_calls :: "string \<Rightarrow> 'g pool \<Rightarrow> int" where
  "pool_calls run st = count_calls (wd_store (ps_world st)) run + waiting (ps_phases st)"

lemma waiting_nonneg: "0 \<le> waiting phases"
  unfolding waiting_def by (rule sum_list_nonneg) auto

lemma waiting_set:
  assumes "wf_dict phases" and "dict_get phases name = Some ph"
  shows "waiting (dict_set name ph' phases)
    = waiting phases - (if ph = Queued then 1 else 0) + (if ph' = Queued then 1 else 0)"
  using sum_dict_set [OF assms, where w = "\<lambda>p. if p = Queued then 1 else 0"]
  by (simp add: waiting_def comp_def split del: if_split)

lemma pool_step_calls:
  assumes ok: "pool_ok args log0 st"
  shows "pool_calls run (pool_step eg args cx st tk) \<le> pool_calls run st"
proof -
  have good: "council_good (wd_store (ps_world st))" and wf: "wf_dict (ps_phases st)"
    using ok by (simp_all add: pool_ok_def)
  note wait = waiting_set [OF wf]
  have taken: "pool_calls run st' \<le> pool_calls run st"
    if "dict_get (ps_phases st) n = Some (Returned oc)" "quiet en D S (ps_world st) (ps_world st')"
      "ps_phases st' = dict_set n Taken (ps_phases st)" for st' :: "'a pool" and n oc en D S
    using wait [OF that(1), of Taken] quiet_good [OF that(2) good] that(3)
    by (simp add: pool_calls_def)
  show ?thesis
  proof (cases rule: pool_step_cases [of eg args cx st tk])
    case start
    obtain ph w where r: "start_call eg args (call_prompts cx (tk_name tk)) (call_limit cx (tk_name tk))
        tk (ps_world st) = (ph, w)" by fastforce
    show ?thesis
      using start_call_effect(4) [OF good r, of run] start_call_effect(6) [OF good r]
        wait [OF start(1), of ph]
      by (simp add: start(3) r pool_calls_def)
  next
    case (reserve slot attempt)
    obtain ph w where r: "reserve_lease eg args (call_limit cx (tk_name tk)) tk slot attempt
        (ps_world st) = (ph, w)" by fastforce
    show ?thesis using reserve_lease_effect [OF r] wait [OF reserve(1), of ph]
      by (simp add: reserve(2) r pool_calls_def)
  next
    case (call slot attempt lease)
    obtain ph w where r: "call_provider eg args (call_prompts cx (tk_name tk))
        (call_limit cx (tk_name tk)) tk slot attempt lease (ps_world st) = (ph, w)" by fastforce
    show ?thesis using call_provider_effect [OF r] wait [OF call(1), of ph]
      by (simp add: call(2) r pool_calls_def)
  next
    case (take oc i w)
    show ?thesis by (rule taken [OF take(1)]) (use take_outcome_effect [OF take(3)] in \<open>simp_all add: take(4)\<close>)
  next
    case (fail oc e w)
    show ?thesis by (rule taken [OF fail(1)]) (use take_outcome_effect [OF fail(3)] in \<open>simp_all add: fail(4)\<close>)
  next
    case (rise e)
    then show ?thesis using wait [OF rise(1), of Taken] by (simp add: pool_calls_def)
  qed simp
qed

interpretation pool_budget: monotone_machine "pool_step eg args cx" "pool_ok args log0"
    "\<lambda>s t. pool_calls run t \<le> pool_calls run s" for eg args cx log0 run
  by unfold_locales (simp_all add: pool_step_calls)

text \<open>No call joins or leaves a pool.\<close>

lemma set_phase_names:
  "dict_get phases name = Some ph \<Longrightarrow> fst ` set (dict_set name ph' phases) = fst ` set phases"
  by (simp add: dom_update) (metis fst_conv image_eqI insert_absorb map_of_SomeD)

lemma pool_step_names: "fst ` set (ps_phases (pool_step eg args cx st tk)) = fst ` set (ps_phases st)"
  by (cases rule: pool_step_cases [of eg args cx st tk]) (simp_all add: set_phase_names)

interpretation pool_names: invariant_machine "pool_step eg args cx"
    "\<lambda>st. fst ` set (ps_phases st) = names" for eg args cx names
  by unfold_locales (simp add: pool_step_names)

text \<open>An exception of the main thread is final.\<close>

interpretation pool_raised: invariant_machine "pool_step eg args cx" "\<lambda>st. ps_raised st \<noteq> None"
  for eg args cx
proof
  fix st :: "'a pool" and tk
  assume "ps_raised st \<noteq> None"
  then show "ps_raised (pool_step eg args cx st tk) \<noteq> None"
    by (cases rule: pool_step_cases [of eg args cx st tk]) simp_all
qed

section \<open>The width of a pool\<close>

lemma busy_set:
  assumes "wf_dict phases" and "dict_get phases name = Some ph"
  shows "int (busy_calls (dict_set name ph' phases))
    = int (busy_calls phases) - (if busy ph then 1 else 0) + (if busy ph' then 1 else 0)"
proof -
  have "int (busy_calls d) = sum_list (map (\<lambda>p. if busy p then 1 else 0) (dict_values d))" for d
    by (induction d) (simp_all add: busy_calls_def count_where_def)
  then show ?thesis
    using sum_dict_set [OF assms, where w = "\<lambda>p. if busy p then 1 else 0 :: int"] by simp
qed

lemma busy_simps [simp]:
  "\<not> busy Queued" "busy (Started s n)" "busy (Leased s n l)" "\<not> busy (Returned oc)"
  "\<not> busy (Raised e)" "\<not> busy Taken"
  by (simp_all add: busy_def)

definition narrow :: "int \<Rightarrow> 'g pool \<Rightarrow> bool" where
  "narrow n st \<longleftrightarrow> wf_dict (ps_phases st) \<and> int (busy_calls (ps_phases st)) \<le> max 0 n"

lemma narrow_step:
  assumes "narrow (rp_max_parallel (eg_policy eg)) st"
  shows "narrow (rp_max_parallel (eg_policy eg)) (pool_step eg args cx st tk)"
proof -
  have wf: "wf_dict (ps_phases st)" using assms by (simp add: narrow_def)
  note set = busy_set [OF wf]
  show ?thesis
  proof (cases rule: pool_step_cases [of eg args cx st tk])
    case start
    have "int (busy_calls (ps_phases st)) < rp_max_parallel (eg_policy eg)"
      using start(2) by (simp add: may_start_def max_workers_def)
    then show ?thesis using assms set [OF start(1)] by (simp add: start(3) narrow_def)
  next
    case (reserve slot attempt)
    then show ?thesis using assms set [OF reserve(1)] by (simp add: narrow_def)
  next
    case (call slot attempt lease)
    then show ?thesis using assms set [OF call(1)] by (simp add: narrow_def)
  next
    case (take oc i w)
    then show ?thesis using assms set [OF take(1)] by (simp add: narrow_def)
  next
    case (fail oc e w)
    then show ?thesis using assms set [OF fail(1)] by (simp add: narrow_def)
  next
    case (rise e)
    then show ?thesis using assms set [OF rise(1)] by (simp add: narrow_def)
  qed (use assms in simp)
qed

interpretation pool_width: invariant_machine "pool_step eg args cx"
    "narrow (rp_max_parallel (eg_policy eg))" for eg args cx
  by unfold_locales (rule narrow_step)

section \<open>Records that stay\<close>

text \<open>Places that were on record when the pass took its snapshot stay on record.\<close>

definition places_kept ::
  "stage_args \<Rightarrow> dispatch list \<Rightarrow> (string \<times> string \<times> string) set \<Rightarrow> 'g pool \<Rightarrow> bool" where
  "places_kept args log0 P st \<longleftrightarrow> pool_ok args log0 st
     \<and> (\<forall>pl\<in>P. on_record (wd_store (ps_world st)) pl)"

definition known_places :: "stage_args \<Rightarrow> stage_ctx \<Rightarrow> (string \<times> string \<times> string) set \<Rightarrow> bool" where
  "known_places args cx P \<longleftrightarrow> (\<forall>name. stage_place args name \<in> P \<longrightarrow>
     record_at (cx_snapshot cx) (sa_stage args) name \<noteq> None)"

lemma on_record_kept:
  assumes "slots_kept D db d" and "on_record db pl" and "\<And>i. i \<in> D \<Longrightarrow> \<not> placed db i pl"
  shows "on_record d pl"
  using assms placed_kept unfolding on_record_def by blast

lemma places_kept_step:
  assumes k: "places_kept args log0 P st" and cx: "known_places args cx P"
  shows "places_kept args log0 P (pool_step eg args cx st tk)"
proof -
  have ok: "pool_ok args log0 st" using k by (simp add: places_kept_def)
  have good: "council_good (wd_store (ps_world st))" and held: "slots_held args st"
    using ok by (simp_all add: pool_ok_def)
  let ?db = "wd_store (ps_world st)"
  have taken: "\<forall>pl\<in>P. on_record (wd_store w) pl"
    if at: "dict_get (ps_phases st) (tk_name tk) = Some (Returned oc)"
      and q: "quiet (eg_env eg) (dropped args cx (tk_name tk) oc) S (ps_world st) w" for oc S and w :: "'a world"
  proof
    fix pl assume pl: "pl \<in> P"
    show "on_record (wd_store w) pl"
    proof (rule on_record_kept)
      show "slots_kept (dropped args cx (tk_name tk) oc) ?db (wd_store w)" using quiet_good [OF q good] by simp
      show "on_record ?db pl" using k pl by (simp add: places_kept_def)
      fix i assume i: "i \<in> dropped args cx (tk_name tk) oc"
      then have "record_at (cx_snapshot cx) (sa_stage args) (tk_name tk) = None" "po_invocation oc = Some i"
        by (auto simp: dropped_def split: if_splits)
      with cx pl have "pl \<noteq> stage_place args (tk_name tk)" by (auto simp: known_places_def)
      moreover have "placed ?db i (stage_place args (tk_name tk))"
        using held at \<open>po_invocation oc = Some i\<close> by (auto simp: slots_held_def)
      ultimately show "\<not> placed ?db i pl" using placed_unique by blast
    qed
  qed
  have same: "\<forall>pl\<in>P. on_record (wd_store w) pl" if "slots_kept {} ?db (wd_store w)" for w :: "'a world"
    using k on_record_kept [OF that] by (auto simp: places_kept_def)
  have "\<forall>pl\<in>P. on_record (wd_store (ps_world (pool_step eg args cx st tk))) pl"
  proof (cases rule: pool_step_cases [of eg args cx st tk])
    case idle
    then show ?thesis using k by (simp add: places_kept_def)
  next
    case start
    obtain ph w where r: "start_call eg args (call_prompts cx (tk_name tk)) (call_limit cx (tk_name tk))
        tk (ps_world st) = (ph, w)" by fastforce
    with same [OF start_call_effect(3) [OF good r]] show ?thesis by (simp add: start(3))
  next
    case (reserve slot attempt)
    obtain ph w where r: "reserve_lease eg args (call_limit cx (tk_name tk)) tk slot attempt
        (ps_world st) = (ph, w)" by fastforce
    with reserve_lease_effect [OF r] k show ?thesis by (simp add: reserve(2) places_kept_def)
  next
    case (call slot attempt lease)
    obtain ph w where r: "call_provider eg args (call_prompts cx (tk_name tk))
        (call_limit cx (tk_name tk)) tk slot attempt lease (ps_world st) = (ph, w)" by fastforce
    with call_provider_effect [OF r] k show ?thesis by (simp add: call(2) places_kept_def)
  next
    case (take oc i w)
    then show ?thesis using taken [OF take(1) take_outcome_effect [OF take(3)]] by simp
  next
    case (fail oc e w)
    then show ?thesis using taken [OF fail(1) take_outcome_effect [OF fail(3)]] by simp
  next
    case (rise e)
    then show ?thesis using k by (simp add: places_kept_def)
  qed
  then show ?thesis using pool_step_ok [OF ok] by (simp add: places_kept_def)
qed

lemma run_pool_places:
  assumes "known_places args cx P" and "places_kept args log0 P st"
  shows "places_kept args log0 P (run_pool eg args cx ticks st)"
proof -
  show ?thesis
    unfolding run_pool_def using assms(2)
    by (induction ticks arbitrary: st) (simp_all add: places_kept_step [OF _ assms(1)])
qed

section \<open>Unknown outcomes stay unknown\<close>

text \<open>The slots of \<open>P\<close>, none of them at the place of a call of the pool, stay unknown.\<close>

definition unknowns_kept ::
  "stage_args \<Rightarrow> dispatch list \<Rightarrow> (string \<times> string \<times> string \<times> string) set \<Rightarrow> string set \<Rightarrow> 'g pool \<Rightarrow> bool" where
  "unknowns_kept args log0 P names st \<longleftrightarrow> pool_ok args log0 st \<and> fst ` set (ps_phases st) \<subseteq> names
     \<and> (\<forall>(i, pl)\<in>P. unknown_at (wd_store (ps_world st)) i pl \<and> (\<forall>n\<in>names. pl \<noteq> stage_place args n))"

lemma start_call_unknown:
  assumes good: "council_good (wd_store w)" and r: "start_call eg args p limit tk w = (ph, w')"
    and u: "unknown_at (wd_store w) i pl" "pl \<noteq> stage_place args (tk_name tk)"
  shows "unknown_at (wd_store w') i pl"
proof (cases "0 < tk_remaining tk \<and> provider_of eg (tk_name tk) \<noteq> Inl (KeyError (tk_name tk))")
  case False
  then have "w' = w" using r by (auto simp: start_call_def provider_of_def split: if_splits option.splits)
  with u show ?thesis by simp
next
  case True
  then obtain c where c: "provider_of eg (tk_name tk) = Inr c"
    by (auto simp: provider_of_def split: option.splits)
  obtain x d where s: "start_invocation (en_sha (eg_env eg)) (en_shaj (eg_env eg)) (sa_run args)
      (JStr (sa_stage args)) (JStr (tk_name tk)) (JStr (cf_model c)) (JStr (cf_lineage c))
      (JStr (combined_prompt p)) (tk_uuid tk) (tk_now tk) (wd_store w) = (x, d)" by fastforce
  have "wd_store w' = d"
    using r c s True by (cases x) (auto simp: start_call_def in_store_def)
  then show ?thesis
    using start_unknown [OF good u(1), of "sa_run args" "sa_stage args" "tk_name tk"] u(2) s
    by (metis snd_conv stage_place_def)
qed

lemma unknowns_kept_step:
  assumes k: "unknowns_kept args log0 P names st"
  shows "unknowns_kept args log0 P names (pool_step eg args cx st tk)"
proof -
  have ok: "pool_ok args log0 st" and sub: "fst ` set (ps_phases st) \<subseteq> names"
    using k by (simp_all add: unknowns_kept_def)
  have good: "council_good (wd_store (ps_world st))" and held: "slots_held args st"
    using ok by (simp_all add: pool_ok_def)
  let ?db = "wd_store (ps_world st)"
  have apart: "unknown_at ?db i pl \<and> (\<forall>n\<in>names. pl \<noteq> stage_place args n)" if "(i, pl) \<in> P" for i pl
    using k that by (auto simp: unknowns_kept_def)
  have mem: "tk_name tk \<in> names" if "dict_get (ps_phases st) (tk_name tk) = Some ph" for ph
    using sub that by (metis fst_conv image_eqI map_of_SomeD subsetD)
  have taken: "unknown_at (wd_store w) i pl" if pl: "(i, pl) \<in> P"
      and at: "dict_get (ps_phases st) (tk_name tk) = Some (Returned oc)"
      and q: "quiet (eg_env eg) D (set_option (po_invocation oc)) (ps_world st) w" for i pl oc D and w :: "'a world"
  proof -
    have "placed ?db s (stage_place args (tk_name tk))" if "po_invocation oc = Some s" for s
      using held at that by (auto simp: slots_held_def)
    then have "i \<notin> set_option (po_invocation oc)"
      using apart [OF pl] mem [OF at] by (auto simp: placed_def unknown_at_def)
    moreover have "still_unknown (set_option (po_invocation oc)) ?db (wd_store w)"
      using quiet_good [OF q good] by blast
    ultimately show ?thesis using apart [OF pl] still_unknownD by blast
  qed
  have "unknown_at (wd_store (ps_world (pool_step eg args cx st tk))) i pl" if pl: "(i, pl) \<in> P" for i pl
  proof (cases rule: pool_step_cases [of eg args cx st tk])
    case idle
    then show ?thesis using apart [OF pl] by simp
  next
    case start
    obtain ph w where r: "start_call eg args (call_prompts cx (tk_name tk)) (call_limit cx (tk_name tk))
        tk (ps_world st) = (ph, w)" by fastforce
    have "pl \<noteq> stage_place args (tk_name tk)" using apart [OF pl] mem [OF start(1)] by blast
    with start_call_unknown [OF good r] apart [OF pl] show ?thesis by (simp add: start(3) r)
  next
    case (reserve slot attempt)
    obtain ph w where r: "reserve_lease eg args (call_limit cx (tk_name tk)) tk slot attempt
        (ps_world st) = (ph, w)" by fastforce
    with reserve_lease_effect [OF r] apart [OF pl] show ?thesis by (simp add: reserve(2))
  next
    case (call slot attempt lease)
    obtain ph w where r: "call_provider eg args (call_prompts cx (tk_name tk))
        (call_limit cx (tk_name tk)) tk slot attempt lease (ps_world st) = (ph, w)" by fastforce
    with call_provider_effect [OF r] apart [OF pl] show ?thesis by (simp add: call(2))
  next
    case (take oc i' w)
    then show ?thesis using taken [OF pl take(1) take_outcome_effect [OF take(3)]] by simp
  next
    case (fail oc e w)
    then show ?thesis using taken [OF pl fail(1) take_outcome_effect [OF fail(3)]] by simp
  next
    case (rise e)
    then show ?thesis using apart [OF pl] by simp
  qed
  with apart have "\<forall>(i, pl)\<in>P. unknown_at (wd_store (ps_world (pool_step eg args cx st tk))) i pl
      \<and> (\<forall>n\<in>names. pl \<noteq> stage_place args n)" by blast
  then show ?thesis using pool_step_ok [OF ok] sub pool_step_names [of eg args cx st tk]
    by (simp add: unknowns_kept_def)
qed

interpretation pool_unknowns: invariant_machine "pool_step eg args cx" "unknowns_kept args log0 P names"
  for eg args cx log0 P names
  by unfold_locales (rule unknowns_kept_step)

end
