(* ===== verification/Engine_Intake.thy ===== *)
theory Engine_Intake imports Engine_Pool begin

text \<open>
  What taking a call in adds to the stage: one failure, one success whose answer is in the store, or
  one truncated answer to try again.  The pool therefore accounts for every provider exactly once.
\<close>

section \<open>What the store gives back\<close>

text \<open>
  The store keeps a response as canonical JSON: read back it is the same response, but for the order
  of the keys inside its usage counts and its metadata.
\<close>

definition same_answer :: "provider_response \<Rightarrow> provider_response \<Rightarrow> bool" where
  "same_answer r r' \<longleftrightarrow> r = r'\<lparr>rs_usage := rs_usage r, rs_metadata := rs_metadata r\<rparr>
     \<and> canon (JObj (usage_to_dict (rs_usage r))) = canon (JObj (usage_to_dict (rs_usage r')))
     \<and> canon (JObj (rs_metadata r)) = canon (JObj (rs_metadata r'))"

lemma same_answer_refl [simp]: "same_answer r r"
  by (simp add: same_answer_def)

lemma same_answer_content: "same_answer r r' \<Longrightarrow> rs_content r = rs_content r'"
  unfolding same_answer_def by (metis provider_response.select_convs(1) provider_response.surjective
      provider_response.update_convs(4,8))

lemma response_stored:
  assumes "oc_response (iv_outcome row) = Some (canon (JObj (response_to_dict r)))"
  shows "\<exists>stored. response_from_record row = Inr stored \<and> same_answer stored r"
proof -
  let ?us = "sort_key fst (map (\<lambda>p. (fst p, canon (snd p))) (usage_to_dict (rs_usage r)))"
  let ?md = "sort_key fst (map (\<lambda>p. (fst p, canon (snd p))) (rs_metadata r))"
  have use: "get_or_null ?us k = canon (get_or_null (usage_to_dict (rs_usage r)) k)" for k
    by (rule canon_get) (simp add: wf_dict_def usage_to_dict_def)
  have "response_from_record row
      = Inr (r\<lparr>rs_usage := usage_from_dict (Some ?us), rs_metadata := ?md\<rparr>)"
    using assms
    by (simp add: response_from_record_def obj_of_def response_from_dict_def obj_get_def
        response_to_dict_def get_or_null_def opt_str_def text_value_def opt_text_value_def
        int_value_def obj_or_empty_def split: option.splits)
  moreover have "canon (JObj (usage_to_dict (usage_from_dict (Some ?us))))
      = canon (JObj (usage_to_dict (rs_usage r)))"
    by (simp add: usage_from_dict_def use) (simp add: usage_to_dict_def get_or_null_def)
  moreover have "canon (JObj ?md) = canon (JObj (rs_metadata r))"
    using canon_idem [of "JObj (rs_metadata r)"] by simp
  ultimately show ?thesis by (simp add: same_answer_def)
qed

text \<open>The succeeded invocation of a provider in a stage, holding this response.\<close>

definition holds_answer :: "council_db \<Rightarrow> string \<Rightarrow> string \<Rightarrow> string \<Rightarrow> provider_response \<Rightarrow> bool" where
  "holds_answer db run stage name r \<longleftrightarrow> (\<exists>row stored.
     get_successful_invocation db run stage name = Some row
     \<and> response_from_record row = Inr stored \<and> same_answer stored r)"

section \<open>What one intake adds\<close>

text \<open>Moves of the stage's findings by one call.\<close>

inductive intake_step ::
  "bool \<Rightarrow> string \<Rightarrow> council_db \<Rightarrow> string option \<Rightarrow> intake \<Rightarrow> intake \<Rightarrow> bool"
  for allow name db slot where
  intake_failure: "intake_step allow name db slot (acc, again) (add_failure f acc, again)"
| intake_success: "slot = Some s \<Longrightarrow> find_slot db s = Some row \<Longrightarrow> iv_status row = SUCCEEDED \<Longrightarrow>
    oc_response (iv_outcome row) = Some (canon (JObj (response_to_dict r))) \<Longrightarrow>
    intake_step allow name db slot (acc, again) (add_success name r acc, again)"
| intake_again: "allow \<Longrightarrow> intake_step allow name db slot (acc, again) (acc, dict_set name rc again)"

lemma take_undispatched_result:
  assumes "take_undispatched eg args cx tk oc e acc w = (Inr acc', w')"
  shows "\<exists>f. acc' = add_failure f acc"
  using assms unfolding take_undispatched_def Let_def
  by (auto simp: sbind_eq_Inr split: option.splits if_splits)

lemma take_incomplete_result:
  assumes "take_incomplete eg args cx tk s limit v e st w = (Inr st', w')"
  shows "intake_step (sa_allow_recovery args) (tk_name tk) (wd_store w') slot st st'"
proof (cases st)
  case (Pair acc again)
  show ?thesis using assms unfolding take_incomplete_def Let_def Pair
    by (auto simp: sbind_eq_Inr recovery_open_def intro: intake_failure intake_again
        split: option.splits if_splits reply_value.splits)
qed

lemma completion_error_None: "completion_error v = None \<Longrightarrow> \<exists>r. v = Proper r"
  by (cases v) (simp_all add: completion_error_def)

lemma in_store_eq: "in_store f w = (r, w') \<longleftrightarrow> (\<exists>d. f (wd_store w) = (r, d) \<and> w' = w\<lparr>wd_store := d\<rparr>)"
  by (auto simp: in_store_def split: prod.split)

lemma take_dispatched_result:
  assumes t: "take_dispatched eg args cx tk oc s st w = (Inr st', w')"
  shows "intake_step (sa_allow_recovery args) (tk_name tk) (wd_store w') (Some s) st st'"
proof -
  obtain acc again where st: "st = (acc, again)" by (cases st)
  obtain response err w1 where rec: "reconcile_lease eg tk oc w = (Inr (response, err), w1)"
      and rest: "(case err of
          Some e \<Rightarrow>
            sbind (fail_slot (eg_env eg) s e (tk_now tk)) (\<lambda>_.
              sreturn (add_failure (failure_payload (sa_stage args) (tk_name tk) e) (fst st), snd st))
        | None \<Rightarrow>
            (let v = (case response of None \<Rightarrow> NoAnswer | Some v \<Rightarrow> v) in
             case completion_error v of
               Some e \<Rightarrow> take_incomplete eg args cx tk s (po_limit oc) v e st
             | None \<Rightarrow>
                 (case v of
                    Proper r \<Rightarrow>
                      sbind (in_store (finish_invocation_success (en_sha (eg_env eg)) (en_url (eg_env eg))
                               s r (tk_now tk))) (\<lambda>_.
                        sreturn (add_success (tk_name tk) r (fst st), snd st))
                  | _ \<Rightarrow> sreturn st))) w1 = (Inr st', w')"
    using t by (auto simp: take_dispatched_def sbind_eq_Inr)
  show ?thesis
  proof (cases err)
    case (Some e)
    with rest show ?thesis by (auto simp: st sbind_eq_Inr intro: intake_failure)
  next
    case None
    let ?v = "case response of None \<Rightarrow> NoAnswer | Some v \<Rightarrow> v"
    show ?thesis
    proof (cases "completion_error ?v")
      case (Some e)
      with rest None have "take_incomplete eg args cx tk s (po_limit oc) ?v e st w1 = (Inr st', w')"
        by simp
      then show ?thesis by (rule take_incomplete_result)
    next
      case v: None
      then obtain r where r: "?v = Proper r" using completion_error_None by blast
      with rest None v obtain u w2 where
          "finish_invocation_success (en_sha (eg_env eg)) (en_url (eg_env eg)) s r (tk_now tk)
             (wd_store w1) = (Inr (), wd_store w')" and "st' = (add_success (tk_name tk) r acc, again)"
        by (auto simp: st sbind_eq_Inr in_store_eq)
      with success_recorded show ?thesis by (metis st intake_success)
    qed
  qed
qed

lemma take_outcome_result:
  assumes "take_outcome eg args cx tk oc st w = (Inr st', w')"
  shows "intake_step (sa_allow_recovery args) (tk_name tk) (wd_store w')
    (if po_dispatched oc then po_invocation oc else None) st st'"
proof (cases st)
  case (Pair acc again)
  show ?thesis
    using assms Pair
    by (auto simp: take_outcome_def sbind_eq_Inr dest!: take_undispatched_result take_dispatched_result
        intro: intake_failure split: option.splits if_splits)
qed

section \<open>Every provider accounted for once\<close>

text \<open>What the stage has settled, and the calls that still have to be taken in.\<close>

definition settled_count :: "intake \<Rightarrow> int" where
  "settled_count st = int (length (sg_successes (fst st))) + int (length (sg_failures (fst st)))
     + int (length (snd st))"

definition open_calls :: "(string, call_phase) dict \<Rightarrow> int" where
  "open_calls phases = sum_list (map (\<lambda>x. if snd x = Taken then 0 else 1) phases)"

definition answered :: "stage_args \<Rightarrow> council_db \<Rightarrow> stage_acc \<Rightarrow> bool" where
  "answered args db acc \<longleftrightarrow> (\<forall>name r. dict_get (sg_successes acc) name = Some r \<longrightarrow>
     holds_answer db (sa_run args) (sa_stage args) name r)"

definition tally_ok ::
  "stage_args \<Rightarrow> int \<Rightarrow> string set \<Rightarrow> string set \<Rightarrow> 'g pool \<Rightarrow> bool" where
  "tally_ok args n keys names st \<longleftrightarrow> (ps_raised st = None \<longrightarrow>
     settled_count (ps_intake st) + open_calls (ps_phases st) = n
     \<and> fst ` set (ps_phases st) \<subseteq> names
     \<and> wf_dict (sg_successes (fst (ps_intake st))) \<and> wf_dict (snd (ps_intake st))
     \<and> fst ` set (snd (ps_intake st)) \<subseteq> names
     \<and> fst ` set (sg_successes (fst (ps_intake st))) \<subseteq> keys \<union> names
     \<and> fst ` set (sg_successes (fst (ps_intake st))) \<inter> fst ` set (snd (ps_intake st)) = {}
     \<and> (\<not> sa_allow_recovery args \<longrightarrow> snd (ps_intake st) = [])
     \<and> answered args (wd_store (ps_world st)) (fst (ps_intake st))
     \<and> (\<forall>name ph. dict_get (ps_phases st) name = Some ph \<longrightarrow> ph \<noteq> Taken \<longrightarrow>
          dict_get (sg_successes (fst (ps_intake st))) name = None
          \<and> dict_get (snd (ps_intake st)) name = None))"

lemma open_set:
  assumes "wf_dict phases" and "dict_get phases name = Some ph"
  shows "open_calls (dict_set name ph' phases)
    = open_calls phases - (if ph = Taken then 0 else 1) + (if ph' = Taken then 0 else 1)"
  using sum_dict_set [OF assms, where w = "\<lambda>p. if p = Taken then 0 else 1"]
  by (simp add: open_calls_def comp_def split del: if_split)

lemma row_where_only:
  "unique_on key rows \<Longrightarrow> r \<in> set rows \<Longrightarrow> p r \<Longrightarrow> row_where (\<lambda>x. key x = key r \<and> p x) rows = Some r"
  by (induction rows) (auto simp: row_where_def unique_on_def image_iff)

lemma success_of:
  assumes good: "council_good db" and row: "row \<in> set (cd_slots db)" "iv_status row = SUCCEEDED"
    "slot_place row = (run, stage, name)"
  shows "get_successful_invocation db run stage name = Some row"
proof -
  have "row_where (\<lambda>x. slot_place x = slot_place row \<and> iv_status x = SUCCEEDED) (cd_slots db) = Some row"
    using good row by (intro row_where_only) (simp_all add: council_good_def slots_ok_def)
  moreover have "(\<lambda>x. slot_place x = slot_place row \<and> iv_status x = SUCCEEDED)
      = (\<lambda>x. iv_run x = run \<and> iv_stage x = stage \<and> iv_provider x = name \<and> iv_status x = SUCCEEDED)"
    using row(3) by (auto simp: slot_place_def)
  ultimately show ?thesis by (simp add: get_successful_invocation_def)
qed

lemma success_row:
  "get_successful_invocation db run stage name = Some row \<Longrightarrow>
   row \<in> set (cd_slots db) \<and> iv_status row = SUCCEEDED \<and> slot_place row = (run, stage, name)"
  by (auto simp: get_successful_invocation_def slot_place_def dest: row_where_Some)

lemma success_same:
  assumes good: "council_good (wd_store w)" and m: "store_moves en w w'"
    and s: "get_successful_invocation (wd_store w) run stage name = Some row"
  shows "get_successful_invocation (wd_store w') run stage name = Some row"
proof -
  note row = success_row [OF s]
  obtain ops where ops: "wd_store w' = council_run en (wd_store w) ops"
    using m by (auto simp: store_moves_def)
  have "find_slot (wd_store w') (iv_id row) = Some row"
    unfolding ops council_run_def
    by (rule slots.run_settled_frozen [OF good find_slot_of [OF good]]) (use row in simp_all)
  then have "row \<in> set (cd_slots (wd_store w'))" using find_slot_mem by blast
  with row store_moves_good [OF m good] show ?thesis by (simp add: success_of)
qed

lemma success_moves:
  assumes "council_good (wd_store w)" and "store_moves en w w'"
    and "get_successful_invocation (wd_store w) run stage name \<noteq> None"
  shows "get_successful_invocation (wd_store w') run stage name \<noteq> None"
proof -
  obtain row where "get_successful_invocation (wd_store w) run stage name = Some row"
    using assms(3) by blast
  from success_same [OF assms(1,2) this] show ?thesis by simp
qed

lemma holds_moves:
  "council_good (wd_store w) \<Longrightarrow> store_moves en w w' \<Longrightarrow> holds_answer (wd_store w) run stage name r \<Longrightarrow>
   holds_answer (wd_store w') run stage name r"
  unfolding holds_answer_def using success_same by blast

lemma answered_moves:
  "council_good (wd_store w) \<Longrightarrow> store_moves en w w' \<Longrightarrow> answered args (wd_store w) acc \<Longrightarrow>
   answered args (wd_store w') acc"
  unfolding answered_def using holds_moves by blast

lemma length_dict_set:
  "length (dict_set k v d) = (if dict_get d k = None then length d + 1 else length d)"
  by (induction d) auto

text \<open>A move that takes nothing in.\<close>

lemma tally_move:
  assumes t: "tally_ok args n keys names st" and at: "dict_get (ps_phases st) name = Some ph" "ph \<noteq> Taken"
    and wf: "wf_dict (ps_phases st)" and good: "council_good (wd_store (ps_world st))"
    and move: "ps_phases st' = dict_set name ph' (ps_phases st)" "ph' \<noteq> Taken"
      "ps_intake st' = ps_intake st" "ps_raised st' = ps_raised st"
      "store_moves en (ps_world st) (ps_world st')"
  shows "tally_ok args n keys names st'"
proof -
  have dom: "fst ` set (dict_set name ph' (ps_phases st)) = fst ` set (ps_phases st)"
    by (rule set_phase_names [OF at(1)])
  show ?thesis
    using t at(2) move(2) open_set [OF wf at(1), of ph'] answered_moves [OF good move(5), of args]
    by (auto simp: tally_ok_def move(1,3,4) dom dict_get_set at split: if_splits)
qed

text \<open>A move that takes one call in.\<close>

lemma tally_take:
  assumes t: "tally_ok args n keys names st" and ok: "pool_ok args log0 st"
    and at: "dict_get (ps_phases st) name = Some (Returned oc)" and live: "ps_raised st = None"
    and step: "intake_step (sa_allow_recovery args) name (wd_store w) (if po_dispatched oc then po_invocation oc else None)
      (ps_intake st) i"
    and q: "quiet en (dropped args cx name oc) S (ps_world st) w"
  shows "tally_ok args n keys names (set_phase name (Taken, w) st\<lparr>ps_intake := i\<rparr>)"
proof -
  have wf: "wf_dict (ps_phases st)" and good: "council_good (wd_store (ps_world st))"
      and held: "slots_held args st" using ok by (simp_all add: pool_ok_def)
  have dom: "fst ` set (dict_set name Taken (ps_phases st)) = fst ` set (ps_phases st)"
    by (rule set_phase_names [OF at])
  have mem: "name \<in> names"
    using at t live by (auto simp: tally_ok_def dest!: map_of_SomeD)
  have old: "answered args (wd_store w) (fst (ps_intake st))"
    using t live answered_moves [OF good quiet_moves [OF q]] by (simp add: tally_ok_def)
  have fresh: "dict_get (sg_successes (fst (ps_intake st))) name = None"
      "dict_get (snd (ps_intake st)) name = None"
    using t live at by (auto simp: tally_ok_def)
  note base = t [unfolded tally_ok_def] live dom mem old fresh open_set [OF wf at, of Taken]
  show ?thesis
    using step
  proof cases
    case (intake_failure acc again f)
    with base show ?thesis
      by (auto simp: tally_ok_def dict_get_set settled_count_def add_failure_def answered_def
          split: if_splits)
  next
    case (intake_success s row r acc again)
    then have "placed (wd_store (ps_world st)) s (stage_place args name)" and d: "po_dispatched oc"
      using held at by (auto simp: slots_held_def split: if_splits)
    with quiet_good [OF q good] have "placed (wd_store w) s (stage_place args name)"
      by (auto intro: placed_kept simp: dropped_own)
    with intake_success have "row \<in> set (cd_slots (wd_store w))" "slot_place row = stage_place args name"
      using find_slot_mem by (auto simp: placed_def)
    then have "get_successful_invocation (wd_store w) (sa_run args) (sa_stage args) name = Some row"
      using intake_success(5) quiet_good [OF q good] by (intro success_of) (simp_all add: stage_place_def)
    with response_stored [OF intake_success(6)] have
        "holds_answer (wd_store w) (sa_run args) (sa_stage args) name r"
      by (auto simp: holds_answer_def)
    with intake_success base show ?thesis
      by (auto simp: tally_ok_def dict_get_set settled_count_def add_success_def answered_def
          length_dict_set dom_update map_of_eq_None_iff split: if_splits)
  next
    case (intake_again acc again rc)
    with base show ?thesis
      by (auto simp: tally_ok_def dict_get_set settled_count_def length_dict_set dom_update
          map_of_eq_None_iff split: if_splits)
  qed
qed

definition accounted ::
  "stage_args \<Rightarrow> dispatch list \<Rightarrow> int \<Rightarrow> string set \<Rightarrow> string set \<Rightarrow> 'g pool \<Rightarrow> bool" where
  "accounted args log0 n keys names st \<longleftrightarrow> pool_ok args log0 st \<and> tally_ok args n keys names st"

lemma accounted_step:
  assumes a: "accounted args log0 n keys names st"
  shows "accounted args log0 n keys names (pool_step eg args cx st tk)"
proof -
  have ok: "pool_ok args log0 st" and t: "tally_ok args n keys names st"
    using a by (simp_all add: accounted_def)
  have good: "council_good (wd_store (ps_world st))" and wf: "wf_dict (ps_phases st)"
    using ok by (simp_all add: pool_ok_def)
  have "tally_ok args n keys names (pool_step eg args cx st tk)"
  proof (cases rule: pool_step_cases [of eg args cx st tk])
    case start
    obtain ph w where r: "start_call eg args (call_prompts cx (tk_name tk)) (call_limit cx (tk_name tk))
        tk (ps_world st) = (ph, w)" by fastforce
    note eff = start_call_effect [OF good r]
    have "ph \<noteq> Taken" using eff(5) by auto
    then show ?thesis
      by (intro tally_move [OF t start(1) _ wf good, where ph' = ph and en = "eg_env eg"])
        (use eff(1) in \<open>simp_all add: start(3) r\<close>)
  next
    case (reserve slot attempt)
    obtain ph w where r: "reserve_lease eg args (call_limit cx (tk_name tk)) tk slot attempt
        (ps_world st) = (ph, w)" by fastforce
    have "ph \<noteq> Taken" "store_moves (eg_env eg) (ps_world st) w"
      using reserve_lease_effect [OF r] by (auto simp: store_moves_def council_run_def intro: exI [of _ "[]"])
    then show ?thesis
      by (intro tally_move [OF t reserve(1) _ wf good, where ph' = ph and en = "eg_env eg"])
        (simp_all add: reserve(2) r)
  next
    case (call slot attempt lease)
    obtain ph w where r: "call_provider eg args (call_prompts cx (tk_name tk))
        (call_limit cx (tk_name tk)) tk slot attempt lease (ps_world st) = (ph, w)" by fastforce
    have "ph \<noteq> Taken" "store_moves (eg_env eg) (ps_world st) w"
      using call_provider_effect [OF r]
      by (auto simp: store_moves_def council_run_def intro: exI [of _ "[]"])
    then show ?thesis
      by (intro tally_move [OF t call(1) _ wf good, where ph' = ph and en = "eg_env eg"])
        (simp_all add: call(2) r)
  next
    case (take oc i w)
    show ?thesis unfolding take(4)
      by (rule tally_take [OF t ok take(1,2) take_outcome_result [OF take(3)]
            take_outcome_effect [OF take(3)]])
  qed (use t in \<open>simp_all add: tally_ok_def\<close>)
  then show ?thesis using pool_step_ok [OF ok] by (simp add: accounted_def)
qed

interpretation pool_account: invariant_machine "pool_step eg args cx" "accounted args log0 n keys names"
  for eg args cx log0 n keys names
  by unfold_locales (rule accounted_step)

end
