(* ===== verification/Engine_Passes.thy ===== *)
theory Engine_Passes imports Engine_Intake begin

text \<open>
  The laws of the pool carried over to a pass and to a whole stage, for every schedule and every
  outcome.
\<close>

section \<open>The first pool of a pass\<close>

lemma submit_names:
  "submit limit_of names = (limits, err) \<Longrightarrow>
   (\<exists>k. map fst limits = take k names) \<and> (err = None \<longrightarrow> map fst limits = names)
   \<and> (\<forall>n\<in>fst ` set limits. \<exists>x. limit_of n = Inr x)"
proof (induction names arbitrary: limits)
  case (Cons name rest)
  show ?case
  proof (cases "limit_of name")
    case (Inl e)
    with Cons.prems show ?thesis by (auto intro: exI [of _ 0])
  next
    case (Inr x)
    obtain l e where l: "submit limit_of rest = (l, e)" by fastforce
    then have eq: "limits = (name, x) # l" "e = err" using Cons.prems Inr by auto
    from Cons.IH [of l] l eq(2) obtain k where "map fst l = take k rest"
        and "err = None \<longrightarrow> map fst l = rest" "\<forall>n\<in>fst ` set l. \<exists>x. limit_of n = Inr x"
      by blast
    with Inr show ?thesis by (auto simp: eq(1) intro: exI [of _ "Suc k"])
  qed
qed simp

lemma start_pool_sel [simp]:
  "ps_world (start_pool limits err acc w) = w" "ps_intake (start_pool limits err acc w) = (acc, [])"
  "ps_raised (start_pool limits err acc w) = err"
  "ps_phases (start_pool limits err acc w) = map (\<lambda>x. (fst x, Queued)) limits"
  by (simp_all add: start_pool_def)

lemma start_phases: "dict_get (map (\<lambda>x. (fst x, Queued)) limits) name = Some ph \<Longrightarrow>
    ph = Queued \<and> name \<in> fst ` set limits"
  by (induction limits) (auto split: if_splits)

lemma start_pool_ok:
  assumes "council_good (wd_store w)" and "distinct (map fst limits)"
  shows "pool_ok args (wd_calls w) (start_pool limits err acc w)"
  using assms start_phases [of limits]
  by (auto simp: pool_ok_def wf_dict_def comp_def slots_held_def calls_ok_def)

lemma start_waiting [simp]: "waiting (map (\<lambda>x. (fst x, Queued)) limits) = int (length limits)"
  by (simp add: waiting_def comp_def sum_list_triv)

lemma start_pool_narrow: "distinct (map fst limits) \<Longrightarrow> narrow n (start_pool limits err acc w)"
  by (simp add: narrow_def wf_dict_def comp_def busy_calls_def count_where_def)

lemma start_pool_tally:
  assumes "wf_dict (sg_successes acc)" and "answered args (wd_store w) acc"
    and "fst ` set limits \<inter> fst ` set (sg_successes acc) = {}"
  shows "tally_ok args (settled_count (acc, []) + int (length limits))
    (fst ` set (sg_successes acc)) (fst ` set limits)
    (start_pool limits err acc w)"
proof -
  have "dict_get (sg_successes acc) name = None" if "name \<in> fst ` set limits" for name
    using assms(3) that by (auto simp: map_of_eq_None_iff)
  moreover have "fst ` set (map (\<lambda>x. (fst x, Queued)) limits) \<subseteq> fst ` set limits" by force
  ultimately show ?thesis
    using assms(1,2) start_phases [of limits]
    by (auto simp: tally_ok_def open_calls_def comp_def sum_list_triv)
qed

lemma sum_list_zero: "(\<And>x. x \<in> set xs \<Longrightarrow> f x = (0 :: int)) \<Longrightarrow> sum_list (map f xs) = 0"
  by (induction xs) auto

lemma pool_done_open: "pool_done st \<Longrightarrow> ps_raised st = None \<Longrightarrow> open_calls (ps_phases st) = 0"
proof -
  assume "pool_done st" "ps_raised st = None"
  then have "snd x = Taken" if "x \<in> set (ps_phases st)" for x
    using that by (cases "snd x") (auto simp: pool_done_def list_all_iff)
  then show ?thesis unfolding open_calls_def by (intro sum_list_zero) simp
qed

section \<open>The world after a pass\<close>

text \<open>
  Only operations of the store; at most so many more calls on record; every provider called at most
  once, for this stage, among the given names, and on record.
\<close>

definition stage_moves ::
  "council_env \<Rightarrow> stage_args \<Rightarrow> string set \<Rightarrow> int \<Rightarrow> 'g world \<Rightarrow> 'g world \<Rightarrow> bool" where
  "stage_moves en args names budget w w' \<longleftrightarrow> store_moves en w w'
     \<and> count_calls (wd_store w') (sa_run args) \<le> count_calls (wd_store w) (sa_run args) + budget
     \<and> (\<exists>new. wd_calls w' = wd_calls w @ new \<and> distinct (map dp_provider new)
          \<and> (\<forall>d\<in>set new. dp_stage d = sa_stage args \<and> dp_provider d \<in> names
               \<and> on_record (wd_store w') (stage_place args (dp_provider d))))"

lemma stage_moves_mono:
  assumes "stage_moves en args names n w w'" and "names \<subseteq> names'" and "n \<le> m"
  shows "stage_moves en args names' m w w'"
proof -
  obtain new where "wd_calls w' = wd_calls w @ new \<and> distinct (map dp_provider new)
      \<and> (\<forall>d\<in>set new. dp_stage d = sa_stage args \<and> dp_provider d \<in> names
           \<and> on_record (wd_store w') (stage_place args (dp_provider d)))"
    using assms(1) unfolding stage_moves_def by blast
  with assms show ?thesis
    unfolding stage_moves_def by (intro conjI exI [of _ new]) auto
qed

lemma stage_moves_quiet:
  assumes "council_good (wd_store w)" and "quiet en D S w w'"
  shows "stage_moves en args names 0 w w'"
  using quiet_good [OF assms(2,1)] quiet_moves [OF assms(2)] by (auto simp: stage_moves_def)

lemma stage_moves_after:
  assumes good: "council_good (wd_store w)" and q: "quiet en D S w w1"
    and m: "stage_moves en args names n w1 w'"
  shows "stage_moves en args names n w w'"
  using quiet_good [OF q good] store_moves_trans [OF quiet_moves [OF q]] m
  by (fastforce simp: stage_moves_def intro: order_trans)

lemma stage_moves_then:
  assumes m: "stage_moves en args names n w w1" and good: "council_good (wd_store w)"
    and q: "quiet en {} {} w1 w'"
  shows "stage_moves en args names n w w'"
proof -
  have moves: "store_moves en w w1" using m by (simp add: stage_moves_def)
  have good1: "council_good (wd_store w1)" by (rule store_moves_good [OF moves good])
  have rec: "on_record (wd_store w') (stage_place args n)"
    if "on_record (wd_store w1) (stage_place args n)" for n
    using quiet_good [OF q good1] that by (auto simp: on_record_def intro: placed_kept)
  show ?thesis
    using m quiet_good [OF q good1] store_moves_trans [OF moves quiet_moves [OF q]] rec
    by (auto simp: stage_moves_def) (meson order_trans)
qed

lemma run_calls_moves:
  assumes good: "council_good (wd_store w)" and d: "distinct allowed"
    and r: "run_calls eg args snapshot events work allowed ticks acc w = (res, w')"
  shows "stage_moves (eg_env eg) args (set allowed) (int (length allowed)) w w'"
proof -
  obtain limits err where s: "submit (first_limit eg args snapshot) allowed = (limits, err)"
    by fastforce
  let ?cx = "\<lparr>cx_snapshot = snapshot, cx_events = events, cx_work = work, cx_limits = limits\<rparr>"
  let ?start = "start_pool limits err acc w" and ?st = "run_pool eg args ?cx ticks (start_pool limits err acc w)"
  have w': "w' = ps_world ?st" using r s by (auto simp: run_calls_def Let_def split: if_splits option.splits)
  obtain k where names: "map fst limits = take k allowed" using submit_names [OF s] by blast
  then have distinct: "distinct (map fst limits)" using d by (metis distinct_take)
  have len: "length limits \<le> length allowed" using names by (metis length_map length_take min.cobounded1)
  have sub: "fst ` set limits \<subseteq> set allowed" using names by (metis image_set set_take_subset)
  have ok: "pool_ok args (wd_calls w) ?start" by (rule start_pool_ok [OF good distinct])
  have end_ok: "pool_ok args (wd_calls w) ?st" unfolding run_pool_def by (rule pool.run_good [OF ok])
  have moves: "store_moves (eg_env eg) (ps_world ?start) (ps_world ?st)"
    unfolding run_pool_def by (rule pool_moves.run_le [OF ok])
  have budget: "pool_calls (sa_run args) ?st \<le> pool_calls (sa_run args) ?start"
    unfolding run_pool_def by (rule pool_budget.run_le [OF ok])
  have "fst ` set (ps_phases ?st) = fst ` set limits"
    unfolding run_pool_def by (rule pool_names.run_good) force
  then have "dp_provider d \<in> set allowed"
    if "dict_get (ps_phases ?st) (dp_provider d) = Some ph" for d ph
    using that sub by (metis fst_conv image_eqI map_of_SomeD subsetD)
  moreover obtain new where "wd_calls (ps_world ?st) = wd_calls w @ new" "calls_ok args new ?st"
    using end_ok by (auto simp: pool_ok_def)
  ultimately have "\<exists>new. wd_calls w' = wd_calls w @ new \<and> distinct (map dp_provider new)
      \<and> (\<forall>d\<in>set new. dp_stage d = sa_stage args \<and> dp_provider d \<in> set allowed
           \<and> on_record (wd_store w') (stage_place args (dp_provider d)))"
    unfolding calls_ok_def w' by blast
  moreover have "count_calls (wd_store w') (sa_run args)
      \<le> count_calls (wd_store w) (sa_run args) + int (length allowed)"
    using budget len waiting_nonneg [of "ps_phases ?st"]
    by (simp add: w' pool_calls_def)
  moreover have "store_moves (eg_env eg) w w'" using moves by (simp add: w')
  ultimately show ?thesis unfolding stage_moves_def by blast
qed


text \<open>When the calls come back: every allowed provider is settled, answered ones on record.\<close>

lemma run_calls_result:
  assumes good: "council_good (wd_store w)" and d: "distinct allowed"
    and acc: "wf_dict (sg_successes acc)" "answered args (wd_store w) acc"
      "set allowed \<inter> fst ` set (sg_successes acc) = {}"
    and r: "run_calls eg args snapshot events work allowed ticks acc w = (Inr (Some (acc', again)), w')"
  shows "settled_count (acc', again) = settled_count (acc, []) + int (length allowed)"
    and "wf_dict (sg_successes acc')" and "wf_dict again" and "fst ` set again \<subseteq> set allowed"
    and "answered args (wd_store w') acc'"
    and "\<forall>n\<in>set allowed. n \<in> fst ` set (eg_providers eg)"
    and "fst ` set (sg_successes acc') \<subseteq> fst ` set (sg_successes acc) \<union> set allowed"
    and "fst ` set (sg_successes acc') \<inter> fst ` set again = {}"
    and "\<not> sa_allow_recovery args \<Longrightarrow> again = []"
proof -
  obtain limits err where s: "submit (first_limit eg args snapshot) allowed = (limits, err)"
    by fastforce
  let ?cx = "\<lparr>cx_snapshot = snapshot, cx_events = events, cx_work = work, cx_limits = limits\<rparr>"
  let ?start = "start_pool limits err acc w" and ?st = "run_pool eg args ?cx ticks (start_pool limits err acc w)"
  have fin: "pool_done ?st" "ps_raised ?st = None" "ps_intake ?st = (acc', again)" "w' = ps_world ?st"
    using r s by (auto simp: run_calls_def Let_def split: if_splits option.splits)
  have "err = None"
  proof (rule ccontr)
    assume "err \<noteq> None"
    then have "ps_raised ?st \<noteq> None"
      unfolding run_pool_def by (intro pool_raised.run_good) simp
    with fin(2) show False by simp
  qed
  then have names: "map fst limits = allowed"
      and known: "\<forall>n\<in>set allowed. \<exists>x. first_limit eg args snapshot n = Inr x"
    using submit_names [OF s] by (metis image_set)+
  have sets: "fst ` set limits = set allowed" using names by (metis image_set)
  have "accounted args (wd_calls w) (settled_count (acc, []) + int (length limits))
      (fst ` set (sg_successes acc)) (set allowed) ?start"
    using start_pool_ok [OF good] start_pool_tally [OF acc(1,2)] acc(3) d names
    by (simp add: accounted_def flip: sets)
  then have "accounted args (wd_calls w) (settled_count (acc, []) + int (length limits))
      (fst ` set (sg_successes acc)) (set allowed) ?st"
    unfolding run_pool_def by (rule pool_account.run_good)
  with pool_done_open [OF fin(1,2)] fin names show
    "settled_count (acc', again) = settled_count (acc, []) + int (length allowed)"
    "wf_dict (sg_successes acc')" "wf_dict again" "fst ` set again \<subseteq> set allowed"
    "answered args (wd_store w') acc'"
    "fst ` set (sg_successes acc') \<subseteq> fst ` set (sg_successes acc) \<union> set allowed"
    "fst ` set (sg_successes acc') \<inter> fst ` set again = {}"
    "\<not> sa_allow_recovery args \<Longrightarrow> again = []"
    by (auto simp: accounted_def tally_ok_def)
  show "\<forall>n\<in>set allowed. n \<in> fst ` set (eg_providers eg)"
  proof
    fix n assume "n \<in> set allowed"
    with known obtain x where "first_limit eg args snapshot n = Inr x" by blast
    then obtain c where "dict_get (eg_providers eg) n = Some c"
      by (auto simp: first_limit_def provider_of_def result_simps split: option.splits)
    then show "n \<in> fst ` set (eg_providers eg)" by (metis fst_conv image_eqI map_of_SomeD)
  qed
qed


section \<open>Classification\<close>

text \<open>Nothing on record forbids to call this provider in this stage.\<close>

definition clear_to_run ::
  "run_policy \<Rightarrow> stage_args \<Rightarrow> invocation list \<Rightarrow> event_row list \<Rightarrow> string \<Rightarrow> bool" where
  "clear_to_run pol args snapshot events name \<longleftrightarrow>
     \<not> ambiguous_provider snapshot name
     \<and> (case record_at snapshot (sa_stage args) name of
          None \<Rightarrow> True
        | Some r \<Rightarrow>
            (iv_status r = FAILED \<longrightarrow> sa_retry_failed args)
            \<and> (is_length_failure_record (Some r) \<longrightarrow>
                 \<not> recovery_recorded events (sa_stage args) name
                 \<and> truncation_retries_of events (sa_stage args) name < rp_truncation_retries pol))"

text \<open>The providers that a pass over these prompts may call.\<close>

definition runnable :: "'g engine \<Rightarrow> stage_args \<Rightarrow> work \<Rightarrow> council_db \<Rightarrow> string set" where
  "runnable eg args prompts db = {n \<in> fst ` set prompts.
     clear_to_run (eg_policy eg) args (list_invocations db (sa_run args))
       (list_events db (sa_run args)) n
     \<and> get_successful_invocation db (sa_run args) (sa_stage args) n = None}"

lemma classify_ToRun:
  assumes "classify pol args snapshot events en now name w = (Inr ToRun, w')"
  shows "get_successful_invocation (wd_store w) (sa_run args) (sa_stage args) name = None
    \<and> clear_to_run pol args snapshot events name"
proof -
  have none: "get_successful_invocation (wd_store w) (sa_run args) (sa_stage args) name = None"
    using assms by (auto simp: classify_def classify_known_def sbind_eq_Inr split: option.splits)
  then have rec: "classify_record pol args snapshot events en now name w = (Inr ToRun, w')"
    using assms by (simp add: classify_def)
  have "clear_to_run pol args snapshot events name"
    using rec unfolding classify_record_def Let_def clear_to_run_def
    by (auto simp: sbind_eq_Inr split: option.splits if_splits)
  with none show ?thesis by simp
qed

lemma classify_Known:
  assumes "classify pol args snapshot events en now name w = (Inr (Known r), w')"
  shows "holds_answer (wd_store w) (sa_run args) (sa_stage args) name r \<and> w' = w"
  using assms unfolding classify_def classify_record_def classify_known_def Let_def
  by (auto simp: sbind_eq_Inr holds_answer_def intro: same_answer_refl split: option.splits if_splits)

lemma quiet_of_keeps: "keeps (quiet en D S) m \<Longrightarrow> m w = (r, w') \<Longrightarrow> quiet en D S w w'"
  by (metis keeps_def snd_conv)

text \<open>The list that still has to run: a part of the given one, nothing of it answered before.\<close>

lemma classify_all_result:
  assumes "classify_all (classify pol args snapshot events en now) prompts acc w
      = (Inr (acc', work), w')"
    and "council_good (wd_store w)" and "wf_dict prompts"
    and "wf_dict (sg_successes acc)" and "answered args (wd_store w) acc"
    and "fst ` set prompts \<inter> fst ` set (sg_successes acc) = {}"
  shows "length (sg_successes acc') + length (sg_failures acc') + length work
      = length (sg_successes acc) + length (sg_failures acc) + length prompts
    \<and> wf_dict (sg_successes acc') \<and> wf_dict work \<and> fst ` set work \<subseteq> fst ` set prompts
    \<and> fst ` set (sg_successes acc') \<subseteq> fst ` set (sg_successes acc) \<union> fst ` set prompts
    \<and> fst ` set work \<inter> fst ` set (sg_successes acc') = {}
    \<and> answered args (wd_store w') acc'
    \<and> (\<forall>n\<in>fst ` set work. clear_to_run pol args snapshot events n
        \<and> get_successful_invocation (wd_store w) (sa_run args) (sa_stage args) n = None)"
  using assms
proof (induction prompts arbitrary: acc acc' work w w')
  case Nil
  then show ?case by simp
next
  case (Cons x rest)
  obtain name p where x: "x = (name, p)" by (cases x)
  let ?judge = "classify pol args snapshot events en now"
  obtain v w1 where v: "?judge name w = (Inr v, w1)"
      and more: "(case v of
        Known r \<Rightarrow> classify_all ?judge rest (add_success name r acc)
      | KnownFailure f \<Rightarrow> classify_all ?judge rest (add_failure f acc)
      | ToRun \<Rightarrow> sbind (classify_all ?judge rest acc) (\<lambda>(acc', work). sreturn (acc', (name, p) # work))) w1
        = (Inr (acc', work), w')"
    using Cons.prems(1) by (auto simp: x sbind_eq_Inr)
  have q: "quiet en {} {} w w1" by (rule quiet_of_keeps [OF quiet.keeps_classify v])
  have good1: "council_good (wd_store w1)" using quiet_good [OF q Cons.prems(2)] by simp
  have kept: "answered args (wd_store w1) acc"
    by (rule answered_moves [OF Cons.prems(2) quiet_moves [OF q] Cons.prems(5)])
  have before: "get_successful_invocation (wd_store w) (sa_run args) (sa_stage args) n = None"
    if "get_successful_invocation (wd_store w1) (sa_run args) (sa_stage args) n = None" for n
    using success_moves [OF Cons.prems(2) quiet_moves [OF q]] that by blast
  have rest: "wf_dict rest" "name \<notin> fst ` set rest" using Cons.prems(3) by (auto simp: x wf_dict_def)
  have fresh: "dict_get (sg_successes acc) name = None"
    using Cons.prems(6) by (auto simp: x map_of_eq_None_iff)
  show ?case
  proof (cases v)
    case (Known r)
    then have ans: "answered args (wd_store w1) (add_success name r acc)"
      using classify_Known [OF v [unfolded Known]] kept
      by (auto simp: answered_def add_success_def dict_get_set)
    have "fst ` set rest \<inter> fst ` set (sg_successes (add_success name r acc)) = {}"
      using Cons.prems(6) rest(2) by (auto simp: x add_success_def dom_update)
    from Cons.IH [OF _ good1 rest(1) _ ans this, of acc' work w'] more Known Cons.prems(4) show ?thesis
      using before fresh by (auto simp: x add_success_def length_dict_set dom_update)
  next
    case (KnownFailure f)
    have "answered args (wd_store w1) (add_failure f acc)"
      using kept by (simp add: answered_def add_failure_def)
    from Cons.IH [OF _ good1 rest(1) _ this, of acc' work w'] more KnownFailure Cons.prems(4,6) show ?thesis
      using before by (auto simp: x add_failure_def)
  next
    case ToRun
    from more ToRun obtain work' where w: "classify_all ?judge rest acc w1 = (Inr (acc', work'), w')"
        and work: "work = (name, p) # work'" by (auto simp: sbind_eq_Inr)
    from Cons.IH [OF w good1 rest(1) Cons.prems(4) kept] Cons.prems(6)
    have ih: "length (sg_successes acc') + length (sg_failures acc') + length work'
        = length (sg_successes acc) + length (sg_failures acc) + length rest"
      "wf_dict (sg_successes acc')" "wf_dict work'" "fst ` set work' \<subseteq> fst ` set rest"
      "fst ` set (sg_successes acc') \<subseteq> fst ` set (sg_successes acc) \<union> fst ` set rest"
      "fst ` set work' \<inter> fst ` set (sg_successes acc') = {}" "answered args (wd_store w') acc'"
      "\<forall>n\<in>fst ` set work'. clear_to_run pol args snapshot events n
        \<and> get_successful_invocation (wd_store w1) (sa_run args) (sa_stage args) n = None"
      by (auto simp: x)
    have "name \<notin> fst ` set (sg_successes acc')" using ih(5) rest(2) Cons.prems(6) by (auto simp: x)
    moreover have "name \<notin> fst ` set work'" using ih(4) rest(2) by auto
    ultimately show ?thesis
      using ih classify_ToRun [OF v [unfolded ToRun]] before
      by (auto simp: x work wf_dict_def)
  qed
qed

lemma deny_all_result:
  assumes one: "\<And>name acc w acc' w'. deny name acc w = (Inr acc', w') \<Longrightarrow>
      sg_successes acc' = sg_successes acc \<and> length (sg_failures acc') = length (sg_failures acc) + 1"
    and "deny_all deny names acc w = (Inr acc', w')"
  shows "sg_successes acc' = sg_successes acc
    \<and> length (sg_failures acc') = length (sg_failures acc) + length names"
  using assms(2)
proof (induction names arbitrary: acc w)
  case (Cons name rest)
  then obtain acc1 w1 where "deny name acc w = (Inr acc1, w1)" "deny_all deny rest acc1 w1 = (Inr acc', w')"
    by (auto simp: sbind_eq_Inr)
  with Cons.IH [OF this(2)] one [OF this(1)] show ?case by simp
qed simp

lemma deny_one_result:
  assumes "deny_one eg args snapshot events reserved now name acc w = (Inr acc', w')"
  shows "sg_successes acc' = sg_successes acc \<and> length (sg_failures acc') = length (sg_failures acc) + 1"
  using assms unfolding deny_one_def Let_def
  by (auto simp: sbind_eq_Inr add_failure_def add_recovery_def split: option.splits if_splits)

end
