(* ===== verification/Engine_Rounds.thy ===== *)
theory Engine_Rounds imports Engine_Passes begin

text \<open>A pass and a whole stage: what they do to the world and what they return.\<close>

section \<open>One pass\<close>

lemma run_budgeted_moves:
  assumes good: "council_good (wd_store w)" and d: "wf_dict work"
    and r: "run_budgeted eg args inp snapshot events work acc w = (res, w')"
  shows "stage_moves (eg_env eg) args (fst ` set work)
    (int (dispatch_capacity eg (wd_store w) (sa_run args) (sa_stage args) (map fst work))) w w'"
proof -
  let ?names = "map fst work"
  let ?cap = "dispatch_capacity eg (wd_store w) (sa_run args) (sa_stage args) ?names"
  let ?reserved = "reserved_names eg (wd_store w) (sa_run args) (sa_stage args) ?names"
  let ?deny = "deny_one eg args snapshot events ?reserved (pi_now inp)"
  obtain x w1 where deny: "deny_all ?deny (drop ?cap ?names) acc w = (x, w1)" by fastforce
  have q: "quiet (eg_env eg) {} {} w w1"
    by (rule quiet_of_keeps [OF quiet.keeps_deny_all deny]) (rule quiet.keeps_deny, simp)
  note good1 = conjunct1 [OF quiet_good [OF q good]]
  have still: "stage_moves (eg_env eg) args (fst ` set work) (int ?cap) w w1"
    by (rule stage_moves_mono [OF stage_moves_quiet [OF good q] subset_refl]) simp
  show ?thesis
  proof (cases "\<exists>acc'. x = Inr acc' \<and> take ?cap ?names \<noteq> [] \<and> 0 < rp_max_parallel (eg_policy eg)")
    case False
    then have "w' = w1" using r deny
      by (cases x) (auto simp: run_budgeted_def Let_def sbind_def split: if_splits)
    with still show ?thesis by simp
  next
    case True
    then obtain acc' where calls: "run_calls eg args snapshot events work (take ?cap ?names)
        (pi_ticks inp) acc' w1 = (res, w')"
      using r deny by (auto simp: run_budgeted_def Let_def sbind_def)
    have "distinct (take ?cap ?names)" using d by (simp add: wf_dict_def)
    from run_calls_moves [OF good1 this calls]
    have "stage_moves (eg_env eg) args (set (take ?cap ?names)) (int (length (take ?cap ?names))) w1 w'" .
    note moves = stage_moves_after [OF good q this]
    show ?thesis
      by (rule stage_moves_mono [OF moves]) (use set_take_subset [of ?cap ?names] in auto)
  qed
qed

lemma run_pass_moves:
  assumes good: "council_good (wd_store w)" and d: "wf_dict prompts"
    and r: "run_pass eg args prompts inp w = (res, w')"
  shows "\<exists>w1 names. quiet (eg_env eg) {} {} w w1 \<and> stage_moves (eg_env eg) args
      (runnable eg args prompts (wd_store w))
      (int (dispatch_capacity eg (wd_store w1) (sa_run args) (sa_stage args) names)) w1 w'"
    (is "\<exists>w1 names. _ \<and> stage_moves _ _ ?S (?cap w1 names) _ _")
proof -
  let ?snapshot = "list_invocations (wd_store w) (sa_run args)"
  let ?events = "list_events (wd_store w) (sa_run args)"
  let ?judge = "classify (eg_policy eg) args ?snapshot ?events (eg_env eg) (pi_now inp)"
  obtain x w1 where c: "classify_all ?judge prompts empty_acc w = (x, w1)" by fastforce
  have q: "quiet (eg_env eg) {} {} w w1"
    by (rule quiet_of_keeps [OF quiet.keeps_classify_all c]) (rule quiet.keeps_classify)
  note good1 = conjunct1 [OF quiet_good [OF q good]]
  have still: "stage_moves (eg_env eg) args ?S (?cap w1 []) w1 w1"
    by (rule stage_moves_mono [OF stage_moves_quiet [OF good1 quiet_refl] subset_refl]) simp
  show ?thesis
  proof (cases "w' = w1")
    case True
    with q still show ?thesis by blast
  next
    case False
    then obtain acc work where x: "x = Inr (acc, work)"
      using r c by (cases x) (auto simp: run_pass_def Let_def sbind_def)
    let ?short = "filter (\<lambda>x. \<not> too_long (eg_policy eg) x) work"
    obtain acc2 where b: "run_budgeted eg args inp ?snapshot ?events ?short acc2 w1 = (res, w')"
      using r c x False by (auto simp: run_pass_def Let_def sbind_def split: if_splits)
    from classify_all_result [OF c [unfolded x] good d]
    have work: "wf_dict work" "fst ` set work \<subseteq> ?S"
      by (auto simp: empty_acc_def answered_def runnable_def)
    have "wf_dict ?short" using work(1)
      by (induction work) (auto simp: wf_dict_def)
    note moves = run_budgeted_moves [OF good1 this b]
    have "fst ` set ?short \<subseteq> ?S" using work(2) by auto
    from stage_moves_mono [OF moves this order_refl]
    have "stage_moves (eg_env eg) args ?S (?cap w1 (map fst ?short)) w1 w'" .
    with q show ?thesis by blast
  qed
qed

lemma run_budgeted_result:
  assumes good: "council_good (wd_store w)" and d: "wf_dict work"
    and acc: "wf_dict (sg_successes acc)" "answered args (wd_store w) acc"
      "fst ` set work \<inter> fst ` set (sg_successes acc) = {}"
    and r: "run_budgeted eg args inp snapshot events work acc w = (Inr (Some (acc', again)), w')"
  shows "settled_count (acc', again) = settled_count (acc, []) + int (length work)
    \<and> wf_dict (sg_successes acc') \<and> wf_dict again
    \<and> fst ` set again \<subseteq> fst ` set work \<inter> fst ` set (eg_providers eg)
    \<and> answered args (wd_store w') acc'
    \<and> fst ` set (sg_successes acc') \<subseteq> fst ` set (sg_successes acc) \<union> fst ` set work
    \<and> fst ` set (sg_successes acc') \<inter> fst ` set again = {}
    \<and> (\<not> sa_allow_recovery args \<longrightarrow> again = [])"
proof -
  let ?names = "map fst work"
  let ?cap = "dispatch_capacity eg (wd_store w) (sa_run args) (sa_stage args) ?names"
  let ?reserved = "reserved_names eg (wd_store w) (sa_run args) (sa_stage args) ?names"
  let ?deny = "deny_one eg args snapshot events ?reserved (pi_now inp)"
  obtain acc1 w1 where deny: "deny_all ?deny (drop ?cap ?names) acc w = (Inr acc1, w1)"
    using r by (auto simp: run_budgeted_def Let_def sbind_eq_Inr)
  have q: "quiet (eg_env eg) {} {} w w1"
    by (rule quiet_of_keeps [OF quiet.keeps_deny_all deny]) (rule quiet.keeps_deny, simp)
  note good1 = conjunct1 [OF quiet_good [OF q good]]
  have denied: "sg_successes acc1 = sg_successes acc
      \<and> length (sg_failures acc1) = length (sg_failures acc) + length (drop ?cap ?names)"
    by (rule deny_all_result [OF _ deny]) (rule deny_one_result)
  have acc1: "sg_successes acc1 = sg_successes acc"
      "length (sg_failures acc1) = length (sg_failures acc) + (length work - ?cap)"
    using denied by simp_all
  have ans: "answered args (wd_store w1) acc1"
    using answered_moves [OF good quiet_moves [OF q] acc(2)] acc1(1) by (simp add: answered_def)
  show ?thesis
  proof (cases "take ?cap ?names = []")
    case True
    then have "acc' = acc1 \<and> again = [] \<and> w' = w1" using r deny
      by (auto simp: run_budgeted_def Let_def sbind_def)
    with acc acc1 ans True show ?thesis by (auto simp: settled_count_def)
  next
    case False
    then have calls: "run_calls eg args snapshot events work (take ?cap ?names) (pi_ticks inp) acc1 w1
        = (Inr (Some (acc', again)), w')"
      using r deny by (auto simp: run_budgeted_def Let_def sbind_def split: if_splits)
    have dis: "distinct (take ?cap ?names)" using d by (simp add: wf_dict_def)
    have sub: "set (take ?cap ?names) \<subseteq> fst ` set work" by (metis image_set set_take_subset)
    have "set (take ?cap ?names) \<inter> fst ` set (sg_successes acc1) = {}"
      using sub acc(3) acc1(1) by auto
    note res = run_calls_result [OF good1 dis _ ans this calls]
    have len: "length (take ?cap ?names) + (length work - ?cap) = length work" by simp
    have "settled_count (acc', again) = settled_count (acc, []) + int (length work)"
      using res(1) acc(1) acc1 len by (simp add: settled_count_def)
    moreover have "fst ` set again \<subseteq> fst ` set work \<inter> fst ` set (eg_providers eg)"
      using res(4,6) acc(1) acc1 sub by auto
    moreover have "fst ` set (sg_successes acc') \<subseteq> fst ` set (sg_successes acc) \<union> fst ` set work"
      using res(7) acc(1) acc1 sub by auto
    ultimately show ?thesis using res(2,3,5,8,9) acc(1) acc1 by simp
  qed
qed

lemma run_pass_result:
  assumes good: "council_good (wd_store w)" and d: "wf_dict prompts"
    and r: "run_pass eg args prompts inp w = (Inr (Some (acc', again)), w')"
  shows "settled_count (acc', again) = int (length prompts)
    \<and> wf_dict (sg_successes acc') \<and> wf_dict again
    \<and> fst ` set again \<subseteq> runnable eg args prompts (wd_store w) \<inter> fst ` set (eg_providers eg)
    \<and> answered args (wd_store w') acc'
    \<and> fst ` set (sg_successes acc') \<subseteq> fst ` set prompts
    \<and> fst ` set (sg_successes acc') \<inter> fst ` set again = {}
    \<and> (\<not> sa_allow_recovery args \<longrightarrow> again = [])"
proof -
  let ?snapshot = "list_invocations (wd_store w) (sa_run args)"
  let ?events = "list_events (wd_store w) (sa_run args)"
  let ?judge = "classify (eg_policy eg) args ?snapshot ?events (eg_env eg) (pi_now inp)"
  obtain acc work w1 where c: "classify_all ?judge prompts empty_acc w = (Inr (acc, work), w1)"
    using r by (auto simp: run_pass_def Let_def sbind_eq_Inr)
  have q: "quiet (eg_env eg) {} {} w w1"
    by (rule quiet_of_keeps [OF quiet.keeps_classify_all c]) (rule quiet.keeps_classify)
  note good1 = conjunct1 [OF quiet_good [OF q good]]
  from classify_all_result [OF c good d]
  have a: "length (sg_successes acc) + length (sg_failures acc) + length work = length prompts"
      "wf_dict (sg_successes acc)" "wf_dict work" "fst ` set work \<subseteq> runnable eg args prompts (wd_store w)"
      "fst ` set work \<inter> fst ` set (sg_successes acc) = {}" "answered args (wd_store w1) acc"
      "fst ` set (sg_successes acc) \<subseteq> fst ` set prompts"
    by (auto simp: empty_acc_def answered_def runnable_def)
  have run: "runnable eg args prompts (wd_store w) \<subseteq> fst ` set prompts" by (auto simp: runnable_def)
  let ?long = "filter (too_long (eg_policy eg)) work"
  let ?short = "filter (\<lambda>x. \<not> too_long (eg_policy eg) x) work"
  let ?acc2 = "add_failures (map (long_failure (eg_policy eg) args) ?long) acc"
  have split: "length ?long + length ?short = length work"
    by (rule sum_length_filter_compl)
  consider (none) "work = []" "acc' = acc" "again = []" "w' = w1"
    | (late) "acc' = add_failures (map (\<lambda>x. late_failure args ?snapshot (fst x)) work) acc"
        "again = []" "w' = w1"
    | (long) "?short = []" "acc' = ?acc2" "again = []" "w' = w1"
    | (go) "run_budgeted eg args inp ?snapshot ?events ?short ?acc2 w1 = (Inr (Some (acc', again)), w')"
    using r c by (auto simp: run_pass_def Let_def sbind_def split: if_splits)
  then show ?thesis
  proof cases
    case none
    then show ?thesis using a by (simp add: settled_count_def)
  next
    case late
    then show ?thesis using a by (simp add: settled_count_def add_failures_def answered_def)
  next
    case long
    then show ?thesis using a split by (simp add: settled_count_def add_failures_def answered_def)
  next
    case go
    have wf: "wf_dict ?short" using a(3) by (induction work) (auto simp: wf_dict_def)
    have acc2: "sg_successes ?acc2 = sg_successes acc"
        "length (sg_failures ?acc2) = length (sg_failures acc) + length ?long"
      by (simp_all add: add_failures_def)
    have ans: "answered args (wd_store w1) ?acc2" using a(6) acc2(1) by (simp add: answered_def)
    have "fst ` set ?short \<inter> fst ` set (sg_successes ?acc2) = {}" using a(5) acc2(1) by auto
    from run_budgeted_result [OF good1 wf _ ans this go] a(2) acc2(1)
    have res: "settled_count (acc', again) = settled_count (?acc2, []) + int (length ?short)"
      "wf_dict (sg_successes acc')" "wf_dict again"
      "fst ` set again \<subseteq> fst ` set ?short \<inter> fst ` set (eg_providers eg)"
      "answered args (wd_store w') acc'"
      "fst ` set (sg_successes acc') \<subseteq> fst ` set (sg_successes acc) \<union> fst ` set ?short"
      "fst ` set (sg_successes acc') \<inter> fst ` set again = {}" "\<not> sa_allow_recovery args \<longrightarrow> again = []"
      by simp_all
    have short: "fst ` set ?short \<subseteq> runnable eg args prompts (wd_store w)" using a(4) by auto
    with res(4) have "fst ` set again \<subseteq> runnable eg args prompts (wd_store w) \<inter> fst ` set (eg_providers eg)" by blast
    moreover have "settled_count (acc', again) = int (length prompts)"
      using res(1) a(1) acc2 split by (simp add: settled_count_def)
    moreover have "fst ` set (sg_successes acc') \<subseteq> fst ` set prompts"
      using res(6) a(7) short run by blast
    ultimately show ?thesis using res(2,3,5,7,8) by blast
  qed
qed

section \<open>The second pass\<close>

lemma plan_recovery_result:
  assumes "plan_recovery eg args now names tries acc w = (Inr (acc', again), w')"
    and "distinct names"
  shows "sg_successes acc' = sg_successes acc
    \<and> length (sg_failures acc') + length again
      = length (sg_failures acc) + length (filter (\<lambda>n. dict_get tries n \<noteq> None) names)
    \<and> wf_dict again \<and> fst ` set again \<subseteq> set names \<inter> fst ` set tries"
  using assms
proof (induction names arbitrary: acc acc' again w w')
  case (Cons name rest)
  show ?case
  proof (cases "dict_get tries name")
    case None
    with Cons.IH [of acc w acc' again w'] Cons.prems show ?thesis by auto
  next
    case (Some rc)
    then have mem: "name \<in> fst ` set tries" by (metis fst_conv image_eqI map_of_SomeD)
    show ?thesis
    proof (cases "widened_limit (eg_policy eg) (rc_limit rc) \<le> rc_limit rc")
      case True
      obtain f r w1 where "plan_recovery eg args now rest tries
          (add_recovery r (add_failure f acc)) w1 = (Inr (acc', again), w')"
        using Cons.prems(1) Some True by (auto simp: sbind_eq_Inr Let_def split: option.splits)
      from Cons.IH [OF this] Cons.prems(2) Some show ?thesis
        by (auto simp: add_recovery_def add_failure_def)
    next
      case False
      then obtain again' where p: "plan_recovery eg args now rest tries acc w = (Inr (acc', again'), w')"
          and eq: "again = (name, rc) # again'"
        using Cons.prems(1) Some by (auto simp: sbind_eq_Inr)
      from Cons.IH [OF p] Cons.prems(2) Some mem show ?thesis
        by (auto simp: eq wf_dict_def)
    qed
  qed
qed simp

lemma count_keys:
  assumes "wf_dict d" and "distinct names" and "fst ` set d \<subseteq> set names"
  shows "length (filter (\<lambda>n. dict_get d n \<noteq> None) names) = length d"
proof -
  have "set (filter (\<lambda>n. dict_get d n \<noteq> None) names) = set (map fst d)"
    using assms(3) by (auto simp: map_of_eq_None_iff)
  moreover have "distinct (filter (\<lambda>n. dict_get d n \<noteq> None) names)" "distinct (map fst d)"
    using assms by (simp_all add: wf_dict_def)
  ultimately show ?thesis by (metis distinct_card length_map)
qed

lemma record_recoveries_result:
  "record_recoveries eg args now second again acc w = (Inr acc', w') \<Longrightarrow>
   sg_successes acc' = sg_successes acc \<and> sg_failures acc' = sg_failures acc"
proof (induction again arbitrary: acc w)
  case (Cons x rest)
  obtain name rc where x: "x = (name, rc)" by (cases x)
  from Cons.prems consider "record_recoveries eg args now second rest acc w = (Inr acc', w')"
    | f w1 where "record_recoveries eg args now second rest (add_recovery f acc) w1 = (Inr acc', w')"
    by (auto simp: x sbind_eq_Inr Let_def split: if_splits)
  then show ?case by cases (auto dest!: Cons.IH simp: add_recovery_def)
qed simp

lemma merge_length:
  assumes "wf_dict b" and "fst ` set b \<inter> fst ` set a = {}"
  shows "length (foldl (\<lambda>d x. dict_set (fst x) (snd x) d) a b) = length a + length b"
  using assms
proof (induction b arbitrary: a)
  case (Cons x b)
  have "dict_get a (fst x) = None" using Cons.prems(2) by (auto simp: map_of_eq_None_iff)
  moreover have "fst ` set b \<inter> fst ` set (dict_set (fst x) (snd x) a) = {}"
    using Cons.prems by (auto simp: dom_update wf_dict_def)
  ultimately show ?case using Cons.IH [of "dict_set (fst x) (snd x) a"] Cons.prems(1)
    by (simp add: length_dict_set wf_dict_def)
qed simp

lemma merge_get:
  assumes "wf_dict b" and "dict_get (foldl (\<lambda>d x. dict_set (fst x) (snd x) d) a b) k = Some v"
  shows "dict_get a k = Some v \<or> dict_get b k = Some v"
  using assms
proof (induction b arbitrary: a)
  case (Cons x b)
  from Cons.IH [OF _ Cons.prems(2) [simplified]] Cons.prems(1) show ?case
    by (cases x) (force simp: wf_dict_def dict_get_set map_of_eq_None_iff split: if_splits)
qed simp


section \<open>A whole stage\<close>

lemma second_args_sel [simp]:
  "sa_run (second_args eg args again) = sa_run args"
  "sa_stage (second_args eg args again) = sa_stage args"
  "\<not> sa_allow_recovery (second_args eg args again)"
  "stage_place (second_args eg args again) = stage_place args"
  "answered (second_args eg args again) = answered args"
  by (simp_all add: second_args_def stage_place_def answered_def fun_eq_iff)

text \<open>The calls that may be on record when a stage ends: all, or all but those kept for the stages
  after it.\<close>

definition stage_bound :: "'g engine \<Rightarrow> stage_args \<Rightarrow> council_db \<Rightarrow> int" where
  "stage_bound eg args db =
     (if synthesis_result_exists db (sa_run args) (eg_synthesis eg) \<or> sa_stage args = ''synthesis''
        then rp_max_calls (eg_policy eg)
      else if sa_stage args = ''proposal'' then
        rp_max_calls (eg_policy eg) - int (length (eg_providers eg)) - int (length (eg_synthesis eg))
      else rp_max_calls (eg_policy eg) - int (length (eg_synthesis eg)))"

lemma second_bound [simp]: "stage_bound eg (second_args eg args again) db = stage_bound eg args db"
  unfolding stage_bound_def second_args_sel by (rule refl)

lemma position_less: "x \<in> set xs \<Longrightarrow> position_of x xs < length xs"
  by (induction xs) (auto simp: position_of_def)

lemma reserve_nonneg: "0 \<le> downstream_reserve eg db run stage names"
proof -
  let ?ps = "map (\<lambda>n. position_of n (eg_synthesis eg)) (filter (\<lambda>n. n \<in> set (eg_synthesis eg)) names)"
  have "Min (set ?ps) < length (eg_synthesis eg)" if "?ps \<noteq> []"
  proof -
    have "Min (set ?ps) \<in> set ?ps" using that by (intro Min_in) (auto simp: filter_empty_conv)
    then show ?thesis using position_less by fastforce
  qed
  then show ?thesis unfolding downstream_reserve_def Let_def by (auto split: if_splits)
qed

lemma capacity_bound:
  assumes "count_calls d (sa_run args) \<le> count_calls db (sa_run args)
      + int (dispatch_capacity eg db (sa_run args) (sa_stage args) names)"
    and "synthesis_result_exists db (sa_run args) (eg_synthesis eg) \<Longrightarrow>
      synthesis_result_exists d (sa_run args) (eg_synthesis eg)"
  shows "count_calls d (sa_run args) \<le> max (count_calls db (sa_run args)) (stage_bound eg args d)"
proof -
  let ?r = "downstream_reserve eg db (sa_run args) (sa_stage args) names"
  have "rp_max_calls (eg_policy eg) - ?r \<le> stage_bound eg args d"
    using assms(2) reserve_nonneg [of eg db "sa_run args" "sa_stage args" names]
    by (auto simp: stage_bound_def) (auto simp: downstream_reserve_def)
  with assms(1) reserve_nonneg [of eg db "sa_run args" "sa_stage args" names] show ?thesis
    by (simp add: dispatch_capacity_def)
qed

lemma synthesis_moves:
  "council_good (wd_store w) \<Longrightarrow> store_moves en w w' \<Longrightarrow>
   synthesis_result_exists (wd_store w) run chain \<Longrightarrow> synthesis_result_exists (wd_store w') run chain"
  unfolding synthesis_result_exists_def list_ex_iff using success_moves by blast

lemma bound_moves:
  "council_good (wd_store w) \<Longrightarrow> store_moves en w w' \<Longrightarrow>
   stage_bound eg args (wd_store w) \<le> stage_bound eg args (wd_store w')"
  using synthesis_moves [of w en w' "sa_run args" "eg_synthesis eg"] by (auto simp: stage_bound_def)

text \<open>The calls of one pass.\<close>

definition pass_calls :: "stage_args \<Rightarrow> string set \<Rightarrow> council_db \<Rightarrow> dispatch list \<Rightarrow> bool" where
  "pass_calls args names db new \<longleftrightarrow> distinct (map dp_provider new)
     \<and> (\<forall>d\<in>set new. dp_stage d = sa_stage args \<and> dp_provider d \<in> names
          \<and> on_record db (stage_place args (dp_provider d)))"

lemma run_pass_effect:
  assumes good: "council_good (wd_store w)" and d: "wf_dict prompts"
    and r: "run_pass eg args prompts inp w = (res, w')"
  shows "store_moves (eg_env eg) w w'"
    and "count_calls (wd_store w') (sa_run args)
      \<le> max (count_calls (wd_store w) (sa_run args)) (stage_bound eg args (wd_store w'))"
    and "\<exists>new. wd_calls w' = wd_calls w @ new
      \<and> pass_calls args (runnable eg args prompts (wd_store w)) (wd_store w') new"
proof -
  obtain w1 names where q: "quiet (eg_env eg) {} {} w w1"
      and m: "stage_moves (eg_env eg) args (runnable eg args prompts (wd_store w))
        (int (dispatch_capacity eg (wd_store w1) (sa_run args) (sa_stage args) names)) w1 w'"
    using run_pass_moves [OF good d r] by blast
  note q1 = quiet_good [OF q good]
  have moves: "store_moves (eg_env eg) w1 w'" using m by (simp add: stage_moves_def)
  show "store_moves (eg_env eg) w w'" by (rule store_moves_trans [OF quiet_moves [OF q] moves])
  have "count_calls (wd_store w') (sa_run args)
      \<le> max (count_calls (wd_store w1) (sa_run args)) (stage_bound eg args (wd_store w'))"
    using m synthesis_moves [OF conjunct1 [OF q1] moves]
    by (intro capacity_bound [where names = names]) (simp_all add: stage_moves_def)
  with q1 show "count_calls (wd_store w') (sa_run args)
      \<le> max (count_calls (wd_store w) (sa_run args)) (stage_bound eg args (wd_store w'))"
    by (meson max.mono order_refl order_trans)
  show "\<exists>new. wd_calls w' = wd_calls w @ new
      \<and> pass_calls args (runnable eg args prompts (wd_store w)) (wd_store w') new"
    using m q1 by (simp add: stage_moves_def pass_calls_def)
qed

lemma runnable_subset: "runnable eg args prompts db \<subseteq> fst ` set prompts"
  by (auto simp: runnable_def)

text \<open>A quiet end of a pass.\<close>

lemma pass_calls_quiet:
  assumes good: "council_good (wd_store w)" and q: "quiet en {} {} w w'"
    and p: "pass_calls args names (wd_store w) new"
  shows "pass_calls args names (wd_store w') new"
proof -
  have "on_record (wd_store w') (stage_place args n)" if "on_record (wd_store w) (stage_place args n)" for n
    using quiet_good [OF q good] that by (auto simp: on_record_def intro: placed_kept)
  with p show ?thesis by (simp add: pass_calls_def)
qed

section \<open>Nothing on record is lost\<close>

lemma run_calls_places:
  assumes good: "council_good (wd_store w)" and d: "distinct allowed"
    and cover: "\<And>name. stage_place args name \<in> P \<Longrightarrow> record_at snapshot (sa_stage args) name \<noteq> None"
    and P: "\<forall>pl\<in>P. on_record (wd_store w) pl"
    and r: "run_calls eg args snapshot events work allowed ticks acc w = (res, w')"
  shows "\<forall>pl\<in>P. on_record (wd_store w') pl"
proof -
  obtain limits err where s: "submit (first_limit eg args snapshot) allowed = (limits, err)"
    by fastforce
  let ?cx = "\<lparr>cx_snapshot = snapshot, cx_events = events, cx_work = work, cx_limits = limits\<rparr>"
  let ?st = "run_pool eg args ?cx ticks (start_pool limits err acc w)"
  have w': "w' = ps_world ?st" using r s by (auto simp: run_calls_def Let_def split: if_splits option.splits)
  have "distinct (map fst limits)" using submit_names [OF s] d by (metis distinct_take)
  then have "places_kept args (wd_calls w) P (start_pool limits err acc w)"
    using start_pool_ok [OF good] P by (simp add: places_kept_def)
  from run_pool_places [OF _ this, of ?cx eg ticks] cover show ?thesis
    by (simp add: known_places_def places_kept_def w')
qed

lemma quiet_places:
  assumes "council_good (wd_store w)" and "quiet en {} {} w w'" and "on_record (wd_store w) pl"
  shows "on_record (wd_store w') pl"
  using quiet_good [OF assms(2,1)] on_record_kept assms(3) by blast

lemma run_budgeted_places:
  assumes good: "council_good (wd_store w)" and d: "wf_dict work"
    and cover: "\<And>name. stage_place args name \<in> P \<Longrightarrow> record_at snapshot (sa_stage args) name \<noteq> None"
    and P: "\<forall>pl\<in>P. on_record (wd_store w) pl"
    and r: "run_budgeted eg args inp snapshot events work acc w = (res, w')"
  shows "\<forall>pl\<in>P. on_record (wd_store w') pl"
proof -
  let ?names = "map fst work"
  let ?cap = "dispatch_capacity eg (wd_store w) (sa_run args) (sa_stage args) ?names"
  let ?reserved = "reserved_names eg (wd_store w) (sa_run args) (sa_stage args) ?names"
  let ?deny = "deny_one eg args snapshot events ?reserved (pi_now inp)"
  obtain x w1 where deny: "deny_all ?deny (drop ?cap ?names) acc w = (x, w1)" by fastforce
  have q: "quiet (eg_env eg) {} {} w w1"
    by (rule quiet_of_keeps [OF quiet.keeps_deny_all deny]) (rule quiet.keeps_deny, simp)
  have P1: "\<forall>pl\<in>P. on_record (wd_store w1) pl" using P quiet_places [OF good q] by blast
  consider "w' = w1" | acc' where "run_calls eg args snapshot events work (take ?cap ?names)
      (pi_ticks inp) acc' w1 = (res, w')"
    using r deny by (cases x) (auto simp: run_budgeted_def Let_def sbind_def split: if_splits)
  then show ?thesis
  proof cases
    case 2
    have "distinct (take ?cap ?names)" using d by (simp add: wf_dict_def)
    from run_calls_places [OF conjunct1 [OF quiet_good [OF q good]] this cover P1 2] show ?thesis .
  qed (use P1 in simp)
qed

lemma on_record_row:
  assumes "council_good db"
  shows "on_record db pl \<longleftrightarrow> (\<exists>r\<in>set (cd_slots db). slot_place r = pl)"
proof
  assume "on_record db pl"
  then obtain i r where "find_slot db i = Some r" "slot_place r = pl"
    by (auto simp: on_record_def placed_def)
  then show "\<exists>r\<in>set (cd_slots db). slot_place r = pl" using find_slot_mem by blast
next
  assume "\<exists>r\<in>set (cd_slots db). slot_place r = pl"
  then obtain r where r: "r \<in> set (cd_slots db)" "slot_place r = pl" by blast
  from find_slot_of [OF assms r(1)] r(2) show "on_record db pl"
    unfolding on_record_def placed_def by blast
qed

lemma on_record_snapshot:
  assumes "council_good db" and "on_record db (stage_place args name)"
  shows "record_at (list_invocations db (sa_run args)) (sa_stage args) name \<noteq> None"
proof -
  obtain r where "r \<in> set (cd_slots db)" "slot_place r = stage_place args name"
    using assms by (auto simp: on_record_row)
  then show ?thesis
    by (auto simp: record_at_def row_where_None list_invocations_def set_rows_where slot_place_def
        stage_place_def)
qed

lemma run_pass_places:
  assumes good: "council_good (wd_store w)" and d: "wf_dict prompts"
    and r: "run_pass eg args prompts inp w = (res, w')" and pl: "on_record (wd_store w) pl"
  shows "on_record (wd_store w') pl"
proof -
  let ?snapshot = "list_invocations (wd_store w) (sa_run args)"
  let ?events = "list_events (wd_store w) (sa_run args)"
  let ?judge = "classify (eg_policy eg) args ?snapshot ?events (eg_env eg) (pi_now inp)"
  obtain x w1 where c: "classify_all ?judge prompts empty_acc w = (x, w1)" by fastforce
  have q: "quiet (eg_env eg) {} {} w w1"
    by (rule quiet_of_keeps [OF quiet.keeps_classify_all c]) (rule quiet.keeps_classify)
  note good1 = conjunct1 [OF quiet_good [OF q good]]
  show ?thesis
  proof (cases "w' = w1")
    case True
    then show ?thesis using quiet_places [OF good q pl] by simp
  next
    case False
    then obtain acc work where x: "x = Inr (acc, work)"
      using r c by (cases x) (auto simp: run_pass_def Let_def sbind_def)
    let ?short = "filter (\<lambda>x. \<not> too_long (eg_policy eg) x) work"
    obtain acc2 where b: "run_budgeted eg args inp ?snapshot ?events ?short acc2 w1 = (res, w')"
      using r c x False by (auto simp: run_pass_def Let_def sbind_def split: if_splits)
    from classify_all_result [OF c [unfolded x] good d] have "wf_dict work"
      by (auto simp: empty_acc_def answered_def)
    then have wf: "wf_dict ?short" by (induction work) (auto simp: wf_dict_def)
    let ?P = "{pl. on_record (wd_store w) pl}"
    have cover: "record_at ?snapshot (sa_stage args) name \<noteq> None" if "stage_place args name \<in> ?P" for name
      using that on_record_snapshot [OF good] by blast
    have "\<forall>pl\<in>?P. on_record (wd_store w1) pl" using quiet_places [OF good q] by blast
    from run_budgeted_places [OF good1 wf cover this b] pl show ?thesis by blast
  qed
qed

section \<open>Unknown outcomes stay unknown\<close>

lemma run_calls_unknown:
  assumes good: "council_good (wd_store w)" and d: "distinct allowed"
    and P: "\<forall>(i, pl)\<in>P. unknown_at (wd_store w) i pl \<and> (\<forall>n\<in>set allowed. pl \<noteq> stage_place args n)"
    and r: "run_calls eg args snapshot events work allowed ticks acc w = (res, w')"
  shows "\<forall>(i, pl)\<in>P. unknown_at (wd_store w') i pl"
proof -
  obtain limits err where s: "submit (first_limit eg args snapshot) allowed = (limits, err)"
    by fastforce
  let ?cx = "\<lparr>cx_snapshot = snapshot, cx_events = events, cx_work = work, cx_limits = limits\<rparr>"
  let ?st = "run_pool eg args ?cx ticks (start_pool limits err acc w)"
  have w': "w' = ps_world ?st" using r s by (auto simp: run_calls_def Let_def split: if_splits option.splits)
  obtain k where names: "map fst limits = take k allowed" using submit_names [OF s] by blast
  then have "distinct (map fst limits)" "fst ` set limits \<subseteq> set allowed"
    using d by (metis distinct_take, metis image_set set_take_subset)
  then have "unknowns_kept args (wd_calls w) P (set allowed) (start_pool limits err acc w)"
    using start_pool_ok [OF good] P by (auto simp: unknowns_kept_def)
  then have "unknowns_kept args (wd_calls w) P (set allowed) ?st"
    unfolding run_pool_def by (rule pool_unknowns.run_good)
  then show ?thesis by (auto simp: unknowns_kept_def w')
qed

lemma quiet_unknown:
  "council_good (wd_store w) \<Longrightarrow> quiet en {} {} w w' \<Longrightarrow> unknown_at (wd_store w) i pl \<Longrightarrow>
   unknown_at (wd_store w') i pl"
  using quiet_good still_unknownD by blast

lemma run_budgeted_unknown:
  assumes good: "council_good (wd_store w)" and d: "wf_dict work"
    and P: "\<forall>(i, pl)\<in>P. unknown_at (wd_store w) i pl \<and> (\<forall>n\<in>fst ` set work. pl \<noteq> stage_place args n)"
    and r: "run_budgeted eg args inp snapshot events work acc w = (res, w')"
  shows "\<forall>(i, pl)\<in>P. unknown_at (wd_store w') i pl"
proof -
  let ?names = "map fst work"
  let ?cap = "dispatch_capacity eg (wd_store w) (sa_run args) (sa_stage args) ?names"
  let ?reserved = "reserved_names eg (wd_store w) (sa_run args) (sa_stage args) ?names"
  let ?deny = "deny_one eg args snapshot events ?reserved (pi_now inp)"
  obtain x w1 where deny: "deny_all ?deny (drop ?cap ?names) acc w = (x, w1)" by fastforce
  have q: "quiet (eg_env eg) {} {} w w1"
    by (rule quiet_of_keeps [OF quiet.keeps_deny_all deny]) (rule quiet.keeps_deny, simp)
  have sub: "set (take ?cap ?names) \<subseteq> fst ` set work" by (metis image_set set_take_subset)
  have P1: "\<forall>(i, pl)\<in>P. unknown_at (wd_store w1) i pl
      \<and> (\<forall>n\<in>set (take ?cap ?names). pl \<noteq> stage_place args n)"
  proof (intro ballI case_prodI2)
    fix x i pl
    assume "x \<in> P" "x = (i, pl)"
    then have "unknown_at (wd_store w) i pl" "\<forall>n\<in>fst ` set work. pl \<noteq> stage_place args n"
      using P by auto
    with sub quiet_unknown [OF good q] show "unknown_at (wd_store w1) i pl
        \<and> (\<forall>n\<in>set (take ?cap ?names). pl \<noteq> stage_place args n)" by blast
  qed
  consider "w' = w1" | acc' where "run_calls eg args snapshot events work (take ?cap ?names)
      (pi_ticks inp) acc' w1 = (res, w')"
    using r deny by (cases x) (auto simp: run_budgeted_def Let_def sbind_def split: if_splits)
  then show ?thesis
  proof cases
    case 2
    have "distinct (take ?cap ?names)" using d by (simp add: wf_dict_def)
    from run_calls_unknown [OF conjunct1 [OF quiet_good [OF q good]] this P1 2] show ?thesis .
  qed (use P1 in auto)
qed

lemma unknown_ambiguous:
  assumes "unknown_at db i (stage_place args n)" and "sa_run args = run"
  shows "ambiguous_provider (list_invocations db run) n"
proof -
  obtain r where "r \<in> set (cd_slots db)" "slot_place r = stage_place args n" "outcome_unknown r"
    using assms(1) find_slot_mem by (auto simp: unknown_at_def)
  then show ?thesis using assms(2)
    by (auto simp: ambiguous_provider_def list_ex_iff list_invocations_def set_rows_where
        slot_place_def stage_place_def outcome_unknown_def)
qed

lemma run_pass_unknown:
  assumes good: "council_good (wd_store w)" and d: "wf_dict prompts"
    and r: "run_pass eg args prompts inp w = (res, w')"
  shows "still_unknown {} (wd_store w) (wd_store w')"
proof -
  let ?snapshot = "list_invocations (wd_store w) (sa_run args)"
  let ?events = "list_events (wd_store w) (sa_run args)"
  let ?judge = "classify (eg_policy eg) args ?snapshot ?events (eg_env eg) (pi_now inp)"
  obtain x w1 where c: "classify_all ?judge prompts empty_acc w = (x, w1)" by fastforce
  have q: "quiet (eg_env eg) {} {} w w1"
    by (rule quiet_of_keeps [OF quiet.keeps_classify_all c]) (rule quiet.keeps_classify)
  note good1 = conjunct1 [OF quiet_good [OF q good]]
  show ?thesis
  proof (cases "w' = w1")
    case True
    then show ?thesis using quiet_good [OF q good] by simp
  next
    case False
    then obtain acc work where x: "x = Inr (acc, work)"
      using r c by (cases x) (auto simp: run_pass_def Let_def sbind_def)
    let ?short = "filter (\<lambda>x. \<not> too_long (eg_policy eg) x) work"
    obtain acc2 where b: "run_budgeted eg args inp ?snapshot ?events ?short acc2 w1 = (res, w')"
      using r c x False by (auto simp: run_pass_def Let_def sbind_def split: if_splits)
    from classify_all_result [OF c [unfolded x] good d]
    have work: "wf_dict work" "\<forall>n\<in>fst ` set work. \<not> ambiguous_provider ?snapshot n"
      by (auto simp: empty_acc_def answered_def clear_to_run_def)
    have wf: "wf_dict ?short" using work(1) by (induction work) (auto simp: wf_dict_def)
    let ?P = "{(i, pl). unknown_at (wd_store w) i pl}"
    have "pl \<noteq> stage_place args n" if "unknown_at (wd_store w) i pl" "n \<in> fst ` set ?short" for i pl n
      using work(2) that unknown_ambiguous [OF _ refl, of "wd_store w" i args n] by auto
    then have "\<forall>(i, pl)\<in>?P. unknown_at (wd_store w1) i pl \<and> (\<forall>n\<in>fst ` set ?short. pl \<noteq> stage_place args n)"
      using quiet_unknown [OF good q] by blast
    from run_budgeted_unknown [OF good1 wf this b] show ?thesis unfolding still_unknown_def by blast
  qed
qed

section \<open>The whole stage\<close>

text \<open>What a stage as a whole does, whatever it returns.\<close>

lemma pass_calls_later:
  assumes "pass_calls args names (wd_store w) new"
    and "\<And>pl. on_record (wd_store w) pl \<Longrightarrow> on_record (wd_store w') pl"
  shows "pass_calls args names (wd_store w') new"
  using assms by (auto simp: pass_calls_def)

definition world_ok :: "'g engine \<Rightarrow> stage_args \<Rightarrow> 'g world \<Rightarrow> 'g world \<Rightarrow> bool" where
  "world_ok eg args w w' \<longleftrightarrow> store_moves (eg_env eg) w w'
     \<and> count_calls (wd_store w') (sa_run args)
         \<le> max (count_calls (wd_store w) (sa_run args)) (stage_bound eg args (wd_store w'))
     \<and> (\<forall>pl. on_record (wd_store w) pl \<longrightarrow> on_record (wd_store w') pl)
     \<and> still_unknown {} (wd_store w) (wd_store w')"

lemma world_ok_quiet:
  assumes good: "council_good (wd_store w)" and q: "quiet (eg_env eg) {} {} w w'"
  shows "world_ok eg args w w'"
  unfolding world_ok_def
  using quiet_moves [OF q] quiet_good [OF q good] quiet_places [OF good q] by (simp add: max.coboundedI1)

lemma world_ok_trans:
  assumes good: "council_good (wd_store w)" and a: "world_ok eg args w w1" and b: "world_ok eg args w1 w'"
  shows "world_ok eg args w w'"
proof -
  have moves: "store_moves (eg_env eg) w w1" "store_moves (eg_env eg) w1 w'"
    using a b by (simp_all add: world_ok_def)
  have "stage_bound eg args (wd_store w1) \<le> stage_bound eg args (wd_store w')"
    by (rule bound_moves [OF store_moves_good [OF moves(1) good] moves(2)])
  moreover have "count_calls (wd_store w1) (sa_run args)
      \<le> max (count_calls (wd_store w) (sa_run args)) (stage_bound eg args (wd_store w1))"
    "count_calls (wd_store w') (sa_run args)
      \<le> max (count_calls (wd_store w1) (sa_run args)) (stage_bound eg args (wd_store w'))"
    using a b by (simp_all add: world_ok_def)
  ultimately have "count_calls (wd_store w') (sa_run args)
      \<le> max (count_calls (wd_store w) (sa_run args)) (stage_bound eg args (wd_store w'))"
    by linarith
  then show ?thesis
    using a b store_moves_trans [OF moves] still_trans unfolding world_ok_def by blast
qed

lemma run_pass_world:
  assumes "council_good (wd_store w)" and "wf_dict prompts"
    and "run_pass eg args prompts inp w = (res, w')"
  shows "world_ok eg args w w'"
  unfolding world_ok_def using run_pass_effect [OF assms] run_pass_places [OF assms] run_pass_unknown [OF assms]
  by blast

lemma world_ok_second: "world_ok eg (second_args eg args again) w w' \<Longrightarrow> world_ok eg args w w'"
  by (simp add: world_ok_def)

text \<open>The second pass: planned, run over what is left, and recorded.\<close>

lemma recover_cases:
  assumes good: "council_good (wd_store w)" and dp: "wf_dict (eg_providers eg)"
    and r: "recover eg args inp now st w = (res, w')"
  shows "quiet (eg_env eg) {} {} w w' \<or> (\<exists>w1 w2 again r2. quiet (eg_env eg) {} {} w w1
    \<and> wf_dict again \<and> fst ` set again \<subseteq> fst ` set (snd st)
    \<and> run_pass eg (second_args eg args again) (map (\<lambda>(n, rc). (n, rc_prompts rc)) again) inp w1 = (r2, w2)
    \<and> quiet (eg_env eg) {} {} w2 w')"
proof -
  let ?plan = "plan_recovery eg args now (map fst (eg_providers eg)) (snd st) (fst st)"
  obtain x w1 where p: "?plan w = (x, w1)" by fastforce
  have q: "quiet (eg_env eg) {} {} w w1" by (rule quiet_of_keeps [OF quiet.keeps_plan p]) simp
  show ?thesis
  proof (cases "w' = w1")
    case True
    with q show ?thesis by blast
  next
    case False
    then obtain acc again where x: "x = Inr (acc, again)" and ne: "again \<noteq> []"
      using r p by (cases x) (auto simp: recover_def sbind_def split: if_splits)
    let ?run = "run_pass eg (second_args eg args again) (map (\<lambda>(n, rc). (n, rc_prompts rc)) again) inp"
    obtain r2 w2 where second: "?run w1 = (r2, w2)" by fastforce
    have "quiet (eg_env eg) {} {} w2 w'"
    proof -
      consider "w' = w2" | acc2 r3 where
          "record_recoveries eg args now acc2 again (merge_acc acc acc2) w2 = (r3, w')"
        using r p x ne second
        by (cases r2) (auto simp: recover_def sbind_def split: if_splits option.splits prod.splits sum.splits)
      then show ?thesis
      proof cases
        case 2
        then show ?thesis by (rule quiet_of_keeps [OF quiet.keeps_record, rotated]) simp
      qed simp
    qed
    moreover have "wf_dict again" "fst ` set again \<subseteq> fst ` set (snd st)"
      using plan_recovery_result [OF p [unfolded x]] dp by (auto simp: wf_dict_def)
    ultimately show ?thesis using q second by blast
  qed
qed

lemma recover_world:
  assumes good: "council_good (wd_store w)" and dp: "wf_dict (eg_providers eg)"
    and tries: "fst ` set (snd st) \<subseteq> names"
    and r: "recover eg args inp now st w = (res, w')"
  shows "world_ok eg args w w'"
    and "\<exists>new. wd_calls w' = wd_calls w @ new \<and> pass_calls args names (wd_store w') new"
proof -
  have "world_ok eg args w w' \<and> (\<exists>new. wd_calls w' = wd_calls w @ new
      \<and> pass_calls args names (wd_store w') new)"
    using recover_cases [OF good dp r]
  proof (elim disjE exE conjE)
    assume q: "quiet (eg_env eg) {} {} w w'"
    then show ?thesis using world_ok_quiet [OF good q] quiet_good [OF q good]
      by (simp add: pass_calls_def)
  next
    fix w1 w2 again r2
    assume q: "quiet (eg_env eg) {} {} w w1" and wf: "wf_dict again"
      and sub: "fst ` set again \<subseteq> fst ` set (snd st)" and q2: "quiet (eg_env eg) {} {} w2 w'"
      and second: "run_pass eg (second_args eg args again) (map (\<lambda>(n, rc). (n, rc_prompts rc)) again)
        inp w1 = (r2, w2)"
    let ?prompts = "map (\<lambda>(n, rc). (n, rc_prompts rc)) again"
    note good1 = conjunct1 [OF quiet_good [OF q good]]
    have keys: "map fst ?prompts = map fst again" by (simp add: comp_def case_prod_beta)
    then have wfp: "wf_dict ?prompts" using wf by (simp only: wf_dict_def)
    have sub2: "runnable eg (second_args eg args again) ?prompts db \<subseteq> names" for db
    proof -
      have "fst ` set ?prompts = fst ` set again" using keys by (metis set_map)
      moreover have "runnable eg (second_args eg args again) ?prompts db \<subseteq> fst ` set ?prompts"
        by (rule runnable_subset)
      ultimately show ?thesis using sub tries by (metis (no_types, lifting) subset_trans)
    qed
    note pass = run_pass_effect [OF good1 wfp second]
    have good2: "council_good (wd_store w2)" by (rule store_moves_good [OF pass(1) good1])
    have "world_ok eg args w w'"
      by (rule world_ok_trans [OF good world_ok_quiet [OF good q]
            world_ok_trans [OF good1 world_ok_second [OF run_pass_world [OF good1 wfp second]]
              world_ok_quiet [OF good2 q2]]])
    moreover obtain new where "wd_calls w2 = wd_calls w1 @ new"
        "pass_calls args names (wd_store w2) new"
      using pass(3) sub2 by (force simp: pass_calls_def)
    moreover have "wd_calls w1 = wd_calls w" "wd_calls w' = wd_calls w2"
      using quiet_good [OF q good] quiet_good [OF q2 good2] by simp_all
    ultimately show ?thesis using pass_calls_quiet [OF good2 q2] by simp
  qed
  then show "world_ok eg args w w'"
    "\<exists>new. wd_calls w' = wd_calls w @ new \<and> pass_calls args names (wd_store w') new" by simp_all
qed

text \<open>A whole stage, whatever it returns and wherever its schedule ends.\<close>

lemma stage_world:
  assumes good: "council_good (wd_store w)" and dp: "wf_dict (eg_providers eg)"
    and d: "wf_dict prompts"
    and r: "run_parallel_stage eg args prompts first second now w = (res, w')"
  shows "world_ok eg args w w'"
    and "\<exists>once again. wd_calls w' = wd_calls w @ once @ again
      \<and> pass_calls args (runnable eg args prompts (wd_store w)) (wd_store w') once
      \<and> pass_calls args (runnable eg args prompts (wd_store w)) (wd_store w') again"
proof -
  let ?S = "runnable eg args prompts (wd_store w)"
  obtain x w1 where p: "run_pass eg args prompts first w = (x, w1)" by fastforce
  note pass = run_pass_effect [OF good d p]
  note ok1 = run_pass_world [OF good d p]
  have good1: "council_good (wd_store w1)" by (rule store_moves_good [OF pass(1) good])
  obtain once where once: "wd_calls w1 = wd_calls w @ once" "pass_calls args ?S (wd_store w1) once"
    using pass(3) by blast
  have nil: "pass_calls args ?S db []" for db by (simp add: pass_calls_def)
  have "world_ok eg args w w' \<and> (\<exists>once again. wd_calls w' = wd_calls w @ once @ again
      \<and> pass_calls args ?S (wd_store w') once \<and> pass_calls args ?S (wd_store w') again)"
  proof (cases "w' = w1")
    case True
    with ok1 once nil show ?thesis by (intro conjI exI [of _ once] exI [of _ "[]"]) simp_all
  next
    case False
    then obtain acc tries where x: "x = Inr (Some (acc, tries))"
        and rec: "recover eg args second now (acc, tries) w1 = (res, w')"
      using r p by (cases x) (auto simp: run_parallel_stage_def sbind_def split: if_splits option.splits)
    have tries: "fst ` set (snd (acc, tries)) \<subseteq> ?S"
      using run_pass_result [OF good d p [unfolded x]] by auto
    note res = recover_world [OF good1 dp tries rec]
    obtain again where again: "wd_calls w' = wd_calls w1 @ again" "pass_calls args ?S (wd_store w') again"
      using res(2) by blast
    have "on_record (wd_store w') pl" if "on_record (wd_store w1) pl" for pl
      using res(1) that unfolding world_ok_def by blast
    then have "pass_calls args ?S (wd_store w') once" by (rule pass_calls_later [OF once(2)])
    with world_ok_trans [OF good ok1 res(1)] once(1) again show ?thesis
      by (intro conjI exI [of _ once] exI [of _ again]) simp_all
  qed
  then show "world_ok eg args w w'"
    "\<exists>once again. wd_calls w' = wd_calls w @ once @ again
      \<and> pass_calls args ?S (wd_store w') once \<and> pass_calls args ?S (wd_store w') again"
    by simp_all
qed

text \<open>When it returns, every provider has exactly one verdict.\<close>

lemma recover_result:
  assumes good: "council_good (wd_store w)" and dp: "wf_dict (eg_providers eg)"
    and wf: "wf_dict (sg_successes acc)" "wf_dict tries"
    and sub: "fst ` set tries \<subseteq> fst ` set (eg_providers eg)"
    and apart: "fst ` set (sg_successes acc) \<inter> fst ` set tries = {}"
    and ans: "answered args (wd_store w) acc"
    and r: "recover eg args inp now (acc, tries) w = (Inr (Some acc'), w')"
  shows "length (sg_successes acc') + length (sg_failures acc')
      = length (sg_successes acc) + length (sg_failures acc) + length tries
    \<and> answered args (wd_store w') acc'"
proof -
  let ?names = "map fst (eg_providers eg)"
  let ?plan = "plan_recovery eg args now ?names tries acc"
  obtain acc1 again w1 where p: "?plan w = (Inr (acc1, again), w1)"
      and rest: "(if again = [] then sreturn (Some acc1)
       else
         sbind (run_pass eg (second_args eg args again) (map (\<lambda>(n, rc). (n, rc_prompts rc)) again) inp)
           (\<lambda>second. case second of
              None \<Rightarrow> sreturn None
            | Some (acc2, _) \<Rightarrow>
                sbind (record_recoveries eg args now acc2 again (merge_acc acc1 acc2)) (\<lambda>acc'.
                  sreturn (Some acc')))) w1 = (Inr (Some acc'), w')"
    using r by (auto simp: recover_def sbind_eq_Inr)
  have q: "quiet (eg_env eg) {} {} w w1" by (rule quiet_of_keeps [OF quiet.keeps_plan p]) simp
  note good1 = conjunct1 [OF quiet_good [OF q good]]
  have "distinct ?names" using dp by (simp add: wf_dict_def)
  from plan_recovery_result [OF p this] count_keys [OF wf(2) this] sub
  have plan: "sg_successes acc1 = sg_successes acc"
      "length (sg_failures acc1) + length again = length (sg_failures acc) + length tries"
      "wf_dict again" "fst ` set again \<subseteq> fst ` set tries"
    by simp_all
  have ans1: "answered args (wd_store w1) acc1"
    using answered_moves [OF good quiet_moves [OF q] ans] plan(1) by (simp add: answered_def)
  show ?thesis
  proof (cases "again = []")
    case True
    with rest plan ans1 show ?thesis by simp
  next
    case False
    let ?args = "second_args eg args again"
    let ?prompts = "map (\<lambda>(n, rc). (n, rc_prompts rc)) again"
    obtain acc2 tries2 w2 where second: "run_pass eg ?args ?prompts inp w1 = (Inr (Some (acc2, tries2)), w2)"
        and rec: "record_recoveries eg args now acc2 again (merge_acc acc1 acc2) w2 = (Inr acc', w')"
      using rest False by (auto simp: sbind_eq_Inr split: option.splits prod.splits)
    have keys: "map fst ?prompts = map fst again" by (simp add: comp_def case_prod_beta)
    then have wfp: "wf_dict ?prompts" using plan(3) by (simp only: wf_dict_def)
    have pk: "fst ` set ?prompts = fst ` set again" using keys by (metis set_map)
    note pass = run_pass_result [OF good1 wfp second]
    have res: "settled_count (acc2, tries2) = int (length again)" "wf_dict (sg_successes acc2)"
        "answered args (wd_store w2) acc2"
        "fst ` set (sg_successes acc2) \<subseteq> fst ` set ?prompts"
        "\<not> sa_allow_recovery ?args \<longrightarrow> tries2 = []"
      using pass unfolding second_args_sel length_map by - (elim conjE, assumption)+
    then have none: "tries2 = []" by simp
    have moves: "store_moves (eg_env eg) w1 w2" by (rule run_pass_effect(1) [OF good1 wfp second])
    have q2: "quiet (eg_env eg) {} {} w2 w'" by (rule quiet_of_keeps [OF quiet.keeps_record rec]) simp
    have good2: "council_good (wd_store w2)" by (rule store_moves_good [OF moves good1])
    have "fst ` set (sg_successes acc2) \<inter> fst ` set (sg_successes acc1) = {}"
    proof -
      have "fst ` set (sg_successes acc2) \<subseteq> fst ` set tries"
        by (rule subset_trans [OF res(4) [unfolded pk] plan(4)])
      with apart show ?thesis unfolding plan(1) by blast
    qed
    note merged = merge_length [OF res(2) this]
    note acc' = record_recoveries_result [OF rec]
    have "answered args (wd_store w2) (merge_acc acc1 acc2)"
      using answered_moves [OF good1 moves ans1] res(3)
      by (auto simp: answered_def merge_acc_def dest!: merge_get [OF res(2)])
    then have "answered args (wd_store w') acc'"
      using answered_moves [OF good2 quiet_moves [OF q2]] acc' by (simp add: answered_def)
    moreover have "length (sg_successes acc') + length (sg_failures acc')
        = length (sg_successes acc) + length (sg_failures acc) + length tries"
      using acc' merged res(1) none plan(1,2) by (simp add: merge_acc_def settled_count_def)
    ultimately show ?thesis by simp
  qed
qed

lemma stage_result:
  assumes good: "council_good (wd_store w)" and dp: "wf_dict (eg_providers eg)"
    and d: "wf_dict prompts"
    and r: "run_parallel_stage eg args prompts first second now w = (Inr (Some acc), w')"
  shows "length (sg_successes acc) + length (sg_failures acc) = length prompts
    \<and> answered args (wd_store w') acc"
proof -
  obtain st w1 where p0: "run_pass eg args prompts first w = (Inr (Some st), w1)"
      and rest0: "(if snd st = [] then sreturn (Some (fst st)) else recover eg args second now st) w1
        = (Inr (Some acc), w')"
    using r by (auto simp: run_parallel_stage_def sbind_eq_Inr split: option.splits)
  obtain acc1 tries where st: "st = (acc1, tries)" by (cases st)
  note p = p0 [unfolded st] and rest = rest0 [unfolded st fst_conv snd_conv]
  note res = run_pass_result [OF good d p]
  have good1: "council_good (wd_store w1)"
    by (rule store_moves_good [OF run_pass_effect(1) [OF good d p] good])
  show ?thesis
  proof (cases "tries = []")
    case True
    with res rest show ?thesis by (auto simp: settled_count_def)
  next
    case False
    with rest have rec: "recover eg args second now (acc1, tries) w1 = (Inr (Some acc), w')" by simp
    have "length (sg_successes acc) + length (sg_failures acc)
        = length (sg_successes acc1) + length (sg_failures acc1) + length tries
      \<and> answered args (wd_store w') acc"
      by (rule recover_result [OF good1 dp _ _ _ _ _ rec]) (use res in auto)
    with res show ?thesis by (simp add: settled_count_def)
  qed
qed

end
