(* ===== verification/Engine_Progress.thy ===== *)
theory Engine_Progress imports Engine_Rounds begin

text \<open>
  The pool comes to an end: whatever the clocks read, the gate answers and the providers do, some
  call can always move until every call has come back, and every move brings the pool closer.
\<close>

section \<open>Distance to the end\<close>

definition phase_rank :: "call_phase \<Rightarrow> nat" where
  "phase_rank ph = (case ph of Queued \<Rightarrow> 4 | Started _ _ \<Rightarrow> 3 | Leased _ _ _ \<Rightarrow> 2
     | Returned _ \<Rightarrow> 1 | Raised _ \<Rightarrow> 1 | Taken \<Rightarrow> 0)"

definition pool_rank :: "'g pool \<Rightarrow> nat" where
  "pool_rank st = sum_list (map (\<lambda>x. phase_rank (snd x)) (ps_phases st))"

lemma rank_simps [simp]:
  "phase_rank Queued = 4" "phase_rank (Started s n) = 3" "phase_rank (Leased s n l) = 2"
  "phase_rank (Returned oc) = 1" "phase_rank (Raised e) = 1" "phase_rank Taken = 0"
  by (simp_all add: phase_rank_def)

lemma rank_set:
  fixes phases :: "(string, call_phase) dict"
  assumes "wf_dict phases" and "dict_get phases name = Some ph" and "phase_rank ph' < phase_rank ph"
  shows "sum_list (map (\<lambda>x. phase_rank (snd x)) (dict_set name ph' phases))
    < sum_list (map (\<lambda>x. phase_rank (snd x)) phases)"
proof -
  have ints: "int (sum_list (map (\<lambda>x. phase_rank (snd x)) d))
      = sum_list (map (\<lambda>p. int (phase_rank p)) (dict_values d))" for d :: "(string, call_phase) dict"
    by (induction d) simp_all
  show ?thesis
    using sum_dict_set [OF assms(1,2), of "\<lambda>p. int (phase_rank p)" ph'] assms(3)
      ints [of phases] ints [of "dict_set name ph' phases"]
    by linarith
qed

lemma start_rank: "start_call eg args p limit tk w = (ph, w') \<Longrightarrow> phase_rank ph < 4"
  by (auto simp: start_call_def split: if_splits sum.splits prod.splits)

lemma reserve_rank: "reserve_lease eg args limit tk slot attempt w = (ph, w') \<Longrightarrow> phase_rank ph < 3"
  by (auto simp: reserve_lease_def split: option.splits sum.splits prod.splits gate_answer.splits)

lemma call_rank: "call_provider eg args p limit tk slot attempt lease w = (ph, w') \<Longrightarrow> phase_rank ph < 2"
  by (auto simp: call_provider_def split: if_splits sum.splits)

text \<open>The next call of a pool that is not done.\<close>

definition ready :: "run_policy \<Rightarrow> 'g pool \<Rightarrow> string \<Rightarrow> bool" where
  "ready pol st name \<longleftrightarrow> (case dict_get (ps_phases st) name of
     None \<Rightarrow> False | Some Taken \<Rightarrow> False
   | Some Queued \<Rightarrow> may_start pol (ps_phases st) name
   | Some (Returned _) \<Rightarrow> ps_raised st = None | Some (Raised _) \<Rightarrow> ps_raised st = None
   | _ \<Rightarrow> True)"

lemma ready_moves:
  assumes wf: "wf_dict (ps_phases st)" and ready: "ready (eg_policy eg) st (tk_name tk)"
  shows "pool_rank (pool_step eg args cx st tk) < pool_rank st"
proof -
  obtain ph where at: "dict_get (ps_phases st) (tk_name tk) = Some ph"
    using ready by (auto simp: ready_def split: option.splits)
  note set = rank_set [OF wf at]
  show ?thesis
  proof (cases ph)
    case Queued
    obtain ph' w where r: "start_call eg args (call_prompts cx (tk_name tk)) (call_limit cx (tk_name tk))
        tk (ps_world st) = (ph', w)" by fastforce
    show ?thesis using ready at Queued r start_rank [OF r] set [of ph']
      by (simp add: ready_def pool_step_def pool_rank_def)
  next
    case (Started slot attempt)
    obtain ph' w where r: "reserve_lease eg args (call_limit cx (tk_name tk)) tk slot attempt
        (ps_world st) = (ph', w)" by fastforce
    show ?thesis using at Started r reserve_rank [OF r] set [of ph']
      by (simp add: pool_step_def pool_rank_def)
  next
    case (Leased slot attempt lease)
    obtain ph' w where r: "call_provider eg args (call_prompts cx (tk_name tk))
        (call_limit cx (tk_name tk)) tk slot attempt lease (ps_world st) = (ph', w)" by fastforce
    show ?thesis using at Leased r call_rank [OF r] set [of ph']
      by (simp add: pool_step_def pool_rank_def)
  next
    case (Returned oc)
    then show ?thesis using ready at set [of Taken]
      by (auto simp: ready_def pool_step_def take_in_def pool_rank_def split: prod.split sum.split)
  next
    case (Raised e)
    then show ?thesis using ready at set [of Taken]
      by (simp add: ready_def pool_step_def take_in_def pool_rank_def)
  next
    case Taken
    then show ?thesis using ready at by (simp add: ready_def)
  qed
qed

lemma busy_none:
  assumes "\<forall>x\<in>set phases. \<not> busy (snd x)"
  shows "busy_calls phases = 0"
  using assms by (auto simp: busy_calls_def count_where_zero)

lemma some_ready:
  assumes wf: "wf_dict (ps_phases st)" and par: "1 \<le> rp_max_parallel pol" and open_: "\<not> pool_done st"
  shows "\<exists>name. ready pol st name"
proof -
  obtain name ph where mem: "(name, ph) \<in> set (ps_phases st)"
      and ph: "\<not> (case ph of Taken \<Rightarrow> True | Returned _ \<Rightarrow> ps_raised st \<noteq> None
        | Raised _ \<Rightarrow> ps_raised st \<noteq> None | _ \<Rightarrow> False)"
    using open_ by (auto simp: pool_done_def list_all_iff)
  have at: "dict_get (ps_phases st) name = Some ph" using wf mem by (simp add: wf_dict_def map_of_is_SomeI)
  show ?thesis
  proof (cases "\<exists>x\<in>set (ps_phases st). busy (snd x)")
    case True
    then obtain n p where "(n, p) \<in> set (ps_phases st)" "busy p" by auto
    moreover from this(1) wf have "dict_get (ps_phases st) n = Some p"
      by (simp add: wf_dict_def map_of_is_SomeI)
    ultimately have "ready pol st n" by (auto simp: ready_def busy_def split: call_phase.splits)
    then show ?thesis by blast
  next
    case False
    show ?thesis
    proof (cases "ph = Queued")
      case True
      obtain x where x: "row_where (\<lambda>x. snd x = Queued) (ps_phases st) = Some x"
        using mem True row_where_None [of "\<lambda>x. snd x = Queued" "ps_phases st"] by force
      then have "x \<in> set (ps_phases st)" "snd x = Queued" by (auto dest: row_where_Some)
      then have "dict_get (ps_phases st) (fst x) = Some Queued"
        using wf by (metis map_of_is_SomeI prod.collapse wf_dict_def)
      moreover have "0 < length (ps_phases st)" using mem by (cases "ps_phases st") auto
      ultimately have "ready pol st (fst x)"
        using x par False by (auto simp: ready_def may_start_def busy_none max_workers_def)
      then show ?thesis by blast
    next
      case nq: False
      have "\<not> busy ph" using False mem by auto
      with nq ph have "ready pol st name" using at
        by (auto simp: ready_def busy_def split: call_phase.splits)
      then show ?thesis by blast
    qed
  qed
qed

lemma pool_step_wf: "wf_dict (ps_phases st) \<Longrightarrow> wf_dict (ps_phases (pool_step eg args cx st tk))"
  by (cases rule: pool_step_cases [of eg args cx st tk]) simp_all

lemma pool_can_finish:
  fixes st :: "'g pool"
  assumes par: "1 \<le> rp_max_parallel (eg_policy eg)" and mk: "\<And>n. tk_name (mk n) = n"
    and wf: "wf_dict (ps_phases st)"
  shows "\<exists>order. length order \<le> pool_rank st \<and> pool_done (run_pool eg args cx (map mk order) st)"
  using wf
proof (induction "pool_rank st" arbitrary: st rule: less_induct)
  case less
  show ?case
  proof (cases "pool_done st")
    case True
    then show ?thesis by (intro exI [of _ "[]"]) (simp add: run_pool_def)
  next
    case False
    then obtain n where n: "ready (eg_policy eg) st n" using some_ready [OF less.prems par] by blast
    let ?st = "pool_step eg args cx st (mk n)"
    have down: "pool_rank ?st < pool_rank st" by (rule ready_moves [OF less.prems]) (simp add: mk n)
    obtain order where "length order \<le> pool_rank ?st"
        "pool_done (run_pool eg args cx (map mk order) ?st)"
      using less.hyps [OF down pool_step_wf [OF less.prems]] by blast
    with down show ?thesis by (intro exI [of _ "n # order"]) (simp add: run_pool_def)
  qed
qed

lemma start_pool_rank: "pool_rank (start_pool limits err acc w) = 4 * length limits"
  by (simp add: pool_rank_def comp_def sum_list_triv)

end
