(* ===== verification/Service_Gate.thy ===== *)
theory Service_Gate imports Engine_Rounds Service_Ledgers begin

text \<open>
  \<open>DurableCallGate\<close> of \<open>service.py\<close>: the engine's call gate over the service store, and what any gate
  that keeps books gives the engine: no provider is called without an entry.
\<close>

section \<open>The gate over the service store\<close>

text \<open>The separator of the parts of an identifier.\<close>

definition zero_char :: string where
  "zero_char = [char_of (0 :: nat)]"

definition call_reservation_id ::
  "(string \<Rightarrow> sha) \<Rightarrow> string \<Rightarrow> string \<Rightarrow> string \<Rightarrow> string \<Rightarrow> int \<Rightarrow> string" where
  "call_reservation_id sha pid run stage prov attempt =
     ''call-'' @ sha (join_text zero_char [pid, run, stage, prov, int_text attempt])"

fun reservation_code_value :: "call_reservation_code \<Rightarrow> string" where
  "reservation_code_value C_RESERVED = ''reserved''"
| "reservation_code_value C_REPLAY = ''replay''"
| "reservation_code_value C_RESERVATION_CONFLICT = ''reservation_conflict''"
| "reservation_code_value C_UNKNOWN_PRINCIPAL = ''unknown_principal''"
| "reservation_code_value C_PRINCIPAL_DISABLED = ''principal_disabled''"
| "reservation_code_value C_TENANT_MISMATCH = ''tenant_mismatch''"
| "reservation_code_value C_RUN_NOT_OWNED = ''run_not_owned''"
| "reservation_code_value C_UNKNOWN_POLICY = ''unknown_policy''"
| "reservation_code_value C_POLICY_REVOKED = ''policy_revoked''"
| "reservation_code_value C_POLICY_NOT_ACTIVE = ''policy_not_active''"
| "reservation_code_value C_POLICY_EXPIRED = ''policy_expired''"
| "reservation_code_value C_ACTION_DENIED = ''action_denied''"
| "reservation_code_value C_PROVIDER_DENIED = ''provider_denied''"
| "reservation_code_value C_MODEL_DENIED = ''model_denied''"
| "reservation_code_value C_MAX_INFLIGHT_EXCEEDED = ''max_inflight_exceeded''"
| "reservation_code_value C_DAILY_LIMIT_EXCEEDED = ''daily_limit_exceeded''"
| "reservation_code_value C_MONTHLY_LIMIT_EXCEEDED = ''monthly_limit_exceeded''"

fun reconciliation_code_value :: "call_reconciliation_code \<Rightarrow> string" where
  "reconciliation_code_value K_RECONCILED = ''reconciled''"
| "reconciliation_code_value K_IDEMPOTENT = ''idempotent''"
| "reconciliation_code_value K_NOT_FOUND = ''not_found''"
| "reconciliation_code_value K_RELEASED = ''released''"
| "reconciliation_code_value K_CONFLICT = ''conflict''"

text \<open>The answer of the gate to a result of the store.\<close>

definition gate_verdict :: "string \<Rightarrow> call_result \<Rightarrow> gate_answer" where
  "gate_verdict rid r =
     (if ca_code r = C_REPLAY then Refused (plain_error
        ''Council call reservation already exists; refusing a duplicate provider execution''
        BUDGET False None 1 True)
      else if \<not> ca_allowed r then Refused (plain_error
        (''Council policy denied provider invocation: '' @ reservation_code_value (ca_code r))
        (if ca_code r \<in> {C_MAX_INFLIGHT_EXCEEDED, C_DAILY_LIMIT_EXCEEDED, C_MONTHLY_LIMIT_EXCEEDED}
           then BUDGET else PERMISSION) False None 1 False)
      else Granted rid)"

definition durable_reserve ::
  "(string \<Rightarrow> sha) \<Rightarrow> principal \<Rightarrow> string \<Rightarrow> string \<Rightarrow> string \<Rightarrow> provider_config \<Rightarrow> int \<Rightarrow>
   py_datetime \<Rightarrow> service_db \<Rightarrow> gate_answer \<times> service_db" where
  "durable_reserve sha p pol run stage c attempt clk db =
     (let rid = call_reservation_id sha (pr_id p) run stage (cf_name c) attempt in
      case mk_call_request rid pol (pr_id p) (pr_tenant p) run (action_value PROVIDER_INVOKE)
             (cf_name c) (cf_model c) 1 of
        Inl e \<Rightarrow> (Broken (exception_name e), db)
      | Inr q \<Rightarrow>
          (case reserve_call q None clk db of
             (Inl e, db') \<Rightarrow> (Broken (exception_name e), db')
           | (Inr r, db') \<Rightarrow> (gate_verdict rid r, db')))"

definition durable_reconcile ::
  "principal \<Rightarrow> string \<Rightarrow> int \<Rightarrow> py_datetime \<Rightarrow> service_db \<Rightarrow> unit result \<times> service_db" where
  "durable_reconcile p rid actual clk db =
     (case reconcile_call rid (pr_id p) actual None clk db of
        (Inl e, db') \<Rightarrow> (Inl e, db')
      | (Inr r, db') \<Rightarrow>
          (if \<not> kr_accepted r \<or> kr_code r \<notin> {K_RECONCILED, K_IDEMPOTENT}
           then (Inl (RuntimeError (''call-unit reconciliation failed: ''
                  @ reconciliation_code_value (kr_code r))), db')
           else (Inr (), db')))"

definition durable_release :: "principal \<Rightarrow> string \<Rightarrow> service_db \<Rightarrow> unit result \<times> service_db" where
  "durable_release p rid db =
     (case release_call rid (pr_id p) db of
        (Inl e, db') \<Rightarrow> (Inl e, db')
      | (Inr done_, db') \<Rightarrow>
          (if done_ then Inr ()
           else Inl (RuntimeError ''call-unit reservation could not be released''), db'))"

definition durable_gate ::
  "(string \<Rightarrow> sha) \<Rightarrow> principal \<Rightarrow> string \<Rightarrow> service_db gate_protocol" where
  "durable_gate sha p pol =
     \<lparr>cg_reserve = durable_reserve sha p pol, cg_reconcile = durable_reconcile p,
      cg_release = durable_release p\<rparr>"

section \<open>A gate that keeps books\<close>

text \<open>
  The contract of a gate towards the engine.  An entry is \<open>known\<close> for ever once it was made; it is
  \<open>live\<close> for a run, a stage and a provider while it is charged for.  A grant makes a new live entry;
  only a release of the entry itself ends it.
\<close>

locale call_ledger =
  fixes gate :: "'g gate_protocol" and known :: "'g \<Rightarrow> string \<Rightarrow> bool"
    and live :: "'g \<Rightarrow> string \<Rightarrow> string \<Rightarrow> string \<Rightarrow> provider_config \<Rightarrow> bool"
  assumes live_known: "live g l r s c \<Longrightarrow> known g l"
    and granted: "cg_reserve gate run stage c n clk g = (Granted l, g') \<Longrightarrow>
      \<not> known g l \<and> live g' l run stage c"
    and reserve_known: "known g l \<Longrightarrow> known (snd (cg_reserve gate run stage c n clk g)) l"
    and reserve_live: "live g l r s d \<Longrightarrow> live (snd (cg_reserve gate run stage c n clk g)) l r s d"
    and reconcile_known: "known g l \<Longrightarrow> known (snd (cg_reconcile gate k a clk g)) l"
    and reconcile_live: "live g l r s c \<Longrightarrow> live (snd (cg_reconcile gate k a clk g)) l r s c"
    and release_known: "known g l \<Longrightarrow> known (snd (cg_release gate k g)) l"
    and release_live: "live g l r s c \<Longrightarrow> l \<noteq> k \<Longrightarrow> live (snd (cg_release gate k g)) l r s c"
begin

text \<open>Nothing known is forgotten, and no live entry outside \<open>D\<close> ends.\<close>

definition upheld :: "string set \<Rightarrow> 'g \<Rightarrow> 'g \<Rightarrow> bool" where
  "upheld D g g' \<longleftrightarrow> (\<forall>l. known g l \<longrightarrow> known g' l)
     \<and> (\<forall>l r s c. l \<notin> D \<longrightarrow> live g l r s c \<longrightarrow> live g' l r s c)"

lemma upheld_refl [simp]: "upheld D g g"
  by (simp add: upheld_def)

lemma upheld_trans: "upheld D g h \<Longrightarrow> upheld D h k \<Longrightarrow> upheld D g k"
  by (simp add: upheld_def)

lemma upheld_known: "upheld D g g' \<Longrightarrow> known g l \<Longrightarrow> known g' l"
  by (simp add: upheld_def)

lemma upheld_live: "upheld D g g' \<Longrightarrow> live g l r s c \<Longrightarrow> l \<notin> D \<Longrightarrow> live g' l r s c"
  by (simp add: upheld_def)

lemma upheld_reserve: "upheld {} g (snd (cg_reserve gate run stage c n clk g))"
  by (simp add: upheld_def reserve_known reserve_live)

lemma upheld_reconcile: "upheld D g (snd (cg_reconcile gate l a clk g))"
  by (simp add: upheld_def reconcile_known reconcile_live)

lemma upheld_release: "l \<in> D \<Longrightarrow> upheld D g (snd (cg_release gate l g))"
  unfolding upheld_def using release_known release_live by metis

text \<open>Actions that call no provider and end no live entry outside \<open>D\<close>.\<close>

definition kept :: "string set \<Rightarrow> 'g world \<Rightarrow> 'g world \<Rightarrow> bool" where
  "kept D w w' \<longleftrightarrow> wd_calls w' = wd_calls w \<and> upheld D (wd_gate w) (wd_gate w')"

lemma kept_order: "reflp (kept D)" "transp (kept D)"
proof -
  show "reflp (kept D)" by (rule reflpI) (simp add: kept_def)
  show "transp (kept D)"
    by (rule transpI) (use upheld_trans in \<open>auto simp: kept_def\<close>)
qed

lemma kept_store: "keeps (kept D) (in_store f)"
  by (auto simp: keeps_def in_store_def kept_def split: prod.split)

lemma kept_gate: "(\<And>g. upheld D g (snd (f g))) \<Longrightarrow> keeps (kept D) (in_gate f)"
  unfolding keeps_def in_gate_def kept_def by (auto split: prod.split) (metis snd_conv)

sublocale kept: stage_actions en "Some gate" "kept D" "\<lambda>_. True" "\<lambda>_ _. True" "\<lambda>l. l \<in> D" for en D
  by unfold_locales
    (auto simp: kept_order kept_store fail_slot_def add_engine_event_def
      intro!: kept_gate upheld_reconcile upheld_release)

text \<open>Calls that are paid for: each new call has a live entry of its own, for its run, stage and provider,
  that was unknown before.\<close>

definition entry :: "'g engine \<Rightarrow> string \<Rightarrow> 'g \<Rightarrow> dispatch \<Rightarrow> string \<Rightarrow> bool" where
  "entry eg run g d l \<longleftrightarrow> (\<exists>c. provider_of eg (dp_provider d) = Inr c \<and> live g l run (dp_stage d) c)"

definition charged :: "'g engine \<Rightarrow> string \<Rightarrow> 'g world \<Rightarrow> 'g world \<Rightarrow> string list \<Rightarrow> bool" where
  "charged eg run w w' ids \<longleftrightarrow> distinct ids \<and> (\<forall>l\<in>set ids. \<not> known (wd_gate w) l)
     \<and> (\<exists>new. wd_calls w' = wd_calls w @ new \<and> list_all2 (entry eg run (wd_gate w')) new ids)"

definition paid :: "'g engine \<Rightarrow> string \<Rightarrow> 'g world \<Rightarrow> 'g world \<Rightarrow> bool" where
  "paid eg run w w' \<longleftrightarrow> upheld {} (wd_gate w) (wd_gate w') \<and> (\<exists>ids. charged eg run w w' ids)"

lemma entry_upheld: "upheld D g g' \<Longrightarrow> l \<notin> D \<Longrightarrow> entry eg run g d l \<Longrightarrow> entry eg run g' d l"
  unfolding entry_def using upheld_live by blast

lemma entry_known: "entry eg run g d l \<Longrightarrow> known g l"
  unfolding entry_def using live_known by blast

lemma entries_upheld:
  assumes "upheld D g g'" and "set ids \<inter> D = {}" and "list_all2 (entry eg run g) new ids"
  shows "list_all2 (entry eg run g') new ids"
  unfolding list_all2_conv_all_nth
proof (intro conjI allI impI)
  show "length new = length ids" using assms(3) by (rule list_all2_lengthD)
  fix i assume "i < length new"
  then have "entry eg run g (new ! i) (ids ! i)" "ids ! i \<in> set ids"
    using assms(3) by (auto simp: list_all2_conv_all_nth)
  then show "entry eg run g' (new ! i) (ids ! i)"
    using assms(1,2) by (intro entry_upheld [OF assms(1)]) auto
qed

lemma entries_known: "list_all2 (entry eg run g) new ids \<Longrightarrow> l \<in> set ids \<Longrightarrow> known g l"
  using entry_known by (metis in_set_conv_nth list_all2_conv_all_nth)

lemma paid_refl: "paid eg run w w"
  unfolding paid_def charged_def by (intro conjI exI [of _ "[]"]) simp_all

lemma paid_trans:
  assumes "paid eg run a b" and "paid eg run b c"
  shows "paid eg run a c"
proof -
  obtain ids xs where a: "upheld {} (wd_gate a) (wd_gate b)" "distinct ids"
      "\<forall>l\<in>set ids. \<not> known (wd_gate a) l" "wd_calls b = wd_calls a @ xs"
      "list_all2 (entry eg run (wd_gate b)) xs ids"
    using assms(1) unfolding paid_def charged_def by blast
  obtain jds ys where b: "upheld {} (wd_gate b) (wd_gate c)" "distinct jds"
      "\<forall>l\<in>set jds. \<not> known (wd_gate b) l" "wd_calls c = wd_calls b @ ys"
      "list_all2 (entry eg run (wd_gate c)) ys jds"
    using assms(2) unfolding paid_def charged_def by blast
  have "list_all2 (entry eg run (wd_gate c)) (xs @ ys) (ids @ jds)"
    using entries_upheld [OF b(1) _ a(5)] b(5) by (simp add: list_all2_appendI)
  moreover have "set ids \<inter> set jds = {}" using entries_known [OF a(5)] b(3) by blast
  moreover have "\<forall>l\<in>set jds. \<not> known (wd_gate a) l" using b(3) upheld_known [OF a(1)] by blast
  ultimately have "charged eg run a c (ids @ jds)"
    unfolding charged_def using a(2-4) b(2,4) by auto
  then show ?thesis unfolding paid_def using upheld_trans [OF a(1) b(1)] by blast
qed

lemma kept_paid: "kept {} w w' \<Longrightarrow> paid eg run w w'"
  unfolding kept_def paid_def charged_def by (intro conjI exI [of _ "[]"]) simp_all

lemma paid_keeps: "keeps (kept {}) m \<Longrightarrow> keeps (paid eg run) m"
  unfolding keeps_def using kept_paid by blast

sublocale paid: stage_actions en "Some gate" "paid eg run" "\<lambda>_. True" "\<lambda>_ _. True" "\<lambda>_. False" for en eg run
proof
  show "reflp (paid eg run)" "transp (paid eg run)"
    by (auto intro: reflpI transpI paid_refl paid_trans)
qed (auto intro!: paid_keeps kept.keeps_fail_slot kept.keeps_add_event kept.keeps_success
      kept.keeps_release kept.keeps_settle)

text \<open>The leases that the calls of a pool hold and have not used.\<close>

definition lease_of :: "call_phase \<Rightarrow> string option" where
  "lease_of ph = (case ph of Leased _ _ l \<Rightarrow> l
     | Returned oc \<Rightarrow> if po_dispatched oc then None else po_lease oc | _ \<Rightarrow> None)"

lemma lease_simps [simp]:
  "lease_of Queued = None" "lease_of (Started s n) = None" "lease_of (Leased s n l) = l"
  "lease_of (Raised e) = None" "lease_of Taken = None"
  "lease_of (Returned oc) = (if po_dispatched oc then None else po_lease oc)"
  by (simp_all add: lease_of_def)

text \<open>Every lease held is a live entry for its call, made in this stage, and used by no call so far.\<close>

definition holds ::
  "'g engine \<Rightarrow> stage_args \<Rightarrow> 'g world \<Rightarrow> 'g \<Rightarrow> string list \<Rightarrow> string \<Rightarrow> string \<Rightarrow> bool" where
  "holds eg args w g ids name l \<longleftrightarrow> \<not> known (wd_gate w) l \<and> l \<notin> set ids
     \<and> (\<exists>c. provider_of eg name = Inr c \<and> live g l (sa_run args) (sa_stage args) c)"

definition leases_ok ::
  "'g engine \<Rightarrow> stage_args \<Rightarrow> 'g world \<Rightarrow> 'g \<Rightarrow> string list \<Rightarrow> (string, call_phase) dict \<Rightarrow> bool" where
  "leases_ok eg args w g ids phases \<longleftrightarrow>
     (\<forall>n ph l. dict_get phases n = Some ph \<longrightarrow> lease_of ph = Some l \<longrightarrow> holds eg args w g ids n l)
   \<and> (\<forall>n m ph ph' l. dict_get phases n = Some ph \<longrightarrow> dict_get phases m = Some ph' \<longrightarrow>
        lease_of ph = Some l \<longrightarrow> lease_of ph' = Some l \<longrightarrow> n = m)
   \<and> (\<forall>n s a. dict_get phases n \<noteq> Some (Leased s a None))"

definition books :: "'g engine \<Rightarrow> stage_args \<Rightarrow> 'g world \<Rightarrow> 'g pool \<Rightarrow> bool" where
  "books eg args w st \<longleftrightarrow> upheld {} (wd_gate w) (wd_gate (ps_world st))
     \<and> (\<exists>ids. charged eg (sa_run args) w (ps_world st) ids
          \<and> leases_ok eg args w (wd_gate (ps_world st)) ids (ps_phases st))"

lemma holds_known: "holds eg args w g ids n l \<Longrightarrow> known g l"
  unfolding holds_def using live_known by blast

lemma holds_upheld:
  "upheld D g g' \<Longrightarrow> l \<notin> D \<Longrightarrow> holds eg args w g ids n l \<Longrightarrow> holds eg args w g' ids n l"
  unfolding holds_def using upheld_live by blast

text \<open>A move of one call that may give its own lease back or take a new one.\<close>

lemma books_move:
  assumes b: "books eg args w st" and at: "dict_get (ps_phases st) n = Some ph"
    and st': "ps_phases st' = dict_set n ph' (ps_phases st)"
      "wd_calls (ps_world st') = wd_calls (ps_world st)"
    and up: "upheld D (wd_gate (ps_world st)) (wd_gate (ps_world st'))" "D \<subseteq> set_option (lease_of ph)"
    and new: "\<And>l. lease_of ph' = Some l \<Longrightarrow> lease_of ph = Some l \<and> D = {}
      \<or> \<not> known (wd_gate (ps_world st)) l
        \<and> (\<exists>c. provider_of eg n = Inr c \<and> live (wd_gate (ps_world st')) l (sa_run args) (sa_stage args) c)"
    and leased: "\<And>s a. ph' \<noteq> Leased s a None"
  shows "books eg args w st'"
proof -
  let ?g = "wd_gate (ps_world st)" and ?g' = "wd_gate (ps_world st')" and ?ps = "ps_phases st"
  obtain ids xs where old: "upheld {} (wd_gate w) ?g" and ids: "distinct ids" "\<forall>l\<in>set ids. \<not> known (wd_gate w) l"
      "wd_calls (ps_world st) = wd_calls w @ xs" "list_all2 (entry eg (sa_run args) ?g) xs ids"
    and ok: "leases_ok eg args w ?g ids ?ps"
    using b unfolding books_def charged_def by blast
  have own: "holds eg args w ?g ids n l" if "l \<in> D" for l
    using ok at up(2) that by (auto simp: leases_ok_def)
  have "upheld {} (wd_gate w) ?g'"
    unfolding upheld_def
  proof (intro conjI allI impI)
    show "known ?g' l" if "known (wd_gate w) l" for l
      using upheld_known [OF up(1) upheld_known [OF old that]] .
    show "live ?g' l r s c" if "live (wd_gate w) l r s c" for l r s c
    proof (rule upheld_live [OF up(1) upheld_live [OF old that]])
      show "l \<notin> D" using own live_known [OF that] by (auto simp: holds_def)
    qed simp
  qed
  moreover have "list_all2 (entry eg (sa_run args) ?g') xs ids"
    by (rule entries_upheld [OF up(1) _ ids(4)]) (use own in \<open>auto simp: holds_def\<close>)
  then have "charged eg (sa_run args) w (ps_world st') ids"
    unfolding charged_def using ids st'(2) by auto
  moreover have "leases_ok eg args w ?g' ids (ps_phases st')"
  proof -
    have other: "holds eg args w ?g' ids m l" if "dict_get ?ps m = Some p" "lease_of p = Some l" "m \<noteq> n" for m p l
    proof (rule holds_upheld [OF up(1)])
      show "holds eg args w ?g ids m l" using ok that by (auto simp: leases_ok_def)
      show "l \<notin> D" using ok that at up(2) by (fastforce simp: leases_ok_def)
    qed
    have mine: "holds eg args w ?g' ids n l \<and> (\<forall>m p. m \<noteq> n \<longrightarrow> dict_get ?ps m = Some p \<longrightarrow> lease_of p \<noteq> Some l)"
      if l: "lease_of ph' = Some l" for l
      using new [OF l]
    proof (elim disjE conjE)
      assume "lease_of ph = Some l" "D = {}"
      then show ?thesis using ok at holds_upheld [OF up(1)] by (auto simp: leases_ok_def)
    next
      assume fresh: "\<not> known ?g l"
        and c: "\<exists>c. provider_of eg n = Inr c \<and> live ?g' l (sa_run args) (sa_stage args) c"
      have "holds eg args w ?g' ids n l"
        using c fresh upheld_known [OF old] entries_known [OF ids(4)] by (auto simp: holds_def)
      moreover have "lease_of p \<noteq> Some l" if "dict_get ?ps m = Some p" for m p
      proof
        assume "lease_of p = Some l"
        with ok that have "holds eg args w ?g ids m l" by (simp add: leases_ok_def)
        with holds_known fresh show False by blast
      qed
      ultimately show ?thesis by blast
    qed
    show ?thesis
      unfolding leases_ok_def st'(1) dict_get_set
    proof (intro conjI allI impI)
      show "holds eg args w ?g' ids m l"
        if "(if m = n then Some ph' else dict_get ?ps m) = Some p" "lease_of p = Some l" for m p l
        using that other mine by (cases "m = n") auto
      show "m = k" if "(if m = n then Some ph' else dict_get ?ps m) = Some p"
          "(if k = n then Some ph' else dict_get ?ps k) = Some q" "lease_of p = Some l" "lease_of q = Some l"
        for m k p q l
        using that mine ok by (auto simp: leases_ok_def split: if_splits)
      show "(if m = n then Some ph' else dict_get ?ps m) \<noteq> Some (Leased s a None)" for m s a
        using leased ok by (auto simp: leases_ok_def)
    qed
  qed
  ultimately show ?thesis unfolding books_def by blast
qed

text \<open>The move that calls the provider uses the lease up.\<close>

lemma books_call:
  assumes b: "books eg args w st" and at: "dict_get (ps_phases st) n = Some (Leased slot a lease)"
    and st': "ps_phases st' = dict_set n (Returned oc) (ps_phases st)" "po_dispatched oc"
      "wd_gate (ps_world st') = wd_gate (ps_world st)" "wd_calls (ps_world st') = wd_calls (ps_world st) @ [d]"
    and d: "dp_provider d = n" "dp_stage d = sa_stage args"
  shows "books eg args w st'"
proof -
  let ?g = "wd_gate (ps_world st)" and ?ps = "ps_phases st"
  obtain ids xs where ids: "upheld {} (wd_gate w) ?g" "distinct ids" "\<forall>l\<in>set ids. \<not> known (wd_gate w) l"
      "wd_calls (ps_world st) = wd_calls w @ xs" "list_all2 (entry eg (sa_run args) ?g) xs ids"
    and ok: "leases_ok eg args w ?g ids ?ps"
    using b unfolding books_def charged_def by blast
  obtain l where l: "lease = Some l" using ok at by (cases lease) (auto simp: leases_ok_def)
  have mine: "holds eg args w ?g ids n l"
    using ok at l by (auto simp: leases_ok_def)
  then have "charged eg (sa_run args) w (ps_world st') (ids @ [l])"
    unfolding charged_def using ids d st'(3,4)
    by (auto simp: holds_def entry_def list_all2_appendI)
  moreover have "leases_ok eg args w ?g (ids @ [l]) (ps_phases st')"
  proof -
    have "l' \<noteq> l" if "dict_get ?ps m = Some p" "lease_of p = Some l'" "m \<noteq> n" for m p l'
      using ok that at l by (auto simp: leases_ok_def)
    then show ?thesis using ok st'(2)
      by (auto simp: leases_ok_def st'(1) dict_get_set holds_def split: if_splits)
  qed
  ultimately show ?thesis unfolding books_def using ids(1) st'(3) by auto
qed

lemma start_gate:
  "start_call eg args p limit tk w = (ph, w') \<Longrightarrow> wd_gate w' = wd_gate w \<and> wd_calls w' = wd_calls w
     \<and> lease_of ph = None \<and> (\<forall>s n l. ph \<noteq> Leased s n l)"
  by (auto simp: start_call_def in_store_def undispatched_def split: if_splits sum.splits prod.splits)

lemma reserve_gate:
  assumes "eg_gate eg = Some gate" and r: "reserve_lease eg args limit tk slot attempt w = (ph, w')"
  shows "wd_calls w' = wd_calls w \<and> upheld {} (wd_gate w) (wd_gate w')
    \<and> (\<forall>s a. ph \<noteq> Leased s a None)
    \<and> (\<forall>l. lease_of ph = Some l \<longrightarrow> \<not> known (wd_gate w) l
         \<and> (\<exists>c. provider_of eg (tk_name tk) = Inr c \<and> live (wd_gate w') l (sa_run args) (sa_stage args) c))"
proof (cases "provider_of eg (tk_name tk)")
  case (Inl e)
  then show ?thesis using r assms(1) by (auto simp: reserve_lease_def)
next
  case (Inr c)
  obtain a g' where a: "cg_reserve gate (sa_run args) (sa_stage args) c attempt (tk_clock tk) (wd_gate w)
      = (a, g')" by fastforce
  have up: "upheld {} (wd_gate w) g'"
    using upheld_reserve [of "wd_gate w" "sa_run args" "sa_stage args" c attempt "tk_clock tk"] a by simp
  show ?thesis
  proof (cases a)
    case (Granted l)
    with a have "\<not> known (wd_gate w) l \<and> live g' l (sa_run args) (sa_stage args) c"
      by (intro granted) simp
    then show ?thesis using r assms(1) Inr a Granted up by (auto simp: reserve_lease_def)
  qed (use r assms(1) Inr a up in \<open>auto simp: reserve_lease_def undispatched_def\<close>)
qed

lemma call_gate_books:
  assumes "call_provider eg args p limit tk slot attempt lease w = (ph, w')"
  shows "wd_gate w' = wd_gate w
    \<and> (wd_calls w' = wd_calls w \<and> (lease_of ph = None \<or> lease_of ph = lease) \<and> (\<forall>s n l. ph \<noteq> Leased s n l)
       \<or> (\<exists>d oc. wd_calls w' = wd_calls w @ [d] \<and> ph = Returned oc \<and> po_dispatched oc
            \<and> dp_provider d = tk_name tk \<and> dp_stage d = sa_stage args))"
  using assms by (auto simp: call_provider_def undispatched_def split: if_splits sum.splits)

lemma books_step:
  assumes gate: "eg_gate eg = Some gate" and b: "books eg args w st"
  shows "books eg args w (pool_step eg args cx st tk)"
proof -
  have taken: "books eg args w st'"
    if at: "dict_get (ps_phases st) (tk_name tk) = Some (Returned oc)"
      and r: "take_outcome eg args cx tk oc (ps_intake st) (ps_world st) = (x, w')"
      and st': "ps_phases st' = dict_set (tk_name tk) Taken (ps_phases st)" "ps_world st' = w'" for oc x w' st'
  proof -
    have "keeps (kept (set_option (lease_of (Returned oc)))) (take_outcome eg args cx tk oc (ps_intake st))"
      by (rule kept.keeps_outcome [OF refl gate]) auto
    then have "kept (set_option (lease_of (Returned oc))) (ps_world st) w'"
      using r by (metis keeps_def snd_conv)
    then show ?thesis
      by (intro books_move [OF b at st'(1)]) (auto simp: kept_def st'(2))
  qed
  show ?thesis
  proof (cases rule: pool_step_cases [of eg args cx st tk])
    case idle
    with b show ?thesis by simp
  next
    case start
    obtain ph w' where r: "start_call eg args (call_prompts cx (tk_name tk)) (call_limit cx (tk_name tk))
        tk (ps_world st) = (ph, w')" by fastforce
    show ?thesis
      by (rule books_move [OF b start(1), where ph' = ph and D = "{}"])
        (use start_gate [OF r] in \<open>auto simp: start(3) r\<close>)
  next
    case (reserve slot attempt)
    obtain ph w' where r: "reserve_lease eg args (call_limit cx (tk_name tk)) tk slot attempt
        (ps_world st) = (ph, w')" by fastforce
    show ?thesis
      by (rule books_move [OF b reserve(1), where ph' = ph and D = "{}"])
        (use reserve_gate [OF gate r] in \<open>auto simp: reserve(2) r\<close>)
  next
    case (call slot attempt lease)
    obtain ph w' where r: "call_provider eg args (call_prompts cx (tk_name tk))
        (call_limit cx (tk_name tk)) tk slot attempt lease (ps_world st) = (ph, w')" by fastforce
    from call_gate_books [OF r] consider
        (silent) "wd_gate w' = wd_gate (ps_world st)" "wd_calls w' = wd_calls (ps_world st)"
          "lease_of ph = None \<or> lease_of ph = lease" "\<forall>s n l. ph \<noteq> Leased s n l"
      | (speaks) d oc where "wd_gate w' = wd_gate (ps_world st)" "wd_calls w' = wd_calls (ps_world st) @ [d]"
          "ph = Returned oc" "po_dispatched oc" "dp_provider d = tk_name tk" "dp_stage d = sa_stage args"
      by blast
    then show ?thesis
    proof cases
      case silent
      then show ?thesis
        by (intro books_move [OF b call(1), where ph' = ph and D = "{}"]) (auto simp: call(2) r)
    next
      case (speaks d oc)
      then show ?thesis
        by (intro books_call [OF b call(1), where oc = oc and d = d]) (simp_all add: call(2) r)
    qed
  next
    case (take oc i w')
    show ?thesis by (rule taken [OF take(1,3)]) (simp_all add: take(4))
  next
    case (fail oc e w')
    show ?thesis by (rule taken [OF fail(1,3)]) (simp_all add: fail(4))
  next
    case (rise e)
    show ?thesis
      by (rule books_move [OF b rise(1), where ph' = Taken and D = "{}"]) (simp_all add: rise(3))
  qed
qed

lemma books_run:
  "eg_gate eg = Some gate \<Longrightarrow> books eg args w st \<Longrightarrow> books eg args w (run_pool eg args cx ticks st)"
  unfolding run_pool_def by (induction ticks arbitrary: st) (simp_all add: books_step)

lemma paid_calls:
  assumes "eg_gate eg = Some gate" and run: "sa_run args = run"
  shows "keeps (paid eg run) (run_calls eg args snapshot events work allowed ticks acc)"
  unfolding keeps_def
proof
  fix w
  obtain limits err where s: "submit (first_limit eg args snapshot) allowed = (limits, err)"
    by fastforce
  let ?cx = "\<lparr>cx_snapshot = snapshot, cx_events = events, cx_work = work, cx_limits = limits\<rparr>"
  have "books eg args w (start_pool limits err acc w)"
    using start_phases [of limits]
    by (fastforce simp: books_def charged_def leases_ok_def intro!: exI [of _ "[]"])
  from books_run [OF assms(1) this, of ?cx ticks]
  have "paid eg run w (ps_world (run_pool eg args ?cx ticks (start_pool limits err acc w)))"
    unfolding books_def paid_def run by blast
  then show "paid eg run w (snd (run_calls eg args snapshot events work allowed ticks acc w))"
    using s by (simp add: run_calls_def Let_def split: option.split)
qed

lemma paid_stage:
  assumes "eg_gate eg = Some gate"
  shows "keeps (paid eg (sa_run args)) (run_parallel_stage eg args prompts first second now)"
  by (rule paid.keeps_stage [OF refl]) (rule paid_calls [OF assms])

end

section \<open>The durable gate keeps books\<close>

text \<open>A row of the service store that charges the principal for one call of this run, stage and provider:
  its identifier says so, it is reserved or settled, and it was not released.\<close>

definition charging_row ::
  "(string \<Rightarrow> sha) \<Rightarrow> principal \<Rightarrow> string \<Rightarrow> service_db \<Rightarrow> string \<Rightarrow> string \<Rightarrow> string \<Rightarrow> provider_config \<Rightarrow> bool" where
  "charging_row sha p pol db rid run stage c \<longleftrightarrow> (\<exists>row attempt. find_call db rid = Some row
     \<and> cr_state row \<noteq> CS_Released \<and> cr_principal row = pr_id p \<and> cr_policy row = pol \<and> cr_run row = run
     \<and> cr_provider row = cf_name c \<and> cr_model row = cf_model c \<and> cr_reserved row = 1
     \<and> rid = call_reservation_id sha (pr_id p) run stage (cf_name c) attempt)"

lemma charging_kept:
  assumes "charging_row sha p pol db rid run stage c"
    and "\<And>row. find_call db rid = Some row \<Longrightarrow>
      \<exists>row'. find_call d rid = Some row' \<and> (row' = row \<or> (\<exists>now a. row' = settle_call a now row))"
  shows "charging_row sha p pol d rid run stage c"
proof -
  obtain row attempt where row: "find_call db rid = Some row" and rest: "cr_state row \<noteq> CS_Released"
      "cr_principal row = pr_id p" "cr_policy row = pol" "cr_run row = run" "cr_provider row = cf_name c"
      "cr_model row = cf_model c" "cr_reserved row = 1"
      "rid = call_reservation_id sha (pr_id p) run stage (cf_name c) attempt"
    using assms(1) unfolding charging_row_def by blast
  obtain row' where row': "find_call d rid = Some row'" "row' = row \<or> (\<exists>now a. row' = settle_call a now row)"
    using assms(2) [OF row] by blast
  show ?thesis
    unfolding charging_row_def
    by (intro exI [of _ row'] exI [of _ attempt] conjI)
      (use row' rest in \<open>auto simp: settle_call_def\<close>)
qed

lemma reserve_finds:
  assumes "find_call db rid = Some row"
  shows "find_call (snd (reserve_call q tm clk db)) rid = Some row"
  using reserve_cases [of q tm clk db] assms by (auto simp: find_call_def row_where_append)

lemma reserve_new_row:
  assumes "reserve_call q tm clk db = (Inr r, db')" and "ca_allowed r" and "ca_code r \<noteq> C_REPLAY"
  shows "\<exists>now. find_call db (cq_reservation q) = None
    \<and> find_call db' (cq_reservation q) = Some (new_call_row q now)"
proof -
  have "\<exists>now. find_call db (cq_reservation q) = None \<and> db_calls db' = db_calls db @ [new_call_row q now]"
    using assms
    by (auto simp: reserve_call_def reserve_call_body_def write_txn_def mk_call_result_def Let_def
        split: sum.splits option.splits if_splits prod.splits)
  then show ?thesis by (auto simp: find_call_def row_where_append new_call_row_def)
qed

lemma reconcile_rows:
  "\<exists>now b. db_calls (snd (reconcile_call rid pid a tm clk db))
     = (if b then update_where (\<lambda>c. cr_id c = rid) (settle_call a now) (db_calls db) else db_calls db)"
  by (auto simp: reconcile_call_def reconcile_call_body_def reconciled_answer_def write_txn_snd
      intro: exI [of _ False] exI [of _ True] split: sum.splits option.splits prod.splits call_state.splits)

lemma reconcile_finds:
  assumes "find_call db k = Some row"
  shows "\<exists>row'. find_call (snd (reconcile_call rid pid a tm clk db)) k = Some row'
    \<and> (row' = row \<or> (\<exists>now. row' = settle_call a now row))"
proof -
  obtain now b where rows: "db_calls (snd (reconcile_call rid pid a tm clk db))
     = (if b then update_where (\<lambda>c. cr_id c = rid) (settle_call a now) (db_calls db) else db_calls db)"
    using reconcile_rows by blast
  have "(\<lambda>r. cr_id (settle_call a now r) = k) = (\<lambda>r. cr_id r = k)" by (simp add: settle_call_def)
  then show ?thesis using assms
    by (auto simp: find_call_def rows row_where_update settle_call_def)
qed

lemma release_finds:
  assumes "find_call db k = Some row"
  shows "\<exists>row'. find_call (snd (release_call rid pid db)) k = Some row' \<and> (k \<noteq> rid \<longrightarrow> row' = row)"
  using assms row_where_Some [of "\<lambda>r. cr_id r = k" "db_calls db" row]
  by (auto simp: find_call_def release_call_def write_txn_snd row_where_update releasable_def)

lemma durable_reserve_snd:
  "snd (cg_reserve (durable_gate sha p pol) run stage c n clk db) = db
   \<or> (\<exists>q. snd (cg_reserve (durable_gate sha p pol) run stage c n clk db) = snd (reserve_call q None clk db))"
  by (auto simp: durable_gate_def durable_reserve_def Let_def split: sum.splits prod.splits)
    (metis snd_conv)+

lemma durable_reconcile_snd:
  "snd (cg_reconcile (durable_gate sha p pol) k a clk db) = snd (reconcile_call k (pr_id p) a None clk db)"
  by (auto simp: durable_gate_def durable_reconcile_def split: sum.splits prod.splits)

lemma durable_release_snd:
  "snd (cg_release (durable_gate sha p pol) k db) = snd (release_call k (pr_id p) db)"
  by (auto simp: durable_gate_def durable_release_def split: sum.splits prod.splits)

interpretation durable: call_ledger "durable_gate sha p pol" "\<lambda>db rid. find_call db rid \<noteq> None"
    "charging_row sha p pol" for sha p pol
proof
  fix g g' :: service_db and l k r s :: string and c d :: provider_config and run stage n clk a
  show "find_call g l \<noteq> None" if "charging_row sha p pol g l r s c"
    using that by (auto simp: charging_row_def)
  show "\<not> find_call g l \<noteq> None \<and> charging_row sha p pol g' l run stage c"
    if res: "cg_reserve (durable_gate sha p pol) run stage c n clk g = (Granted l, g')"
  proof -
    let ?rid = "call_reservation_id sha (pr_id p) run stage (cf_name c) n"
    obtain q r where q: "mk_call_request ?rid pol (pr_id p) (pr_tenant p) run (action_value PROVIDER_INVOKE)
          (cf_name c) (cf_model c) 1 = Inr q"
        and r: "reserve_call q None clk g = (Inr r, g')" "ca_allowed r" "ca_code r \<noteq> C_REPLAY" and l: "l = ?rid"
      using res by (auto simp: durable_gate_def durable_reserve_def gate_verdict_def Let_def
          split: sum.splits prod.splits if_splits)
    have "cq_reservation q = l" "cq_principal q = pr_id p" "cq_policy q = pol" "cq_run q = run"
        "cq_provider q = cf_name c" "cq_model q = cf_model c" "cq_units q = 1"
      using q by (auto simp: mk_call_request_def result_simps l)
    with reserve_new_row [OF r] show ?thesis by (auto simp: charging_row_def new_call_row_def l)
  qed
  show "find_call (snd (cg_reserve (durable_gate sha p pol) run stage c n clk g)) l \<noteq> None"
    if "find_call g l \<noteq> None"
    using durable_reserve_snd [of sha p pol run stage c n clk g] reserve_finds that by fastforce
  show "charging_row sha p pol (snd (cg_reserve (durable_gate sha p pol) run stage c n clk g)) l r s d"
    if "charging_row sha p pol g l r s d"
    using durable_reserve_snd [of sha p pol run stage c n clk g] reserve_finds
    by (intro charging_kept [OF that]) fastforce
  show "find_call (snd (cg_reconcile (durable_gate sha p pol) k a clk g)) l \<noteq> None"
    if "find_call g l \<noteq> None"
    using reconcile_finds that unfolding durable_reconcile_snd by fastforce
  show "charging_row sha p pol (snd (cg_reconcile (durable_gate sha p pol) k a clk g)) l r s c"
    if "charging_row sha p pol g l r s c"
    using reconcile_finds unfolding durable_reconcile_snd by (intro charging_kept [OF that]) blast
  show "find_call (snd (cg_release (durable_gate sha p pol) k g)) l \<noteq> None"
    if old: "find_call g l \<noteq> None"
  proof -
    obtain row where "find_call g l = Some row" using old by blast
    from release_finds [OF this, of k "pr_id p"] show ?thesis unfolding durable_release_snd by auto
  qed
  show "charging_row sha p pol (snd (cg_release (durable_gate sha p pol) k g)) l r s c"
    if "charging_row sha p pol g l r s c" "l \<noteq> k"
    using release_finds that(2) unfolding durable_release_snd by (intro charging_kept [OF that(1)]) blast
qed

end
