(* ===== verification/Engine_Properties.thy ===== *)
theory Engine_Properties imports Engine_Progress Service_Gate Council_Properties begin

text \<open>The properties of a stage of the council engine, for every schedule of its calls.\<close>

lemma reachable_world:
  "wd_store w = council_run en empty_council_db before \<Longrightarrow> council_good (wd_store w)"
  using council_reachable_good by metis

lemma slot_at_of:
  assumes good: "council_good db" and r: "r \<in> set (cd_slots db)"
  shows "slot_at db (iv_run r) (iv_stage r) (iv_provider r) = Some r"
proof -
  have "row_where (\<lambda>x. slot_place x = slot_place r) (cd_slots db) = Some r"
    using good r by (intro row_where_unique) (simp_all add: council_good_def slots_ok_def)
  then show ?thesis by (simp add: slot_at_def slot_place_def)
qed

lemma on_record_at:
  assumes "council_good db" and "on_record db (run, stage, name)"
  shows "\<exists>row. slot_at db run stage name = Some row"
proof -
  obtain r where "r \<in> set (cd_slots db)" "slot_place r = (run, stage, name)"
    using assms by (auto simp: on_record_row)
  with slot_at_of [OF assms(1), of r] show ?thesis by (auto simp: slot_place_def)
qed

section \<open>An example\<close>

definition example_provider :: provider_config where
  "example_provider = \<lparr>cf_name = ''p'', cf_model = ''m'', cf_lineage = ''l'', cf_secret = ''s'',
     cf_endpoint = ''e'', cf_max_output = 10, cf_timeout = 5, cf_attempts = 1, cf_enabled = True,
     cf_stage_output = [], cf_stage_timeout = [], cf_extra = []\<rparr>"

definition example_engine :: "'g gate_protocol option \<Rightarrow> 'g engine" where
  "example_engine gate = \<lparr>eg_env = example_env, eg_providers = [(''p'', example_provider)],
     eg_policy = default_policy\<lparr>rp_max_calls := 3, rp_max_parallel := 1\<rparr>, eg_synthesis = [''p''],
     eg_gate = gate\<rparr>"

definition example_args :: stage_args where
  "example_args = \<lparr>sa_run = ''u1'', sa_stage = ''s'', sa_provider_stage = ''s'',
     sa_retry_failed = True, sa_allow_recovery = True, sa_overrides = [], sa_preserve = False\<rparr>"

definition example_tick :: "rat \<Rightarrow> string \<Rightarrow> tick" where
  "example_tick left n = \<lparr>tk_name = n, tk_now = 3, tk_clock = \<lparr>dt_wall = 3, dt_offset = Some 0\<rparr>,
     tk_uuid = ''i1'', tk_remaining = left, tk_reply = Answers (Proper example_response)\<rparr>"

definition example_inputs :: "rat \<Rightarrow> string list \<Rightarrow> pass_inputs" where
  "example_inputs left order =
     \<lparr>pi_late = False, pi_now = 3, pi_ticks = map (example_tick left) order\<rparr>"

definition example_world :: "'g \<Rightarrow> 'g world" where
  "example_world g = \<lparr>wd_store = council_run example_env empty_council_db [example_create],
     wd_gate = g, wd_calls = []\<rparr>"

definition example_work :: work where
  "example_work = [(''p'', ''a'', ''b'')]"

text \<open>The stage up to the moment the provider has been called, when the process dies.\<close>

definition crashed_stage :: "(stage_acc option result) \<times> unit world" where
  "crashed_stage = run_parallel_stage (example_engine None) example_args example_work
     (example_inputs 9 [''p'', ''p'', ''p'']) (example_inputs 9 []) 3 (example_world ())"

lemma crashed_calls: "map dp_provider (wd_calls (snd crashed_stage)) = [''p'']"
  by code_simp

lemma example_wf: "wf_dict (eg_providers (example_engine gate))" "wf_dict example_work"
  by (simp_all add: wf_dict_def example_engine_def example_work_def)

lemma example_store:
  "wd_store (example_world g) = council_run (eg_env (example_engine h)) empty_council_db [example_create]"
  by (simp add: example_world_def example_engine_def)

section \<open>The call budget\<close>

text \<open>C7: The call budget of a run is never overspent.  However the calls of a stage interleave, fail,
  get refused, time out or are cut off by an exception or a crash, the calls on record for the run
  afterwards are at most the configured maximum (unless they were more before); and as long as no
  synthesis answer exists, a stage before the synthesis leaves one call for every synthesis attempt,
  and a proposal stage one more for every juror.\<close>

theorem stage_within_budget:
  assumes reach: "wd_store w = council_run (eg_env eg) empty_council_db before"
    and "wf_dict (eg_providers eg)" and "wf_dict prompts"
    and "run_parallel_stage eg args prompts first second now w = (r, w')"
  shows "count_calls (wd_store w') (sa_run args)
      \<le> max (count_calls (wd_store w) (sa_run args)) (rp_max_calls (eg_policy eg))
    \<and> (sa_stage args \<noteq> ''synthesis'' \<longrightarrow>
       \<not> synthesis_result_exists (wd_store w') (sa_run args) (eg_synthesis eg) \<longrightarrow>
       count_calls (wd_store w') (sa_run args)
         \<le> max (count_calls (wd_store w) (sa_run args))
             (rp_max_calls (eg_policy eg) - int (length (eg_synthesis eg))
              - (if sa_stage args = ''proposal'' then int (length (eg_providers eg)) else 0)))"
proof -
  have "count_calls (wd_store w') (sa_run args)
      \<le> max (count_calls (wd_store w) (sa_run args)) (stage_bound eg args (wd_store w'))"
    using stage_world(1) [OF reachable_world [OF reach] assms(2-4)] by (simp add: world_ok_def)
  then show ?thesis by (auto simp: stage_bound_def split: if_splits)
qed

theorem stage_within_budget_witness:
  "count_calls (wd_store (snd crashed_stage)) ''u1'' \<le> max (count_calls (wd_store (example_world ())) ''u1'') 3"
proof -
  have r: "run_parallel_stage (example_engine None) example_args example_work
      (example_inputs 9 [''p'', ''p'', ''p'']) (example_inputs 9 []) 3 (example_world ())
    = (fst crashed_stage, snd crashed_stage)" by (simp add: crashed_stage_def)
  from stage_within_budget [OF example_store example_wf r] show ?thesis
    by (simp add: example_args_def example_engine_def)
qed

section \<open>Who is called\<close>

text \<open>C5: A stage calls a provider only when that is safe, and never unrecorded.  The calls that reach
  providers are those of a first pass and of a recovery pass, at most one per provider in each; every
  one belongs to this stage and to a provider asked for, without an answer on record for the stage and
  without any running or ambiguous call in the whole run; and every one is on record in the store
  afterwards, even when the stage ends in an exception or breaks off anywhere.\<close>

theorem stage_calls_are_safe:
  assumes reach: "wd_store w = council_run (eg_env eg) empty_council_db before"
    and "wf_dict (eg_providers eg)" and "wf_dict prompts"
    and "run_parallel_stage eg args prompts first second now w = (r, w')"
  shows "\<exists>once again. wd_calls w' = wd_calls w @ once @ again
    \<and> distinct (map dp_provider once) \<and> distinct (map dp_provider again)
    \<and> (\<forall>d\<in>set (once @ again). dp_stage d = sa_stage args \<and> dp_provider d \<in> fst ` set prompts
        \<and> get_successful_invocation (wd_store w) (sa_run args) (sa_stage args) (dp_provider d) = None
        \<and> \<not> ambiguous_provider (list_invocations (wd_store w) (sa_run args)) (dp_provider d)
        \<and> slot_at (wd_store w') (sa_run args) (sa_stage args) (dp_provider d) \<noteq> None)"
proof -
  note good = reachable_world [OF reach]
  have "store_moves (eg_env eg) w w'"
    using stage_world(1) [OF good assms(2-4)] by (simp add: world_ok_def)
  then have good': "council_good (wd_store w')" by (rule store_moves_good [OF _ good])
  obtain once again where calls: "wd_calls w' = wd_calls w @ once @ again"
      "pass_calls args (runnable eg args prompts (wd_store w)) (wd_store w') once"
      "pass_calls args (runnable eg args prompts (wd_store w)) (wd_store w') again"
    using stage_world(2) [OF good assms(2-4)] by blast
  then show ?thesis
    by (intro exI [of _ once] exI [of _ again])
      (auto simp: pass_calls_def runnable_def clear_to_run_def stage_place_def
        dest: on_record_at [OF good'])
qed

theorem stage_calls_are_safe_witness:
  "\<exists>once again. wd_calls (snd crashed_stage) = once @ again
    \<and> (\<forall>d\<in>set (once @ again). slot_at (wd_store (snd crashed_stage)) ''u1'' ''s'' (dp_provider d) \<noteq> None)"
proof -
  have r: "run_parallel_stage (example_engine None) example_args example_work
      (example_inputs 9 [''p'', ''p'', ''p'']) (example_inputs 9 []) 3 (example_world ())
    = (fst crashed_stage, snd crashed_stage)" by (simp add: crashed_stage_def)
  from stage_calls_are_safe [OF example_store example_wf r] show ?thesis
    by (force simp: example_args_def example_world_def)
qed

section \<open>Every provider has a verdict\<close>

text \<open>C9: A stage loses nobody.  When it returns, the providers it was given are counted once each: the
  answers and the failures are together as many as the prompts, recovered and truncated ones included;
  and every answer it reports is the one in the store: the provider has a succeeded invocation for this
  run and stage, and the response read back from it is the reported one, with the same content (only
  the order of keys inside its usage counts and metadata is the store's).\<close>

theorem stage_accounts_for_all:
  assumes reach: "wd_store w = council_run (eg_env eg) empty_council_db before"
    and "wf_dict (eg_providers eg)" and "wf_dict prompts"
    and "run_parallel_stage eg args prompts first second now w = (Inr (Some acc), w')"
  shows "length (sg_successes acc) + length (sg_failures acc) = length prompts
    \<and> (\<forall>name r. dict_get (sg_successes acc) name = Some r \<longrightarrow>
         (\<exists>row stored. get_successful_invocation (wd_store w') (sa_run args) (sa_stage args) name = Some row
            \<and> response_from_record row = Inr stored \<and> rs_content stored = rs_content r \<and> same_answer stored r))"
proof -
  have "length (sg_successes acc) + length (sg_failures acc) = length prompts"
      and "answered args (wd_store w') acc"
    using stage_result [OF reachable_world [OF reach] assms(2-4)] by simp_all
  then show ?thesis
    unfolding answered_def holds_answer_def using same_answer_content by blast
qed

text \<open>The provider has answered in an earlier, interrupted run of the stage.\<close>

definition answered_ops :: "council_op list" where
  "answered_ops = [example_create, example_start, SlotSuccess ''i1'' (example_response\<lparr>rs_finish := Some ''stop''\<rparr>) 3]"

definition answered_world :: "unit world" where
  "answered_world = \<lparr>wd_store = council_run example_env empty_council_db answered_ops, wd_gate = (), wd_calls = []\<rparr>"

definition answered_stage :: "(stage_acc option result) \<times> unit world" where
  "answered_stage = run_parallel_stage (example_engine None) example_args example_work
     (example_inputs 9 []) (example_inputs 9 []) 3 answered_world"

theorem stage_accounts_for_all_witness:
  "\<exists>acc. fst answered_stage = Inr (Some acc) \<and> length (sg_successes acc) + length (sg_failures acc) = 1
    \<and> (\<exists>row stored. get_successful_invocation (wd_store (snd answered_stage)) ''u1'' ''s'' ''p'' = Some row
         \<and> response_from_record row = Inr stored \<and> rs_content stored = ''a'')"
proof -
  have "(case fst answered_stage of Inr (Some acc) \<Rightarrow>
      (case dict_get (sg_successes acc) ''p'' of None \<Rightarrow> False | Some r \<Rightarrow> rs_content r = ''a'') | _ \<Rightarrow> False)"
    by code_simp
  then obtain acc r where acc: "fst answered_stage = Inr (Some acc)"
      and r: "dict_get (sg_successes acc) ''p'' = Some r" "rs_content r = ''a''"
    by (auto split: sum.splits option.splits)
  have stage: "run_parallel_stage (example_engine None) example_args example_work
      (example_inputs 9 []) (example_inputs 9 []) 3 answered_world = (Inr (Some acc), snd answered_stage)"
    using acc by (metis answered_stage_def prod.collapse)
  have reach: "wd_store answered_world = council_run (eg_env (example_engine None)) empty_council_db answered_ops"
    by (simp add: answered_world_def example_engine_def)
  note all = stage_accounts_for_all [OF reach example_wf stage]
  have args: "sa_run example_args = ''u1''" "sa_stage example_args = ''s''" by (simp_all add: example_args_def)
  from conjunct2 [OF all, rule_format, OF r(1)] obtain row stored where
      "get_successful_invocation (wd_store (snd answered_stage)) ''u1'' ''s'' ''p'' = Some row"
      "response_from_record row = Inr stored" "rs_content stored = rs_content r"
    unfolding args by blast
  moreover have "length (sg_successes acc) + length (sg_failures acc) = 1"
    using conjunct1 [OF all] by (simp add: example_work_def)
  ultimately show ?thesis using acc r(2) by (intro exI [of _ acc] conjI exI [of _ row] exI [of _ stored]) simp_all
qed

section \<open>The pool\<close>

text \<open>C11: The pool never runs more calls at once than it has workers: in every state that any schedule of a
  stage's calls can reach, at most \<open>max_parallel\<close> calls are between their start and their return.\<close>

theorem pool_within_width:
  assumes "distinct (map fst limits)"
  shows "int (busy_calls (ps_phases (run_pool eg args cx ticks (start_pool limits err acc w))))
    \<le> max 0 (rp_max_parallel (eg_policy eg))"
proof -
  have "narrow (rp_max_parallel (eg_policy eg)) (run_pool eg args cx ticks (start_pool limits err acc w))"
    unfolding run_pool_def by (rule pool_width.run_good [OF start_pool_narrow [OF assms]])
  then show ?thesis by (simp add: narrow_def)
qed

theorem pool_within_width_witness:
  "int (busy_calls (ps_phases (run_pool (example_engine None) example_args
     \<lparr>cx_snapshot = [], cx_events = [], cx_work = example_work, cx_limits = [(''p'', 10), (''q'', 10)]\<rparr>
     (map (example_tick 9) [''p'', ''q'', ''p'', ''q''])
     (start_pool [(''p'', 10), (''q'', 10)] None empty_acc (example_world ()))))) \<le> 1"
  using pool_within_width [of "[(''p'', 10), (''q'', 10)]" "example_engine None" example_args
      "\<lparr>cx_snapshot = [], cx_events = [], cx_work = example_work, cx_limits = [(''p'', 10), (''q'', 10)]\<rparr>"
      "map (example_tick 9) [''p'', ''q'', ''p'', ''q'']" None empty_acc "example_world ()"]
  by (simp add: example_engine_def)

text \<open>C10: The calls of a stage always come to an end.  As long as the pool has a worker, whatever the
  clocks show, the gate answers and the providers do, there is an order of at most four moves per
  call after which every call has come back and the stage goes on with a result or an exception.\<close>

theorem stage_calls_terminate:
  assumes workers: "1 \<le> rp_max_parallel (eg_policy eg)" and "distinct allowed"
    and mk: "\<And>n. tk_name (mk n) = n"
  shows "\<exists>order. length order \<le> 4 * length allowed
    \<and> fst (run_calls eg args snapshot events work allowed (map mk order) acc w) \<noteq> Inr None"
proof -
  obtain limits err where s: "submit (first_limit eg args snapshot) allowed = (limits, err)"
    by fastforce
  let ?cx = "\<lparr>cx_snapshot = snapshot, cx_events = events, cx_work = work, cx_limits = limits\<rparr>"
  obtain k where k: "map fst limits = take k allowed" using submit_names [OF s] by blast
  then have "distinct (map fst limits)" using assms(2) by (metis distinct_take)
  then have "wf_dict (ps_phases (start_pool limits err acc w))" by (simp add: wf_dict_def comp_def)
  from pool_can_finish [OF workers mk this, of args ?cx] obtain order where
      order: "length order \<le> pool_rank (start_pool limits err acc w)"
      "pool_done (run_pool eg args ?cx (map mk order) (start_pool limits err acc w))"
    by blast
  have "length limits \<le> length allowed" using k by (metis length_map length_take min.cobounded1)
  with order(1) have "length order \<le> 4 * length allowed" by (simp add: start_pool_rank)
  moreover have "fst (run_calls eg args snapshot events work allowed (map mk order) acc w) \<noteq> Inr None"
    using s order(2) by (simp add: run_calls_def Let_def split: option.split)
  ultimately show ?thesis by blast
qed

theorem stage_calls_terminate_witness:
  "\<exists>order. length order \<le> 8
    \<and> fst (run_calls (example_engine None) example_args [] [] example_work [''p'', ''q'']
        (map (example_tick 9) order) empty_acc (example_world ())) \<noteq> Inr None"
  using stage_calls_terminate [of "example_engine None" "[''p'', ''q'']" "example_tick 9" example_args
      "[]" "[]" example_work empty_acc "example_world ()"]
  by (simp add: example_engine_def example_tick_def)

section \<open>With the service store as the gate\<close>

text \<open>C8: Under the service, no provider is called without a charge of its own.  When the engine's gate is
  the durable gate of a principal, every call that reaches a provider in a stage has a reservation of
  its own in the service store afterwards: made during the stage, under the identifier that the gate
  derives from the principal, the run, the stage, the provider and an attempt, for the principal's
  policy, for one unit and for this provider and model, and reserved or settled but not released; for
  every schedule and even when the stage breaks off.\<close>

theorem stage_calls_are_reserved:
  assumes "eg_gate eg = Some (durable_gate sha p pol)"
    and "run_parallel_stage eg args prompts first second now w = (r, w')"
  shows "\<exists>new ids. wd_calls w' = wd_calls w @ new \<and> distinct ids
    \<and> (\<forall>rid\<in>set ids. find_call (wd_gate w) rid = None)
    \<and> list_all2 (\<lambda>d rid. \<exists>c. provider_of eg (dp_provider d) = Inr c
         \<and> charging_row sha p pol (wd_gate w') rid (sa_run args) (dp_stage d) c) new ids"
proof -
  have "durable.paid sha p pol eg (sa_run args) w w'"
    using durable.paid_stage [OF assms(1), of args prompts first second now] assms(2)
    unfolding keeps_def by (metis snd_conv)
  then show ?thesis
    unfolding durable.paid_def durable.charged_def durable.entry_def by blast
qed

definition gate_principal :: principal where
  "gate_principal = \<lparr>pr_id = ''a'', pr_tenant = PERSONAL, pr_kind = AGENT, pr_enabled = True\<rparr>"

definition gate_db :: service_db where
  "gate_db = \<lparr>db_principals = [gate_principal], db_tokens = [], db_tombstones = [],
     db_policies = [\<lparr>sv_id = ''pol'', sv_principal = ''a'', sv_tenant = PERSONAL,
       sv_actions = {''provider:invoke''}, sv_providers = {''p''}, sv_models = {''m''}, sv_inflight = 2,
       sv_daily = 5, sv_monthly = 9, sv_issued = 0, sv_expires = 10, sv_revoked = None\<rparr>],
     db_bindings = [\<lparr>rb_run = ''u1'', rb_principal = ''a'', rb_key = ''k'', rb_payload = ''h'',
       rb_created = 1\<rparr>], db_calls = []\<rparr>"

definition gated_engine :: "service_db engine" where
  "gated_engine = example_engine (Some (durable_gate (\<lambda>s. ''h'') gate_principal ''pol''))"

definition gated_stage :: "(stage_acc option result) \<times> service_db world" where
  "gated_stage = run_parallel_stage gated_engine example_args example_work
     (example_inputs 9 [''p'', ''p'', ''p'']) (example_inputs 9 []) 3 (example_world gate_db)"

theorem stage_calls_are_reserved_witness:
  "map dp_provider (wd_calls (snd gated_stage)) = [''p'']
    \<and> (\<exists>rid row. find_call gate_db rid = None \<and> find_call (wd_gate (snd gated_stage)) rid = Some row
         \<and> cr_state row \<noteq> CS_Released \<and> cr_run row = ''u1'' \<and> cr_provider row = ''p'')"
proof
  show called: "map dp_provider (wd_calls (snd gated_stage)) = [''p'']" by code_simp
  have g: "eg_gate gated_engine = Some (durable_gate (\<lambda>s. ''h'') gate_principal ''pol'')"
    by (simp add: gated_engine_def example_engine_def)
  have r: "run_parallel_stage gated_engine example_args example_work
      (example_inputs 9 [''p'', ''p'', ''p'']) (example_inputs 9 []) 3 (example_world gate_db)
    = (fst gated_stage, snd gated_stage)" by (simp add: gated_stage_def)
  obtain new ids where new: "wd_calls (snd gated_stage) = wd_calls (example_world gate_db) @ new"
      and fresh: "\<forall>rid\<in>set ids. find_call (wd_gate (example_world gate_db)) rid = None"
      and paid: "list_all2 (\<lambda>d rid. \<exists>c. provider_of gated_engine (dp_provider d) = Inr c
         \<and> charging_row (\<lambda>s. ''h'') gate_principal ''pol'' (wd_gate (snd gated_stage)) rid
             (sa_run example_args) (dp_stage d) c) new ids"
    using stage_calls_are_reserved [OF g r] by blast
  obtain d where d: "new = [d]" "dp_provider d = ''p''"
    using new called by (auto simp: example_world_def)
  then obtain rid where "ids = [rid]" and "\<exists>c. provider_of gated_engine ''p'' = Inr c
      \<and> charging_row (\<lambda>s. ''h'') gate_principal ''pol'' (wd_gate (snd gated_stage)) rid ''u1'' (dp_stage d) c"
    using paid by (auto simp: list_all2_Cons1 example_args_def)
  with fresh show "\<exists>rid row. find_call gate_db rid = None \<and> find_call (wd_gate (snd gated_stage)) rid = Some row
         \<and> cr_state row \<noteq> CS_Released \<and> cr_run row = ''u1'' \<and> cr_provider row = ''p''"
    by (auto simp: charging_row_def example_world_def provider_of_def gated_engine_def example_engine_def
        example_provider_def)
qed

end
