(* ===== verification/Json_Text.thy ===== *)
theory Json_Text imports Json_Value begin

text \<open>
  \<open>json.dumps\<close> with \<open>ensure_ascii=False\<close>, as the program calls it: the compact text that is hashed and
  compared, and the indented text that goes into prompts.  How a float is written is the argument
  \<open>fl\<close>.
\<close>

section \<open>Strings\<close>

definition quote :: string where
  "quote = [char_of (34 :: nat)]"

definition hex_digit :: "nat \<Rightarrow> char" where
  "hex_digit d = (if d < 10 then char_of (48 + d) else char_of (87 + d))"

text \<open>The short escapes, \<open>\u00XX\<close> for other control characters, and everything else as it is.\<close>

definition json_escape :: "char \<Rightarrow> string" where
  "json_escape c = (let n = (of_char c :: nat); slash = char_of (92 :: nat) in
     if n = 34 \<or> n = 92 then [slash, c]
     else if n = 8 then [slash, CHR ''b'']
     else if n = 9 then [slash, CHR ''t'']
     else if n = 10 then [slash, CHR ''n'']
     else if n = 12 then [slash, CHR ''f'']
     else if n = 13 then [slash, CHR ''r'']
     else if n < 32 then [slash, CHR ''u'', CHR ''0'', CHR ''0'', hex_digit (n div 16), hex_digit (n mod 16)]
     else [c])"

definition json_string :: "string \<Rightarrow> string" where
  "json_string s = quote @ concat (map json_escape s) @ quote"

lemma length_json_escape [simp]: "length (json_escape c) = json_char_width c"
  by (simp add: json_escape_def json_char_width_def Let_def)

lemma length_json_string: "length (json_string s) = serialized_string_chars s + 2"
  by (simp add: json_string_def quote_def serialized_string_chars_def length_concat comp_def)

section \<open>Values\<close>

text \<open>\<open>json.dumps(value, separators=(",", ":"))\<close>; keys are sorted by sorting the value with \<open>canon\<close> first.\<close>

fun json_compact :: "(rat \<Rightarrow> string) \<Rightarrow> json \<Rightarrow> string" where
  "json_compact fl JNull = ''null''"
| "json_compact fl (JBool b) = (if b then ''true'' else ''false'')"
| "json_compact fl (JInt n) = int_text n"
| "json_compact fl (JFloat q) = fl q"
| "json_compact fl (JStr s) = json_string s"
| "json_compact fl (JList xs) = ''['' @ join_text '','' (map (json_compact fl) xs) @ '']''"
| "json_compact fl (JObj m) =
     ''{'' @ join_text '','' (map (\<lambda>p. json_string (fst p) @ '':'' @ json_compact fl (snd p)) m) @ ''}''"

text \<open>The line break before an item that is \<open>k\<close> levels deep.\<close>

definition json_break :: "nat \<Rightarrow> string" where
  "json_break k = newline @ replicate (2 * k) (CHR '' '')"

text \<open>\<open>_payload\<close>: \<open>json.dumps(value, indent=2, separators=(",", ": "))\<close>, \<open>k\<close> levels deep.\<close>

fun json_indented :: "(rat \<Rightarrow> string) \<Rightarrow> nat \<Rightarrow> json \<Rightarrow> string" where
  "json_indented fl k JNull = ''null''"
| "json_indented fl k (JBool b) = (if b then ''true'' else ''false'')"
| "json_indented fl k (JInt n) = int_text n"
| "json_indented fl k (JFloat q) = fl q"
| "json_indented fl k (JStr s) = json_string s"
| "json_indented fl k (JList xs) =
     (if xs = [] then ''[]''
      else ''['' @ json_break (Suc k)
        @ join_text ('','' @ json_break (Suc k)) (map (json_indented fl (Suc k)) xs)
        @ json_break k @ '']'')"
| "json_indented fl k (JObj m) =
     (if m = [] then ''{}''
      else ''{'' @ json_break (Suc k)
        @ join_text ('','' @ json_break (Suc k))
            (map (\<lambda>p. json_string (fst p) @ '': '' @ json_indented fl (Suc k) (snd p)) m)
        @ json_break k @ ''}'')"

definition payload_text :: "(rat \<Rightarrow> string) \<Rightarrow> json \<Rightarrow> string" where
  "payload_text fl v = json_indented fl 0 v"

lemma length_join_text:
  "length (join_text sep xs) = sum_list (map length xs) + length sep * (length xs - 1)"
proof (induction sep xs rule: join_text.induct)
  case (3 sep x y xs)
  then show ?case by (simp add: algebra_simps)
qed simp_all

lemma length_json_break [simp]: "length (json_break k) = Suc (2 * k)"
  by (simp add: json_break_def newline_def)

end
