(* ===== verification/Protocol_Prompts.thy ===== *)
theory Protocol_Prompts imports Prompt_Texts begin

text \<open>
  The prompt builders of \<open>protocol.py\<close>.  Every piece of untrusted text goes into a JSON payload
  between two delimiters that carry a random marker; a builder refuses a marker that occurs in its
  payload.  A fresh marker, used when the caller gives none, is the argument \<open>fresh\<close>.
\<close>

section \<open>Markers\<close>

definition marker_char :: "char \<Rightarrow> bool" where
  "marker_char c \<longleftrightarrow> (let n = (of_char c :: nat) in (48 \<le> n \<and> n \<le> 57) \<or> (97 \<le> n \<and> n \<le> 102))"

text \<open>\<open>_MARKER_RE.match\<close>; the dollar sign of the pattern also matches before a final line break.\<close>

definition marker_ok :: "string \<Rightarrow> bool" where
  "marker_ok m \<longleftrightarrow>
     (let h = (if m \<noteq> [] \<and> [last m] = newline then butlast m else m) in
      16 \<le> length h \<and> length h \<le> 64 \<and> list_all marker_char h)"

text \<open>\<open>pattern in text\<close>.\<close>

fun occurs_in :: "string \<Rightarrow> string \<Rightarrow> bool" where
  "occurs_in pat [] = (pat = [])"
| "occurs_in pat (c # cs) = (take (length pat) (c # cs) = pat \<or> occurs_in pat cs)"

definition checked_marker :: "string option \<Rightarrow> string \<Rightarrow> string list \<Rightarrow> string result" where
  "checked_marker marker fresh payloads =
     (let m = (case marker of None \<Rightarrow> fresh | Some m \<Rightarrow> m) in
      require (marker_ok m) (ValueError ''untrusted marker must be 16-64 lowercase hex chars'')
     (require (\<not> list_ex (occurs_in m) payloads)
        (ValueError ''untrusted marker collides with untrusted data'')
        (Inr m)))"

section \<open>Proposals and judgments\<close>

definition question_ok :: "string \<Rightarrow> 'a result \<Rightarrow> 'a result" where
  "question_ok question k =
     require (nonblank question) (ValueError ''question must be a non-empty string'') k"

definition proposal_prompts ::
  "(rat \<Rightarrow> string) \<Rightarrow> string \<Rightarrow> string option \<Rightarrow> string \<Rightarrow> (string \<times> string) result" where
  "proposal_prompts fl question marker fresh =
     question_ok question
     (let body = payload_text fl (JObj [(''question'', JStr question)]) in
      rbind (checked_marker marker fresh [body]) (\<lambda>m. Inr (proposal_system_text, proposal_user body m)))"

text \<open>The labels of the candidates, once the candidates are known to be complete.\<close>

definition candidates_ok :: "(string \<times> json) list \<Rightarrow> string list result" where
  "candidates_ok candidates =
     rbind (validated_labels (map fst candidates)) (\<lambda>labels.
       require (list_all (\<lambda>c. snd c \<noteq> JNull) candidates)
         (ValueError ''candidate artifacts must not be null'') (Inr labels))"

definition jury_prompts ::
  "(rat \<Rightarrow> string) \<Rightarrow> string \<Rightarrow> (string \<times> json) list \<Rightarrow> string option \<Rightarrow> string \<Rightarrow>
   (string \<times> string) result" where
  "jury_prompts fl question candidates marker fresh =
     question_ok question
     (rbind (candidates_ok candidates) (\<lambda>labels.
      let body = payload_text fl
            (JObj [(''question'', JStr question), (''candidates'', JObj candidates)]) in
      rbind (checked_marker marker fresh [body]) (\<lambda>m.
        Inr (jury_system_text, jury_user (payload_text fl (JList (map JStr labels))) body m))))"

text \<open>The four fields of a judgment that a repair must keep.\<close>

definition decision_json :: "jury_decision \<Rightarrow> json" where
  "decision_json d = JObj
     [(''winner'', case jd_winner d of None \<Rightarrow> JNull | Some w \<Rightarrow> JStr w),
      (''ranking'', JList (map JStr (jd_ranking d))), (''confidence'', JStr (jd_confidence d)),
      (''abstain'', JBool (jd_abstain d))]"

definition jury_repair_prompts ::
  "(rat \<Rightarrow> string) \<Rightarrow> (string \<Rightarrow> string \<Rightarrow> (string \<times> json) list result) \<Rightarrow> string \<Rightarrow> string \<Rightarrow>
   string list \<Rightarrow> string option \<Rightarrow> string \<Rightarrow> (string \<times> string \<times> jury_decision) result" where
  "jury_repair_prompts fl extract response error candidate_labels marker fresh =
     rbind (validated_labels candidate_labels) (\<lambda>labels.
     require (nonblank response) (ValueError ''jury response for repair must be non-empty text'')
    (let clean = py_strip response; message = py_strip error in
     require (length clean \<le> 6000)
       (ValueError ''jury response for repair must be at most 6000 characters'')
    (require (nonblank error) (ValueError ''jury validation error must be non-empty text'')
    (require (length message \<le> 500)
       (ValueError ''jury validation error must be at most 500 characters'')
    (rbind (extract ''jury response for repair'' clean) (\<lambda>value.
     rbind (check_keys jury_keys value) (\<lambda>_.
     rbind (validate_jury_decision value labels) (\<lambda>decision.
       let body = payload_text fl (JObj
             [(''allowed_candidate_labels'', JList (map JStr labels)),
              (''immutable_decision'', decision_json decision),
              (''validation_error'', JStr message), (''original_response'', JStr clean)]) in
       rbind (checked_marker marker fresh [body]) (\<lambda>m.
         Inr (jury_repair_system_text, jury_repair_user body m, decision)))))))))) "

section \<open>Synthesis\<close>

definition vote_keys :: "string list" where
  "vote_keys = [''winner'', ''ranking'', ''confidence'', ''abstain'']"

definition compact_votes :: "json \<Rightarrow> json list" where
  "compact_votes juries = concat (map (\<lambda>entry. case entry of
       JObj m \<Rightarrow> [JObj (map (\<lambda>k. (k, get_or_null m k)) vote_keys)] | _ \<Rightarrow> []) (jury_entries juries))"

definition synthesis_prompts ::
  "(rat \<Rightarrow> string) \<Rightarrow> string \<Rightarrow> (string \<times> json) list \<Rightarrow> (string \<times> json) list \<Rightarrow> json \<Rightarrow>
   string option \<Rightarrow> string \<Rightarrow> (string \<times> string) result" where
  "synthesis_prompts fl question candidates aggregate juries marker fresh =
     question_ok question
     (rbind (candidates_ok candidates) (\<lambda>_.
      let body = payload_text fl (JObj
            [(''question'', JStr question), (''candidates'', JObj candidates),
             (''aggregate'', JObj aggregate), (''jury_votes'', JList (compact_votes juries))]) in
      rbind (checked_marker marker fresh [body]) (\<lambda>m.
        Inr (synthesis_system_text, synthesis_user body m))))"

end
