(* ===== verification/Prompt_Laws.thy ===== *)
theory Prompt_Laws imports Protocol_Prompts begin

text \<open>
  Occurrences of a marker in a prompt.  A marker consists of hexadecimal digits only, so no
  occurrence crosses a character of another kind: a prompt falls apart at its line breaks, quotes
  and underscores, and only the pieces have to be searched.
\<close>

fun count_in :: "string \<Rightarrow> string \<Rightarrow> nat" where
  "count_in pat [] = (if pat = [] then 1 else 0)"
| "count_in pat (c # cs) = (if take (length pat) (c # cs) = pat then 1 else 0) + count_in pat cs"

lemma occurs_in_iff: "occurs_in pat s \<longleftrightarrow> (\<exists>a b. s = a @ pat @ b)"
proof (induction pat s rule: occurs_in.induct)
  case (2 pat c cs)
  have "take (length pat) (c # cs) = pat \<longleftrightarrow> (\<exists>b. c # cs = pat @ b)"
    by (metis append_take_drop_id append_eq_conv_conj)
  moreover have "(\<exists>a b. c # cs = a @ pat @ b) \<longleftrightarrow> (\<exists>b. c # cs = pat @ b) \<or> (\<exists>a b. cs = a @ pat @ b)"
    by (auto simp: Cons_eq_append_conv)
  ultimately show ?case using 2 by simp
qed simp

lemma occurs_in_part: "occurs_in pat s \<Longrightarrow> occurs_in pat (a @ s @ b)"
proof -
  assume "occurs_in pat s"
  then obtain x y where "s = x @ pat @ y" by (auto simp: occurs_in_iff)
  then have "a @ s @ b = (a @ x) @ pat @ (y @ b)" by simp
  then show ?thesis unfolding occurs_in_iff by blast
qed

lemma count_in_zero: "count_in pat s = 0 \<longleftrightarrow> \<not> occurs_in pat s"
  by (induction pat s rule: occurs_in.induct) auto

lemma take_match_sep:
  assumes "c \<notin> set pat"
  shows "take (length pat) (xs @ c # ys) = pat \<longleftrightarrow> take (length pat) xs = pat"
proof (cases "length pat \<le> length xs")
  case True
  then show ?thesis by simp
next
  case False
  then obtain k where k: "length pat - length xs = Suc k" by (metis Suc_diff_Suc not_le)
  then have "c \<in> set (take (length pat) (xs @ c # ys))" by simp
  moreover have "length (take (length pat) xs) < length pat" using False by simp
  ultimately show ?thesis using assms by (metis nat_neq_iff)
qed

lemma count_in_sep:
  assumes "c \<notin> set pat" and "pat \<noteq> []"
  shows "count_in pat (xs @ c # ys) = count_in pat xs + count_in pat ys"
proof (induction xs)
  case Nil
  have "take (length pat) (c # ys) \<noteq> pat"
    using assms by (cases pat) auto
  then show ?case using assms(2) by simp
next
  case (Cons x xs)
  have "take (length pat) ((x # xs) @ c # ys) = pat \<longleftrightarrow> take (length pat) (x # xs) = pat"
    by (rule take_match_sep [OF assms(1)])
  then show ?case using Cons by simp
qed

lemma count_in_short: "length s < length pat \<Longrightarrow> count_in pat s = 0"
  by (induction s) (auto dest: arg_cong [where f = length])

lemma count_in_self: "pat \<noteq> [] \<Longrightarrow> count_in pat pat = 1"
  by (cases pat) (simp_all add: count_in_short)

section \<open>Markers\<close>

definition hex_marker :: "string \<Rightarrow> bool" where
  "hex_marker m \<longleftrightarrow> 16 \<le> length m \<and> list_all marker_char m"

lemma marker_hex: "marker_ok m \<Longrightarrow> list_all marker_char m \<Longrightarrow> hex_marker m"
proof -
  assume ok: "marker_ok m" and hex: "list_all marker_char m"
  have "[last m] \<noteq> newline" if "m \<noteq> []"
  proof -
    have "marker_char (last m)" using hex that by (simp add: list_all_iff)
    then show ?thesis by (auto simp: marker_char_def newline_def)
  qed
  with ok hex show ?thesis by (auto simp: marker_ok_def hex_marker_def Let_def split: if_splits)
qed

lemma hex_marker_sep:
  "hex_marker m \<Longrightarrow> \<not> marker_char c \<Longrightarrow> count_in m (xs @ c # ys) = count_in m xs + count_in m ys"
  by (rule count_in_sep) (auto simp: hex_marker_def list_all_iff)

lemma hex_marker_ne: "hex_marker m \<Longrightarrow> m \<noteq> []"
  by (auto simp: hex_marker_def)

lemma newline_sep: "\<exists>c. newline = [c] \<and> \<not> marker_char c"
  by (simp add: newline_def marker_char_def)

lemma hex_marker_lines:
  assumes m: "hex_marker m"
  shows "count_in m (text_lines ls) = sum_list (map (count_in m) ls)"
proof -
  obtain c where c: "newline = [c]" "\<not> marker_char c" using newline_sep by blast
  show ?thesis unfolding text_lines_def
  proof (induction ls rule: induct_list012)
    case 1
    show ?case using hex_marker_ne [OF m] by simp
  next
    case (3 x y zs)
    have "count_in m (join_text newline (x # y # zs)) = count_in m (x @ c # join_text newline (y # zs))"
      by (simp add: c)
    with 3 show ?case by (simp add: hex_marker_sep [OF m c(2)])
  qed simp
qed

text \<open>A text without sixteen hexadecimal digits in a row holds no marker.\<close>

fun long_run :: "string \<Rightarrow> bool" where
  "long_run [] = False"
| "long_run (c # cs) =
     (16 \<le> length (c # cs) \<and> list_all marker_char (take 16 (c # cs)) \<or> long_run cs)"

lemma no_long_run:
  assumes m: "hex_marker m" and "\<not> long_run s"
  shows "count_in m s = 0"
  using assms(2)
proof (induction s)
  case Nil
  show ?case using hex_marker_ne [OF m] by simp
next
  case (Cons c cs)
  have "take (length m) (c # cs) \<noteq> m"
  proof
    assume eq: "take (length m) (c # cs) = m"
    then have "16 \<le> length (c # cs)" using m unfolding hex_marker_def by (metis length_take min.bounded_iff)
    moreover have "take 16 (c # cs) = take 16 m"
      using m eq by (metis hex_marker_def min.absorb1 take_take)
    then have "list_all marker_char (take 16 (c # cs))"
      using m by (metis hex_marker_def list_all_iff in_set_takeD)
    ultimately show False using Cons.prems by simp
  qed
  with Cons show ?case by simp
qed

lemma framed_count:
  assumes m: "hex_marker m" and intro: "sum_list (map (count_in m) intro) = 0"
    and name: "\<not> long_run (''BEGIN_'' @ name)" "\<not> long_run (''END_'' @ name)"
    and body: "\<not> occurs_in m body"
  shows "count_in m (framed intro name m body) = 2"
proof -
  have us: "\<not> marker_char (CHR ''_'')" by (simp add: marker_char_def)
  have "count_in m ((''BEGIN_'' @ name) @ CHR ''_'' # m) = 1"
    "count_in m ((''END_'' @ name) @ CHR ''_'' # m) = 1"
    using no_long_run [OF m name(1)] no_long_run [OF m name(2)] count_in_self [OF hex_marker_ne [OF m]]
    by (simp_all only: hex_marker_sep [OF m us])
  then show ?thesis
    using intro body hex_marker_ne [OF m] by (simp add: framed_def hex_marker_lines [OF m] flip: count_in_zero)
qed

text \<open>Texts that begin and end with another character can be counted apart.\<close>

definition closed_text :: "string \<Rightarrow> bool" where
  "closed_text s \<longleftrightarrow> s \<noteq> [] \<and> \<not> marker_char (hd s) \<and> \<not> marker_char (last s)"

lemma closed_count:
  assumes m: "hex_marker m" and "closed_text s"
  shows "count_in m (s @ t) = count_in m s + count_in m t"
proof -
  have s: "s = butlast s @ [last s]" and sep: "\<not> marker_char (last s)"
    using assms(2) by (simp_all add: closed_text_def)
  have "count_in m (s @ t) = count_in m (butlast s) + count_in m t"
    using hex_marker_sep [OF m sep, of "butlast s" t] s by (metis append_Cons append_Nil append_assoc)
  moreover have "count_in m s = count_in m (butlast s)"
    using hex_marker_sep [OF m sep, of "butlast s" "[]"] s hex_marker_ne [OF m]
    by (metis add.right_neutral count_in.simps(1))
  ultimately show ?thesis by simp
qed

lemma sandwich_count:
  assumes m: "hex_marker m" and sep: "closed_text s"
  shows "count_in m (a @ s @ b) = count_in m a + count_in m s + count_in m b"
proof -
  obtain c t where s: "s = c # t" "\<not> marker_char c"
    using sep by (cases s) (simp_all add: closed_text_def)
  have "count_in m (a @ s @ b) = count_in m a + count_in m (t @ b)"
    using hex_marker_sep [OF m s(2), of a "t @ b"] s(1) by simp
  moreover have "count_in m (s @ b) = count_in m (t @ b)"
    using hex_marker_sep [OF m s(2), of "[]" "t @ b"] s(1) hex_marker_ne [OF m] by simp
  ultimately show ?thesis using closed_count [OF m sep, of b] by simp
qed

lemma closed_string: "closed_text (json_string s)"
  by (simp add: closed_text_def json_string_def quote_def marker_char_def)

lemma closed_break: "closed_text (json_break k)"
  by (cases k) (simp_all add: closed_text_def json_break_def newline_def marker_char_def last_replicate)

lemma closed_punctuation:
  "closed_text ''[''" "closed_text '']''" "closed_text ''{''" "closed_text ''}''" "closed_text '': ''"
  "closed_text ('','' @ json_break k)"
  using closed_break [of k] by (simp_all add: closed_text_def marker_char_def)

lemma count_break: "hex_marker m \<Longrightarrow> count_in m (json_break k) = 0"
proof -
  have "\<not> long_run (replicate n (CHR '' ''))" for n
    by (induction n) (simp_all add: marker_char_def)
  then show "hex_marker m \<Longrightarrow> count_in m (json_break k) = 0"
    by (intro no_long_run) (simp_all add: json_break_def newline_def marker_char_def)
qed

lemma count_punctuation:
  assumes m: "hex_marker m"
  shows "count_in m ''['' = 0" "count_in m '']'' = 0" "count_in m ''{'' = 0" "count_in m ''}'' = 0"
    "count_in m '': '' = 0" "count_in m ('','' @ json_break k) = 0"
    "count_in m ''[]'' = 0" "count_in m ''{}'' = 0" "count_in m ''null'' = 0" "count_in m ''true'' = 0"
    "count_in m ''false'' = 0"
proof -
  note clean = no_long_run [OF m]
  have comma: "count_in m '','' = 0" "closed_text '',''"
    by (rule clean) (simp_all add: marker_char_def closed_text_def)
  show "count_in m ('','' @ json_break k) = 0"
    using comma count_break [OF m] by (simp only: closed_count [OF m])
qed (rule no_long_run [OF m], simp add: marker_char_def)+

lemma join_count:
  assumes m: "hex_marker m" and sep: "closed_text sep" "count_in m sep = 0"
    and items: "\<And>x. x \<in> set xs \<Longrightarrow> count_in m x = 0"
  shows "count_in m (join_text sep xs) = 0"
  using items
proof (induction xs rule: induct_list012)
  case 1
  show ?case using hex_marker_ne [OF m] by simp
next
  case (3 x y zs)
  then have "count_in m x = 0" "count_in m (join_text sep (y # zs)) = 0" by simp_all
  with sep show ?case by (simp only: join_text.simps sandwich_count [OF m])
qed simp

text \<open>A value without the marker in any of its strings and keys has a text without the marker.\<close>

fun calm :: "string \<Rightarrow> json \<Rightarrow> bool" where
  "calm m (JStr s) \<longleftrightarrow> count_in m (json_string s) = 0"
| "calm m (JInt n) \<longleftrightarrow> length (int_text n) < length m"
| "calm m (JFloat q) \<longleftrightarrow> False"
| "calm m (JList xs) \<longleftrightarrow> list_all (calm m) xs"
| "calm m (JObj kvs) \<longleftrightarrow> list_all (\<lambda>p. count_in m (json_string (fst p)) = 0 \<and> calm m (snd p)) kvs"
| "calm m v \<longleftrightarrow> True"

lemma bracket_count:
  assumes m: "hex_marker m" and ends: "closed_text a" "count_in m a = 0" "count_in m b = 0"
    and items: "\<And>x. x \<in> set xs \<Longrightarrow> count_in m x = 0"
  shows "count_in m (a @ json_break (Suc k) @ join_text ('','' @ json_break (Suc k)) xs @ json_break k @ b) = 0"
  using ends join_count [OF m closed_punctuation(6) count_punctuation(6) [OF m], of xs] items
  by (simp only: closed_count [OF m] closed_break sandwich_count [OF m] count_break [OF m])

lemma calm_count:
  assumes m: "hex_marker m"
  shows "calm m v \<Longrightarrow> count_in m (json_indented fl k v) = 0"
proof (induction v arbitrary: k)
  case (JList xs)
  have items: "count_in m x = 0" if "x \<in> set (map (json_indented fl (Suc k)) xs)" for x
    using that JList by (auto simp: list_all_iff)
  show ?case
    using bracket_count [OF m closed_punctuation(1) count_punctuation(1,2) [OF m] items] count_punctuation(7) [OF m]
    by (simp only: json_indented.simps simp_thms split: if_split)
next
  case (JObj kvs)
  have items: "count_in m x = 0"
    if x: "x \<in> set (map (\<lambda>p. json_string (fst p) @ '': '' @ json_indented fl (Suc k) (snd p)) kvs)" for x
  proof -
    obtain p where p: "p \<in> set kvs" and eq: "x = json_string (fst p) @ '': '' @ json_indented fl (Suc k) (snd p)"
      using x unfolding list.set_map by blast
    have "snd p \<in> Basic_BNFs.snds p" by (cases p) simp
    then have "count_in m (json_indented fl (Suc k) (snd p)) = 0" "count_in m (json_string (fst p)) = 0"
      using JObj p by (auto simp: list_all_iff)
    then show ?thesis
      unfolding eq using count_punctuation(5) [OF m]
      by (simp only: sandwich_count [OF m closed_punctuation(5)])
  qed
  show ?case
    using bracket_count [OF m closed_punctuation(3) count_punctuation(3,4) [OF m] items] count_punctuation(8) [OF m]
    by (simp only: json_indented.simps simp_thms split: if_split)
qed (use count_punctuation [OF m] count_in_short in \<open>simp_all del: count_in.simps\<close>)

lemma join_text_part: "x \<in> set xs \<Longrightarrow> \<exists>a b. join_text sep xs = a @ x @ b"
proof (induction sep xs rule: join_text.induct)
  case (2 sep y)
  then show ?case by (intro exI [of _ "[]"]) simp
next
  case (3 sep y z zs)
  show ?case
  proof (cases "x = y")
    case True
    then show ?thesis by (intro exI [of _ "[]"] exI [of _ "sep @ join_text sep (z # zs)"]) simp
  next
    case False
    then obtain a b where "join_text sep (z # zs) = a @ x @ b" using 3 by auto
    then show ?thesis by (intro exI [of _ "y @ sep @ a"] exI [of _ b]) simp
  qed
qed simp

end
