(* ===== verification/Protocol_Text.thy ===== *)
theory Protocol_Text imports Protocol_Prompts begin

text \<open>
  Reading the text that models return: the extraction of the one JSON object in an answer, and the
  check that a synthesis states the outcome of the aggregate.  The regular expressions of
  \<open>protocol.py\<close> are written as scanners.
\<close>

section \<open>Extracting a JSON object\<close>

text \<open>
  The JSON decoder of the standard library (\<open>raw_decode(text, index)\<close>: the value and the index behind
  it, or an exception, also on a repeated key) and the writing of floats.  \<open>None\<close> is the exception that
  the callers catch, \<open>JSONDecodeError\<close> or \<open>ValueError\<close>; a decoder that gives up otherwise, on too deep
  a nesting (\<open>RecursionError\<close>), is outside the model.
\<close>

record json_codec =
  jc_decode :: "string \<Rightarrow> nat \<Rightarrow> (json \<times> nat) option"
  jc_float :: "rat \<Rightarrow> string"

definition decode_complete :: "json_codec \<Rightarrow> string \<Rightarrow> json option" where
  "decode_complete cd value =
     (let s = py_lstrip value in
      case jc_decode cd s 0 of
        None \<Rightarrow> None
      | Some (decoded, end) \<Rightarrow> if py_strip (drop end s) = [] then Some decoded else None)"

text \<open>The text before and behind the first code fence.\<close>

fun cut_fence :: "string \<Rightarrow> (string \<times> string) option" where
  "cut_fence [] = None"
| "cut_fence (c # cs) =
     (if take 3 (c # cs) = ''```'' then Some ([], drop 3 (c # cs))
      else map_option (\<lambda>x. (c # fst x, snd x)) (cut_fence cs))"

lemma cut_fence_shorter: "cut_fence s = Some (a, b) \<Longrightarrow> length a + length b < length s"
proof (induction s arbitrary: a b)
  case (Cons c cs)
  show ?case
  proof (cases "take 3 (c # cs) = ''```''")
    case True
    have "length (take 3 (c # cs)) = 3" unfolding True by simp
    with True Cons.prems show ?thesis by auto
  next
    case False
    with Cons show ?thesis by auto
  qed
qed simp

definition skip_json :: "string \<Rightarrow> string" where
  "skip_json s = (if map py_lower_char (take 4 s) = ''json'' then drop 4 s else s)"

lemma skip_length: "length (py_lstrip (skip_json s)) \<le> length s"
  using length_dropWhile_le [of py_isspace "skip_json s"] by (auto simp: skip_json_def py_lstrip_def)

text \<open>\<open>_CODE_FENCE_RE.findall\<close>.\<close>

function code_fences :: "string \<Rightarrow> string list" where
  "code_fences s = (case cut_fence s of
     None \<Rightarrow> []
   | Some (_, rest) \<Rightarrow>
       (case cut_fence (py_lstrip (skip_json rest)) of
          None \<Rightarrow> []
        | Some (body, rest') \<Rightarrow> body # code_fences rest'))"
  by pat_completeness auto
termination
proof (relation "measure length")
  fix s :: string and x y :: "string \<times> string" and a rest body rest'
  assume "cut_fence s = Some x" "(a, rest) = x" "cut_fence (py_lstrip (skip_json rest)) = Some y"
    "(body, rest') = y"
  then show "(rest', s) \<in> measure length"
    using cut_fence_shorter [of s a rest] cut_fence_shorter [of "py_lstrip (skip_json rest)" body rest']
      skip_length [of rest] by auto
qed simp

declare code_fences.simps [simp del]

definition objects_of :: "json option list \<Rightarrow> (string \<times> json) list list" where
  "objects_of vs = concat (map (\<lambda>v. case v of Some (JObj m) \<Rightarrow> [m] | _ \<Rightarrow> []) vs)"

text \<open>\<open>text.find("{", index)\<close>.\<close>

fun find_brace :: "string \<Rightarrow> nat \<Rightarrow> nat option" where
  "find_brace [] i = None"
| "find_brace (c # cs) i = (if c = CHR ''{'' then Some i else find_brace cs (Suc i))"

lemma find_brace_bounds: "find_brace s i = Some k \<Longrightarrow> i \<le> k \<and> k < i + length s"
  by (induction s i rule: find_brace.induct) (auto split: if_splits)

text \<open>The objects that start at some opening brace of the text.\<close>

function scan_objects :: "json_codec \<Rightarrow> string \<Rightarrow> nat \<Rightarrow> (string \<times> json) list list" where
  "scan_objects cd s index = (case find_brace (drop index s) index of
     None \<Rightarrow> []
   | Some start \<Rightarrow>
       (case jc_decode cd s start of
          None \<Rightarrow> scan_objects cd s (Suc start)
        | Some (v, end) \<Rightarrow> objects_of [Some v] @ scan_objects cd s (max end (Suc start))))"
  by pat_completeness auto
termination
  by (relation "measure (\<lambda>(cd, s, index). length s - index)")
    (auto dest!: find_brace_bounds simp: max_def)

declare scan_objects.simps [simp del]

text \<open>The distinct ones, by their canonical text; of equal ones the last.\<close>

definition unique_objects ::
  "json_codec \<Rightarrow> (string \<times> json) list list \<Rightarrow> (string, (string \<times> json) list) dict" where
  "unique_objects cd ms =
     foldl (\<lambda>d m. dict_set (json_compact (jc_float cd) (canon (JObj m))) m d) [] ms"

definition extract_json_object ::
  "json_codec \<Rightarrow> string \<Rightarrow> string \<Rightarrow> (string \<times> json) list result" where
  "extract_json_object cd name text =
     require (nonblank text) (ValueError (name @ '' must be non-empty text''))
     (let s = py_strip text in
      case decode_complete cd s of
        Some (JObj m) \<Rightarrow> Inr m
      | direct \<Rightarrow>
          require (direct = None \<or> direct = Some JNull) (ValueError (name @ '' JSON must be an object''))
          (let fenced = objects_of (map (\<lambda>f. decode_complete cd (py_strip f)) (code_fences s));
               found = unique_objects cd (if fenced = [] then scan_objects cd s 0 else fenced) in
           require (found \<noteq> []) (ValueError (''no JSON object found in '' @ name))
          (require (length found \<le> 1) (ValueError (''multiple distinct JSON objects found in '' @ name))
             (Inr (snd (hd found))))))"

section \<open>The outcome of a synthesis\<close>

fun split_lines :: "string \<Rightarrow> string list" where
  "split_lines [] = [[]]"
| "split_lines (c # cs) =
     (if [c] = newline then [] # split_lines cs
      else (case split_lines cs of [] \<Rightarrow> [[c]] | l # ls \<Rightarrow> (c # l) # ls))"

text \<open>\<open>_SECTION_RE\<close> on one line, and the heading it finds.\<close>

definition is_heading :: "string \<Rightarrow> bool" where
  "is_heading l \<longleftrightarrow> 4 \<le> length l \<and> take 2 l = ''##'' \<and> (l ! 2 = CHR '' '' \<or> l ! 2 = char_of (9 :: nat))"

definition heading_of :: "string \<Rightarrow> string" where
  "heading_of l = py_casefold (py_strip (drop 2 l))"

definition synthesis_sections :: "string list" where
  "synthesis_sections = [''## Outcome'', ''## Consensus'', ''## Dissent'', ''## Verification needed'']"

fun outcome_lines :: "string list \<Rightarrow> string list" where
  "outcome_lines [] = []"
| "outcome_lines (l # ls) =
     (if is_heading l \<and> heading_of l = ''outcome'' then takeWhile (\<lambda>x. \<not> is_heading x) ls
      else outcome_lines ls)"

definition outcome_text :: "string \<Rightarrow> string" where
  "outcome_text answer = py_strip (join_text newline (outcome_lines (split_lines answer)))"

text \<open>\<open>_LABEL_RE.findall\<close>.\<close>

definition label_char :: "char \<Rightarrow> bool" where
  "label_char c \<longleftrightarrow> (let n = (of_char c :: nat) in (65 \<le> n \<and> n \<le> 90) \<or> (48 \<le> n \<and> n \<le> 57))"

definition label_at :: "string \<Rightarrow> string option" where
  "label_at s = (let run = takeWhile label_char (drop 10 s) in
     if take 10 s = ''CANDIDATE_'' \<and> run \<noteq> [] then Some (''CANDIDATE_'' @ run) else None)"

lemma label_at_ne: "label_at s = Some l \<Longrightarrow> 0 < length l"
  by (auto simp: label_at_def Let_def split: if_splits)

function find_labels :: "string \<Rightarrow> string list" where
  "find_labels [] = []"
| "find_labels (c # cs) = (case label_at (c # cs) of
     None \<Rightarrow> find_labels cs
   | Some l \<Rightarrow> l # find_labels (drop (length l) (c # cs)))"
  by pat_completeness auto
termination
  by (relation "measure length") (auto dest!: label_at_ne)

declare find_labels.simps(2) [simp del]

text \<open>Word characters of the range, and the search for a word at a word boundary.\<close>

definition word_char :: "char \<Rightarrow> bool" where
  "word_char c \<longleftrightarrow> (let n = (of_char c :: nat) in
     (48 \<le> n \<and> n \<le> 57) \<or> (65 \<le> n \<and> n \<le> 90) \<or> n = 95 \<or> (97 \<le> n \<and> n \<le> 122)
     \<or> n \<in> {170, 178, 179, 181, 185, 186, 188, 189, 190}
     \<or> (192 \<le> n \<and> n \<noteq> 215 \<and> n \<noteq> 247))"

definition whole_word :: "string \<Rightarrow> string \<Rightarrow> bool" where
  "whole_word w s \<longleftrightarrow> map py_lower_char (take (length w) s) = w
     \<and> (case drop (length w) s of [] \<Rightarrow> True | c # _ \<Rightarrow> \<not> word_char c)"

definition word_prefix :: "string \<Rightarrow> string \<Rightarrow> bool" where
  "word_prefix w s \<longleftrightarrow> map py_lower_char (take (length w) s) = w"

fun search_word :: "(string \<Rightarrow> bool) \<Rightarrow> bool \<Rightarrow> string \<Rightarrow> bool" where
  "search_word m inside [] = False"
| "search_word m inside (c # cs) = ((\<not> inside \<and> m (c # cs)) \<or> search_word m (word_char c) cs)"

definition says_tie :: "string \<Rightarrow> bool" where
  "says_tie s \<longleftrightarrow> search_word (\<lambda>t. list_ex (\<lambda>w. whole_word w t) [''tie'', ''tied'', ''ties'']) False s"

definition says_no_winner :: "string \<Rightarrow> bool" where
  "says_no_winner s \<longleftrightarrow> search_word (\<lambda>t. word_prefix ''abstain'' t
     \<or> list_ex (\<lambda>w. whole_word w t) [''no winner'', ''no candidate'', ''invalid'', ''not selected'',
          ''no outcome'', ''none'']) False s"

record synthesis_check =
  sc_expected_outcome :: string
  sc_expected_winner :: "string option"
  sc_labels :: "string list option"
  sc_consistent :: bool
  sc_reason :: string

text \<open>The verdict on an Outcome section: the reason, and whether it is consistent.\<close>

definition outcome_verdict :: "string \<Rightarrow> string list \<Rightarrow> aggregate \<Rightarrow> bool \<times> string" where
  "outcome_verdict text named ag =
     (let winner = (case ag_winner ag of None \<Rightarrow> ''None'' | Some w \<Rightarrow> w) in
      if ag_outcome ag = ''winner'' then
        (if named = [] then (False, ''Outcome does not name the aggregate winner'')
         else if Some (hd named) \<noteq> ag_winner ag
           then (False, ''Outcome leads with '' @ hd named @ '', aggregate winner is '' @ winner)
         else if says_tie text then (False, ''Outcome claims a tie but the aggregate has a winner'')
         else (True, ''matches winner''))
      else if ag_outcome ag = ''tie'' then
        (if \<not> says_tie text then (False, ''Outcome does not state the aggregate tie'')
         else if list_ex (\<lambda>l. l \<notin> set (ag_tied ag)) named
           then (False, ''Outcome names a candidate outside the tie'')
         else (True, ''matches tie''))
      else
        (if \<not> says_no_winner text then (False, ''Outcome does not state that no winner was selected'')
         else if named \<noteq> []
           then (False, ''Outcome names a candidate although no winner was selected'')
         else (True, ''matches no-winner'')))"

definition check_synthesis_outcome :: "string \<Rightarrow> aggregate \<Rightarrow> synthesis_check" where
  "check_synthesis_outcome answer ag =
     (let report = (\<lambda>labels ok why. \<lparr>sc_expected_outcome = ag_outcome ag,
            sc_expected_winner = ag_winner ag, sc_labels = labels, sc_consistent = ok, sc_reason = why\<rparr>);
          headings = map heading_of (filter is_heading (split_lines answer));
          missing = filter (\<lambda>sec. py_casefold (drop 3 sec) \<notin> set headings) synthesis_sections;
          text = outcome_text answer; named = find_labels text in
      if \<not> nonblank answer then report None False ''empty synthesis''
      else if missing \<noteq> [] then report None False (''missing sections: '' @ join_text '', '' missing)
      else (case outcome_verdict text named ag of
              (ok, why) \<Rightarrow> report (Some (stable_unique named)) ok why))"

end
