(* ===== verification/Config_Values.thy ===== *)
theory Config_Values imports Models begin

text \<open>
  The conversions that turn configuration values into typed fields (\<open>str\<close>, \<open>int\<close>, \<open>float\<close>), and the
  decoders of provider configurations and policies of \<open>models.py\<close>.  How Python writes a value that is
  not a string, and reads a float from a text, is the argument \<open>py_conv\<close>; a float is a rational, so
  infinities and not-a-number have no value here.
\<close>

section \<open>Conversions\<close>

record py_conv =
  pv_str :: "json \<Rightarrow> string"
  pv_float :: "string \<Rightarrow> rat result"

definition py_str :: "py_conv \<Rightarrow> json \<Rightarrow> string" where
  "py_str cv v = (case v of JStr s \<Rightarrow> s | _ \<Rightarrow> pv_str cv v)"

text \<open>\<open>int\<close> of a text: a sign, and digits that single underscores may separate.\<close>

definition digit_char :: "char \<Rightarrow> bool" where
  "digit_char c \<longleftrightarrow> (let n = (of_char c :: nat) in 48 \<le> n \<and> n \<le> 57)"

fun digit_groups :: "string \<Rightarrow> bool" where
  "digit_groups [] = False"
| "digit_groups [c] = digit_char c"
| "digit_groups (c # d # s) =
     (digit_char c \<and> (if d = CHR ''_'' then digit_groups s else digit_groups (d # s)))"

definition int_of_text :: "string \<Rightarrow> int result" where
  "int_of_text s =
     (let t = py_strip s;
          ds = (if t \<noteq> [] \<and> (hd t = CHR ''-'' \<or> hd t = CHR ''+'') then tl t else t);
          n = int (number_of (filter digit_char ds)) in
      require (digit_groups ds \<and> length (filter digit_char ds) \<le> 4300)
        (ValueError ''invalid literal for int() with base 10'')
        (Inr (if starts_with t ''-'' then - n else n)))"

definition truncated :: "rat \<Rightarrow> int" where
  "truncated q = (if q < 0 then - \<lfloor>- q\<rfloor> else \<lfloor>q\<rfloor>)"

definition py_int :: "json \<Rightarrow> int result" where
  "py_int v = (case v of
     JInt n \<Rightarrow> Inr n
   | JBool b \<Rightarrow> Inr (of_bool b)
   | JFloat q \<Rightarrow> Inr (truncated q)
   | JStr s \<Rightarrow> int_of_text s
   | _ \<Rightarrow> Inl (TypeError ''int() argument must be a string or a real number''))"

definition py_float :: "py_conv \<Rightarrow> json \<Rightarrow> rat result" where
  "py_float cv v = (case v of
     JInt n \<Rightarrow> Inr (of_int n)
   | JBool b \<Rightarrow> Inr (of_bool b)
   | JFloat q \<Rightarrow> Inr q
   | JStr s \<Rightarrow> pv_float cv s
   | _ \<Rightarrow> Inl (TypeError ''float() argument must be a string or a real number''))"

lemma conversions [simp]:
  "py_str cv (JStr s) = s" "py_int (JInt n) = Inr n" "py_float cv (JFloat q) = Inr q"
  by (simp_all add: py_str_def py_int_def py_float_def)

text \<open>\<open>value.get(key, default)\<close> with a default of JSON shape.\<close>

definition get_default :: "jobj \<Rightarrow> string \<Rightarrow> json \<Rightarrow> json" where
  "get_default m k d = (case dict_get m k of None \<Rightarrow> d | Some v \<Rightarrow> v)"

text \<open>\<open>{str(k): f(v) for k, v in dict(value or {}).items()}\<close>.\<close>

definition stage_limits :: "(json \<Rightarrow> 'a result) \<Rightarrow> json \<Rightarrow> (string, 'a) dict result" where
  "stage_limits f v =
     rbind (obj_or_empty v) (\<lambda>m.
     rbind (rmap (\<lambda>p. rbind (f (snd p)) (\<lambda>x. Inr (fst p, x))) m) (\<lambda>items.
       Inr (foldl (\<lambda>d p. dict_set (fst p) (snd p) d) [] items)))"

section \<open>Provider configurations\<close>

definition provider_to_dict :: "provider_config \<Rightarrow> jobj" where
  "provider_to_dict c =
     [(''name'', JStr (cf_name c)), (''model'', JStr (cf_model c)), (''lineage'', JStr (cf_lineage c)),
      (''secret_name'', JStr (cf_secret c)), (''endpoint'', JStr (cf_endpoint c)),
      (''max_output_tokens'', JInt (cf_max_output c)), (''timeout_seconds'', JFloat (cf_timeout c)),
      (''max_attempts'', JInt (cf_attempts c)), (''enabled'', JBool (cf_enabled c)),
      (''stage_max_output_tokens'', JObj (map (\<lambda>p. (fst p, JInt (snd p))) (cf_stage_output c))),
      (''stage_timeout_seconds'', JObj (map (\<lambda>p. (fst p, JFloat (snd p))) (cf_stage_timeout c))),
      (''extra'', JObj (cf_extra c))]"

definition provider_from_dict :: "py_conv \<Rightarrow> jobj \<Rightarrow> provider_config result" where
  "provider_from_dict cv m =
     rbind (obj_get m ''name'') (\<lambda>name.
     rbind (obj_get m ''model'') (\<lambda>model.
     rbind (obj_get m ''lineage'') (\<lambda>lineage.
     rbind (obj_get m ''secret_name'') (\<lambda>secret.
     rbind (obj_get m ''endpoint'') (\<lambda>endpoint.
     rbind (py_int (get_default m ''max_output_tokens'' (JInt 1800))) (\<lambda>output.
     rbind (py_float cv (get_default m ''timeout_seconds'' (JFloat 90))) (\<lambda>timeout.
     rbind (py_int (get_default m ''max_attempts'' (JInt 3))) (\<lambda>attempts.
     rbind (stage_limits py_int (get_or_null m ''stage_max_output_tokens'')) (\<lambda>outputs.
     rbind (stage_limits (py_float cv) (get_or_null m ''stage_timeout_seconds'')) (\<lambda>timeouts.
     rbind (obj_or_empty (get_or_null m ''extra'')) (\<lambda>extra.
       Inr \<lparr>cf_name = py_str cv name, cf_model = py_str cv model, cf_lineage = py_str cv lineage,
            cf_secret = py_str cv secret, cf_endpoint = py_str cv endpoint, cf_max_output = output,
            cf_timeout = timeout, cf_attempts = attempts,
            cf_enabled = truthy (get_default m ''enabled'' (JBool True)),
            cf_stage_output = outputs, cf_stage_timeout = timeouts, cf_extra = extra\<rparr>)))))))))))"

section \<open>Policies\<close>

definition policy_to_dict :: "run_policy \<Rightarrow> jobj" where
  "policy_to_dict p =
     [(''proposal_quorum'', JInt (rp_proposal_quorum p)), (''jury_quorum'', JInt (rp_jury_quorum p)),
      (''min_lineages'', JInt (rp_min_lineages p)), (''max_calls'', JInt (rp_max_calls p)),
      (''max_parallel_calls'', JInt (rp_max_parallel p)), (''deadline_seconds'', JFloat (rp_deadline p)),
      (''allow_partial'', JBool (rp_allow_partial p)), (''max_question_chars'', JInt (rp_max_question p)),
      (''max_stage_prompt_chars'', JInt (rp_max_prompt p)),
      (''truncation_retries'', JInt (rp_truncation_retries p)),
      (''max_recovery_output_tokens'', JInt (rp_max_recovery_output p)),
      (''jury_repair_attempts'', JInt (rp_jury_repairs p))]"

definition policy_from_dict :: "py_conv \<Rightarrow> jobj \<Rightarrow> run_policy result" where
  "policy_from_dict cv m =
     rbind (py_int (get_default m ''proposal_quorum'' (JInt 3))) (\<lambda>proposals.
     rbind (py_int (get_default m ''jury_quorum'' (JInt 3))) (\<lambda>juries.
     rbind (py_int (get_default m ''min_lineages'' (JInt 3))) (\<lambda>lineages.
     rbind (py_int (get_default m ''max_calls'' (JInt 16))) (\<lambda>calls.
     rbind (py_int (get_default m ''max_parallel_calls'' (JInt 5))) (\<lambda>parallel.
     rbind (py_float cv (get_default m ''deadline_seconds'' (JFloat 900))) (\<lambda>deadline.
     rbind (py_int (get_default m ''max_question_chars'' (JInt 30000))) (\<lambda>question.
     rbind (py_int (get_default m ''max_stage_prompt_chars'' (JInt 60000))) (\<lambda>prompt.
     rbind (py_int (get_default m ''jury_repair_attempts'' (JInt 0))) (\<lambda>repairs.
     rbind (py_int (get_default m ''truncation_retries'' (JInt 1))) (\<lambda>retries.
     rbind (py_int (get_default m ''max_recovery_output_tokens'' (JInt 8192))) (\<lambda>recovery.
       Inr \<lparr>rp_proposal_quorum = proposals, rp_jury_quorum = juries, rp_min_lineages = lineages,
            rp_max_calls = calls, rp_max_parallel = parallel, rp_deadline = deadline,
            rp_allow_partial = truthy (get_default m ''allow_partial'' (JBool True)),
            rp_max_question = question, rp_max_prompt = prompt, rp_truncation_retries = retries,
            rp_max_recovery_output = recovery, rp_jury_repairs = repairs\<rparr>)))))))))))"

section \<open>Round trips\<close>

lemma fold_dict_set:
  "distinct (map fst (d @ m)) \<Longrightarrow> foldl (\<lambda>d p. dict_set (fst p) (snd p) d) d m = d @ m"
proof (induction m arbitrary: d)
  case (Cons p m)
  have "dict_get d (fst p) = None"
    using Cons.prems by (auto simp: map_of_eq_None_iff)
  then have "dict_set (fst p) (snd p) d = d @ [p]" by (simp add: dict_set_fresh)
  with Cons show ?case by simp
qed simp

lemma rmap_coded: "rmap (\<lambda>p. rbind (f (snd p)) (\<lambda>x. Inr (fst p, x))) (map (\<lambda>p. (fst p, g (snd p))) m) = Inr m"
  if "\<And>x. f (g x) = Inr x"
  by (induction m) (simp_all add: that)

lemma stage_limits_coded:
  assumes "\<And>x. f (g x) = Inr x" and "wf_dict d"
  shows "stage_limits f (JObj (map (\<lambda>p. (fst p, g (snd p))) d)) = Inr d"
  using fold_dict_set [of "[]" d] assms(2)
  by (cases "d = []") (simp_all add: stage_limits_def obj_or_empty_def rmap_coded [of f g, OF assms(1)] wf_dict_def)

lemma provider_round_trip:
  "wf_dict (cf_stage_output c) \<Longrightarrow> wf_dict (cf_stage_timeout c) \<Longrightarrow>
    provider_from_dict cv (provider_to_dict c) = Inr c"
  by (simp add: provider_from_dict_def provider_to_dict_def obj_get_def get_or_null_def get_default_def
      stage_limits_coded [where f = py_int] stage_limits_coded [where f = "py_float cv"])
    (simp add: obj_or_empty_def)

lemma policy_round_trip: "policy_from_dict cv (policy_to_dict p) = Inr p"
  by (simp add: policy_from_dict_def policy_to_dict_def get_default_def)

end
