(* ===== verification/Config.thy ===== *)
theory Config imports Config_Values begin

text \<open>
  \<open>config.py\<close>: the default seats, the route through OpenRouter, the identity of a model and the
  lineage report, the validation of providers and policies, and the loading of a configuration.  The
  environment, \<open>urlparse\<close> and the home directory are the argument \<open>config_env\<close>; a configuration file
  is the table that \<open>tomllib\<close> makes of it.
\<close>

section \<open>The environment\<close>

text \<open>What \<open>urlparse\<close> makes of an endpoint; reading the port may raise.\<close>

record url_parts =
  up_scheme :: string
  up_host :: "string option"
  up_port :: "int option result"
  up_user :: "string option"
  up_password :: "string option"

record config_env =
  ce_var :: "string \<Rightarrow> string option"
  ce_url :: "string \<Rightarrow> url_parts result"
  ce_conv :: py_conv
  ce_home :: string
  ce_expand :: "string \<Rightarrow> string"

section \<open>Defaults\<close>

definition default_endpoints :: "(string, string) dict" where
  "default_endpoints =
     [(''openai'', ''https://api.openai.com/v1/responses''),
      (''anthropic'', ''https://api.anthropic.com/v1/messages''),
      (''gemini'', ''https://generativelanguage.googleapis.com/v1beta/models/{model}:generateContent''),
      (''mistral'', ''https://api.mistral.ai/v1/chat/completions''),
      (''xai'', ''https://api.x.ai/v1/responses''),
      (''qwen'', ''https://dashscope-intl.aliyuncs.com/compatible-mode/v1/chat/completions''),
      (''cohere'', ''https://api.cohere.ai/v2/chat''),
      (''upstage'', ''https://api.upstage.ai/v1/chat/completions'')]"

definition default_models :: "(string, string) dict" where
  "default_models =
     [(''openai'', ''gpt-5.6-sol''), (''anthropic'', ''claude-sonnet-4-6''),
      (''gemini'', ''gemini-3.6-flash''), (''mistral'', ''mistral-medium-3-5''), (''xai'', ''grok-4.5''),
      (''qwen'', ''qwen3.7-max''), (''cohere'', ''command-a-plus-05-2026''),
      (''upstage'', ''solar-pro3-260323'')]"

definition default_secrets :: "(string, string) dict" where
  "default_secrets =
     [(''openai'', ''OPENAI_API_KEY''), (''anthropic'', ''ANTHROPIC_API_KEY''),
      (''gemini'', ''GEMINI_API_KEY''), (''mistral'', ''MISTRAL_API_KEY''), (''xai'', ''XAI_API_KEY''),
      (''qwen'', ''DASHSCOPE_API_KEY''), (''cohere'', ''COHERE_API_KEY''), (''upstage'', ''UPSTAGE_API_KEY'')]"

definition default_lineages :: "(string, string) dict" where
  "default_lineages =
     [(''openai'', ''openai-gpt''), (''anthropic'', ''anthropic-claude''), (''gemini'', ''google-gemini''),
      (''mistral'', ''mistral''), (''xai'', ''xai-grok''), (''qwen'', ''alibaba-qwen''),
      (''cohere'', ''cohere-command''), (''upstage'', ''upstage-solar'')]"

definition default_stage_output :: "(string, int) dict" where
  "default_stage_output = [(''proposal'', 3200), (''jury'', 2200), (''synthesis'', 3200)]"

definition default_stage_timeout :: "(string, rat) dict" where
  "default_stage_timeout = [(''proposal'', 150), (''jury'', 120), (''synthesis'', 180)]"

definition council_stages :: "string list" where
  "council_stages = [''proposal'', ''jury'', ''synthesis'']"

text \<open>Every allowlist but that of the mock provider also holds the host of OpenRouter.\<close>

definition allowed_endpoint_hosts :: "(string, string list) dict" where
  "allowed_endpoint_hosts =
     map (\<lambda>(name, hosts). (name, if name = ''mock'' then hosts else hosts @ [''openrouter.ai'']))
     [(''openai'', [''api.openai.com'']), (''anthropic'', [''api.anthropic.com'']),
      (''gemini'', [''generativelanguage.googleapis.com'']), (''mistral'', [''api.mistral.ai'']),
      (''xai'', [''api.x.ai'']),
      (''qwen'', [''dashscope-intl.aliyuncs.com'', ''dashscope-us.aliyuncs.com'',
         ''dashscope.aliyuncs.com'', ''cn-hongkong.dashscope.aliyuncs.com'']),
      (''cohere'', [''api.cohere.ai'']), (''upstage'', [''api.upstage.ai'']),
      (''mock'', [''localhost'', ''127.0.0.1''])]"

definition openrouter_endpoint :: string where
  "openrouter_endpoint = ''https://openrouter.ai/api/v1/chat/completions''"

definition openrouter_secret :: string where
  "openrouter_secret = ''OPENROUTER_API_KEY''"

definition default_openrouter_models :: "(string, string) dict" where
  "default_openrouter_models =
     [(''openai'', ''openai/gpt-5.6-sol''), (''anthropic'', ''anthropic/claude-sonnet-5.5''),
      (''gemini'', ''google/gemini-3.8-flash''), (''mistral'', ''mistralai/mistral-medium-3-5''),
      (''xai'', ''x-ai/grok-4.7''), (''qwen'', ''qwen/qwen3.8-max-0902''),
      (''cohere'', ''cohere/command-a-plus''), (''upstage'', ''upstage/solar-pro4'')]"

definition default_openrouter_extra :: "(string, jobj) dict" where
  "default_openrouter_extra =
     [(''cohere'', [(''reasoning'', JObj [(''max_tokens'', JInt 800)])]),
      (''qwen'', [(''reasoning'', JObj [(''max_tokens'', JInt 800)])]),
      (''xai'', [(''reasoning'', JObj [(''effort'', JStr ''low'')])]),
      (''gemini'', [(''reasoning'', JObj [(''effort'', JStr ''low'')])])]"

definition routes :: "string list" where
  "routes = [''direct'', ''openrouter'']"

definition default_live_providers :: "string list" where
  "default_live_providers =
     [''openai'', ''anthropic'', ''gemini'', ''mistral'', ''xai'', ''qwen'', ''cohere'']"

definition known_providers :: "string list" where
  "known_providers = default_live_providers @ [''upstage'']"

definition providers_added_later :: "string list" where
  "providers_added_later = [''xai'', ''qwen'', ''cohere'', ''upstage'']"

definition openrouter_prefix_lineages :: "(string, string) dict" where
  "openrouter_prefix_lineages =
     [(''openai'', ''openai-gpt''), (''anthropic'', ''anthropic-claude''), (''google'', ''google-gemini''),
      (''mistralai'', ''mistral''), (''x-ai'', ''xai-grok''), (''qwen'', ''alibaba-qwen''),
      (''cohere'', ''cohere-command''), (''upstage'', ''upstage-solar'')]"

definition direct_provider_prefixes :: "(string, string) dict" where
  "direct_provider_prefixes =
     [(''openai'', ''openai''), (''anthropic'', ''anthropic''), (''gemini'', ''google''),
      (''mistral'', ''mistralai''), (''xai'', ''x-ai''), (''qwen'', ''qwen''), (''cohere'', ''cohere''),
      (''upstage'', ''upstage'')]"

record app_config =
  ac_providers :: "provider_config list"
  ac_policy :: run_policy
  ac_synthesis :: string
  ac_data_dir :: string
  ac_fallbacks :: "string list"

definition synthesis_chain :: "app_config \<Rightarrow> string list" where
  "synthesis_chain c = ac_synthesis c # ac_fallbacks c"

definition default_data_dir :: "config_env \<Rightarrow> string" where
  "default_data_dir ce = (case ce_var ce ''MODEL_COUNCIL_DATA_DIR'' of
     Some (c # cs) \<Rightarrow> ce_expand ce (c # cs)
   | _ \<Rightarrow> ce_home ce @ ''/.local/share/model-council'')"

text \<open>\<open>str.upper\<close> on the range (except for two letters whose upper case is outside of it).\<close>

definition py_upper :: "string \<Rightarrow> string" where
  "py_upper s = concat (map (\<lambda>c. let n = (of_char c :: nat) in
     if (97 \<le> n \<and> n \<le> 122) \<or> (224 \<le> n \<and> n \<le> 254 \<and> n \<noteq> 247) then [char_of (n - 32)]
     else if n = 223 then ''SS'' else [c]) s)"

definition nonempty :: "string option \<Rightarrow> string option" where
  "nonempty x = (case x of Some (c # cs) \<Rightarrow> Some (c # cs) | _ \<Rightarrow> None)"

definition default_provider :: "config_env \<Rightarrow> string \<Rightarrow> provider_config result" where
  "default_provider ce name =
     (let outputs = (if name = ''gemini'' then map (\<lambda>s. (s, 4096)) council_stages else default_stage_output);
          timeouts = (if name = ''qwen'' then [(''proposal'', 300), (''jury'', 300), (''synthesis'', 360)]
                      else default_stage_timeout);
          extra = (if name = ''gemini'' then [(''thinking_level'', JStr ''low'')]
            else if name = ''qwen'' then [(''enable_thinking'', JBool False)]
            else if name = ''cohere''
              then [(''thinking'', JObj [(''token_budget'', JInt 800)]), (''temperature'', JInt 0)]
            else if name = ''upstage'' then [(''reasoning_effort'', JStr ''low'')] else []);
          find = (\<lambda>d. case dict_get d name of None \<Rightarrow> Inl (KeyError name) | Some v \<Rightarrow> Inr v) in
      rbind (case nonempty (ce_var ce (''MODEL_COUNCIL_'' @ py_upper name @ ''_MODEL'')) of
               Some m \<Rightarrow> Inr m | None \<Rightarrow> find default_models) (\<lambda>model.
      rbind (find default_lineages) (\<lambda>lineage.
      rbind (find default_secrets) (\<lambda>secret.
      rbind (find default_endpoints) (\<lambda>endpoint.
        Inr \<lparr>cf_name = name, cf_model = model, cf_lineage = lineage, cf_secret = secret,
             cf_endpoint = endpoint, cf_max_output = 1800, cf_timeout = 90, cf_attempts = 3,
             cf_enabled = True, cf_stage_output = outputs, cf_stage_timeout = timeouts,
             cf_extra = extra\<rparr>)))))"

section \<open>Models and lineages\<close>

text \<open>\<open>endpoint.replace("{model}", by)\<close>.\<close>

fun fill_model :: "string \<Rightarrow> string \<Rightarrow> string" where
  "fill_model by [] = []"
| "fill_model by (c # cs) =
     (if starts_with (c # cs) ''{model}'' then by @ fill_model by (drop 6 cs) else c # fill_model by cs)"

definition is_openrouter_endpoint :: "config_env \<Rightarrow> string \<Rightarrow> bool result" where
  "is_openrouter_endpoint ce endpoint =
     rbind (ce_url ce (fill_model ''m'' endpoint)) (\<lambda>u.
       let host = (case up_host u of None \<Rightarrow> [] | Some h \<Rightarrow> map py_lower_char h) in
       Inr (host = ''openrouter.ai'' \<or> starts_with (rev host) (rev ''.openrouter.ai'')))"

definition is_mock :: "provider_config \<Rightarrow> bool" where
  "is_mock c \<longleftrightarrow> starts_with (cf_name c) ''mock''"

definition without_prefix :: "string \<Rightarrow> string \<Rightarrow> string" where
  "without_prefix p s = (if starts_with s p then drop (length p) s else s)"

definition plain_model :: "provider_config \<Rightarrow> string" where
  "plain_model c = map py_lower_char (py_strip (cf_model c))"

definition model_identity :: "config_env \<Rightarrow> provider_config \<Rightarrow> string result" where
  "model_identity ce c =
     rbind (is_openrouter_endpoint ce (cf_endpoint c)) (\<lambda>routed.
       if routed then Inr (plain_model c)
       else
         (let prefix = (case dict_get direct_provider_prefixes (cf_name c) of
                          None \<Rightarrow> cf_name c | Some p \<Rightarrow> p) in
          Inr (prefix @ ''/'' @ without_prefix ''models/'' (without_prefix (prefix @ ''/'') (plain_model c)))))"

text \<open>The lineage that the vendor prefix of an OpenRouter model stands for.\<close>

definition derived_lineage :: "provider_config \<Rightarrow> string option" where
  "derived_lineage c =
     (if CHR ''/'' \<in> set (plain_model c)
      then dict_get openrouter_prefix_lineages (takeWhile (\<lambda>x. x \<noteq> CHR ''/'') (plain_model c))
      else None)"

record lineage_acc =
  la_mismatches :: "string list"
  la_unverified :: "string list"
  la_seen :: "(string, string) dict"
  la_duplicates :: "string list"
  la_lineages :: "string list"

definition lineage_step :: "config_env \<Rightarrow> lineage_acc \<Rightarrow> provider_config \<Rightarrow> lineage_acc result" where
  "lineage_step ce a c =
     (if is_mock c then Inr (a\<lparr>la_lineages := la_lineages a @ [cf_lineage c]\<rparr>)
      else
        rbind (model_identity ce c) (\<lambda>identity.
        rbind (is_openrouter_endpoint ce (cf_endpoint c)) (\<lambda>routed.
        let derived = derived_lineage c;
            wrong = (routed \<and> derived \<noteq> None \<and> derived \<noteq> Some (cf_lineage c));
            a1 = (if routed \<and> derived = None then a\<lparr>la_unverified := la_unverified a @ [cf_name c]\<rparr>
                  else if wrong then a\<lparr>la_mismatches := la_mismatches a
                    @ [cf_name c @ '': model '' @ cf_model c @ '' is '' @ the derived
                         @ '', not declared '' @ cf_lineage c]\<rparr>
                  else a);
            a2 = (case dict_get (la_seen a) identity of
                    Some other \<Rightarrow> a1\<lparr>la_duplicates := la_duplicates a
                      @ [cf_name c @ '' and '' @ other @ '' both use '' @ cf_model c]\<rparr>
                  | None \<Rightarrow> a1\<lparr>la_seen := dict_set identity (cf_name c) (la_seen a)\<rparr>) in
        Inr (a2\<lparr>la_lineages := la_lineages a @ [if wrong then the derived else cf_lineage c]\<rparr>))))"

fun lineage_loop :: "config_env \<Rightarrow> lineage_acc \<Rightarrow> provider_config list \<Rightarrow> lineage_acc result" where
  "lineage_loop ce a [] = Inr a"
| "lineage_loop ce a (c # cs) = rbind (lineage_step ce a c) (\<lambda>b. lineage_loop ce b cs)"

definition no_lineages :: lineage_acc where
  "no_lineages = \<lparr>la_mismatches = [], la_unverified = [], la_seen = [], la_duplicates = [], la_lineages = []\<rparr>"

record lineage_summary =
  lr_status :: string
  lr_count :: int
  lr_unverified :: "string list"
  lr_mismatches :: "string list"
  lr_duplicates :: "string list"

definition lineage_report :: "config_env \<Rightarrow> provider_config list \<Rightarrow> lineage_summary result" where
  "lineage_report ce providers =
     rbind (lineage_loop ce no_lineages providers) (\<lambda>a.
       Inr \<lparr>lr_status = (if la_mismatches a \<noteq> [] \<or> la_duplicates a \<noteq> [] then ''invalid''
              else if la_unverified a \<noteq> [] then ''unverified'' else ''verified''),
            lr_count = int (length (remdups (la_lineages a))), lr_unverified = la_unverified a,
            lr_mismatches = la_mismatches a, lr_duplicates = la_duplicates a\<rparr>)"

end
