(* ===== verification/Config_Load.thy ===== *)
theory Config_Load imports Config begin

text \<open>
  The second half of \<open>config.py\<close>: the route through OpenRouter, the validation of providers, policies
  and the synthesis chain, and the loading of a configuration.
\<close>

section \<open>Routes\<close>

definition either_route :: string where
  "either_route = (let q = [char_of (39 :: nat)] in q @ ''direct'' @ q @ '' or '' @ q @ ''openrouter'' @ q)"

definition default_route :: "config_env \<Rightarrow> string result" where
  "default_route ce =
     (let route = map py_lower_char (py_strip (case ce_var ce ''MODEL_COUNCIL_ROUTE'' of
            None \<Rightarrow> ''direct'' | Some r \<Rightarrow> r)) in
      require (route \<in> set routes)
        (ValueError (''MODEL_COUNCIL_ROUTE must be '' @ either_route)) (Inr route))"

definition first_text :: "string option list \<Rightarrow> string \<Rightarrow> string" where
  "first_text xs d = (case List.map_filter nonempty xs of [] \<Rightarrow> d | x # _ \<Rightarrow> x)"

definition route_via_openrouter :: "config_env \<Rightarrow> string option \<Rightarrow> provider_config \<Rightarrow> provider_config" where
  "route_via_openrouter ce model c =
     (if is_mock c then c
      else
        (let env_model = ce_var ce (''MODEL_COUNCIL_'' @ py_upper (cf_name c) @ ''_OPENROUTER_MODEL'');
             routed = first_text [model, env_model, dict_get default_openrouter_models (cf_name c)] (cf_model c);
             kept = filter (\<lambda>p. fst p \<in> {''temperature'', ''reasoning'', ''provider''}) (cf_extra c);
             extra = (case dict_get default_openrouter_extra (cf_name c) of None \<Rightarrow> [] | Some m \<Rightarrow> m) in
         c\<lparr>cf_model := routed, cf_secret := openrouter_secret, cf_endpoint := openrouter_endpoint,
           cf_extra := dict_merge extra kept\<rparr>))"

definition default_config :: "config_env \<Rightarrow> app_config result" where
  "default_config ce =
     rbind (default_route ce) (\<lambda>route.
     rbind (rmap (default_provider ce) default_live_providers) (\<lambda>seats.
       Inr \<lparr>ac_providers = (if route = ''openrouter'' then map (route_via_openrouter ce None) seats else seats),
            ac_policy = default_policy\<lparr>rp_max_calls := 20, rp_jury_repairs := 1\<rparr>,
            ac_synthesis = ''openai'', ac_data_dir = default_data_dir ce,
            ac_fallbacks = [''anthropic'', ''gemini'']\<rparr>))"

section \<open>Validation\<close>

text \<open>\<open>repr\<close> of \<open>None\<close> or a text.\<close>

definition repr_char :: "char \<Rightarrow> char \<Rightarrow> string" where
  "repr_char q c = (let n = (of_char c :: nat); slash = char_of (92 :: nat) in
     if c = q \<or> c = slash then [slash, c]
     else if n = 9 then [slash, CHR ''t''] else if n = 10 then [slash, CHR ''n'']
     else if n = 13 then [slash, CHR ''r'']
     else if n < 32 \<or> (127 \<le> n \<and> n \<le> 160) \<or> n = 173
       then [slash, CHR ''x'', (''0123456789abcdef'' ! (n div 16)), (''0123456789abcdef'' ! (n mod 16))]
     else [c])"

definition py_repr :: "string option \<Rightarrow> string" where
  "py_repr x = (case x of
     None \<Rightarrow> ''None''
   | Some s \<Rightarrow>
       (let single = char_of (39 :: nat); double = char_of (34 :: nat);
            q = (if single \<in> set s \<and> double \<notin> set s then double else single) in
        [q] @ concat (map (repr_char q) s) @ [q]))"

definition validate_endpoint :: "config_env \<Rightarrow> provider_config \<Rightarrow> unit result" where
  "validate_endpoint ce c =
     rbind (ce_url ce (fill_model (cf_model c) (cf_endpoint c))) (\<lambda>u.
     let kind = (if is_mock c then ''mock'' else cf_name c);
         allowed = (case dict_get allowed_endpoint_hosts kind of None \<Rightarrow> [] | Some hs \<Rightarrow> hs) in
     require (up_scheme u = ''https'' \<or> kind = ''mock'')
       (ValueError (cf_name c @ '': provider endpoint must use HTTPS''))
    (require (up_host u \<in> Some ` set allowed)
       (ValueError (cf_name c @ '': endpoint host '' @ py_repr (up_host u) @ '' is not allowlisted''))
    (rbind (up_port u) (\<lambda>port.
     require (port = None \<or> port = Some 443 \<or> kind = ''mock'')
       (ValueError (cf_name c @ '': endpoint port must be 443''))
    (require (nonempty (up_user u) = None \<and> nonempty (up_password u) = None)
       (ValueError (cf_name c @ '': endpoint must not contain credentials'')) (Inr ()))))))"

definition name_start :: "char \<Rightarrow> bool" where
  "name_start c \<longleftrightarrow> (let n = (of_char c :: nat) in (65 \<le> n \<and> n \<le> 90) \<or> (97 \<le> n \<and> n \<le> 122) \<or> n = 95)"

definition secret_name_ok :: "string \<Rightarrow> bool" where
  "secret_name_ok s \<longleftrightarrow> s \<noteq> [] \<and> name_start (hd s) \<and> list_all (\<lambda>c. name_start c \<or> digit_char c) s"

definition check_fields :: "provider_config \<Rightarrow> (string \<times> string) list \<Rightarrow> unit result" where
  "check_fields c parts = (case find (\<lambda>f. \<not> nonblank (snd f)) parts of
     None \<Rightarrow> Inr ()
   | Some f \<Rightarrow> Inl (ValueError ((if cf_name c = [] then ''provider'' else cf_name c)
                @ '': '' @ fst f @ '' must be non-empty'')))"

definition check_stages :: "provider_config \<Rightarrow> string \<Rightarrow> (string, 'n::{zero,linorder}) dict \<Rightarrow> unit result" where
  "check_stages c field d =
     (let unknown = filter (\<lambda>s. s \<notin> set council_stages) (map fst d) in
      require (unknown = [])
        (ValueError (cf_name c @ '': '' @ field @ '' has unknown stages: '' @ join_text '', '' (sorted_text unknown)))
        (case find (\<lambda>p. snd p \<le> 0) d of
           None \<Rightarrow> Inr ()
         | Some p \<Rightarrow> Inl (ValueError (cf_name c @ '': '' @ field @ ''.'' @ fst p @ '' must be positive''))))"

definition validate_provider_config :: "config_env \<Rightarrow> provider_config \<Rightarrow> unit result" where
  "validate_provider_config ce c =
     rbind (check_fields c [(''name'', cf_name c), (''model'', cf_model c), (''lineage'', cf_lineage c),
        (''secret_name'', cf_secret c), (''endpoint'', cf_endpoint c)]) (\<lambda>_.
     require (secret_name_ok (cf_secret c))
       (ValueError (cf_name c @ '': secret_name must be an environment-style identifier''))
    (require (1 \<le> cf_max_output c) (ValueError (cf_name c @ '': max_output_tokens must be positive''))
    (require (0 < cf_timeout c) (ValueError (cf_name c @ '': timeout_seconds must be positive''))
    (require (1 \<le> cf_attempts c \<and> cf_attempts c \<le> 10)
       (ValueError (cf_name c @ '': max_attempts must be between 1 and 10''))
    (rbind (check_stages c ''stage_max_output_tokens'' (cf_stage_output c)) (\<lambda>_.
     rbind (check_stages c ''stage_timeout_seconds'' (cf_stage_timeout c)) (\<lambda>_.
       validate_endpoint ce c)))))))"

definition validate_run_policy ::
  "config_env \<Rightarrow> run_policy \<Rightarrow> provider_config list \<Rightarrow> int \<Rightarrow> unit result" where
  "validate_run_policy ce p providers synthesizers =
     (let n = int (length providers) in
      require (providers \<noteq> []) (ValueError ''At least one provider must be enabled'')
     (require (1 \<le> rp_proposal_quorum p) (ValueError ''proposal_quorum must be positive'')
     (require (1 \<le> rp_jury_quorum p) (ValueError ''jury_quorum must be positive'')
     (require (1 \<le> rp_min_lineages p) (ValueError ''min_lineages must be positive'')
     (require (0 < rp_deadline p) (ValueError ''deadline_seconds must be positive'')
     (require (1 \<le> rp_max_parallel p) (ValueError ''max_parallel_calls must be positive'')
     (require (1 \<le> rp_max_question p) (ValueError ''max_question_chars must be positive'')
     (require (1 \<le> rp_max_prompt p) (ValueError ''max_stage_prompt_chars must be positive'')
     (require (0 \<le> rp_jury_repairs p \<and> rp_jury_repairs p \<le> 1)
        (ValueError ''jury_repair_attempts must be 0 or 1'')
     (require (0 \<le> rp_truncation_retries p \<and> rp_truncation_retries p \<le> 1)
        (ValueError ''truncation_retries must be 0 or 1'')
     (require (1 \<le> rp_max_recovery_output p)
        (ValueError ''max_recovery_output_tokens must be positive'')
     (require (rp_proposal_quorum p \<le> n) (ValueError ''Proposal quorum exceeds enabled provider count'')
     (require (rp_jury_quorum p \<le> n) (ValueError ''Jury quorum exceeds enabled provider count'')
     (rbind (lineage_report ce providers) (\<lambda>diversity.
      require (lr_mismatches diversity = [])
        (ValueError (''OpenRouter model does not match seat lineage: ''
           @ join_text ''; '' (lr_mismatches diversity)))
     (require (lr_duplicates diversity = [])
        (ValueError (''Duplicate model identity across seats: '' @ join_text ''; '' (lr_duplicates diversity)))
     (require (rp_min_lineages p \<le> lr_count diversity)
        (ValueError ''Configured providers do not meet minimum lineage diversity'')
     (require (1 \<le> synthesizers) (ValueError ''At least one synthesis provider is required'')
     (require (n * 2 + synthesizers \<le> rp_max_calls p)
        (ValueError ''Max calls is too small for proposals, juries, and configured synthesis attempts'')
        (Inr ()))))))))))))))))))))"

text \<open>The fallbacks of a configuration file are unchecked values.\<close>

definition validate_synthesis_providers ::
  "string \<Rightarrow> json list \<Rightarrow> provider_config list \<Rightarrow> string list result" where
  "validate_synthesis_providers synthesizer fallbacks providers =
     (let chain = JStr synthesizer # fallbacks; names = map str_of chain;
          unavailable = filter (\<lambda>n. n \<notin> cf_name ` set providers) names in
      require (list_all (\<lambda>v. is_str v \<and> nonblank (str_of v)) chain)
        (ValueError ''Synthesis provider names must be non-empty strings'')
     (require (distinct names) (ValueError ''Synthesis providers must not contain duplicates'')
     (require (unavailable = [])
        (ValueError (''Configured synthesis providers are not enabled: '' @ join_text '', '' unavailable))
        (Inr names))))"

definition validate_config :: "config_env \<Rightarrow> app_config \<Rightarrow> app_config result" where
  "validate_config ce c =
     rbind (rmap (validate_provider_config ce) (ac_providers c)) (\<lambda>_.
     rbind (validate_synthesis_providers (ac_synthesis c) (map JStr (ac_fallbacks c)) (ac_providers c)) (\<lambda>_.
     rbind (validate_run_policy ce (ac_policy c) (ac_providers c) (int (length (synthesis_chain c)))) (\<lambda>_.
       Inr c)))"

section \<open>Loading\<close>

text \<open>A field of an override: the value of the file, or the default.\<close>

definition text_field :: "config_env \<Rightarrow> jobj \<Rightarrow> string \<Rightarrow> string \<Rightarrow> string" where
  "text_field ce m k d = py_str (ce_conv ce) (get_default m k (JStr d))"

definition configured_provider :: "config_env \<Rightarrow> jobj \<Rightarrow> provider_config \<Rightarrow> provider_config result" where
  "configured_provider ce m d =
     rbind (py_int (get_default m ''max_output_tokens'' (JInt (cf_max_output d)))) (\<lambda>output.
     rbind (py_float (ce_conv ce) (get_default m ''timeout_seconds'' (JFloat (cf_timeout d)))) (\<lambda>timeout.
     rbind (py_int (get_default m ''max_attempts'' (JInt (cf_attempts d)))) (\<lambda>attempts.
     rbind (stage_limits py_int (get_default m ''stage_max_output_tokens''
              (JObj (map (\<lambda>p. (fst p, JInt (snd p))) (cf_stage_output d))))) (\<lambda>outputs.
     rbind (stage_limits (py_float (ce_conv ce)) (get_default m ''stage_timeout_seconds''
              (JObj (map (\<lambda>p. (fst p, JFloat (snd p))) (cf_stage_timeout d))))) (\<lambda>timeouts.
     rbind (obj_or_empty (get_or_null m ''extra'')) (\<lambda>extra.
       Inr \<lparr>cf_name = cf_name d, cf_model = text_field ce m ''model'' (cf_model d),
            cf_lineage = text_field ce m ''lineage'' (cf_lineage d),
            cf_secret = text_field ce m ''secret_name'' (cf_secret d),
            cf_endpoint = text_field ce m ''endpoint'' (cf_endpoint d), cf_max_output = output,
            cf_timeout = timeout, cf_attempts = attempts,
            cf_enabled = truthy (get_default m ''enabled'' (JBool (cf_enabled d))),
            cf_stage_output = outputs, cf_stage_timeout = timeouts,
            cf_extra = dict_merge (cf_extra d) extra\<rparr>))))))"

definition routed_provider :: "config_env \<Rightarrow> jobj \<Rightarrow> provider_config \<Rightarrow> provider_config result" where
  "routed_provider ce m c =
     (let routed = route_via_openrouter ce (map_option (py_str (ce_conv ce)) (dict_get m ''openrouter_model'')) c in
      rbind (obj_or_empty (get_or_null m ''openrouter_extra'')) (\<lambda>extra.
        Inr (routed\<lparr>cf_secret := text_field ce m ''openrouter_secret_name'' openrouter_secret,
                    cf_extra := dict_merge (cf_extra routed) extra\<rparr>)))"

text \<open>One seat of a configuration file: left out, disabled, or validated.\<close>

definition load_seat ::
  "config_env \<Rightarrow> string \<Rightarrow> jobj \<Rightarrow> provider_config \<Rightarrow> provider_config list result" where
  "load_seat ce run_route provider_raw d =
     (let name = cf_name d in
      if name \<in> set providers_added_later \<and> name \<notin> fst ` set provider_raw then Inr []
      else
        rbind (obj_or_empty (get_or_null provider_raw name)) (\<lambda>m.
        rbind (configured_provider ce m d) (\<lambda>c.
        let route = map py_lower_char (py_strip (text_field ce m ''route'' run_route)) in
        require (route \<in> set routes) (ValueError (name @ '': route must be '' @ either_route))
       (rbind (if route = ''openrouter'' then routed_provider ce m c else Inr c) (\<lambda>seat.
          if cf_enabled seat then rbind (validate_provider_config ce seat) (\<lambda>_. Inr [seat]) else Inr [])))))"

definition json_array :: "json \<Rightarrow> json list result" where
  "json_array v = (case v of JList xs \<Rightarrow> Inr xs
     | _ \<Rightarrow> Inl (ValueError ''run.synthesis_fallbacks must be an array''))"

definition load_config :: "config_env \<Rightarrow> jobj option \<Rightarrow> app_config result" where
  "load_config ce file =
     rbind (default_config ce) (\<lambda>base.
     case file of
       None \<Rightarrow> validate_config ce base
     | Some raw \<Rightarrow>
         rbind (obj_or_empty (get_or_null raw ''run'')) (\<lambda>run_raw.
         rbind (obj_or_empty (get_or_null raw ''policy'')) (\<lambda>policy_raw.
         rbind (obj_or_empty (get_or_null raw ''providers'')) (\<lambda>provider_raw.
         let run_route = map py_lower_char (py_strip (text_field ce run_raw ''route''
               (case ce_var ce ''MODEL_COUNCIL_ROUTE'' of None \<Rightarrow> ''direct'' | Some r \<Rightarrow> r))) in
         require (run_route \<in> set routes) (ValueError (''run.route must be '' @ either_route))
        (rbind (rmap (default_provider ce) known_providers) (\<lambda>defaults.
         rbind (rmap (load_seat ce run_route provider_raw) defaults) (\<lambda>seats.
         let providers = concat seats; synthesizer = text_field ce run_raw ''synthesis_provider'' (ac_synthesis base) in
         rbind (policy_from_dict (ce_conv ce) (dict_merge (policy_to_dict default_policy) policy_raw)) (\<lambda>policy.
         rbind (json_array (get_default run_raw ''synthesis_fallbacks'' (JList []))) (\<lambda>fallbacks.
         rbind (text_value (get_default run_raw ''data_dir'' (JStr (ac_data_dir base)))) (\<lambda>dir.
         rbind (validate_synthesis_providers synthesizer fallbacks providers) (\<lambda>chain.
         rbind (validate_run_policy ce policy providers (int (length chain))) (\<lambda>_.
           Inr \<lparr>ac_providers = providers, ac_policy = policy, ac_synthesis = synthesizer,
                ac_data_dir = ce_expand ce dir, ac_fallbacks = map str_of fallbacks\<rparr>))))))))))))"

definition mock_provider :: "int \<Rightarrow> provider_config" where
  "mock_provider i =
     \<lparr>cf_name = ''mock-'' @ int_text i, cf_model = ''mock-model-'' @ int_text i,
      cf_lineage = ''mock-lineage-'' @ int_text i, cf_secret = ''MOCK_KEY_'' @ int_text i,
      cf_endpoint = ''http://localhost/mock'', cf_max_output = 1800, cf_timeout = 90, cf_attempts = 1,
      cf_enabled = True, cf_stage_output = [], cf_stage_timeout = [],
      cf_extra = [(''seed'', JInt i)]\<rparr>"

definition mock_config :: "config_env \<Rightarrow> string option \<Rightarrow> app_config result" where
  "mock_config ce dir = validate_config ce
     \<lparr>ac_providers = map mock_provider [1, 2, 3, 4], ac_policy = default_policy, ac_synthesis = ''mock-1'',
      ac_data_dir = (case nonempty dir of None \<Rightarrow> default_data_dir ce | Some d \<Rightarrow> ce_expand ce d),
      ac_fallbacks = []\<rparr>"

end
