(* ===== verification/Workload.thy ===== *)
theory Workload imports Protocol_Text Models begin

text \<open>
  \<open>workload.py\<close>: the size of the prompts of a run, projected from artifacts that fill every bound of
  the protocol.  The markers of the projected prompts are fresh: \<open>fresh\<close> gives them, by prompt and, for
  the four projections behind the question capacity, by projection.
\<close>

section \<open>Artifacts at the bounds\<close>

definition filled :: "string \<Rightarrow> nat \<Rightarrow> string" where
  "filled prefix n = (if n \<le> length prefix then take n prefix
     else prefix @ replicate (n - length prefix) (CHR ''x''))"

definition filled_items :: "string \<Rightarrow> nat \<Rightarrow> nat \<Rightarrow> json" where
  "filled_items prefix items n =
     JList (map (\<lambda>i. JStr (filled (prefix @ decimal_text (Suc i) @ '': '') n)) [0..<items])"

definition maximum_proposal_artifact :: "string \<Rightarrow> json" where
  "maximum_proposal_artifact label = JObj
     [(''outcome'', JStr (filled (label @ '' outcome: '') 600)),
      (''evidence_and_reasoning'', filled_items (label @ '' reason '') 4 350),
      (''uncertainty'', filled_items (label @ '' uncertainty '') 3 280),
      (''verification_needed'', filled_items (label @ '' verification '') 4 280)]"

section \<open>The size of the prompts\<close>

definition worst_aggregate :: "string list \<Rightarrow> (string \<times> json) list" where
  "worst_aggregate labels =
     (let n = length labels; names = JList (map JStr labels) in
      [(''protocol_id'', JStr ''independent-jury''), (''protocol_version'', JStr ''1.3.0-beta''),
       (''winner'', JNull), (''outcome'', JStr (if labels \<noteq> [] then ''tie'' else ''invalid'')),
       (''consensus'', JStr ''divided''), (''ranking'', names),
       (''borda_points'', JObj (map (\<lambda>l. (l, JInt (int n * max 0 (int n - 1)))) labels)),
       (''win_counts'', JObj (map (\<lambda>l. (l, JInt (int n))) labels)),
       (''tie'', JBool (labels \<noteq> [])), (''tied_candidates'', names),
       (''valid_judgments'', JInt (int n)), (''counted_judgments'', JInt (int n)),
       (''abstentions'', JInt 0), (''invalid_judgments'', JInt 0),
       (''invalid_judgment_reasons'', JList []), (''has_material_disagreement'', JBool True),
       (''material_disagreements'', filled_items ''disagreement '' (n * 4) 280),
       (''verification_needed'', filled_items ''verification '' (n * 4) 280)])"

definition worst_votes :: "string list \<Rightarrow> json" where
  "worst_votes labels = JList (map (\<lambda>l. JObj
     [(''winner'', JStr l), (''ranking'', JList (map JStr labels)), (''confidence'', JStr ''medium''),
      (''abstain'', JBool False)]) labels)"

text \<open>The smallest judgment that a repair accepts, behind as many NUL characters as fit.\<close>

definition repair_object :: "(string \<times> json) list" where
  "repair_object =
     [(''winner'', JNull), (''ranking'', JList []), (''confidence'', JStr ''low''),
      (''abstain'', JBool True), (''rationale'', JStr []), (''material_disagreements'', JList []),
      (''verification_needed'', JList [])]"

definition nuls :: "nat \<Rightarrow> string" where
  "nuls n = replicate n (char_of (0 :: nat))"

definition worst_response :: "(rat \<Rightarrow> string) \<Rightarrow> string" where
  "worst_response fl = (let text = json_compact fl (JObj repair_object) in nuls (6000 - length text) @ text)"

definition stage_prompt_chars ::
  "json_codec \<Rightarrow> string \<Rightarrow> string list \<Rightarrow> run_policy \<Rightarrow> (nat \<Rightarrow> string) \<Rightarrow> (string, int) dict result" where
  "stage_prompt_chars cd question providers pol fresh =
     (let fl = jc_float cd in
      rbind (rmap (\<lambda>i. candidate_label (int i)) [0..<length providers]) (\<lambda>labels.
      let artifacts = map (\<lambda>l. (l, maximum_proposal_artifact l)) labels in
      rbind (proposal_prompts fl question None (fresh 0)) (\<lambda>p.
      rbind (jury_prompts fl question artifacts None (fresh 1)) (\<lambda>j.
      rbind (synthesis_prompts fl question artifacts (worst_aggregate labels) (worst_votes labels)
               None (fresh 2)) (\<lambda>s.
      let sizes = [(''proposal'', combined_prompt_chars p), (''jury'', combined_prompt_chars j),
                   (''synthesis'', combined_prompt_chars s)] in
      if rp_jury_repairs pol = 0 then Inr sizes
      else
        rbind (jury_repair_prompts fl (extract_json_object cd) (worst_response fl) (nuls 500) labels
                 None (fresh 3)) (\<lambda>(sys, user, _).
          Inr (sizes @ [(''jury_repair'', combined_prompt_chars (sys, user))])))))))"

section \<open>Room for a longer question\<close>

text \<open>A stage: its name, and its projected size for the questions \<open>x\<close>, \<open>xx\<close>, the question, and the
  question with an \<open>x\<close> behind it.\<close>

record stage_growth =
  gr_stage :: string
  gr_one :: int
  gr_two :: int
  gr_current :: int
  gr_appended :: int

definition growth :: "stage_growth \<Rightarrow> int" where
  "growth g = gr_two g - gr_one g"

definition size_of :: "(string, int) dict \<Rightarrow> string \<Rightarrow> int" where
  "size_of d stage = (case dict_get d stage of None \<Rightarrow> 0 | Some n \<Rightarrow> n)"

definition stage_capacity :: "run_policy \<Rightarrow> stage_growth \<Rightarrow> int option" where
  "stage_capacity pol g =
     (if growth g = 0 then (if gr_one g \<le> rp_max_prompt pol then None else Some 0)
      else Some (max 0 ((rp_max_prompt pol - (gr_one g - growth g)) div growth g)))"

definition headroom_step :: "run_policy \<Rightarrow> int \<Rightarrow> stage_growth \<Rightarrow> int" where
  "headroom_step pol room g =
     (if rp_max_prompt pol < gr_current g then 0
      else if growth g \<noteq> 0 then min room ((rp_max_prompt pol - gr_current g) div growth g)
      else room)"

definition capacity_of ::
  "run_policy \<Rightarrow> int \<Rightarrow> stage_growth list \<Rightarrow> int option \<times> int option \<times> string list" where
  "capacity_of pol question_chars gs =
     (if list_ex (\<lambda>g. growth g < 0 \<or> gr_appended g - gr_current g \<noteq> growth g) gs then (None, None, [])
      else
        (let bounded = List.map_filter (stage_capacity pol) gs;
             effective = Min (set (rp_max_question pol # bounded));
             room = foldl (headroom_step pol) (max 0 (rp_max_question pol - question_chars)) gs in
         (Some effective, Some (max 0 room),
          sorted_text (map gr_stage (filter (\<lambda>g. stage_capacity pol g = Some effective) gs)))))"

definition plain_question_capacity ::
  "json_codec \<Rightarrow> string \<Rightarrow> string list \<Rightarrow> run_policy \<Rightarrow> (string, int) dict \<Rightarrow> (nat \<Rightarrow> nat \<Rightarrow> string) \<Rightarrow>
   (int option \<times> int option \<times> string list) result" where
  "plain_question_capacity cd question providers pol current fresh =
     rbind (stage_prompt_chars cd ''x'' providers pol (fresh 1)) (\<lambda>one.
     rbind (stage_prompt_chars cd ''xx'' providers pol (fresh 2)) (\<lambda>two.
     rbind (stage_prompt_chars cd (question @ ''x'') providers pol (fresh 3)) (\<lambda>appended.
       Inr (if \<not> (fst ` set one = fst ` set two \<and> fst ` set two = fst ` set current
                  \<and> fst ` set appended = fst ` set current) then (None, None, [])
            else capacity_of pol (int (length question)) (map (\<lambda>(stage, n).
              \<lparr>gr_stage = stage, gr_one = n, gr_two = size_of two stage,
               gr_current = size_of current stage, gr_appended = size_of appended stage\<rparr>) one)))))"

section \<open>The plan\<close>

record workload_plan =
  wp_question_chars :: int
  wp_utf8_valid :: bool
  wp_providers :: "string list"
  wp_synthesis :: "string list"
  wp_mandatory :: int
  wp_recovery :: int
  wp_stage_chars :: "(string, int) dict"
  wp_max_question :: int
  wp_max_prompt :: int
  wp_question_exceeded :: bool
  wp_exceeded_stages :: "string list"
  wp_limiting :: "string list"
  wp_within :: bool
  wp_effective_max :: "int option"
  wp_headroom :: "int option"

text \<open>Texts of the range are always encodable, so \<open>_is_utf8_encodable\<close> holds.\<close>

definition is_utf8_encodable :: "string \<Rightarrow> bool" where
  "is_utf8_encodable s = True"

definition estimate_workload ::
  "json_codec \<Rightarrow> string \<Rightarrow> string list \<Rightarrow> run_policy \<Rightarrow> string list option \<Rightarrow> (nat \<Rightarrow> nat \<Rightarrow> string) \<Rightarrow>
   workload_plan result" where
  "estimate_workload cd question providers pol synthesis fresh =
     (let synthesizers = (case synthesis of Some s \<Rightarrow> s | None \<Rightarrow> take 1 providers);
          calls = int (length providers) * 2 + int (length synthesizers);
          chars = int (length question) in
      rbind (stage_prompt_chars cd question providers pol (fresh 0)) (\<lambda>sizes.
      let exceeded = sorted_text (map fst (filter (\<lambda>x. rp_max_prompt pol < snd x) sizes)) in
      rbind (plain_question_capacity cd question providers pol sizes fresh) (\<lambda>(effective, room, limiting).
        Inr \<lparr>wp_question_chars = chars, wp_utf8_valid = is_utf8_encodable question,
             wp_providers = providers, wp_synthesis = synthesizers, wp_mandatory = calls,
             wp_recovery = max 0 (rp_max_calls pol - int (length providers) * 2 - int (length synthesizers)),
             wp_stage_chars = sizes, wp_max_question = rp_max_question pol,
             wp_max_prompt = rp_max_prompt pol, wp_question_exceeded = (rp_max_question pol < chars),
             wp_exceeded_stages = exceeded, wp_limiting = limiting,
             wp_within = (is_utf8_encodable question \<and> chars \<le> rp_max_question pol \<and> exceeded = []),
             wp_effective_max = effective, wp_headroom = room\<rparr>)))"

text \<open>The dictionary that goes into events and results.\<close>

definition workload_json :: "workload_plan \<Rightarrow> (string \<times> json) list" where
  "workload_json p =
     [(''question_chars'', JInt (wp_question_chars p)), (''question_utf8_valid'', JBool (wp_utf8_valid p)),
      (''provider_count'', JInt (int (length (wp_providers p)))),
      (''providers'', JList (map JStr (wp_providers p))),
      (''synthesis_provider'', case wp_synthesis p of [] \<Rightarrow> JNull | s # _ \<Rightarrow> JStr s),
      (''synthesis_providers'', JList (map JStr (wp_synthesis p))),
      (''mandatory_calls'', JInt (wp_mandatory p)), (''recovery_call_capacity'', JInt (wp_recovery p)),
      (''stage_prompt_chars'', JObj (map (\<lambda>x. (fst x, JInt (snd x))) (wp_stage_chars p))),
      (''max_question_chars'', JInt (wp_max_question p)), (''max_stage_prompt_chars'', JInt (wp_max_prompt p)),
      (''limits'', JObj [(''question_chars'', JInt (wp_max_question p)),
         (''stage_prompt_chars'', JInt (wp_max_prompt p))]),
      (''question_limit_exceeded'', JBool (wp_question_exceeded p)),
      (''prompt_limit_exceeded_stages'', JList (map JStr (wp_exceeded_stages p))),
      (''limiting_stages'', JList (map JStr (wp_limiting p))), (''within_limits'', JBool (wp_within p)),
      (''effective_plain_question_max_chars'', opt_int (wp_effective_max p)),
      (''plain_question_headroom_chars'', opt_int (wp_headroom p)),
      (''plain_question_basis'', JStr ''unescaped ASCII characters''),
      (''estimate_basis'', JStr ''protocol-character-upper-bound'')]"

definition require_workload_within_limits :: "workload_plan \<Rightarrow> unit result" where
  "require_workload_within_limits p =
     require (wp_utf8_valid p) (ValueError
       ''Question contains Unicode surrogate code points and cannot be encoded as UTF-8'')
    (require (\<not> wp_question_exceeded p) (ValueError
       (''Question is too large for the configured council workload: '' @ int_text (wp_question_chars p)
          @ '' characters exceeds '' @ int_text (wp_max_question p)))
    (require (wp_exceeded_stages p = []) (ValueError
       (''Projected council prompt growth exceeds max_stage_prompt_chars='' @ int_text (wp_max_prompt p)
          @ '': '' @ join_text '', '' (map (\<lambda>stage. stage @ ''='' @ int_text (size_of (wp_stage_chars p) stage))
              (wp_exceeded_stages p))))
      (Inr ())))"

end
