(* ===== verification/Approval.thy ===== *)
theory Approval imports Config_Load Workload begin

text \<open>
  \<open>approval.py\<close>: the plan of a run with its fingerprint, and the tokens by which a human approves the
  plan; and the fingerprint of the protocol.  SHA-256 of a text and of the canonical text of a JSON
  value, and HMAC-SHA256 by key and text, are arguments (they return hexadecimal digits); so are the
  random key and nonce.  The key file is the state: its text, if it exists.
\<close>

record approval_env =
  ae_config :: config_env
  ae_codec :: json_codec
  ae_sha :: "string \<Rightarrow> string"
  ae_shaj :: "json \<Rightarrow> string"
  ae_mac :: "string \<Rightarrow> string \<Rightarrow> string"
  ae_fresh :: "nat \<Rightarrow> nat \<Rightarrow> string"

section \<open>Fingerprints\<close>

text \<open>The templates are the prompts with their fields in place.\<close>

definition protocol_material :: json where
  "protocol_material = JObj
     [(''id'', JStr ''independent-jury''), (''version'', JStr ''1.3.0-beta''),
      (''candidate_label_prefix'', JStr ''CANDIDATE_''),
      (''proposal_system'', JStr proposal_system_text),
      (''proposal_user'', JStr (proposal_user ''{question_payload}'' ''{marker}'')),
      (''jury_system'', JStr jury_system_text),
      (''jury_user'', JStr (jury_user ''{candidate_labels}'' ''{evaluation_payload}'' ''{marker}'')),
      (''jury_repair_system'', JStr jury_repair_system_text),
      (''jury_repair_user'', JStr (jury_repair_user ''{repair_payload}'' ''{marker}'')),
      (''synthesis_system'', JStr synthesis_system_text),
      (''synthesis_user'', JStr (synthesis_user ''{council_payload}'' ''{marker}'')),
      (''proposal_keys'', JList (map JStr (sorted_text proposal_keys))),
      (''proposal_json_schema'', proposal_json_schema),
      (''proposal_generation_json_schema'', proposal_generation_json_schema),
      (''jury_keys'', JList (map JStr (sorted_text jury_keys))),
      (''confidence_values'', JList (map JStr (sorted_text [''low'', ''medium'', ''high'']))),
      (''jury_json_schema'', jury_json_schema),
      (''jury_repair_input_max_chars'', JInt 6000), (''jury_repair_error_max_chars'', JInt 500)]"

definition protocol_hash :: "(json \<Rightarrow> string) \<Rightarrow> string" where
  "protocol_hash shaj = shaj (canon protocol_material)"

section \<open>The plan\<close>

definition is_paid :: "app_config \<Rightarrow> bool" where
  "is_paid c \<longleftrightarrow> list_ex (\<lambda>p. \<not> is_mock p) (ac_providers c)"

record cost_figures =
  ce_paid :: bool
  ce_providers :: "(string \<times> string) list"
  ce_mandatory :: int
  ce_max_calls :: int
  ce_max_input :: int
  ce_max_output :: int

definition largest :: "int list \<Rightarrow> int" where
  "largest xs = (if xs = [] then 0 else Max (set xs))"

definition cost_estimate :: "app_config \<Rightarrow> workload_plan \<Rightarrow> cost_figures" where
  "cost_estimate c w =
     (let calls = min (rp_max_calls (ac_policy c)) (wp_mandatory w + wp_recovery w);
          prompt = largest (map snd (wp_stage_chars w));
          output = largest (concat (map (\<lambda>p. map (output_tokens_for p) council_stages) (ac_providers c))) in
      \<lparr>ce_paid = is_paid c, ce_providers = map (\<lambda>p. (cf_name p, cf_model p)) (ac_providers c),
       ce_mandatory = wp_mandatory w, ce_max_calls = calls, ce_max_input = - ((- (calls * prompt)) div 4),
       ce_max_output = calls * output\<rparr>)"

definition cost_json :: "cost_figures \<Rightarrow> jobj" where
  "cost_json e =
     [(''paid'', JBool (ce_paid e)), (''provider_count'', JInt (int (length (ce_providers e)))),
      (''providers'', JList (map (\<lambda>p. JObj [(''name'', JStr (fst p)), (''model'', JStr (snd p))]) (ce_providers e))),
      (''healthy_run_calls'', JInt (2 * int (length (ce_providers e)) + 1)),
      (''mandatory_reserved_calls'', JInt (ce_mandatory e)), (''max_calls'', JInt (ce_max_calls e)),
      (''max_input_tokens_upper_bound'', JInt (ce_max_input e)),
      (''max_output_tokens_upper_bound'', JInt (ce_max_output e)), (''currency_estimate'', JNull),
      (''note'', JStr (''Call and output figures use configured limits. The legacy max_input_tokens_upper_bound ''
         @ ''field is an approximation at 4 characters per token, not a guaranteed upper bound. Provider ''
         @ ''tokenization and prices vary; this is not a currency ceiling.''))]"

definition lineage_json :: "lineage_summary \<Rightarrow> jobj" where
  "lineage_json r =
     [(''status'', JStr (lr_status r)), (''lineage_count'', JInt (lr_count r)),
      (''unverified_providers'', JList (map JStr (lr_unverified r))),
      (''mismatches'', JList (map JStr (lr_mismatches r))),
      (''duplicate_models'', JList (map JStr (lr_duplicates r)))]"

definition provider_material :: "provider_config \<Rightarrow> jobj" where
  "provider_material p = dict_set ''secret_name'' (JStr (cf_secret p)) (provider_to_dict p)"

record run_plan =
  pl_hash :: string
  pl_question_sha :: string
  pl_estimate :: cost_figures
  pl_workload :: workload_plan
  pl_approval :: bool
  pl_protocol :: string
  pl_diversity :: lineage_summary

definition plan_material ::
  "approval_env \<Rightarrow> app_config \<Rightarrow> string \<Rightarrow> workload_plan \<Rightarrow> lineage_summary \<Rightarrow> jobj" where
  "plan_material ae c question w diversity =
     [(''question_sha256'', JStr (ae_sha ae question)),
      (''providers'', JList (map (\<lambda>p. JObj (provider_material p)) (ac_providers c))),
      (''protocol_hash'', JStr (protocol_hash (ae_shaj ae))), (''diversity'', JObj (lineage_json diversity)),
      (''synthesis_providers'', JList (map JStr (synthesis_chain c))),
      (''policy'', JObj (policy_to_dict (ac_policy c))), (''workload'', JObj (workload_json w)),
      (''estimate'', JObj (cost_json (cost_estimate c w)))]"

definition plan_record :: "approval_env \<Rightarrow> app_config \<Rightarrow> string \<Rightarrow> run_plan result" where
  "plan_record ae c question =
     rbind (estimate_workload (ae_codec ae) question (map cf_name (ac_providers c)) (ac_policy c)
              (Some (synthesis_chain c)) (ae_fresh ae)) (\<lambda>w.
     rbind (lineage_report (ae_config ae) (ac_providers c)) (\<lambda>diversity.
       Inr \<lparr>pl_hash = ae_shaj ae (canon (JObj (plan_material ae c question w diversity))),
            pl_question_sha = ae_sha ae question, pl_estimate = cost_estimate c w, pl_workload = w,
            pl_approval = is_paid c, pl_protocol = protocol_hash (ae_shaj ae), pl_diversity = diversity\<rparr>))"

section \<open>The key\<close>

definition hex_text :: "string \<Rightarrow> string" where
  "hex_text s = concat (map (\<lambda>c. let n = (of_char c :: nat) in [hex_digit (n div 16), hex_digit (n mod 16)]) s)"

definition hex_value :: "char \<Rightarrow> nat option" where
  "hex_value c = (let n = (of_char c :: nat) in
     if 48 \<le> n \<and> n \<le> 57 then Some (n - 48)
     else if 97 \<le> n \<and> n \<le> 102 then Some (n - 87)
     else if 65 \<le> n \<and> n \<le> 70 then Some (n - 55) else None)"

definition ascii_space :: "char \<Rightarrow> bool" where
  "ascii_space c \<longleftrightarrow> (let n = (of_char c :: nat) in n = 32 \<or> (9 \<le> n \<and> n \<le> 13))"

text \<open>\<open>bytes.fromhex\<close>: pairs of digits, with space between the pairs.\<close>

fun from_hex :: "string \<Rightarrow> string option" where
  "from_hex [] = Some []"
| "from_hex (c # cs) =
     (if ascii_space c then from_hex cs
      else (case cs of
              [] \<Rightarrow> None
            | d # ds \<Rightarrow>
                (case (hex_value c, hex_value d) of
                   (Some a, Some b) \<Rightarrow> map_option (\<lambda>bs. char_of (16 * a + b) # bs) (from_hex ds)
                 | _ \<Rightarrow> None)))"

type_synonym key_file = "string option"

definition load_key :: "bool \<Rightarrow> string \<Rightarrow> (key_file, string option) action" where
  "load_key create fresh st = (case st of
     Some text \<Rightarrow>
       (case from_hex (py_strip text) of
          None \<Rightarrow> (Inl (ValueError ''non-hexadecimal number found in fromhex() arg''), st)
        | Some key \<Rightarrow> (Inr (Some key), st))
   | None \<Rightarrow> if create then (Inr (Some fresh), Some (hex_text fresh)) else (Inr None, None))"

section \<open>Tokens\<close>

definition token_prefix :: string where
  "token_prefix = ''cla1.''"

definition mac_message :: "string \<Rightarrow> string \<Rightarrow> int \<Rightarrow> string \<Rightarrow> string" where
  "mac_message hash name calls nonce =
     hash @ newline @ name @ newline @ int_text calls @ (if nonce = [] then [] else newline @ nonce)"

definition clean_name :: "string option \<Rightarrow> string result" where
  "clean_name approved_by =
     (let name = py_strip (case approved_by of None \<Rightarrow> [] | Some s \<Rightarrow> s) in
      require (name \<noteq> [] \<and> length name \<le> 120 \<and> hd newline \<notin> set name)
        (ValueError ''--approved-by must be a non-empty name (max 120 chars)'') (Inr name))"

definition plan_mac :: "approval_env \<Rightarrow> string \<Rightarrow> run_plan \<Rightarrow> string \<Rightarrow> string \<Rightarrow> string" where
  "plan_mac ae key plan name nonce =
     ae_mac ae key (mac_message (pl_hash plan) name (ce_max_calls (pl_estimate plan)) nonce)"

definition issue_token ::
  "approval_env \<Rightarrow> run_plan \<Rightarrow> string \<Rightarrow> string \<Rightarrow> string \<Rightarrow> (key_file, string) action" where
  "issue_token ae plan approved_by fresh_key nonce =
     sbind (load_key True fresh_key) (\<lambda>key.
     sbind (sresult (clean_name (Some approved_by))) (\<lambda>name.
       sreturn (token_prefix @ nonce @ ''.''
         @ plan_mac ae (case key of None \<Rightarrow> [] | Some k \<Rightarrow> k) plan name nonce)))"

text \<open>\<open>body.rpartition(".")\<close>, without the separator.\<close>

definition split_last_dot :: "string \<Rightarrow> string \<times> string" where
  "split_last_dot s =
     (if CHR ''.'' \<in> set s
      then (rev (tl (dropWhile (\<lambda>c. c \<noteq> CHR ''.'') (rev s))), rev (takeWhile (\<lambda>c. c \<noteq> CHR ''.'') (rev s)))
      else ([], s))"

definition ascii_text :: "string \<Rightarrow> bool" where
  "ascii_text s \<longleftrightarrow> list_all (\<lambda>c. (of_char c :: nat) < 128) s"

definition not_valid_here :: py_error where
  "not_valid_here = PermissionError ''Paid run refused: approval token is not valid here''"

definition verify_token ::
  "approval_env \<Rightarrow> key_file \<Rightarrow> run_plan \<Rightarrow> string option \<Rightarrow> string option \<Rightarrow> string result" where
  "verify_token ae st plan approved_by token =
     (case (nonempty approved_by, nonempty token) of
        (Some _, Some tok) \<Rightarrow>
          rbind (clean_name approved_by) (\<lambda>name.
          rbind (fst (load_key False [] st)) (\<lambda>stored.
          case stored of
            None \<Rightarrow> Inl not_valid_here
          | Some key \<Rightarrow>
              require (starts_with tok token_prefix) not_valid_here
              (case split_last_dot (drop (length token_prefix) tok) of (nonce, mac) \<Rightarrow>
                require (nonce = [] \<or> length nonce = 16 \<and> list_all marker_char nonce) not_valid_here
               (let expected = plan_mac ae key plan name nonce in
                require (ascii_text expected \<and> ascii_text mac)
                  (TypeError ''comparing strings with non-ASCII characters is not supported'')
               (require (expected = mac)
                  (PermissionError (''Paid run refused: approval token does not match this plan ''
                     @ ''(question, providers, policy or estimate differ) or approver''))
                  (Inr (ae_sha ae tok)))))))
      | _ \<Rightarrow> Inl (PermissionError (''Paid run refused: human approval is required. Run ''
               @ ''`council plan --json`, have a human run `council approve` for that plan, then pass ''
               @ ''--approved-by NAME --approval-token TOKEN.'')))"

end
