(* ===== verification/Workload_Properties.thy ===== *)
theory Workload_Properties imports Workload Prompt_Laws Jury_Laws begin

text \<open>
  The projection of the prompt sizes is an upper bound: no set of proposals that pass validation can
  make a jury prompt longer than the plan says.
\<close>

section \<open>The length of indented text\<close>

text \<open>The length of a list or an object \<open>k\<close> levels deep, from the lengths of its items.\<close>

definition block_length :: "nat \<Rightarrow> nat list \<Rightarrow> nat" where
  "block_length k ns = (if ns = [] then 2
     else 2 + (1 + 2 * Suc k) + sum_list ns + (2 + 2 * Suc k) * (length ns - 1) + (1 + 2 * k))"

lemma length_indented_list:
  "length (json_indented fl k (JList xs)) = block_length k (map (\<lambda>x. length (json_indented fl (Suc k) x)) xs)"
  by (simp add: block_length_def length_join_text comp_def)

definition entry_length :: "(rat \<Rightarrow> string) \<Rightarrow> nat \<Rightarrow> string \<times> json \<Rightarrow> nat" where
  "entry_length fl k p = length (json_string (fst p)) + 2 + length (json_indented fl k (snd p))"

lemma length_indented_obj:
  "length (json_indented fl k (JObj m)) = block_length k (map (entry_length fl (Suc k)) m)"
  by (simp add: block_length_def length_join_text comp_def entry_length_def [abs_def])

lemma block_length_mono:
  assumes "length ns \<le> length ms" and "sum_list ns \<le> sum_list ms" and "ms \<noteq> []"
  shows "block_length k ns \<le> block_length k ms"
proof (cases "ns = []")
  case True
  with assms(3) show ?thesis by (simp add: block_length_def)
next
  case False
  have "(2 + 2 * Suc k) * (length ns - 1) \<le> (2 + 2 * Suc k) * (length ms - 1)"
    using assms(1) by (intro mult_le_mono) auto
  with False assms(2,3) show ?thesis unfolding block_length_def by simp
qed

lemma sum_list_bounded:
  assumes "\<And>x. x \<in> set xs \<Longrightarrow> f x \<le> (b :: nat)"
  shows "sum_list (map f xs) \<le> length xs * b"
  using sum_list_mono [of xs f "\<lambda>_. b"] assms by (simp add: sum_list_triv)

lemma sum_list_at_least:
  assumes "\<And>x. x \<in> set xs \<Longrightarrow> (b :: nat) \<le> f x"
  shows "length xs * b \<le> sum_list (map f xs)"
  using sum_list_mono [of xs "\<lambda>_. b" f] assms by (simp add: sum_list_triv)

section \<open>Artifacts\<close>

lemma length_filled: "length (filled prefix n) = n"
  by (simp add: filled_def)

lemma filled_string: "n + 2 \<le> length (json_string (filled prefix n))"
  using length_le_serialized [of "filled prefix n"] by (simp add: length_json_string length_filled)

lemma bounded_list_length:
  assumes "bounded_items items chars xs" and "0 < items"
  shows "length (json_indented fl k (JList (map JStr xs))) \<le> length (json_indented fl k (filled_items prefix items chars))"
proof -
  have len: "length xs \<le> items" and each: "\<And>x. x \<in> set xs \<Longrightarrow> serialized_string_chars x \<le> chars"
    using assms(1) by (auto simp: bounded_items_def bounded_text_def)
  have "sum_list (map (\<lambda>x. length (json_indented fl (Suc k) (JStr x))) xs) \<le> length xs * (chars + 2)"
    by (rule sum_list_bounded) (simp add: length_json_string each)
  also have "\<dots> \<le> items * (chars + 2)" using len by (rule mult_le_mono1)
  also have "items * (chars + 2) = length [0..<items] * (chars + 2)" by simp
  also have "\<dots> \<le> sum_list (map (\<lambda>i. length (json_indented fl (Suc k)
      (JStr (filled (prefix @ decimal_text (Suc i) @ '': '') chars)))) [0..<items])"
    by (rule sum_list_at_least) (use filled_string in simp)
  finally show ?thesis
    unfolding filled_items_def length_indented_list list.map_comp comp_def
    using len assms(2) by (intro block_length_mono) auto
qed

lemma artifact_length:
  assumes "wf_proposal p"
  shows "length (json_indented fl k (JObj (proposal_object p)))
    \<le> length (json_indented fl k (maximum_proposal_artifact l))"
proof -
  have "length (json_indented fl (Suc k) (JStr (pp_outcome p)))
      \<le> length (json_indented fl (Suc k) (JStr (filled (l @ '' outcome: '') 600)))"
    using assms filled_string [of 600 "l @ '' outcome: ''"]
    by (simp add: wf_proposal_def bounded_text_def length_json_string)
  moreover have "length (json_indented fl (Suc k) (JList (map JStr (pp_evidence p))))
      \<le> length (json_indented fl (Suc k) (filled_items (l @ '' reason '') 4 350))"
    and "length (json_indented fl (Suc k) (JList (map JStr (pp_uncertainty p))))
      \<le> length (json_indented fl (Suc k) (filled_items (l @ '' uncertainty '') 3 280))"
    and "length (json_indented fl (Suc k) (JList (map JStr (pp_verification p))))
      \<le> length (json_indented fl (Suc k) (filled_items (l @ '' verification '') 4 280))"
    by (intro bounded_list_length; use assms in \<open>simp add: wf_proposal_def\<close>)+
  ultimately show ?thesis
    unfolding proposal_object_def maximum_proposal_artifact_def length_indented_obj
    by (intro block_length_mono) (simp_all add: entry_length_def del: json_indented.simps)
qed

section \<open>The jury prompt\<close>

lemma framed_length:
  assumes "length m = length m'" and "length body \<le> length body'"
    and "sum_list (map length intro) \<le> sum_list (map length intro')" and "length intro = length intro'"
  shows "length (framed intro name m body) \<le> length (framed intro' name m' body')"
  using assms by (simp add: framed_def text_lines_def length_join_text newline_def)

lemma checked_marker_fresh [result_simps]:
  "checked_marker None fresh payloads = Inr r \<longleftrightarrow>
     r = fresh \<and> marker_ok fresh \<and> (\<forall>p\<in>set payloads. \<not> occurs_in fresh p)"
  by (auto simp: checked_marker_def result_simps list_ex_iff)

lemma sum_list_submset:
  fixes f :: "'a \<Rightarrow> nat"
  assumes "mset ks \<subseteq># mset ls"
  shows "sum_list (map f ks) \<le> sum_list (map f ls)"
proof -
  obtain R where "mset ls = mset ks + R" using assms by (auto simp: subset_mset.le_iff_add)
  then have "sum_mset (image_mset f (mset ls)) = sum_mset (image_mset f (mset ks)) + sum_mset (image_mset f R)"
    by simp
  then show ?thesis by (metis le_add1 mset_map sum_mset_sum_list)
qed

lemma labels_length:
  assumes "mset ks \<subseteq># mset ls" and "ls \<noteq> []"
  shows "length (payload_text fl (JList (map JStr ks))) \<le> length (payload_text fl (JList (map JStr ls)))"
proof -
  have "length ks \<le> length ls" using assms(1) by (metis size_mset size_mset_mono)
  moreover have "sum_list (map (\<lambda>l. length (json_string l)) ks) \<le> sum_list (map (\<lambda>l. length (json_string l)) ls)"
    by (rule sum_list_submset [OF assms(1)])
  ultimately show ?thesis
    unfolding payload_text_def length_indented_list
    by (intro block_length_mono) (use assms(2) in \<open>simp_all add: comp_def\<close>)
qed

text \<open>The projected prompt: every configured provider is a candidate, with an artifact that fills every bound.\<close>

lemma projected_jury:
  assumes "stage_prompt_chars cd question providers pol fresh = Inr sizes"
  shows "\<exists>labels body. rmap (\<lambda>i. candidate_label (int i)) [0..<length providers] = Inr labels
    \<and> labels \<noteq> [] \<and> marker_ok (fresh 1)
    \<and> dict_get sizes ''jury'' = Some (combined_prompt_chars (jury_system_text,
        jury_user (payload_text (jc_float cd) (JList (map JStr labels)))
          (payload_text (jc_float cd) (JObj [(''question'', JStr question), (''candidates'',
             JObj (map (\<lambda>l. (l, maximum_proposal_artifact l)) labels))])) (fresh 1)))"
  using assms
  by (auto simp: stage_prompt_chars_def jury_prompts_def question_ok_def candidates_ok_def Let_def
      result_simps comp_def valid_labels_def split: if_splits prod.splits)

text \<open>C26: The workload plan bounds the jury prompts.  If the plan for a question and a list of providers
  projects a size for the jury stage, then no jury prompt of the run is longer: whatever proposals
  passed validation, however many providers failed to propose, and in whatever order the candidates
  are presented to a juror.\<close>

theorem jury_prompt_within_plan:
  assumes plan: "stage_prompt_chars cd question providers pol fresh = Inr sizes"
    and labels: "rmap (\<lambda>i. candidate_label (int i)) [0..<length providers] = Inr labels"
    and some: "mset (map fst candidates) \<subseteq># mset labels"
    and valid: "\<And>l a. (l, a) \<in> set candidates \<Longrightarrow> \<exists>reply p. parse_proposal extract reply = Inr p \<and> a = JObj (proposal_object p)"
    and prompt: "jury_prompts (jc_float cd) question candidates (Some m) again = Inr prompts"
    and marker: "length m = length (fresh 1)"
  shows "\<exists>n. dict_get sizes ''jury'' = Some n \<and> combined_prompt_chars prompts \<le> n"
proof -
  let ?fl = "jc_float cd"
  let ?worst = "map (\<lambda>l. (l, maximum_proposal_artifact l)) labels"
  let ?body = "\<lambda>cs. payload_text ?fl (JObj [(''question'', JStr question), (''candidates'', JObj cs)])"
  have ne: "labels \<noteq> []"
    and size: "dict_get sizes ''jury'' = Some (combined_prompt_chars (jury_system_text,
        jury_user (payload_text ?fl (JList (map JStr labels))) (?body ?worst) (fresh 1)))"
    using projected_jury [OF plan] labels by auto
  have user: "prompts = (jury_system_text, jury_user (payload_text ?fl (JList (map JStr (map fst candidates)))) (?body candidates) m)"
    using prompt by (auto simp: jury_prompts_def question_ok_def candidates_ok_def Let_def result_simps checked_marker_def)
  have entry: "entry_length ?fl 2 c \<le> entry_length ?fl 2 (fst c, maximum_proposal_artifact (fst c))"
    if mem: "c \<in> set candidates" for c
  proof -
    obtain reply p where p: "parse_proposal extract reply = Inr p" "snd c = JObj (proposal_object p)"
      using valid [of "fst c" "snd c"] mem by auto
    then have "wf_proposal p" by (auto simp: parse_proposal_def result_simps intro: proposal_sound)
    from artifact_length [OF this, of ?fl 2 "fst c"] show ?thesis by (simp add: entry_length_def p)
  qed
  have "sum_list (map (entry_length ?fl 2) candidates)
      \<le> sum_list (map (\<lambda>l. entry_length ?fl 2 (l, maximum_proposal_artifact l)) (map fst candidates))"
    using sum_list_mono [of candidates, OF entry] by (simp add: comp_def)
  also have "\<dots> \<le> sum_list (map (\<lambda>l. entry_length ?fl 2 (l, maximum_proposal_artifact l)) labels)"
    by (rule sum_list_submset [OF some])
  finally have sum: "sum_list (map (entry_length ?fl 2) candidates) \<le> sum_list (map (entry_length ?fl 2) ?worst)"
    by (simp add: comp_def)
  have count: "length candidates \<le> length labels"
    using some by (metis length_map size_mset size_mset_mono)
  have inner: "length (json_indented ?fl 1 (JObj candidates)) \<le> length (json_indented ?fl 1 (JObj ?worst))"
    unfolding length_indented_obj
    using sum count ne by (intro block_length_mono) (simp_all add: numeral_2_eq_2)
  have body: "length (?body candidates) \<le> length (?body ?worst)"
    unfolding payload_text_def length_indented_obj
    by (intro block_length_mono) (use inner in \<open>simp_all add: entry_length_def del: json_indented.simps\<close>)
  have "length (jury_user (payload_text ?fl (JList (map JStr (map fst candidates)))) (?body candidates) m)
      \<le> length (jury_user (payload_text ?fl (JList (map JStr labels))) (?body ?worst) (fresh 1))"
    unfolding jury_user_def using labels_length [OF some ne, of ?fl]
    by (intro framed_length marker body) simp_all
  then show ?thesis unfolding size user by (simp add: combined_prompt_chars_def combined_prompt_def)
qed

text \<open>A plan, computed without spelling out the projected prompts.\<close>

definition plan_codec :: json_codec where
  "plan_codec = \<lparr>jc_decode = (\<lambda>s i. None), jc_float = (\<lambda>q. [])\<rparr>"

definition plan_marker :: string where
  "plan_marker = ''0123456789abcdef''"

definition mark_free :: "string \<Rightarrow> bool" where
  "mark_free s \<longleftrightarrow> \<not> long_run s \<and> list_all (\<lambda>c. json_escape c = [c]) s"

lemma plan_marker_hex: "hex_marker plan_marker"
  unfolding hex_marker_def by code_simp

lemma quoted_count:
  assumes m: "hex_marker m" and "list_all (\<lambda>c. json_escape c = [c]) s" and "count_in m s = 0"
  shows "count_in m (json_string s) = 0"
proof -
  have "concat (map json_escape s) = s" using assms(2) by (induction s) simp_all
  then have "json_string s = quote @ s @ quote" by (simp add: json_string_def)
  moreover have "closed_text quote" by (simp add: closed_text_def quote_def marker_char_def)
  moreover have "count_in m quote = 0"
    by (rule no_long_run [OF m]) (simp add: quote_def marker_char_def)
  ultimately show ?thesis
    using assms(3) sandwich_count [OF m, of quote s "[]"] hex_marker_ne [OF m]
    by (simp add: closed_count [OF m])
qed

lemma filled_calm:
  assumes m: "hex_marker m" and p: "mark_free prefix" "length prefix \<le> n"
  shows "calm m (JStr (filled prefix n))"
proof -
  have "json_escape (CHR ''x'') = ''x''" "\<not> marker_char (CHR ''x'')" by code_simp+
  moreover have "\<not> long_run (replicate k (CHR ''x''))" for k
    by (induction k) (simp_all add: marker_char_def)
  moreover have "filled prefix n = prefix @ replicate (n - length prefix) (CHR ''x'')"
    using p(2) by (simp add: filled_def)
  ultimately have "count_in m (filled prefix n) = 0 \<and> list_all (\<lambda>c. json_escape c = [c]) (filled prefix n)"
    using p(1) no_long_run [OF m, of prefix] no_long_run [OF m, of "replicate k (CHR ''x'')" for k]
      hex_marker_sep [OF m, of "CHR ''x''" prefix]
    by (cases "n - length prefix") (auto simp: mark_free_def list_all_iff)
  then show ?thesis using quoted_count [OF m] by simp
qed

lemma items_calm:
  assumes m: "hex_marker m"
    and items: "list_all (\<lambda>i. mark_free (prefix @ decimal_text (Suc i) @ '': '')
       \<and> length (decimal_text (Suc i)) \<le> 2) [0..<items]"
    and n: "length prefix + 4 \<le> n"
  shows "calm m (filled_items prefix items n)"
proof -
  have "calm m (JStr (filled (prefix @ decimal_text (Suc i) @ '': '') n))" if "i \<in> set [0..<items]" for i
  proof (rule filled_calm [OF m])
    show "mark_free (prefix @ decimal_text (Suc i) @ '': '')" using items that by (simp add: list_all_iff)
    have "length (decimal_text (Suc i)) \<le> 2" using items that by (simp add: list_all_iff)
    with n show "length (prefix @ decimal_text (Suc i) @ '': '') \<le> n" by simp
  qed
  then show ?thesis by (simp add: filled_items_def list_all_iff del: calm.simps(1))
qed

lemma free_calm:
  assumes "hex_marker m" and "mark_free s"
  shows "count_in m (json_string s) = 0" "calm m (JStr s)"
  using assms quoted_count no_long_run by (simp_all add: mark_free_def)

lemma checked_calm:
  "hex_marker m \<Longrightarrow> marker_ok m \<Longrightarrow> calm m v \<Longrightarrow> checked_marker None m [payload_text fl v] = Inr m"
  using calm_count [of m v fl 0] by (simp add: checked_marker_def payload_text_def count_in_zero)

text \<open>The strings of the projection for one provider; digits never run long enough for a marker.\<close>

lemma plan_strings:
  "list_all mark_free [''x'', ''question'', ''candidates'', ''CANDIDATE_01'', ''outcome'',
     ''evidence_and_reasoning'', ''uncertainty'', ''verification_needed'', ''aggregate'', ''jury_votes'',
     ''protocol_id'', ''protocol_version'', ''winner'', ''consensus'', ''ranking'', ''borda_points'',
     ''win_counts'', ''tie'', ''tied_candidates'', ''valid_judgments'', ''counted_judgments'',
     ''abstentions'', ''invalid_judgments'', ''invalid_judgment_reasons'', ''has_material_disagreement'',
     ''material_disagreements'', ''independent-jury'', ''1.3.0-beta'', ''divided'', ''confidence'',
     ''medium'', ''abstain'', ''CANDIDATE_01 outcome: '']"
  by (simp add: mark_free_def marker_char_def json_escape_def)

lemma plan_items:
  "calm plan_marker (filled_items ''CANDIDATE_01 reason '' 4 350)"
  "calm plan_marker (filled_items ''CANDIDATE_01 uncertainty '' 3 280)"
  "calm plan_marker (filled_items ''CANDIDATE_01 verification '' 4 280)"
  "calm plan_marker (filled_items ''disagreement '' 4 280)"
  "calm plan_marker (filled_items ''verification '' 4 280)"
  by (rule items_calm [OF plan_marker_hex],
      simp add: upt_rec mark_free_def marker_char_def json_escape_def decimal_digit digit_def, simp)+

lemma plan_facts:
  "marker_ok plan_marker" "nonblank ''x''" "candidate_label 0 = Inr ''CANDIDATE_01''"
  "validated_labels [''CANDIDATE_01''] = Inr [''CANDIDATE_01'']"
  "compact_votes (worst_votes [''CANDIDATE_01'']) = [JObj [(''winner'', JStr ''CANDIDATE_01''),
     (''ranking'', JList [JStr ''CANDIDATE_01'']), (''confidence'', JStr ''medium''), (''abstain'', JBool False)]]"
  "length (int_text 0) < length plan_marker \<and> length (int_text 1) < length plan_marker"
  by code_simp+

lemma plan_example:
  assumes "mark_free q" and "nonblank q"
  shows "\<exists>sizes. stage_prompt_chars plan_codec q [''p''] default_policy (\<lambda>_. plan_marker) = Inr sizes"
proof -
  note m = plan_marker_hex
  have question: "calm plan_marker (JStr q)" using free_calm(2) [OF m assms(1)] .
  let ?ls = "[''CANDIDATE_01'']"
  let ?arts = "[(''CANDIDATE_01'', maximum_proposal_artifact ''CANDIDATE_01'')]"
  note strings = plan_strings [unfolded list.pred_inject] and free = free_calm [OF m]
  note simps = list.pred_inject fst_conv snd_conv simp_thms calm.simps(2-)
  have "calm plan_marker (JStr (filled (''CANDIDATE_01'' @ '' outcome: '') 600))"
    using strings by (intro filled_calm [OF m]) simp_all
  then have art: "calm plan_marker (maximum_proposal_artifact ''CANDIDATE_01'')"
    unfolding maximum_proposal_artifact_def
    by (simp only: simps free strings plan_items append_Cons append_Nil)
  have arts: "calm plan_marker (JObj ?arts)"
    by (simp only: simps free strings art)
  have aggregate: "calm plan_marker (JObj (worst_aggregate ?ls))"
    using plan_items(4,5) plan_facts(6) by (simp add: worst_aggregate_def Let_def free strings del: calm.simps(1))
  have votes: "calm plan_marker (JList (compact_votes (worst_votes ?ls)))"
    unfolding plan_facts(5) by (simp only: simps free strings)
  let ?jury = "[(''question'', JStr q), (''candidates'', JObj ?arts)]"
  let ?entry = "[(''question'', JStr q), (''candidates'', JObj ?arts),
    (''aggregate'', JObj (worst_aggregate ?ls)), (''jury_votes'', JList (compact_votes (worst_votes ?ls)))]"
  have "calm plan_marker (JObj [(''question'', JStr q)])" by (simp only: simps free strings question)
  moreover have "calm plan_marker (JObj ?jury)"
    by (simp only: calm.simps(5) [of _ ?jury] list.pred_inject fst_conv snd_conv simp_thms free strings question arts)
  moreover have "calm plan_marker (JObj ?entry)"
    by (simp only: calm.simps(5) [of _ ?entry] list.pred_inject fst_conv snd_conv simp_thms free strings question arts
        aggregate votes)
  moreover have ok: "candidates_ok ?arts = Inr ?ls"
    by (simp add: candidates_ok_def maximum_proposal_artifact_def plan_facts(4))
  moreover note checked_calm [OF m plan_facts(1)]
  ultimately show ?thesis
    by (simp add: stage_prompt_chars_def proposal_prompts_def jury_prompts_def synthesis_prompts_def
        question_ok_def plan_facts(3) assms(2) default_policy_def Let_def del: calm.simps)
qed

text \<open>A run in which the provider proposes one short sentence.\<close>

definition plan_proposal :: proposal where
  "plan_proposal = \<lparr>pp_outcome = ''yes'', pp_evidence = [], pp_uncertainty = [], pp_verification = []\<rparr>"

definition plan_candidates :: "(string \<times> json) list" where
  "plan_candidates = [(''CANDIDATE_01'', JObj (proposal_object plan_proposal))]"

lemma plan_prompts:
  "\<exists>prompts. jury_prompts (jc_float plan_codec) ''x'' plan_candidates (Some plan_marker) [] = Inr prompts"
proof -
  note m = plan_marker_hex
  have "mark_free ''yes''" by (simp add: mark_free_def marker_char_def json_escape_def)
  then have "calm plan_marker (JObj [(''question'', JStr ''x''), (''candidates'', JObj plan_candidates)])"
    using plan_strings [unfolded list.pred_inject] free_calm [OF m]
    by (simp add: plan_candidates_def plan_proposal_def proposal_object_def del: calm.simps(1))
  from calm_count [OF m this, of "jc_float plan_codec" 0] show ?thesis
    by (simp add: jury_prompts_def question_ok_def plan_facts candidates_ok_def plan_candidates_def
        checked_marker_def payload_text_def count_in_zero Let_def del: json_indented.simps)
qed

theorem jury_prompt_within_plan_witness:
  "\<exists>sizes prompts n. stage_prompt_chars plan_codec ''x'' [''p''] default_policy (\<lambda>_. plan_marker) = Inr sizes
    \<and> jury_prompts (jc_float plan_codec) ''x'' plan_candidates (Some plan_marker) [] = Inr prompts
    \<and> dict_get sizes ''jury'' = Some n \<and> combined_prompt_chars prompts \<le> n"
proof -
  obtain sizes where plan:
      "stage_prompt_chars plan_codec ''x'' [''p''] default_policy (\<lambda>_. plan_marker) = Inr sizes"
    using plan_example [of "''x''"] plan_facts(2) plan_strings by auto
  obtain prompts where prompts:
      "jury_prompts (jc_float plan_codec) ''x'' plan_candidates (Some plan_marker) [] = Inr prompts"
    using plan_prompts by blast
  have labels: "rmap (\<lambda>i. candidate_label (int i)) [0..<length [''p'']] = Inr [''CANDIDATE_01'']"
    by (simp add: plan_facts)
  have "wf_proposal plan_proposal"
    unfolding wf_proposal_def bounded_items_def bounded_text_def plan_proposal_def by code_simp
  then have "parse_proposal (\<lambda>_ _. Inr (proposal_object plan_proposal)) [] = Inr plan_proposal"
    by (simp add: parse_proposal_def proposal_complete)
  then have "\<exists>reply p. parse_proposal (\<lambda>_ _. Inr (proposal_object plan_proposal)) reply = Inr p \<and> a = JObj (proposal_object p)"
    if "(l, a) \<in> set plan_candidates" for l a
    using that unfolding plan_candidates_def by auto
  from jury_prompt_within_plan [OF plan labels _ this prompts] plan prompts show ?thesis
    by (simp add: plan_candidates_def)
qed

end
