(* ===== verification/Config_Laws.thy ===== *)
theory Config_Laws imports Config_Load Engine_Types begin

text \<open>
  What the validation of a configuration establishes: the lineage report in terms of the seats, and
  well-formed seats, policies and configurations.
\<close>

section \<open>The lineage report\<close>

definition live_seats :: "provider_config list \<Rightarrow> provider_config list" where
  "live_seats cs = filter (\<lambda>c. \<not> is_mock c) cs"

text \<open>A seat is routed when its endpoint is that of OpenRouter; its model then tells its lineage.\<close>

definition routed :: "config_env \<Rightarrow> provider_config \<Rightarrow> bool" where
  "routed ce c \<longleftrightarrow> \<not> is_mock c \<and> is_openrouter_endpoint ce (cf_endpoint c) = Inr True"

definition true_lineage :: "config_env \<Rightarrow> provider_config \<Rightarrow> string" where
  "true_lineage ce c =
     (if routed ce c then (case derived_lineage c of None \<Rightarrow> cf_lineage c | Some l \<Rightarrow> l) else cf_lineage c)"

definition identities :: "config_env \<Rightarrow> provider_config list \<Rightarrow> string list result" where
  "identities ce cs = rmap (model_identity ce) (live_seats cs)"

lemma live_seats_Cons [simp]:
  "live_seats (c # cs) = (if is_mock c then live_seats cs else c # live_seats cs)" "live_seats [] = []"
  by (simp_all add: live_seats_def)

lemma keys_dict_set: "fst ` set (dict_set k v d) = insert k (fst ` set d)"
  by (induction d) (auto split: if_splits)

lemma lineage_step_facts:
  assumes "lineage_step ce a c = Inr b"
  shows "la_lineages b = la_lineages a @ [true_lineage ce c]"
    and "la_mismatches b = [] \<longleftrightarrow> la_mismatches a = [] \<and> true_lineage ce c = cf_lineage c"
    and "la_unverified b = [] \<longleftrightarrow> la_unverified a = [] \<and> (routed ce c \<longrightarrow> derived_lineage c \<noteq> None)"
    and "is_mock c \<Longrightarrow> la_seen b = la_seen a \<and> la_duplicates b = la_duplicates a"
    and "\<not> is_mock c \<Longrightarrow> \<exists>i. model_identity ce c = Inr i
      \<and> fst ` set (la_seen b) = insert i (fst ` set (la_seen a))
      \<and> (la_duplicates b = [] \<longleftrightarrow> la_duplicates a = [] \<and> i \<notin> fst ` set (la_seen a))"
proof -
  have "la_lineages b = la_lineages a @ [true_lineage ce c]
      \<and> (la_mismatches b = [] \<longleftrightarrow> la_mismatches a = [] \<and> true_lineage ce c = cf_lineage c)
      \<and> (la_unverified b = [] \<longleftrightarrow> la_unverified a = [] \<and> (routed ce c \<longrightarrow> derived_lineage c \<noteq> None))"
  proof (cases "is_mock c")
    case True
    with assms show ?thesis by (auto simp: lineage_step_def true_lineage_def routed_def)
  next
    case False
    with assms obtain i r where i: "model_identity ce c = Inr i"
      and r: "is_openrouter_endpoint ce (cf_endpoint c) = Inr r"
      by (cases "model_identity ce c"; cases "is_openrouter_endpoint ce (cf_endpoint c)")
        (simp_all add: lineage_step_def)
    show ?thesis
      using assms False i r
      by (cases r; cases "derived_lineage c"; cases "dict_get (la_seen a) i")
        (auto simp: lineage_step_def true_lineage_def routed_def Let_def split: if_splits)
  qed
  then show "la_lineages b = la_lineages a @ [true_lineage ce c]"
    "la_mismatches b = [] \<longleftrightarrow> la_mismatches a = [] \<and> true_lineage ce c = cf_lineage c"
    "la_unverified b = [] \<longleftrightarrow> la_unverified a = [] \<and> (routed ce c \<longrightarrow> derived_lineage c \<noteq> None)"
    by blast+
  show "is_mock c \<Longrightarrow> la_seen b = la_seen a \<and> la_duplicates b = la_duplicates a"
    using assms by (auto simp: lineage_step_def)
  assume live: "\<not> is_mock c"
  with assms obtain i where i: "model_identity ce c = Inr i"
    by (cases "model_identity ce c") (simp_all add: lineage_step_def)
  have "fst ` set (la_seen b) = insert i (fst ` set (la_seen a))
      \<and> (la_duplicates b = [] \<longleftrightarrow> la_duplicates a = [] \<and> i \<notin> fst ` set (la_seen a))"
  proof (cases "dict_get (la_seen a) i")
    case None
    then have new: "i \<notin> fst ` set (la_seen a)" by (simp add: map_of_eq_None_iff)
    from None assms live i have "la_seen b = dict_set i (cf_name c) (la_seen a) \<and> la_duplicates b = la_duplicates a"
      by (cases "is_openrouter_endpoint ce (cf_endpoint c)") (auto simp: lineage_step_def Let_def split: if_splits)
    with new show ?thesis by (simp add: keys_dict_set)
  next
    case (Some other)
    then have "i \<in> fst ` set (la_seen a)" by (metis map_of_eq_None_iff option.distinct(1))
    moreover from Some assms live i have "la_seen b = la_seen a \<and> la_duplicates b \<noteq> []"
      by (cases "is_openrouter_endpoint ce (cf_endpoint c)") (auto simp: lineage_step_def Let_def split: if_splits)
    ultimately show ?thesis by auto
  qed
  with i show "\<exists>i. model_identity ce c = Inr i
      \<and> fst ` set (la_seen b) = insert i (fst ` set (la_seen a))
      \<and> (la_duplicates b = [] \<longleftrightarrow> la_duplicates a = [] \<and> i \<notin> fst ` set (la_seen a))" by blast
qed

lemma lineage_loop_facts:
  assumes "lineage_loop ce a cs = Inr b"
  shows "la_lineages b = la_lineages a @ map (true_lineage ce) cs"
    and "la_mismatches b = [] \<longleftrightarrow> la_mismatches a = [] \<and> (\<forall>c\<in>set cs. true_lineage ce c = cf_lineage c)"
    and "la_unverified b = [] \<longleftrightarrow>
      la_unverified a = [] \<and> (\<forall>c\<in>set cs. routed ce c \<longrightarrow> derived_lineage c \<noteq> None)"
    and "\<exists>ids. identities ce cs = Inr ids \<and> (la_duplicates b = [] \<longleftrightarrow>
      la_duplicates a = [] \<and> distinct ids \<and> set ids \<inter> fst ` set (la_seen a) = {})"
proof -
  have "la_lineages b = la_lineages a @ map (true_lineage ce) cs
    \<and> (la_mismatches b = [] \<longleftrightarrow> la_mismatches a = [] \<and> (\<forall>c\<in>set cs. true_lineage ce c = cf_lineage c))
    \<and> (la_unverified b = [] \<longleftrightarrow>
      la_unverified a = [] \<and> (\<forall>c\<in>set cs. routed ce c \<longrightarrow> derived_lineage c \<noteq> None))
    \<and> (\<exists>ids. identities ce cs = Inr ids \<and> (la_duplicates b = [] \<longleftrightarrow>
      la_duplicates a = [] \<and> distinct ids \<and> set ids \<inter> fst ` set (la_seen a) = {}))"
    using assms
  proof (induction cs arbitrary: a)
    case Nil
    then show ?case by (simp add: identities_def)
  next
    case (Cons c cs)
    then obtain d where step: "lineage_step ce a c = Inr d" and rest: "lineage_loop ce d cs = Inr b"
      by (auto simp: result_simps)
    note IH = Cons.IH [OF rest] and facts = lineage_step_facts [OF step]
    from IH obtain ids where ids: "identities ce cs = Inr ids" and dup: "la_duplicates b = [] \<longleftrightarrow>
        la_duplicates d = [] \<and> distinct ids \<and> set ids \<inter> fst ` set (la_seen d) = {}" by blast
    have "\<exists>ids. identities ce (c # cs) = Inr ids \<and> (la_duplicates b = [] \<longleftrightarrow>
        la_duplicates a = [] \<and> distinct ids \<and> set ids \<inter> fst ` set (la_seen a) = {})"
    proof (cases "is_mock c")
      case True
      with ids dup facts(4) show ?thesis by (simp add: identities_def)
    next
      case False
      from facts(5) [OF this] obtain i where "model_identity ce c = Inr i"
        "fst ` set (la_seen d) = insert i (fst ` set (la_seen a))"
        "la_duplicates d = [] \<longleftrightarrow> la_duplicates a = [] \<and> i \<notin> fst ` set (la_seen a)" by blast
      with False ids dup show ?thesis by (auto simp: identities_def)
    qed
    with IH facts(1,2,3) show ?case by auto
  qed
  then show "la_lineages b = la_lineages a @ map (true_lineage ce) cs"
    and "la_mismatches b = [] \<longleftrightarrow> la_mismatches a = [] \<and> (\<forall>c\<in>set cs. true_lineage ce c = cf_lineage c)"
    and "la_unverified b = [] \<longleftrightarrow>
      la_unverified a = [] \<and> (\<forall>c\<in>set cs. routed ce c \<longrightarrow> derived_lineage c \<noteq> None)"
    and "\<exists>ids. identities ce cs = Inr ids \<and> (la_duplicates b = [] \<longleftrightarrow>
      la_duplicates a = [] \<and> distinct ids \<and> set ids \<inter> fst ` set (la_seen a) = {})"
    by blast+
qed

lemma lineage_report_facts:
  assumes "lineage_report ce cs = Inr r"
  shows "lr_count r = int (card (true_lineage ce ` set cs))"
    and "lr_mismatches r = [] \<longleftrightarrow> (\<forall>c\<in>set cs. true_lineage ce c = cf_lineage c)"
    and "lr_duplicates r = [] \<longleftrightarrow> (\<exists>ids. identities ce cs = Inr ids \<and> distinct ids)"
    and "lr_unverified r = [] \<longleftrightarrow> (\<forall>c\<in>set cs. routed ce c \<longrightarrow> derived_lineage c \<noteq> None)"
    and "lr_status r = ''verified'' \<longleftrightarrow> lr_mismatches r = [] \<and> lr_duplicates r = [] \<and> lr_unverified r = []"
proof -
  obtain b where loop: "lineage_loop ce no_lineages cs = Inr b"
    and r: "lr_count r = int (length (remdups (la_lineages b)))" "lr_mismatches r = la_mismatches b"
      "lr_duplicates r = la_duplicates b" "lr_unverified r = la_unverified b"
      "lr_status r = ''verified'' \<longleftrightarrow> la_mismatches b = [] \<and> la_duplicates b = [] \<and> la_unverified b = []"
  proof (cases "lineage_loop ce no_lineages cs")
    case (Inl e)
    with assms show ?thesis by (simp add: lineage_report_def)
  next
    case (Inr b)
    show ?thesis by (rule that [OF Inr]) (use assms Inr in \<open>auto simp: lineage_report_def split: if_splits\<close>)
  qed
  note facts = lineage_loop_facts [OF loop]
  show "lr_count r = int (card (true_lineage ce ` set cs))"
    by (simp add: r(1) facts(1) no_lineages_def length_remdups_card_conv)
  show "lr_duplicates r = [] \<longleftrightarrow> (\<exists>ids. identities ce cs = Inr ids \<and> distinct ids)"
    using facts(4) by (auto simp: r(3) no_lineages_def)
  show "lr_mismatches r = [] \<longleftrightarrow> (\<forall>c\<in>set cs. true_lineage ce c = cf_lineage c)"
    "lr_unverified r = [] \<longleftrightarrow> (\<forall>c\<in>set cs. routed ce c \<longrightarrow> derived_lineage c \<noteq> None)"
    "lr_status r = ''verified'' \<longleftrightarrow> lr_mismatches r = [] \<and> lr_duplicates r = [] \<and> lr_unverified r = []"
    using facts(2,3) by (simp_all add: r no_lineages_def)
qed

section \<open>Well-formed configurations\<close>

text \<open>An endpoint whose host is on the allowlist of its provider, reached by HTTPS on its port without
  credentials.\<close>

definition endpoint_ok :: "config_env \<Rightarrow> provider_config \<Rightarrow> bool" where
  "endpoint_ok ce c \<longleftrightarrow> (\<exists>u h port. ce_url ce (fill_model (cf_model c) (cf_endpoint c)) = Inr u
     \<and> up_host u = Some h \<and> up_port u = Inr port
     \<and> nonempty (up_user u) = None \<and> nonempty (up_password u) = None
     \<and> (if is_mock c then h \<in> {''localhost'', ''127.0.0.1''}
        else up_scheme u = ''https'' \<and> (port = None \<or> port = Some 443)
          \<and> (\<exists>hs. dict_get allowed_endpoint_hosts (cf_name c) = Some hs \<and> h \<in> set hs)))"

definition wf_seat :: "config_env \<Rightarrow> provider_config \<Rightarrow> bool" where
  "wf_seat ce c \<longleftrightarrow>
     nonblank (cf_name c) \<and> nonblank (cf_model c) \<and> nonblank (cf_lineage c) \<and> nonblank (cf_secret c)
     \<and> secret_name_ok (cf_secret c) \<and> 1 \<le> cf_max_output c \<and> 0 < cf_timeout c \<and> cf_attempts c \<in> {1..10}
     \<and> (\<forall>(s, n)\<in>set (cf_stage_output c). s \<in> set council_stages \<and> 0 < n)
     \<and> (\<forall>(s, t)\<in>set (cf_stage_timeout c). s \<in> set council_stages \<and> 0 < t)
     \<and> endpoint_ok ce c"

lemma first_bad: "(case find P d of None \<Rightarrow> Inr () | Some p \<Rightarrow> Inl (e p)) = Inr () \<longleftrightarrow> (\<forall>p\<in>set d. \<not> P p)"
  by (induction d) auto

lemma check_stages_iff:
  "check_stages c f d = Inr () \<longleftrightarrow> (\<forall>(s, n)\<in>set d. s \<in> set council_stages \<and> 0 < n)"
  unfolding check_stages_def Let_def result_simps first_bad
  by (auto simp: filter_empty_conv not_le)

lemma allowed_mock: "dict_get allowed_endpoint_hosts ''mock'' = Some [''localhost'', ''127.0.0.1'']"
  by (simp add: allowed_endpoint_hosts_def)

lemma validate_endpoint_iff: "validate_endpoint ce c = Inr () \<longleftrightarrow> endpoint_ok ce c"
proof (cases "ce_url ce (fill_model (cf_model c) (cf_endpoint c))")
  case (Inl e)
  then show ?thesis by (simp add: validate_endpoint_def endpoint_ok_def)
next
  case (Inr u)
  show ?thesis
  proof (cases "is_mock c")
    case True
    then show ?thesis
      by (cases "up_port u")
        (auto simp: validate_endpoint_def endpoint_ok_def Inr Let_def result_simps allowed_mock)
  next
    case False
    then have "cf_name c \<noteq> ''mock''" by (auto simp: is_mock_def starts_with_def)
    with False show ?thesis
      by (cases "up_port u"; cases "dict_get allowed_endpoint_hosts (cf_name c)")
        (auto simp: validate_endpoint_def endpoint_ok_def Inr Let_def result_simps)
  qed
qed

lemma validate_provider_iff: "validate_provider_config ce c = Inr () \<longleftrightarrow> nonblank (cf_endpoint c) \<and> wf_seat ce c"
  by (auto simp: validate_provider_config_def check_fields_def wf_seat_def result_simps check_stages_iff
      validate_endpoint_iff split: if_splits)

definition wf_run_policy :: "run_policy \<Rightarrow> int \<Rightarrow> int \<Rightarrow> bool" where
  "wf_run_policy p n synthesizers \<longleftrightarrow>
     rp_proposal_quorum p \<in> {1..n} \<and> rp_jury_quorum p \<in> {1..n} \<and> 1 \<le> rp_min_lineages p
     \<and> 0 < rp_deadline p \<and> 1 \<le> rp_max_parallel p \<and> 1 \<le> rp_max_question p \<and> 1 \<le> rp_max_prompt p
     \<and> rp_jury_repairs p \<in> {0, 1} \<and> rp_truncation_retries p \<in> {0, 1} \<and> 1 \<le> rp_max_recovery_output p
     \<and> 1 \<le> synthesizers \<and> n * 2 + synthesizers \<le> rp_max_calls p"

lemma validate_run_policy_iff:
  "validate_run_policy ce p cs k = Inr () \<longleftrightarrow> cs \<noteq> [] \<and> wf_run_policy p (int (length cs)) k
     \<and> (\<exists>r. lineage_report ce cs = Inr r \<and> lr_mismatches r = [] \<and> lr_duplicates r = []
          \<and> rp_min_lineages p \<le> lr_count r)"
proof (cases "lineage_report ce cs")
  case (Inl e)
  then show ?thesis by (auto simp: validate_run_policy_def Let_def result_simps)
next
  case (Inr r)
  then show ?thesis
    by (simp add: validate_run_policy_def Let_def result_simps wf_run_policy_def) linarith
qed

end
