(* ===== verification/Config_Properties.thy ===== *)
theory Config_Properties imports Config_Laws "HOL-Library.Code_Target_Nat" begin

text \<open>
  The configuration that the program runs with is well formed: the properties of the loaded
  configuration and of the lineage report.
\<close>

section \<open>Seats keep their names\<close>

lemma default_provider_name: "default_provider ce n = Inr c \<Longrightarrow> cf_name c = n"
  by (auto simp: default_provider_def Let_def result_simps)

lemma routed_name [simp]: "cf_name (route_via_openrouter ce m c) = cf_name c"
  by (simp add: route_via_openrouter_def Let_def)

lemma default_names:
  assumes "rmap (default_provider ce) ns = Inr cs" shows "map cf_name cs = ns"
proof -
  from assms have "list_all2 (\<lambda>n c. default_provider ce n = Inr c) ns cs" by (simp add: rmap_Inr_iff)
  then show ?thesis by (induction rule: list_all2_induct) (simp_all add: default_provider_name)
qed

lemma configured_name: "configured_provider ce m d = Inr c \<Longrightarrow> cf_name c = cf_name d"
  by (auto simp: configured_provider_def result_simps)

lemma routed_provider_name: "routed_provider ce m d = Inr c \<Longrightarrow> cf_name c = cf_name d"
  by (auto simp: routed_provider_def Let_def result_simps)

lemma load_seat_cases:
  assumes "load_seat ce rr pr d = Inr seats"
  shows "seats = [] \<or> (\<exists>c. seats = [c] \<and> cf_name c = cf_name d \<and> validate_provider_config ce c = Inr ())"
  using assms
  by (auto simp: load_seat_def Let_def result_simps dest!: configured_name routed_provider_name split: if_splits)

lemma loaded_seats:
  assumes "list_all2 (\<lambda>d seats. load_seat ce rr pr d = Inr seats) defaults seats"
  shows "set (map cf_name (concat seats)) \<subseteq> set (map cf_name defaults)"
    and "\<forall>c\<in>set (concat seats). validate_provider_config ce c = Inr ()"
    and "distinct (map cf_name defaults) \<Longrightarrow> distinct (map cf_name (concat seats))"
proof -
  have "set (map cf_name (concat seats)) \<subseteq> set (map cf_name defaults)
    \<and> (\<forall>c\<in>set (concat seats). validate_provider_config ce c = Inr ())
    \<and> (distinct (map cf_name defaults) \<longrightarrow> distinct (map cf_name (concat seats)))"
    using assms
  proof (induction rule: list_all2_induct)
    case (Cons d ds s ss)
    from load_seat_cases [OF Cons(1)] show ?case
    proof (elim disjE exE conjE)
      fix c assume "s = [c]" "cf_name c = cf_name d" "validate_provider_config ce c = Inr ()"
      with Cons(3) show ?thesis by (simp add: subset_iff) blast
    qed (use Cons(3) in auto)
  qed simp
  then show "set (map cf_name (concat seats)) \<subseteq> set (map cf_name defaults)"
    "\<forall>c\<in>set (concat seats). validate_provider_config ce c = Inr ()"
    "distinct (map cf_name defaults) \<Longrightarrow> distinct (map cf_name (concat seats))" by blast+
qed

section \<open>Well-formed configurations\<close>

definition wf_config :: "config_env \<Rightarrow> app_config \<Rightarrow> bool" where
  "wf_config ce c \<longleftrightarrow>
     ac_providers c \<noteq> [] \<and> distinct (map cf_name (ac_providers c))
     \<and> (\<forall>p\<in>set (ac_providers c). wf_seat ce p)
     \<and> distinct (synthesis_chain c) \<and> set (synthesis_chain c) \<subseteq> cf_name ` set (ac_providers c)
     \<and> wf_run_policy (ac_policy c) (int (length (ac_providers c))) (int (length (synthesis_chain c)))
     \<and> (\<forall>p\<in>set (ac_providers c). true_lineage ce p = cf_lineage p)
     \<and> rp_min_lineages (ac_policy c) \<le> int (card (cf_lineage ` set (ac_providers c)))
     \<and> (\<exists>ids. identities ce (ac_providers c) = Inr ids \<and> distinct ids)"

lemma wf_configI:
  assumes "distinct (map cf_name (ac_providers c))"
    and "\<forall>p\<in>set (ac_providers c). validate_provider_config ce p = Inr ()"
    and "validate_synthesis_providers (ac_synthesis c) fallbacks (ac_providers c) = Inr chain"
    and "ac_fallbacks c = map str_of fallbacks"
    and "validate_run_policy ce (ac_policy c) (ac_providers c) (int (length chain)) = Inr ()"
  shows "wf_config ce c"
proof -
  have chain: "chain = synthesis_chain c" "distinct chain" "set chain \<subseteq> cf_name ` set (ac_providers c)"
    using assms(3,4)
    by (auto simp: validate_synthesis_providers_def Let_def result_simps synthesis_chain_def filter_empty_conv)
  obtain r where r: "lineage_report ce (ac_providers c) = Inr r" "lr_mismatches r = []" "lr_duplicates r = []"
      "rp_min_lineages (ac_policy c) \<le> lr_count r"
    and p: "ac_providers c \<noteq> []" "wf_run_policy (ac_policy c) (int (length (ac_providers c))) (int (length chain))"
    using assms(5) by (auto simp: validate_run_policy_iff)
  note facts = lineage_report_facts [OF r(1)]
  from facts(2) r(2) have same: "\<forall>p\<in>set (ac_providers c). true_lineage ce p = cf_lineage p" by blast
  then have "true_lineage ce ` set (ac_providers c) = cf_lineage ` set (ac_providers c)" by simp
  with facts(1) r(4) have "rp_min_lineages (ac_policy c) \<le> int (card (cf_lineage ` set (ac_providers c)))" by simp
  with same facts(3) r(3) p chain assms(1,2) show ?thesis
    by (simp add: wf_config_def validate_provider_iff)
qed

lemma validated_config:
  assumes "validate_config ce c = Inr d" and "distinct (map cf_name (ac_providers c))"
  shows "d = c \<and> wf_config ce c"
proof -
  obtain us chain where us: "rmap (validate_provider_config ce) (ac_providers c) = Inr us"
    and chain: "validate_synthesis_providers (ac_synthesis c) (map JStr (ac_fallbacks c)) (ac_providers c) = Inr chain"
    and pol: "validate_run_policy ce (ac_policy c) (ac_providers c) (int (length (synthesis_chain c))) = Inr ()"
    and d: "d = c"
    using assms(1) unfolding validate_config_def result_simps by (elim exE conjE) (rule that; simp)
  have "chain = synthesis_chain c"
    using chain by (auto simp: validate_synthesis_providers_def Let_def result_simps synthesis_chain_def comp_def)
  moreover have "\<forall>p\<in>set (ac_providers c). validate_provider_config ce p = Inr ()"
    using us by (auto simp: rmap_Inr_iff list_all2_conv_all_nth in_set_conv_nth)
  ultimately show ?thesis
    using wf_configI [OF assms(2) _ chain _ ] pol d by (auto simp: comp_def)
qed

lemma default_config_names:
  "default_config ce = Inr c \<Longrightarrow> map cf_name (ac_providers c) = default_live_providers"
  by (auto simp: default_config_def result_simps comp_def dest!: default_names)

lemma load_config_wf:
  assumes "load_config ce doc = Inr c" shows "wf_config ce c"
proof -
  obtain base where base: "default_config ce = Inr base" using assms by (auto simp: load_config_def result_simps)
  show ?thesis
  proof (cases doc)
    case None
    have "distinct (map cf_name (ac_providers base))"
      unfolding default_config_names [OF base] by (simp add: default_live_providers_def)
    moreover have "validate_config ce base = Inr c" using assms base None by (simp add: load_config_def)
    ultimately show ?thesis using validated_config by blast
  next
    case (Some raw)
    obtain rr pr defaults seats synth fallbacks chain where
      defaults: "rmap (default_provider ce) known_providers = Inr defaults"
      and seats: "rmap (load_seat ce rr pr) defaults = Inr seats"
      and chain: "validate_synthesis_providers synth fallbacks (concat seats) = Inr chain"
      and pol: "validate_run_policy ce (ac_policy c) (concat seats) (int (length chain)) = Inr ()"
      and c: "ac_providers c = concat seats" "ac_synthesis c = synth" "ac_fallbacks c = map str_of fallbacks"
      using assms base Some by (auto simp: load_config_def result_simps Let_def)
    have "distinct (map cf_name defaults)"
      unfolding default_names [OF defaults] by (simp add: known_providers_def default_live_providers_def)
    note loaded = loaded_seats [OF seats [unfolded rmap_Inr_iff]]
    show ?thesis
      by (rule wf_configI [where fallbacks = fallbacks and chain = chain])
        (use loaded(2,3) \<open>distinct (map cf_name defaults)\<close> chain pol c in simp_all)
  qed
qed

lemma wf_config_engine:
  assumes "wf_config ce c"
  shows "\<exists>eg. mk_engine en (map (\<lambda>p. (cf_name p, p)) (ac_providers c)) (ac_policy c) (ac_synthesis c)
      (ac_fallbacks c) gate = Inr eg \<and> eg_synthesis eg = synthesis_chain c"
  using assms
  by (auto simp: wf_config_def mk_engine_def Let_def result_simps synthesis_chain_def wf_run_policy_def
      filter_empty_conv image_image)

section \<open>Properties\<close>

lemma mock_config_wf:
  assumes "mock_config ce dir = Inr c" shows "wf_config ce c"
proof -
  have "distinct (map cf_name (map mock_provider [1, 2, 3, 4]))"
    by (simp add: mock_provider_def int_text_def decimal_text.simps digit_def)
  then show ?thesis
    using validated_config [OF assms [unfolded mock_config_def]] by simp
qed

text \<open>C27: A configuration that the program loads is well formed, whatever the configuration file and the
  environment hold: every enabled seat has an endpoint on the allowlist of its provider, reached by
  HTTPS and without credentials, an environment-style secret name and positive limits for known stages
  only; the names of the seats differ, and so do the models behind them, by whatever route they are
  reached; the declared lineages are those of the models, and are as many as the policy asks for; both
  quorums can be met; every synthesizer is enabled and listed once; and the call budget covers one
  proposal and one judgment per seat and every synthesis attempt.  The engine accepts it.\<close>

theorem loaded_config_well_formed:
  assumes "load_config ce doc = Inr c \<or> mock_config ce dir = Inr c"
  shows "wf_config ce c
    \<and> (\<exists>eg. mk_engine en (map (\<lambda>p. (cf_name p, p)) (ac_providers c)) (ac_policy c) (ac_synthesis c)
          (ac_fallbacks c) gate = Inr eg \<and> eg_synthesis eg = synthesis_chain c)"
proof -
  have "wf_config ce c" using assms load_config_wf mock_config_wf by blast
  then show ?thesis using wf_config_engine by blast
qed

text \<open>An environment without settings, and a parser for the plain endpoints of the defaults.\<close>

definition plain_url :: "string \<Rightarrow> url_parts result" where
  "plain_url s = Inr \<lparr>up_scheme = takeWhile (\<lambda>c. c \<noteq> CHR '':'') s,
     up_host = Some (takeWhile (\<lambda>c. c \<noteq> CHR ''/'') (drop 3 (dropWhile (\<lambda>c. c \<noteq> CHR '':'') s))),
     up_port = Inr None, up_user = None, up_password = None\<rparr>"

definition plain_env :: config_env where
  "plain_env = \<lparr>ce_var = (\<lambda>_. None), ce_url = plain_url,
     ce_conv = \<lparr>pv_str = (\<lambda>_. []), pv_float = (\<lambda>_. Inl (ValueError ''could not convert string to float''))\<rparr>,
     ce_home = ''/home/user'', ce_expand = (\<lambda>p. p)\<rparr>"

text \<open>A file that disables two of the four standing seats and routes the others through OpenRouter.\<close>

definition example_doc :: jobj where
  "example_doc =
     [(''providers'', JObj [(''gemini'', JObj [(''enabled'', JBool False)]),
        (''mistral'', JObj [(''enabled'', JBool False)])]),
      (''run'', JObj [(''route'', JStr ''OpenRouter''), (''synthesis_fallbacks'', JList [JStr ''anthropic''])]),
      (''policy'', JObj [(''proposal_quorum'', JInt 2), (''jury_quorum'', JStr '' 1 ''), (''min_lineages'', JInt 2)])]"

theorem loaded_config_well_formed_witness:
  "\<exists>c. load_config plain_env (Some example_doc) = Inr c \<and> wf_config plain_env c"
proof -
  have "\<not> isl (load_config plain_env (Some example_doc))" by code_simp
  then obtain c where c: "load_config plain_env (Some example_doc) = Inr c"
    by (cases "load_config plain_env (Some example_doc)") auto
  with loaded_config_well_formed [OF disjI1 [OF c]] show ?thesis by blast
qed

text \<open>C27: The lineage report says exactly how diverse the seats are.  It counts the lineages that the
  models have, where a seat that is routed through OpenRouter has the lineage of its vendor prefix and
  another seat the declared one; it lists a mismatch exactly when some declared lineage is not the one
  of the model, a duplicate exactly when two seats that are not mocks share a model, and an unverified
  provider exactly when a routed model has no known vendor prefix.  Its status is \<open>verified\<close> exactly
  when it lists nothing.\<close>

theorem lineage_report_exact:
  assumes "lineage_report ce seats = Inr r"
  shows "lr_count r = int (card (true_lineage ce ` set seats))
    \<and> (lr_mismatches r = [] \<longleftrightarrow> (\<forall>c\<in>set seats. true_lineage ce c = cf_lineage c))
    \<and> (lr_duplicates r = [] \<longleftrightarrow> (\<exists>ids. identities ce seats = Inr ids \<and> distinct ids))
    \<and> (lr_unverified r = [] \<longleftrightarrow> (\<forall>c\<in>set seats. routed ce c \<longrightarrow> derived_lineage c \<noteq> None))
    \<and> (lr_status r = ''verified'' \<longleftrightarrow>
        lr_mismatches r = [] \<and> lr_duplicates r = [] \<and> lr_unverified r = [])"
  using lineage_report_facts [OF assms] by blast

text \<open>A direct and a routed seat that use the same model, in two spellings.\<close>

definition twin_seats :: "provider_config list" where
  "twin_seats =
     [(mock_provider 1)\<lparr>cf_name := ''openai'', cf_model := ''gpt-5.6-sol'', cf_lineage := ''openai-gpt'',
        cf_endpoint := ''https://api.openai.com/v1/responses''\<rparr>,
      (mock_provider 2)\<lparr>cf_name := ''second'', cf_model := '' OpenAI/GPT-5.6-Sol'', cf_lineage := ''other'',
        cf_endpoint := openrouter_endpoint\<rparr>]"

theorem lineage_report_exact_witness:
  "\<exists>r. lineage_report plain_env twin_seats = Inr r \<and> lr_count r = 1 \<and> lr_mismatches r \<noteq> []
    \<and> lr_duplicates r \<noteq> [] \<and> lr_status r \<noteq> ''verified''"
proof -
  have "\<not> isl (lineage_report plain_env twin_seats)" by code_simp
  then obtain r where r: "lineage_report plain_env twin_seats = Inr r"
    by (cases "lineage_report plain_env twin_seats") auto
  have "card (true_lineage plain_env ` set twin_seats) = 1"
    "\<not> (\<forall>c\<in>set twin_seats. true_lineage plain_env c = cf_lineage c)"
    "identities plain_env twin_seats = Inr [''openai/gpt-5.6-sol'', ''openai/gpt-5.6-sol'']"
    by code_simp+
  with lineage_report_exact [OF r] r show ?thesis by auto
qed

end
