(* ===== verification/Approval_Properties.thy ===== *)
theory Approval_Properties imports Approval Workload_Properties Config_Properties "HOL-Library.Code_Target_Nat" begin

text \<open>
  Approval tokens: a token verifies for the plan it was issued for, and for no other plan, approver or
  call ceiling.
\<close>

section \<open>Texts without line breaks\<close>

abbreviation line_break :: char where
  "line_break \<equiv> char_of (10 :: nat)"

lemma break_inj:
  assumes "line_break \<notin> set a" and "line_break \<notin> set b" and "a @ newline @ x = b @ newline @ y"
  shows "a = b \<and> x = y"
proof -
  have "takeWhile (\<lambda>c. c \<noteq> line_break) (a @ newline @ x) = a"
    "takeWhile (\<lambda>c. c \<noteq> line_break) (b @ newline @ y) = b"
    using assms(1,2) by (auto simp: newline_def takeWhile_append)
  with assms(3) show ?thesis by simp
qed

lemma decimal_chars: "c \<in> set (decimal_text n) \<Longrightarrow> digit_char c"
proof (induction n rule: decimal_text.induct)
  case (1 n)
  have d: "digit_char (digit k)" if "k < 10" for k
    using that by (simp add: digit_char_def digit_def)
  show ?case
    using 1 d [of "n mod 10"] d [of n] by (subst (asm) (2) decimal_text.simps) (auto split: if_splits)
qed

lemma int_text_chars: "c \<in> set (int_text n) \<Longrightarrow> digit_char c \<or> c = CHR ''-''"
  by (auto simp: int_text_def dest: decimal_chars split: if_splits)

lemma int_text_inj: "int_text m = int_text n \<longleftrightarrow> m = n"
proof -
  have no: "''-'' @ decimal_text k \<noteq> decimal_text j" for k j
  proof
    assume "''-'' @ decimal_text k = decimal_text j"
    then have "CHR ''-'' \<in> set (decimal_text j)" by (metis append_Cons list.set_intros(1))
    then show False by (auto dest!: decimal_chars simp: digit_char_def)
  qed
  show ?thesis
    using no no [symmetric] by (auto simp: int_text_def decimal_text_inj split: if_splits)
qed

lemma no_break [simp]: "line_break \<notin> set (int_text n)"
proof
  assume "line_break \<in> set (int_text n)"
  from int_text_chars [OF this] show False
  proof
    assume "line_break = CHR ''-''"
    then have "(of_char line_break :: nat) = of_char (CHR ''-'')" by (rule arg_cong)
    then show False by simp
  qed (simp add: digit_char_def)
qed

lemma marker_no_break: "list_all marker_char s \<Longrightarrow> line_break \<notin> set s"
  by (auto simp: list_all_iff marker_char_def)

lemma mac_message_inj:
  assumes "list_all marker_char h" "list_all marker_char h'" "line_break \<notin> set n" "line_break \<notin> set n'"
    and "mac_message h n c nonce = mac_message h' n' c' nonce"
  shows "h = h' \<and> n = n' \<and> c = c'"
proof -
  have h: "line_break \<notin> set h" "line_break \<notin> set h'" using assms(1,2) by (simp_all add: marker_no_break)
  from break_inj [OF h assms(5) [unfolded mac_message_def]] have "h = h'"
    and rest: "n @ newline @ int_text c @ (if nonce = [] then [] else newline @ nonce)
      = n' @ newline @ int_text c' @ (if nonce = [] then [] else newline @ nonce)" by blast+
  from break_inj [OF assms(3,4) rest] have "n = n'" "int_text c = int_text c'" by auto
  with \<open>h = h'\<close> show ?thesis by (simp add: int_text_inj)
qed

section \<open>The key file\<close>

lemma hex_value_digit: "d < 16 \<Longrightarrow> hex_value (hex_digit d) = Some d"
  by (auto simp: hex_value_def hex_digit_def)

lemma hex_digit_marker: "d < 16 \<Longrightarrow> marker_char (hex_digit d)"
  by (auto simp: marker_char_def hex_digit_def)

lemma marker_plain: "marker_char c \<Longrightarrow> \<not> py_isspace c \<and> \<not> ascii_space c \<and> (of_char c :: nat) < 128 \<and> c \<noteq> CHR ''.''"
  by (auto simp: marker_char_def py_isspace_def ascii_space_def Let_def)

lemma hex_text_marker: "list_all marker_char (hex_text s)"
proof -
  have "(of_char c :: nat) div 16 < 16" for c :: char
    using nat_of_char_less_256 [of c] by linarith
  then show ?thesis by (auto simp: hex_text_def list_all_iff Let_def intro!: hex_digit_marker)
qed

lemma hex_text_Cons: "hex_text (c # s) = hex_digit (of_char c div 16) # hex_digit (of_char c mod 16) # hex_text s"
  by (simp add: hex_text_def Let_def)

lemma from_hex_text [simp]: "from_hex (hex_text s) = Some s"
proof (induction s)
  case Nil
  show ?case by (simp add: hex_text_def)
next
  case (Cons c s)
  have "(of_char c :: nat) < 256" by (rule nat_of_char_less_256)
  then have d: "(of_char c :: nat) div 16 < 16" "(of_char c :: nat) mod 16 < 16" by linarith+
  have "16 * ((of_char c :: nat) div 16) + of_char c mod 16 = of_char c" by simp
  then have "char_of (16 * ((of_char c :: nat) div 16) + of_char c mod 16) = c" by simp
  moreover have "\<not> ascii_space (hex_digit (of_char c div 16))"
    using hex_digit_marker [OF d(1)] marker_plain by blast
  ultimately show ?case
    using Cons d by (simp add: hex_text_Cons hex_value_digit)
qed

lemma hex_text_inj: "inj hex_text"
  by (metis from_hex_text injI option.inject)

lemma strip_plain: "\<forall>c\<in>set s. \<not> py_isspace c \<Longrightarrow> py_strip s = s"
proof -
  assume "\<forall>c\<in>set s. \<not> py_isspace c"
  then have "dropWhile py_isspace t = t" if "set t \<subseteq> set s" for t
    using that by (cases t) auto
  then show ?thesis by (simp add: py_strip_def py_lstrip_def)
qed

lemma key_after_issue:
  assumes "issue_token ae plan who fresh nonce st = (Inr tok, st')"
  obtains key name where "fst (load_key False [] st') = Inr (Some key)" and "clean_name (Some who) = Inr name"
    and "tok = token_prefix @ nonce @ ''.'' @ plan_mac ae key plan name nonce"
proof (cases st)
  case None
  have "py_strip (hex_text fresh) = hex_text fresh"
    using hex_text_marker [of fresh] by (intro strip_plain) (auto simp: list_all_iff marker_plain)
  with None assms that [of fresh] show ?thesis
    by (auto simp: issue_token_def load_key_def sbind_def split: sum.splits)
next
  case (Some stored)
  with assms that show ?thesis
    by (auto simp: issue_token_def load_key_def sbind_def split: sum.splits option.splits)
qed

section \<open>Verification\<close>

lemma split_last_dot_token: "CHR ''.'' \<notin> set mac \<Longrightarrow> split_last_dot (nonce @ ''.'' @ mac) = (nonce, mac)"
proof -
  assume "CHR ''.'' \<notin> set mac"
  then have "dropWhile (\<lambda>c. c \<noteq> CHR ''.'') (rev mac @ CHR ''.'' # rev nonce) = CHR ''.'' # rev nonce"
    "takeWhile (\<lambda>c. c \<noteq> CHR ''.'') (rev mac @ CHR ''.'' # rev nonce) = rev mac"
    by (auto simp: dropWhile_append2 takeWhile_append2 dropWhile_append takeWhile_append)
  then show ?thesis by (simp add: split_last_dot_def)
qed

text \<open>What is documented of the primitives: digests are hexadecimal, a fresh nonce has 16 digits.\<close>

definition hex_digests :: "approval_env \<Rightarrow> bool" where
  "hex_digests ae \<longleftrightarrow> (\<forall>k m. list_all marker_char (ae_mac ae k m)) \<and> (\<forall>v. list_all marker_char (ae_shaj ae v))"

definition nonce_ok :: "string \<Rightarrow> bool" where
  "nonce_ok nonce \<longleftrightarrow> length nonce = 16 \<and> list_all marker_char nonce"

lemma verify_issued:
  assumes hex: "hex_digests ae" and nonce: "nonce_ok nonce" and key: "fst (load_key False [] st) = Inr (Some key)"
    and tok: "tok = token_prefix @ nonce @ ''.'' @ plan_mac ae key plan name nonce"
  shows "verify_token ae st plan' (Some who) (Some tok) = Inr d \<longleftrightarrow>
    (\<exists>name'. clean_name (Some who) = Inr name' \<and> plan_mac ae key plan' name' nonce = plan_mac ae key plan name nonce
      \<and> d = ae_sha ae tok)"
proof -
  have mac: "list_all marker_char (plan_mac ae key p n nonce)" for p n
    using hex by (simp add: hex_digests_def plan_mac_def)
  then have dot: "CHR ''.'' \<notin> set (plan_mac ae key plan name nonce)"
    and ascii: "ascii_text (plan_mac ae key p n nonce)" for p n
    using marker_plain by (fastforce simp: list_all_iff ascii_text_def)+
  have body: "split_last_dot (drop (length token_prefix) tok) = (nonce, plan_mac ae key plan name nonce)"
    using split_last_dot_token [OF dot] by (simp add: tok)
  have some: "nonempty (Some tok) = Some tok" by (simp add: tok token_prefix_def nonempty_def)
  have prefix: "starts_with tok token_prefix" by (simp add: tok)
  have empty: "nonempty (Some who) = None \<Longrightarrow> \<not> (\<exists>name'. clean_name (Some who) = Inr name')"
    by (cases who) (auto simp: nonempty_def clean_name_def Let_def result_simps)
  show ?thesis
  proof (cases "nonempty (Some who)")
    case None
    with empty show ?thesis by (auto simp: verify_token_def)
  next
    case (Some b)
    then show ?thesis
      using nonce [unfolded nonce_ok_def]
      by (cases "clean_name (Some who)") (auto simp: verify_token_def some key prefix body ascii result_simps Let_def)
  qed
qed

section \<open>What a plan binds\<close>

lemma map_of_sorted: "distinct (map fst m) \<Longrightarrow> map_of (sort_key fst m) k = map_of m k"
proof -
  assume d: "distinct (map fst m)"
  have "mset (map fst (sort_key fst m)) = mset (map fst m)" by (simp add: mset_map)
  then have d': "distinct (map fst (sort_key fst m))" using d mset_eq_imp_distinct_iff by blast
  show ?thesis
  proof (cases "map_of m k")
    case None
    then have "map_of (sort_key fst m) k = None" by (simp add: map_of_eq_None_iff)
    with None show ?thesis by simp
  next
    case (Some v)
    then have "(k, v) \<in> set (sort_key fst m)" by (simp add: map_of_SomeD)
    with d' Some show ?thesis by simp
  qed
qed

lemma map_of_snd: "map_of (map (\<lambda>p. (fst p, f (snd p))) m) k = map_option f (map_of m k)"
  by (induction m) auto

lemma canon_lookup:
  assumes "canon (JObj m) = canon (JObj m')" and "distinct (map fst m)" and "distinct (map fst m')"
  shows "map_option canon (dict_get m k) = map_option canon (dict_get m' k)"
proof -
  let ?c = "map (\<lambda>p. (fst p, canon (snd p)))"
  have get: "map_of (sort_key fst (?c m)) k = map_option canon (dict_get m k)"
    if "distinct (map fst m)" for m :: jobj
  proof -
    have "distinct (map fst (?c m))" using that by (simp add: comp_def)
    from map_of_sorted [OF this] show ?thesis by (simp add: map_of_snd)
  qed
  from assms(1) have "sort_key fst (?c m) = sort_key fst (?c m')" by simp
  with get [OF assms(2)] get [OF assms(3)] show ?thesis by metis
qed

lemma policy_bound:
  assumes "canon (JObj (policy_to_dict p)) = canon (JObj (policy_to_dict q))" shows "p = q"
proof -
  have "map_option canon (dict_get (policy_to_dict p) k) = map_option canon (dict_get (policy_to_dict q) k)" for k
    by (rule canon_lookup [OF assms]) (simp_all add: policy_to_dict_def)
  note get = this [of "''proposal_quorum''"] this [of "''jury_quorum''"] this [of "''min_lineages''"]
    this [of "''max_calls''"] this [of "''max_parallel_calls''"] this [of "''deadline_seconds''"]
    this [of "''allow_partial''"] this [of "''max_question_chars''"] this [of "''max_stage_prompt_chars''"]
    this [of "''truncation_retries''"] this [of "''max_recovery_output_tokens''"] this [of "''jury_repair_attempts''"]
  from get show ?thesis by (cases p; cases q) (simp add: policy_to_dict_def)
qed

text \<open>The seat as the plan fixes it: every field, and dictionaries up to the order of their keys.\<close>

definition sorted_dict :: "(string, 'a) dict \<Rightarrow> (string, 'a) dict" where
  "sorted_dict d = sort_key fst d"

definition sorted_object :: "jobj \<Rightarrow> jobj" where
  "sorted_object m = (case canon (JObj m) of JObj m' \<Rightarrow> m' | _ \<Rightarrow> [])"

definition seat_terms :: "provider_config \<Rightarrow> provider_config" where
  "seat_terms p = p\<lparr>cf_stage_output := sorted_dict (cf_stage_output p),
     cf_stage_timeout := sorted_dict (cf_stage_timeout p), cf_extra := sorted_object (cf_extra p)\<rparr>"

lemma sort_fst_map: "sort_key fst (map (\<lambda>x. (fst x, f (snd x))) d) = map (\<lambda>x. (fst x, f (snd x))) (sort_key fst d)"
proof (induction d)
  case (Cons x d)
  have "insort_key fst (fst y, f (snd y)) (map (\<lambda>x. (fst x, f (snd x))) xs)
      = map (\<lambda>x. (fst x, f (snd x))) (insort_key fst y xs)" for y xs
    by (induction xs) simp_all
  with Cons show ?case by simp
qed simp

lemma sorted_dict_bound:
  assumes "canon (JObj (map (\<lambda>x. (fst x, f (snd x))) d)) = canon (JObj (map (\<lambda>x. (fst x, f (snd x))) d'))"
    and "\<And>x. canon (f x) = f x" and "inj f"
  shows "sorted_dict d = sorted_dict d'"
proof -
  have "map (\<lambda>x. (fst x, f (snd x))) (sort_key fst d) = map (\<lambda>x. (fst x, f (snd x))) (sort_key fst d')"
    using assms(1) by (simp add: comp_def assms(2) sort_fst_map)
  moreover have "inj (\<lambda>x. (fst x, f (snd x)))" using assms(3) by (auto simp: inj_def)
  ultimately show ?thesis unfolding sorted_dict_def by (rule map_injective)
qed

lemma seat_bound:
  assumes "canon (JObj (provider_material p)) = canon (JObj (provider_material q))"
  shows "seat_terms p = seat_terms q"
proof -
  have get: "map_option canon (dict_get (provider_material p) k) = map_option canon (dict_get (provider_material q) k)" for k
    by (rule canon_lookup [OF assms]) (simp_all add: provider_material_def provider_to_dict_def)
  note fields = get [of "''name''"] get [of "''model''"] get [of "''lineage''"] get [of "''secret_name''"]
    get [of "''endpoint''"] get [of "''max_output_tokens''"] get [of "''timeout_seconds''"]
    get [of "''max_attempts''"] get [of "''enabled''"]
  have "sorted_dict (cf_stage_output p) = sorted_dict (cf_stage_output q)"
    using get [of "''stage_max_output_tokens''"]
    by (intro sorted_dict_bound [where f = JInt])
      (simp_all add: provider_material_def provider_to_dict_def inj_def del: canon.simps(2))
  moreover have "sorted_dict (cf_stage_timeout p) = sorted_dict (cf_stage_timeout q)"
    using get [of "''stage_timeout_seconds''"]
    by (intro sorted_dict_bound [where f = JFloat])
      (simp_all add: provider_material_def provider_to_dict_def inj_def del: canon.simps(2))
  moreover have "canon (JObj (cf_extra p)) = canon (JObj (cf_extra q))"
    using get [of "''extra''"] by (simp add: provider_material_def provider_to_dict_def del: canon.simps(2))
  then have "sorted_object (cf_extra p) = sorted_object (cf_extra q)" by (simp add: sorted_object_def)
  ultimately show ?thesis
    using fields by (simp add: seat_terms_def provider_material_def provider_to_dict_def)
qed

lemma texts_bound: "map canon (map JStr xs) = map canon (map JStr ys) \<Longrightarrow> xs = ys"
  by (simp add: inj_map_eq_map inj_def comp_def)

lemma lineage_bound:
  assumes "canon (JObj (lineage_json r)) = canon (JObj (lineage_json r'))" shows "r = r'"
proof -
  have get: "map_option canon (dict_get (lineage_json r) k) = map_option canon (dict_get (lineage_json r') k)" for k
    by (rule canon_lookup [OF assms]) (simp_all add: lineage_json_def)
  have "lr_unverified r = lr_unverified r'" "lr_mismatches r = lr_mismatches r'" "lr_duplicates r = lr_duplicates r'"
    using get [of "''unverified_providers''"] get [of "''mismatches''"] get [of "''duplicate_models''"]
    by (auto intro!: texts_bound simp: lineage_json_def)
  then show ?thesis
    using get [of "''status''"] get [of "''lineage_count''"] by (simp add: lineage_json_def)
qed

lemma cost_bound:
  assumes "canon (JObj (cost_json e)) = canon (JObj (cost_json e'))"
  shows "ce_paid e = ce_paid e'" and "ce_mandatory e = ce_mandatory e'" and "ce_max_calls e = ce_max_calls e'"
    and "ce_max_input e = ce_max_input e'" and "ce_max_output e = ce_max_output e'"
proof -
  have get: "map_option canon (dict_get (cost_json e) k) = map_option canon (dict_get (cost_json e') k)" for k
    by (rule canon_lookup [OF assms]) (simp_all add: cost_json_def)
  show "ce_paid e = ce_paid e'" "ce_mandatory e = ce_mandatory e'" "ce_max_calls e = ce_max_calls e'"
    "ce_max_input e = ce_max_input e'" "ce_max_output e = ce_max_output e'"
    using get [of "''paid''"] get [of "''mandatory_reserved_calls''"] get [of "''max_calls''"]
      get [of "''max_input_tokens_upper_bound''"] get [of "''max_output_tokens_upper_bound''"]
    by (simp_all add: cost_json_def)
qed

lemma material_bound:
  assumes "canon (JObj (plan_material ae c q w d)) = canon (JObj (plan_material ae c' q' w' d'))"
  shows "ae_sha ae q = ae_sha ae q'" and "map seat_terms (ac_providers c) = map seat_terms (ac_providers c')"
    and "synthesis_chain c = synthesis_chain c'" and "ac_policy c = ac_policy c'" and "d = d'"
    and "canon (JObj (workload_json w)) = canon (JObj (workload_json w'))"
    and "canon (JObj (cost_json (cost_estimate c w))) = canon (JObj (cost_json (cost_estimate c' w')))"
proof -
  have get: "map_option canon (dict_get (plan_material ae c q w d) k)
      = map_option canon (dict_get (plan_material ae c' q' w' d') k)" for k
    by (rule canon_lookup [OF assms]) (simp_all add: plan_material_def)
  show "ae_sha ae q = ae_sha ae q'" using get [of "''question_sha256''"] by (simp add: plan_material_def)
  show "ac_policy c = ac_policy c'"
    using get [of "''policy''"] by (intro policy_bound) (simp add: plan_material_def del: canon.simps(2))
  show "d = d'"
    using get [of "''diversity''"] by (intro lineage_bound) (simp add: plan_material_def del: canon.simps(2))
  show "canon (JObj (workload_json w)) = canon (JObj (workload_json w'))"
    "canon (JObj (cost_json (cost_estimate c w))) = canon (JObj (cost_json (cost_estimate c' w')))"
    using get [of "''workload''"] get [of "''estimate''"] by (simp_all add: plan_material_def del: canon.simps(2))
  have "map (\<lambda>p. canon (JObj (provider_material p))) (ac_providers c)
      = map (\<lambda>p. canon (JObj (provider_material p))) (ac_providers c')"
    using get [of "''providers''"] by (simp add: plan_material_def comp_def del: canon.simps(2))
  then have "list_all2 (\<lambda>p q. canon (JObj (provider_material p)) = canon (JObj (provider_material q)))
      (ac_providers c) (ac_providers c')"
    by (simp add: list.rel_eq [symmetric] list.rel_map del: canon.simps(2))
  then have "list_all2 (\<lambda>p q. seat_terms p = seat_terms q) (ac_providers c) (ac_providers c')"
    by (rule list_all2_mono) (rule seat_bound)
  then show "map seat_terms (ac_providers c) = map seat_terms (ac_providers c')"
    by (simp add: list.rel_eq [symmetric] list.rel_map)
  show "synthesis_chain c = synthesis_chain c'"
    using get [of "''synthesis_providers''"] by (intro texts_bound) (simp add: plan_material_def)
qed

section \<open>Properties\<close>

text \<open>C28: Issuing and verifying fit together.  A token that \<open>council approve\<close> issues for a plan verifies for
  that plan and any spelling of the approver's name that strips to the same name, whether the key file
  existed before or was created for this token; verification returns the digest under which the store
  records the single use of the token.\<close>

theorem approval_token_round_trip:
  assumes "hex_digests ae" and "nonce_ok nonce"
    and issued: "issue_token ae plan who fresh nonce st = (Inr tok, st')"
    and "py_strip again = py_strip who"
  shows "verify_token ae st' plan (Some again) (Some tok) = Inr (ae_sha ae tok)"
proof -
  obtain key name where key: "fst (load_key False [] st') = Inr (Some key)" and name: "clean_name (Some who) = Inr name"
    and tok: "tok = token_prefix @ nonce @ ''.'' @ plan_mac ae key plan name nonce"
    using key_after_issue [OF issued] by blast
  have "clean_name (Some again) = Inr name" using name assms(4) by (simp add: clean_name_def)
  then show ?thesis using verify_issued [OF assms(1,2) key tok] by blast
qed

text \<open>A paid seat, and digests that write their argument in hexadecimal.\<close>

definition one_seat :: app_config where
  "one_seat = \<lparr>ac_providers = [(mock_provider 1)\<lparr>cf_name := ''p''\<rparr>], ac_policy = default_policy,
     ac_synthesis = ''p'', ac_data_dir = [], ac_fallbacks = []\<rparr>"

definition token_env :: approval_env where
  "token_env = \<lparr>ae_config = plain_env, ae_codec = plan_codec, ae_sha = hex_text,
     ae_shaj = (\<lambda>v. hex_text (json_compact (\<lambda>_. []) v)), ae_mac = (\<lambda>k m. hex_text m),
     ae_fresh = (\<lambda>_ _. plan_marker)\<rparr>"

lemma token_env_digests: "hex_digests token_env"
  by (simp add: hex_digests_def token_env_def hex_text_marker)

lemma example_plan: "\<exists>plan. plan_record token_env one_seat ''x'' = Inr plan"
proof -
  have free: "mark_free ''x''" "mark_free ''xx''" using plan_strings by (simp_all add: mark_free_def marker_char_def json_escape_def)
  have "nonblank ''x''" "nonblank ''xx''" by code_simp+
  with free obtain a b where
      "stage_prompt_chars plan_codec ''x'' [''p''] default_policy (\<lambda>_. plan_marker) = Inr a"
      "stage_prompt_chars plan_codec ''xx'' [''p''] default_policy (\<lambda>_. plan_marker) = Inr b"
    using plan_example by meson
  then have "\<exists>w. estimate_workload plan_codec ''x'' [''p''] default_policy (Some [''p'']) (\<lambda>_ _. plan_marker) = Inr w"
    by (simp add: estimate_workload_def plain_question_capacity_def Let_def split: prod.split)
  moreover have "\<not> isl (lineage_report plain_env (ac_providers one_seat))" by code_simp
  then have "\<exists>d. lineage_report plain_env (ac_providers one_seat) = Inr d"
    by (cases "lineage_report plain_env (ac_providers one_seat)") auto
  ultimately show ?thesis
    by (auto simp: plan_record_def token_env_def one_seat_def synthesis_chain_def)
qed

lemma example_issue:
  "\<exists>tok st. issue_token token_env plan ''Ada'' ''key'' ''0123456789abcdef'' None = (Inr tok, st)"
proof -
  have "clean_name (Some ''Ada'') = Inr ''Ada''" by code_simp
  then show ?thesis by (simp add: issue_token_def load_key_def sbind_def)
qed

lemma example_nonce: "nonce_ok ''0123456789abcdef''"
  by code_simp

theorem approval_token_round_trip_witness:
  "\<exists>plan tok st. plan_record token_env one_seat ''x'' = Inr plan
    \<and> issue_token token_env plan ''Ada'' ''key'' ''0123456789abcdef'' None = (Inr tok, st)
    \<and> verify_token token_env st plan (Some '' Ada '') (Some tok) = Inr (hex_text tok)"
proof -
  obtain plan where plan: "plan_record token_env one_seat ''x'' = Inr plan" using example_plan by blast
  obtain tok st where issued: "issue_token token_env plan ''Ada'' ''key'' ''0123456789abcdef'' None = (Inr tok, st)"
    using example_issue by blast
  have "py_strip '' Ada '' = py_strip ''Ada''" by code_simp
  from approval_token_round_trip [OF token_env_digests example_nonce issued this] plan issued
  show ?thesis by (auto simp: token_env_def)
qed

text \<open>Two arguments on which a digest does not collide.\<close>

definition no_collision :: "('a \<Rightarrow> string) \<Rightarrow> 'a \<Rightarrow> 'a \<Rightarrow> bool" where
  "no_collision f x y \<longleftrightarrow> (f x = f y \<longrightarrow> x = y)"

definition plan_fingerprint :: "approval_env \<Rightarrow> app_config \<Rightarrow> string \<Rightarrow> run_plan \<Rightarrow> json" where
  "plan_fingerprint ae c q plan = canon (JObj (plan_material ae c q (pl_workload plan) (pl_diversity plan)))"

lemma plan_hash:
  "plan_record ae c q = Inr plan \<Longrightarrow> pl_hash plan = ae_shaj ae (plan_fingerprint ae c q plan)
    \<and> pl_estimate plan = cost_estimate c (pl_workload plan) \<and> ce_max_calls (pl_estimate plan) \<le> rp_max_calls (ac_policy c)"
  by (auto simp: plan_record_def plan_fingerprint_def result_simps cost_estimate_def Let_def)

text \<open>C29: A token binds a human approval to one plan.  If a token that was issued for the plan of a
  configuration and a question verifies for another plan, then, unless one of the digests involved
  collides, the question is the same; the seats agree in every field (name, model, lineage, credential
  name, endpoint, limits, attempts, whether they are enabled, the output caps and timeouts of every
  stage, the extras), up to the order of the keys of their dictionaries; and the synthesis chain, the
  whole policy, the lineage report, the cost limits, the call ceiling and the approver are the same.\<close>

theorem approval_token_binds_plan:
  assumes "hex_digests ae" and "nonce_ok nonce"
    and plans: "plan_record ae c q = Inr plan" "plan_record ae c' q' = Inr plan'"
    and issued: "issue_token ae plan who fresh nonce st = (Inr tok, st')"
    and verified: "verify_token ae st' plan' (Some who') (Some tok) = Inr d"
    and mac: "\<And>key. no_collision (ae_mac ae key)
      (mac_message (pl_hash plan') (py_strip who') (ce_max_calls (pl_estimate plan')) nonce)
      (mac_message (pl_hash plan) (py_strip who) (ce_max_calls (pl_estimate plan)) nonce)"
    and sha: "no_collision (ae_shaj ae) (plan_fingerprint ae c' q' plan') (plan_fingerprint ae c q plan)"
      "no_collision (ae_sha ae) q' q"
  shows "q' = q \<and> map seat_terms (ac_providers c') = map seat_terms (ac_providers c)
    \<and> synthesis_chain c' = synthesis_chain c \<and> ac_policy c' = ac_policy c
    \<and> pl_diversity plan' = pl_diversity plan \<and> ce_paid (pl_estimate plan') = ce_paid (pl_estimate plan)
    \<and> ce_mandatory (pl_estimate plan') = ce_mandatory (pl_estimate plan)
    \<and> ce_max_input (pl_estimate plan') = ce_max_input (pl_estimate plan)
    \<and> ce_max_output (pl_estimate plan') = ce_max_output (pl_estimate plan)
    \<and> ce_max_calls (pl_estimate plan') = ce_max_calls (pl_estimate plan) \<and> py_strip who' = py_strip who"
proof -
  obtain key name where key: "fst (load_key False [] st') = Inr (Some key)" and name: "clean_name (Some who) = Inr name"
    and tok: "tok = token_prefix @ nonce @ ''.'' @ plan_mac ae key plan name nonce"
    using key_after_issue [OF issued] by blast
  obtain name' where name': "clean_name (Some who') = Inr name'"
    and same: "plan_mac ae key plan' name' nonce = plan_mac ae key plan name nonce"
    using verified [unfolded verify_issued [OF assms(1,2) key tok]] by blast
  have n: "name = py_strip who" "name' = py_strip who'" "line_break \<notin> set name" "line_break \<notin> set name'"
    using name name' by (auto simp: clean_name_def Let_def result_simps newline_def)
  have hashes: "list_all marker_char (pl_hash plan)" "list_all marker_char (pl_hash plan')"
    using plans [THEN plan_hash] assms(1) by (simp_all add: hex_digests_def)
  have "mac_message (pl_hash plan') name' (ce_max_calls (pl_estimate plan')) nonce
      = mac_message (pl_hash plan) name (ce_max_calls (pl_estimate plan)) nonce"
    using same mac n by (simp add: plan_mac_def no_collision_def)
  from mac_message_inj [OF hashes(2,1) n(4,3) this]
  have eq: "pl_hash plan' = pl_hash plan" "name' = name"
    "ce_max_calls (pl_estimate plan') = ce_max_calls (pl_estimate plan)" by simp_all
  from eq(1) sha(1) have "plan_fingerprint ae c' q' plan' = plan_fingerprint ae c q plan"
    using plans [THEN plan_hash] by (simp add: no_collision_def)
  note bound = material_bound [OF this [unfolded plan_fingerprint_def]]
  have "pl_estimate plan = cost_estimate c (pl_workload plan)" "pl_estimate plan' = cost_estimate c' (pl_workload plan')"
    using plans [THEN plan_hash] by simp_all
  then show ?thesis
    using bound(1-5) cost_bound [OF bound(7)] eq n sha(2) by (simp add: no_collision_def)
qed

theorem approval_token_binds_plan_witness:
  "\<exists>plan tok st. plan_record token_env one_seat ''x'' = Inr plan
    \<and> issue_token token_env plan ''Ada'' ''key'' ''0123456789abcdef'' None = (Inr tok, st)
    \<and> verify_token token_env st plan (Some '' Ada '') (Some tok) = Inr (hex_text tok)
    \<and> py_strip '' Ada '' = py_strip ''Ada''
    \<and> verify_token token_env st plan (Some ''Eve'') (Some tok) \<noteq> Inr (hex_text tok)"
proof -
  obtain plan where plan: "plan_record token_env one_seat ''x'' = Inr plan" using example_plan by blast
  obtain tok st where issued: "issue_token token_env plan ''Ada'' ''key'' ''0123456789abcdef'' None = (Inr tok, st)"
    using example_issue by blast
  have free: "no_collision (ae_mac token_env key) m m'" "no_collision (ae_sha token_env) m m'" for key m m'
    using hex_text_inj by (simp_all add: no_collision_def token_env_def inj_def)
  have same: "no_collision (ae_shaj token_env) v v" for v
    by (simp add: no_collision_def)
  note binds = approval_token_binds_plan
    [OF token_env_digests example_nonce plan plan issued _ free(1) same free(2)]
  obtain key where key: "fst (load_key False [] st) = Inr (Some key)"
    and tok: "tok = token_prefix @ ''0123456789abcdef'' @ ''.'' @ plan_mac token_env key plan ''Ada'' ''0123456789abcdef''"
  proof -
    have "clean_name (Some ''Ada'') = Inr ''Ada''" by code_simp
    with key_after_issue [OF issued] that show ?thesis by auto
  qed
  have "clean_name (Some '' Ada '') = Inr ''Ada''" by code_simp
  then have "verify_token token_env st plan (Some '' Ada '') (Some tok) = Inr (ae_sha token_env tok)"
    using verify_issued [OF token_env_digests example_nonce key tok] by blast
  moreover have "ae_sha token_env tok = hex_text tok" by (simp add: token_env_def)
  ultimately have ada: "verify_token token_env st plan (Some '' Ada '') (Some tok) = Inr (hex_text tok)" by simp
  have "verify_token token_env st plan (Some ''Eve'') (Some tok) \<noteq> Inr (hex_text tok)"
  proof
    assume "verify_token token_env st plan (Some ''Eve'') (Some tok) = Inr (hex_text tok)"
    from binds [OF this] have "py_strip ''Eve'' = py_strip ''Ada''" by blast
    moreover have "py_strip ''Eve'' \<noteq> py_strip ''Ada''" by code_simp
    ultimately show False by contradiction
  qed
  with binds [OF ada] plan issued ada show ?thesis by blast
qed

end
