(* ===== verification/Run_Locks.thy ===== *)
theory Run_Locks imports Engine_Run Approval begin

text \<open>
  What a run has fixed: the events by which \<open>engine.py\<close> freezes the candidates, the adjudication and the
  position in the synthesis chain, and the checks that a resumed run makes of them.  The seeded shuffle
  of the standard library is the argument \<open>rn_shuffle\<close>, by the text that seeds it.
\<close>

section \<open>The environment of a run\<close>

record 'g run_env =
  rn_engine :: "'g engine"
  rn_codec :: json_codec
  rn_conv :: py_conv
  rn_shuffle :: "string \<Rightarrow> string list \<Rightarrow> string list"
  rn_fresh :: "nat \<Rightarrow> nat \<Rightarrow> string"

abbreviation env_of :: "'g run_env \<Rightarrow> council_env" where
  "env_of rn \<equiv> eg_env (rn_engine rn)"

abbreviation pol_of :: "'g run_env \<Rightarrow> run_policy" where
  "pol_of rn \<equiv> eg_policy (rn_engine rn)"

abbreviation seats_of :: "'g run_env \<Rightarrow> string list" where
  "seats_of rn \<equiv> map fst (eg_providers (rn_engine rn))"

abbreviation chain_of :: "'g run_env \<Rightarrow> string list" where
  "chain_of rn \<equiv> eg_synthesis (rn_engine rn)"

definition with_store :: "(council_db \<Rightarrow> ('g world, 'a) action) \<Rightarrow> ('g world, 'a) action" where
  "with_store f w = f (wd_store w) w"

definition run_event ::
  "'g run_env \<Rightarrow> string \<Rightarrow> string \<Rightarrow> jobj \<Rightarrow> instant \<Rightarrow> ('g world, nat) action" where
  "run_event rn run typ payload now = add_engine_event (env_of rn) run typ payload now"

section \<open>Values\<close>

text \<open>\<open>==\<close> on values of JSON shape: the order of keys does not matter, and numbers and booleans are
  compared by their value.\<close>

fun py_norm :: "json \<Rightarrow> json" where
  "py_norm (JBool b) = JFloat (of_bool b)"
| "py_norm (JInt n) = JFloat (of_int n)"
| "py_norm (JList xs) = JList (map py_norm xs)"
| "py_norm (JObj m) = JObj (sort_key fst (map (\<lambda>p. (fst p, py_norm (snd p))) m))"
| "py_norm v = v"

definition py_eq :: "json \<Rightarrow> json \<Rightarrow> bool" where
  "py_eq a b \<longleftrightarrow> py_norm a = py_norm b"

text \<open>\<open>any(f(x) for x in xs)\<close> where \<open>f\<close> may raise.\<close>

fun rany :: "('a \<Rightarrow> bool result) \<Rightarrow> 'a list \<Rightarrow> bool result" where
  "rany f [] = Inr False"
| "rany f (x # xs) = rbind (f x) (\<lambda>b. if b then Inr True else rany f xs)"

text \<open>The members of a hashed collection.\<close>

definition hashed :: "json list \<Rightarrow> json list result" where
  "hashed xs = rmap (\<lambda>v. case v of
       JList _ \<Rightarrow> Inl (TypeError (unhashable ''list''))
     | JObj _ \<Rightarrow> Inl (TypeError (unhashable ''dict''))
     | _ \<Rightarrow> Inr v) xs"

definition keys_are :: "jobj \<Rightarrow> string list \<Rightarrow> bool" where
  "keys_are m ks \<longleftrightarrow> fst ` set m = set ks"

definition object_list :: "json \<Rightarrow> jobj list option" where
  "object_list v = (case v of
     JList xs \<Rightarrow> those (map (\<lambda>x. case x of JObj m \<Rightarrow> Some m | _ \<Rightarrow> None) xs) | _ \<Rightarrow> None)"

definition is_bool :: "json \<Rightarrow> bool" where
  "is_bool v \<longleftrightarrow> (case v of JBool _ \<Rightarrow> True | _ \<Rightarrow> False)"

definition events_of :: "string \<Rightarrow> event_row list \<Rightarrow> event_row list" where
  "events_of typ es = filter (\<lambda>e. ev_type e = typ) es"

text \<open>The payload of an event; the store only holds objects.\<close>

definition payload_of :: "event_row \<Rightarrow> jobj" where
  "payload_of e = (case ev_payload e of JObj m \<Rightarrow> m | _ \<Rightarrow> [])"

definition assertion :: "'a option \<Rightarrow> 'a result" where
  "assertion x = (case x of None \<Rightarrow> Inl (RuntimeError ''assertion failed'') | Some y \<Rightarrow> Inr y)"

section \<open>Provider and policy locks\<close>

definition locked_providers :: "py_conv \<Rightarrow> json \<Rightarrow> provider_config list result" where
  "locked_providers cv v = (case v of
     JList xs \<Rightarrow> rmap (\<lambda>x. case x of JObj m \<Rightarrow> provider_from_dict cv m
                             | _ \<Rightarrow> Inl (TypeError ''not a mapping'')) xs
   | _ \<Rightarrow> Inl (TypeError ''not a list''))"

definition provider_list :: "provider_config list \<Rightarrow> json" where
  "provider_list cs = JList (map (\<lambda>c. JObj (provider_to_dict c)) cs)"

definition validate_provider_lock :: "'g run_env \<Rightarrow> json \<Rightarrow> unit result" where
  "validate_provider_lock rn locked =
     rbind (locked_providers (rn_conv rn) locked) (\<lambda>cs.
       require (py_eq (provider_list (map snd (eg_providers (rn_engine rn)))) (provider_list cs))
         (ValueError ''Current provider configuration or order differs from the run lock'') (Inr ()))"

definition validate_policy_lock :: "'g run_env \<Rightarrow> json \<Rightarrow> unit result" where
  "validate_policy_lock rn locked = (case locked of
     JObj m \<Rightarrow>
       (let first = get_default m ''synthesis_provider'' (JStr (hd (chain_of rn)));
            rest = get_default m ''synthesis_fallbacks'' (JList []);
            expected = filter (\<lambda>p. fst p \<notin> {''synthesis_provider'', ''synthesis_fallbacks''}) m in
        require (case rest of JList xs \<Rightarrow> list_all is_str xs | _ \<Rightarrow> False)
          (ValueError ''Run synthesis fallback lock is malformed'')
       (require (fst ` set expected \<subseteq> fst ` set (policy_to_dict default_policy))
          (ValueError ''Run policy lock contains unknown fields'')
       (rbind (policy_from_dict (rn_conv rn) expected) (\<lambda>p.
        require (p = pol_of rn \<and> first = JStr (hd (chain_of rn)) \<and> rest = JList (map JStr (tl (chain_of rn))))
          (ValueError ''Current policy or synthesis provider chain differs from the run lock'') (Inr ())))))
   | _ \<Rightarrow> Inl (TypeError ''not a mapping''))"

section \<open>Candidates\<close>

text \<open>\<open>candidate_label(i)\<close> for an index that is not negative.\<close>

definition nth_label :: "nat \<Rightarrow> string" where
  "nth_label i = ''CANDIDATE_'' @ two_digits (i + 1)"

lemma candidate_label_nth: "candidate_label (int i) = Inr (nth_label i)"
  by (simp add: candidate_label_def nth_label_def)

type_synonym mapping = "(string, string) dict"

definition candidate_mapping :: "'g run_env \<Rightarrow> string \<Rightarrow> string list \<Rightarrow> mapping" where
  "candidate_mapping rn run names =
     (let shuffled = rn_shuffle rn (run @ '':candidate-label-map-v1'') (sorted_text names) in
      map (\<lambda>i. (nth_label i, shuffled ! i)) [0..<length shuffled])"

definition jury_presentation_order :: "'g run_env \<Rightarrow> string \<Rightarrow> string \<Rightarrow> string list \<Rightarrow> string list" where
  "jury_presentation_order rn run juror labels =
     rn_shuffle rn (run @ '':'' @ juror @ '':jury-presentation-v1'') (sorted_text labels)"

record namespace_lock =
  nl_mapping :: mapping
  nl_failures :: "jobj list"

definition mapping_json :: "mapping \<Rightarrow> json" where
  "mapping_json mp = JObj (map (\<lambda>p. (fst p, JStr (snd p))) mp)"

definition namespace_mapping :: "'g run_env \<Rightarrow> string \<Rightarrow> json \<Rightarrow> mapping result" where
  "namespace_mapping rn run v =
     (let malformed = ValueError ''Candidate namespace mapping is malformed'' in
      case v of
        JObj raw \<Rightarrow>
          require (raw \<noteq> [] \<and> list_all (\<lambda>p. is_str (snd p)) raw) malformed
          (let labels = map nth_label [0..<length raw] in
           require (fst ` set raw = set labels) (ValueError ''Candidate namespace labels are malformed'')
           (let mp = map (\<lambda>l. (l, str_of (get_or_null raw l))) labels; chosen = remdups (map snd mp) in
            require (length chosen = length mp \<and> set chosen \<subseteq> set (seats_of rn)
                \<and> mp = candidate_mapping rn run chosen)
              (ValueError ''Candidate namespace mapping is inconsistent'')
           (rbind (rmap (provider_of (rn_engine rn)) chosen) (\<lambda>cs.
            require (rp_proposal_quorum (pol_of rn) \<le> int (length chosen)
                \<and> rp_min_lineages (pol_of rn) \<le> int (card (cf_lineage ` set cs)))
              (ValueError ''Candidate namespace does not satisfy quorum'') (Inr mp)))))
      | _ \<Rightarrow> Inl malformed)"

text \<open>A failure of the wrong stage or of an unknown provider.\<close>

definition foreign_failure :: "'g run_env \<Rightarrow> string \<Rightarrow> jobj \<Rightarrow> bool result" where
  "foreign_failure rn stage f =
     (if get_or_null f ''stage'' \<noteq> JStr stage then Inr True
      else rbind (member_of (get_or_null f ''provider'') (seats_of rn)) (\<lambda>b. Inr (\<not> b)))"

definition failed_names :: "jobj list \<Rightarrow> string list" where
  "failed_names fs = map (\<lambda>f. str_of (get_or_null f ''provider'')) fs"

definition namespace_failures :: "'g run_env \<Rightarrow> string list \<Rightarrow> json \<Rightarrow> jobj list result" where
  "namespace_failures rn chosen v = (case object_list v of
     None \<Rightarrow> Inl (ValueError ''Frozen proposal failures are malformed'')
   | Some fs \<Rightarrow>
       rbind (rany (foreign_failure rn ''proposal'') fs) (\<lambda>bad.
       require (\<not> bad) (ValueError ''Frozen proposal failures are inconsistent'')
      (require (set (failed_names fs) \<inter> set chosen = {}
          \<and> set (failed_names fs) = set (seats_of rn) - set chosen)
         (ValueError ''Frozen proposal membership is inconsistent'') (Inr fs))))"

definition load_candidate_namespace_lock ::
  "'g run_env \<Rightarrow> string \<Rightarrow> event_row list \<Rightarrow> namespace_lock option result" where
  "load_candidate_namespace_lock rn run events =
     (case events_of ''candidate_namespace_locked'' events of
        [] \<Rightarrow> Inr None
      | [e] \<Rightarrow>
          (case ev_payload e of
             JObj m \<Rightarrow>
               require (keys_are m [''version'', ''candidate_label_mapping'', ''proposal_failures''])
                 (ValueError ''Candidate namespace lock is malformed'')
              (require (py_eq (get_or_null m ''version'') (JInt 1))
                 (ValueError ''Candidate namespace lock version is unsupported'')
              (rbind (namespace_mapping rn run (get_or_null m ''candidate_label_mapping'')) (\<lambda>mp.
               rbind (namespace_failures rn (map snd mp) (get_or_null m ''proposal_failures'')) (\<lambda>fs.
                 Inr (Some \<lparr>nl_mapping = mp, nl_failures = fs\<rparr>)))))
           | _ \<Rightarrow> Inl (ValueError ''Candidate namespace lock is malformed''))
      | _ \<Rightarrow> Inl (ValueError ''Run contains duplicate candidate namespace locks''))"

definition lock_candidate_namespace ::
  "'g run_env \<Rightarrow> string \<Rightarrow> mapping \<Rightarrow> jobj list \<Rightarrow> instant \<Rightarrow> ('g world, namespace_lock) action" where
  "lock_candidate_namespace rn run mp fs now =
     sbind (run_event rn run ''candidate_namespace_locked''
         [(''version'', JInt 1), (''candidate_label_mapping'', mapping_json mp),
          (''proposal_failures'', JList (map JObj fs))] now) (\<lambda>_.
     with_store (\<lambda>db. sresult (rbind
       (load_candidate_namespace_lock rn run (list_events db run)) assertion)))"

section \<open>Adjudication\<close>

record adjudication_lock =
  al_records :: "jobj list"
  al_failures :: "jobj list"

definition judgment_payload :: "jobj \<Rightarrow> jobj result" where
  "judgment_payload jury = rmap (\<lambda>k. rbind (obj_get jury k) (\<lambda>v. Inr (k, v))) jury_keys"

definition juror_of :: "jobj \<Rightarrow> string" where
  "juror_of r = str_of (get_or_null r ''juror'')"

definition is_valid_record :: "jobj \<Rightarrow> bool" where
  "is_valid_record r \<longleftrightarrow> truthy (get_or_null r ''valid'')"

definition valid_records :: "jobj list \<Rightarrow> jobj list" where
  "valid_records rs = filter is_valid_record rs"

text \<open>The checks of one locked record, given the jurors before it.\<close>

definition record_fits :: "'g run_env \<Rightarrow> mapping \<Rightarrow> string set \<Rightarrow> jobj \<Rightarrow> bool result" where
  "record_fits rn mp jurors r =
     (case (get_or_null r ''juror'', get_or_null r ''presentation_order'') of
        (JStr juror, JList order) \<Rightarrow>
          if juror \<in> set (seats_of rn) \<and> juror \<notin> jurors \<and> py_eq (get_or_null r ''mapping'') (mapping_json mp)
              \<and> length order = length mp
          then rbind (hashed order) (\<lambda>vs. Inr (set vs = JStr ` fst ` set mp \<and> is_bool (get_or_null r ''valid'')))
          else Inr False
      | _ \<Rightarrow> Inr False)"

fun check_records :: "'g run_env \<Rightarrow> mapping \<Rightarrow> string set \<Rightarrow> jobj list \<Rightarrow> unit result" where
  "check_records rn mp jurors [] = Inr ()"
| "check_records rn mp jurors (r # rs) =
     rbind (record_fits rn mp jurors r) (\<lambda>ok.
     require ok (ValueError ''Locked jury records are inconsistent'')
       (check_records rn mp (insert (juror_of r) jurors) rs))"

text \<open>\<open>except (KeyError, TypeError, ValueError)\<close>.\<close>

definition as_inconsistent :: "string \<Rightarrow> 'a result \<Rightarrow> 'a result" where
  "as_inconsistent msg r = (case r of
     Inl (KeyError _) \<Rightarrow> Inl (ValueError msg) | Inl (TypeError _) \<Rightarrow> Inl (ValueError msg)
   | Inl (ValueError _) \<Rightarrow> Inl (ValueError msg) | _ \<Rightarrow> r)"

definition aggregate_records :: "'g run_env \<Rightarrow> jobj list \<Rightarrow> string list \<Rightarrow> aggregate result" where
  "aggregate_records rn rs names =
     rbind (rmap judgment_payload rs) (\<lambda>js.
       aggregate_juries (extract_json_object (rn_codec rn)) (JList (map JObj js)) names)"

definition check_adjudication ::
  "'g run_env \<Rightarrow> mapping \<Rightarrow> jobj list \<Rightarrow> jobj list \<Rightarrow> adjudication_lock result" where
  "check_adjudication rn mp rs fs =
     rbind (check_records rn mp {} rs) (\<lambda>_.
     rbind (rany (foreign_failure rn ''jury'') fs) (\<lambda>bad.
     let jurors = juror_of ` set rs; valid = juror_of ` set (valid_records rs);
         failed = set (failed_names fs) in
     require (\<not> bad) (ValueError ''Locked jury failures are inconsistent'')
    (require (valid \<inter> failed = {} \<and> (jurors - valid) - failed = {} \<and> jurors \<union> failed = set (seats_of rn)
        \<and> rp_jury_quorum (pol_of rn) \<le> int (card valid))
       (ValueError ''Locked jury membership is inconsistent'')
    (rbind (as_inconsistent ''Locked jury judgments are inconsistent''
              (aggregate_records rn (valid_records rs) (map snd mp))) (\<lambda>_.
       Inr \<lparr>al_records = rs, al_failures = fs\<rparr>)))))"

definition load_adjudication_lock ::
  "'g run_env \<Rightarrow> namespace_lock option \<Rightarrow> event_row list \<Rightarrow> adjudication_lock option result" where
  "load_adjudication_lock rn namespace events =
     (case events_of ''adjudication_locked'' events of
        [] \<Rightarrow> Inr None
      | e # others \<Rightarrow>
          (case namespace of
             None \<Rightarrow> Inl (ValueError ''Adjudication lock exists without a candidate namespace'')
           | Some nl \<Rightarrow>
               require (others = []) (ValueError ''Run contains duplicate adjudication locks'')
              (case ev_payload e of
                 JObj m \<Rightarrow>
                   require (keys_are m [''version'', ''candidate_label_mapping'', ''jury_records'', ''jury_failures''])
                     (ValueError ''Adjudication lock is malformed'')
                  (require (py_eq (get_or_null m ''version'') (JInt 1))
                     (ValueError ''Adjudication lock version is unsupported'')
                  (require (py_eq (get_or_null m ''candidate_label_mapping'') (mapping_json (nl_mapping nl)))
                     (ValueError ''Adjudication lock candidate namespace is inconsistent'')
                  (case (object_list (get_or_null m ''jury_records''), object_list (get_or_null m ''jury_failures'')) of
                     (Some rs, Some fs) \<Rightarrow>
                       rbind (check_adjudication rn (nl_mapping nl) rs fs) (\<lambda>l. Inr (Some l))
                   | (None, _) \<Rightarrow> Inl (ValueError ''Locked jury records are malformed'')
                   | (Some rs, None) \<Rightarrow>
                       rbind (check_records rn (nl_mapping nl) {} rs) (\<lambda>_.
                         Inl (ValueError ''Locked jury failures are malformed'')))))
               | _ \<Rightarrow> Inl (ValueError ''Adjudication lock is malformed''))))"

definition lock_adjudication ::
  "'g run_env \<Rightarrow> string \<Rightarrow> mapping \<Rightarrow> jobj list \<Rightarrow> jobj list \<Rightarrow> instant \<Rightarrow> ('g world, adjudication_lock) action" where
  "lock_adjudication rn run mp rs fs now =
     sbind (run_event rn run ''adjudication_locked''
         [(''version'', JInt 1), (''candidate_label_mapping'', mapping_json mp),
          (''jury_records'', JList (map JObj rs)), (''jury_failures'', JList (map JObj fs))] now) (\<lambda>_.
     with_store (\<lambda>db. sresult
       (rbind (load_candidate_namespace_lock rn run (list_events db run)) (\<lambda>namespace.
        rbind (load_adjudication_lock rn namespace (list_events db run)) assertion))))"

end
