(* ===== verification/Run_Fallback.thy ===== *)
theory Run_Fallback imports Run_Locks begin

text \<open>
  The chain of synthesizers: every step from one to the next is an event, and the number of these
  events is the position that a resumed run continues from.
\<close>

section \<open>The recorded position\<close>

definition provider_error_fields :: "string list" where
  "provider_error_fields =
     [''message'', ''category'', ''retryable'', ''status_code'', ''request_id'', ''attempts'', ''ambiguous'',
      ''client_request_id'', ''elapsed_ms'', ''transport_phase'', ''timeout_subtype'', ''provider_error_code'']"

definition category_values :: "string list" where
  "category_values = map category_value
     [AUTHENTICATION, PERMISSION, RATE_LIMIT, TIMEOUT, CONNECTION, PROVIDER_SERVER, INVALID_REQUEST,
      INVALID_RESPONSE, CONTENT_FILTER, BUDGET, CANCELLED, UNKNOWN]"

text \<open>The synthesis invocations of the chain; a run has one per provider.\<close>

definition synthesis_slots :: "'g run_env \<Rightarrow> council_db \<Rightarrow> string \<Rightarrow> invocation list" where
  "synthesis_slots rn db run =
     filter (\<lambda>r. iv_stage r = ''synthesis'' \<and> iv_provider r \<in> set (chain_of rn)) (list_invocations db run)"

definition slot_of_provider :: "invocation list \<Rightarrow> string \<Rightarrow> invocation option" where
  "slot_of_provider slots name = row_where (\<lambda>r. iv_provider r = name) slots"

definition fallback_positions_ok :: "'g run_env \<Rightarrow> nat \<Rightarrow> jobj \<Rightarrow> bool" where
  "fallback_positions_ok rn pos m \<longleftrightarrow>
     py_eq (get_or_null m ''version'') (JInt 1)
     \<and> get_or_null m ''from_position'' = JInt (int pos) \<and> get_or_null m ''to_position'' = JInt (int pos + 1)
     \<and> pos + 1 \<le> length (chain_of rn)
     \<and> get_or_null m ''from_provider'' = JStr (chain_of rn ! (pos - 1))
     \<and> get_or_null m ''to_provider'' = JStr (chain_of rn ! pos)
     \<and> is_bool (get_or_null m ''ambiguous'')"

definition fallback_failure_ok :: "jobj \<Rightarrow> jobj \<Rightarrow> bool" where
  "fallback_failure_ok m f \<longleftrightarrow>
     keys_are f provider_error_fields \<and> is_str (get_or_null f ''message'')
     \<and> is_bool (get_or_null f ''retryable'') \<and> is_bool (get_or_null f ''ambiguous'')
     \<and> py_eq (get_or_null f ''category'') (get_or_null m ''reason_category'')
     \<and> get_or_null f ''ambiguous'' = get_or_null m ''ambiguous''"

text \<open>One recorded step: the failure that the run goes on with.\<close>

definition fallback_step ::
  "'g run_env \<Rightarrow> invocation list \<Rightarrow> nat \<Rightarrow> event_row \<Rightarrow> jobj result" where
  "fallback_step rn slots pos e = (case ev_payload e of
     JObj m \<Rightarrow>
       require (keys_are m [''version'', ''from_position'', ''from_provider'', ''to_position'', ''to_provider'',
           ''reason_category'', ''ambiguous'', ''failure''])
         (ValueError ''Synthesis fallback audit event is malformed'')
      (require (fallback_positions_ok rn pos m) (ValueError ''Synthesis fallback audit event is inconsistent'')
      (require (py_str (rn_conv rn) (get_or_null m ''reason_category'') \<in> set category_values)
         (ValueError ''Synthesis fallback audit event has an invalid category'')
      (case get_or_null m ''failure'' of
         JObj f \<Rightarrow>
           require (fallback_failure_ok m f) (ValueError ''Synthesis fallback audit failure is inconsistent'')
          (let name = chain_of rn ! (pos - 1) in
           case slot_of_provider slots name of
             None \<Rightarrow> Inr (stored_failure ''synthesis'' name f)
           | Some r \<Rightarrow>
               (case (iv_status r, obj_of (oc_error (iv_outcome r))) of
                  (FAILED, Some g) \<Rightarrow>
                    require (py_eq (JObj g) (JObj f))
                      (ValueError ''Synthesis fallback audit event disagrees with its invocation'')
                      (Inr (stored_failure ''synthesis'' name g))
                | _ \<Rightarrow> Inl (ValueError ''Synthesis fallback audit event disagrees with its invocation'')))
       | _ \<Rightarrow> Inl (ValueError ''Synthesis fallback audit failure is inconsistent''))))
   | _ \<Rightarrow> Inl (ValueError ''Synthesis fallback audit event is malformed''))"

fun fallback_steps ::
  "'g run_env \<Rightarrow> invocation list \<Rightarrow> nat \<Rightarrow> event_row list \<Rightarrow> jobj list result" where
  "fallback_steps rn slots pos [] = Inr []"
| "fallback_steps rn slots pos (e # es) =
     rbind (fallback_step rn slots pos e) (\<lambda>f.
     rbind (fallback_steps rn slots (pos + 1) es) (\<lambda>fs. Inr (f # fs)))"

definition load_synthesis_fallback_state ::
  "'g run_env \<Rightarrow> council_db \<Rightarrow> string \<Rightarrow> event_row list \<Rightarrow> (nat \<times> jobj list) result" where
  "load_synthesis_fallback_state rn db run events =
     (let steps = events_of ''synthesis_fallback_advanced'' events;
          slots = synthesis_slots rn db run;
          position = length steps + 1;
          done_at = map (\<lambda>r. position_of (iv_provider r) (chain_of rn) + 1)
                      (filter (\<lambda>r. iv_status r = SUCCEEDED) slots) in
      rbind (fallback_steps rn slots 1 steps) (\<lambda>fs.
      require (done_at = [] \<or> done_at = [position])
        (ValueError ''Synthesis fallback audit state disagrees with successful invocations'')
        (Inr (position, fs))))"

section \<open>Recording a step\<close>

definition fallback_payload :: "'g run_env \<Rightarrow> nat \<Rightarrow> jobj \<Rightarrow> jobj \<Rightarrow> jobj" where
  "fallback_payload rn pos f value =
     [(''version'', JInt 1), (''from_position'', JInt (int pos)),
      (''from_provider'', JStr (chain_of rn ! (pos - 1))), (''to_position'', JInt (int pos + 1)),
      (''to_provider'', JStr (chain_of rn ! pos)),
      (''reason_category'', JStr (if truthy (get_or_null f ''category'')
         then py_str (rn_conv rn) (get_or_null f ''category'') else ''unknown'')),
      (''ambiguous'', JBool (truthy (get_default f ''ambiguous'' (JBool False)))),
      (''failure'', JObj value)]"

definition persist_synthesis_fallback_event ::
  "'g run_env \<Rightarrow> string \<Rightarrow> nat \<Rightarrow> jobj \<Rightarrow> instant \<Rightarrow> ('g world, unit) action" where
  "persist_synthesis_fallback_event rn run pos f now =
     (let name = chain_of rn ! (pos - 1);
          value = filter (\<lambda>p. fst p \<notin> {''stage'', ''provider''}) f;
          payload = fallback_payload rn pos f value in
      if get_or_null f ''stage'' \<noteq> JStr ''synthesis'' \<or> get_or_null f ''provider'' \<noteq> JStr name
        then sraise (ValueError ''Synthesis fallback failure is inconsistent'')
      else if \<not> keys_are value provider_error_fields
        then sraise (ValueError ''Synthesis fallback failure is malformed'')
      else with_store (\<lambda>db.
        (case filter (\<lambda>e. py_eq (get_or_null (payload_of e) ''from_position'') (JInt (int pos)))
                (events_of ''synthesis_fallback_advanced'' (list_events db run)) of
           [] \<Rightarrow>
             sbind (run_event rn run ''synthesis_fallback_advanced'' payload now) (\<lambda>_.
             with_store (\<lambda>db'. sbind (sresult
               (load_synthesis_fallback_state rn db' run (list_events db' run))) (\<lambda>_. sreturn ())))
         | [e] \<Rightarrow>
             if py_eq (JObj (payload_of e)) (JObj payload) then sreturn ()
             else sraise (ValueError ''Synthesis fallback audit event is inconsistent'')
         | _ \<Rightarrow> sraise (ValueError ''Run contains duplicate synthesis fallback events''))))"

end
