(* ===== verification/Run_Juries.thy ===== *)
theory Run_Juries imports Run_Fallback begin

text \<open>
  The judgments of a run: from the jurors' answers to records over provider names, with the single
  repair of the prose of a judgment whose decision is sound.
\<close>

section \<open>Labels and names\<close>

definition provider_at :: "mapping \<Rightarrow> string \<Rightarrow> string result" where
  "provider_at mp label = (case dict_get mp label of None \<Rightarrow> Inl (KeyError label) | Some p \<Rightarrow> Inr p)"

definition canonicalize_jury :: "jury_judgment \<Rightarrow> mapping \<Rightarrow> jury_judgment result" where
  "canonicalize_jury j mp =
     rbind (rmap (provider_at mp) (jd_ranking j)) (\<lambda>ranking.
     rbind (case jd_winner j of None \<Rightarrow> Inr None | Some w \<Rightarrow> rbind (provider_at mp w) (\<lambda>p. Inr (Some p))) (\<lambda>winner.
       Inr (j\<lparr>jd_ranking := ranking, jd_winner := winner\<rparr>)))"

definition label_of :: "mapping \<Rightarrow> string \<Rightarrow> string" where
  "label_of mp name = (case map_of (rev (map (\<lambda>p. (snd p, fst p)) mp)) name of None \<Rightarrow> name | Some l \<Rightarrow> l)"

text \<open>\<open>reverse.get(value, value)\<close>.\<close>

definition anonymous_value :: "mapping \<Rightarrow> json \<Rightarrow> json result" where
  "anonymous_value mp v = (case v of
     JStr s \<Rightarrow> Inr (JStr (label_of mp s))
   | JList _ \<Rightarrow> Inl (TypeError (unhashable ''list''))
   | JObj _ \<Rightarrow> Inl (TypeError (unhashable ''dict''))
   | _ \<Rightarrow> Inr v)"

text \<open>Iterating over a value.\<close>

definition iterate :: "json \<Rightarrow> json list result" where
  "iterate v = (case v of
     JList xs \<Rightarrow> Inr xs | JStr s \<Rightarrow> Inr (map (\<lambda>c. JStr [c]) s) | JObj m \<Rightarrow> Inr (map (\<lambda>p. JStr (fst p)) m)
   | _ \<Rightarrow> Inl (TypeError ''object is not iterable''))"

definition anonymize_jury :: "jobj \<Rightarrow> mapping \<Rightarrow> jobj result" where
  "anonymize_jury jury mp =
     rbind (judgment_payload jury) (\<lambda>m.
     rbind (rbind (iterate (get_default jury ''ranking'' (JList []))) (rmap (anonymous_value mp))) (\<lambda>ranking.
     rbind (if get_or_null jury ''winner'' = JNull then Inr JNull
            else anonymous_value mp (get_or_null jury ''winner'')) (\<lambda>winner.
       Inr (dict_set ''winner'' winner (dict_set ''ranking'' (JList ranking) m)))))"

definition anonymize_aggregate :: "aggregate \<Rightarrow> mapping \<Rightarrow> aggregate" where
  "anonymize_aggregate ag mp = ag\<lparr>
     ag_winner := map_option (label_of mp) (ag_winner ag), ag_ranking := map (label_of mp) (ag_ranking ag),
     ag_tied := map (label_of mp) (ag_tied ag),
     ag_points := map (\<lambda>p. (label_of mp (fst p), snd p)) (ag_points ag),
     ag_wins := map (\<lambda>p. (label_of mp (fst p), snd p)) (ag_wins ag)\<rparr>"

section \<open>Records\<close>

definition record_tail :: "string \<Rightarrow> provider_response \<Rightarrow> mapping \<Rightarrow> string list \<Rightarrow> jobj" where
  "record_tail juror r mp order =
     [(''juror'', JStr juror), (''juror_model'', JStr (rs_model r)), (''mapping'', mapping_json mp),
      (''presentation_order'', JList (map JStr order))]"

definition valid_jury_record ::
  "string \<Rightarrow> provider_response \<Rightarrow> mapping \<Rightarrow> string list \<Rightarrow> jury_judgment \<Rightarrow> jobj result" where
  "valid_jury_record juror r mp order j =
     rbind (canonicalize_jury j mp) (\<lambda>c.
       Inr (jury_object c @ record_tail juror r mp order @ [(''valid'', JBool True)]))"

definition invalid_jury_record ::
  "string \<Rightarrow> provider_response \<Rightarrow> mapping \<Rightarrow> string list \<Rightarrow> string \<Rightarrow> jobj" where
  "invalid_jury_record juror r mp order err =
     record_tail juror r mp order @ [(''valid'', JBool False), (''error'', JStr err)]"

definition jury_artifact_failure :: "string \<Rightarrow> provider_response \<Rightarrow> string \<Rightarrow> jobj" where
  "jury_artifact_failure juror r err = failure_payload ''jury'' juror (plain_error
     (''Jury artifact was invalid: '' @ err) INVALID_RESPONSE False (rs_request r) (rs_attempts r) False)"

text \<open>\<open>except (TypeError, ValueError) as exc: str(exc)\<close>.\<close>

definition caught_message :: "py_error \<Rightarrow> string option" where
  "caught_message e = (case e of ValueError m \<Rightarrow> Some m | TypeError m \<Rightarrow> Some m
     | ServiceInputError _ _ m \<Rightarrow> Some m | AgentRequestError m _ \<Rightarrow> Some m | _ \<Rightarrow> None)"

section \<open>The first reading\<close>

record invalid_jury =
  ij_response :: provider_response
  ij_order :: "string list"
  ij_error :: string
  ij_failure :: jobj
  ij_repair :: "(prompts \<times> jury_decision) option"
  ij_repair_error :: "string option"

text \<open>A judgment is a record, or invalid with its record and what its repair would send.\<close>

datatype first_reading = ValidRecord jobj | InvalidRecord jobj invalid_jury

definition prepare_repair ::
  "'g run_env \<Rightarrow> string list \<Rightarrow> string \<Rightarrow> provider_response \<Rightarrow> string \<Rightarrow>
   ((prompts \<times> jury_decision) option \<times> string option) result" where
  "prepare_repair rn labels marker r err =
     (if rp_jury_repairs (pol_of rn) = 0 then Inr (None, None)
      else (case jury_repair_prompts (jc_float (rn_codec rn)) (extract_json_object (rn_codec rn))
                   (rs_content r) err labels (Some marker) [] of
              Inr (sys, user, d) \<Rightarrow> Inr (Some ((sys, user), d), None)
            | Inl e \<Rightarrow> (case caught_message e of None \<Rightarrow> Inl e | Some m \<Rightarrow> Inr (None, Some m))))"

definition read_judgment ::
  "'g run_env \<Rightarrow> mapping \<Rightarrow> string \<Rightarrow> string \<Rightarrow> string list \<Rightarrow> provider_response \<Rightarrow> first_reading result" where
  "read_judgment rn mp marker juror order r =
     (case parse_jury (extract_json_object (rn_codec rn)) (rs_content r) (map fst mp) of
        Inr j \<Rightarrow> rbind (valid_jury_record juror r mp order j) (\<lambda>rec. Inr (ValidRecord rec))
      | Inl e \<Rightarrow>
          (case caught_message e of
             None \<Rightarrow> Inl e
           | Some err \<Rightarrow>
               rbind (prepare_repair rn (map fst mp) marker r err) (\<lambda>(repair, repair_error).
                 Inr (InvalidRecord (invalid_jury_record juror r mp order err)
                   \<lparr>ij_response = r, ij_order = order, ij_error = err,
                    ij_failure = jury_artifact_failure juror r err, ij_repair = repair,
                    ij_repair_error = repair_error\<rparr>))))"

fun read_judgments ::
  "'g run_env \<Rightarrow> mapping \<Rightarrow> string \<Rightarrow> (string, string list) dict \<Rightarrow> (string, provider_response) dict \<Rightarrow>
   string list \<Rightarrow> (string, first_reading) dict result" where
  "read_judgments rn mp marker orders responses [] = Inr []"
| "read_judgments rn mp marker orders responses (juror # rest) =
     (case dict_get responses juror of
        None \<Rightarrow> read_judgments rn mp marker orders responses rest
      | Some r \<Rightarrow>
          rbind (case dict_get orders juror of None \<Rightarrow> Inl (KeyError juror) | Some order \<Rightarrow> Inr order) (\<lambda>order.
          rbind (read_judgment rn mp marker juror order r) (\<lambda>x.
          rbind (read_judgments rn mp marker orders responses rest) (\<lambda>xs. Inr ((juror, x) # xs)))))"

text \<open>The repairs that there is budget for: those on record, and new ones up to what synthesis leaves.\<close>

definition eligible_repairs :: "(string, first_reading) dict \<Rightarrow> (string \<times> prompts) list" where
  "eligible_repairs readings = List.map_filter (\<lambda>p. case snd p of
     InvalidRecord _ ij \<Rightarrow> map_option (\<lambda>x. (fst p, fst x)) (ij_repair ij) | _ \<Rightarrow> None) readings"

definition repair_slots :: "council_db \<Rightarrow> string \<Rightarrow> string list" where
  "repair_slots db run = map iv_provider (filter (\<lambda>r. iv_stage r = ''jury_repair'') (list_invocations db run))"

definition selected_repairs ::
  "'g run_env \<Rightarrow> council_db \<Rightarrow> string \<Rightarrow> (string \<times> prompts) list \<Rightarrow> (string \<times> prompts) list" where
  "selected_repairs rn db run eligible =
     (let existing = repair_slots db run;
          capacity = nat (max 0 (rp_max_calls (pol_of rn) - count_calls db run - int (length (chain_of rn))));
          fresh = take capacity (filter (\<lambda>n. n \<notin> set existing) (map fst eligible)) in
      filter (\<lambda>p. fst p \<in> set existing \<or> fst p \<in> set fresh) eligible)"

definition stage_of_run :: "string \<Rightarrow> string \<Rightarrow> bool \<Rightarrow> stage_args" where
  "stage_of_run run stage retry =
     \<lparr>sa_run = run, sa_stage = stage, sa_provider_stage = stage, sa_retry_failed = retry,
      sa_allow_recovery = True, sa_overrides = [], sa_preserve = False\<rparr>"

definition repair_args :: "string \<Rightarrow> stage_args" where
  "repair_args run = (stage_of_run run ''jury_repair'' False)\<lparr>sa_provider_stage := ''jury'',
     sa_allow_recovery := False, sa_preserve := True\<rparr>"

section \<open>The outcome of the repairs\<close>

definition recovery_head :: "string \<Rightarrow> string \<Rightarrow> string \<Rightarrow> jobj" where
  "recovery_head juror status initial_error =
     [(''kind'', JStr ''jury_artifact_repair''), (''stage'', JStr ''jury''), (''repair_stage'', JStr ''jury_repair''),
      (''provider'', JStr juror), (''status'', JStr status), (''initial_error'', JStr initial_error)]"

text \<open>What becomes of one invalid judgment: its record if it changes, the failure, and the recovery,
  marked if it is to be persisted.\<close>

record repair_outcome =
  ro_record :: "jobj option"
  ro_failures :: "jobj list"
  ro_recovery :: "(jobj \<times> bool) option"

text \<open>\<open>jury_decision.truncate\<close> is the decision of a judgment.\<close>

definition repaired_judgment ::
  "'g run_env \<Rightarrow> mapping \<Rightarrow> jury_decision \<Rightarrow> provider_response \<Rightarrow> jury_judgment result" where
  "repaired_judgment rn mp d r =
     rbind (parse_jury (extract_json_object (rn_codec rn)) (rs_content r) (map fst mp)) (\<lambda>j.
     require (jury_decision.truncate j = d) (ValueError ''repair changed immutable jury decision fields'') (Inr j))"

definition answered_repair ::
  "'g run_env \<Rightarrow> mapping \<Rightarrow> string \<Rightarrow> invalid_jury \<Rightarrow> jury_decision \<Rightarrow> provider_response \<Rightarrow> repair_outcome result" where
  "answered_repair rn mp juror ij d r =
     (case repaired_judgment rn mp d r of
        Inr j \<Rightarrow>
          rbind (valid_jury_record juror (ij_response ij) mp (ij_order ij) j) (\<lambda>rec.
            Inr \<lparr>ro_record = Some rec, ro_failures = [],
                 ro_recovery = Some (recovery_head juror ''recovered'' (ij_error ij)
                   @ [(''decision_preserved'', JBool True), (''repair_resolved_model'', JStr (rs_model r))], True)\<rparr>)
      | Inl e \<Rightarrow>
          (case caught_message e of
             None \<Rightarrow> Inl e
           | Some err \<Rightarrow>
               Inr \<lparr>ro_record = Some (invalid_jury_record juror r mp (ij_order ij) err),
                    ro_failures = [jury_artifact_failure juror r (''repair remained invalid: '' @ err)
                      @ [(''attempt_stage'', JStr ''jury_repair'')]],
                    ro_recovery = Some (recovery_head juror ''failed'' (ij_error ij)
                      @ [(''final_error'', JStr err), (''decision_preserved'', JBool False)], True)\<rparr>))"

definition failed_repair ::
  "'g run_env \<Rightarrow> string \<Rightarrow> invalid_jury \<Rightarrow> jobj option \<Rightarrow> bool \<Rightarrow> repair_outcome" where
  "failed_repair rn juror ij failure called =
     \<lparr>ro_record = None,
      ro_failures = [case failure of
          None \<Rightarrow> ij_failure ij
        | Some f \<Rightarrow>
            dict_set ''attempt_stage'' (JStr ''jury_repair'') (dict_set ''retryable'' (JBool False)
              (dict_set ''message'' (JStr (''Jury artifact repair failed after an invalid response: ''
                 @ (case get_or_null f ''message'' of JNull \<Rightarrow> ''None'' | v \<Rightarrow> py_str (rn_conv rn) v)))
              (dict_merge (ij_failure ij)
                 (filter (\<lambda>p. fst p \<notin> {''stage'', ''provider'', ''message''}) f))))],
      ro_recovery = Some (recovery_head juror (if called then ''failed'' else ''not_attempted'') (ij_error ij)
        @ [(''final_error'', case failure of None \<Rightarrow> JNull | Some f \<Rightarrow> get_or_null f ''message''),
           (''decision_preserved'', JBool False)], called)\<rparr>"

definition unrepaired :: "invalid_jury \<Rightarrow> (jobj \<times> bool) option \<Rightarrow> repair_outcome" where
  "unrepaired ij recovery = \<lparr>ro_record = None, ro_failures = [ij_failure ij], ro_recovery = recovery\<rparr>"

definition repair_outcome_of ::
  "'g run_env \<Rightarrow> mapping \<Rightarrow> string list \<Rightarrow> stage_acc \<Rightarrow> string list \<Rightarrow> string \<Rightarrow> invalid_jury \<Rightarrow>
   repair_outcome result" where
  "repair_outcome_of rn mp selected sg slots juror ij =
     (if rp_jury_repairs (pol_of rn) = 0 then Inr (unrepaired ij None)
      else (case ij_repair ij of
        None \<Rightarrow> Inr (unrepaired ij (Some (recovery_head juror ''not_attempted'' (ij_error ij)
            @ [(''reason'', JStr (''immutable jury decision could not be recovered: ''
                 @ (case ij_repair_error ij of None \<Rightarrow> ''None'' | Some m \<Rightarrow> m)))], True)))
      | Some (_, d) \<Rightarrow>
          if juror \<notin> set selected then
            Inr (unrepaired ij (Some (recovery_head juror ''not_attempted'' (ij_error ij)
              @ [(''reason'', JStr ''call budget reserved for synthesis'')], True)))
          else (case dict_get (sg_successes sg) juror of
            Some r \<Rightarrow> answered_repair rn mp juror ij d r
          | None \<Rightarrow> Inr (failed_repair rn juror ij
              (map_of (rev (map (\<lambda>f. (str_of (get_or_null f ''provider''), f)) (sg_failures sg))) juror)
              (juror \<in> set slots)))))"

definition persist_jury_repair_event ::
  "'g run_env \<Rightarrow> string \<Rightarrow> jobj \<Rightarrow> instant \<Rightarrow> ('g world, jobj) action" where
  "persist_jury_repair_event rn run payload now = with_store (\<lambda>db.
     (case filter (\<lambda>e. get_or_null (payload_of e) ''provider'' = get_or_null payload ''provider'')
             (events_of ''jury_artifact_repair'' (list_events db run)) of
        [] \<Rightarrow> sbind (run_event rn run ''jury_artifact_repair'' payload now) (\<lambda>_. sreturn payload)
      | [e] \<Rightarrow>
          if py_eq (JObj (payload_of e)) (JObj payload) then sreturn (payload_of e)
          else sraise (ValueError ''Jury repair audit event is inconsistent'')
      | _ \<Rightarrow> sraise (ValueError ''Run contains duplicate jury repair events'')))"

text \<open>What the judging has produced: the records by juror, failures, recoveries.\<close>

record jury_acc =
  ja_records :: "(string, jobj) dict"
  ja_failures :: "jobj list"
  ja_recoveries :: "jobj list"

definition add_new_recovery :: "jobj \<Rightarrow> jobj list \<Rightarrow> jobj list" where
  "add_new_recovery r rs = (if list_ex (\<lambda>x. py_eq (JObj x) (JObj r)) rs then rs else rs @ [r])"

definition settle_judgment ::
  "'g run_env \<Rightarrow> string \<Rightarrow> mapping \<Rightarrow> string list \<Rightarrow> stage_acc \<Rightarrow> string list \<Rightarrow> instant \<Rightarrow>
   string \<Rightarrow> first_reading \<Rightarrow> jury_acc \<Rightarrow> ('g world, jury_acc) action" where
  "settle_judgment rn run mp selected sg slots now juror x acc = (case x of
     ValidRecord rec \<Rightarrow> sreturn (acc\<lparr>ja_records := ja_records acc @ [(juror, rec)]\<rparr>)
   | InvalidRecord rec ij \<Rightarrow>
       sbind (sresult (repair_outcome_of rn mp selected sg slots juror ij)) (\<lambda>out.
       let acc1 = acc\<lparr>
             ja_records := ja_records acc @ [(juror, case ro_record out of None \<Rightarrow> rec | Some new \<Rightarrow> new)],
             ja_failures := ja_failures acc @ ro_failures out\<rparr> in
       case ro_recovery out of
         None \<Rightarrow> sreturn acc1
       | Some (rv, persist) \<Rightarrow>
           sbind (if persist then persist_jury_repair_event rn run rv now else sreturn rv) (\<lambda>rv'.
             sreturn (acc1\<lparr>ja_recoveries := add_new_recovery rv' (ja_recoveries acc1)\<rparr>))))"

fun settle_judgments ::
  "'g run_env \<Rightarrow> string \<Rightarrow> mapping \<Rightarrow> string list \<Rightarrow> stage_acc \<Rightarrow> string list \<Rightarrow> instant \<Rightarrow>
   (string, first_reading) dict \<Rightarrow> jury_acc \<Rightarrow> ('g world, jury_acc) action" where
  "settle_judgments rn run mp selected sg slots now [] acc = sreturn acc"
| "settle_judgments rn run mp selected sg slots now ((juror, x) # rest) acc =
     sbind (settle_judgment rn run mp selected sg slots now juror x acc)
       (settle_judgments rn run mp selected sg slots now rest)"

text \<open>A stage of the run: the inputs of its two passes. An unfinished schedule ends the run there.\<close>

type_synonym stage_inputs = "pass_inputs \<times> pass_inputs \<times> instant"

definition run_stage ::
  "'g run_env \<Rightarrow> stage_args \<Rightarrow> work \<Rightarrow> stage_inputs \<Rightarrow> ('g world, stage_acc option) action" where
  "run_stage rn args prompts inp =
     (case inp of (first, second, now) \<Rightarrow> run_parallel_stage (rn_engine rn) args prompts first second now)"

definition obind ::
  "('s, 'a option) action \<Rightarrow> ('a \<Rightarrow> ('s, 'b option) action) \<Rightarrow> ('s, 'b option) action" where
  "obind m f = sbind m (\<lambda>x. case x of None \<Rightarrow> sreturn None | Some y \<Rightarrow> f y)"

definition parse_and_repair_juries ::
  "'g run_env \<Rightarrow> string \<Rightarrow> mapping \<Rightarrow> string \<Rightarrow> (string, string list) dict \<Rightarrow>
   (string, provider_response) dict \<Rightarrow> stage_inputs \<Rightarrow> instant \<Rightarrow> ('g world, jury_acc option) action" where
  "parse_and_repair_juries rn run mp marker orders responses inp now =
     sbind (sresult (read_judgments rn mp marker orders responses (seats_of rn))) (\<lambda>readings.
     with_store (\<lambda>db.
       (let repairs = selected_repairs rn db run (eligible_repairs readings) in
        obind (if repairs = [] then sreturn (Some empty_acc)
               else run_stage rn (repair_args run) repairs inp) (\<lambda>sg.
        with_store (\<lambda>db'.
          sbind (settle_judgments rn run mp (map fst repairs) sg (repair_slots db' run) now readings
                   \<lparr>ja_records = [], ja_failures = [], ja_recoveries = []\<rparr>)
            (\<lambda>acc. sreturn (Some acc)))))))"

end
