(* ===== verification/Run_Result.thy ===== *)
theory Run_Result imports Run_Juries begin

text \<open>
  The result of a run: the audit of repeated calls, the summary of the synthesis attempts, and the
  document that the run ends with.
\<close>

section \<open>Repeated calls\<close>

record retry_entry =
  re_slot :: "string \<times> string"
  re_count :: int
  re_kind :: string
  re_prior :: jobj

definition retry_entry_of :: "'g run_env \<Rightarrow> event_row \<Rightarrow> retry_entry result" where
  "retry_entry_of rn e = (case ev_payload e of
     JObj m \<Rightarrow>
       require (keys_are m [''stage'', ''provider'', ''retry_call_count'', ''retry_kind'', ''prior_failure''])
         (ValueError ''Provider retry audit event is malformed'')
      (case (get_or_null m ''stage'', get_or_null m ''provider'', get_or_null m ''retry_call_count'') of
         (JStr stage, JStr provider, JInt n) \<Rightarrow>
           if provider \<notin> set (seats_of rn) \<or> n < 2
           then Inl (ValueError ''Provider retry audit event is inconsistent'')
           else
             rbind (member_of (get_or_null m ''retry_kind'') [''application'', ''truncation'']) (\<lambda>known.
             (case (known, get_or_null m ''prior_failure'') of
                (True, JObj f) \<Rightarrow>
                  Inr \<lparr>re_slot = (stage, provider), re_count = n,
                       re_kind = str_of (get_or_null m ''retry_kind''), re_prior = f\<rparr>
              | _ \<Rightarrow> Inl (ValueError ''Provider retry audit event is inconsistent'')))
       | _ \<Rightarrow> Inl (ValueError ''Provider retry audit event is inconsistent''))
   | _ \<Rightarrow> Inl (ValueError ''Provider retry audit event is malformed''))"

fun retry_entries :: "'g run_env \<Rightarrow> retry_entry list \<Rightarrow> event_row list \<Rightarrow> retry_entry list result" where
  "retry_entries rn seen [] = Inr (rev seen)"
| "retry_entries rn seen (e # es) =
     rbind (retry_entry_of rn e) (\<lambda>x.
     require (\<not> list_ex (\<lambda>y. re_slot y = re_slot x \<and> re_count y = re_count x) seen)
       (ValueError ''Provider retry audit event is duplicated'')
       (retry_entries rn (x # seen) es))"

text \<open>The slots whose second attempt after a truncation has its own recovery.\<close>

definition completed_truncations :: "'g run_env \<Rightarrow> event_row list \<Rightarrow> (string \<times> string) list" where
  "completed_truncations rn es =
     map (\<lambda>m. (py_str (rn_conv rn) (get_or_null m ''stage''), py_str (rn_conv rn) (get_or_null m ''provider'')))
       (filter (\<lambda>m. get_or_null m ''status'' \<noteq> JStr ''not_dispatched'')
          (map payload_of (events_of ''truncation_recovery'' es)))"

definition call_count_of :: "invocation \<Rightarrow> int" where
  "call_count_of r = (if iv_calls r = 0 then 1 else iv_calls r)"

definition slot_key :: "invocation \<Rightarrow> string \<times> string" where
  "slot_key r = (iv_stage r, iv_provider r)"

text \<open>The end of a repeated call: its status, and the failure it ended with.\<close>

definition retry_status :: "invocation \<Rightarrow> retry_entry option \<Rightarrow> string \<times> jobj option" where
  "retry_status r following = (case following of
     Some x \<Rightarrow> (''failed'', Some (re_prior x))
   | None \<Rightarrow>
       (case iv_status r of
          SUCCEEDED \<Rightarrow> (''recovered'', None)
        | FAILED \<Rightarrow> (if error_is_ambiguous r then ''ambiguous'' else ''failed'', obj_of (oc_error (iv_outcome r)))
        | RUNNING \<Rightarrow> (''in_progress'', None)))"

definition retry_recovery :: "invocation \<Rightarrow> retry_entry \<Rightarrow> retry_entry option \<Rightarrow> jobj" where
  "retry_recovery r x following = (case retry_status r following of (status, final) \<Rightarrow>
     [(''kind'', JStr (if re_kind x = ''truncation'' then ''truncation_retry'' else ''application_retry'')),
      (''stage'', JStr (fst (re_slot x))), (''provider'', JStr (snd (re_slot x))),
      (''retry_call_count'', JInt (re_count x)), (''status'', JStr status),
      (''prior_failure'', JObj (re_prior x))]
     @ (case final of None \<Rightarrow> [] | Some f \<Rightarrow> [(''final_failure'', JObj f)]))"

fun group_recoveries :: "bool \<Rightarrow> invocation \<Rightarrow> retry_entry list \<Rightarrow> jobj list" where
  "group_recoveries quiet r [] = []"
| "group_recoveries quiet r (x # xs) =
     (if re_kind x = ''truncation'' \<and> quiet then []
      else [retry_recovery r x (case xs of [] \<Rightarrow> None | y # _ \<Rightarrow> Some y)])
     @ group_recoveries quiet r xs"

definition slot_recoveries ::
  "(string \<times> string) list \<Rightarrow> invocation list \<Rightarrow> retry_entry list \<Rightarrow> string \<times> string \<Rightarrow> jobj list result" where
  "slot_recoveries quiet slots entries key =
     (let mine = sort_key re_count (filter (\<lambda>x. re_slot x = key) entries) in
      case row_where (\<lambda>r. slot_key r = key) slots of
        None \<Rightarrow> Inl (ValueError ''Provider retry audit has no invocation record'')
      | Some r \<Rightarrow>
          require (map re_count mine = map int [2..<nat (iv_calls r) + 1])
            (ValueError ''Provider retry audit is incomplete'')
            (Inr (group_recoveries (key \<in> set quiet) r mine)))"

definition provider_retry_recoveries ::
  "'g run_env \<Rightarrow> event_row list \<Rightarrow> invocation list \<Rightarrow> jobj list result" where
  "provider_retry_recoveries rn es slots =
     rbind (retry_entries rn [] (events_of ''provider_retry_started'' es)) (\<lambda>entries.
     let keys = rev (remdups (rev (map re_slot entries))) in
     require (\<not> list_ex (\<lambda>r. 1 < call_count_of r \<and> slot_key r \<notin> set keys) slots)
       (ValueError ''Provider retry audit is missing'')
    (rbind (rmap (slot_recoveries (completed_truncations rn es) slots entries) keys) (\<lambda>xs. Inr (concat xs))))"

section \<open>Synthesis attempts\<close>

definition synthesis_attempt ::
  "invocation list \<Rightarrow> jobj list \<Rightarrow> nat \<Rightarrow> string \<Rightarrow> jobj" where
  "synthesis_attempt slots failures pos name =
     [(''position'', JInt (int pos)), (''provider'', JStr name)] @
     (case slot_of_provider slots name of
        Some r \<Rightarrow>
          if iv_status r = SUCCEEDED then
            [(''status'', JStr ''succeeded''), (''invocation_id'', JStr (iv_id r)),
             (''resolved_model'', JStr (case nonempty (oc_model (iv_outcome r)) of None \<Rightarrow> iv_model r | Some m \<Rightarrow> m)),
             (''call_count'', JInt (call_count_of r))]
          else
            [(''status'', JStr (if error_is_ambiguous r then ''ambiguous'' else ''failed'')),
             (''invocation_id'', JStr (iv_id r)), (''category'', opt_str (oc_category (iv_outcome r))),
             (''ambiguous'', JBool (error_is_ambiguous r)), (''call_count'', JInt (call_count_of r))]
      | None \<Rightarrow>
          (case map_of (rev (map (\<lambda>f. (str_of (get_or_null f ''provider''), f)) failures)) name of
             Some f \<Rightarrow>
               [(''status'', JStr ''not_dispatched''), (''category'', get_or_null f ''category''),
                (''ambiguous'', JBool (truthy (get_default f ''ambiguous'' (JBool False))))]
           | None \<Rightarrow> [(''status'', JStr ''not_attempted'')]))"

definition synthesis_summary :: "'g run_env \<Rightarrow> council_db \<Rightarrow> string \<Rightarrow> jobj list \<Rightarrow> jobj" where
  "synthesis_summary rn db run failures =
     (let slots = synthesis_slots rn db run; chain = chain_of rn;
          failed = filter (\<lambda>f. get_or_null f ''stage'' = JStr ''synthesis''
            \<and> get_or_null f ''provider'' \<in> JStr ` set chain) failures;
          winners = filter (\<lambda>i. case slot_of_provider slots (chain ! i) of
            None \<Rightarrow> False | Some r \<Rightarrow> iv_status r = SUCCEEDED) [0..<length chain] in
      [(''configured_order'', JList (map JStr chain)),
       (''selected_provider'', case winners of [] \<Rightarrow> JNull | i # _ \<Rightarrow> JStr (chain ! i)),
       (''selected_position'', case winners of [] \<Rightarrow> JNull | i # _ \<Rightarrow> JInt (int i + 1)),
       (''attempts'', JList (map (\<lambda>i. JObj (synthesis_attempt slots failed (i + 1) (chain ! i))) [0..<length chain]))])"

section \<open>Documents\<close>

definition count_json :: "(string, int) dict \<Rightarrow> json" where
  "count_json d = JObj (map (\<lambda>p. (fst p, JInt (snd p))) d)"

definition names_json :: "string list \<Rightarrow> json" where
  "names_json xs = JList (map JStr xs)"

definition aggregate_object :: "aggregate \<Rightarrow> jobj" where
  "aggregate_object ag =
     [(''protocol_id'', JStr ''independent-jury''), (''protocol_version'', JStr ''1.3.0-beta''),
      (''winner'', opt_str (ag_winner ag)), (''outcome'', JStr (ag_outcome ag)),
      (''consensus'', JStr (ag_consensus ag)), (''ranking'', names_json (ag_ranking ag)),
      (''borda_points'', count_json (ag_points ag)), (''win_counts'', count_json (ag_wins ag)),
      (''tie'', JBool (ag_tie ag)), (''tied_candidates'', names_json (ag_tied ag)),
      (''valid_judgments'', JInt (ag_valid ag)), (''counted_judgments'', JInt (ag_counted ag)),
      (''abstentions'', JInt (ag_abstentions ag)), (''invalid_judgments'', JInt (ag_invalid ag)),
      (''invalid_judgment_reasons'', names_json (ag_reasons ag)),
      (''has_material_disagreement'', JBool (ag_has_disagreement ag)),
      (''material_disagreements'', names_json (ag_disagreements ag)),
      (''verification_needed'', names_json (ag_verification ag))]"

definition excluding_object :: "excluding \<Rightarrow> jobj" where
  "excluding_object x =
     [(''winner'', opt_str (xv_winner x)), (''outcome'', JStr (xv_outcome x)), (''tie'', JBool (xv_tie x)),
      (''tied_candidates'', names_json (xv_tied x)), (''ranking'', names_json (xv_ranking x)),
      (''borda_points'', count_json (xv_points x)), (''win_counts'', count_json (xv_wins x)),
      (''counted_judgments'', JInt (xv_counted x))]"

definition self_votes_object :: "self_votes \<Rightarrow> aggregate \<Rightarrow> jobj" where
  "self_votes_object s ag =
     [(''self_votes'', names_json (sr_self_votes s)), (''self_vote_count'', JInt (sr_count s)),
      (''jurors_ranking_own_candidate'', names_json (sr_ranked_own s)),
      (''with_self_votes'', JObj [(''winner'', opt_str (ag_winner ag)), (''outcome'', JStr (ag_outcome ag)),
         (''tie'', JBool (ag_tie ag)), (''tied_candidates'', names_json (ag_tied ag))]),
      (''excluding_self_votes'', JObj (excluding_object (sr_excluding s))),
      (''outcome_changes_without_self_votes'', JBool (sr_changes s))]"

definition check_object :: "synthesis_check \<Rightarrow> jobj" where
  "check_object c =
     [(''expected_outcome'', JStr (sc_expected_outcome c)), (''expected_winner'', opt_str (sc_expected_winner c))]
     @ (case sc_labels c of None \<Rightarrow> [] | Some ls \<Rightarrow> [(''outcome_labels'', names_json ls)])
     @ [(''consistent'', JBool (sc_consistent c)), (''reason'', JStr (sc_reason c))]"

text \<open>What a run knows when it ends.\<close>

record run_end =
  nd_status :: string
  nd_answer :: "string option"
  nd_proposals :: "(string, provider_response) dict"
  nd_artifacts :: "(string, jobj) dict"
  nd_records :: "jobj list"
  nd_aggregate :: "aggregate option"
  nd_failures :: "jobj list"
  nd_warnings :: "string list"
  nd_recoveries :: "jobj list"
  nd_mapping :: "mapping option"
  nd_check :: "synthesis_check option"

definition largest_prompts :: "invocation list \<Rightarrow> (string, int) dict" where
  "largest_prompts slots = foldl (\<lambda>d r.
     dict_set (iv_stage r) (max (int (length (iv_prompt r))) (size_of d (iv_stage r))) d) [] slots"

definition count_recovered :: "json list \<Rightarrow> jobj list \<Rightarrow> int" where
  "count_recovered kinds rs = int (length (filter (\<lambda>r. get_or_null r ''status'' = JStr ''recovered''
     \<and> get_or_null r ''kind'' \<in> set kinds) rs))"

definition clean_end :: "run_end \<Rightarrow> jobj list \<Rightarrow> bool" where
  "clean_end nd recoveries \<longleftrightarrow> nd_status nd = ''completed'' \<and> nd_failures nd = [] \<and> recoveries = []
     \<and> (case nd_check nd of None \<Rightarrow> True | Some c \<Rightarrow> sc_consistent c)"

definition proposal_entry :: "provider_config \<Rightarrow> jobj option \<Rightarrow> provider_response \<Rightarrow> json" where
  "proposal_entry c artifact r = JObj (dict_merge
     [(''provider'', JStr (cf_name c)), (''model'', JStr (rs_model r)), (''lineage'', JStr (cf_lineage c)),
      (''artifact'', case artifact of None \<Rightarrow> JNull | Some m \<Rightarrow> JObj m)] (response_to_dict r))"

definition build_result ::
  "'g run_env \<Rightarrow> council_db \<Rightarrow> string \<Rightarrow> string \<Rightarrow> workload_plan \<Rightarrow> run_end \<Rightarrow> jobj result" where
  "build_result rn db run question plan nd =
     (let slots = list_invocations db run; valid = valid_records (nd_records nd) in
      rbind (provider_retry_recoveries rn (list_events db run) slots) (\<lambda>retries.
      let recoveries = nd_recoveries nd @ retries; clean = clean_end nd recoveries in
      rbind (case nd_aggregate nd of
               None \<Rightarrow> Inr JNull
             | Some ag \<Rightarrow> rbind (self_vote_report (map JObj valid) (map fst (ag_points ag)) ag) (\<lambda>s.
                 Inr (JObj (self_votes_object s ag)))) (\<lambda>self_votes.
        Inr [(''run_id'', JStr run), (''status'', JStr (nd_status nd)),
          (''completion_quality'', JStr (if clean then ''clean'' else ''degraded'')),
          (''protocol'', JObj [(''id'', JStr ''independent-jury''), (''version'', JStr ''1.3.0-beta''),
             (''hash'', JStr (protocol_hash (en_shaj (env_of rn))))]),
          (''question_sha256'', JStr (en_sha (env_of rn) question)), (''answer'', opt_str (nd_answer nd)),
          (''synthesis'', JObj (synthesis_summary rn db run (nd_failures nd))),
          (''aggregate'', case nd_aggregate nd of
             None \<Rightarrow> JNull
           | Some ag \<Rightarrow> JObj (aggregate_object ag @ (case nd_mapping nd of
               None \<Rightarrow> [] | Some mp \<Rightarrow> [(''candidate_label_mapping'', mapping_json mp)]))),
          (''synthesis_check'', case nd_check nd of None \<Rightarrow> JNull | Some c \<Rightarrow> JObj (check_object c)),
          (''self_votes'', self_votes),
          (''candidate_namespace'', case nd_mapping nd of
             None \<Rightarrow> JNull | Some mp \<Rightarrow> JObj [(''candidate_label_mapping'', mapping_json mp)]),
          (''proposals'', JList (List.map_filter (\<lambda>(name, c).
             map_option (proposal_entry (c\<lparr>cf_name := name\<rparr>) (dict_get (nd_artifacts nd) name))
               (dict_get (nd_proposals nd) name)) (eg_providers (rn_engine rn)))),
          (''juries'', JList (map JObj (nd_records nd))), (''failures'', JList (map JObj (nd_failures nd))),
          (''recoveries'', JList (map JObj recoveries)),
          (''warnings'', names_json (nd_warnings nd @
             (if nd_status nd = ''completed'' \<and> \<not> clean
              then [''Council completed with degraded provider execution; inspect failures and recoveries.'']
              else []))),
          (''membership'', JObj
             [(''requested_providers'', JInt (int (length (seats_of rn)))),
              (''successful_proposals'', JInt (int (length (nd_proposals nd)))),
              (''valid_juries'', JInt (int (length valid))),
              (''provider_stage_failures'', JInt (int (length (nd_failures nd)))),
              (''recovered_truncations'', JInt (count_recovered
                 [JNull, JStr ''truncation_recovery'', JStr ''truncation_retry''] recoveries)),
              (''recovered_jury_repairs'', JInt (count_recovered [JStr ''jury_artifact_repair''] recoveries))]),
          (''workload'', JObj
             [(''preflight'', JObj (workload_json plan)),
              (''actual_stage_prompt_chars'', count_json (largest_prompts slots)),
              (''application_calls'', JInt (count_calls db run))]),
          (''limitations'', names_json
             [''Model output is analysis, not independent evidence.'',
              ''Metadata blinding cannot hide model writing style.'',
              ''Consensus can still be wrong; verify consequential claims.''])])))"

definition finish_engine_run ::
  "'g run_env \<Rightarrow> string \<Rightarrow> string \<Rightarrow> workload_plan \<Rightarrow> instant \<Rightarrow> run_end \<Rightarrow> ('g world, jobj) action" where
  "finish_engine_run rn run question plan now nd = with_store (\<lambda>db.
     sbind (sresult (build_result rn db run question plan nd)) (\<lambda>res.
     sbind (in_store (finish_run (en_shaj (env_of rn)) (en_url (env_of rn)) run (JObj res) now)) (\<lambda>_.
       sreturn res)))"

end
