(* ===== verification/Run_Engine.thy ===== *)
theory Run_Engine imports Run_Result begin

text \<open>
  A run: \<open>create_run\<close> and \<open>resume\<close> of \<open>engine.py\<close>.  A resumed run checks what the run has fixed, then
  goes through proposals, judgments, aggregation and synthesis, and asks for nothing that the store
  already answers.  The clocks (read for each entry of the store), the schedules of the stages and a fresh
  marker are its inputs; it
  answers \<open>None\<close> when the schedule of a stage ends before every call has come back.
\<close>

section \<open>Creation\<close>

definition policy_lock :: "'g run_env \<Rightarrow> jobj" where
  "policy_lock rn = policy_to_dict (pol_of rn)
     @ [(''synthesis_provider'', JStr (hd (chain_of rn))), (''synthesis_fallbacks'', names_json (tl (chain_of rn)))]"

definition plan_run :: "'g run_env \<Rightarrow> string \<Rightarrow> workload_plan result" where
  "plan_run rn question =
     rbind (estimate_workload (rn_codec rn) question (seats_of rn) (pol_of rn) (Some (chain_of rn)) (rn_fresh rn))
       (\<lambda>plan. rbind (require_workload_within_limits plan) (\<lambda>_. Inr plan))"

definition create_council_run ::
  "'g run_env \<Rightarrow> string \<Rightarrow> json option \<Rightarrow> json option \<Rightarrow> string \<Rightarrow> instant \<Rightarrow> ('g world, string) action" where
  "create_council_run rn question key run_id uuid now =
     (let clean = py_strip question; en = env_of rn in
      if clean = [] then sraise (ValueError ''Question cannot be empty'')
      else sbind (sresult (plan_run rn clean)) (\<lambda>_.
        in_store (create_run (en_sha en) (en_shaj en) (en_url en) (JStr clean) (JStr ''independent-jury'')
          (JStr ''1.3.0-beta'') (JStr (protocol_hash (en_shaj en)))
          (provider_list (map snd (eg_providers (rn_engine rn)))) (JObj (policy_lock rn)) key run_id uuid now)))"

section \<open>What a resumed run goes on from\<close>

record run_inputs =
  ri_marker :: string
  ri_now :: "nat \<Rightarrow> instant"
  ri_proposal :: stage_inputs
  ri_jury :: stage_inputs
  ri_repair :: stage_inputs
  ri_synthesis :: "nat \<Rightarrow> stage_inputs"
  ri_before :: bool
  ri_late :: "nat \<Rightarrow> bool"
  ri_over :: "nat \<Rightarrow> bool"

record run_locks =
  lk_position :: nat
  lk_advanced :: "jobj list"
  lk_namespace :: "namespace_lock option"
  lk_adjudication :: "adjudication_lock option"

definition checked_locks :: "'g run_env \<Rightarrow> council_db \<Rightarrow> run_row \<Rightarrow> run_locks result" where
  "checked_locks rn db row =
     (let events = list_events db (ru_id row) in
      require (ru_protocol row = ''independent-jury'') (ValueError (''Unsupported protocol: '' @ ru_protocol row))
     (require (ru_protocol_hash row = protocol_hash (en_shaj (env_of rn)))
        (ValueError ''Protocol hash differs from the immutable run lock'')
     (rbind (validate_provider_lock rn (ru_configs row)) (\<lambda>_.
      rbind (validate_policy_lock rn (ru_policy row)) (\<lambda>_.
      rbind (load_synthesis_fallback_state rn db (ru_id row) events) (\<lambda>(position, advanced).
      rbind (load_candidate_namespace_lock rn (ru_id row) events) (\<lambda>namespace.
      rbind (load_adjudication_lock rn namespace events) (\<lambda>adjudication.
        Inr \<lparr>lk_position = position, lk_advanced = advanced, lk_namespace = namespace,
             lk_adjudication = adjudication\<rparr>))))))))"

text \<open>The result of a run that is already complete.\<close>

definition stored_result :: "run_row \<Rightarrow> json option" where
  "stored_result row = (case ru_result row of
     None \<Rightarrow> None
   | Some v \<Rightarrow> if ru_status row = ''completed'' \<and> truthy v then Some v else None)"

definition recorded_marker :: "event_row list \<Rightarrow> string option" where
  "recorded_marker events = (case List.map_filter (\<lambda>e. case get_or_null (payload_of e) ''marker'' of
       JStr m \<Rightarrow> if m = [] then None else Some m | _ \<Rightarrow> None) (events_of ''untrusted_marker'' events) of
     [] \<Rightarrow> None | m # _ \<Rightarrow> Some m)"

definition load_or_create_untrusted_marker ::
  "'g run_env \<Rightarrow> string \<Rightarrow> event_row list \<Rightarrow> string \<Rightarrow> instant \<Rightarrow> ('g world, string) action" where
  "load_or_create_untrusted_marker rn run events fresh now = (case recorded_marker events of
     Some m \<Rightarrow> sreturn m
   | None \<Rightarrow> sbind (run_event rn run ''untrusted_marker'' [(''marker'', JStr fresh)] now) (\<lambda>_. sreturn fresh))"

definition earlier_recoveries :: "event_row list \<Rightarrow> jobj list" where
  "earlier_recoveries events =
     map payload_of (filter (\<lambda>e. ev_type e \<in> {''truncation_recovery'', ''jury_artifact_repair''}) events)"

text \<open>What a run has to report so far.\<close>

record run_log =
  lg_failures :: "jobj list"
  lg_warnings :: "string list"
  lg_recoveries :: "jobj list"

definition log_stage :: "stage_acc \<Rightarrow> run_log \<Rightarrow> run_log" where
  "log_stage sg lg = lg\<lparr>lg_failures := lg_failures lg @ sg_failures sg,
     lg_recoveries := lg_recoveries lg @ sg_recoveries sg\<rparr>"

definition log_failures :: "jobj list \<Rightarrow> run_log \<Rightarrow> run_log" where
  "log_failures fs lg = lg\<lparr>lg_failures := lg_failures lg @ fs\<rparr>"

definition log_warnings :: "string list \<Rightarrow> run_log \<Rightarrow> run_log" where
  "log_warnings ws lg = lg\<lparr>lg_warnings := lg_warnings lg @ ws\<rparr>"

text \<open>The run as far as it is the same for every stage.\<close>

record run_frame =
  rf_run :: string
  rf_question :: string
  rf_plan :: workload_plan
  rf_marker :: string
  rf_locks :: run_locks

definition run_ended ::
  "string \<Rightarrow> string option \<Rightarrow> (string, provider_response) dict \<Rightarrow> (string, jobj) dict \<Rightarrow> jobj list \<Rightarrow>
   aggregate option \<Rightarrow> run_log \<Rightarrow> mapping option \<Rightarrow> synthesis_check option \<Rightarrow> run_end" where
  "run_ended status answer proposals artifacts records ag lg mp check =
     \<lparr>nd_status = status, nd_answer = answer, nd_proposals = proposals, nd_artifacts = artifacts,
      nd_records = records, nd_aggregate = ag, nd_failures = lg_failures lg, nd_warnings = lg_warnings lg,
      nd_recoveries = lg_recoveries lg, nd_mapping = mp, nd_check = check\<rparr>"

definition end_run ::
  "'g run_env \<Rightarrow> run_frame \<Rightarrow> instant \<Rightarrow> run_end \<Rightarrow> ('g world, json option) action" where
  "end_run rn fr now nd =
     sbind (finish_engine_run rn (rf_run fr) (rf_question fr) (rf_plan fr) now nd) (\<lambda>m. sreturn (Some (JObj m)))"

section \<open>Synthesis\<close>

text \<open>One provider of the chain after the other, from the recorded position on; every step to the next
  one is an event.  The answer, with the provider that gave it.\<close>

definition synthesis_args :: "'g run_env \<Rightarrow> run_frame \<Rightarrow> nat \<Rightarrow> stage_args" where
  "synthesis_args rn fr pos = stage_of_run (rf_run fr) ''synthesis''
     (pos = lk_position (rf_locks fr) \<and> pos = length (chain_of rn))"

definition last_failure_of :: "string \<Rightarrow> jobj list \<Rightarrow> jobj option" where
  "last_failure_of name fs = row_where (\<lambda>f. get_or_null f ''provider'' = JStr name) (rev fs)"

fun synthesize ::
  "'g run_env \<Rightarrow> run_inputs \<Rightarrow> run_frame \<Rightarrow> prompts \<Rightarrow> nat \<Rightarrow> string list \<Rightarrow> run_log \<Rightarrow>
   ('g world, ((string \<times> string) option \<times> run_log) option) action" where
  "synthesize rn inp fr ps pos [] lg = sreturn (Some (None, lg))"
| "synthesize rn inp fr ps pos (name # rest) lg =
     (if ri_late inp pos then sreturn (Some (None, lg))
      else obind (run_stage rn (synthesis_args rn fr pos) [(name, ps)] (ri_synthesis inp pos)) (\<lambda>sg.
        (let lg' = log_stage sg lg in
         case dict_get (sg_successes sg) name of
           Some r \<Rightarrow> sreturn (Some (Some (name, rs_content r), lg'))
         | None \<Rightarrow>
             if pos < length (chain_of rn) \<and> \<not> ri_over inp pos then
               (case last_failure_of name (sg_failures sg) of
                  None \<Rightarrow> sraise (RuntimeError ''Synthesis fallback has no failure record'')
                | Some f \<Rightarrow>
                    sbind (persist_synthesis_fallback_event rn (rf_run fr) pos f (ri_now inp (8 + pos))) (\<lambda>_.
                      synthesize rn inp fr ps (pos + 1) rest lg'))
             else synthesize rn inp fr ps (pos + 1) rest lg')))"

text \<open>The artifact of the candidate with a label.\<close>

definition candidate_at :: "mapping \<Rightarrow> (string, jobj) dict \<Rightarrow> string \<Rightarrow> (string \<times> json) result" where
  "candidate_at mp artifacts label =
     rbind (provider_at mp label) (\<lambda>name. case dict_get artifacts name of
       None \<Rightarrow> Inl (KeyError name) | Some m \<Rightarrow> Inr (label, JObj m))"

definition prepare_synthesis ::
  "'g run_env \<Rightarrow> run_frame \<Rightarrow> mapping \<Rightarrow> (string, jobj) dict \<Rightarrow> aggregate \<Rightarrow> jobj list \<Rightarrow> prompts result" where
  "prepare_synthesis rn fr mp artifacts ag valid =
     rbind (rmap (candidate_at mp artifacts) (map fst mp)) (\<lambda>candidates.
     rbind (rmap (\<lambda>j. anonymize_jury j mp) valid) (\<lambda>juries.
       synthesis_prompts (jc_float (rn_codec rn)) (rf_question fr) candidates
         (aggregate_object (anonymize_aggregate ag mp)) (JList (map JObj juries)) (Some (rf_marker fr)) []))"

definition synthesis_warnings ::
  "'g run_env \<Rightarrow> (string \<times> string) option \<Rightarrow> synthesis_check option \<Rightarrow> string list" where
  "synthesis_warnings rn answer check =
     (case check of
        Some c \<Rightarrow> if sc_consistent c then [] else
          [''Synthesis Outcome does not match the deterministic aggregate ('' @ sc_reason c
           @ ''); the aggregate remains authoritative and the run is degraded.'']
      | None \<Rightarrow> [])
     @ (case answer of
          None \<Rightarrow> [''Synthesis did not complete; raw council record preserved'']
        | Some (name, _) \<Rightarrow>
            if name = hd (chain_of rn) then [] else
              [''Synthesis completed with fallback provider '' @ name @ '' after ''
               @ decimal_text (position_of name (chain_of rn)) @ '' unsuccessful synthesis attempt(s).''])"

definition synthesis_phase ::
  "'g run_env \<Rightarrow> run_inputs \<Rightarrow> run_frame \<Rightarrow> mapping \<Rightarrow> (string, provider_response) dict \<Rightarrow> (string, jobj) dict \<Rightarrow>
   jobj list \<Rightarrow> aggregate \<Rightarrow> run_log \<Rightarrow> ('g world, json option) action" where
  "synthesis_phase rn inp fr mp proposals artifacts records ag lg =
     (let locks = rf_locks fr; valid = valid_records records; lg1 = log_failures (lk_advanced locks) lg in
      obind (if ri_before inp then sreturn (Some (None, lg1))
             else sbind (sresult (prepare_synthesis rn fr mp artifacts ag valid)) (\<lambda>ps.
               synthesize rn inp fr ps (lk_position locks) (drop (lk_position locks - 1) (chain_of rn)) lg1))
        (\<lambda>(answer, lg2).
         let check = map_option (\<lambda>a. check_synthesis_outcome (snd a) (anonymize_aggregate ag mp)) answer;
             lg3 = log_warnings (synthesis_warnings rn answer check) lg2 in
         end_run rn fr (ri_now inp 7)
           (run_ended (if answer = None then ''partial'' else ''completed'') (map_option snd answer) proposals
              artifacts records (Some ag) lg3 (Some mp) check)))"

section \<open>Judging\<close>

definition jury_work ::
  "'g run_env \<Rightarrow> run_frame \<Rightarrow> mapping \<Rightarrow> (string, jobj) dict \<Rightarrow>
   ((string, string list) dict \<times> work) result" where
  "jury_work rn fr mp artifacts =
     (let orders = map (\<lambda>juror. (juror, jury_presentation_order rn (rf_run fr) juror (map fst mp))) (seats_of rn) in
      rbind (rmap (\<lambda>(juror, order).
          rbind (rmap (candidate_at mp artifacts) order) (\<lambda>candidates.
          rbind (jury_prompts (jc_float (rn_codec rn)) (rf_question fr) candidates (Some (rf_marker fr)) []) (\<lambda>ps.
            Inr (juror, ps)))) orders) (\<lambda>prompts. Inr (orders, prompts)))"

definition quorum_text :: "string \<Rightarrow> nat \<Rightarrow> int \<Rightarrow> string" where
  "quorum_text name got wanted = name @ '' not met: '' @ decimal_text got @ ''/'' @ int_text wanted"

text \<open>The judgments: the records, the failures of the stage, and the log; or the run has ended.\<close>

definition judge_candidates ::
  "'g run_env \<Rightarrow> run_inputs \<Rightarrow> run_frame \<Rightarrow> mapping \<Rightarrow> (string, jobj) dict \<Rightarrow> run_log \<Rightarrow>
   ('g world, (jobj list \<times> jobj list \<times> run_log) option) action" where
  "judge_candidates rn inp fr mp artifacts lg =
     sbind (sresult (jury_work rn fr mp artifacts)) (\<lambda>(orders, work).
     obind (run_stage rn (stage_of_run (rf_run fr) ''jury'' True) work (ri_jury inp)) (\<lambda>sg.
     obind (parse_and_repair_juries rn (rf_run fr) mp (rf_marker fr) orders (sg_successes sg) (ri_repair inp)
              (ri_now inp 5)) (\<lambda>ja.
       let lg1 = log_failures (ja_failures ja) (log_stage sg lg);
           lg2 = lg1\<lparr>lg_recoveries := fold add_new_recovery (ja_recoveries ja) (lg_recoveries lg1)\<rparr> in
       sreturn (Some (map snd (ja_records ja), sg_failures sg @ ja_failures ja, lg2)))))"

definition adjudicate ::
  "'g run_env \<Rightarrow> run_inputs \<Rightarrow> run_frame \<Rightarrow> mapping \<Rightarrow> (string, provider_response) dict \<Rightarrow> (string, jobj) dict \<Rightarrow>
   jobj list \<Rightarrow> jobj list \<Rightarrow> run_log \<Rightarrow> ('g world, json option) action" where
  "adjudicate rn inp fr mp proposals artifacts records stage_failures lg =
     sbind (sresult (aggregate_records rn (valid_records records) (map fst proposals))) (\<lambda>ag.
     sbind (case lk_adjudication (rf_locks fr) of
              Some _ \<Rightarrow> sreturn ()
            | None \<Rightarrow> sbind (lock_adjudication rn (rf_run fr) mp records stage_failures (ri_now inp 6)) (\<lambda>_. sreturn ()))
       (\<lambda>_. synthesis_phase rn inp fr mp proposals artifacts records ag lg))"

definition jury_phase ::
  "'g run_env \<Rightarrow> run_inputs \<Rightarrow> run_frame \<Rightarrow> mapping \<Rightarrow> (string, provider_response) dict \<Rightarrow> (string, jobj) dict \<Rightarrow>
   run_log \<Rightarrow> ('g world, json option) action" where
  "jury_phase rn inp fr mp proposals artifacts lg = (case lk_adjudication (rf_locks fr) of
     Some al \<Rightarrow>
       adjudicate rn inp fr mp proposals artifacts (al_records al) (al_failures al) (log_failures (al_failures al) lg)
   | None \<Rightarrow>
       obind (judge_candidates rn inp fr mp artifacts lg) (\<lambda>(records, stage_failures, lg').
         let valid = length (valid_records records) in
         if int valid < rp_jury_quorum (pol_of rn) then
           end_run rn fr (ri_now inp 7) (run_ended ''partial'' None proposals artifacts records None
             (log_warnings [quorum_text ''Jury quorum'' valid (rp_jury_quorum (pol_of rn))] lg') (Some mp) None)
         else adjudicate rn inp fr mp proposals artifacts records stage_failures lg'))"

section \<open>Proposals\<close>

definition proposal_failure :: "string \<Rightarrow> provider_response \<Rightarrow> string \<Rightarrow> jobj" where
  "proposal_failure name r err = failure_payload ''proposal'' name (plain_error
     (''Proposal artifact was invalid: '' @ err) INVALID_RESPONSE False (rs_request r) (rs_attempts r) False)"

fun parse_proposals ::
  "'g run_env \<Rightarrow> (string, provider_response) dict \<Rightarrow> ((string, jobj) dict \<times> jobj list) result" where
  "parse_proposals rn [] = Inr ([], [])"
| "parse_proposals rn ((name, r) # rest) =
     (case parse_proposal (extract_json_object (rn_codec rn)) (rs_content r) of
        Inr p \<Rightarrow> rbind (parse_proposals rn rest) (\<lambda>(arts, fs). Inr ((name, proposal_object p) # arts, fs))
      | Inl e \<Rightarrow> (case caught_message e of
           None \<Rightarrow> Inl e
         | Some err \<Rightarrow>
             rbind (parse_proposals rn rest) (\<lambda>(arts, fs). Inr (arts, proposal_failure name r err # fs))))"

definition proposal_warnings :: "'g run_env \<Rightarrow> nat \<Rightarrow> nat \<Rightarrow> string list" where
  "proposal_warnings rn got lineages =
     (if int got < rp_proposal_quorum (pol_of rn)
      then [quorum_text ''Proposal quorum'' got (rp_proposal_quorum (pol_of rn))] else [])
     @ (if int lineages < rp_min_lineages (pol_of rn)
        then [quorum_text ''Lineage diversity'' lineages (rp_min_lineages (pol_of rn))] else [])"

text \<open>The candidates are fixed once, from the proposals that a run has when it first has enough.\<close>

definition fix_candidates ::
  "'g run_env \<Rightarrow> run_inputs \<Rightarrow> run_frame \<Rightarrow> string list \<Rightarrow> run_log \<Rightarrow> ('g world, mapping) action" where
  "fix_candidates rn inp fr names lg = (case lk_namespace (rf_locks fr) of
     Some nl \<Rightarrow> sreturn (nl_mapping nl)
   | None \<Rightarrow>
       sbind (lock_candidate_namespace rn (rf_run fr) (candidate_mapping rn (rf_run fr) names) (lg_failures lg)
                (ri_now inp 4)) (\<lambda>nl. sreturn (nl_mapping nl)))"

definition after_proposals ::
  "'g run_env \<Rightarrow> run_inputs \<Rightarrow> run_frame \<Rightarrow> (string, provider_response) dict \<Rightarrow> run_log \<Rightarrow>
   ('g world, json option) action" where
  "after_proposals rn inp fr answers lg =
     sbind (sresult (parse_proposals rn answers)) (\<lambda>(artifacts, invalid).
     let lg1 = log_failures invalid lg;
         proposals = filter (\<lambda>p. fst p \<in> fst ` set artifacts) answers;
         names = map fst proposals in
     if (case lk_namespace (rf_locks fr) of
           None \<Rightarrow> False | Some nl \<Rightarrow> set names \<noteq> set (map snd (nl_mapping nl)))
     then sraise (ValueError
       ''Frozen candidate membership could not be recovered from successful proposal records'')
     else
       sbind (sresult (rmap (provider_of (rn_engine rn)) names)) (\<lambda>cs.
       let warnings = proposal_warnings rn (length names) (card (cf_lineage ` set cs)) in
       if warnings \<noteq> [] then
         end_run rn fr (ri_now inp 7) (run_ended
           (if proposals \<noteq> [] \<and> rp_allow_partial (pol_of rn) then ''partial'' else ''failed'') None proposals
           artifacts [] None (log_warnings warnings lg1) None None)
       else
         sbind (fix_candidates rn inp fr names lg1) (\<lambda>mp.
           jury_phase rn inp fr mp proposals artifacts lg1)))"

definition proposal_seats :: "'g run_env \<Rightarrow> run_locks \<Rightarrow> string list" where
  "proposal_seats rn lk = (case lk_namespace lk of
     None \<Rightarrow> seats_of rn | Some nl \<Rightarrow> map snd (nl_mapping nl))"

definition proposal_phase ::
  "'g run_env \<Rightarrow> run_inputs \<Rightarrow> run_frame \<Rightarrow> jobj list \<Rightarrow> ('g world, json option) action" where
  "proposal_phase rn inp fr earlier =
     (let lk = rf_locks fr;
          lg = \<lparr>lg_failures = (case lk_namespace lk of None \<Rightarrow> [] | Some nl \<Rightarrow> nl_failures nl),
                lg_warnings = [], lg_recoveries = earlier\<rparr> in
      sbind (sresult (proposal_prompts (jc_float (rn_codec rn)) (rf_question fr) (Some (rf_marker fr)) []))
        (\<lambda>ps.
      obind (run_stage rn (stage_of_run (rf_run fr) ''proposal'' True)
               (map (\<lambda>name. (name, ps)) (proposal_seats rn lk)) (ri_proposal inp)) (\<lambda>sg.
        after_proposals rn inp fr (sg_successes sg) (log_stage sg lg))))"

section \<open>The run\<close>

definition continue_run ::
  "'g run_env \<Rightarrow> run_inputs \<Rightarrow> run_row \<Rightarrow> event_row list \<Rightarrow> run_locks \<Rightarrow> ('g world, json option) action" where
  "continue_run rn inp row events lk =
     (let run = ru_id row; en = env_of rn; now = ri_now inp in
      sbind (load_or_create_untrusted_marker rn run events (ri_marker inp) (now 0)) (\<lambda>marker.
      sbind (in_store (set_run_status (en_url en) run (JStr ''running'') NoError (now 1))) (\<lambda>_.
      sbind (run_event rn run ''run_started'' [(''protocol'', JStr ''independent-jury@1.3.0-beta'')] (now 2)) (\<lambda>_.
      sbind (sresult (plan_run rn (ru_question row))) (\<lambda>plan.
      sbind (run_event rn run ''workload_preflight'' (workload_json plan) (now 3)) (\<lambda>_.
        proposal_phase rn inp
          \<lparr>rf_run = run, rf_question = ru_question row, rf_plan = plan, rf_marker = marker, rf_locks = lk\<rparr>
          (earlier_recoveries events)))))))"

definition resume_run :: "'g run_env \<Rightarrow> run_inputs \<Rightarrow> string \<Rightarrow> ('g world, json option) action" where
  "resume_run rn inp run = with_store (\<lambda>db. case get_run db run of
     None \<Rightarrow> sraise (KeyError (''Unknown run: '' @ run))
   | Some row \<Rightarrow>
       sbind (sresult (checked_locks rn db row)) (\<lambda>lk.
         case stored_result row of
           Some v \<Rightarrow> sreturn (Some v)
         | None \<Rightarrow> continue_run rn inp row (list_events db run) lk))"

end
