(* ===== verification/Run_Laws.thy ===== *)
theory Run_Laws imports Run_Engine Engine_Rounds Council_Ledgers begin

text \<open>
  Laws of a run: no event of the audit trail ever vanishes except the mark of a retry that was not
  dispatched, and what every part of \<open>resume\<close> respects.
\<close>

section \<open>Events are kept\<close>

definition events_kept :: "council_db \<Rightarrow> council_db \<Rightarrow> bool" where
  "events_kept db db' \<longleftrightarrow>
     (\<forall>e\<in>set (cd_events db). ev_type e \<noteq> ''provider_retry_started'' \<longrightarrow> e \<in> set (cd_events db'))"

lemma events_kept_same: "cd_events db' = cd_events db \<Longrightarrow> events_kept db db'"
  by (simp add: events_kept_def)

lemma events_kept_add: "cd_events d = cd_events db \<Longrightarrow> events_kept db (add_event shaj run t v now d)"
  by (simp add: events_kept_def add_event_def)

lemma retry_audit_event:
  assumes "retry_audit url db row p = Inr (eid, kind, failure)"
  obtains e where "e \<in> set (cd_events db)" and "ev_id e = eid" and "ev_type e = ''provider_retry_started''"
proof -
  from assms obtain e where e: "sort_key ev_id (rows_where (retry_matches row) (cd_events db)) = [e]"
      and "ev_id e = eid"
    by (auto simp: retry_audit_def result_simps split: option.splits json.splits list.splits)
  then have "e \<in> set (rows_where (retry_matches row) (cd_events db))"
    by (metis list.set_intros(1) set_sort)
  then show ?thesis using that \<open>ev_id e = eid\<close> by (auto simp: set_rows_where retry_matches_def)
qed

lemma release_body_events:
  assumes good: "council_good db"
    and b: "release_body shaj url i e attempt prior now db = Inr (u, db')"
  shows "events_kept db db'"
proof -
  obtain row where row: "find_slot db i = Some row"
    using b by (auto simp: release_body_def split: option.splits)
  show ?thesis
  proof (cases prior)
    case None
    then show ?thesis using b row
      by (auto simp: release_body_def result_simps Let_def add_event_def events_kept_def)
  next
    case (Some p)
    then obtain eid kind fl where a: "retry_audit url db row p = Inr (eid, kind, fl)"
      using b row by (auto simp: release_body_def result_simps)
    obtain v where ev: "cd_events db' = delete_where (\<lambda>x. ev_id x = eid)
        (cd_events (add_event shaj (iv_run row) ''provider_call_not_dispatched'' v now db))"
      using b row Some a by (auto simp: release_body_def result_simps Let_def)
    obtain old where old: "old \<in> set (cd_events db)" "ev_id old = eid" "ev_type old = ''provider_retry_started''"
      by (rule retry_audit_event [OF a])
    have "ev_id x \<noteq> eid" if "x \<in> set (cd_events db)" "ev_type x \<noteq> ''provider_retry_started''" for x
      using good that old unique_onD [of ev_id "cd_events db" x old]
      by (auto simp: council_good_def events_ok_def)
    then show ?thesis unfolding events_kept_def ev by (auto simp: delete_where_def add_event_def)
  qed
qed

lemma start_body_events:
  "council_good db \<Longrightarrow> start_invocation_body shaj run s p m l t psha uuid now db = Inr (i, db') \<Longrightarrow>
   events_kept db db'"
  using start_body_cases [of db shaj run s p m l t psha uuid now i db']
  by (auto simp: add_event_def events_kept_def)

lemma council_step_events:
  assumes good: "council_good db"
  shows "events_kept db (council_step en db x)"
proof (cases x)
  case (CreateRun q p v h c pol k r uuid now)
  then show ?thesis
    using create_run_cases [of "en_sha en" "en_shaj en" "en_url en" q p v h c pol k r uuid now db]
    by (auto intro: events_kept_same)
next
  case (SetStatus rid s err now)
  then show ?thesis using set_run_status_cases [of "en_url en" rid s err now db]
    by (auto intro: events_kept_same dest: run_update_sel)
next
  case (SaveResult rid v now)
  then show ?thesis using save_result_cases [of "en_shaj en" "en_url en" rid v now db]
    by (auto intro: events_kept_same dest: run_update_sel)
next
  case (FinishRun rid v now)
  then show ?thesis using finish_run_cases [of "en_shaj en" "en_url en" rid v now db]
    by (elim disjE exE conjE) (simp_all add: events_kept_same events_kept_add run_update_sel)
next
  case (AppendEvent rid t v now)
  then show ?thesis using append_event_cases [of "en_shaj en" "en_url en" rid t v now db]
    by (auto intro: events_kept_same events_kept_add)
next
  case (StartSlot run s p m l t uuid now)
  then show ?thesis
    using start_cases [OF good, of "en_sha en" "en_shaj en" run s p m l t uuid now] start_body_events [OF good]
    by (auto intro: events_kept_same)
next
  case (SlotSuccess i r now)
  then show ?thesis using success_cases [OF good, of "en_sha en" "en_url en" i r now]
    by (auto intro: events_kept_same)
next
  case (SlotFailure i e now)
  then show ?thesis using failure_cases [OF good, of "en_url en" i e now] by (auto intro: events_kept_same)
next
  case (ReleaseSlot i e a p now)
  then show ?thesis
    using release_cases [of "en_shaj en" "en_url en" i e a p now db] release_body_events [OF good]
    by (auto intro: events_kept_same)
next
  case (Decide run d memo now)
  then show ?thesis using decide_cases [of "en_shaj en" run d memo now db]
    by (auto intro: events_kept_same dest!: decide_body_effect)
qed (auto intro!: events_kept_same simp: record_run_approval_def consume_run_approval_def
    attach_run_approval_def bind_agent_request_def write_txn_snd split: option.split)

interpretation events: monotone_machine "council_step en" council_good events_kept for en
proof
  show "council_good db \<Longrightarrow> events_kept db (council_step en db x)" for db x
    by (rule council_step_events)
qed (auto simp: events_kept_def)

section \<open>The names a run works with\<close>

lemma rmap_keys:
  assumes "rmap f xs = Inr ys" and "\<And>x y. f x = Inr y \<Longrightarrow> fst y = g x"
  shows "map fst ys = map g xs"
  using assms(1) by (induction xs arbitrary: ys) (auto simp: rbind_eq_Inr dest: assms(2))

lemma jury_work_names: "jury_work rn fr mp arts = Inr (orders, work) \<Longrightarrow> map fst work = seats_of rn"
  by (auto simp: jury_work_def Let_def rbind_eq_Inr comp_def dest!: rmap_keys [where g = fst])

lemma readings_names:
  "read_judgments rn mp marker orders responses names = Inr xs \<Longrightarrow> distinct names \<Longrightarrow>
   distinct (map fst xs) \<and> fst ` set xs \<subseteq> set names"
proof (induction names arbitrary: xs)
  case (Cons juror names)
  show ?case
  proof (cases "dict_get responses juror")
    case None
    then show ?thesis using Cons.IH [of xs] Cons.prems by auto
  next
    case (Some r)
    with Cons.prems(1) obtain x ys where
        "read_judgments rn mp marker orders responses names = Inr ys" "xs = (juror, x) # ys"
      by (auto simp: rbind_eq_Inr)
    then show ?thesis using Cons.IH [of ys] Cons.prems(2) by auto
  qed
qed simp

lemma selected_names:
  assumes "distinct (map fst readings)"
  shows "wf_dict (selected_repairs rn db run (eligible_repairs readings))"
proof -
  have "distinct (map fst (eligible_repairs readings)) \<and> fst ` set (eligible_repairs readings) \<subseteq> fst ` set readings"
    using assms
    by (induction readings) (auto simp: eligible_repairs_def List.map_filter_simps split: option.split first_reading.splits)
  then show ?thesis by (simp add: selected_repairs_def Let_def wf_dict_def distinct_map_filter)
qed

lemma namespace_mapping_facts:
  assumes "namespace_mapping rn run v = Inr mp"
  shows "length (remdups (map snd mp)) = length mp \<and> set (remdups (map snd mp)) \<subseteq> set (seats_of rn)
    \<and> mp = candidate_mapping rn run (remdups (map snd mp))
    \<and> rp_proposal_quorum (pol_of rn) \<le> int (length (remdups (map snd mp)))"
proof -
  obtain raw where "v = JObj raw"
    using assms by (auto simp: namespace_mapping_def Let_def split: json.splits)
  with assms show ?thesis
    unfolding namespace_mapping_def Let_def
    by (simp only: json.case require_eq_Inr rbind_eq_Inr sum.inject) (elim exE conjE, hypsubst, intro conjI)
qed

lemma locked_mapping:
  assumes "load_candidate_namespace_lock rn run events = Inr (Some nl)"
  obtains v where "namespace_mapping rn run v = Inr (nl_mapping nl)"
  using assms
  by (auto simp: load_candidate_namespace_lock_def result_simps split: list.splits json.splits)

lemma locked_names:
  assumes "load_candidate_namespace_lock rn run events = Inr (Some nl)"
  shows "distinct (map snd (nl_mapping nl)) \<and> set (map snd (nl_mapping nl)) \<subseteq> set (seats_of rn)"
proof -
  obtain v where "namespace_mapping rn run v = Inr (nl_mapping nl)" by (rule locked_mapping [OF assms])
  from namespace_mapping_facts [OF this]
  have "length (remdups (map snd (nl_mapping nl))) = length (map snd (nl_mapping nl))"
    and "set (map snd (nl_mapping nl)) \<subseteq> set (seats_of rn)" by (simp_all only: length_map set_remdups)
  then show ?thesis by (simp only: length_remdups_eq remdups_id_iff_distinct simp_thms)
qed

section \<open>What the parts of a run respect\<close>

text \<open>A reflexive and transitive relation on worlds that the events of a run, of the given types, and its
  stages, of the given names, respect: then the whole resumption respects it.\<close>

definition plain_events :: "string set" where
  "plain_events = {''untrusted_marker'', ''run_started'', ''workload_preflight'', ''synthesis_fallback_advanced''}"

locale run_actions =
  fixes rn :: "'g run_env" and run :: string
    and R :: "'g world \<Rightarrow> 'g world \<Rightarrow> bool" and types :: "string set" and stages :: "string set"
  assumes R_refl: "reflp R" and R_trans: "transp R"
    and keeps_event: "ty \<in> types \<Longrightarrow> keeps R (run_event rn run ty payload now)"
    and keeps_status: "keeps R (in_store (set_run_status (en_url (env_of rn)) run (JStr ''running'') NoError now))"
    and keeps_end: "keeps R (in_store (finish_run (en_shaj (env_of rn)) (en_url (env_of rn)) run (JObj res) now))"
    and keeps_stage: "sa_run args = run \<Longrightarrow> sa_stage args \<in> stages \<Longrightarrow> wf_dict prompts \<Longrightarrow>
      keeps R (run_stage rn args prompts inp)"
    and usual: "plain_events \<subseteq> types" "{''proposal'', ''synthesis''} \<subseteq> stages"
begin

lemmas pure = keeps_pure [OF R_refl]

lemma bind_known:
  assumes "keeps R m" and "\<And>x s s'. m s = (Inr x, s') \<Longrightarrow> keeps R (f x)"
  shows "keeps R (sbind m f)"
proof -
  have "R s (snd (sbind m f s))" for s
  proof (cases "m s")
    case (Pair r s')
    then have "R s s'" using assms(1) by (metis keeps_def snd_conv)
    then show ?thesis
      using Pair assms(2) [of s _ s'] transpD [OF R_trans, of s s']
      by (cases r) (auto simp: sbind_def keeps_def)
  qed
  then show ?thesis by (simp add: keeps_def)
qed

lemma bind: "keeps R m \<Longrightarrow> (\<And>x. keeps R (f x)) \<Longrightarrow> keeps R (sbind m f)"
  by (rule keeps_sbind [OF R_trans])

lemma bind_result: "(\<And>x. r = Inr x \<Longrightarrow> keeps R (f x)) \<Longrightarrow> keeps R (sbind (sresult r) f)"
  by (rule bind_known) (auto intro: pure)

lemma obind: "keeps R m \<Longrightarrow> (\<And>x. keeps R (f x)) \<Longrightarrow> keeps R (obind m f)"
  unfolding obind_def by (rule bind) (auto intro: pure split: option.split)

lemma look: "(\<And>db. keeps R (f db)) \<Longrightarrow> keeps R (with_store f)"
  by (simp add: keeps_def with_store_def)

lemma plain: "ty \<in> plain_events \<Longrightarrow> keeps R (run_event rn run ty payload now)"
  using usual keeps_event by blast

lemma keeps_finish: "keeps R (finish_engine_run rn run q plan now nd)"
  unfolding finish_engine_run_def by (intro look bind keeps_end pure)

lemma keeps_end_run: "rf_run fr = run \<Longrightarrow> keeps R (end_run rn fr now nd)"
  unfolding end_run_def by (simp add: bind keeps_finish pure)

text \<open>Synthesis.\<close>

lemma keeps_fallback: "keeps R (persist_synthesis_fallback_event rn run pos f now)"
  unfolding persist_synthesis_fallback_event_def Let_def
  by (auto intro!: look bind pure plain simp: plain_events_def split: list.split)

lemma keeps_synthesize:
  assumes fr: "rf_run fr = run"
  shows "keeps R (synthesize rn inp fr ps pos names lg)"
proof (induction names arbitrary: pos lg)
  case (Cons name names)
  have "keeps R (run_stage rn (synthesis_args rn fr pos) [(name, ps)] (ri_synthesis inp pos))"
    using usual(2)
    by (intro keeps_stage) (simp_all add: synthesis_args_def stage_of_run_def wf_dict_def fr)
  then show ?case
    by (auto simp: Let_def fr intro!: obind bind pure keeps_fallback Cons.IH split: option.split)
qed (simp add: pure)

lemma keeps_synthesis:
  assumes fr: "rf_run fr = run"
  shows "keeps R (synthesis_phase rn inp fr mp ps arts rs ag lg)"
  unfolding synthesis_phase_def Let_def
  by (auto intro!: obind bind pure keeps_synthesize [OF fr] keeps_end_run [OF fr])

text \<open>Judging.\<close>

lemma keeps_repair_event:
  "''jury_artifact_repair'' \<in> types \<Longrightarrow> keeps R (persist_jury_repair_event rn run payload now)"
  unfolding persist_jury_repair_event_def
  by (auto intro!: look bind pure keeps_event split: list.split)

lemma keeps_settle:
  "''jury_artifact_repair'' \<in> types \<Longrightarrow> keeps R (settle_judgment rn run mp sel sg slots now juror x acc)"
  unfolding settle_judgment_def Let_def
  by (auto intro!: bind pure keeps_repair_event split: first_reading.split option.split)

lemma keeps_settle_all:
  "''jury_artifact_repair'' \<in> types \<Longrightarrow> keeps R (settle_judgments rn run mp sel sg slots now xs acc)"
proof (induction xs arbitrary: acc)
  case (Cons x xs)
  then show ?case by (cases x) (auto intro!: bind keeps_settle)
qed (simp add: pure)

lemma keeps_judgments:
  assumes seats: "wf_dict (eg_providers (rn_engine rn))"
    and may: "''jury_artifact_repair'' \<in> types" "''jury_repair'' \<in> stages"
  shows "keeps R (parse_and_repair_juries rn run mp marker orders responses inp now)"
  unfolding parse_and_repair_juries_def Let_def
proof (intro bind_result look obind bind pure keeps_settle_all [OF may(1)])
  fix readings db
  assume "read_judgments rn mp marker orders responses (seats_of rn) = Inr readings"
  from readings_names [OF this] have "distinct (map fst readings)"
    using seats by (simp add: wf_dict_def)
  then show "keeps R (if selected_repairs rn db run (eligible_repairs readings) = [] then sreturn (Some empty_acc)
      else run_stage rn (repair_args run) (selected_repairs rn db run (eligible_repairs readings)) inp)"
    using may(2) selected_names [of readings]
    by (auto intro!: keeps_stage pure simp: repair_args_def stage_of_run_def)
qed

lemma keeps_judging:
  assumes seats: "wf_dict (eg_providers (rn_engine rn))" and fr: "rf_run fr = run"
    and may: "''jury_artifact_repair'' \<in> types" "{''jury'', ''jury_repair''} \<subseteq> stages"
  shows "keeps R (judge_candidates rn inp fr mp arts lg)"
  unfolding judge_candidates_def
proof (rule bind_result)
  fix x
  assume "jury_work rn fr mp arts = Inr x"
  moreover obtain orders work where x: "x = (orders, work)" by (cases x)
  ultimately have "wf_dict work" using jury_work_names seats by (fastforce simp: wf_dict_def)
  then show "keeps R (case x of (orders, work) \<Rightarrow>
      obind (run_stage rn (stage_of_run (rf_run fr) ''jury'' True) work (ri_jury inp)) (\<lambda>sg.
      obind (parse_and_repair_juries rn (rf_run fr) mp (rf_marker fr) orders (sg_successes sg) (ri_repair inp)
              (ri_now inp 5)) (\<lambda>ja.
        let lg1 = log_failures (ja_failures ja) (log_stage sg lg);
            lg2 = lg1\<lparr>lg_recoveries := fold add_new_recovery (ja_recoveries ja) (lg_recoveries lg1)\<rparr> in
        sreturn (Some (map snd (ja_records ja), sg_failures sg @ ja_failures ja, lg2)))))"
    unfolding x using may
    by (auto simp: Let_def stage_of_run_def fr intro!: obind keeps_stage keeps_judgments [OF seats] pure)
qed

definition may_judge :: "run_locks \<Rightarrow> bool" where
  "may_judge lk \<longleftrightarrow> lk_adjudication lk \<noteq> None
     \<or> {''adjudication_locked'', ''jury_artifact_repair''} \<subseteq> types \<and> {''jury'', ''jury_repair''} \<subseteq> stages"

lemma keeps_lock_adjudication:
  "''adjudication_locked'' \<in> types \<Longrightarrow> keeps R (lock_adjudication rn run mp rs fs now)"
  unfolding lock_adjudication_def by (intro bind keeps_event look pure)

lemma keeps_adjudicate:
  assumes fr: "rf_run fr = run" and may: "may_judge (rf_locks fr)"
  shows "keeps R (adjudicate rn inp fr mp ps arts rs fs lg)"
  unfolding adjudicate_def using may
  by (auto simp: may_judge_def fr intro!: bind pure keeps_synthesis [OF fr] keeps_lock_adjudication split: option.split)

lemma keeps_jury:
  assumes seats: "wf_dict (eg_providers (rn_engine rn))"
    and fr: "rf_run fr = run" and may: "may_judge (rf_locks fr)"
  shows "keeps R (jury_phase rn inp fr mp ps arts lg)"
proof (cases "lk_adjudication (rf_locks fr)")
  case None
  with may have "''jury_artifact_repair'' \<in> types" "{''jury'', ''jury_repair''} \<subseteq> stages"
    by (auto simp: may_judge_def)
  with None show ?thesis unfolding jury_phase_def Let_def
    by (auto intro!: obind keeps_judging [OF seats fr] keeps_adjudicate [OF fr may] keeps_end_run [OF fr])
qed (auto simp: jury_phase_def intro!: keeps_adjudicate [OF fr may])

text \<open>Proposals and the run.\<close>

definition may_fix :: "run_locks \<Rightarrow> bool" where
  "may_fix lk \<longleftrightarrow> (case lk_namespace lk of
     None \<Rightarrow> ''candidate_namespace_locked'' \<in> types | Some nl \<Rightarrow> distinct (map snd (nl_mapping nl)))"

lemma keeps_fix:
  assumes fr: "rf_run fr = run" and may: "may_fix (rf_locks fr)"
  shows "keeps R (fix_candidates rn inp fr names lg)"
  unfolding fix_candidates_def lock_candidate_namespace_def
  using may by (auto simp: may_fix_def fr intro!: bind look pure keeps_event split: option.split)

lemma keeps_after_proposals:
  assumes seats: "wf_dict (eg_providers (rn_engine rn))"
    and fr: "rf_run fr = run" and may: "may_judge (rf_locks fr)" "may_fix (rf_locks fr)"
  shows "keeps R (after_proposals rn inp fr answers lg)"
  unfolding after_proposals_def Let_def
  by (auto intro!: bind pure keeps_end_run [OF fr] keeps_fix [OF fr may(2)] keeps_jury [OF seats fr may(1)])

lemma keeps_proposals:
  assumes seats: "wf_dict (eg_providers (rn_engine rn))"
    and fr: "rf_run fr = run" and may: "may_judge (rf_locks fr)" "may_fix (rf_locks fr)"
  shows "keeps R (proposal_phase rn inp fr earlier)"
proof -
  have "wf_dict (map (\<lambda>name. (name, ps)) (proposal_seats rn (rf_locks fr)))" for ps :: prompts
    using may(2) seats
    by (auto simp: wf_dict_def proposal_seats_def may_fix_def comp_def split: option.splits)
  then have "keeps R (run_stage rn (stage_of_run run ''proposal'' True)
      (map (\<lambda>name. (name, ps)) (proposal_seats rn (rf_locks fr))) (ri_proposal inp))" for ps
    using usual(2) by (intro keeps_stage) (simp_all add: stage_of_run_def)
  then show ?thesis unfolding proposal_phase_def Let_def
    by (auto simp: fr intro!: bind obind pure keeps_after_proposals [OF seats fr may])
qed

lemma keeps_continue:
  assumes seats: "wf_dict (eg_providers (rn_engine rn))"
    and row: "ru_id row = run" and may: "may_judge lk" "may_fix lk"
  shows "keeps R (continue_run rn inp row events lk)"
  unfolding continue_run_def Let_def load_or_create_untrusted_marker_def row
  by (intro bind keeps_status pure keeps_proposals)
    (auto intro!: bind pure plain may seats simp: plain_events_def split: option.split)

lemma keeps_resume:
  assumes seats: "wf_dict (eg_providers (rn_engine rn))"
    and may: "\<And>row lk. find_run_row (wd_store w) run = Some row \<Longrightarrow>
      checked_locks rn (wd_store w) row = Inr lk \<Longrightarrow> may_judge lk \<and> may_fix lk"
  shows "R w (snd (resume_run rn inp run w))"
proof (cases "find_run_row (wd_store w) run")
  case None
  then show ?thesis using reflpD [OF R_refl] by (simp add: resume_run_def with_store_def get_run_def)
next
  case (Some row)
  then have row: "ru_id row = run" by (auto simp: find_run_row_def dest: row_where_Some)
  show ?thesis
  proof (cases "checked_locks rn (wd_store w) row")
    case (Inl e)
    then show ?thesis using Some reflpD [OF R_refl]
      by (simp add: resume_run_def with_store_def get_run_def sbind_def)
  next
    case (Inr lk)
    have "keeps R (continue_run rn inp row (list_events (wd_store w) run) lk)"
      using keeps_continue [OF seats row] may [OF Some Inr] by blast
    then show ?thesis using Some Inr reflpD [OF R_refl]
      by (auto simp: resume_run_def with_store_def get_run_def sbind_def keeps_def split: option.split)
  qed
qed

end

end
