(* ===== verification/Run_Moves.thy ===== *)
theory Run_Moves imports Run_Laws begin

text \<open>
  What a resumption may do to the world: it works within the call budget, and the events that fix
  something for the run stay as they are.
\<close>

section \<open>Locking events\<close>

lemma set_list_events: "set (list_events db run) = {e \<in> set (cd_events db). ev_run e = run}"
  by (auto simp: list_events_def set_rows_where)

lemma locked_event_kept:
  assumes "events_kept db db'" and "ty \<noteq> ''provider_retry_started''"
    and "events_of ty (list_events db run) = [e]" and "events_of ty (list_events db' run) = [e']"
  shows "e' = e"
proof -
  have "set (events_of ty (list_events d run)) = {e \<in> set (cd_events d). ev_run e = run \<and> ev_type e = ty}" for d
    by (auto simp: events_of_def set_list_events)
  from this [of db] this [of db'] have "e \<in> set (cd_events db) \<and> ev_run e = run \<and> ev_type e = ty"
    and "{e'} = {e \<in> set (cd_events db'). ev_run e = run \<and> ev_type e = ty}"
    unfolding assms(3,4) by auto
  then have "e \<in> set (cd_events db') \<and> ev_run e = run \<and> ev_type e = ty"
    using assms(1,2) by (auto simp: events_kept_def)
  then have "e \<in> {e'}" unfolding \<open>{e'} = _\<close> by blast
  then show ?thesis by simp
qed

lemma events_of_count:
  assumes "council_good db" and "council_good db'" and "events_kept db db'" and "ty \<noteq> ''provider_retry_started''"
  shows "length (events_of ty (list_events db run)) \<le> length (events_of ty (list_events db' run))"
proof -
  have d: "distinct (events_of ty (list_events d run))" if "council_good d" for d
    using that
    by (auto simp: events_of_def list_events_def rows_where_def council_good_def events_ok_def unique_on_def
        distinct_map intro!: distinct_filter)
  have "set (events_of ty (list_events db run)) \<subseteq> set (events_of ty (list_events db' run))"
    using assms(3,4) by (auto simp: events_of_def set_list_events events_kept_def)
  then show ?thesis
    using d [OF assms(1)] d [OF assms(2)] by (metis card_mono distinct_card finite_set)
qed

lemma single_event:
  assumes "load_candidate_namespace_lock rn run events = Inr (Some nl)"
  shows "\<exists>e. events_of ''candidate_namespace_locked'' events = [e]"
  using assms by (auto simp: load_candidate_namespace_lock_def split: list.splits)

lemma single_adjudication:
  assumes "load_adjudication_lock rn namespace events = Inr (Some al)"
  shows "\<exists>e. events_of ''adjudication_locked'' events = [e]"
  using assms by (auto simp: load_adjudication_lock_def result_simps split: list.splits option.splits)

lemma no_lock:
  "load_candidate_namespace_lock rn run events = Inr None \<Longrightarrow>
   events_of ''candidate_namespace_locked'' events = []"
  "load_adjudication_lock rn namespace events = Inr None \<Longrightarrow> events_of ''adjudication_locked'' events = []"
  by (auto simp: load_candidate_namespace_lock_def load_adjudication_lock_def result_simps
      split: list.splits json.splits option.splits)

lemma checked_locks_parts:
  assumes "checked_locks rn db row = Inr lk"
  shows "load_candidate_namespace_lock rn (ru_id row) (list_events db (ru_id row)) = Inr (lk_namespace lk)"
    and "load_adjudication_lock rn (lk_namespace lk) (list_events db (ru_id row)) = Inr (lk_adjudication lk)"
    and "load_synthesis_fallback_state rn db (ru_id row) (list_events db (ru_id row))
      = Inr (lk_position lk, lk_advanced lk)"
  using assms by (auto simp: checked_locks_def Let_def result_simps)

lemma fallback_position:
  "load_synthesis_fallback_state rn db run events = Inr (pos, fs) \<Longrightarrow>
   pos = length (events_of ''synthesis_fallback_advanced'' events) + 1"
  by (auto simp: load_synthesis_fallback_state_def Let_def result_simps)

section \<open>The budget and the calls of a run\<close>

lemma quiet_set_status: "keeps (quiet en D S) (in_store (set_run_status (en_url en) run v err now))"
proof (rule quiet_in_store)
  show "\<exists>x. snd (set_run_status (en_url en) run v err now db) = council_step en db x" for db
    by (rule exI [of _ "SetStatus run v err now"]) simp
  have same: "cd_slots (snd (set_run_status (en_url en) run v err now db)) = cd_slots db" for db
    using set_run_status_cases [of "en_url en" run v err now db]
    by (elim disjE) (simp_all add: run_update_sel)
  show "count_calls (snd (set_run_status (en_url en) run v err now db)) r \<le> count_calls db r" for db r
    by (rule eq_refl, rule count_calls_same, rule same)
  show "slots_kept D db (snd (set_run_status (en_url en) run v err now db))" for db
    by (rule kept_same, rule same)
  show "still_unknown S db (snd (set_run_status (en_url en) run v err now db))" for db
    by (rule still_same, rule same)
qed

lemma quiet_finish_run: "keeps (quiet en D S) (in_store (finish_run (en_shaj en) (en_url en) run v now))"
proof (rule quiet_in_store)
  show "\<exists>x. snd (finish_run (en_shaj en) (en_url en) run v now db) = council_step en db x" for db
    by (rule exI [of _ "FinishRun run v now"]) simp
  have same: "cd_slots (snd (finish_run (en_shaj en) (en_url en) run v now db)) = cd_slots db" for db
    using finish_run_cases [of "en_shaj en" "en_url en" run v now db]
    by (elim disjE exE conjE) (simp_all add: add_event_def run_update_sel)
  show "count_calls (snd (finish_run (en_shaj en) (en_url en) run v now db)) r \<le> count_calls db r" for db r
    by (rule eq_refl, rule count_calls_same, rule same)
  show "slots_kept D db (snd (finish_run (en_shaj en) (en_url en) run v now db))" for db
    by (rule kept_same, rule same)
  show "still_unknown S db (snd (finish_run (en_shaj en) (en_url en) run v now db))" for db
    by (rule still_same, rule same)
qed

text \<open>A call that must not be made: the provider has an unknown outcome in the run, or has answered in
  the stage.\<close>

definition barred :: "council_db \<Rightarrow> string \<Rightarrow> dispatch \<Rightarrow> bool" where
  "barred db run d \<longleftrightarrow> (\<exists>i stage. unknown_at db i (run, stage, dp_provider d))
     \<or> get_successful_invocation db run (dp_stage d) (dp_provider d) \<noteq> None"

lemma barred_moves:
  assumes "council_good (wd_store w)" and "store_moves en w w'"
    and "still_unknown {} (wd_store w) (wd_store w')" and "barred (wd_store w) run d"
  shows "barred (wd_store w') run d"
  using assms(4) unfolding barred_def
  by (elim disjE exE) (use still_unknownD [OF assms(3)] success_moves [OF assms(1,2)] in blast)+

lemma runnable_free:
  assumes "pass_calls args (runnable eg args prompts (wd_store w)) db new" and "d \<in> set new"
    and "sa_run args = run"
  shows "\<not> barred (wd_store w) run d"
proof -
  have "dp_provider d \<in> runnable eg args prompts (wd_store w)" "dp_stage d = sa_stage args"
    using assms(1,2) by (simp_all add: pass_calls_def)
  then have "\<not> ambiguous_provider (list_invocations (wd_store w) run) (dp_provider d)"
      "get_successful_invocation (wd_store w) run (dp_stage d) (dp_provider d) = None"
    using assms(3) by (simp_all add: runnable_def clear_to_run_def)
  moreover have "ambiguous_provider (list_invocations (wd_store w) run) (dp_provider d)"
    if "unknown_at (wd_store w) i (run, stage, dp_provider d)" for i stage
    using unknown_ambiguous [of "wd_store w" i "args\<lparr>sa_stage := stage\<rparr>" "dp_provider d" run] that assms(3)
    by (simp add: stage_place_def)
  ultimately show ?thesis by (auto simp: barred_def)
qed

text \<open>A change of the world within the budget of the run, whose calls belong to the given stages and
  are none of the barred ones.\<close>

definition run_moves :: "'g run_env \<Rightarrow> string \<Rightarrow> string set \<Rightarrow> 'g world \<Rightarrow> 'g world \<Rightarrow> bool" where
  "run_moves rn run stages w w' \<longleftrightarrow>
     (wf_dict (eg_providers (rn_engine rn)) \<and> council_good (wd_store w) \<longrightarrow>
        council_good (wd_store w') \<and> store_moves (env_of rn) w w'
      \<and> count_calls (wd_store w') run \<le> max (count_calls (wd_store w) run) (rp_max_calls (pol_of rn))
      \<and> still_unknown {} (wd_store w) (wd_store w')
      \<and> (\<exists>new. wd_calls w' = wd_calls w @ new
           \<and> (\<forall>d\<in>set new. dp_stage d \<in> stages \<and> \<not> barred (wd_store w) run d)))"

lemma run_moves_quiet: "quiet (env_of rn) {} {} w w' \<Longrightarrow> run_moves rn run stages w w'"
  unfolding run_moves_def using store_moves_good [of "env_of rn" w w']
  by (auto simp: quiet_def max.coboundedI1)

lemma run_moves_keeps: "keeps (quiet (env_of rn) {} {}) m \<Longrightarrow> keeps (run_moves rn run stages) m"
  using run_moves_quiet unfolding keeps_def by blast

lemma run_moves_trans:
  assumes "run_moves rn run stages a b" and "run_moves rn run stages b c"
  shows "run_moves rn run stages a c"
proof (cases "wf_dict (eg_providers (rn_engine rn)) \<and> council_good (wd_store a)")
  case True
  then have b: "council_good (wd_store b)" "store_moves (env_of rn) a b"
      "count_calls (wd_store b) run \<le> max (count_calls (wd_store a) run) (rp_max_calls (pol_of rn))"
      "still_unknown {} (wd_store a) (wd_store b)"
      "\<exists>new. wd_calls b = wd_calls a @ new \<and> (\<forall>d\<in>set new. dp_stage d \<in> stages \<and> \<not> barred (wd_store a) run d)"
    using assms(1) by (simp_all add: run_moves_def)
  then have c: "council_good (wd_store c)" "store_moves (env_of rn) b c"
      "count_calls (wd_store c) run \<le> max (count_calls (wd_store b) run) (rp_max_calls (pol_of rn))"
      "still_unknown {} (wd_store b) (wd_store c)"
      "\<exists>new. wd_calls c = wd_calls b @ new \<and> (\<forall>d\<in>set new. dp_stage d \<in> stages \<and> \<not> barred (wd_store b) run d)"
    using assms(2) True by (simp_all add: run_moves_def)
  have good: "council_good (wd_store a)" using True by simp
  obtain xs where xs: "wd_calls b = wd_calls a @ xs" "\<forall>d\<in>set xs. dp_stage d \<in> stages \<and> \<not> barred (wd_store a) run d"
    using b(5) by blast
  obtain ys where ys: "wd_calls c = wd_calls b @ ys" "\<forall>d\<in>set ys. dp_stage d \<in> stages \<and> \<not> barred (wd_store b) run d"
    using c(5) by blast
  have "\<exists>new. wd_calls c = wd_calls a @ new \<and> (\<forall>d\<in>set new. dp_stage d \<in> stages \<and> \<not> barred (wd_store a) run d)"
    using xs ys barred_moves [OF good b(2,4)] by (intro exI [of _ "xs @ ys"]) auto
  moreover have "count_calls (wd_store c) run \<le> max (count_calls (wd_store a) run) (rp_max_calls (pol_of rn))"
    using b(3) c(3) by linarith
  ultimately show ?thesis
    unfolding run_moves_def using c(1) store_moves_trans [OF b(2) c(2)] still_trans [OF b(4) c(4)] by blast
qed (simp only: run_moves_def simp_thms)

lemma stage_bound_max: "stage_bound eg args db \<le> rp_max_calls (eg_policy eg)"
  by (simp add: stage_bound_def)

lemma run_moves_stage:
  assumes args: "sa_run args = run" "sa_stage args \<in> stages" and wf: "wf_dict prompts"
  shows "keeps (run_moves rn run stages) (run_stage rn args prompts inp)"
proof -
  have "run_moves rn run stages w w'" if run: "run_stage rn args prompts inp w = (r, w')" for w r w'
  proof (cases "wf_dict (eg_providers (rn_engine rn)) \<and> council_good (wd_store w)")
    case True
    obtain first second now where inp: "inp = (first, second, now)" by (cases inp)
    have r: "run_parallel_stage (rn_engine rn) args prompts first second now w = (r, w')"
      using run by (simp add: run_stage_def inp)
    have ok: "world_ok (rn_engine rn) args w w'"
      using True by (intro stage_world(1) [OF _ _ wf r]) simp_all
    obtain once again where calls: "wd_calls w' = wd_calls w @ once @ again"
      and passes: "pass_calls args (runnable (rn_engine rn) args prompts (wd_store w)) (wd_store w') once"
        "pass_calls args (runnable (rn_engine rn) args prompts (wd_store w)) (wd_store w') again"
      using True stage_world(2) [OF _ _ wf r] by blast
    have free: "dp_stage d = sa_stage args \<and> \<not> barred (wd_store w) run d" if "d \<in> set (once @ again)" for d
      using that passes runnable_free [OF passes(1) _ args(1)] runnable_free [OF passes(2) _ args(1)]
      by (auto simp: pass_calls_def)
    have "count_calls (wd_store w') run
        \<le> max (count_calls (wd_store w) run) (stage_bound (rn_engine rn) args (wd_store w'))"
      using ok by (simp add: world_ok_def args(1))
    then have "count_calls (wd_store w') run \<le> max (count_calls (wd_store w) run) (rp_max_calls (pol_of rn))"
      using stage_bound_max [of "rn_engine rn" args "wd_store w'"] by linarith
    moreover have "\<exists>new. wd_calls w' = wd_calls w @ new
        \<and> (\<forall>d\<in>set new. dp_stage d \<in> stages \<and> \<not> barred (wd_store w) run d)"
      using free args(2) calls by (intro exI [of _ "once @ again"]) auto
    moreover have "store_moves (env_of rn) w w'" "still_unknown {} (wd_store w) (wd_store w')"
      using ok by (simp_all add: world_ok_def)
    ultimately show ?thesis
      unfolding run_moves_def using True store_moves_good [of "env_of rn" w w'] by blast
  qed (simp only: run_moves_def simp_thms)
  then show ?thesis by (simp add: keeps_def) (metis surjective_pairing)
qed

interpretation moves: run_actions rn run "run_moves rn run (insert ''proposal'' (insert ''synthesis'' stages))"
  UNIV "insert ''proposal'' (insert ''synthesis'' stages)" for rn run stages
proof
  let ?R = "run_moves rn run (insert ''proposal'' (insert ''synthesis'' stages))"
  show "reflp ?R" by (rule reflpI) (rule run_moves_quiet, simp)
  show "transp ?R" by (rule transpI) (rule run_moves_trans)
  show "keeps ?R (run_event rn run ty payload now)" for ty payload now
    unfolding run_event_def by (rule run_moves_keeps [OF quiet_add_event])
  show "keeps ?R (in_store (set_run_status (en_url (env_of rn)) run (JStr ''running'') NoError now))" for now
    by (rule run_moves_keeps [OF quiet_set_status])
  show "keeps ?R (in_store (finish_run (en_shaj (env_of rn)) (en_url (env_of rn)) run (JObj res) now))" for res now
    by (rule run_moves_keeps [OF quiet_finish_run])
qed (auto intro: run_moves_stage)

lemma locks_fixed:
  assumes "checked_locks rn db row = Inr lk"
  shows "case lk_namespace lk of None \<Rightarrow> True | Some nl \<Rightarrow> distinct (map snd (nl_mapping nl))"
proof (cases "lk_namespace lk")
  case (Some nl)
  then show ?thesis using locked_names [OF checked_locks_parts(1) [OF assms, unfolded Some]] by simp
qed simp

section \<open>What may follow in a run\<close>

text \<open>No unknown outcome becomes known, and no barred call is made.\<close>

definition guarded :: "council_env \<Rightarrow> string \<Rightarrow> 'g world \<Rightarrow> 'g world \<Rightarrow> bool" where
  "guarded en run w w' \<longleftrightarrow> store_moves en w w' \<and> still_unknown {} (wd_store w) (wd_store w')
     \<and> (\<exists>new. wd_calls w' = wd_calls w @ new \<and> (\<forall>d\<in>set new. \<not> barred (wd_store w) run d))"

lemma guarded_trans:
  assumes good: "council_good (wd_store a)" and a: "guarded en run a b" and b: "guarded en run b c"
  shows "guarded en run a c"
proof -
  have ab: "store_moves en a b" "still_unknown {} (wd_store a) (wd_store b)"
    and bc: "store_moves en b c" "still_unknown {} (wd_store b) (wd_store c)"
    using a b by (simp_all add: guarded_def)
  obtain xs ys where "wd_calls b = wd_calls a @ xs" "\<forall>d\<in>set xs. \<not> barred (wd_store a) run d"
      "wd_calls c = wd_calls b @ ys" "\<forall>d\<in>set ys. \<not> barred (wd_store b) run d"
    using a b unfolding guarded_def by blast
  then have "\<exists>new. wd_calls c = wd_calls a @ new \<and> (\<forall>d\<in>set new. \<not> barred (wd_store a) run d)"
    using barred_moves [OF good ab] by (intro exI [of _ "xs @ ys"]) auto
  then show ?thesis
    unfolding guarded_def using store_moves_trans [OF ab(1) bc(1)] still_trans [OF ab(2) bc(2)] by blast
qed

lemma guarded_stage:
  assumes good: "council_good (wd_store w)" and dp: "wf_dict (eg_providers eg)" and wf: "wf_dict prompts"
    and r: "run_parallel_stage eg args prompts first second now w = (r, w')"
  shows "guarded (eg_env eg) (sa_run args) w w'"
proof -
  obtain once again where calls: "wd_calls w' = wd_calls w @ once @ again"
    and passes: "pass_calls args (runnable eg args prompts (wd_store w)) (wd_store w') once"
      "pass_calls args (runnable eg args prompts (wd_store w)) (wd_store w') again"
    using stage_world(2) [OF good dp wf r] by blast
  have "\<not> barred (wd_store w) (sa_run args) d" if "d \<in> set (once @ again)" for d
    using that runnable_free [OF passes(1) _ refl] runnable_free [OF passes(2) _ refl] by auto
  with calls have "\<exists>new. wd_calls w' = wd_calls w @ new \<and> (\<forall>d\<in>set new. \<not> barred (wd_store w) (sa_run args) d)"
    by blast
  then show ?thesis
    using stage_world(1) [OF good dp wf r] by (simp add: guarded_def world_ok_def)
qed

lemma guarded_resume:
  assumes good: "council_good (wd_store w)" and dp: "wf_dict (eg_providers (rn_engine rn))"
    and r: "resume_run rn inp run w = (r, w')"
  shows "guarded (env_of rn) run w w'"
proof -
  have "run_moves rn run (insert ''proposal'' (insert ''synthesis'' UNIV)) w (snd (resume_run rn inp run w))"
  proof (rule moves.keeps_resume [OF dp])
    fix row lk
    assume "checked_locks rn (wd_store w) row = Inr lk"
    from locks_fixed [OF this] show "moves.may_judge UNIV lk \<and> moves.may_fix lk"
      unfolding moves.may_judge_def moves.may_fix_def by (simp split: option.splits)
  qed
  then show ?thesis using good dp r unfolding run_moves_def guarded_def by fastforce
qed

text \<open>
  The worlds that can follow in a run: after further stages of it, of any engine over the same store,
  after whole resumptions, and after operations of the store that change no invocation.
\<close>

inductive continues :: "council_env \<Rightarrow> string \<Rightarrow> 'g world \<Rightarrow> 'g world \<Rightarrow> bool" for en run w where
  here: "continues en run w w"
| stage: "continues en run w w1 \<Longrightarrow> eg_env eg = en \<Longrightarrow> sa_run args = run \<Longrightarrow>
    wf_dict (eg_providers eg) \<Longrightarrow> wf_dict prompts \<Longrightarrow>
    run_parallel_stage eg args prompts first second now w1 = (r, w2) \<Longrightarrow> continues en run w w2"
| resumption: "continues en run w w1 \<Longrightarrow> env_of rn = en \<Longrightarrow> wf_dict (eg_providers (rn_engine rn)) \<Longrightarrow>
    resume_run rn inp run w1 = (v, w2) \<Longrightarrow> continues en run w w2"
| elsewhere: "continues en run w w1 \<Longrightarrow> wd_store w2 = council_step en (wd_store w1) x \<Longrightarrow>
    cd_slots (wd_store w2) = cd_slots (wd_store w1) \<Longrightarrow> wd_calls w2 = wd_calls w1 \<Longrightarrow>
    continues en run w w2"

lemma continues_guarded:
  assumes "continues en run w w'" and good: "council_good (wd_store w)"
  shows "guarded en run w w'"
  using assms(1)
proof (induction rule: continues.induct)
  case here
  show ?case by (simp add: guarded_def still_same)
next
  case (stage w1 eg args prompts first second now r w2)
  have good1: "council_good (wd_store w1)"
    using stage.IH store_moves_good [OF _ good] by (auto simp: guarded_def)
  from guarded_stage [OF good1 stage.hyps(4-6)] stage.hyps(2,3) show ?case
    using guarded_trans [OF good stage.IH] by simp
next
  case (resumption w1 rn inp v w2)
  have good1: "council_good (wd_store w1)"
    using resumption.IH store_moves_good [OF _ good] by (auto simp: guarded_def)
  from guarded_resume [OF good1 resumption.hyps(3,4)] resumption.hyps(2) show ?case
    using guarded_trans [OF good resumption.IH] by simp
next
  case (elsewhere w1 w2 x)
  have "guarded en run w1 w2"
    using elsewhere.hyps(2-4) by (auto simp: guarded_def still_same intro: store_movesI)
  then show ?case by (rule guarded_trans [OF good elsewhere.IH])
qed

end
