(* ===== verification/Run_Endings.thy ===== *)
theory Run_Endings imports Run_Moves begin

text \<open>How a run ends: what holds of the result document and of the store when \<open>resume\<close> returns.\<close>

section \<open>The last step of a run\<close>

text \<open>Any change of the world within the budget of the run.\<close>

abbreviation any_moves :: "'g run_env \<Rightarrow> string \<Rightarrow> 'g world \<Rightarrow> 'g world \<Rightarrow> bool" where
  "any_moves rn run \<equiv> run_moves rn run (insert ''proposal'' (insert ''synthesis'' UNIV))"

definition sane :: "'g run_env \<Rightarrow> 'g world \<Rightarrow> bool" where
  "sane rn w \<longleftrightarrow> wf_dict (eg_providers (rn_engine rn)) \<and> council_good (wd_store w)"

lemma sane_moves: "sane rn w \<Longrightarrow> run_moves rn run S w w' \<Longrightarrow> sane rn w'"
  by (simp add: sane_def run_moves_def)

definition ends_at ::
  "'g run_env \<Rightarrow> run_frame \<Rightarrow> (run_end \<Rightarrow> 'g world \<Rightarrow> bool) \<Rightarrow> ('g world, json option) action \<Rightarrow> 'g world \<Rightarrow> bool" where
  "ends_at rn fr P m w \<longleftrightarrow> (sane rn w \<longrightarrow> (\<forall>v w'. m w = (Inr (Some v), w') \<longrightarrow>
     (\<exists>nd now w1. sane rn w1 \<and> P nd w1 \<and> end_run rn fr now nd w1 = (Inr (Some v), w'))))"

lemma ends_bind:
  assumes "keeps (run_moves rn run S) m" and "\<And>x s'. m s = (Inr x, s') \<Longrightarrow> ends_at rn fr P (f x) s'"
  shows "ends_at rn fr P (sbind m f) s"
proof (cases "m s")
  case (Pair r s')
  then have moved: "run_moves rn run S s s'" using assms(1) by (metis keeps_def snd_conv)
  show ?thesis
  proof (cases r)
    case (Inr x)
    then show ?thesis
      using assms(2) [of x s'] Pair sane_moves [OF _ moved] by (auto simp: ends_at_def sbind_def)
  qed (simp add: ends_at_def sbind_def Pair)
qed

lemma ends_result: "(\<And>x. r = Inr x \<Longrightarrow> ends_at rn fr P (f x) s) \<Longrightarrow> ends_at rn fr P (sbind (sresult r) f) s"
  by (cases r) (auto simp: ends_at_def sbind_def)

lemma ends_none [simp]: "ends_at rn fr P (sreturn None) s"
  by (simp add: ends_at_def)

lemma ends_obind:
  assumes "keeps (run_moves rn run S) m" and "\<And>x s'. m s = (Inr (Some x), s') \<Longrightarrow> ends_at rn fr P (f x) s'"
  shows "ends_at rn fr P (obind m f) s"
  unfolding obind_def
proof (rule ends_bind [OF assms(1)])
  fix x s'
  assume m: "m s = (Inr x, s')"
  show "ends_at rn fr P (case x of None \<Rightarrow> sreturn None | Some y \<Rightarrow> f y) s'"
    using assms(2) m by (cases x) simp_all
qed

lemma ends_raise [simp]: "ends_at rn fr P (sraise e) s"
  by (simp add: ends_at_def)

lemma ends_if:
  "(c \<Longrightarrow> ends_at rn fr P m w) \<Longrightarrow> (\<not> c \<Longrightarrow> ends_at rn fr P m' w) \<Longrightarrow>
   ends_at rn fr P (if c then m else m') w"
  by simp

lemma ends_end: "P nd w \<Longrightarrow> ends_at rn fr P (end_run rn fr now nd) w"
  unfolding ends_at_def by blast

section \<open>What a completed run has\<close>

definition enough_proposals :: "'g run_env \<Rightarrow> (string, provider_response) dict \<Rightarrow> bool" where
  "enough_proposals rn proposals \<longleftrightarrow> rp_proposal_quorum (pol_of rn) \<le> int (length proposals)
     \<and> (\<exists>cs. rmap (provider_of (rn_engine rn)) (map fst proposals) = Inr cs
          \<and> rp_min_lineages (pol_of rn) \<le> int (card (cf_lineage ` set cs)))"

definition enough_judgments :: "'g run_env \<Rightarrow> jobj list \<Rightarrow> bool" where
  "enough_judgments rn records \<longleftrightarrow> rp_jury_quorum (pol_of rn) \<le> int (length (valid_records records))"

text \<open>The answer is the content of the response on record for the synthesis call of this provider.\<close>

definition answered_by :: "'g run_env \<Rightarrow> string \<Rightarrow> 'g world \<Rightarrow> string \<Rightarrow> string \<Rightarrow> bool" where
  "answered_by rn run w name answer \<longleftrightarrow> name \<in> set (chain_of rn)
     \<and> (\<exists>row stored. get_successful_invocation (wd_store w) run ''synthesis'' name = Some row
          \<and> response_from_record row = Inr stored \<and> rs_content stored = answer)"

definition sound_end :: "'g run_env \<Rightarrow> string \<Rightarrow> run_end \<Rightarrow> 'g world \<Rightarrow> bool" where
  "sound_end rn run nd w \<longleftrightarrow> nd_status nd \<in> {''completed'', ''partial'', ''failed''}
     \<and> (nd_status nd = ''completed'' \<longrightarrow>
          enough_proposals rn (nd_proposals nd) \<and> enough_judgments rn (nd_records nd)
        \<and> (\<exists>ag. nd_aggregate nd = Some ag
             \<and> aggregate_records rn (valid_records (nd_records nd)) (map fst (nd_proposals nd)) = Inr ag)
        \<and> (\<exists>name answer. nd_answer nd = Some answer \<and> answered_by rn run w name answer))"

lemma run_ended_sel [simp]:
  "nd_status (run_ended st an ps ar rs ag lg mp ck) = st" "nd_answer (run_ended st an ps ar rs ag lg mp ck) = an"
  "nd_proposals (run_ended st an ps ar rs ag lg mp ck) = ps" "nd_records (run_ended st an ps ar rs ag lg mp ck) = rs"
  "nd_aggregate (run_ended st an ps ar rs ag lg mp ck) = ag"
  by (simp_all add: run_ended_def)

text \<open>The answer of the synthesis is on record when it is returned.\<close>

lemma obind_eq_Inr:
  "obind m f s = (Inr (Some y), s') \<longleftrightarrow> (\<exists>x t. m s = (Inr (Some x), t) \<and> f x t = (Inr (Some y), s'))"
  by (auto simp: obind_def sbind_eq_Inr split: option.splits)

lemma synthesis_stage_answered:
  assumes sane: "sane rn w" and fr: "rf_run fr = run"
    and st: "run_stage rn (synthesis_args rn fr pos) [(name, ps)] inp w = (Inr (Some sg), w')"
    and ans: "dict_get (sg_successes sg) name = Some r"
  shows "holds_answer (wd_store w') run ''synthesis'' name r"
proof -
  obtain first second now where inp: "inp = (first, second, now)" by (cases inp)
  have "answered (synthesis_args rn fr pos) (wd_store w') sg"
    using sane st by (intro conjunct2 [OF stage_result [where eg = "rn_engine rn" and w = w]])
      (simp_all add: sane_def wf_dict_def run_stage_def inp)
  then show ?thesis using ans by (simp add: answered_def synthesis_args_def stage_of_run_def fr)
qed

lemma synthesize_answered:
  assumes "synthesize rn inp fr ps pos names lg w = (Inr (Some (Some (name, text), lg')), w')"
    and "sane rn w" and fr: "rf_run fr = run"
  shows "name \<in> set names \<and> (\<exists>r. holds_answer (wd_store w') run ''synthesis'' name r \<and> rs_content r = text)"
  using assms(1,2)
proof (induction names arbitrary: pos lg w)
  case (Cons x names)
  then have late: "\<not> ri_late inp pos" by (auto split: if_splits)
  from Cons.prems(1) late obtain sg w1 where st:
      "run_stage rn (synthesis_args rn fr pos) [(x, ps)] (ri_synthesis inp pos) w = (Inr (Some sg), w1)"
    by (auto simp: obind_eq_Inr)
  have "keeps (any_moves rn run) (run_stage rn (synthesis_args rn fr pos) [(x, ps)] (ri_synthesis inp pos))"
    by (rule moves.keeps_stage) (simp_all add: synthesis_args_def stage_of_run_def fr wf_dict_def)
  then have sane1: "sane rn w1"
    using st Cons.prems(2) sane_moves unfolding keeps_def by (metis snd_conv)
  show ?case
  proof (cases "dict_get (sg_successes sg) x")
    case (Some r)
    then have "name = x" and "w' = w1" and "text = rs_content r"
      using Cons.prems(1) late st by (auto simp: obind_def sbind_def Let_def)
    then show ?thesis using synthesis_stage_answered [OF Cons.prems(2) fr st Some] by auto
  next
    case None
    let ?next = "synthesize rn inp fr ps (pos + 1) names (log_stage sg lg)"
    obtain w2 where w2: "?next w2 = (Inr (Some (Some (name, text), lg')), w')" and "sane rn w2"
    proof (cases "pos < length (chain_of rn) \<and> \<not> ri_over inp pos")
      case True
      with None Cons.prems(1) late st obtain f u where f: "last_failure_of x (sg_failures sg) = Some f"
          and p: "persist_synthesis_fallback_event rn (rf_run fr) pos f (ri_now inp (8 + pos)) w1 = (Inr (), u)"
          and "?next u = (Inr (Some (Some (name, text), lg')), w')"
        by (auto simp: obind_def sbind_def Let_def split: option.splits prod.splits sum.splits)
      moreover have "sane rn u"
        using moves.keeps_fallback [of rn run UNIV pos f "ri_now inp (8 + pos)"] p sane1 sane_moves fr
        unfolding keeps_def by (metis snd_conv)
      ultimately show ?thesis using that by blast
    next
      case False
      with None Cons.prems(1) late st have "?next w1 = (Inr (Some (Some (name, text), lg')), w')"
        by (auto simp: obind_def sbind_def Let_def)
      then show ?thesis using that sane1 by blast
    qed
    from Cons.IH [OF w2 \<open>sane rn w2\<close>] show ?thesis by simp
  qed
qed simp

section \<open>Every way to the end\<close>

lemma synthesis_ends:
  assumes fr: "rf_run fr = run" and ok: "enough_proposals rn proposals" "enough_judgments rn records"
    and ag: "aggregate_records rn (valid_records records) (map fst proposals) = Inr ag"
  shows "ends_at rn fr (sound_end rn run) (synthesis_phase rn inp fr mp proposals arts records ag lg) w"
proof (cases "sane rn w")
  case sane: True
  let ?fin = "\<lambda>answer lg2. end_run rn fr (ri_now inp 7)
     (run_ended (if answer = None then ''partial'' else ''completed'') (map_option snd answer) proposals arts
        records (Some ag) (log_warnings (synthesis_warnings rn answer (map_option (\<lambda>a.
          check_synthesis_outcome (snd a) (anonymize_aggregate ag mp)) answer)) lg2) (Some mp)
        (map_option (\<lambda>a. check_synthesis_outcome (snd a) (anonymize_aggregate ag mp)) answer))"
  have unanswered: "ends_at rn fr (sound_end rn run) (?fin None lg2) s" for lg2 s
    by (rule ends_end) (simp add: sound_end_def)
  have found: "ends_at rn fr (sound_end rn run) (?fin (Some (name, reply)) lg2) s"
    if "answered_by rn run s name reply" for name reply lg2 s
    using that ok ag by (intro ends_end) (auto simp: sound_end_def)
  have close: "ends_at rn fr (sound_end rn run) (?fin answer lg2) s"
    if "\<And>name reply. answer = Some (name, reply) \<Longrightarrow> answered_by rn run s name reply" for answer lg2 s
  proof (cases answer)
    case None
    then show ?thesis by (simp only: unanswered)
  next
    case (Some a)
    obtain name reply where a: "a = (name, reply)" by (cases a)
    show ?thesis using found that unfolding Some a by blast
  qed
  let ?pos = "lk_position (rf_locks fr)" and ?lg = "log_failures (lk_advanced (rf_locks fr)) lg"
  let ?names = "drop (?pos - 1) (chain_of rn)"
  have answers: "answered_by rn run s' name reply"
    if "synthesize rn inp fr ps ?pos ?names ?lg w = (Inr (Some (Some (name, reply), lg2)), s')" for ps name reply lg2 s'
    using synthesize_answered [OF that sane fr] in_set_dropD [of name "?pos - 1" "chain_of rn"]
    by (auto simp: answered_by_def holds_answer_def same_answer_content)
  show ?thesis
    unfolding synthesis_phase_def Let_def
  proof (rule ends_obind [where S = "insert ''proposal'' (insert ''synthesis'' UNIV)" and run = run])
    show "keeps (any_moves rn run) (if ri_before inp then sreturn (Some (None, ?lg))
        else sbind (sresult (prepare_synthesis rn fr mp arts ag (valid_records records))) (\<lambda>ps.
          synthesize rn inp fr ps ?pos ?names ?lg))"
      by (cases "ri_before inp"; simp only: if_True if_False;
          intro moves.pure moves.bind moves.keeps_synthesize [OF fr])
  next
    fix x s'
    assume m: "(if ri_before inp then sreturn (Some (None, ?lg))
        else sbind (sresult (prepare_synthesis rn fr mp arts ag (valid_records records))) (\<lambda>ps.
          synthesize rn inp fr ps ?pos ?names ?lg)) w = (Inr (Some x), s')"
    obtain answer lg2 where x: "x = (answer, lg2)" by (cases x)
    have "answered_by rn run s' name reply" if "answer = Some (name, reply)" for name reply
      using m answers unfolding x that by (auto simp: sbind_eq_Inr split: if_splits)
    then show "ends_at rn fr (sound_end rn run) (case x of (answer, lg2) \<Rightarrow> ?fin answer lg2) s'"
      unfolding x prod.case by (rule close)
  qed
qed (simp add: ends_at_def)

lemma adjudicate_ends:
  assumes fr: "rf_run fr = run" and ok: "enough_proposals rn proposals" "enough_judgments rn records"
  shows "ends_at rn fr (sound_end rn run) (adjudicate rn inp fr mp proposals arts records fs lg) w"
  unfolding adjudicate_def
proof (rule ends_result)
  fix ag
  assume ag: "aggregate_records rn (valid_records records) (map fst proposals) = Inr ag"
  show "ends_at rn fr (sound_end rn run) (sbind (case lk_adjudication (rf_locks fr) of
      None \<Rightarrow> sbind (lock_adjudication rn (rf_run fr) mp records fs (ri_now inp 6)) (\<lambda>_. sreturn ())
    | Some _ \<Rightarrow> sreturn ()) (\<lambda>_. synthesis_phase rn inp fr mp proposals arts records ag lg)) w"
  proof (rule ends_bind [where S = "insert ''proposal'' (insert ''synthesis'' UNIV)" and run = run])
    show "keeps (any_moves rn run) (case lk_adjudication (rf_locks fr) of
        None \<Rightarrow> sbind (lock_adjudication rn (rf_run fr) mp records fs (ri_now inp 6)) (\<lambda>_. sreturn ())
      | Some _ \<Rightarrow> sreturn ())"
      unfolding fr
      by (cases "lk_adjudication (rf_locks fr)"; simp only: option.case;
          intro moves.pure moves.bind moves.keeps_lock_adjudication UNIV_I)
  qed (rule synthesis_ends [OF fr ok ag])
qed

lemma partial_ends:
  "st \<in> {''partial'', ''failed''} \<Longrightarrow>
   ends_at rn fr (sound_end rn run) (end_run rn fr now (run_ended st an ps ar rs ag lg mp ck)) w"
  by (rule ends_end) (auto simp: sound_end_def)

definition lock_counts :: "'g run_env \<Rightarrow> run_locks \<Rightarrow> bool" where
  "lock_counts rn lk \<longleftrightarrow> (\<forall>al. lk_adjudication lk = Some al \<longrightarrow> enough_judgments rn (al_records al))"

lemma jury_ends:
  assumes seats: "wf_dict (eg_providers (rn_engine rn))" and fr: "rf_run fr = run"
    and ok: "enough_proposals rn proposals" and lk: "lock_counts rn (rf_locks fr)"
  shows "ends_at rn fr (sound_end rn run) (jury_phase rn inp fr mp proposals arts lg) w"
proof (cases "lk_adjudication (rf_locks fr)")
  case None
  show ?thesis
    unfolding jury_phase_def None option.case
  proof (rule ends_obind [where S = "insert ''proposal'' (insert ''synthesis'' UNIV)" and run = run])
    show "keeps (any_moves rn run) (judge_candidates rn inp fr mp arts lg)"
      by (rule moves.keeps_judging [OF seats fr]) simp_all
  next
    fix x :: "jobj list \<times> jobj list \<times> run_log" and s'
    obtain records fs lg' where x: "x = (records, fs, lg')" by (cases x)
    show "ends_at rn fr (sound_end rn run) (case x of (records, stage_failures, lg') \<Rightarrow>
        let valid = length (valid_records records) in
        if int valid < rp_jury_quorum (pol_of rn) then
          end_run rn fr (ri_now inp 7) (run_ended ''partial'' None proposals arts records None
            (log_warnings [quorum_text ''Jury quorum'' valid (rp_jury_quorum (pol_of rn))] lg') (Some mp) None)
        else adjudicate rn inp fr mp proposals arts records stage_failures lg') s'"
      unfolding x prod.case Let_def
      by (auto intro!: partial_ends adjudicate_ends [OF fr ok] simp: enough_judgments_def)
  qed
next
  case (Some al)
  then show ?thesis
    using lk by (simp add: jury_phase_def lock_counts_def adjudicate_ends [OF fr ok])
qed

lemma proposal_warnings_Nil:
  "proposal_warnings rn got lin = [] \<longleftrightarrow>
   rp_proposal_quorum (pol_of rn) \<le> int got \<and> rp_min_lineages (pol_of rn) \<le> int lin"
  by (auto simp: proposal_warnings_def)

lemma after_proposals_ends:
  assumes seats: "wf_dict (eg_providers (rn_engine rn))" and fr: "rf_run fr = run"
    and lk: "lock_counts rn (rf_locks fr)" and may: "moves.may_fix (rf_locks fr)"
  shows "ends_at rn fr (sound_end rn run) (after_proposals rn inp fr answers lg) w"
  unfolding after_proposals_def
proof (rule ends_result)
  fix x :: "(string, jobj) dict \<times> jobj list"
  obtain arts invalid where x: "x = (arts, invalid)" by (cases x)
  let ?proposals = "filter (\<lambda>p. fst p \<in> fst ` set arts) answers"
  let ?lg = "log_failures invalid lg"
  have enough: "ends_at rn fr (sound_end rn run)
      (sbind (fix_candidates rn inp fr (map fst ?proposals) ?lg) (\<lambda>mp.
         jury_phase rn inp fr mp ?proposals arts ?lg)) w"
    if cs: "rmap (provider_of (rn_engine rn)) (map fst ?proposals) = Inr cs"
      and "proposal_warnings rn (length (map fst ?proposals)) (card (cf_lineage ` set cs)) = []" for cs
  proof (rule ends_bind [where S = "insert ''proposal'' (insert ''synthesis'' UNIV)" and run = run])
    have "enough_proposals rn ?proposals"
      using that by (auto simp: enough_proposals_def proposal_warnings_Nil)
    then show "ends_at rn fr (sound_end rn run) (jury_phase rn inp fr mp ?proposals arts ?lg) s'" for mp s'
      by (rule jury_ends [OF seats fr _ lk])
  qed (rule moves.keeps_fix [OF fr may])
  show "ends_at rn fr (sound_end rn run) (case x of (artifacts, invalid) \<Rightarrow>
     let lg1 = log_failures invalid lg;
         proposals = filter (\<lambda>p. fst p \<in> fst ` set artifacts) answers;
         names = map fst proposals in
     if (case lk_namespace (rf_locks fr) of
           None \<Rightarrow> False | Some nl \<Rightarrow> set names \<noteq> set (map snd (nl_mapping nl)))
     then sraise (ValueError
       ''Frozen candidate membership could not be recovered from successful proposal records'')
     else
       sbind (sresult (rmap (provider_of (rn_engine rn)) names)) (\<lambda>cs.
       let warnings = proposal_warnings rn (length names) (card (cf_lineage ` set cs)) in
       if warnings \<noteq> [] then
         end_run rn fr (ri_now inp 7) (run_ended
           (if proposals \<noteq> [] \<and> rp_allow_partial (pol_of rn) then ''partial'' else ''failed'') None proposals
           artifacts [] None (log_warnings warnings lg1) None None)
       else
         sbind (fix_candidates rn inp fr names lg1) (\<lambda>mp.
           jury_phase rn inp fr mp proposals artifacts lg1))) w"
    unfolding x prod.case Let_def
    by (intro ends_if ends_raise ends_result partial_ends enough) (simp_all split: if_split)
qed

lemma proposal_ends:
  assumes seats: "wf_dict (eg_providers (rn_engine rn))" and fr: "rf_run fr = run"
    and lk: "lock_counts rn (rf_locks fr)" and may: "moves.may_fix (rf_locks fr)"
  shows "ends_at rn fr (sound_end rn run) (proposal_phase rn inp fr earlier) w"
proof -
  have wf: "wf_dict (map (\<lambda>name. (name, ps)) (proposal_seats rn (rf_locks fr)))" for ps :: prompts
    using may seats
    by (auto simp: wf_dict_def proposal_seats_def moves.may_fix_def comp_def split: option.splits)
  show ?thesis
    unfolding proposal_phase_def Let_def
  proof (intro ends_result ends_obind [where S = "insert ''proposal'' (insert ''synthesis'' UNIV)" and run = run])
    show "keeps (any_moves rn run) (run_stage rn (stage_of_run (rf_run fr) ''proposal'' True)
        (map (\<lambda>name. (name, ps)) (proposal_seats rn (rf_locks fr))) (ri_proposal inp))" for ps
      by (rule moves.keeps_stage [OF _ _ wf]) (simp_all add: stage_of_run_def fr)
  qed (rule after_proposals_ends [OF seats fr lk may])
qed

lemma continue_ends:
  assumes seats: "wf_dict (eg_providers (rn_engine rn))" and row: "ru_id row = run"
    and lk: "lock_counts rn lk" and may: "moves.may_fix lk"
    and r: "continue_run rn inp row events lk w = (Inr (Some v), w')" and sane: "sane rn w"
  shows "\<exists>fr nd now w1. rf_run fr = run \<and> sane rn w1 \<and> sound_end rn run nd w1
    \<and> end_run rn fr now nd w1 = (Inr (Some v), w')"
proof -
  let ?now = "ri_now inp"
  have one: "keeps (any_moves rn run) (load_or_create_untrusted_marker rn run events (ri_marker inp) (?now 0))"
    unfolding load_or_create_untrusted_marker_def
    by (cases "recorded_marker events"; simp only: option.case;
        intro moves.pure moves.bind moves.plain) (simp add: plain_events_def)
  have plain: "keeps (any_moves rn run) (run_event rn run ty payload now)" if "ty \<in> plain_events" for ty payload now
    by (rule moves.plain [OF that])
  obtain marker a b plan c d where steps:
      "load_or_create_untrusted_marker rn run events (ri_marker inp) (?now 0) w = (Inr marker, a)"
      "in_store (set_run_status (en_url (env_of rn)) run (JStr ''running'') NoError (?now 1)) a = (Inr (), b)"
      "run_event rn run ''run_started'' [(''protocol'', JStr ''independent-jury@1.3.0-beta'')] (?now 2) b = (Inr c, d)"
      "plan_run rn (ru_question row) = Inr plan"
    and rest: "sbind (run_event rn run ''workload_preflight'' (workload_json plan) (?now 3)) (\<lambda>_.
        proposal_phase rn inp \<lparr>rf_run = run, rf_question = ru_question row, rf_plan = plan, rf_marker = marker,
          rf_locks = lk\<rparr> (earlier_recoveries events)) d = (Inr (Some v), w')"
    using r unfolding continue_run_def Let_def row by (auto simp: sbind_eq_Inr)
  obtain n e where ev: "run_event rn run ''workload_preflight'' (workload_json plan) (?now 3) d = (Inr n, e)"
    and last: "proposal_phase rn inp \<lparr>rf_run = run, rf_question = ru_question row, rf_plan = plan, rf_marker = marker,
          rf_locks = lk\<rparr> (earlier_recoveries events) e = (Inr (Some v), w')"
    using rest by (auto simp: sbind_eq_Inr)
  have move: "sane rn t" if "sane rn s" "keeps (any_moves rn run) m" "m s = (x, t)" for s t x
      and m :: "('a world, 'b) action"
    using that sane_moves unfolding keeps_def by (metis snd_conv)
  have "sane rn a" by (rule move [OF sane one steps(1)])
  moreover have "sane rn b" by (rule move [OF \<open>sane rn a\<close> moves.keeps_status steps(2)])
  moreover have "sane rn d" by (rule move [OF \<open>sane rn b\<close> plain steps(3)]) (simp add: plain_events_def)
  ultimately have "sane rn e" by (intro move [OF _ plain ev]) (simp_all add: plain_events_def)
  let ?fr = "\<lparr>rf_run = run, rf_question = ru_question row, rf_plan = plan, rf_marker = marker, rf_locks = lk\<rparr>"
  have "ends_at rn ?fr (sound_end rn run) (proposal_phase rn inp ?fr (earlier_recoveries events)) e"
    by (rule proposal_ends [OF seats]) (simp_all add: lk may)
  with last \<open>sane rn e\<close> show ?thesis
    unfolding ends_at_def by (intro exI [of _ ?fr]) simp
qed

section \<open>The document and the stored run\<close>

lemma end_run_facts:
  assumes "end_run rn fr now nd w1 = (Inr (Some v), w')"
  obtains res where "v = JObj res"
    and "build_result rn (wd_store w1) (rf_run fr) (rf_question fr) (rf_plan fr) nd = Inr res"
    and "finish_run (en_shaj (env_of rn)) (en_url (env_of rn)) (rf_run fr) (JObj res) now (wd_store w1)
      = (Inr (), wd_store w')"
  using assms
  by (auto simp: end_run_def finish_engine_run_def with_store_def sbind_eq_Inr in_store_eq)

lemma result_fields:
  assumes "build_result rn db run q plan nd = Inr res"
  shows "get_or_null res ''status'' = JStr (nd_status nd)" and "get_or_null res ''answer'' = opt_str (nd_answer nd)"
    and "\<exists>m. get_or_null res ''membership'' = JObj m
      \<and> get_or_null m ''successful_proposals'' = JInt (int (length (nd_proposals nd)))
      \<and> get_or_null m ''valid_juries'' = JInt (int (length (valid_records (nd_records nd))))"
    and "res \<noteq> []"
  using assms by (auto simp: build_result_def Let_def rbind_eq_Inr get_or_null_def)

lemma finish_run_row:
  assumes "finish_run shaj url run (JObj res) now db = (Inr (), db')" and "get_or_null res ''status'' = JStr s"
  shows "\<exists>row. find_run_row db' run = Some row \<and> ru_status row = s \<and> ru_result row = Some (canon (JObj res))"
proof -
  let ?f = "\<lambda>r. r\<lparr>ru_result := Some (canon (JObj res)), ru_result_sha := Some (shaj (canon (JObj res))),
     ru_status := s, ru_error := None, ru_updated := now, ru_finished := Some now\<rparr>"
  obtain n db1 where t: "terminal_result url (JObj res) = Inr (s, n)"
      and u: "update_run run ?f db = Inr db1" and "cd_runs db' = cd_runs db1"
    using assms by (auto simp: finish_run_def write_txn_eq terminal_result_def required_text_def result_simps
        add_event_def split: sum.splits)
  then have runs: "cd_runs db' = update_where (\<lambda>r. ru_id r = run) ?f (cd_runs db)"
      and "count_where (\<lambda>r. ru_id r = run) (cd_runs db) = 1"
    by (auto simp: update_run_def split: if_splits)
  then obtain row where row: "row_where (\<lambda>r. ru_id r = run) (cd_runs db) = Some row"
    by (cases "row_where (\<lambda>r. ru_id r = run) (cd_runs db)") (auto simp: row_where_None count_where_def filter_empty_conv)
  then have "row_where (\<lambda>r. ru_id r = run) (cd_runs db') = Some (?f row)"
    unfolding runs using row_where_update [of "\<lambda>r. ru_id r = run" ?f "\<lambda>r. ru_id r = run" "cd_runs db"]
    by (auto dest: row_where_Some)
  then show ?thesis by (simp add: find_run_row_def)
qed

end
