(* ===== verification/Run_Properties.thy ===== *)
theory Run_Properties imports Run_Endings Engine_Properties Config_Properties Workload_Properties begin

text \<open>The properties of a run: what it has fixed, what it spends, whom it asks.\<close>

section \<open>An example\<close>

text \<open>A run whose candidates and judgments are locked.\<close>

definition judged_run :: "unit run_env" where
  "judged_run = \<lparr>rn_engine = (example_engine None)\<lparr>
       eg_env := \<lparr>en_sha = (\<lambda>s. s), en_shaj = (\<lambda>_. ''h''), en_url = (\<lambda>_. (False, []))\<rparr>, eg_policy := default_policy\<lparr>rp_proposal_quorum := 1,
       rp_jury_quorum := 1, rp_min_lineages := 1\<rparr>\<rparr>,
     rn_codec = plan_codec, rn_conv = ce_conv plain_env, rn_shuffle = (\<lambda>_ xs. xs),
     rn_fresh = (\<lambda>_ _. ''0123456789abcdef'')\<rparr>"

definition seat_lock :: jobj where
  "seat_lock = [(''name'', JStr ''p''), (''model'', JStr ''m''), (''lineage'', JStr ''l''),
     (''secret_name'', JStr ''s''), (''endpoint'', JStr ''e''), (''max_output_tokens'', JInt 10),
     (''timeout_seconds'', JInt 5), (''max_attempts'', JInt 1)]"

definition judged_record :: jobj where
  "judged_record = [(''winner'', JStr ''p''), (''ranking'', JList [JStr ''p'']), (''confidence'', JStr ''high''),
     (''abstain'', JBool False), (''rationale'', JStr ''r''), (''material_disagreements'', JList []),
     (''verification_needed'', JList []), (''juror'', JStr ''p''),
     (''mapping'', JObj [(''CANDIDATE_01'', JStr ''p'')]), (''presentation_order'', JList [JStr ''CANDIDATE_01'']),
     (''valid'', JBool True)]"

definition demo_event :: council_op where
  "demo_event = AppendEvent ''u1'' (JStr ''candidate_namespace_locked'') (JObj [(''version'', JInt 1),
     (''candidate_label_mapping'', JObj [(''CANDIDATE_01'', JStr ''p'')]), (''proposal_failures'', JList [])]) 2"

definition judged_ops :: "council_op list" where
  "judged_ops =
     [CreateRun (JStr ''q'') (JStr ''independent-jury'') (JStr ''1.3.0-beta'') (JStr ''h'')
        (JList [JObj seat_lock]) (JObj [(''proposal_quorum'', JInt 1), (''jury_quorum'', JInt 1),
           (''min_lineages'', JInt 1)]) None None ''u1'' 1,
      demo_event,
      AppendEvent ''u1'' (JStr ''adjudication_locked'') (JObj [(''version'', JInt 1),
        (''candidate_label_mapping'', JObj [(''CANDIDATE_01'', JStr ''p'')]),
        (''jury_records'', JList [JObj judged_record]), (''jury_failures'', JList [])]) 3]"

definition judged_db :: council_db where
  "judged_db = council_run (env_of judged_run) empty_council_db judged_ops"

definition judged_facts :: "run_row \<Rightarrow> bool" where
  "judged_facts r \<longleftrightarrow> ru_id r = ''u1'' \<and> ru_protocol r = ''independent-jury'' \<and> ru_protocol_hash r = ''h''
     \<and> validate_provider_lock judged_run (ru_configs r) = Inr () \<and> validate_policy_lock judged_run (ru_policy r) = Inr ()"

lemma judged_found: "(case find_run_row judged_db ''u1'' of None \<Rightarrow> False | Some r \<Rightarrow> judged_facts r)"
  by code_simp

lemma judged_loads:
  "load_synthesis_fallback_state judged_run judged_db ''u1'' (list_events judged_db ''u1'') = Inr (1, [])"
  "load_candidate_namespace_lock judged_run ''u1'' (list_events judged_db ''u1'')
    = Inr (Some \<lparr>nl_mapping = [(''CANDIDATE_01'', ''p'')], nl_failures = []\<rparr>)"
  "(case load_adjudication_lock judged_run (Some \<lparr>nl_mapping = [(''CANDIDATE_01'', ''p'')], nl_failures = []\<rparr>)
      (list_events judged_db ''u1'') of Inr (Some al) \<Rightarrow> True | _ \<Rightarrow> False)"
  by code_simp+

lemma judged_hash: "protocol_hash (en_shaj (env_of judged_run)) = ''h''"
  by (simp add: protocol_hash_def judged_run_def)

lemma judged_locks:
  assumes "find_run_row judged_db ''u1'' = Some row"
  shows "\<exists>lk. checked_locks judged_run judged_db row = Inr lk \<and> lk_adjudication lk \<noteq> None"
proof -
  have row: "judged_facts row" using judged_found assms by simp
  obtain al where "load_adjudication_lock judged_run (Some \<lparr>nl_mapping = [(''CANDIDATE_01'', ''p'')], nl_failures = []\<rparr>)
      (list_events judged_db ''u1'') = Inr (Some al)"
    using judged_loads(3) by (auto split: sum.splits option.splits)
  with row show ?thesis
    by (simp add: checked_locks_def judged_facts_def judged_loads(1,2) judged_hash)
qed

definition judged_world :: "unit world" where
  "judged_world = \<lparr>wd_store = judged_db, wd_gate = (), wd_calls = []\<rparr>"

definition judged_inputs :: run_inputs where
  "judged_inputs = (let st = (example_inputs 9 [''p'', ''p'', ''p''], example_inputs 9 [], 5) in
     \<lparr>ri_marker = ''0123456789abcdef'', ri_now = (\<lambda>_. 5), ri_proposal = st, ri_jury = st, ri_repair = st,
      ri_synthesis = (\<lambda>_. st), ri_before = False, ri_late = (\<lambda>_. False), ri_over = (\<lambda>_. False)\<rparr>)"

lemma judged_reachable:
  "wd_store judged_world = council_run (env_of judged_run) empty_council_db judged_ops"
  by (simp add: judged_world_def judged_db_def)

lemma judged_seats: "wf_dict (eg_providers (rn_engine judged_run))"
  by (simp add: judged_run_def example_engine_def wf_dict_def)

lemma judged_resumed:
  "resume_run judged_run judged_inputs ''u1'' judged_world
   = (fst (resume_run judged_run judged_inputs ''u1'' judged_world),
      snd (resume_run judged_run judged_inputs ''u1'' judged_world))"
  by simp

section \<open>What a run has fixed\<close>

text \<open>C4: What a run has fixed stays fixed.  Let the locks of a run be accepted at some moment, and accepted
  again after any operations on the store, by this or other processes.  The candidates, their labels
  and the frozen proposal failures are then the same as before, so are the judgments once they were
  adjudicated, and the position in the synthesis chain has not gone back.\<close>

theorem run_locks_permanent:
  assumes reach: "db = council_run en empty_council_db before"
    and first: "checked_locks rn db row = Inr lk"
    and later: "checked_locks rn (council_run en db ops) row' = Inr lk'" and same: "ru_id row' = ru_id row"
  shows "(\<forall>nl. lk_namespace lk = Some nl \<longrightarrow> lk_namespace lk' = Some nl)
    \<and> (\<forall>al. lk_adjudication lk = Some al \<longrightarrow> lk_adjudication lk' = Some al)
    \<and> lk_position lk \<le> lk_position lk'"
proof -
  let ?db' = "council_run en db ops" and ?run = "ru_id row"
  have good: "council_good db" "council_good ?db'"
    using council.run_good [OF empty_council_good] council.run_good by (simp_all add: reach council_run_def)
  have kept: "events_kept db ?db'" unfolding council_run_def by (rule events.run_le [OF good(1)])
  note p = checked_locks_parts [OF first] and q = checked_locks_parts [OF later, unfolded same]
  have namespace: "lk_namespace lk' = Some nl" if nl: "lk_namespace lk = Some nl" for nl
  proof -
    obtain e where e: "events_of ''candidate_namespace_locked'' (list_events db ?run) = [e]"
      using single_event [OF p(1) [unfolded nl]] by blast
    have "events_of ''candidate_namespace_locked'' (list_events ?db' ?run) \<noteq> []"
      using events_of_count [OF good kept, of "''candidate_namespace_locked''" ?run] e by auto
    then have "lk_namespace lk' \<noteq> None"
      using q(1) no_lock(1) by metis
    then obtain nl' where nl': "lk_namespace lk' = Some nl'" by blast
    obtain e' where e': "events_of ''candidate_namespace_locked'' (list_events ?db' ?run) = [e']"
      using single_event [OF q(1) [unfolded nl']] by blast
    have "e' = e" by (rule locked_event_kept [OF kept _ e e']) simp
    then show ?thesis using p(1) q(1) e e' nl nl' by (simp add: load_candidate_namespace_lock_def)
  qed
  have "lk_adjudication lk' = Some al" if al: "lk_adjudication lk = Some al" for al
  proof -
    obtain e where e: "events_of ''adjudication_locked'' (list_events db ?run) = [e]"
      using single_adjudication [OF p(2) [unfolded al]] by blast
    have "lk_namespace lk \<noteq> None"
    proof
      assume "lk_namespace lk = None"
      with p(2) al e show False by (simp add: load_adjudication_lock_def)
    qed
    then have ns: "lk_namespace lk' = lk_namespace lk" using namespace by force
    have "events_of ''adjudication_locked'' (list_events ?db' ?run) \<noteq> []"
      using events_of_count [OF good kept, of "''adjudication_locked''" ?run] e by auto
    then have "lk_adjudication lk' \<noteq> None"
      using q(2) no_lock(2) by metis
    then obtain al' where al': "lk_adjudication lk' = Some al'" by blast
    obtain e' where e': "events_of ''adjudication_locked'' (list_events ?db' ?run) = [e']"
      using single_adjudication [OF q(2) [unfolded al']] by blast
    have "e' = e" by (rule locked_event_kept [OF kept _ e e']) simp
    then show ?thesis using p(2) q(2) e e' al al' ns by (simp add: load_adjudication_lock_def)
  qed
  moreover have "lk_position lk \<le> lk_position lk'"
    using fallback_position [OF p(3)] fallback_position [OF q(3)]
      events_of_count [OF good kept, of "''synthesis_fallback_advanced''" ?run] by simp
  ultimately show ?thesis using namespace by blast
qed

theorem run_locks_permanent_witness:
  "\<exists>row lk lk'. checked_locks judged_run judged_db row = Inr lk \<and> lk_adjudication lk \<noteq> None
    \<and> checked_locks judged_run (council_run (env_of judged_run) judged_db []) row = Inr lk'
    \<and> lk_adjudication lk' = lk_adjudication lk"
proof -
  obtain row where row: "find_run_row judged_db ''u1'' = Some row"
    using judged_found by (auto split: option.splits)
  obtain lk where lk: "checked_locks judged_run judged_db row = Inr lk" "lk_adjudication lk \<noteq> None"
    using judged_locks [OF row] by blast
  have later: "checked_locks judged_run (council_run (env_of judged_run) judged_db []) row = Inr lk"
    using lk(1) by (simp add: council_run_def)
  from run_locks_permanent [OF judged_db_def lk(1) later refl] lk later show ?thesis by blast
qed

section \<open>What a run spends, and whom it asks\<close>

text \<open>C2: A run never spends more than its call budget, however often it is interrupted.  Whatever a
  resumption meets, and wherever it stops, the provider calls on record for the run are at most the
  configured maximum afterwards, unless they were more before; so the sum over all stages and all
  resumptions is bounded by \<open>max_calls\<close>.\<close>

theorem run_within_budget:
  assumes reach: "wd_store w = council_run (env_of rn) empty_council_db before"
    and seats: "wf_dict (eg_providers (rn_engine rn))" and "resume_run rn inp run w = (r, w')"
  shows "count_calls (wd_store w') run \<le> max (count_calls (wd_store w) run) (rp_max_calls (pol_of rn))"
proof -
  have "run_moves rn run (insert ''proposal'' (insert ''synthesis'' UNIV)) w (snd (resume_run rn inp run w))"
  proof (rule moves.keeps_resume [OF seats])
    fix row lk
    assume "checked_locks rn (wd_store w) row = Inr lk"
    from locks_fixed [OF this] show "moves.may_judge UNIV lk \<and> moves.may_fix lk"
      unfolding moves.may_judge_def moves.may_fix_def by (simp split: option.splits)
  qed
  then show ?thesis
    using seats reachable_world [OF reach] assms(3) by (simp add: run_moves_def)
qed

theorem run_within_budget_witness:
  "count_calls (wd_store (snd (resume_run judged_run judged_inputs ''u1'' judged_world))) ''u1''
   \<le> max (count_calls judged_db ''u1'') 16"
  using run_within_budget [OF judged_reachable judged_seats judged_resumed]
  by (simp add: judged_run_def judged_world_def default_policy_def)

text \<open>C3: An adjudicated run asks no juror again.  Once the judgments of a run are adjudicated, a
  resumption calls providers only for proposals and for the synthesis: it judges nothing anew and
  repairs nothing, whatever happens in it.\<close>

theorem adjudicated_run_asks_no_juror:
  assumes reach: "wd_store w = council_run (env_of rn) empty_council_db before"
    and seats: "wf_dict (eg_providers (rn_engine rn))"
    and locks: "\<And>row. find_run_row (wd_store w) run = Some row \<Longrightarrow>
      \<exists>lk. checked_locks rn (wd_store w) row = Inr lk \<and> lk_adjudication lk \<noteq> None"
    and "resume_run rn inp run w = (r, w')"
  shows "\<exists>new. wd_calls w' = wd_calls w @ new \<and> (\<forall>d\<in>set new. dp_stage d \<in> {''proposal'', ''synthesis''})"
proof -
  have "run_moves rn run (insert ''proposal'' (insert ''synthesis'' {})) w (snd (resume_run rn inp run w))"
  proof (rule moves.keeps_resume [OF seats])
    fix row lk
    assume "find_run_row (wd_store w) run = Some row" and lk: "checked_locks rn (wd_store w) row = Inr lk"
    then show "moves.may_judge {} lk \<and> moves.may_fix lk"
      using locks [of row] locks_fixed [OF lk]
      by (auto simp: moves.may_judge_def moves.may_fix_def split: option.splits)
  qed
  then show ?thesis
    using seats reachable_world [OF reach] assms(4) by (simp add: run_moves_def) blast
qed

theorem adjudicated_run_asks_no_juror_witness:
  "dp_stage ` set (wd_calls (snd (resume_run judged_run judged_inputs ''u1'' judged_world)))
     \<subseteq> {''proposal'', ''synthesis''}"
proof -
  have "\<exists>lk. checked_locks judged_run (wd_store judged_world) row = Inr lk \<and> lk_adjudication lk \<noteq> None"
    if "find_run_row (wd_store judged_world) ''u1'' = Some row" for row
    using judged_locks that by (simp add: judged_world_def)
  from adjudicated_run_asks_no_juror [OF judged_reachable judged_seats this judged_resumed] show ?thesis
    by (auto simp: judged_world_def)
qed

section \<open>Unknown outcomes\<close>

text \<open>C6: A call whose outcome is unknown is never repeated.  Let a stage of a run call a provider and break
  off, or end, anywhere; let any further stages and resumptions of the run follow, in any number, with
  any providers, policy and prompts, and any operations of the store that change no invocation.  Unless
  the store held a definite failure of the call when its stage stopped, the call is not made again: with
  an unknown outcome the provider is not called any more in the run, and once it has answered it is not
  called any more in that stage.\<close>

theorem unknown_call_never_repeated:
  assumes reach: "wd_store w = council_run (eg_env eg) empty_council_db before"
    and wf: "wf_dict (eg_providers eg)" "wf_dict prompts"
    and stage: "run_parallel_stage eg args prompts first second now w = (r, w1)"
    and called: "d \<in> set (drop (length (wd_calls w)) (wd_calls w1))"
    and later: "continues (eg_env eg) (sa_run args) w1 w2"
  shows "\<exists>row. slot_at (wd_store w1) (sa_run args) (sa_stage args) (dp_provider d) = Some row
    \<and> ((iv_status row = FAILED \<and> \<not> error_is_ambiguous row)
       \<or> (iv_status row = SUCCEEDED \<and> (\<forall>d'\<in>set (drop (length (wd_calls w1)) (wd_calls w2)).
            dp_provider d' = dp_provider d \<longrightarrow> dp_stage d' \<noteq> sa_stage args))
       \<or> dp_provider d \<notin> dp_provider ` set (drop (length (wd_calls w1)) (wd_calls w2)))"
proof -
  note good = reachable_world [OF reach]
  have "store_moves (eg_env eg) w w1"
    using stage_world(1) [OF good wf stage] by (simp add: world_ok_def)
  then have good1: "council_good (wd_store w1)" by (rule store_moves_good [OF _ good])
  have "on_record (wd_store w1) (stage_place args (dp_provider d))"
    using stage_world(2) [OF good wf stage] called by (auto simp: pass_calls_def)
  from on_record_at [OF good1 this [unfolded stage_place_def]] obtain row where
      row: "slot_at (wd_store w1) (sa_run args) (sa_stage args) (dp_provider d) = Some row"
    by blast
  note mem = slot_at_mem [OF row]
  have free: "\<not> barred (wd_store w1) (sa_run args) d'"
    if "d' \<in> set (drop (length (wd_calls w1)) (wd_calls w2))" for d'
    using continues_guarded [OF later good1] that by (auto simp: guarded_def)
  have "unknown_at (wd_store w1) (iv_id row) (sa_run args, sa_stage args, dp_provider d)"
    if "outcome_unknown row"
    using that mem find_slot_of [OF good1] by (auto simp: unknown_at_def slot_place_def)
  then have one: "dp_provider d \<notin> dp_provider ` set (drop (length (wd_calls w1)) (wd_calls w2))"
    if "outcome_unknown row"
    using that free by (auto simp: barred_def)
  have "get_successful_invocation (wd_store w1) (sa_run args) (sa_stage args) (dp_provider d) \<noteq> None"
    if "iv_status row = SUCCEEDED"
    using that mem by (auto simp: get_successful_invocation_def row_where_None)
  then have "\<forall>d'\<in>set (drop (length (wd_calls w1)) (wd_calls w2)).
      dp_provider d' = dp_provider d \<longrightarrow> dp_stage d' \<noteq> sa_stage args" if "iv_status row = SUCCEEDED"
    using that free unfolding barred_def by metis
  with row one show ?thesis
    by (cases "iv_status row") (auto simp: outcome_unknown_def)
qed

definition resumed_stage :: "(stage_acc option result) \<times> unit world" where
  "resumed_stage = run_parallel_stage (example_engine None) example_args example_work
     (example_inputs 9 [''p'', ''p'', ''p'']) (example_inputs 9 []) 3 (snd crashed_stage)"

theorem unknown_call_never_repeated_witness:
  "\<exists>row. slot_at (wd_store (snd crashed_stage)) ''u1'' ''s'' ''p'' = Some row
    \<and> ((iv_status row = FAILED \<and> \<not> error_is_ambiguous row) \<or> iv_status row = SUCCEEDED
       \<or> ''p'' \<notin> dp_provider ` set (drop (length (wd_calls (snd crashed_stage))) (wd_calls (snd resumed_stage))))"
proof -
  have r: "run_parallel_stage (example_engine None) example_args example_work
      (example_inputs 9 [''p'', ''p'', ''p'']) (example_inputs 9 []) 3 (example_world ())
    = (fst crashed_stage, snd crashed_stage)" by (simp add: crashed_stage_def)
  have r2: "run_parallel_stage (example_engine None) example_args example_work
      (example_inputs 9 [''p'', ''p'', ''p'']) (example_inputs 9 []) 3 (snd crashed_stage)
    = (fst resumed_stage, snd resumed_stage)" by (simp add: resumed_stage_def)
  have later: "continues (eg_env (example_engine None :: unit engine)) (sa_run example_args)
      (snd crashed_stage) (snd resumed_stage)"
    by (rule continues.stage [OF continues.here refl refl example_wf r2])
  obtain d where d: "wd_calls (snd crashed_stage) = [d]" "dp_provider d = ''p''"
    using crashed_calls by auto
  then have "d \<in> set (drop (length (wd_calls (example_world ()))) (wd_calls (snd crashed_stage)))"
    by (simp add: example_world_def)
  from unknown_call_never_repeated [OF example_store example_wf r this later] show ?thesis
    using d(2) by (auto simp: example_args_def)
qed

section \<open>How a run ends\<close>

lemma resume_cases:
  assumes "resume_run rn inp run w = (Inr (Some v), w')"
  obtains row lk where "find_run_row (wd_store w) run = Some row" and "ru_id row = run"
    and "checked_locks rn (wd_store w) row = Inr lk"
    and "stored_result row = Some v \<and> w' = w
      \<or> stored_result row = None \<and> continue_run rn inp row (list_events (wd_store w) run) lk w = (Inr (Some v), w')"
proof -
  obtain row where row: "find_run_row (wd_store w) run = Some row"
    using assms by (auto simp: resume_run_def with_store_def get_run_def split: option.splits)
  moreover have "ru_id row = run" using row by (auto simp: find_run_row_def dest: row_where_Some)
  moreover obtain lk where lk: "checked_locks rn (wd_store w) row = Inr lk"
    using assms row by (auto simp: resume_run_def with_store_def get_run_def sbind_eq_Inr)
  ultimately show ?thesis
    using that assms by (auto simp: resume_run_def with_store_def get_run_def sbind_def split: option.splits)
qed

lemma stored_result_final:
  assumes "find_run_row (wd_store w) run = Some row" and "stored_result row = Some v"
  shows "snd (resume_run rn inp run w) = w
    \<and> (\<forall>x. fst (resume_run rn inp run w) = Inr x \<longrightarrow> x = Some v)"
  using assms by (auto simp: resume_run_def with_store_def get_run_def sbind_def split: sum.splits)

lemma locks_count:
  assumes "checked_locks rn db row = Inr lk"
  shows "lock_counts rn lk"
proof -
  have "enough_judgments rn (al_records al)" if "lk_adjudication lk = Some al" for al
  proof -
    have "\<exists>mp rs fs. check_adjudication rn mp rs fs = Inr al"
      using checked_locks_parts(2) [OF assms] that
      by (auto simp: load_adjudication_lock_def result_simps split: list.splits option.splits json.splits)
    then obtain mp rs fs where "check_adjudication rn mp rs fs = Inr al" by blast
    then have "rp_jury_quorum (pol_of rn) \<le> int (card (juror_of ` set (valid_records (al_records al))))"
      by (auto simp: check_adjudication_def result_simps Let_def)
    moreover have "card (juror_of ` set (valid_records (al_records al))) \<le> length (valid_records (al_records al))"
      by (metis card_length length_map set_map)
    ultimately show ?thesis by (simp add: enough_judgments_def)
  qed
  then show ?thesis by (simp add: lock_counts_def)
qed

lemma canon_truthy: "res \<noteq> [] \<Longrightarrow> truthy (canon (JObj res))"
  by simp (metis length_0_conv length_map length_sort)

text \<open>C1: What a run returns is what it stores, and a completed run is sound and final.  When a resumption
  returns a document, either the run was complete before and nothing has changed, or the document is the
  stored result of the run and names its status.  A run is only completed with an answer that is, word for
  word, the response on record for the succeeded synthesis call of a provider of its chain, with at least
  the quorum of proposals, and with at least the quorum of valid judgments.  From then on every resumption leaves everything as it is,
  and returns exactly this result unless a lock check refuses it.\<close>

theorem completed_run_sound_and_final:
  assumes reach: "wd_store w = council_run (env_of rn) empty_council_db before"
    and seats: "wf_dict (eg_providers (rn_engine rn))"
    and run: "resume_run rn inp run w = (Inr (Some v), w')"
  shows "(w' = w \<and> (\<exists>row. find_run_row (wd_store w) run = Some row \<and> stored_result row = Some v))
    \<or> (\<exists>res row. v = JObj res \<and> find_run_row (wd_store w') run = Some row
        \<and> ru_result row = Some (canon v) \<and> get_or_null res ''status'' = JStr (ru_status row)
        \<and> ru_status row \<in> {''completed'', ''partial'', ''failed''}
        \<and> (ru_status row = ''completed'' \<longrightarrow>
             (\<exists>answer name. get_or_null res ''answer'' = JStr answer \<and> answered_by rn run w' name answer)
           \<and> (\<exists>m n k. get_or_null res ''membership'' = JObj m
                \<and> get_or_null m ''successful_proposals'' = JInt n \<and> rp_proposal_quorum (pol_of rn) \<le> n
                \<and> get_or_null m ''valid_juries'' = JInt k \<and> rp_jury_quorum (pol_of rn) \<le> k)
           \<and> (\<forall>rn' inp'. snd (resume_run rn' inp' run w') = w'
                \<and> (\<forall>x. fst (resume_run rn' inp' run w') = Inr x \<longrightarrow> x = Some (canon v)))))"
proof -
  obtain row lk where row: "find_run_row (wd_store w) run = Some row" "ru_id row = run"
    and lk: "checked_locks rn (wd_store w) row = Inr lk"
    and how: "stored_result row = Some v \<and> w' = w
      \<or> stored_result row = None \<and> continue_run rn inp row (list_events (wd_store w) run) lk w = (Inr (Some v), w')"
    by (rule resume_cases [OF run])
  show ?thesis
  proof (cases "stored_result row")
    case (Some u)
    then show ?thesis using how row by auto
  next
    case None
    with how have go: "continue_run rn inp row (list_events (wd_store w) run) lk w = (Inr (Some v), w')" by simp
    have may: "moves.may_fix lk"
      using locks_fixed [OF lk] by (simp add: moves.may_fix_def split: option.splits)
    have sane: "sane rn w" using seats reachable_world [OF reach] by (simp add: sane_def)
    obtain fr nd now w1 where fr: "rf_run fr = run" and w1: "sane rn w1" and nd: "sound_end rn run nd w1"
      and last: "end_run rn fr now nd w1 = (Inr (Some v), w')"
      using continue_ends [OF seats row(2) locks_count [OF lk] may go sane] by blast
    obtain res where v: "v = JObj res"
      and res: "build_result rn (wd_store w1) run (rf_question fr) (rf_plan fr) nd = Inr res"
      and fin: "finish_run (en_shaj (env_of rn)) (en_url (env_of rn)) run (JObj res) now (wd_store w1)
        = (Inr (), wd_store w')"
      using end_run_facts [OF last] fr by metis
    note fields = result_fields [OF res]
    obtain row' where row': "find_run_row (wd_store w') run = Some row'" "ru_status row' = nd_status nd"
        "ru_result row' = Some (canon v)"
      using finish_run_row [OF fin fields(1)] v by blast
    have "store_moves (env_of rn) w1 w'"
      by (rule store_movesI [of _ _ _ "FinishRun run (JObj res) now"]) (simp add: fin)
    then have answered: "answered_by rn run w' name answer" if "answered_by rn run w1 name answer" for name answer
      using that w1 success_same [of w1 "env_of rn" w'] unfolding answered_by_def sane_def by blast
    have final: "snd (resume_run rn' inp' run w') = w'
        \<and> (\<forall>x. fst (resume_run rn' inp' run w') = Inr x \<longrightarrow> x = Some (canon v))"
      if "ru_status row' = ''completed''" for rn' :: "'a run_env" and inp'
      using stored_result_final [OF row'(1)] row'(3) that canon_truthy [OF fields(4)] v
      by (simp add: stored_result_def)
    obtain m where m: "get_or_null res ''membership'' = JObj m"
        "get_or_null m ''successful_proposals'' = JInt (int (length (nd_proposals nd)))"
        "get_or_null m ''valid_juries'' = JInt (int (length (valid_records (nd_records nd))))"
      using fields(3) by blast
    have "(\<exists>answer name. get_or_null res ''answer'' = JStr answer \<and> answered_by rn run w' name answer)
        \<and> rp_proposal_quorum (pol_of rn) \<le> int (length (nd_proposals nd))
        \<and> rp_jury_quorum (pol_of rn) \<le> int (length (valid_records (nd_records nd)))"
      if complete: "nd_status nd = ''completed''"
    proof -
      obtain name answer where "nd_answer nd = Some answer" "answered_by rn run w1 name answer"
        using nd complete by (auto simp: sound_end_def)
      with answered fields(2) have "get_or_null res ''answer'' = JStr answer" "answered_by rn run w' name answer"
        by (simp_all add: opt_str_def)
      then show ?thesis
        using nd complete by (auto simp: sound_end_def enough_proposals_def enough_judgments_def)
    qed
    moreover have "nd_status nd \<in> {''completed'', ''partial'', ''failed''}" using nd by (simp add: sound_end_def)
    ultimately show ?thesis
      using v row' fields(1) m final by (intro disjI2 exI [of _ res] exI [of _ row']) auto
  qed
qed

text \<open>The judged run, after it was completed.\<close>

definition finished_ops :: "council_op list" where
  "finished_ops = judged_ops @ [FinishRun ''u1'' (JObj [(''status'', JStr ''completed'')]) 4]"

definition finished_db :: council_db where
  "finished_db = council_run (env_of judged_run) empty_council_db finished_ops"

lemma finished_found:
  "(case find_run_row finished_db ''u1'' of None \<Rightarrow> False | Some r \<Rightarrow> judged_facts r
     \<and> stored_result r = Some (JObj [(''status'', JStr ''completed'')]))"
  by code_simp

lemma finished_loads:
  "load_synthesis_fallback_state judged_run finished_db ''u1'' (list_events finished_db ''u1'') = Inr (1, [])"
  "load_candidate_namespace_lock judged_run ''u1'' (list_events finished_db ''u1'')
    = Inr (Some \<lparr>nl_mapping = [(''CANDIDATE_01'', ''p'')], nl_failures = []\<rparr>)"
  "(case load_adjudication_lock judged_run (Some \<lparr>nl_mapping = [(''CANDIDATE_01'', ''p'')], nl_failures = []\<rparr>)
      (list_events finished_db ''u1'') of Inr (Some al) \<Rightarrow> True | _ \<Rightarrow> False)"
  by code_simp+

theorem completed_run_sound_and_final_witness:
  "\<exists>w row. resume_run judged_run judged_inputs ''u1'' w = (Inr (Some (JObj [(''status'', JStr ''completed'')])), w)
    \<and> find_run_row (wd_store w) ''u1'' = Some row \<and> stored_result row = Some (JObj [(''status'', JStr ''completed'')])"
proof -
  let ?w = "\<lparr>wd_store = finished_db, wd_gate = (), wd_calls = []\<rparr>" and ?v = "JObj [(''status'', JStr ''completed'')]"
  obtain row where row: "find_run_row finished_db ''u1'' = Some row" "judged_facts row" "stored_result row = Some ?v"
    using finished_found by (auto split: option.splits)
  obtain al where "load_adjudication_lock judged_run (Some \<lparr>nl_mapping = [(''CANDIDATE_01'', ''p'')], nl_failures = []\<rparr>)
      (list_events finished_db ''u1'') = Inr (Some al)"
    using finished_loads(3) by (auto split: sum.splits option.splits)
  with row(2) have "\<exists>lk. checked_locks judged_run finished_db row = Inr lk"
    by (simp add: checked_locks_def judged_facts_def finished_loads(1,2) judged_hash)
  with row have r: "resume_run judged_run judged_inputs ''u1'' ?w = (Inr (Some ?v), ?w)"
    by (auto simp: resume_run_def with_store_def get_run_def sbind_def)
  have reach: "wd_store ?w = council_run (env_of judged_run) empty_council_db finished_ops"
    by (simp add: finished_db_def)
  from completed_run_sound_and_final [OF reach judged_seats r]
  have "\<exists>row. find_run_row (wd_store ?w) ''u1'' = Some row \<and> stored_result row = Some ?v"
  proof (elim disjE exE conjE)
    fix res :: jobj and row'
    assume v: "?v = JObj res" and found: "find_run_row (wd_store ?w) ''u1'' = Some row'" "ru_result row' = Some (canon ?v)"
      "get_or_null res ''status'' = JStr (ru_status row')"
    moreover from v have "res = [(''status'', JStr ''completed'')]" by simp
    ultimately show ?thesis by (simp add: stored_result_def get_or_null_def)
  qed blast
  with r show ?thesis by blast
qed

end
