(* ===== verification/Run_Lock.thy ===== *)
theory Run_Lock imports Run_Properties begin

text \<open>
  \<open>run_lock.py\<close>: the lock of a run and the lock of a data directory.  Both are \<open>flock\<close> locks on a file
  of the data directory; the operating system keeps them in a table of open descriptors and gives a lock
  back when its descriptor is closed.  Directories, modes and symbolic links are what the constructors
  are told about them.
\<close>

section \<open>Locks of the operating system\<close>

text \<open>The open descriptors with their files, those among them that hold the lock of their file, and the
  next descriptor.\<close>

record lock_table =
  lt_open :: "(nat \<times> string) list"
  lt_held :: "(nat \<times> string) list"
  lt_next :: nat

definition open_file :: "string \<Rightarrow> lock_table \<Rightarrow> nat \<times> lock_table" where
  "open_file path t = (lt_next t, t\<lparr>lt_open := (lt_next t, path) # lt_open t, lt_next := Suc (lt_next t)\<rparr>)"

definition close_file :: "nat \<Rightarrow> lock_table \<Rightarrow> lock_table" where
  "close_file d t = t\<lparr>lt_open := filter (\<lambda>e. fst e \<noteq> d) (lt_open t), lt_held := filter (\<lambda>e. fst e \<noteq> d) (lt_held t)\<rparr>"

text \<open>\<open>flock(d, LOCK_EX | LOCK_NB)\<close>: \<open>None\<close> is \<open>BlockingIOError\<close>.\<close>

definition flock :: "nat \<Rightarrow> string \<Rightarrow> lock_table \<Rightarrow> lock_table option" where
  "flock d path t =
     (if list_ex (\<lambda>e. snd e = path \<and> fst e \<noteq> d) (lt_held t) then None
      else Some (t\<lparr>lt_held := (d, path) # filter (\<lambda>e. fst e \<noteq> d) (lt_held t)\<rparr>))"

definition funlock :: "nat \<Rightarrow> lock_table \<Rightarrow> lock_table" where
  "funlock d t = t\<lparr>lt_held := filter (\<lambda>e. fst e \<noteq> d) (lt_held t)\<rparr>"

section \<open>The two locks\<close>

record file_lock =
  fl_path :: string
  fl_descriptor :: "nat option"

text \<open>\<open>RunLock.__init__\<close>.\<close>

definition new_run_lock :: "(string \<Rightarrow> string) \<Rightarrow> string \<Rightarrow> string \<Rightarrow> file_lock" where
  "new_run_lock sha dir run =
     \<lparr>fl_path = dir @ ''/locks/'' @ sha run @ ''.lock'', fl_descriptor = None\<rparr>"

text \<open>\<open>ServiceLock.__init__\<close>, told whether the directories are symbolic links.\<close>

definition new_service_lock :: "string \<Rightarrow> bool \<Rightarrow> bool \<Rightarrow> file_lock result" where
  "new_service_lock dir dir_link locks_link =
     require (\<not> dir_link) (ValueError ''service data directory must not be a symlink'')
    (require (\<not> locks_link) (ValueError ''service lock directory must not be a symlink'')
     (Inr \<lparr>fl_path = dir @ ''/locks/council-service.lock'', fl_descriptor = None\<rparr>))"

definition take_file_lock :: "string \<Rightarrow> (file_lock \<times> lock_table, unit) action" where
  "take_file_lock msg = (\<lambda>(l, t). let (d, t1) = open_file (fl_path l) t in
     case flock d (fl_path l) t1 of
       None \<Rightarrow> (Inl (RuntimeError msg), (l, close_file d t1))
     | Some t2 \<Rightarrow> (Inr (), (l\<lparr>fl_descriptor := Some d\<rparr>, t2)))"

text \<open>\<open>RunLock.__enter__\<close> and \<open>ServiceLock.acquire\<close>.\<close>

definition enter_run_lock :: "(file_lock \<times> lock_table, unit) action" where
  "enter_run_lock = take_file_lock ''This council run is already active in another process''"

definition acquire_service_lock :: "(file_lock \<times> lock_table, unit) action" where
  "acquire_service_lock = (\<lambda>(l, t). if fl_descriptor l \<noteq> None then (Inr (), (l, t))
     else take_file_lock ''Another Council process already owns this data directory'' (l, t))"

text \<open>\<open>RunLock.__exit__\<close> and \<open>ServiceLock.release\<close>.\<close>

definition release_file_lock :: "file_lock \<times> lock_table \<Rightarrow> file_lock \<times> lock_table" where
  "release_file_lock = (\<lambda>(l, t). case fl_descriptor l of
     None \<Rightarrow> (l, t)
   | Some d \<Rightarrow> (l\<lparr>fl_descriptor := None\<rparr>, close_file d (funlock d t)))"

section \<open>A run under its lock\<close>

text \<open>\<open>engine.resume\<close>: \<open>with RunLock(...)\<close> around the resumption.\<close>

definition resume ::
  "'g run_env \<Rightarrow> string \<Rightarrow> run_inputs \<Rightarrow> string \<Rightarrow> lock_table \<times> 'g world \<Rightarrow>
   json option result \<times> lock_table \<times> 'g world" where
  "resume rn dir inp run = (\<lambda>(t, w).
     case enter_run_lock (new_run_lock (en_sha (env_of rn)) dir run, t) of
       (Inl e, (_, t')) \<Rightarrow> (Inl e, t', w)
     | (Inr _, s) \<Rightarrow> (case resume_run rn inp run w of
         (r, w') \<Rightarrow> (r, snd (release_file_lock s), w')))"

section \<open>Many processes\<close>

text \<open>The lock objects of all processes on one machine.  A process that ends loses its descriptors.\<close>

record lock_system =
  ls_objects :: "(nat, file_lock) dict"
  ls_table :: lock_table

datatype lock_op =
    NewRunLock nat string string
  | NewServiceLock nat string bool bool
  | EnterRun nat
  | AcquireService nat
  | ReleaseLock nat
  | ProcessEnds "nat list"

definition empty_lock_system :: lock_system where
  "empty_lock_system = \<lparr>ls_objects = [], ls_table = \<lparr>lt_open = [], lt_held = [], lt_next = 0\<rparr>\<rparr>"

definition with_object ::
  "nat \<Rightarrow> (file_lock \<times> lock_table \<Rightarrow> file_lock \<times> lock_table) \<Rightarrow> lock_system \<Rightarrow> lock_system" where
  "with_object i f s = (case dict_get (ls_objects s) i of
     None \<Rightarrow> s
   | Some l \<Rightarrow> (case f (l, ls_table s) of
       (l', t') \<Rightarrow> s\<lparr>ls_objects := dict_set i l' (ls_objects s), ls_table := t'\<rparr>))"

definition add_object :: "nat \<Rightarrow> file_lock \<Rightarrow> lock_system \<Rightarrow> lock_system" where
  "add_object i l s = (if dict_get (ls_objects s) i = None then s\<lparr>ls_objects := ls_objects s @ [(i, l)]\<rparr> else s)"

definition end_process :: "nat \<Rightarrow> lock_system \<Rightarrow> lock_system" where
  "end_process i s = (case dict_get (ls_objects s) i of
     None \<Rightarrow> s
   | Some l \<Rightarrow> s\<lparr>ls_objects := filter (\<lambda>e. fst e \<noteq> i) (ls_objects s),
       ls_table := (case fl_descriptor l of None \<Rightarrow> ls_table s | Some d \<Rightarrow> close_file d (ls_table s))\<rparr>)"

fun lock_step :: "(string \<Rightarrow> string) \<Rightarrow> lock_system \<Rightarrow> lock_op \<Rightarrow> lock_system" where
  "lock_step sha s (NewRunLock i dir run) = add_object i (new_run_lock sha dir run) s"
| "lock_step sha s (NewServiceLock i dir dl ll) =
     (case new_service_lock dir dl ll of Inl e \<Rightarrow> s | Inr l \<Rightarrow> add_object i l s)"
| "lock_step sha s (EnterRun i) = with_object i (\<lambda>x. snd (enter_run_lock x)) s"
| "lock_step sha s (AcquireService i) = with_object i (\<lambda>x. snd (acquire_service_lock x)) s"
| "lock_step sha s (ReleaseLock i) = with_object i release_file_lock s"
| "lock_step sha s (ProcessEnds is) = foldl (\<lambda>u i. end_process i u) s is"

definition lock_run :: "(string \<Rightarrow> string) \<Rightarrow> lock_system \<Rightarrow> lock_op list \<Rightarrow> lock_system" where
  "lock_run sha = foldl (lock_step sha)"

section \<open>What the table and the objects agree on\<close>

definition holds :: "lock_system \<Rightarrow> nat \<Rightarrow> nat \<Rightarrow> string \<Rightarrow> bool" where
  "holds s i d path \<longleftrightarrow>
     (\<exists>l. dict_get (ls_objects s) i = Some l \<and> fl_descriptor l = Some d \<and> fl_path l = path)"

text \<open>The table holds exactly what the objects hold; a descriptor belongs to one object, and so does the
  lock of a file.\<close>

definition locks_ok :: "lock_system \<Rightarrow> bool" where
  "locks_ok s \<longleftrightarrow> wf_dict (ls_objects s)
     \<and> set (lt_held (ls_table s)) = {(d, path). \<exists>i. holds s i d path}
     \<and> set (lt_open (ls_table s)) = {(d, path). \<exists>i. holds s i d path}
     \<and> (\<forall>i j d p q. holds s i d p \<longrightarrow> holds s j d q \<longrightarrow> i = j)
     \<and> (\<forall>i j d d' path. holds s i d path \<longrightarrow> holds s j d' path \<longrightarrow> i = j)
     \<and> (\<forall>i d path. holds s i d path \<longrightarrow> d < lt_next (ls_table s))"

lemma locks_okD:
  assumes "locks_ok s"
  shows "(d, path) \<in> set (lt_held (ls_table s)) \<longleftrightarrow> (\<exists>i. holds s i d path)"
    "(d, path) \<in> set (lt_open (ls_table s)) \<longleftrightarrow> (\<exists>i. holds s i d path)"
    "holds s i d p \<Longrightarrow> holds s j d q \<Longrightarrow> i = j"
    "holds s i d p \<Longrightarrow> holds s j d' p \<Longrightarrow> i = j"
    "holds s i d p \<Longrightarrow> d < lt_next (ls_table s)"
    "wf_dict (ls_objects s)"
  using assms unfolding locks_ok_def by (simp, simp, blast, blast, blast, simp)

lemma fresh_descriptor:
  assumes ok: "locks_ok s"
  shows "\<not> holds s i (lt_next (ls_table s)) path"
    "filter (\<lambda>e. fst e \<noteq> lt_next (ls_table s)) (lt_held (ls_table s)) = lt_held (ls_table s)"
    "filter (\<lambda>e. fst e \<noteq> lt_next (ls_table s)) (lt_open (ls_table s)) = lt_open (ls_table s)"
  using locks_okD(1,2,5) [OF ok] by (auto simp: filter_id_conv) blast+

text \<open>Taking a lock succeeds exactly when no object holds it, and changes nothing otherwise.\<close>

lemma take_free:
  assumes "locks_ok s" and "\<And>i d. \<not> holds s i d (fl_path l)"
  shows "take_file_lock msg (l, ls_table s) = (Inr (), l\<lparr>fl_descriptor := Some (lt_next (ls_table s))\<rparr>,
    ls_table s\<lparr>lt_open := (lt_next (ls_table s), fl_path l) # lt_open (ls_table s),
      lt_held := (lt_next (ls_table s), fl_path l) # lt_held (ls_table s), lt_next := Suc (lt_next (ls_table s))\<rparr>)"
proof -
  have "\<not> list_ex (\<lambda>e. snd e = fl_path l \<and> fst e \<noteq> lt_next (ls_table s)) (lt_held (ls_table s))"
    using assms(2) locks_okD(1) [OF assms(1)] by (auto simp: list_ex_iff)
  then show ?thesis using fresh_descriptor(2) [OF assms(1)]
    by (simp add: take_file_lock_def open_file_def flock_def)
qed

lemma take_held:
  assumes "locks_ok s" and "holds s i d (fl_path l)"
  shows "take_file_lock msg (l, ls_table s)
    = (Inl (RuntimeError msg), l, ls_table s\<lparr>lt_next := Suc (lt_next (ls_table s))\<rparr>)"
proof -
  have "(d, fl_path l) \<in> set (lt_held (ls_table s)) \<and> d \<noteq> lt_next (ls_table s)"
    using assms(2) locks_okD(1) [OF assms(1)] fresh_descriptor(1) [OF assms(1)] by blast
  then have "list_ex (\<lambda>e. snd e = fl_path l \<and> fst e \<noteq> lt_next (ls_table s)) (lt_held (ls_table s))"
    by (force simp: list_ex_iff)
  then show ?thesis using fresh_descriptor(2,3) [OF assms(1)]
    by (simp add: take_file_lock_def open_file_def flock_def close_file_def)
qed

lemma holds_set:
  "holds (s\<lparr>ls_objects := dict_set i l' (ls_objects s), ls_table := t'\<rparr>) j d path
    \<longleftrightarrow> (if j = i then fl_descriptor l' = Some d \<and> fl_path l' = path else holds s j d path)"
  by (auto simp: holds_def dict_get_set)

lemma with_object_eq:
  "dict_get (ls_objects s) i = Some l \<Longrightarrow> f (l, ls_table s) = (l', t') \<Longrightarrow>
   with_object i f s = s\<lparr>ls_objects := dict_set i l' (ls_objects s), ls_table := t'\<rparr>"
  by (simp add: with_object_def)

text \<open>A change of one object that the table follows.\<close>

lemma locks_ok_change:
  assumes ok: "locks_ok s" and wf: "wf_dict (ls_objects u)"
    and h: "\<And>j d path. holds u j d path \<longleftrightarrow> (if j = i then new d path else holds s j d path)"
    and held: "\<And>d path. (d, path) \<in> set (lt_held (ls_table u)) \<longleftrightarrow> new d path \<or> (\<exists>j. j \<noteq> i \<and> holds s j d path)"
    and "\<And>d path. (d, path) \<in> set (lt_open (ls_table u)) \<longleftrightarrow> new d path \<or> (\<exists>j. j \<noteq> i \<and> holds s j d path)"
    and "\<And>d p q j. new d p \<Longrightarrow> j \<noteq> i \<Longrightarrow> \<not> holds s j d q"
    and "\<And>d d' p j. new d p \<Longrightarrow> j \<noteq> i \<Longrightarrow> \<not> holds s j d' p"
    and "lt_next (ls_table s) \<le> lt_next (ls_table u)" and "\<And>d p. new d p \<Longrightarrow> d < lt_next (ls_table u)"
  shows "locks_ok u"
proof -
  have "holds u j d p \<Longrightarrow> d < lt_next (ls_table u)" for j d p
  proof (cases "j = i")
    case True
    assume "holds u j d p"
    with True have "new d p" by (simp only: h if_True)
    then show ?thesis by (rule assms(9))
  next
    case False
    moreover assume "holds u j d p"
    ultimately show ?thesis using assms(8) locks_okD(5) [OF ok, of j d p] by (simp add: h)
  qed
  moreover have "holds u j d p \<Longrightarrow> holds u k d q \<Longrightarrow> j = k" for j k d p q
    unfolding h by (cases "j = i"; cases "k = i"; simp; use assms(6) locks_okD(3) [OF ok] in blast)
  moreover have "holds u j d p \<Longrightarrow> holds u k d' p \<Longrightarrow> j = k" for j k d d' p
    unfolding h by (cases "j = i"; cases "k = i"; simp; use assms(7) locks_okD(4) [OF ok] in blast)
  moreover have "(d, p) \<in> set (lt_held (ls_table u)) \<longleftrightarrow> (\<exists>j. holds u j d p)" for d p
    unfolding held h by auto
  moreover have "(d, p) \<in> set (lt_open (ls_table u)) \<longleftrightarrow> (\<exists>j. holds u j d p)" for d p
    unfolding assms(5) h by auto
  ultimately show ?thesis using wf unfolding locks_ok_def by blast
qed

lemma held_split: "locks_ok s \<Longrightarrow> (d, path) \<in> set (lt_held (ls_table s)) \<longleftrightarrow>
    holds s i d path \<or> (\<exists>j. j \<noteq> i \<and> holds s j d path)"
  and open_split: "locks_ok s \<Longrightarrow> (d, path) \<in> set (lt_open (ls_table s)) \<longleftrightarrow>
    holds s i d path \<or> (\<exists>j. j \<noteq> i \<and> holds s j d path)"
  by (auto simp: locks_okD(1,2))

lemma take_ok:
  assumes ok: "locks_ok s" and l: "dict_get (ls_objects s) i = Some l"
    and t: "take_file_lock msg (l, ls_table s) = (r, l', t')"
  shows "locks_ok (s\<lparr>ls_objects := dict_set i l' (ls_objects s), ls_table := t'\<rparr>)"
proof (cases "\<exists>j d. holds s j d (fl_path l)")
  case True
  then obtain j d where "holds s j d (fl_path l)" by blast
  from take_held [OF ok this] t have eq: "l' = l" "t' = ls_table s\<lparr>lt_next := Suc (lt_next (ls_table s))\<rparr>"
    by auto
  have mine: "holds s i d path \<longleftrightarrow> fl_descriptor l = Some d \<and> fl_path l = path" for d path
    using l by (simp add: holds_def)
  show ?thesis
  proof (rule locks_ok_change [where i = i and new = "holds s i", OF ok])
    show "holds (s\<lparr>ls_objects := dict_set i l' (ls_objects s), ls_table := t'\<rparr>) j d path
        \<longleftrightarrow> (if j = i then holds s i d path else holds s j d path)" for j d path
      by (simp add: holds_set mine eq)
    show "holds s i d p \<Longrightarrow> j \<noteq> i \<Longrightarrow> \<not> holds s j d q" for d p q j using locks_okD(3) [OF ok] by blast
    show "holds s i d p \<Longrightarrow> j \<noteq> i \<Longrightarrow> \<not> holds s j d' p" for d d' p j using locks_okD(4) [OF ok] by blast
  qed (use locks_okD(5,6) [OF ok] in \<open>auto simp: eq held_split [OF ok, of _ _ i] open_split [OF ok, of _ _ i]
      intro: less_SucI\<close>)
next
  case False
  let ?n = "lt_next (ls_table s)"
  from take_free [OF ok, of l msg] False t have eq: "l' = l\<lparr>fl_descriptor := Some ?n\<rparr>"
      "t' = ls_table s\<lparr>lt_open := (?n, fl_path l) # lt_open (ls_table s),
        lt_held := (?n, fl_path l) # lt_held (ls_table s), lt_next := Suc ?n\<rparr>"
    by auto
  have other: "\<not> holds s i d path" for d path
    using False l by (auto simp: holds_def)
  show ?thesis
    by (rule locks_ok_change [where i = i and new = "\<lambda>d path. d = ?n \<and> path = fl_path l", OF ok])
      (use False other locks_okD(6) [OF ok] fresh_descriptor(1) [OF ok] in
        \<open>auto simp: eq holds_set held_split [OF ok, of _ _ i] open_split [OF ok, of _ _ i]\<close>)
qed

lemma drop_ok:
  assumes ok: "locks_ok s" and l: "dict_get (ls_objects s) i = Some l" and wf: "wf_dict objs"
    and objs: "\<And>j. dict_get objs j = (if j = i then gone else dict_get (ls_objects s) j)"
    and gone: "gone = None \<or> (\<exists>x. gone = Some x \<and> fl_descriptor x = None)"
  shows "locks_ok (s\<lparr>ls_objects := objs, ls_table :=
    (case fl_descriptor l of None \<Rightarrow> ls_table s | Some d \<Rightarrow> close_file d (ls_table s))\<rparr>)"
proof -
  let ?u = "s\<lparr>ls_objects := objs, ls_table :=
    (case fl_descriptor l of None \<Rightarrow> ls_table s | Some d \<Rightarrow> close_file d (ls_table s))\<rparr>"
  have mine: "holds s i d path \<longleftrightarrow> fl_descriptor l = Some d \<and> fl_path l = path" for d path
    using l by (simp add: holds_def)
  have alone: "holds s j d path \<Longrightarrow> fl_descriptor l = Some d \<Longrightarrow> j = i" for j d path
    using locks_okD(3) [OF ok, of j d path i "fl_path l"] mine by blast
  show ?thesis
  proof (rule locks_ok_change [where i = i and new = "\<lambda>_ _. False", OF ok])
    show "holds ?u j d path \<longleftrightarrow> (if j = i then False else holds s j d path)" for j d path
      using gone by (auto simp: holds_def objs)
    show "(d, path) \<in> set (lt_held (ls_table ?u)) \<longleftrightarrow> False \<or> (\<exists>j. j \<noteq> i \<and> holds s j d path)" for d path
      using alone [of _ d path] mine held_split [OF ok, of d path i]
      by (auto simp: close_file_def split: option.split)
    show "(d, path) \<in> set (lt_open (ls_table ?u)) \<longleftrightarrow> False \<or> (\<exists>j. j \<noteq> i \<and> holds s j d path)" for d path
      using alone [of _ d path] mine open_split [OF ok, of d path i]
      by (auto simp: close_file_def split: option.split)
  qed (use wf in \<open>auto simp: close_file_def split: option.split\<close>)
qed

section \<open>Mutual exclusion\<close>

lemma dict_get_filter: "dict_get (filter (\<lambda>e. fst e \<noteq> i) d) j = (if j = i then None else dict_get d j)"
  by (induction d) auto

lemma close_unlocked: "close_file d (funlock d t) = close_file d t"
  by (simp add: close_file_def funlock_def)

lemma release_ok: "locks_ok s \<Longrightarrow> locks_ok (with_object i release_file_lock s)"
proof (cases "dict_get (ls_objects s) i")
  case (Some l)
  assume ok: "locks_ok s"
  let ?t = "case fl_descriptor l of None \<Rightarrow> ls_table s | Some d \<Rightarrow> close_file d (ls_table s)"
  have "with_object i release_file_lock s
      = s\<lparr>ls_objects := dict_set i (l\<lparr>fl_descriptor := None\<rparr>) (ls_objects s), ls_table := ?t\<rparr>"
    using Some by (cases "fl_descriptor l"; cases l)
      (simp_all add: with_object_def release_file_lock_def close_unlocked)
  then show ?thesis
    using drop_ok [OF ok Some, of "dict_set i (l\<lparr>fl_descriptor := None\<rparr>) (ls_objects s)"
        "Some (l\<lparr>fl_descriptor := None\<rparr>)"] locks_okD(6) [OF ok]
    by (simp add: dict_get_set)
qed (simp add: with_object_def)

lemma end_process_ok: "locks_ok s \<Longrightarrow> locks_ok (end_process i s)"
proof (cases "dict_get (ls_objects s) i")
  case (Some l)
  assume ok: "locks_ok s"
  show ?thesis
    using drop_ok [OF ok Some, of "filter (\<lambda>e. fst e \<noteq> i) (ls_objects s)" None] locks_okD(6) [OF ok] Some
    by (simp add: end_process_def wf_dict_def distinct_map_filter dict_get_filter)
qed (simp add: end_process_def)

lemma add_object_ok:
  assumes ok: "locks_ok s" and "fl_descriptor l = None"
  shows "locks_ok (add_object i l s)"
proof (cases "dict_get (ls_objects s) i")
  case None
  then have "holds (add_object i l s) j d path = holds s j d path" for j d path
    using assms(2) by (auto simp: add_object_def holds_def map_add_def split: option.splits)
  moreover have "ls_table (add_object i l s) = ls_table s" by (simp add: add_object_def)
  moreover have "wf_dict (ls_objects (add_object i l s))"
    using None locks_okD(6) [OF ok] by (simp add: add_object_def flip: dict_set_fresh)
  ultimately show ?thesis using ok by (simp add: locks_ok_def)
qed (simp add: add_object_def ok)

lemma taken_ok: "locks_ok s \<Longrightarrow> locks_ok (with_object i (\<lambda>x. snd (take_file_lock msg x)) s)"
proof (cases "dict_get (ls_objects s) i")
  case (Some l)
  assume ok: "locks_ok s"
  obtain r l' t' where t: "take_file_lock msg (l, ls_table s) = (r, l', t')" by (rule prod_cases3)
  with take_ok [OF ok Some t] show ?thesis by (simp add: with_object_def Some)
qed (simp add: with_object_def)

lemma acquire_object: "with_object i (\<lambda>x. snd (acquire_service_lock x)) s =
    (case dict_get (ls_objects s) i of
       Some l \<Rightarrow> if fl_descriptor l \<noteq> None then s\<lparr>ls_objects := dict_set i l (ls_objects s)\<rparr>
         else with_object i (\<lambda>x. snd (take_file_lock
           ''Another Council process already owns this data directory'' x)) s
     | None \<Rightarrow> s)"
  by (simp add: with_object_def acquire_service_lock_def split: option.split)

lemma lock_step_ok: "locks_ok s \<Longrightarrow> locks_ok (lock_step sha s x)"
proof (cases x)
  case (AcquireService i)
  assume ok: "locks_ok s"
  have "map_of (dict_set i l (ls_objects s)) = map_of (ls_objects s)" if "dict_get (ls_objects s) i = Some l" for l
    using that by (auto simp: dict_get_set)
  then have "locks_ok (s\<lparr>ls_objects := dict_set i l (ls_objects s)\<rparr>)" if "dict_get (ls_objects s) i = Some l" for l
    using ok that by (simp add: locks_ok_def holds_def)
  then show ?thesis using ok by (auto simp: AcquireService acquire_object taken_ok split: option.split)
next
  case (ProcessEnds l)
  assume ok: "locks_ok s"
  have "locks_ok (foldl (\<lambda>u i. end_process i u) s l)"
    using ok by (induction l arbitrary: s) (simp_all add: end_process_ok)
  then show ?thesis by (simp add: ProcessEnds)
qed (auto simp: release_ok taken_ok enter_run_lock_def new_run_lock_def new_service_lock_def result_simps
    intro!: add_object_ok split: sum.split)

interpretation locks: invariant_machine "lock_step sha" locks_ok for sha
  by unfold_locales (rule lock_step_ok)

lemma empty_locks_ok: "locks_ok empty_lock_system"
  by (simp add: locks_ok_def empty_lock_system_def holds_def)

text \<open>C14: No run is resumed twice at the same time, and no lock is leaked.  Whatever lock objects any
  processes create, enter, leave or lose when they end, at most one object holds the lock of a file.  A
  resumption that finds the lock of its run held raises and leaves the world as it is; one that finds it
  free does what the resumption does, and gives the lock back, also when the resumption raises.\<close>

theorem run_lock_exclusive:
  assumes reach: "s = lock_run sha empty_lock_system ops"
    and path: "path = fl_path (new_run_lock (en_sha (env_of rn)) dir run)"
  shows "(\<forall>i j d d' p. holds s i d p \<longrightarrow> holds s j d' p \<longrightarrow> i = j)
    \<and> (if \<exists>i d. holds s i d path
        then \<exists>t. resume rn dir inp run (ls_table s, w)
          = (Inl (RuntimeError ''This council run is already active in another process''), t, w)
          \<and> lt_held t = lt_held (ls_table s) \<and> lt_open t = lt_open (ls_table s)
        else \<exists>t. resume rn dir inp run (ls_table s, w)
          = (fst (resume_run rn inp run w), t, snd (resume_run rn inp run w))
          \<and> lt_held t = lt_held (ls_table s) \<and> lt_open t = lt_open (ls_table s))"
proof -
  let ?l = "new_run_lock (en_sha (env_of rn)) dir run"
  have ok: "locks_ok s"
    unfolding reach lock_run_def by (rule locks.run_good [OF empty_locks_ok])
  show ?thesis
  proof (cases "\<exists>i d. holds s i d path")
    case True
    then obtain i d where "holds s i d (fl_path ?l)" by (auto simp: path)
    from take_held [OF ok this] True show ?thesis
      using locks_okD(4) [OF ok] by (auto simp: resume_def enter_run_lock_def)
  next
    case False
    then have "\<not> holds s i d (fl_path ?l)" for i d by (simp add: path)
    note free = take_free [OF ok this]
    obtain r w' where r: "resume_run rn inp run w = (r, w')" by fastforce
    have "\<exists>t. resume rn dir inp run (ls_table s, w) = (r, t, w')
        \<and> lt_held t = lt_held (ls_table s) \<and> lt_open t = lt_open (ls_table s)"
      using fresh_descriptor(2,3) [OF ok]
      by (simp add: resume_def enter_run_lock_def free r release_file_lock_def close_file_def funlock_def)
    then show ?thesis using False locks_okD(4) [OF ok] by (simp add: r)
  qed
qed

definition two_processes :: "lock_op list" where
  "two_processes = [NewRunLock 0 ''data'' ''u1'', NewRunLock 1 ''data'' ''u1'', EnterRun 0, EnterRun 1]"

theorem run_lock_exclusive_witness:
  "\<exists>t. resume judged_run ''data'' judged_inputs ''u1'' (ls_table (lock_run (\<lambda>s. s) empty_lock_system two_processes),
      judged_world) = (Inl (RuntimeError ''This council run is already active in another process''), t, judged_world)"
proof -
  let ?s = "lock_run (\<lambda>s. s) empty_lock_system two_processes"
  have "dict_get (ls_objects ?s) 0 = Some \<lparr>fl_path = ''data/locks/u1.lock'', fl_descriptor = Some 0\<rparr>"
    by code_simp
  then have "holds ?s 0 0 ''data/locks/u1.lock''" by (simp add: holds_def)
  moreover have "fl_path (new_run_lock (en_sha (env_of judged_run)) ''data'' ''u1'') = ''data/locks/u1.lock''"
    by (simp add: new_run_lock_def judged_run_def)
  ultimately have "\<exists>i d. holds ?s i d (fl_path (new_run_lock (en_sha (env_of judged_run)) ''data'' ''u1''))"
    by metis
  then show ?thesis
    using run_lock_exclusive [OF refl refl, of "\<lambda>s. s" two_processes judged_run "''data''" "''u1''"
        judged_inputs judged_world]
    by (simp only: if_True) blast
qed

end
