(* ===== verification/App_Requests.thy ===== *)
theory App_Requests imports Run_Lock Service_Gate begin

text \<open>
  What \<open>service.py\<close> accepts from outside: questions, idempotency keys and run identifiers.  A refused
  request is \<open>ServiceInputError\<close> with its HTTP status, code and message.
\<close>

section \<open>Limits\<close>

definition max_question_bytes :: nat where "max_question_bytes = 32768"

definition max_question_chars :: nat where "max_question_chars = 32768"

definition max_idempotency_key_bytes :: nat where "max_idempotency_key_bytes = 128"

definition max_authorization_bytes :: nat where "max_authorization_bytes = 1024"

definition max_header_bytes :: nat where "max_header_bytes = 16384"

definition max_path_bytes :: nat where "max_path_bytes = 512"

definition max_body_bytes :: nat where "max_body_bytes = 65536"

text \<open>\<open>len(text.encode("utf-8"))\<close> for code points below 256.\<close>

definition utf8_bytes :: "string \<Rightarrow> nat" where
  "utf8_bytes s = sum_list (map (\<lambda>c. if (of_char c :: nat) < 128 then 1 else 2) s)"

lemma utf8_bytes_ge: "length s \<le> utf8_bytes s"
  unfolding utf8_bytes_def by (induction s) auto

section \<open>Questions and keys\<close>

definition control_char :: "char \<Rightarrow> bool" where
  "control_char c \<longleftrightarrow> (let n = (of_char c :: nat) in n < 32 \<and> n \<noteq> 9 \<and> n \<noteq> 10 \<and> n \<noteq> 13)"

definition validate_question :: "json \<Rightarrow> string result" where
  "validate_question v = (case v of
     JStr s \<Rightarrow>
       (let clean = py_strip s in
        require (clean \<noteq> []) (ServiceInputError 400 ''invalid_question'' ''question must not be empty'')
       (require (length clean \<le> max_question_chars)
          (ServiceInputError 413 ''question_too_large'' ''question exceeds the service limit'')
       (require (utf8_bytes clean \<noteq> 0 \<and> utf8_bytes clean \<le> max_question_bytes)
          (ServiceInputError 413 ''question_too_large'' ''question exceeds the service limit'')
       (require (\<not> list_ex control_char clean)
          (ServiceInputError 400 ''invalid_question'' ''question contains unsupported control characters'')
        (Inr clean)))))
   | _ \<Rightarrow> Inl (ServiceInputError 400 ''invalid_question'' ''question must be a string''))"

text \<open>\<open>_IDEMPOTENCY_RE\<close>.\<close>

definition visible_ascii :: "char \<Rightarrow> bool" where
  "visible_ascii c \<longleftrightarrow> (let n = (of_char c :: nat) in 33 \<le> n \<and> n \<le> 126)"

definition validate_idempotency_key :: "json \<Rightarrow> string result" where
  "validate_idempotency_key v = (case v of
     JStr s \<Rightarrow>
       require (s \<noteq> []) (ServiceInputError 400 ''invalid_idempotency_key''
         ''Idempotency-Key must be a non-empty visible ASCII value'')
      (require (utf8_bytes s \<le> max_idempotency_key_bytes \<and> list_all visible_ascii s)
        (ServiceInputError 400 ''invalid_idempotency_key''
          ''Idempotency-Key must be at most 128 visible ASCII bytes'')
       (Inr s))
   | _ \<Rightarrow> Inl (ServiceInputError 400 ''invalid_idempotency_key''
            ''Idempotency-Key must be a non-empty visible ASCII value''))"

section \<open>Run identifiers\<close>

text \<open>\<open>text.replace(part, "")\<close>.\<close>

function without_part :: "string \<Rightarrow> string \<Rightarrow> string" where
  "without_part p [] = []"
| "without_part p (c # s) = (if p \<noteq> [] \<and> starts_with (c # s) p then without_part p (drop (length p) (c # s))
     else c # without_part p s)"
  by pat_completeness auto
termination by (relation "measure (\<lambda>(_, s). length s)") auto

text \<open>\<open>int(text, 16)\<close> for a text of 32 characters: surrounding space, a sign, a prefix and single
  underscores are accepted.\<close>

definition hex_number :: "string \<Rightarrow> nat option" where
  "hex_number s = foldl (\<lambda>n c. case (n, hex_value c) of (Some k, Some d) \<Rightarrow> Some (16 * k + d) | _ \<Rightarrow> None) (Some 0) s"

fun hex_groups :: "string \<Rightarrow> bool" where
  "hex_groups [] = False"
| "hex_groups [c] = (hex_value c \<noteq> None)"
| "hex_groups (c # d # s) = (hex_value c \<noteq> None \<and> (if d = CHR ''_'' then hex_groups s else hex_groups (d # s)))"

definition base16_int :: "string \<Rightarrow> int option" where
  "base16_int s =
     (let t = py_strip s;
          u = (if t \<noteq> [] \<and> (hd t = CHR ''-'' \<or> hd t = CHR ''+'') then tl t else t);
          prefixed = starts_with u ''0x'' \<or> starts_with u ''0X'';
          ds = (if prefixed then (if starts_with (drop 2 u) ''_'' then drop 3 u else drop 2 u) else u) in
      if hex_groups ds
      then map_option (\<lambda>n. if starts_with t ''-'' then - int n else int n) (hex_number (filter (\<lambda>c. c \<noteq> CHR ''_'') ds))
      else None)"

fun hex_padded :: "nat \<Rightarrow> nat \<Rightarrow> string" where
  "hex_padded 0 n = []"
| "hex_padded (Suc w) n = hex_padded w (n div 16) @ [hex_digit (n mod 16)]"

text \<open>\<open>str(uuid.UUID(value))\<close>.\<close>

definition uuid_text :: "string \<Rightarrow> string option" where
  "uuid_text value =
     (let stripped = without_part ''uuid:'' (without_part ''urn:'' value);
          inner = rev (dropWhile (\<lambda>c. c = CHR ''{'' \<or> c = CHR ''}'')
            (rev (dropWhile (\<lambda>c. c = CHR ''{'' \<or> c = CHR ''}'') stripped)));
          digits = without_part ''-'' inner in
      if length digits \<noteq> 32 then None
      else (case base16_int digits of
        None \<Rightarrow> None
      | Some n \<Rightarrow> if n < 0 then None
          else (let h = hex_padded 32 (nat n) in
            Some (take 8 h @ ''-'' @ take 4 (drop 8 h) @ ''-'' @ take 4 (drop 12 h) @ ''-'' @ take 4 (drop 16 h)
              @ ''-'' @ drop 20 h))))"

definition run_not_found :: py_error where
  "run_not_found = ServiceInputError 404 ''run_not_found'' ''Council run was not found''"

definition validate_run_id :: "string \<Rightarrow> string result" where
  "validate_run_id value = (case uuid_text value of None \<Rightarrow> Inl run_not_found | Some s \<Rightarrow> Inr s)"

definition request_hash :: "(json \<Rightarrow> sha) \<Rightarrow> string \<Rightarrow> string" where
  "request_hash shaj question = shaj (JObj [(''question'', JStr question)])"

lemma validate_question_facts:
  "validate_question v = Inr q \<Longrightarrow> q \<noteq> [] \<and> q = py_strip q \<and> length q \<le> max_question_chars"
  by (auto simp: validate_question_def Let_def result_simps split: json.splits)

end
