(* ===== verification/App_Core.thy ===== *)
theory App_Core imports App_Requests begin

text \<open>
  \<open>CouncilApplication\<close> of \<open>service.py\<close>: authenticated callers create runs, the application executes them in
  a bounded pool of workers and resumes what an earlier process left behind.  Its own state is the number
  of free slots, the runs that are scheduled, the queue of runs to recover, and the jobs of the executor;
  each operation holds the state lock, so operations are atomic.  A job takes effect when it ends: the
  model does not interleave the store operations of two runs.
\<close>

section \<open>The application\<close>

text \<open>What the application is made with.  \<open>su_url\<close> is \<open>urlsplit\<close>.\<close>

record service_setup =
  su_config :: app_config
  su_env :: council_env
  su_codec :: json_codec
  su_conv :: py_conv
  su_shuffle :: "string \<Rightarrow> string list \<Rightarrow> string list"
  su_fresh :: "nat \<Rightarrow> nat \<Rightarrow> string"
  su_url :: "string \<Rightarrow> url_parts result"
  su_workers :: int
  su_queue :: int
  su_daily :: int
  su_monthly :: int
  su_tokens :: "(string, string) dict"
  su_recover :: bool

text \<open>A job waits for a worker, then for the lock of its principal, then executes.\<close>

datatype job_phase = JobQueued | JobWaiting | JobExecuting

record job =
  jb_principal :: principal
  jb_run :: string
  jb_phase :: job_phase

record service_app =
  at_world :: "service_db world"
  at_closed :: bool
  at_slots :: nat
  at_scheduled :: "string list"
  at_pending :: "(principal \<times> string) list"
  at_pending_ids :: "string list"
  at_jobs :: "job list"

definition capacity :: "service_setup \<Rightarrow> nat" where
  "capacity su = nat (su_workers su + su_queue su)"

text \<open>The clocks of an operation, a fresh identifier, and the jobs that the executor takes.\<close>

record app_inputs =
  xi_now :: "nat \<Rightarrow> instant"
  xi_clock :: "nat \<Rightarrow> py_datetime"
  xi_uuid :: string
  xi_accepts :: "string \<Rightarrow> bool"

text \<open>Operations on the stores.\<close>

definition in_world :: "(service_db world, 'a) action \<Rightarrow> (service_app, 'a) action" where
  "in_world m s = (case m (at_world s) of (r, w) \<Rightarrow> (r, s\<lparr>at_world := w\<rparr>))"

definition on_council :: "(council_db \<Rightarrow> 'a result \<times> council_db) \<Rightarrow> (service_app, 'a) action" where
  "on_council f = in_world (in_store f)"

definition on_service :: "(service_db \<Rightarrow> 'a result \<times> service_db) \<Rightarrow> (service_app, 'a) action" where
  "on_service f = in_world (in_gate f)"

abbreviation council_of :: "service_app \<Rightarrow> council_db" where
  "council_of s \<equiv> wd_store (at_world s)"

abbreviation service_of :: "service_app \<Rightarrow> service_db" where
  "service_of s \<equiv> wd_gate (at_world s)"

text \<open>\<open>except BaseException: cleanup; raise\<close>; an exception of the cleanup replaces the first.\<close>

definition on_error :: "('s, 'a) action \<Rightarrow> ('s, unit) action \<Rightarrow> ('s, 'a) action" where
  "on_error m c s = (case m s of
     (Inr x, s') \<Rightarrow> (Inr x, s')
   | (Inl e, s') \<Rightarrow> (case c s' of (Inl e', s'') \<Rightarrow> (Inl e', s'') | (Inr _, s'') \<Rightarrow> (Inl e, s'')))"

text \<open>\<open>try: m except Exception: pass\<close>.\<close>

definition suppress :: "('s, unit) action \<Rightarrow> ('s, unit) action" where
  "suppress m s = (Inr (), snd (m s))"

section \<open>Engines and policies\<close>

definition service_principals :: "principal list" where
  "service_principals = six_principals False"

definition policy_id_of :: "string \<Rightarrow> string result" where
  "policy_id_of pid = (if pid \<in> pr_id ` set service_principals then Inr (''mock-default-'' @ pid) else Inl (KeyError pid))"

definition service_seats :: "service_setup \<Rightarrow> (string, provider_config) dict" where
  "service_seats su = foldl (\<lambda>d c. dict_set (cf_name c) c d) [] (ac_providers (su_config su))"

text \<open>\<open>_new_engine\<close>.\<close>

definition new_engine :: "service_setup \<Rightarrow> principal \<Rightarrow> service_db run_env result" where
  "new_engine su p =
     rbind (policy_id_of (pr_id p)) (\<lambda>pol.
     rbind (mk_engine (su_env su) (service_seats su) (ac_policy (su_config su)) (ac_synthesis (su_config su))
        (ac_fallbacks (su_config su)) (Some (durable_gate (en_sha (su_env su)) p pol))) (\<lambda>eg.
       Inr \<lparr>rn_engine = eg, rn_codec = su_codec su, rn_conv = su_conv su, rn_shuffle = su_shuffle su,
            rn_fresh = su_fresh su\<rparr>))"

text \<open>\<open>_authorize_action\<close>.\<close>

definition authorize :: "principal \<Rightarrow> council_action \<Rightarrow> py_datetime \<Rightarrow> (service_app, unit) action" where
  "authorize p act clk s =
     (rbind (policy_id_of (pr_id p)) (\<lambda>pol.
      rbind (authorize_action (service_of s) pol (pr_id p) (pr_tenant p) (action_value act) None clk) (\<lambda>r.
        require (ax_allowed r)
          (ServiceInputError 403 (reservation_code_value (ax_code r)) ''Council policy denied this action'')
          (Inr ()))), s)"

section \<open>Slots, jobs and the recovery queue\<close>

text \<open>The bounded semaphore.\<close>

definition take_slot :: "(service_app, bool) action" where
  "take_slot s = (if at_slots s = 0 then (Inr False, s) else (Inr True, s\<lparr>at_slots := at_slots s - 1\<rparr>))"

definition give_slot :: "service_setup \<Rightarrow> (service_app, unit) action" where
  "give_slot su s = (if capacity su \<le> at_slots s then (Inl (ValueError ''Semaphore released too many times''), s)
     else (Inr (), s\<lparr>at_slots := Suc (at_slots s)\<rparr>))"

text \<open>\<open>_submit_acquired\<close>; the executor may refuse a job.\<close>

definition submit_acquired ::
  "service_setup \<Rightarrow> app_inputs \<Rightarrow> principal \<Rightarrow> string \<Rightarrow> (service_app, unit) action" where
  "submit_acquired su xi p run s =
     (if run \<in> set (at_scheduled s)
      then sbind (give_slot su) (\<lambda>_. sraise (RuntimeError ''Council run is already scheduled'')) s
      else if xi_accepts xi run
      then (Inr (), s\<lparr>at_scheduled := run # at_scheduled s,
              at_jobs := at_jobs s @ [\<lparr>jb_principal = p, jb_run = run, jb_phase = JobQueued\<rparr>]\<rparr>)
      else (Inl (RuntimeError ''cannot schedule new futures''), s\<lparr>at_scheduled := removeAll run (at_scheduled s)\<rparr>))"

lemma submit_pending [simp]:
  "at_pending (snd (submit_acquired su xi p run s)) = at_pending s"
  "at_closed (snd (submit_acquired su xi p run s)) = at_closed s"
  by (simp_all add: submit_acquired_def sbind_def give_slot_def)

definition queue_recovery :: "principal \<Rightarrow> string \<Rightarrow> service_app \<Rightarrow> service_app" where
  "queue_recovery p run s =
     (if run \<in> set (at_scheduled s) \<or> run \<in> set (at_pending_ids s) then s
      else s\<lparr>at_pending := at_pending s @ [(p, run)], at_pending_ids := run # at_pending_ids s\<rparr>)"

text \<open>The head of the recovery queue moves to the executor.\<close>

definition submit_pending ::
  "service_setup \<Rightarrow> app_inputs \<Rightarrow> principal \<Rightarrow> string \<Rightarrow> (principal \<times> string) list \<Rightarrow> (service_app, unit) action" where
  "submit_pending su xi p run rest s =
     on_error (submit_acquired su xi p run) (give_slot su)
       (s\<lparr>at_slots := at_slots s - 1, at_pending := rest, at_pending_ids := removeAll run (at_pending_ids s)\<rparr>)"

lemma submit_pending_rest:
  "at_pending (snd (submit_pending su xi p run rest s)) = rest"
  by (auto simp: submit_pending_def on_error_def submit_acquired_def sbind_def give_slot_def split: prod.splits sum.splits)

text \<open>\<open>_drain_pending_locked\<close>.\<close>

function drain_pending :: "service_setup \<Rightarrow> app_inputs \<Rightarrow> (service_app, unit) action" where
  "drain_pending su xi s = (case at_pending s of
     [] \<Rightarrow> (Inr (), s)
   | (p, run) # rest \<Rightarrow>
       if at_closed s \<or> at_slots s = 0 then (Inr (), s)
       else (case submit_pending su xi p run rest s of
         (Inl e, s') \<Rightarrow> (Inl e, s')
       | (Inr _, s') \<Rightarrow> drain_pending su xi s'))"
  by pat_completeness auto
termination
proof (relation "measure (\<lambda>(_, _, s). length (at_pending s))")
  fix su xi s q rest p run r s' e u
  assume "at_pending s = q # rest" and "(p, run) = q" and "(r, s') = submit_pending su xi p run rest s"
  then show "((su, xi, s'), (su, xi, s)) \<in> measure (\<lambda>(_, _, s). length (at_pending s))"
    using submit_pending_rest [of su xi p run rest s] by (metis (mono_tags, lifting) in_measure lessI list.size(4)
      old.prod.case add.right_neutral add_Suc_right snd_conv)
qed simp

declare drain_pending.simps [simp del]

section \<open>Creating and reading runs\<close>

definition service_terminal :: "string list" where
  "service_terminal = [''completed'', ''partial'', ''failed'', ''cancelled'']"

definition is_obj :: "json \<Rightarrow> bool" where
  "is_obj v = (case v of JObj _ \<Rightarrow> True | _ \<Rightarrow> False)"

text \<open>\<open>_public_run\<close>.\<close>

definition public_run :: "council_db \<Rightarrow> string \<Rightarrow> bool option \<Rightarrow> jobj result" where
  "public_run db run replayed = (case get_run db run of
     None \<Rightarrow> Inl run_not_found
   | Some row \<Rightarrow> Inr
       ([(''run_id'', JStr run), (''status'', JStr (ru_status row))]
        @ (case replayed of None \<Rightarrow> [] | Some b \<Rightarrow> [(''replayed'', JBool b)])
        @ (if ru_status row \<notin> set service_terminal then []
           else case ru_result row of
             Some (JObj m) \<Rightarrow> [(''result'', JObj m)]
           | _ \<Rightarrow> (case ru_error row of Some (JObj m) \<Rightarrow> [(''error'', JObj m)] | _ \<Rightarrow> []))))"

text \<open>\<open>_ensure_scheduled_locked\<close>.\<close>

definition ensure_scheduled ::
  "service_setup \<Rightarrow> app_inputs \<Rightarrow> principal \<Rightarrow> string \<Rightarrow> string \<Rightarrow> (service_app, unit) action" where
  "ensure_scheduled su xi p run status s =
     (if status \<in> set service_terminal then (Inr (), s)
      else if run \<notin> set (at_scheduled s) \<and> run \<notin> set (at_pending_ids s)
      then drain_pending su xi (queue_recovery p run s) else (Inr (), s))"

definition queue_full :: py_error where
  "queue_full = ServiceInputError 503 ''queue_full'' ''Council work queue is full''"

definition key_conflict :: py_error where
  "key_conflict = ServiceInputError 409 ''idempotency_conflict''
     ''Idempotency-Key was already used for another request''"

definition queued_reply :: "string \<Rightarrow> bool \<Rightarrow> nat \<times> jobj" where
  "queued_reply run replayed =
     (202, [(''run_id'', JStr run), (''status'', JStr ''queued''), (''replayed'', JBool replayed)])"

text \<open>\<open>self._new_engine(principal).create_run(question, run_id=...)\<close>.\<close>

definition engine_create ::
  "service_setup \<Rightarrow> app_inputs \<Rightarrow> principal \<Rightarrow> string \<Rightarrow> string \<Rightarrow> (service_app, string) action" where
  "engine_create su xi p question run =
     sbind (sresult (new_engine su p)) (\<lambda>rn.
       in_world (create_council_run rn question None (Some (JStr run)) (xi_uuid xi) (xi_now xi 0)))"

definition record_queued ::
  "service_setup \<Rightarrow> app_inputs \<Rightarrow> principal \<Rightarrow> string \<Rightarrow> string \<Rightarrow> (service_app, unit) action" where
  "record_queued su xi p run typ =
     sbind (on_council (set_run_status (en_url (su_env su)) run (JStr ''queued'') NoError (xi_now xi 1))) (\<lambda>_.
     sbind (on_council (append_event (en_shaj (su_env su)) (en_url (su_env su)) run (JStr typ)
       (JObj [(''principal_id'', JStr (pr_id p))]) (xi_now xi 2))) (\<lambda>_. sreturn ()))"

text \<open>A binding whose run was never stored: the run is created again under the same identifier.\<close>

definition repair_binding ::
  "service_setup \<Rightarrow> app_inputs \<Rightarrow> principal \<Rightarrow> string \<Rightarrow> string \<Rightarrow> (service_app, nat \<times> jobj) action" where
  "repair_binding su xi p question run =
     sbind take_slot (\<lambda>acquired.
       if \<not> acquired then sraise queue_full
       else sbind (on_error
           (sbind (engine_create su xi p question run) (\<lambda>_.
            sbind (record_queued su xi p run ''run_binding_repaired'') (\<lambda>_. submit_acquired su xi p run)))
           (give_slot su)) (\<lambda>_. sreturn (queued_reply run True)))"

definition replay_binding ::
  "service_setup \<Rightarrow> app_inputs \<Rightarrow> principal \<Rightarrow> string \<Rightarrow> run_binding \<Rightarrow> (service_app, nat \<times> jobj) action" where
  "replay_binding su xi p question b =
     (if bn_code b = B_IDEMPOTENCY_CONFLICT then sraise key_conflict
      else (\<lambda>s. case get_run (council_of s) (bn_run b) of
        Some row \<Rightarrow> sbind (ensure_scheduled su xi p (bn_run b) (ru_status row)) (\<lambda>_ s'.
          (rbind (public_run (council_of s') (bn_run b) (Some True)) (\<lambda>m. Inr (200, m)), s')) s
      | None \<Rightarrow> repair_binding su xi p question (bn_run b) s))"

text \<open>What a new run takes back when it cannot be dispatched.\<close>

definition undo_binding ::
  "service_setup \<Rightarrow> app_inputs \<Rightarrow> principal \<Rightarrow> string \<Rightarrow> string \<Rightarrow> (service_app, unit) action" where
  "undo_binding su xi p k payload =
     sbind (\<lambda>s. if get_run (council_of s) (xi_uuid xi) = None
         then sbind (on_service (abandon_run_binding (pr_id p) k (xi_uuid xi) payload)) (\<lambda>_. sreturn ()) s
         else (Inr (), s)) (\<lambda>_.
     \<lambda>s. if get_run (council_of s) (xi_uuid xi) = None then (Inr (), s)
         else suppress (on_council (set_run_status (en_url (su_env su)) (xi_uuid xi) (JStr ''failed'')
           (ErrDict [(''message'', JStr ''Run dispatch failed safely'')]) (xi_now xi 3))) s)"

text \<open>The steps after the binding was created.\<close>

definition dispatch_new ::
  "service_setup \<Rightarrow> app_inputs \<Rightarrow> principal \<Rightarrow> string \<Rightarrow> (service_app, unit) action" where
  "dispatch_new su xi p question =
     sbind (engine_create su xi p question (xi_uuid xi)) (\<lambda>created.
       if created \<noteq> xi_uuid xi then sraise (RuntimeError ''Council store returned an unexpected run_id'')
       else sbind (record_queued su xi p (xi_uuid xi) ''run_queued'') (\<lambda>_. submit_acquired su xi p (xi_uuid xi)))"

text \<open>The answer to a binding that was not created.\<close>

definition other_binding ::
  "service_setup \<Rightarrow> run_binding \<Rightarrow> (service_app, nat \<times> jobj) action" where
  "other_binding su b =
     (if bn_code b = B_IDEMPOTENCY_CONFLICT then sraise key_conflict
      else if bn_code b = B_REPLAY then
        (\<lambda>s. sbind (sresult (public_run (council_of s) (bn_run b) (Some True))) (\<lambda>m.
           sbind (give_slot su) (\<lambda>_. sreturn (200, m))) s)
      else sraise (ServiceInputError 403 ''principal_disabled'' ''Principal is not permitted to create runs''))"

text \<open>A new run; its slot is given back when any step of it raises.\<close>

definition new_binding ::
  "service_setup \<Rightarrow> app_inputs \<Rightarrow> principal \<Rightarrow> string \<Rightarrow> string \<Rightarrow> string \<Rightarrow> (service_app, nat \<times> jobj) action" where
  "new_binding su xi p question k payload =
     sbind take_slot (\<lambda>acquired.
       if \<not> acquired then sraise queue_full
       else sbind (on_error (on_service (bind_run (pr_id p) k (xi_uuid xi) payload None (xi_clock xi 1))) (give_slot su))
         (\<lambda>b. if bn_code b = B_CREATED
            then sbind (on_error (dispatch_new su xi p question)
                (sbind (undo_binding su xi p k payload) (\<lambda>_. give_slot su)))
              (\<lambda>_. sreturn (queued_reply (xi_uuid xi) False))
            else on_error (other_binding su b) (give_slot su)))"

definition app_create_run ::
  "service_setup \<Rightarrow> app_inputs \<Rightarrow> principal \<Rightarrow> json \<Rightarrow> json \<Rightarrow> (service_app, nat \<times> jobj) action" where
  "app_create_run su xi p question key =
     sbind (sresult (validate_question question)) (\<lambda>q.
     sbind (sresult (validate_idempotency_key key)) (\<lambda>k.
     let payload = request_hash (en_shaj (su_env su)) q in (\<lambda>s.
       if at_closed s then (Inl (ServiceInputError 503 ''service_stopping'' ''Council service is stopping''), s)
       else sbind (authorize p RUN_CREATE (xi_clock xi 0)) (\<lambda>_ s.
         sbind (sresult (find_run_binding (service_of s) (pr_id p) k payload)) (\<lambda>x. case x of
           Some b \<Rightarrow> replay_binding su xi p q b
         | None \<Rightarrow> new_binding su xi p q k payload) s) s)))"

definition app_get_run ::
  "service_app \<Rightarrow> app_inputs \<Rightarrow> principal \<Rightarrow> string \<Rightarrow> jobj result" where
  "app_get_run s xi p run =
     rbind (validate_run_id run) (\<lambda>rid.
     rbind (fst (authorize p RUN_READ (xi_clock xi 0) s)) (\<lambda>_.
       require (run_owner (service_of s) rid = Some (pr_id p)) run_not_found
         (public_run (council_of s) rid None)))"

text \<open>\<open>authenticate\<close>.\<close>

definition app_authenticate ::
  "(string \<Rightarrow> sha) \<Rightarrow> service_app \<Rightarrow> py_datetime \<Rightarrow> string option \<Rightarrow> principal option result" where
  "app_authenticate sha s clk authorization = (case authorization of
     None \<Rightarrow> Inr None
   | Some a \<Rightarrow>
       (let tok = drop 7 a in
        if max_authorization_bytes < utf8_bytes a \<or> \<not> starts_with a ''Bearer ''
          \<or> length tok < 32 \<or> 512 < length tok \<or> list_ex py_isspace tok then Inr None
        else rbind (authenticate_bearer sha (service_of s) tok None clk) (\<lambda>x. Inr (map_option au_principal x))))"

section \<open>Jobs\<close>

text \<open>A worker takes the first job that waits for one; a job enters when no other job of its principal
  executes.\<close>

definition busy_workers :: "service_app \<Rightarrow> nat" where
  "busy_workers s = length (filter (\<lambda>j. jb_phase j \<noteq> JobQueued) (at_jobs s))"

fun pick_first :: "job list \<Rightarrow> job list" where
  "pick_first [] = []"
| "pick_first (j # js) = (if jb_phase j = JobQueued then j\<lparr>jb_phase := JobWaiting\<rparr> # js else j # pick_first js)"

definition pick_job :: "service_setup \<Rightarrow> service_app \<Rightarrow> service_app" where
  "pick_job su s = (if int (busy_workers s) < su_workers su then s\<lparr>at_jobs := pick_first (at_jobs s)\<rparr> else s)"

definition enter_job :: "string \<Rightarrow> service_app \<Rightarrow> service_app" where
  "enter_job run s = (case find (\<lambda>j. jb_run j = run \<and> jb_phase j = JobWaiting) (at_jobs s) of
     None \<Rightarrow> s
   | Some j \<Rightarrow>
       if list_ex (\<lambda>x. jb_phase x = JobExecuting \<and> pr_id (jb_principal x) = pr_id (jb_principal j)) (at_jobs s) then s
       else s\<lparr>at_jobs := map (\<lambda>x. if jb_run x = run then x\<lparr>jb_phase := JobExecuting\<rparr> else x) (at_jobs s)\<rparr>)"

text \<open>The inputs of an execution: those of the resumption, whether the lock of the run is free, the time.\<close>

record job_inputs =
  ji_run :: run_inputs
  ji_free :: bool
  ji_now :: "nat \<Rightarrow> instant"

text \<open>\<open>_execute_run\<close>; a resumption whose schedule is too short (\<open>None\<close>) has not ended.\<close>

definition resume_for ::
  "service_setup \<Rightarrow> job_inputs \<Rightarrow> principal \<Rightarrow> string \<Rightarrow> (service_app, json option) action" where
  "resume_for su ji p run =
     sbind (sresult (new_engine su p)) (\<lambda>rn.
       if ji_free ji then in_world (resume_run rn (ji_run ji) run)
       else sraise (RuntimeError ''This council run is already active in another process''))"

definition safe_error :: "py_error \<Rightarrow> jobj" where
  "safe_error e = [(''message'', JStr ''Council run failed safely''), (''type'', JStr (exception_name e))]"

definition record_failed ::
  "service_setup \<Rightarrow> job_inputs \<Rightarrow> string \<Rightarrow> py_error \<Rightarrow> (service_app, unit) action" where
  "record_failed su ji run e = suppress
     (sbind (on_council (set_run_status (en_url (su_env su)) run (JStr ''failed'') (ErrDict (safe_error e)) (ji_now ji 0)))
       (\<lambda>_. sbind (on_council (append_event (en_shaj (su_env su)) (en_url (su_env su)) run (JStr ''run_failed'')
          (JObj (safe_error e)) (ji_now ji 1))) (\<lambda>_. sreturn ())))"

definition execute_run ::
  "service_setup \<Rightarrow> job_inputs \<Rightarrow> principal \<Rightarrow> string \<Rightarrow> (service_app, unit) action" where
  "execute_run su ji p run s = (case resume_for su ji p run s of
     (Inr _, s') \<Rightarrow> (Inr (), s')
   | (Inl e, s') \<Rightarrow> record_failed su ji run e s')"

text \<open>The end of a job with the callback \<open>release_slot\<close>; what the callback raises is only logged.\<close>

definition release_job :: "service_setup \<Rightarrow> app_inputs \<Rightarrow> string \<Rightarrow> (service_app, unit) action" where
  "release_job su xi run s =
     sbind (give_slot su) (\<lambda>_. drain_pending su xi)
       (s\<lparr>at_jobs := filter (\<lambda>j. jb_run j \<noteq> run) (at_jobs s), at_scheduled := removeAll run (at_scheduled s)\<rparr>)"

definition finish_job ::
  "service_setup \<Rightarrow> app_inputs \<Rightarrow> job_inputs \<Rightarrow> string \<Rightarrow> service_app \<Rightarrow> service_app" where
  "finish_job su xi ji run s = (case find (\<lambda>j. jb_run j = run \<and> jb_phase j = JobExecuting) (at_jobs s) of
     None \<Rightarrow> s
   | Some j \<Rightarrow> snd (release_job su xi run (snd (execute_run su ji (jb_principal j) run s))))"

text \<open>\<open>close\<close>: no new runs; the jobs that were submitted still execute.\<close>

definition close_app :: "service_app \<Rightarrow> service_app" where
  "close_app s = s\<lparr>at_closed := True\<rparr>"

section \<open>Start\<close>

text \<open>\<open>_validate_mock_only\<close>.\<close>

definition loopback_hosts :: "string list" where
  "loopback_hosts = [''127.0.0.1'', ''localhost'', ''::1'']"

definition mock_seat :: "service_setup \<Rightarrow> provider_config \<Rightarrow> unit result" where
  "mock_seat su c =
     rbind (su_url su (cf_endpoint c)) (\<lambda>u.
       require (starts_with (cf_name c) ''mock'' \<and> up_scheme u \<in> {''http'', ''https''}
           \<and> (case up_host u of None \<Rightarrow> False | Some h \<Rightarrow> h \<in> set loopback_hosts))
         (ValueError ''council service is mock-only and refuses live providers'') (Inr ()))"

definition validate_mock_only :: "service_setup \<Rightarrow> unit result" where
  "validate_mock_only su =
     (let c = su_config su in
      require (ac_providers c \<noteq> []) (ValueError ''mock service requires at least one provider'')
     (rbind (rmap (mock_seat su) (ac_providers c)) (\<lambda>_.
        require (length (synthesis_chain c) = 1) (ValueError ''council service requires exactly one synthesizer'')
       (require (starts_with (ac_synthesis c) ''mock'')
          (ValueError ''council service synthesis provider must be a mock'') (Inr ())))))"

definition live_seat :: "service_setup \<Rightarrow> json \<Rightarrow> bool" where
  "live_seat su v = (case v of
     JObj m \<Rightarrow> \<not> starts_with (py_str (su_conv su) (get_default m ''name'' (JStr []))) ''mock'' | _ \<Rightarrow> False)"

definition live_mode_run :: "service_setup \<Rightarrow> run_row \<Rightarrow> bool" where
  "live_mode_run su row = (case ru_configs row of
     JList vs \<Rightarrow> vs = [] \<or> list_ex (live_seat su) vs | _ \<Rightarrow> True)"

definition positive_limits :: "service_setup \<Rightarrow> unit result" where
  "positive_limits su =
     require (1 \<le> su_workers su) (ValueError ''max_workers must be a positive integer'')
    (require (0 \<le> su_queue su) (ValueError ''max_queue must be a non-negative integer'')
    (require (1 \<le> su_daily su) (ValueError ''daily_call_units must be a positive integer'')
    (require (1 \<le> su_monthly su) (ValueError ''monthly_call_units must be a positive integer'')
     (Inr ()))))"

definition policy_issued_at :: py_datetime where
  "policy_issued_at = \<lparr>dt_wall = 737424 * day_us, dt_offset = Some 0\<rparr>"

definition policy_expires_at :: py_datetime where
  "policy_expires_at = \<lparr>dt_wall = 766644 * day_us, dt_offset = Some 0\<rparr>"

text \<open>\<open>_install_mock_policies\<close>, for one principal.\<close>

definition install_policy :: "service_setup \<Rightarrow> principal \<Rightarrow> (service_db, unit) action" where
  "install_policy su p =
     sbind (sresult (mk_service_policy (''mock-default-'' @ pr_id p) (pr_id p) (pr_tenant p)
         (map action_value [RUN_CREATE, RUN_READ, PROVIDER_INVOKE]) (map fst (service_seats su))
         (map (cf_model \<circ> snd) (service_seats su)) (int (length (service_seats su))) (su_daily su) (su_monthly su)
         policy_issued_at policy_expires_at None)) (\<lambda>pol. sbind (put_policy pol) (\<lambda>_. sreturn ()))"

fun each :: "('a \<Rightarrow> ('s, unit) action) \<Rightarrow> 'a list \<Rightarrow> ('s, unit) action" where
  "each f [] = sreturn ()"
| "each f (x # xs) = sbind (f x) (\<lambda>_. each f xs)"

text \<open>\<open>_install_tokens\<close>.\<close>

definition install_tokens :: "service_setup \<Rightarrow> instant \<Rightarrow> (service_db, unit) action" where
  "install_tokens su wall =
     (let unknown = filter (\<lambda>pid. pid \<notin> pr_id ` set service_principals) (map fst (su_tokens su)) in
      if unknown \<noteq> [] then sraise (ValueError
        (''unknown bearer-token principals: '' @ join_text '', '' (sorted_text unknown)))
      else each (\<lambda>(pid, tok). rotate_bearer_token (en_sha (su_env su)) (''bootstrap-'' @ pid) pid tok policy_issued_at
        policy_expires_at wall) (su_tokens su))"

text \<open>\<open>_recover_nonterminal_runs\<close>.\<close>

definition recover_binding :: "service_app \<Rightarrow> run_binding \<Rightarrow> service_app" where
  "recover_binding s b = (case get_run (council_of s) (bn_run b) of
     None \<Rightarrow> s
   | Some row \<Rightarrow>
       if ru_status row \<in> set service_terminal then s
       else (case find (\<lambda>p. pr_id p = bn_principal b) service_principals of
         None \<Rightarrow> s | Some p \<Rightarrow> queue_recovery p (bn_run b) s))"

definition recover_runs :: "service_setup \<Rightarrow> app_inputs \<Rightarrow> (service_app, unit) action" where
  "recover_runs su xi s = drain_pending su xi (foldl recover_binding s (list_run_bindings (service_of s)))"

text \<open>What the constructor finds: whether the lock of the directory is free, the marker, the time.\<close>

record start_inputs =
  si_free :: bool
  si_marker :: bool
  si_marker_link :: bool
  si_wall :: instant
  si_app :: app_inputs

definition council_accepted :: "service_setup \<Rightarrow> start_inputs \<Rightarrow> council_db \<Rightarrow> unit result" where
  "council_accepted su si db =
     require (\<not> list_ex (live_mode_run su) (cd_runs db))
       (ValueError ''Council service refuses a store containing live-mode runs'')
    (require (cd_runs db = [] \<or> si_marker si \<or> si_marker_link si)
       (ValueError ''Council service refuses a preexisting unowned CLI store'')
     (Inr ()))"

definition open_service_store :: "(service_db, unit) action" where
  "open_service_store = (\<lambda>db. put_principals service_principals (migrate_tokens db))"

definition prepare_service ::
  "service_setup \<Rightarrow> start_inputs \<Rightarrow> council_db \<Rightarrow> (service_db, unit) action" where
  "prepare_service su si cdb =
     sbind open_service_store (\<lambda>_.
     sbind (\<lambda>db. (require (list_all (\<lambda>r. run_owner db (ru_id r) \<noteq> None) (cd_runs cdb))
        (ValueError ''Council service refuses a preexisting unowned run'') (Inr ()), db)) (\<lambda>_.
     if si_marker_link si then sraise (ValueError ''service marker must not be a symlink'')
     else sbind (store_set_principal_enabled ''work-laptop-human'' False) (\<lambda>_.
     sbind (store_set_principal_enabled ''work-laptop-agent'' False) (\<lambda>_.
     if su_monthly su < su_daily su then sraise (ValueError ''monthly_call_units must be at least daily_call_units'')
     else sbind (each (install_policy su) service_principals) (\<lambda>_. install_tokens su (si_wall si))))))"

definition fresh_app :: "service_setup \<Rightarrow> service_db world \<Rightarrow> service_app" where
  "fresh_app su w = \<lparr>at_world = w, at_closed = False, at_slots = capacity su, at_scheduled = [], at_pending = [],
     at_pending_ids = [], at_jobs = []\<rparr>"

text \<open>\<open>CouncilApplication.__init__\<close> on the stores of the data directory.\<close>

definition start_service ::
  "service_setup \<Rightarrow> start_inputs \<Rightarrow> service_db world \<Rightarrow> service_app result \<times> service_db world" where
  "start_service su si w =
     (case rbind (positive_limits su) (\<lambda>_.
        require (si_free si) (RuntimeError ''Another Council process already owns this data directory'')
       (rbind (validate_mock_only su) (\<lambda>_. council_accepted su si (wd_store w)))) of
        Inl e \<Rightarrow> (Inl e, w)
      | Inr _ \<Rightarrow>
          (case in_gate (prepare_service su si (wd_store w)) w of
             (Inl e, w') \<Rightarrow> (Inl e, w')
           | (Inr _, w') \<Rightarrow>
               (if su_recover su
                then (case recover_runs su (si_app si) (fresh_app su w') of
                  (Inl e, s) \<Rightarrow> (Inl e, at_world s)
                | (Inr _, s) \<Rightarrow> (Inr s, at_world s))
                else (Inr (fresh_app su w'), w'))))"

section \<open>Operations\<close>

definition app_revoke_tokens :: "string \<Rightarrow> py_datetime \<Rightarrow> (service_app, nat) action" where
  "app_revoke_tokens pid clk =
     (if pid \<in> pr_id ` set service_principals then on_service (revoke_principal_tokens pid None clk)
      else sraise (KeyError pid))"

datatype app_op =
    AppCreate app_inputs principal json json
  | AppPick
  | AppEnter string
  | AppFinish app_inputs job_inputs string
  | AppRevoke string py_datetime
  | AppClose

fun app_step :: "service_setup \<Rightarrow> service_app \<Rightarrow> app_op \<Rightarrow> service_app" where
  "app_step su s (AppCreate xi p q k) = snd (app_create_run su xi p q k s)"
| "app_step su s AppPick = pick_job su s"
| "app_step su s (AppEnter run) = enter_job run s"
| "app_step su s (AppFinish xi ji run) = finish_job su xi ji run s"
| "app_step su s (AppRevoke pid clk) = snd (app_revoke_tokens pid clk s)"
| "app_step su s AppClose = close_app s"

definition app_run :: "service_setup \<Rightarrow> service_app \<Rightarrow> app_op list \<Rightarrow> service_app" where
  "app_run su = foldl (app_step su)"

end
