(* ===== verification/Gate_Frame.thy ===== *)
theory Gate_Frame imports Run_Moves Service_Gate begin

text \<open>
  What every operation of a gate respects, every run of the engine respects.  Applied to the durable
  gate: provider calls never touch the bindings of runs to their owners.
\<close>

section \<open>A relation on the states of a gate\<close>

locale gate_frame =
  fixes gate :: "'g gate_protocol" and P :: "'g \<Rightarrow> 'g \<Rightarrow> bool"
  assumes P_refl: "P g g" and P_trans: "P g h \<Longrightarrow> P h k \<Longrightarrow> P g k"
    and reserve_P: "P g (snd (cg_reserve gate run stage c n clk g))"
    and reconcile_P: "P g (snd (cg_reconcile gate l a clk g))"
    and release_P: "P g (snd (cg_release gate l g))"
begin

definition gates :: "'g world \<Rightarrow> 'g world \<Rightarrow> bool" where
  "gates w w' \<longleftrightarrow> P (wd_gate w) (wd_gate w')"

lemma gates_order: "reflp gates" "transp gates"
  unfolding gates_def by (auto intro!: reflpI transpI P_refl intro: P_trans)

lemma gates_store: "keeps gates (in_store f)"
  by (auto simp: keeps_def in_store_def gates_def P_refl split: prod.split)

lemma gates_gate: "(\<And>g. P g (snd (f g))) \<Longrightarrow> keeps gates (in_gate f)"
  unfolding keeps_def in_gate_def gates_def by (auto split: prod.split) (metis snd_conv)

sublocale frame: stage_actions en "Some gate" gates "\<lambda>_. True" "\<lambda>_ _. True" "\<lambda>_. True" for en
  by unfold_locales
    (auto simp: gates_order gates_store fail_slot_def add_engine_event_def
      intro!: gates_gate reconcile_P release_P)

lemma pool_gate:
  assumes gate: "eg_gate eg = Some gate" and c: "P g (wd_gate (ps_world st))"
  shows "P g (wd_gate (ps_world (pool_step eg args cx st tk)))"
proof (cases rule: pool_step_cases [of eg args cx st tk])
  case idle
  with c show ?thesis by simp
next
  case start
  obtain ph w' where r: "start_call eg args (call_prompts cx (tk_name tk)) (call_limit cx (tk_name tk))
      tk (ps_world st) = (ph, w')" by fastforce
  have "wd_gate w' = wd_gate (ps_world st)"
    using r by (auto simp: start_call_def in_store_def split: if_splits sum.splits prod.splits)
  then show ?thesis using c by (simp add: start(3) r)
next
  case (reserve slot attempt)
  obtain ph w' where r: "reserve_lease eg args (call_limit cx (tk_name tk)) tk slot attempt
      (ps_world st) = (ph, w')" by fastforce
  have "P (wd_gate (ps_world st)) (wd_gate w')"
  proof (cases "provider_of eg (tk_name tk)")
    case (Inl e)
    then show ?thesis using r P_refl gate by (auto simp: reserve_lease_def)
  next
    case (Inr c)
    obtain a g' where a: "cg_reserve gate (sa_run args) (sa_stage args) c attempt (tk_clock tk)
        (wd_gate (ps_world st)) = (a, g')" by fastforce
    then have "P (wd_gate (ps_world st)) g'" by (metis reserve_P snd_conv)
    then show ?thesis using r gate Inr a by (cases a) (auto simp: reserve_lease_def)
  qed
  then show ?thesis using c P_trans by (simp add: reserve(2) r)
next
  case (call slot attempt lease)
  obtain ph w' where r: "call_provider eg args (call_prompts cx (tk_name tk))
      (call_limit cx (tk_name tk)) tk slot attempt lease (ps_world st) = (ph, w')" by fastforce
  have "wd_gate w' = wd_gate (ps_world st)"
    using r by (auto simp: call_provider_def split: if_splits sum.splits)
  then show ?thesis using c by (simp add: call(2) r)
next
  case (take oc i w')
  have "keeps gates (take_outcome eg args cx tk oc (ps_intake st))"
    by (rule frame.keeps_outcome [OF refl gate]) simp_all
  then have "gates (ps_world st) w'" using take(3) by (metis keeps_def snd_conv)
  then show ?thesis using c P_trans by (simp add: take(4) gates_def)
next
  case (fail oc e w')
  have "keeps gates (take_outcome eg args cx tk oc (ps_intake st))"
    by (rule frame.keeps_outcome [OF refl gate]) simp_all
  then have "gates (ps_world st) w'" using fail(3) by (metis keeps_def snd_conv)
  then show ?thesis using c P_trans by (simp add: fail(4) gates_def)
next
  case (rise e)
  then show ?thesis using c by simp
qed

lemma pool_run_gate:
  "eg_gate eg = Some gate \<Longrightarrow> P g (wd_gate (ps_world st)) \<Longrightarrow>
   P g (wd_gate (ps_world (run_pool eg args cx ticks st)))"
  unfolding run_pool_def by (induction ticks arbitrary: st) (simp_all add: pool_gate)

lemma calls_gate:
  assumes "eg_gate eg = Some gate"
  shows "keeps gates (run_calls eg args snapshot events work allowed ticks acc)"
  unfolding keeps_def gates_def
proof
  fix w
  obtain limits err where "submit (first_limit eg args snapshot) allowed = (limits, err)"
    by fastforce
  then show "P (wd_gate w) (wd_gate (snd (run_calls eg args snapshot events work allowed ticks acc w)))"
    using pool_run_gate [OF assms, of "wd_gate w" "start_pool limits err acc w" args
        "\<lparr>cx_snapshot = snapshot, cx_events = events, cx_work = work, cx_limits = limits\<rparr>" ticks]
    by (simp add: run_calls_def Let_def P_refl split: option.split)
qed

lemma stage_gate:
  assumes "eg_gate eg = Some gate"
  shows "keeps gates (run_parallel_stage eg args prompts first second now)"
  by (rule frame.keeps_stage [OF refl]) (rule calls_gate [OF assms])

end

text \<open>The same gate behind the engine of a run.\<close>

locale gated_run = gate_frame gate P for gate :: "'g gate_protocol" and P :: "'g \<Rightarrow> 'g \<Rightarrow> bool" +
  fixes rn :: "'g run_env" and run :: string
  assumes engine_gate: "eg_gate (rn_engine rn) = Some gate"
begin

lemma run_stage_gate: "keeps gates (run_stage rn args prompts inp)"
  using stage_gate [OF engine_gate] by (auto simp: run_stage_def split: prod.split)

sublocale acts: run_actions rn run gates UNIV UNIV
proof
  show "reflp gates" "transp gates" by (rule gates_order)+
  show "keeps gates (run_event rn run ty payload now)" for ty payload now
    unfolding run_event_def add_engine_event_def by (rule gates_store)
qed (simp_all add: gates_store run_stage_gate)

lemma resume_gate:
  assumes "wf_dict (eg_providers (rn_engine rn))"
  shows "P (wd_gate w) (wd_gate (snd (resume_run rn inp run w)))"
proof -
  have "gates w (snd (resume_run rn inp run w))"
    using acts.keeps_resume [OF assms, of w inp] locks_fixed
    by (fastforce simp: acts.may_judge_def acts.may_fix_def split: option.splits)
  then show ?thesis by (simp add: gates_def)
qed

end

section \<open>The durable gate leaves the bindings alone\<close>

definition same_bindings :: "service_db \<Rightarrow> service_db \<Rightarrow> bool" where
  "same_bindings db db' \<longleftrightarrow> db_bindings db' = db_bindings db"

definition with_gate :: "'g gate_protocol \<Rightarrow> 'g run_env \<Rightarrow> 'g run_env" where
  "with_gate g rn = rn\<lparr>rn_engine := (rn_engine rn)\<lparr>eg_gate := Some g\<rparr>\<rparr>"

lemma with_gate_same: "eg_gate (rn_engine rn) = Some g \<Longrightarrow> with_gate g rn = rn"
  by (simp add: with_gate_def)

lemma reserve_bindings: "same_bindings db (snd (reserve_call q tm clk db))"
  using reserve_cases [of q tm clk db] by (auto simp: same_bindings_def)

lemma settle_bindings:
  "same_bindings db (snd (reconcile_call rid pid a tm clk db))"
  "same_bindings db (snd (release_call rid pid db))"
  by (auto simp: same_bindings_def reconcile_call_def reconcile_call_body_def reconciled_answer_def release_call_def
      write_txn_snd split: sum.splits option.splits prod.splits call_state.splits)

interpretation bindings: gated_run "durable_gate sha p pol" same_bindings "with_gate (durable_gate sha p pol) rn" run
  for sha p pol rn run
proof
  show "same_bindings g g" for g by (simp add: same_bindings_def)
  show "same_bindings g h \<Longrightarrow> same_bindings h k \<Longrightarrow> same_bindings g k" for g h k by (simp add: same_bindings_def)
  show "same_bindings g (snd (cg_reserve (durable_gate sha p pol) run stage c n clk g))" for g run stage c n clk
    using reserve_bindings [of g _ None clk]
    by (auto simp: durable_gate_def durable_reserve_def Let_def same_bindings_def split: sum.splits prod.splits)
      (metis snd_conv)+
  show "same_bindings g (snd (cg_reconcile (durable_gate sha p pol) l a clk g))" for g l a clk
    using settle_bindings(1) [of g l "pr_id p" a None clk]
    by (auto simp: durable_gate_def durable_reconcile_def split: sum.splits prod.splits)
  show "same_bindings g (snd (cg_release (durable_gate sha p pol) l g))" for g l
    using settle_bindings(2) [of g l "pr_id p"]
    by (auto simp: durable_gate_def durable_release_def split: sum.splits prod.splits)
qed (simp add: with_gate_def)

end
