(* ===== verification/Action_Logic.thy ===== *)
theory Action_Logic imports Prelude begin

text \<open>
  A small Hoare logic for actions that may raise: \<open>triple P m Q E\<close> says that from a state of \<open>P\<close>, \<open>m\<close>
  returns with \<open>Q\<close> or raises with \<open>E\<close>.
\<close>

definition triple :: "('s \<Rightarrow> bool) \<Rightarrow> ('s, 'a) action \<Rightarrow> ('a \<Rightarrow> 's \<Rightarrow> bool) \<Rightarrow> ('s \<Rightarrow> bool) \<Rightarrow> bool" where
  "triple P m Q E \<longleftrightarrow> (\<forall>s. P s \<longrightarrow> (case m s of (Inr x, s') \<Rightarrow> Q x s' | (Inl e, s') \<Rightarrow> E s'))"

named_theorems triple_rules

lemma tripleI: "(\<And>s. P s \<Longrightarrow> case m s of (Inr x, s') \<Rightarrow> Q x s' | (Inl e, s') \<Rightarrow> E s') \<Longrightarrow> triple P m Q E"
  by (simp add: triple_def)

lemma triple_Inr: "triple P m Q E \<Longrightarrow> P s \<Longrightarrow> m s = (Inr x, s') \<Longrightarrow> Q x s'"
  and triple_Inl: "triple P m Q E \<Longrightarrow> P s \<Longrightarrow> m s = (Inl e, s') \<Longrightarrow> E s'"
  by (auto simp: triple_def)

lemma triple_weaken:
  assumes "triple P m Q E" and "\<And>s. P' s \<Longrightarrow> P s" and "\<And>x s. Q x s \<Longrightarrow> Q' x s" and "\<And>s. E s \<Longrightarrow> E' s"
  shows "triple P' m Q' E'"
proof (rule tripleI)
  fix s
  assume "P' s"
  then have "case m s of (Inr x, s') \<Rightarrow> Q x s' | (Inl e, s') \<Rightarrow> E s'"
    using assms(1,2) by (simp add: triple_def)
  then show "case m s of (Inr x, s') \<Rightarrow> Q' x s' | (Inl e, s') \<Rightarrow> E' s'"
    using assms(3,4) by (auto split: prod.splits sum.splits)
qed

lemma triple_bind: "triple P m Q E \<Longrightarrow> (\<And>x. triple (Q x) (f x) R E) \<Longrightarrow> triple P (sbind m f) R E"
  by (fastforce simp: triple_def sbind_def split: prod.splits sum.splits)

lemma triple_return: "triple (Q x) (sreturn x) Q E"
  and triple_raise: "triple E (sraise e) Q E"
  and triple_result: "triple P (sresult r) (\<lambda>x s. r = Inr x \<and> P s) P"
  by (simp_all add: triple_def split: sum.split)

lemma triple_returnI: "(\<And>s. P s \<Longrightarrow> Q x s) \<Longrightarrow> triple P (sreturn x) Q E"
  and triple_raiseI: "(\<And>s. P s \<Longrightarrow> E s) \<Longrightarrow> triple P (sraise e) Q E"
  by (simp_all add: triple_def)

lemma triple_if: "(c \<Longrightarrow> triple P m Q E) \<Longrightarrow> (\<not> c \<Longrightarrow> triple P m' Q E) \<Longrightarrow> triple P (if c then m else m') Q E"
  by simp

text \<open>Code that reads the state first.\<close>

lemma triple_look: "(\<And>t. triple (\<lambda>s. P s \<and> s = t) (f t) Q E) \<Longrightarrow> triple P (\<lambda>s. f s s) Q E"
  by (auto simp: triple_def)

lemma triple_assume: "(\<And>s. P s \<Longrightarrow> triple P m Q E) \<Longrightarrow> triple P m Q E"
  by (auto simp: triple_def)

lemma triple_fact: "(c \<Longrightarrow> triple P m Q E) \<Longrightarrow> triple (\<lambda>s. c \<and> P s) m Q E"
  by (auto simp: triple_def)

lemma triple_false [simp]: "triple (\<lambda>s. False) m Q E"
  by (simp add: triple_def)

end
