(* ===== verification/App_Laws.thy ===== *)
theory App_Laws imports App_Core Gate_Frame Action_Logic begin

text \<open>What the operations of the service application respect.\<close>

section \<open>The stores\<close>

text \<open>The council store moves by its own operations, and the binding of a stored run stays.\<close>

definition app_le :: "council_env \<Rightarrow> service_app \<Rightarrow> service_app \<Rightarrow> bool" where
  "app_le en s s' \<longleftrightarrow> (council_good (council_of s) \<longrightarrow> store_moves en (at_world s) (at_world s')
     \<and> (\<forall>p b. row_where p (db_bindings (service_of s)) = Some b \<longrightarrow>
          find_run_row (council_of s) (rb_run b) \<noteq> None \<longrightarrow> row_where p (db_bindings (service_of s')) = Some b))"

lemma store_moves_stored:
  assumes "store_moves en w w'" and "council_good (wd_store w)" and "find_run_row (wd_store w) r \<noteq> None"
  shows "find_run_row (wd_store w') r \<noteq> None"
proof -
  obtain ops where "wd_store w' = foldl (council_step en) (wd_store w) ops"
    using assms(1) by (auto simp: store_moves_def council_run_def)
  moreover obtain i where "run_named (wd_store w) r = Some i"
    using assms(3) by (simp add: run_named_def) blast
  ultimately have "run_named (wd_store w') r = Some i"
    using named_runs.run_settled_frozen [OF assms(2)] by simp
  then show ?thesis by (auto simp: run_named_def)
qed

lemma app_le_refl [simp]: "app_le en s s"
  by (simp add: app_le_def)

lemma app_le_trans:
  assumes "app_le en a b" and "app_le en b c"
  shows "app_le en a c"
proof (cases "council_good (council_of a)")
  case good: True
  then have ab: "store_moves en (at_world a) (at_world b)" using assms(1) by (simp add: app_le_def)
  then have "council_good (council_of b)" using good store_moves_good by blast
  then show ?thesis
    using assms good store_moves_trans [OF ab] store_moves_stored [OF ab good] unfolding app_le_def by blast
qed (simp add: app_le_def)

lemma app_le_same_world: "at_world s' = at_world s \<Longrightarrow> app_le en s s'"
  by (simp add: app_le_def)

text \<open>Bindings may be added.\<close>

definition world_le :: "council_env \<Rightarrow> service_db world \<Rightarrow> service_db world \<Rightarrow> bool" where
  "world_le en w w' \<longleftrightarrow> (council_good (wd_store w) \<longrightarrow> store_moves en w w')
     \<and> (\<exists>rows. db_bindings (wd_gate w') = db_bindings (wd_gate w) @ rows)"

lemma world_le_refl [simp]: "world_le en w w"
  by (simp add: world_le_def)

lemma app_le_world: "world_le en (at_world s) w \<Longrightarrow> app_le en s (s\<lparr>at_world := w\<rparr>)"
  by (auto simp: world_le_def app_le_def row_where_append)

lemma world_le_store:
  assumes "\<And>db. \<exists>x. snd (f db) = council_step en db x"
  shows "world_le en w (snd (in_store f w))"
proof -
  obtain x where "snd (f (wd_store w)) = council_step en (wd_store w) x" using assms by blast
  then have "store_moves en w (snd (in_store f w))"
    by (intro store_movesI [of _ _ _ x]) (auto simp: in_store_def split: prod.split)
  then show ?thesis by (simp add: world_le_def in_store_def split: prod.split)
qed

lemma world_le_gate:
  "(\<And>db. \<exists>rows. db_bindings (snd (f db)) = db_bindings db @ rows) \<Longrightarrow> world_le en w (snd (in_gate f w))"
  unfolding world_le_def in_gate_def
  by (auto simp: store_moves_def council_run_def intro: exI [of _ "[]"] split: prod.split) (metis snd_conv)

lemma service_seats_wf: "wf_dict (service_seats su)"
proof -
  have "wf_dict d \<Longrightarrow> wf_dict (foldl (\<lambda>d c. dict_set (cf_name c) c d) d cs)" for d cs
    by (induction cs arbitrary: d) simp_all
  then show ?thesis unfolding service_seats_def by (metis wf_dict_Nil)
qed

lemma new_engine_facts:
  assumes "new_engine su p = Inr rn"
  shows "wf_dict (eg_providers (rn_engine rn)) \<and> env_of rn = su_env su
    \<and> (\<exists>pol. eg_gate (rn_engine rn) = Some (durable_gate (en_sha (su_env su)) p pol))"
  using assms service_seats_wf [of su] by (auto simp: new_engine_def mk_engine_def Let_def result_simps)

lemma world_le_resume:
  assumes "new_engine su p = Inr rn"
  shows "world_le (su_env su) w (snd (resume_run rn inp run w))"
proof -
  obtain pol where rn: "wf_dict (eg_providers (rn_engine rn))" "env_of rn = su_env su"
      "eg_gate (rn_engine rn) = Some (durable_gate (en_sha (su_env su)) p pol)"
    using new_engine_facts [OF assms] by blast
  have "any_moves rn run w (snd (resume_run rn inp run w))"
  proof (rule moves.keeps_resume [OF rn(1)])
    fix row lk
    assume "checked_locks rn (wd_store w) row = Inr lk"
    from locks_fixed [OF this] show "moves.may_judge UNIV lk \<and> moves.may_fix lk"
      unfolding moves.may_judge_def moves.may_fix_def by (simp split: option.splits)
  qed
  then have "council_good (wd_store w) \<Longrightarrow> store_moves (su_env su) w (snd (resume_run rn inp run w))"
    using rn by (simp add: run_moves_def)
  moreover have "same_bindings (wd_gate w) (wd_gate (snd (resume_run rn inp run w)))"
    using bindings.resume_gate [where rn = rn and sha = "en_sha (su_env su)" and p = p and pol = pol and w = w
      and run = run and inp = inp] rn
    by (simp add: with_gate_same [OF rn(3)])
  ultimately show ?thesis by (simp add: world_le_def same_bindings_def)
qed

lemma world_le_create: "world_le (env_of rn) w (snd (create_council_run rn q key rid uuid now w))"
proof (cases "py_strip q = [] \<or> isl (plan_run rn (py_strip q))")
  case False
  then obtain plan where "plan_run rn (py_strip q) = Inr plan" by (cases "plan_run rn (py_strip q)") auto
  moreover have "\<exists>x. snd (create_run (en_sha (env_of rn)) (en_shaj (env_of rn)) (en_url (env_of rn)) a b c d e f g h i j db)
      = council_step (env_of rn) db x" for a b c d e f g h i j db
    by (rule exI [of _ "CreateRun a b c d e f g h i j"]) simp
  ultimately show ?thesis using False
    by (simp add: create_council_run_def Let_def sbind_def world_le_store)
next
  case True
  then show ?thesis by (auto simp: create_council_run_def Let_def sbind_def isl_def)
qed

lemma create_body_stores:
  assumes "create_run_body sha q pid v h cs pol req k ex r now db = Inr (x, db')" and "ex" and "k = None"
  shows "x = r \<and> find_run_row db' r \<noteq> None"
  using assms
  by (auto simp: create_run_body_def find_run_row_def row_where_append split: option.splits if_splits dest: row_where_Some)

lemma create_run_stores:
  assumes "create_run sha shaj url q pid v h cs pol None (Some (JStr r)) uuid now db = (Inr x, db')"
  shows "x = r \<and> find_run_row db' r \<noteq> None"
proof -
  obtain q' p' v' h' req where "create_run_body sha q' p' v' h' (canon cs) (canon pol) req None True r now db = Inr (x, db')"
    using assms
    by (auto simp: create_run_def write_txn_eq rbind_eq_Inr require_eq_Inr required_text_def split: sum.splits)
  from create_body_stores [OF this] show ?thesis by simp
qed

lemma create_stores:
  assumes "create_council_run rn q None (Some (JStr r)) uuid now w = (Inr x, w')"
  shows "x = r \<and> find_run_row (wd_store w') r \<noteq> None"
proof -
  obtain a b c d e f db' where "create_run (en_sha (env_of rn)) (en_shaj (env_of rn)) (en_url (env_of rn)) a b c d e f
      None (Some (JStr r)) uuid now (wd_store w) = (Inr x, db')" and "wd_store w' = db'"
    using assms
    by (auto simp: create_council_run_def Let_def sbind_eq_Inr in_store_def split: if_splits prod.splits)
  then show ?thesis using create_run_stores by simp
qed

end
