(* ===== verification/App_Scheduling.thy ===== *)
theory App_Scheduling imports App_Laws begin

text \<open>
  The books of the service application: slots, scheduled runs, the recovery queue and the jobs agree in
  every state that the operations reach.
\<close>

section \<open>The books\<close>

definition executing :: "string \<Rightarrow> job \<Rightarrow> bool" where
  "executing pid j \<longleftrightarrow> jb_phase j = JobExecuting \<and> pr_id (jb_principal j) = pid"

definition jobs_ok :: "service_setup \<Rightarrow> job list \<Rightarrow> bool" where
  "jobs_ok su js \<longleftrightarrow> distinct (map jb_run js)
     \<and> int (length (filter (\<lambda>j. jb_phase j \<noteq> JobQueued) js)) \<le> su_workers su
     \<and> (\<forall>pid. length (filter (executing pid) js) \<le> 1)"

definition queue_ok :: "service_app \<Rightarrow> bool" where
  "queue_ok s \<longleftrightarrow> set (at_scheduled s) = jb_run ` set (at_jobs s)
     \<and> distinct (map snd (at_pending s)) \<and> set (at_pending_ids s) = snd ` set (at_pending s)
     \<and> set (at_scheduled s) \<inter> set (at_pending_ids s) = {}"

definition known :: "service_app \<Rightarrow> string \<Rightarrow> bool" where
  "known s run \<longleftrightarrow> find_run_row (council_of s) run \<noteq> None \<and> find_run (service_of s) run \<noteq> None"

text \<open>With \<open>k\<close> slots in the hands of the operation.\<close>

definition app_ok :: "service_setup \<Rightarrow> nat \<Rightarrow> service_app \<Rightarrow> bool" where
  "app_ok su k s \<longleftrightarrow> council_good (council_of s) \<and> at_slots s + length (at_jobs s) + k = capacity su
     \<and> jobs_ok su (at_jobs s) \<and> queue_ok s \<and> (\<forall>run\<in>set (at_scheduled s) \<union> set (at_pending_ids s). known s run)"

definition same_queue :: "service_app \<Rightarrow> service_app \<Rightarrow> bool" where
  "same_queue s s' \<longleftrightarrow> at_slots s' = at_slots s \<and> at_scheduled s' = at_scheduled s \<and> at_pending s' = at_pending s
     \<and> at_pending_ids s' = at_pending_ids s \<and> at_jobs s' = at_jobs s"

lemma known_kept: "app_le en s s' \<Longrightarrow> council_good (council_of s) \<Longrightarrow> known s run \<Longrightarrow> known s' run"
proof -
  assume le: "app_le en s s'" and good: "council_good (council_of s)" and k: "known s run"
  obtain b where b: "row_where (\<lambda>r. rb_run r = run) (db_bindings (service_of s)) = Some b"
    using k by (auto simp: known_def find_run_def)
  then have "rb_run b = run" by (auto dest: row_where_Some)
  with b k le good have "row_where (\<lambda>r. rb_run r = run) (db_bindings (service_of s')) = Some b"
    by (auto simp: app_le_def known_def)
  moreover have "store_moves en (at_world s) (at_world s')" using le good by (simp add: app_le_def)
  then have "find_run_row (council_of s') run \<noteq> None"
    by (rule store_moves_stored) (use good k in \<open>simp_all add: known_def\<close>)
  ultimately show ?thesis by (simp add: known_def find_run_def)
qed

lemma app_le_good: "app_le en s s' \<Longrightarrow> council_good (council_of s) \<Longrightarrow> council_good (council_of s')"
  unfolding app_le_def using store_moves_good by blast

lemma app_ok_frame:
  assumes "app_ok su k s" and "app_le en s s'" and "same_queue s s'"
  shows "app_ok su k s'"
  using assms known_kept [OF assms(2)] app_le_good [OF assms(2)]
  by (auto simp: app_ok_def same_queue_def queue_ok_def)

text \<open>The books, and what the stores have kept since \<open>s0\<close>.\<close>

definition books :: "service_setup \<Rightarrow> service_app \<Rightarrow> nat \<Rightarrow> service_app \<Rightarrow> bool" where
  "books su s0 k s \<longleftrightarrow> app_ok su k s \<and> app_le (su_env su) s0 s"

lemma books_frame:
  assumes "books su s0 k s" and "app_le (su_env su) s s'" and "same_queue s s'"
  shows "books su s0 k s'"
  using assms app_ok_frame app_le_trans by (auto simp: books_def)

lemma books_world: "books su s0 k s \<Longrightarrow> world_le (su_env su) (at_world s) w \<Longrightarrow> books su s0 k (s\<lparr>at_world := w\<rparr>)"
  by (erule books_frame) (simp_all add: app_le_world same_queue_def)

lemma in_world_books:
  "(\<And>w. world_le (su_env su) w (snd (m w))) \<Longrightarrow>
   triple (books su s0 k) (in_world m) (\<lambda>_. books su s0 k) (books su s0 k)"
  by (auto simp: triple_def in_world_def intro: books_world split: prod.split sum.split) (metis books_world snd_conv)+

lemma give_slot_books:
  "triple (books su s0 (Suc k)) (give_slot su) (\<lambda>_. books su s0 k) (\<lambda>_. False)"
  by (auto simp: triple_def give_slot_def books_def app_ok_def queue_ok_def known_def app_le_def)

lemma take_slot_books:
  "triple (books su s0 k) take_slot (\<lambda>got. books su s0 (if got then Suc k else k)) (\<lambda>_. False)"
  by (auto simp: triple_def take_slot_def books_def app_ok_def queue_ok_def known_def app_le_def)

text \<open>A run that nothing schedules yet.\<close>

definition idle_run :: "string \<Rightarrow> service_app \<Rightarrow> bool" where
  "idle_run run s \<longleftrightarrow> run \<notin> set (at_scheduled s) \<and> run \<notin> set (at_pending_ids s)"

lemma submit_books:
  "triple (\<lambda>s. books su s0 (Suc k) s \<and> idle_run run s \<and> known s run) (submit_acquired su xi p run)
     (\<lambda>_. books su s0 k) (books su s0 (Suc k))"
proof (rule tripleI)
  fix s
  assume s: "books su s0 (Suc k) s \<and> idle_run run s \<and> known s run"
  show "case submit_acquired su xi p run s of (Inl e, s') \<Rightarrow> books su s0 (Suc k) s' | (Inr x, s') \<Rightarrow> books su s0 k s'"
  proof (cases "xi_accepts xi run")
    case True
    let ?t = "s\<lparr>at_scheduled := run # at_scheduled s,
        at_jobs := at_jobs s @ [\<lparr>jb_principal = p, jb_run = run, jb_phase = JobQueued\<rparr>]\<rparr>"
    have "run \<notin> jb_run ` set (at_jobs s)"
      using s by (auto simp: books_def app_ok_def queue_ok_def idle_run_def)
    then have "jobs_ok su (at_jobs ?t)"
      using s by (simp add: books_def app_ok_def jobs_ok_def executing_def)
    moreover have "queue_ok ?t"
    proof -
      have "queue_ok s" "idle_run run s" using s by (simp_all add: books_def app_ok_def)
      then have "set (run # at_scheduled s) \<inter> set (at_pending_ids s) = {}"
        unfolding queue_ok_def idle_run_def list.set by blast
      with \<open>queue_ok s\<close> show ?thesis by (simp only: queue_ok_def) simp
    qed
    moreover have "\<forall>r\<in>set (at_scheduled ?t) \<union> set (at_pending_ids ?t). known ?t r"
      using s by (auto simp: books_def app_ok_def known_def)
    ultimately have "app_ok su k ?t" using s by (simp add: books_def app_ok_def)
    moreover have "app_le (su_env su) s0 ?t" using s by (simp add: books_def app_le_def)
    ultimately show ?thesis using s True by (simp add: submit_acquired_def idle_run_def books_def)
  next
    case False
    then show ?thesis using s
      by (simp add: submit_acquired_def idle_run_def removeAll_id)
  qed
qed

lemma on_error_triple:
  assumes "triple P m Q E" and "triple E c (\<lambda>_. R) R"
  shows "triple P (on_error m c) Q R"
proof (rule tripleI)
  fix s
  assume "P s"
  then have "case m s of (Inr x, s') \<Rightarrow> Q x s' | (Inl e, s') \<Rightarrow> E s'" using assms(1) by (simp add: triple_def)
  then show "case on_error m c s of (Inr x, s') \<Rightarrow> Q x s' | (Inl e, s') \<Rightarrow> R s'"
    using assms(2) by (auto simp: on_error_def triple_def split: prod.splits sum.splits)
qed

lemma triple_stay: "(\<And>s. P s \<Longrightarrow> R (snd (m s))) \<Longrightarrow> triple P m (\<lambda>_. R) R"
  by (rule tripleI) (metis (mono_tags, lifting) case_prod_conv old.sum.exhaust old.sum.simps(5,6) prod.collapse)

lemma triple_after: "triple P m (\<lambda>_. R) R \<Longrightarrow> P s \<Longrightarrow> R (snd (m s))"
  unfolding triple_def by (cases "m s") (auto split: sum.splits)

section \<open>The recovery queue\<close>

lemma submit_pending_books:
  assumes "books su s0 k s" and "at_pending s = (p, run) # rest" and "at_slots s \<noteq> 0"
  shows "books su s0 k (snd (submit_pending su xi p run rest s))"
proof -
  let ?t = "s\<lparr>at_slots := at_slots s - 1, at_pending := rest, at_pending_ids := removeAll run (at_pending_ids s)\<rparr>"
  have "snd ` set rest = set (at_pending_ids ?t)"
    using assms by (auto simp: books_def app_ok_def queue_ok_def)
  moreover have "distinct (map snd rest)" using assms by (simp add: books_def app_ok_def queue_ok_def)
  ultimately have q: "queue_ok ?t" using assms by (auto simp: books_def app_ok_def queue_ok_def)
  have "books su s0 (Suc k) ?t"
    using assms q by (auto simp: books_def app_ok_def known_def app_le_def)
  moreover have "run \<in> set (at_pending_ids s)" using assms by (simp add: books_def app_ok_def queue_ok_def)
  then have "idle_run run ?t \<and> known ?t run"
    using assms by (auto simp: idle_run_def books_def app_ok_def queue_ok_def known_def)
  ultimately have "case submit_pending su xi p run rest s of (Inl e, s') \<Rightarrow> books su s0 k s' | (Inr x, s') \<Rightarrow> books su s0 k s'"
    using on_error_triple [OF submit_books [of su s0 k run xi p],
        OF triple_weaken [OF give_slot_books [of su s0 k], of _ "\<lambda>_. books su s0 k" "books su s0 k"]]
    by (simp add: submit_pending_def triple_def)
  then show ?thesis by (auto split: prod.splits sum.splits)
qed

lemma drain_keeps: "books su s0 k s \<Longrightarrow> books su s0 k (snd (drain_pending su xi s))"
proof (induction su xi s rule: drain_pending.induct)
  case (1 su xi s)
  show ?case
  proof (cases "at_pending s")
    case (Cons q rest)
    obtain p run where q: "q = (p, run)" by (cases q)
    show ?thesis
    proof (cases "at_closed s \<or> at_slots s = 0")
      case False
      have b: "books su s0 k (snd (submit_pending su xi p run rest s))"
        using submit_pending_books 1(2) Cons False q by blast
      obtain r s' where r: "submit_pending su xi p run rest s = (r, s')" by fastforce
      then show ?thesis
        using 1(1) [OF Cons q [symmetric] False r [symmetric]] b Cons False q
        by (cases r) (simp_all add: drain_pending.simps [of su xi s])
    qed (use 1 Cons q in \<open>simp add: drain_pending.simps [of su xi s]\<close>)
  qed (use 1 in \<open>simp add: drain_pending.simps [of su xi s]\<close>)
qed

lemma drain_books: "triple (books su s0 k) (drain_pending su xi) (\<lambda>_. books su s0 k) (books su s0 k)"
proof (rule tripleI)
  fix s
  assume "books su s0 k s"
  from drain_keeps [OF this, of xi]
  show "case drain_pending su xi s of (Inl e, s') \<Rightarrow> books su s0 k s' | (Inr x, s') \<Rightarrow> books su s0 k s'"
    by (auto split: prod.split sum.split)
qed

lemma queue_books:
  "books su s0 k s \<Longrightarrow> known s run \<Longrightarrow> books su s0 k (queue_recovery p run s)"
  by (auto simp: queue_recovery_def books_def app_ok_def queue_ok_def known_def app_le_def)

lemma ensure_books:
  "triple (\<lambda>s. books su s0 k s \<and> known s run) (ensure_scheduled su xi p run status)
     (\<lambda>_. books su s0 k) (books su s0 k)"
proof (rule tripleI)
  fix s
  assume s: "books su s0 k s \<and> known s run"
  then have "books su s0 k (snd (drain_pending su xi (queue_recovery p run s)))"
    using drain_keeps queue_books by blast
  then show "case ensure_scheduled su xi p run status s of
      (Inl e, s') \<Rightarrow> books su s0 k s' | (Inr x, s') \<Rightarrow> books su s0 k s'"
    using s by (auto simp: ensure_scheduled_def split: prod.split sum.split)
qed

section \<open>Creating runs\<close>

definition prepared :: "service_setup \<Rightarrow> service_app \<Rightarrow> nat \<Rightarrow> string \<Rightarrow> service_app \<Rightarrow> bool" where
  "prepared su s0 k run s \<longleftrightarrow> books su s0 k s \<and> idle_run run s \<and> find_run (service_of s) run \<noteq> None"

definition ready_run :: "service_setup \<Rightarrow> service_app \<Rightarrow> nat \<Rightarrow> string \<Rightarrow> service_app \<Rightarrow> bool" where
  "ready_run su s0 k run s \<longleftrightarrow> books su s0 k s \<and> idle_run run s \<and> known s run"

lemma bound_append: "find_run db run \<noteq> None \<Longrightarrow> db_bindings db' = db_bindings db @ rows \<Longrightarrow> find_run db' run \<noteq> None"
  by (auto simp: find_run_def row_where_append)

lemma prepared_world:
  "prepared su s0 k run s \<Longrightarrow> world_le (su_env su) (at_world s) w \<Longrightarrow> prepared su s0 k run (s\<lparr>at_world := w\<rparr>)"
  using books_world [of su s0 k s w] bound_append [of "service_of s" run "wd_gate w"]
  by (auto simp: prepared_def idle_run_def world_le_def)

lemma ready_world:
  assumes r: "ready_run su s0 k run s" and le: "world_le (su_env su) (at_world s) w"
  shows "ready_run su s0 k run (s\<lparr>at_world := w\<rparr>)"
proof -
  have "council_good (council_of s)" using r by (simp add: ready_run_def books_def app_ok_def)
  then have "known (s\<lparr>at_world := w\<rparr>) run"
    using known_kept [OF app_le_world [OF le]] r by (simp add: ready_run_def)
  with r le show ?thesis using books_world [of su s0 k s w] by (simp add: ready_run_def idle_run_def)
qed

lemma engine_create_ready:
  "triple (prepared su s0 k run) (engine_create su xi p q run)
     (\<lambda>x s. x = run \<and> ready_run su s0 k run s) (prepared su s0 k run)"
  unfolding engine_create_def
proof (rule triple_bind, rule triple_result, rule triple_fact)
  fix rn
  assume rn: "new_engine su p = Inr rn"
  show "triple (prepared su s0 k run) (in_world (create_council_run rn q None (Some (JStr run)) (xi_uuid xi) (xi_now xi 0)))
     (\<lambda>x s. x = run \<and> ready_run su s0 k run s) (prepared su s0 k run)"
  proof (rule tripleI)
    fix s
    assume s: "prepared su s0 k run s"
    obtain r w where m: "create_council_run rn q None (Some (JStr run)) (xi_uuid xi) (xi_now xi 0) (at_world s) = (r, w)"
      by fastforce
    have "world_le (su_env su) (at_world s) w"
      using world_le_create [of rn "at_world s" q None "Some (JStr run)" "xi_uuid xi" "xi_now xi 0"] m
        new_engine_facts [OF rn] by simp
    then have p: "prepared su s0 k run (s\<lparr>at_world := w\<rparr>)" by (rule prepared_world [OF s])
    show "case in_world (create_council_run rn q None (Some (JStr run)) (xi_uuid xi) (xi_now xi 0)) s of
        (Inl e, s') \<Rightarrow> prepared su s0 k run s' | (Inr x, s') \<Rightarrow> x = run \<and> ready_run su s0 k run s'"
    proof (cases r)
      case (Inr x)
      then have "x = run \<and> find_run_row (wd_store w) run \<noteq> None" using create_stores m by blast
      with p show ?thesis by (simp add: in_world_def m Inr prepared_def ready_run_def known_def)
    qed (simp add: in_world_def m p)
  qed
qed

lemma on_council_ready:
  assumes "\<And>db. \<exists>x. snd (f db) = council_step (su_env su) db x"
  shows "triple (ready_run su s0 k run) (on_council f) (\<lambda>_. ready_run su s0 k run) (ready_run su s0 k run)"
proof (rule tripleI)
  fix s
  assume s: "ready_run su s0 k run s"
  have "world_le (su_env su) (at_world s) (snd (in_store f (at_world s)))" by (rule world_le_store [OF assms])
  from ready_world [OF s this]
  show "case on_council f s of (Inl e, s') \<Rightarrow> ready_run su s0 k run s' | (Inr x, s') \<Rightarrow> ready_run su s0 k run s'"
    by (auto simp: on_council_def in_world_def split: prod.split sum.split)
qed

lemma status_step: "\<exists>x. snd (set_run_status (en_url en) run v err now db) = council_step en db x"
  by (rule exI [of _ "SetStatus run v err now"]) simp

lemma event_step: "\<exists>x. snd (append_event (en_shaj en) (en_url en) run t v now db) = council_step en db x"
  by (rule exI [of _ "AppendEvent run t v now"]) simp

lemma record_queued_ready:
  "triple (ready_run su s0 k run) (record_queued su xi p run typ) (\<lambda>_. ready_run su s0 k run) (ready_run su s0 k run)"
  unfolding record_queued_def
  by (rule triple_bind [OF on_council_ready [OF status_step]], rule triple_bind [OF on_council_ready [OF event_step]],
      rule triple_returnI)

lemma ready_books: "ready_run su s0 k run s \<Longrightarrow> books su s0 k s"
  and prepared_books: "prepared su s0 k run s \<Longrightarrow> books su s0 k s"
  by (simp_all add: ready_run_def prepared_def)

lemma submit_ready:
  "triple (ready_run su s0 (Suc k) run) (submit_acquired su xi p run) (\<lambda>_. books su s0 k) (books su s0 (Suc k))"
  by (rule triple_weaken [OF submit_books]) (auto simp: ready_run_def)

lemma give_back:
  "triple (books su s0 (Suc k)) (give_slot su) (\<lambda>_. books su s0 k) (books su s0 k)"
  by (rule triple_weaken [OF give_slot_books]) auto

lemma repair_books:
  "triple (prepared su s0 k run) (repair_binding su xi p q run) (\<lambda>_. books su s0 k) (books su s0 k)"
proof -
  have body: "triple (prepared su s0 (Suc k) run)
      (sbind (engine_create su xi p q run) (\<lambda>_.
        sbind (record_queued su xi p run ''run_binding_repaired'') (\<lambda>_. submit_acquired su xi p run)))
      (\<lambda>_. books su s0 k) (books su s0 (Suc k))"
  proof (rule triple_bind)
    show "triple (prepared su s0 (Suc k) run) (engine_create su xi p q run)
        (\<lambda>_. ready_run su s0 (Suc k) run) (books su s0 (Suc k))"
      by (rule triple_weaken [OF engine_create_ready]) (auto simp: prepared_books)
    show "triple (ready_run su s0 (Suc k) run)
        (sbind (record_queued su xi p run ''run_binding_repaired'') (\<lambda>_. submit_acquired su xi p run))
        (\<lambda>_. books su s0 k) (books su s0 (Suc k))"
      by (rule triple_bind [OF triple_weaken [OF record_queued_ready] submit_ready]) (auto simp: ready_books)
  qed
  have take: "triple (prepared su s0 k run) take_slot
      (\<lambda>got s. if got then prepared su s0 (Suc k) run s else books su s0 k s) (books su s0 k)"
    by (auto simp: triple_def take_slot_def prepared_def books_def app_ok_def queue_ok_def idle_run_def known_def app_le_def)
  show ?thesis
    unfolding repair_binding_def
  proof (rule triple_bind [OF take])
    show "triple (\<lambda>s. if got then prepared su s0 (Suc k) run s else books su s0 k s) (if \<not> got then sraise queue_full
        else sbind (on_error (sbind (engine_create su xi p q run) (\<lambda>_.
            sbind (record_queued su xi p run ''run_binding_repaired'') (\<lambda>_. submit_acquired su xi p run))) (give_slot su))
          (\<lambda>_. sreturn (queued_reply run True))) (\<lambda>_. books su s0 k) (books su s0 k)" for got
      by (cases got) (auto intro: triple_raise triple_bind [OF on_error_triple [OF body give_back]] triple_returnI)
  qed
qed

end
