(* ===== verification/App_Creation.thy ===== *)
theory App_Creation imports App_Scheduling begin

text \<open>Creating a run keeps the books, whatever fails on the way.\<close>

section \<open>Bindings\<close>

lemma bind_cases:
  assumes "bind_run pid k run payload tm clk db = (r, db')"
  obtains "db' = db" and "\<And>b. r = Inr b \<Longrightarrow> bn_code b \<noteq> B_CREATED"
  | b row where "r = Inr b" and "bn_code b = B_CREATED" and "find_run db run = None" and "find_key db pid k = None"
      and "row = \<lparr>rb_run = run, rb_principal = pid, rb_key = k, rb_payload = payload, rb_created = rb_created row\<rparr>"
      and "db' = db\<lparr>db_bindings := db_bindings db @ [row]\<rparr>"
proof (cases "rbind (check_text pid ''principal_id'') (\<lambda>_. rbind (check_text k ''idempotency_key'') (\<lambda>_.
    rbind (check_text run ''run_id'') (\<lambda>_. rbind (check_text payload ''payload_hash'') (\<lambda>_. utc_now tm clk))))")
  case (Inl e)
  then show thesis using assms by (intro that(1)) (auto simp: bind_run_def)
next
  case (Inr now)
  then have "(r, db') = (Inr (fst (bind_run_body pid k run payload now db)), snd (bind_run_body pid k run payload now db))"
    using assms by (simp add: bind_run_def write_txn_def split: prod.splits)
  then show thesis
    using that(1) that(2) [of _ "\<lparr>rb_run = run, rb_principal = pid, rb_key = k, rb_payload = payload, rb_created = now\<rparr>"]
    by (auto simp: bind_run_body_def mk_binding_def split: option.splits if_splits)
qed

lemma idle_unbound: "books su s0 k s \<Longrightarrow> find_run (service_of s) run = None \<Longrightarrow> idle_run run s"
  and idle_unstored: "books su s0 k s \<Longrightarrow> find_run_row (council_of s) run = None \<Longrightarrow> idle_run run s"
  unfolding books_def app_ok_def known_def idle_run_def by blast+

lemma bind_prepared:
  "triple (books su s0 k) (on_service (bind_run pid key run payload tm clk))
     (\<lambda>b s. if bn_code b = B_CREATED then prepared su s0 k run s else books su s0 k s) (books su s0 k)"
proof (rule tripleI)
  fix s
  assume s: "books su s0 k s"
  obtain r db' where b: "bind_run pid key run payload tm clk (service_of s) = (r, db')" by fastforce
  have eq: "on_service (bind_run pid key run payload tm clk) s = (r, s\<lparr>at_world := (at_world s)\<lparr>wd_gate := db'\<rparr>\<rparr>)"
    by (simp add: on_service_def in_world_def in_gate_def b)
  show "case on_service (bind_run pid key run payload tm clk) s of (Inl e, s') \<Rightarrow> books su s0 k s'
      | (Inr b, s') \<Rightarrow> if bn_code b = B_CREATED then prepared su s0 k run s' else books su s0 k s'"
    using b
  proof (cases rule: bind_cases)
    case 1
    then show ?thesis using s eq by (auto split: sum.split)
  next
    case (2 b row)
    have "world_le (su_env su) (at_world s) ((at_world s)\<lparr>wd_gate := db'\<rparr>)"
      by (simp add: world_le_def store_moves_def council_run_def 2(6) exI [of _ "[]"])
    then have "books su s0 k (s\<lparr>at_world := (at_world s)\<lparr>wd_gate := db'\<rparr>\<rparr>)" by (rule books_world [OF s])
    moreover have "idle_run run s" by (rule idle_unbound [OF s 2(3)])
    moreover have "rb_run row = run" using 2(5) by (metis binding_row.select_convs(1))
    ultimately show ?thesis
      using 2 by (simp add: eq prepared_def idle_run_def find_run_def row_where_append)
  qed
qed

lemma abandon_books:
  assumes "books su s0 k s" and "find_run_row (council_of s) run = None"
  shows "books su s0 k (snd (on_service (abandon_run_binding pid key run payload) s))"
proof -
  let ?s' = "snd (on_service (abandon_run_binding pid key run payload) s)"
  have eq: "at_world ?s' = (at_world s)\<lparr>wd_gate := (service_of s)\<lparr>db_bindings :=
      delete_where (abandonable (service_of s) pid key run payload) (db_bindings (service_of s))\<rparr>\<rparr>"
    by (simp add: on_service_def in_world_def in_gate_def abandon_run_binding_def write_txn_def)
  have "\<not> abandonable (service_of s) pid key run payload b" if "find_run_row (council_of s) (rb_run b) \<noteq> None" for b
    using that assms(2) by (auto simp: abandonable_def)
  then have "app_le (su_env su) s ?s'"
    unfolding app_le_def eq
    by (auto simp: store_moves_def council_run_def intro: exI [of _ "[]"] intro!: row_where_delete_keep)
  moreover have "same_queue s ?s'"
    by (simp add: same_queue_def on_service_def in_world_def split: prod.split)
  ultimately show ?thesis by (rule books_frame [OF assms(1)])
qed

lemma undo_books: "triple (books su s0 k) (undo_binding su xi p key payload) (\<lambda>_. books su s0 k) (books su s0 k)"
  unfolding undo_binding_def
proof (rule triple_bind)
  show "triple (books su s0 k) (\<lambda>s. if get_run (council_of s) (xi_uuid xi) = None
         then sbind (on_service (abandon_run_binding (pr_id p) key (xi_uuid xi) payload)) (\<lambda>_. sreturn ()) s
         else (Inr (), s)) (\<lambda>_. books su s0 k) (books su s0 k)"
  proof (rule triple_stay)
    fix s
    assume s: "books su s0 k s"
    show "books su s0 k (snd (if get_run (council_of s) (xi_uuid xi) = None
         then sbind (on_service (abandon_run_binding (pr_id p) key (xi_uuid xi) payload)) (\<lambda>_. sreturn ()) s
         else (Inr (), s)))"
      using abandon_books [OF s, of "xi_uuid xi" "pr_id p" key payload] s
      by (auto simp: get_run_def sbind_def split: prod.splits sum.splits)
  qed
  have "triple (books su s0 k) (on_council f) (\<lambda>_. books su s0 k) (books su s0 k)"
    if "\<And>db. \<exists>x. snd (f db) = council_step (su_env su) db x" for f
    unfolding on_council_def by (rule in_world_books, rule world_le_store [OF that])
  note status = triple_after [OF this [OF status_step]]
  show "triple (books su s0 k) (\<lambda>s. if get_run (council_of s) (xi_uuid xi) = None then (Inr (), s)
         else suppress (on_council (set_run_status (en_url (su_env su)) (xi_uuid xi) (JStr ''failed'')
           (ErrDict [(''message'', JStr ''Run dispatch failed safely'')]) (xi_now xi 3))) s)
        (\<lambda>_. books su s0 k) (books su s0 k)"
    by (rule triple_stay) (simp add: suppress_def status)
qed

section \<open>The whole operation\<close>

lemma dispatch_books:
  "triple (prepared su s0 (Suc k) (xi_uuid xi)) (dispatch_new su xi p q) (\<lambda>_. books su s0 k) (books su s0 (Suc k))"
  unfolding dispatch_new_def
proof (rule triple_bind)
  show "triple (prepared su s0 (Suc k) (xi_uuid xi)) (engine_create su xi p q (xi_uuid xi))
      (\<lambda>x s. x = xi_uuid xi \<and> ready_run su s0 (Suc k) (xi_uuid xi) s) (books su s0 (Suc k))"
    by (rule triple_weaken [OF engine_create_ready]) (auto simp: prepared_books)
  show "triple (\<lambda>s. x = xi_uuid xi \<and> ready_run su s0 (Suc k) (xi_uuid xi) s)
      (if x \<noteq> xi_uuid xi then sraise (RuntimeError ''Council store returned an unexpected run_id'')
       else sbind (record_queued su xi p (xi_uuid xi) ''run_queued'') (\<lambda>_. submit_acquired su xi p (xi_uuid xi)))
      (\<lambda>_. books su s0 k) (books su s0 (Suc k))" for x
    by (rule triple_fact)
      (auto intro: triple_bind [OF triple_weaken [OF record_queued_ready] submit_ready] simp: ready_books)
qed

lemma other_books:
  "triple (books su s0 (Suc k)) (other_binding su b) (\<lambda>_. books su s0 k) (books su s0 (Suc k))"
proof -
  have "triple (books su s0 (Suc k)) (sbind (sresult m) (\<lambda>m. sbind (give_slot su) (\<lambda>_. sreturn (200 :: nat, m))))
      (\<lambda>_. books su s0 k) (books su s0 (Suc k))" for m :: "jobj result"
    by (rule triple_bind [OF triple_result], rule triple_fact, rule triple_bind [OF triple_weaken [OF give_slot_books, where Q' = "\<lambda>_. books su s0 k"]])
      (auto intro: triple_returnI)
  note each = this
  have "triple (books su s0 (Suc k)) (\<lambda>s. sbind (sresult (m s)) (\<lambda>m. sbind (give_slot su) (\<lambda>_. sreturn (200 :: nat, m))) s)
      (\<lambda>_. books su s0 k) (books su s0 (Suc k))" for m :: "service_app \<Rightarrow> jobj result"
  proof (rule tripleI)
    fix s
    assume "books su s0 (Suc k) s"
    with each [of "m s"]
    show "case sbind (sresult (m s)) (\<lambda>m. sbind (give_slot su) (\<lambda>_. sreturn (200 :: nat, m))) s of
        (Inl e, s') \<Rightarrow> books su s0 (Suc k) s' | (Inr x, s') \<Rightarrow> books su s0 k s'"
      by (simp only: triple_def)
  qed
  then show ?thesis by (auto simp: other_binding_def intro: triple_raise)
qed

lemma new_binding_books:
  "triple (books su s0 k) (new_binding su xi p q key payload) (\<lambda>_. books su s0 k) (books su s0 k)"
  unfolding new_binding_def
proof (rule triple_bind)
  show "triple (books su s0 k) take_slot (\<lambda>got. books su s0 (if got then Suc k else k)) (books su s0 k)"
    by (rule triple_weaken [OF take_slot_books]) auto
  show "triple (books su s0 (if got then Suc k else k)) (if \<not> got then sraise queue_full
      else sbind (on_error (on_service (bind_run (pr_id p) key (xi_uuid xi) payload None (xi_clock xi 1))) (give_slot su))
         (\<lambda>b. if bn_code b = B_CREATED
            then sbind (on_error (dispatch_new su xi p q)
                (sbind (undo_binding su xi p key payload) (\<lambda>_. give_slot su)))
              (\<lambda>_. sreturn (queued_reply (xi_uuid xi) False))
            else on_error (other_binding su b) (give_slot su)))
      (\<lambda>_. books su s0 k) (books su s0 k)" for got
  proof (cases got)
    case True
    have undo: "triple (books su s0 (Suc k)) (sbind (undo_binding su xi p key payload) (\<lambda>_. give_slot su))
        (\<lambda>_. books su s0 k) (books su s0 k)"
    proof -
      have "fst (undo_binding su xi p key payload s) = Inr ()" for s
        by (auto simp: undo_binding_def sbind_def on_service_def in_world_def in_gate_def abandon_run_binding_def
            write_txn_def suppress_def split: prod.split)
      then have "triple (books su s0 (Suc k)) (undo_binding su xi p key payload) (\<lambda>_. books su s0 (Suc k)) (books su s0 k)"
        using undo_books [of su s0 "Suc k" xi p key payload] unfolding triple_def
        by (metis (mono_tags, lifting) case_prod_conv old.sum.simps(6) prod.collapse)
      then show ?thesis by (rule triple_bind) (rule give_back)
    qed
    have "triple (\<lambda>s. if bn_code b = B_CREATED then prepared su s0 (Suc k) (xi_uuid xi) s else books su s0 (Suc k) s)
        (if bn_code b = B_CREATED
            then sbind (on_error (dispatch_new su xi p q)
                (sbind (undo_binding su xi p key payload) (\<lambda>_. give_slot su)))
              (\<lambda>_. sreturn (queued_reply (xi_uuid xi) False))
            else on_error (other_binding su b) (give_slot su)) (\<lambda>_. books su s0 k) (books su s0 k)" for b
      by (cases "bn_code b = B_CREATED")
        (auto intro: triple_bind [OF on_error_triple [OF dispatch_books undo]] triple_returnI
          on_error_triple [OF other_books give_back])
    then show ?thesis
      using True by (simp add: triple_bind [OF on_error_triple [OF bind_prepared give_back]])
  qed (simp add: triple_raise)
qed

end
