(* ===== verification/App_Operations.thy ===== *)
theory App_Operations imports App_Creation begin

text \<open>Every operation of the application keeps the books, and so does its start.\<close>

section \<open>Requests\<close>

lemma find_binding_facts:
  assumes "find_run_binding db pid k payload = Inr (Some b)"
  shows "\<exists>row. find_key db pid k = Some row \<and> bn_run b = rb_run row \<and> bn_payload b = rb_payload row
    \<and> bn_code b = (if rb_payload row = payload then B_REPLAY else B_IDEMPOTENCY_CONFLICT)"
  using assms by (auto simp: find_run_binding_def mk_binding_def rbind_eq_Inr)

lemma key_bound: "find_key db pid k = Some row \<Longrightarrow> find_run db (rb_run row) \<noteq> None"
proof -
  assume "find_key db pid k = Some row"
  then have "row \<in> set (db_bindings db)" by (auto simp: find_key_def dest: row_where_Some)
  then show ?thesis by (auto simp: find_run_def row_where_None)
qed

lemma replay_books:
  assumes "books su s0 k s" and "find_run (service_of s) (bn_run b) \<noteq> None"
  shows "books su s0 k (snd (replay_binding su xi p q b s))"
proof (cases "bn_code b = B_IDEMPOTENCY_CONFLICT")
  case False
  show ?thesis
  proof (cases "get_run (council_of s) (bn_run b)")
    case None
    then have "prepared su s0 k (bn_run b) s"
      using assms idle_unstored by (simp add: prepared_def get_run_def)
    then show ?thesis
      using triple_after [OF repair_books] False None by (simp add: replay_binding_def)
  next
    case (Some row)
    then have "books su s0 k s \<and> known s (bn_run b)"
      using assms by (simp add: known_def get_run_def)
    note ensured = triple_after [OF ensure_books this, of xi p "ru_status row"]
    then show ?thesis using False Some
      by (simp add: replay_binding_def sbind_def split: prod.split sum.split)
        (metis (no_types, lifting) ensured snd_conv)
  qed
qed (simp add: replay_binding_def assms)

lemma create_books: "books su s0 k s \<Longrightarrow> books su s0 k (snd (app_create_run su xi p question key s))"
proof (cases "rbind (validate_question question) (\<lambda>q. rbind (validate_idempotency_key key) (\<lambda>k. Inr (q, k)))")
  case (Inl e)
  assume "books su s0 k s"
  with Inl show ?thesis by (auto simp: app_create_run_def sbind_def rbind_eq_Inl)
next
  case (Inr x)
  assume s: "books su s0 k s"
  obtain q t where q: "validate_question question = Inr q" "validate_idempotency_key key = Inr t"
    using Inr by (auto simp: rbind_eq_Inr)
  let ?payload = "request_hash (en_shaj (su_env su)) q"
  obtain a where a: "authorize p RUN_CREATE (xi_clock xi 0) s = (a, s)" by (simp add: authorize_def)
  show ?thesis
  proof (cases "at_closed s \<or> isl a")
    case True
    then show ?thesis using s q a by (auto simp: app_create_run_def Let_def sbind_def isl_def)
  next
    case False
    then obtain u where "a = Inr u" by (cases a) auto
    then have run: "snd (app_create_run su xi p question key s)
        = snd (sbind (sresult (find_run_binding (service_of s) (pr_id p) t ?payload)) (\<lambda>x. case x of
           Some b \<Rightarrow> replay_binding su xi p q b | None \<Rightarrow> new_binding su xi p q t ?payload) s)"
      using q a False by (simp add: app_create_run_def Let_def sbind_def [of "sresult _"] sbind_def [of "authorize _ _ _"])
    show ?thesis
    proof (cases "find_run_binding (service_of s) (pr_id p) t ?payload")
      case (Inl e)
      then show ?thesis using s run by (simp add: sbind_def)
    next
      case (Inr y)
      show ?thesis
      proof (cases y)
        case None
        then show ?thesis
          using triple_after [OF new_binding_books s] Inr run by (simp add: sbind_def)
      next
        case (Some b)
        then obtain row where "find_key (service_of s) (pr_id p) t = Some row" "bn_run b = rb_run row"
          using find_binding_facts Inr by blast
        then have "find_run (service_of s) (bn_run b) \<noteq> None" using key_bound by metis
        from replay_books [OF s this] show ?thesis using Inr run Some by (simp add: sbind_def)
      qed
    qed
  qed
qed

section \<open>Jobs\<close>

lemma books_jobs:
  assumes s: "books su s0 k s" and "jobs_ok su js" and runs: "map jb_run js = map jb_run (at_jobs s)"
  shows "books su s0 k (s\<lparr>at_jobs := js\<rparr>)"
proof -
  have "jb_run ` set js = jb_run ` set (at_jobs s)" using runs by (metis list.set_map)
  then have "queue_ok (s\<lparr>at_jobs := js\<rparr>)" using s by (auto simp: books_def app_ok_def queue_ok_def)
  moreover have "length js = length (at_jobs s)" using runs by (metis length_map)
  ultimately show ?thesis using s assms(2) by (auto simp: books_def app_ok_def known_def app_le_def)
qed

lemma pick_first_facts:
  "map jb_run (pick_first js) = map jb_run js"
  "length (filter (executing pid) (pick_first js)) = length (filter (executing pid) js)"
  "length (filter (\<lambda>j. jb_phase j \<noteq> JobQueued) (pick_first js)) \<le> Suc (length (filter (\<lambda>j. jb_phase j \<noteq> JobQueued) js))"
  by (induction js) (auto simp: executing_def)

lemma pick_books: "books su s0 k s \<Longrightarrow> books su s0 k (pick_job su s)"
proof (cases "int (busy_workers s) < su_workers su")
  case True
  assume s: "books su s0 k s"
  have "jobs_ok su (pick_first (at_jobs s))"
    using s True pick_first_facts(3) [of "at_jobs s"]
    by (auto simp: books_def app_ok_def jobs_ok_def pick_first_facts(1,2) busy_workers_def)
  from books_jobs [OF s this pick_first_facts(1)] True show ?thesis by (simp add: pick_job_def)
qed (simp add: pick_job_def)

lemma filter_enter:
  assumes "distinct (map jb_run js)" and "j \<in> set js" and "jb_run j = run"
  shows "length (filter (executing pid) (map (\<lambda>x. if jb_run x = run then x\<lparr>jb_phase := JobExecuting\<rparr> else x) js))
    \<le> length (filter (executing pid) js) + (if pr_id (jb_principal j) = pid then 1 else 0)"
  using assms
proof (induction js)
  case (Cons x js)
  show ?case
  proof (cases "x = j")
    case True
    with Cons.prems have "\<forall>y\<in>set js. jb_run y \<noteq> run" by (auto simp: image_iff)
    then have "map (\<lambda>x. if jb_run x = run then x\<lparr>jb_phase := JobExecuting\<rparr> else x) js = js"
      by (simp add: map_idI)
    with True Cons.prems show ?thesis by (auto simp: executing_def)
  next
    case False
    then have "j \<in> set js" "jb_run x \<noteq> run" using Cons.prems by auto
    then show ?thesis using Cons by (auto simp: executing_def)
  qed
qed simp

lemma filter_busy_enter:
  assumes "distinct (map jb_run js)" and "j \<in> set js" and "jb_run j = run" and "jb_phase j \<noteq> JobQueued"
  shows "length (filter (\<lambda>x. jb_phase x \<noteq> JobQueued) (map (\<lambda>x. if jb_run x = run then x\<lparr>jb_phase := JobExecuting\<rparr> else x) js))
    = length (filter (\<lambda>x. jb_phase x \<noteq> JobQueued) js)"
  using assms
proof (induction js)
  case (Cons x js)
  show ?case
  proof (cases "x = j")
    case True
    with Cons.prems have "\<forall>y\<in>set js. jb_run y \<noteq> run" by (auto simp: image_iff)
    then have "map (\<lambda>x. if jb_run x = run then x\<lparr>jb_phase := JobExecuting\<rparr> else x) js = js"
      by (simp add: map_idI)
    with True Cons.prems show ?thesis by auto
  next
    case False
    then have "j \<in> set js" "jb_run x \<noteq> run" using Cons.prems by auto
    then show ?thesis using Cons by auto
  qed
qed simp

lemma enter_books: "books su s0 k s \<Longrightarrow> books su s0 k (enter_job run s)"
proof (cases "find (\<lambda>j. jb_run j = run \<and> jb_phase j = JobWaiting) (at_jobs s)")
  case (Some j)
  assume s: "books su s0 k s"
  let ?js = "map (\<lambda>x. if jb_run x = run then x\<lparr>jb_phase := JobExecuting\<rparr> else x) (at_jobs s)"
  have j: "j \<in> set (at_jobs s)" "jb_run j = run" "jb_phase j = JobWaiting"
    using Some by (auto simp: find_Some_iff)
  have d: "distinct (map jb_run (at_jobs s))" using s by (simp add: books_def app_ok_def jobs_ok_def)
  show ?thesis
  proof (cases "list_ex (executing (pr_id (jb_principal j))) (at_jobs s)")
    case False
    then have none: "filter (executing (pr_id (jb_principal j))) (at_jobs s) = []"
      by (auto simp: filter_empty_conv list_ex_iff)
    have "length (filter (executing pid) ?js) \<le> 1" for pid
    proof (cases "pr_id (jb_principal j) = pid")
      case True
      then show ?thesis using filter_enter [OF d j(1,2), of pid] none by (auto split: if_splits)
    next
      case other: False
      have "length (filter (executing pid) (at_jobs s)) \<le> 1" using s by (simp add: books_def app_ok_def jobs_ok_def)
      then show ?thesis using filter_enter [OF d j(1,2), of pid] other by simp
    qed
    moreover have runs: "map jb_run ?js = map jb_run (at_jobs s)" by simp
    ultimately have "jobs_ok su ?js"
      using s d filter_busy_enter [OF d j(1,2)] j(3) unfolding books_def app_ok_def jobs_ok_def runs by simp
    from books_jobs [OF s this runs] show ?thesis
      using Some False by (simp add: enter_job_def executing_def [abs_def])
  qed (use s Some in \<open>simp add: enter_job_def executing_def [abs_def]\<close>)
qed (simp add: enter_job_def)

lemma resume_books: "books su s0 k s \<Longrightarrow> books su s0 k (snd (resume_for su ji p run s))"
proof (cases "new_engine su p")
  case (Inr rn)
  assume s: "books su s0 k s"
  then show ?thesis
    using books_world [OF s world_le_resume [OF Inr]]
    by (simp add: resume_for_def Inr sbind_def in_world_def split: prod.split) (metis snd_conv)
qed (simp add: resume_for_def sbind_def)

lemma on_council_books:
  assumes "\<And>db. \<exists>x. snd (f db) = council_step (su_env su) db x"
  shows "triple (books su s0 k) (on_council f) (\<lambda>_. books su s0 k) (books su s0 k)"
  unfolding on_council_def by (rule in_world_books, rule world_le_store [OF assms])

lemma record_failed_books: "books su s0 k s \<Longrightarrow> books su s0 k (snd (record_failed su ji run e s))"
proof -
  assume s: "books su s0 k s"
  have "triple (books su s0 k) (sbind (on_council (set_run_status (en_url (su_env su)) run (JStr ''failed'')
        (ErrDict (safe_error e)) (ji_now ji 0)))
       (\<lambda>_. sbind (on_council (append_event (en_shaj (su_env su)) (en_url (su_env su)) run (JStr ''run_failed'')
          (JObj (safe_error e)) (ji_now ji 1))) (\<lambda>_. sreturn ()))) (\<lambda>_. books su s0 k) (books su s0 k)"
    by (rule triple_bind [OF on_council_books [OF status_step]], rule triple_bind [OF on_council_books [OF event_step]],
        rule triple_returnI)
  from triple_after [OF this s] show ?thesis by (simp add: record_failed_def suppress_def)
qed

lemma execute_books: "books su s0 k s \<Longrightarrow> books su s0 k (snd (execute_run su ji p run s))"
  using resume_books [of su s0 k s ji p run] record_failed_books
  by (auto simp: execute_run_def split: prod.split sum.split)

lemma execute_jobs: "same_queue s (snd (execute_run su ji p run s))"
proof -
  have w: "same_queue s (snd (in_world m s))" for m :: "(service_db world, 'x) action" and s
    by (simp add: same_queue_def in_world_def split: prod.split)
  have trans: "same_queue a b \<Longrightarrow> same_queue b c \<Longrightarrow> same_queue a c" for a b c
    by (simp add: same_queue_def)
  have r: "same_queue s (snd (resume_for su ji p run s))"
    by (auto simp: resume_for_def sbind_def same_queue_def in_world_def split: prod.split sum.split)
  have f: "same_queue t (snd (record_failed su ji run e t))" for t e
    by (auto simp: record_failed_def suppress_def sbind_def same_queue_def on_council_def in_world_def
        split: prod.split sum.split)
  obtain x t where m: "resume_for su ji p run s = (x, t)" by fastforce
  with r have "same_queue s t" by (metis snd_conv)
  then show ?thesis using trans [OF _ f, of s t] by (cases x) (simp_all add: execute_run_def m)
qed

lemma jobs_ok_filter: "jobs_ok su js \<Longrightarrow> jobs_ok su (filter P js)"
proof -
  assume ok: "jobs_ok su js"
  have "length (filter Q (filter P js)) \<le> length (filter Q js)" for Q
    by (induction js) auto
  then have "length (filter (\<lambda>j. jb_phase j \<noteq> JobQueued) (filter P js)) \<le> length (filter (\<lambda>j. jb_phase j \<noteq> JobQueued) js)"
    and "length (filter (executing pid) (filter P js)) \<le> 1" for pid
    using ok unfolding jobs_ok_def by (blast, meson order_trans)
  then show ?thesis using ok unfolding jobs_ok_def by (auto simp: distinct_map_filter simp del: filter_filter)
qed

lemma filter_run_length:
  "distinct (map jb_run js) \<Longrightarrow> j \<in> set js \<Longrightarrow> jb_run j = run \<Longrightarrow>
   Suc (length (filter (\<lambda>j. jb_run j \<noteq> run) js)) = length js"
proof (induction js)
  case (Cons x js)
  show ?case
  proof (cases "x = j")
    case True
    with Cons.prems have "filter (\<lambda>j. jb_run j \<noteq> run) js = js" by (auto simp: filter_id_conv image_iff)
    with True Cons.prems show ?thesis by simp
  qed (use Cons in auto)
qed simp

definition without_job :: "string \<Rightarrow> service_app \<Rightarrow> service_app" where
  "without_job run s =
     s\<lparr>at_jobs := filter (\<lambda>j. jb_run j \<noteq> run) (at_jobs s), at_scheduled := removeAll run (at_scheduled s)\<rparr>"

lemma without_job_books:
  assumes s: "books su s0 k s" and j: "j \<in> set (at_jobs s)" "jb_run j = run"
  shows "books su s0 (Suc k) (without_job run s)"
proof -
  have d: "distinct (map jb_run (at_jobs s))" using s by (simp add: books_def app_ok_def jobs_ok_def)
  have "queue_ok (without_job run s)" using s by (auto simp: books_def app_ok_def queue_ok_def without_job_def)
  then show ?thesis
    using s filter_run_length [OF d j] jobs_ok_filter
    by (auto simp: books_def app_ok_def known_def app_le_def without_job_def)
qed

lemma release_books:
  assumes s: "books su s0 k s" and j: "j \<in> set (at_jobs s)" "jb_run j = run"
  shows "books su s0 k (snd (release_job su xi run s))"
proof -
  have "triple (books su s0 (Suc k)) (sbind (give_slot su) (\<lambda>_. drain_pending su xi)) (\<lambda>_. books su s0 k) (books su s0 k)"
    by (rule triple_bind [OF give_back drain_books])
  from triple_after [OF this without_job_books [OF assms]] show ?thesis
    by (simp add: release_job_def without_job_def)
qed

lemma finish_books: "books su s0 k s \<Longrightarrow> books su s0 k (finish_job su xi ji run s)"
proof (cases "find (\<lambda>j. jb_run j = run \<and> jb_phase j = JobExecuting) (at_jobs s)")
  case (Some j)
  assume s: "books su s0 k s"
  have "j \<in> set (at_jobs s)" "jb_run j = run" using Some by (auto simp: find_Some_iff)
  then have "j \<in> set (at_jobs (snd (execute_run su ji (jb_principal j) run s)))"
    using execute_jobs [of s su ji "jb_principal j" run] by (simp add: same_queue_def)
  from release_books [OF execute_books [OF s] this \<open>jb_run j = run\<close>] show ?thesis by (simp add: finish_job_def Some)
qed (simp add: finish_job_def)

lemma revoke_books: "books su s0 k s \<Longrightarrow> books su s0 k (snd (app_revoke_tokens pid clk s))"
proof -
  assume s: "books su s0 k s"
  have "db_bindings (snd (revoke_principal_tokens pid None clk db)) = db_bindings db" for db
    using retire_rows_rest
    by (auto simp: revoke_principal_tokens_def write_txn_def Let_def delete_tokens_def same_but_tokens_def split: sum.split option.split)
  then have "world_le (su_env su) w (snd (in_gate (revoke_principal_tokens pid None clk) w))" for w
    by (intro world_le_gate) (metis append_Nil2)
  from triple_after [OF in_world_books [OF this] s] s show ?thesis
    by (simp add: app_revoke_tokens_def on_service_def)
qed

lemma close_books: "books su s0 k s \<Longrightarrow> books su s0 k (close_app s)"
  by (erule books_frame) (simp_all add: close_app_def same_queue_def app_le_same_world)

lemma app_step_books: "books su s0 0 s \<Longrightarrow> books su s0 0 (app_step su s x)"
  by (cases x) (simp_all add: create_books pick_books enter_books finish_books revoke_books close_books)

interpretation app: invariant_machine "app_step su" "app_ok su 0" for su
proof
  fix s x
  assume "app_ok su 0 s"
  then have "books su s 0 s" by (simp add: books_def)
  from app_step_books [OF this, of x] show "app_ok su 0 (app_step su s x)" by (simp add: books_def)
qed

interpretation app_stores: monotone_machine "app_step su" "app_ok su 0" "app_le (su_env su)" for su
proof
  fix s x
  assume "app_ok su 0 s"
  then have "books su s 0 s" by (simp add: books_def)
  from app_step_books [OF this, of x] show "app_le (su_env su) s (app_step su s x)" by (simp add: books_def)
qed (auto intro: app_le_trans)

end
