(* ===== verification/App_Start.thy ===== *)
theory App_Start imports App_Operations begin

text \<open>The start of the application, and what every state that it reaches has in common.\<close>

section \<open>Start\<close>

lemma positive_limits_facts: "positive_limits su = Inr u \<Longrightarrow> 1 \<le> su_workers su \<and> 0 \<le> su_queue su"
  by (simp add: positive_limits_def result_simps)

lemma fresh_books:
  "council_good (wd_store w) \<Longrightarrow> 1 \<le> su_workers su \<Longrightarrow> books su (fresh_app su w) 0 (fresh_app su w)"
  by (simp add: books_def app_ok_def fresh_app_def jobs_ok_def queue_ok_def)

lemma listed_bound: "b \<in> set (list_run_bindings db) \<Longrightarrow> find_run db (bn_run b) \<noteq> None"
  by (auto simp: list_run_bindings_def mk_binding_def find_run_def row_where_None)

lemma recover_binding_books:
  assumes "books su s0 k s" and "find_run (service_of s) (bn_run b) \<noteq> None"
  shows "books su s0 k (recover_binding s b) \<and> at_world (recover_binding s b) = at_world s"
proof -
  have "at_world (queue_recovery p run s) = at_world s" for p run by (simp add: queue_recovery_def)
  moreover have "books su s0 k (queue_recovery p (bn_run b) s)" if "get_run (council_of s) (bn_run b) \<noteq> None" for p
    using that assms queue_books by (simp add: known_def get_run_def)
  ultimately show ?thesis using assms(1) by (auto simp: recover_binding_def split: option.split)
qed

lemma recover_all_books:
  "books su s0 k s \<Longrightarrow> \<forall>b\<in>set bs. find_run (service_of s) (bn_run b) \<noteq> None \<Longrightarrow>
   books su s0 k (foldl recover_binding s bs)"
proof (induction bs arbitrary: s)
  case (Cons b bs)
  then have "books su s0 k (recover_binding s b) \<and> at_world (recover_binding s b) = at_world s"
    by (intro recover_binding_books) simp_all
  with Cons show ?case by simp
qed simp

lemma recover_books: "books su s0 k s \<Longrightarrow> books su s0 k (snd (recover_runs su xi s))"
  unfolding recover_runs_def by (intro drain_keeps recover_all_books) (simp_all add: listed_bound)

lemma start_ok:
  assumes "start_service su si w = (Inr s, w')" and good: "council_good (wd_store w)"
  shows "app_ok su 0 s"
proof -
  have w: "1 \<le> su_workers su" using assms(1) positive_limits_facts [of su]
    by (cases "positive_limits su") (auto simp: start_service_def split: sum.splits)
  obtain w1 where w1: "in_gate (prepare_service su si (wd_store w)) w = (Inr (), w1)"
      and s: "s = fresh_app su w1 \<or> (\<exists>u. recover_runs su (si_app si) (fresh_app su w1) = (u, s))"
    using assms(1) by (auto simp: start_service_def split: sum.splits prod.splits if_splits)
  have "wd_store w1 = wd_store w" using w1 by (auto simp: in_gate_def split: prod.splits)
  then have "books su (fresh_app su w1) 0 (fresh_app su w1)" using fresh_books good w by simp
  with recover_books [OF this, of "si_app si"] s show ?thesis by (auto simp: books_def)
qed

lemma app_ok_facts:
  assumes "app_ok su 0 s"
  shows "at_slots s + length (at_jobs s) = capacity su"
    and "distinct (map jb_run (at_jobs s))" and "set (at_scheduled s) = jb_run ` set (at_jobs s)"
    and "int (busy_workers s) \<le> su_workers su"
    and "distinct (map snd (at_pending s))" and "snd ` set (at_pending s) \<inter> jb_run ` set (at_jobs s) = {}"
    and "length (filter (\<lambda>j. jb_phase j = JobExecuting \<and> pr_id (jb_principal j) = pid) (at_jobs s)) \<le> 1"
    and "run \<in> jb_run ` set (at_jobs s) \<union> snd ` set (at_pending s) \<Longrightarrow> known s run"
  using assms
  by (auto simp: app_ok_def jobs_ok_def queue_ok_def busy_workers_def executing_def [abs_def])

section \<open>The recovery queue moves\<close>

text \<open>Work is left in the queue only while every slot is taken.\<close>

definition saturated :: "service_app \<Rightarrow> bool" where
  "saturated s \<longleftrightarrow> at_closed s \<or> at_pending s = [] \<or> at_slots s = 0"

text \<open>An executor that takes every job.\<close>

definition accepting :: "app_inputs \<Rightarrow> bool" where
  "accepting xi \<longleftrightarrow> (\<forall>run. xi_accepts xi run)"

fun op_accepting :: "app_op \<Rightarrow> bool" where
  "op_accepting (AppCreate xi p q k) = accepting xi"
| "op_accepting (AppFinish xi ji run) = accepting xi"
| "op_accepting AppClose = False"
| "op_accepting _ = True"

lemma submit_pending_accepts:
  assumes "accepting xi" and "run \<notin> set (at_scheduled s)"
  shows "submit_pending su xi p run rest s = (Inr (), s\<lparr>at_slots := at_slots s - 1, at_pending := rest,
    at_pending_ids := removeAll run (at_pending_ids s), at_scheduled := run # at_scheduled s,
    at_jobs := at_jobs s @ [\<lparr>jb_principal = p, jb_run = run, jb_phase = JobQueued\<rparr>]\<rparr>)"
  using assms by (simp add: submit_pending_def on_error_def submit_acquired_def accepting_def)

text \<open>Draining fills the slots with the head of the queue.\<close>

lemma drain_accepts:
  assumes "accepting xi" and "books su s0 0 s"
  shows "\<exists>n s'. drain_pending su xi s = (Inr (), s') \<and> at_pending s' = drop n (at_pending s)
    \<and> set (at_scheduled s') = set (at_scheduled s) \<union> snd ` set (take n (at_pending s))
    \<and> saturated s' \<and> at_closed s' = at_closed s
    \<and> (at_closed s \<longrightarrow> n = 0) \<and> (at_slots s \<noteq> 0 \<and> \<not> at_closed s \<and> at_pending s \<noteq> [] \<longrightarrow> 0 < n)"
  using assms
proof (induction su xi s rule: drain_pending.induct)
  case (1 su xi s)
  show ?case
  proof (cases "at_closed s \<or> at_slots s = 0 \<or> at_pending s = []")
    case True
    then have "drain_pending su xi s = (Inr (), s)"
      by (auto simp: drain_pending.simps [of su xi s] split: list.split prod.split)
    with True show ?thesis by (intro exI [of _ 0] exI [of _ s]) (auto simp: saturated_def)
  next
    case False
    then obtain p run rest where q: "at_pending s = (p, run) # rest" by (metis list.exhaust prod.exhaust)
    have "run \<notin> set (at_scheduled s)" using 1(3) q by (auto simp: books_def app_ok_def queue_ok_def)
    note sub = submit_pending_accepts [OF 1(2) this, of su p rest]
    define t where "t = snd (submit_pending su xi p run rest s)"
    have t: "(Inr (), t) = submit_pending su xi p run rest s" by (simp add: t_def sub)
    have "books su s0 0 t" using submit_pending_books [OF 1(3) q] False by (simp add: t_def)
    with 1(1) [OF q refl _ t refl 1(2)] False
    obtain n s' where "drain_pending su xi t = (Inr (), s')" "at_pending s' = drop n (at_pending t)"
        "set (at_scheduled s') = set (at_scheduled t) \<union> snd ` set (take n (at_pending t))"
        "saturated s'" "at_closed s' = at_closed t"
      by auto
    moreover have "at_pending t = rest" "at_scheduled t = run # at_scheduled s" "at_closed t = at_closed s"
      by (simp_all add: t_def sub)
    moreover have "drain_pending su xi s = drain_pending su xi t"
      using False by (simp add: drain_pending.simps [of su xi s] q flip: t)
    ultimately show ?thesis using False q by (intro exI [of _ "Suc n"] exI [of _ s']) auto
  qed
qed

end
