(* ===== verification/App_Actions.thy ===== *)
theory App_Actions imports App_Start begin

text \<open>
  What the steps of an operation respect, the operation respects: an interface between the steps on
  slots and stores and the requests composed of them.
\<close>

section \<open>Dispatching a run\<close>

locale dispatching =
  fixes R :: "service_app \<Rightarrow> service_app \<Rightarrow> bool"
  assumes R_refl: "reflp R" and R_trans: "transp R"
    and keeps_status: "keeps R (on_council (set_run_status url run v err now))"
    and keeps_event: "keeps R (on_council (append_event shaj url run t payload now))"
    and keeps_engine: "keeps R (in_world (create_council_run rn q k rid uuid now))"
    and keeps_take: "keeps R take_slot" and keeps_give: "keeps R (give_slot su)"
    and keeps_submit: "keeps R (submit_acquired su xi p run)"
begin

lemma keeps_on_error:
  assumes m: "keeps R m" and c: "keeps R c"
  shows "keeps R (on_error m c)"
proof -
  have "R s (snd (on_error m c s))" for s
  proof -
    obtain r t where r: "m s = (r, t)" by fastforce
    obtain r' u where r': "c t = (r', u)" by fastforce
    have "R s t" "R t u" using m c r r' by (metis keeps_def snd_conv)+
    moreover from this have "R s u" using R_trans by (metis transpE)
    ultimately show ?thesis by (auto simp: on_error_def r r' split: sum.split)
  qed
  then show ?thesis by (simp add: keeps_def)
qed

lemma keeps_look: "(\<And>t. keeps R (f t)) \<Longrightarrow> keeps R (\<lambda>s. f s s)"
  by (simp add: keeps_def)

lemma keeps_if: "(c \<Longrightarrow> keeps R m) \<Longrightarrow> (\<not> c \<Longrightarrow> keeps R m') \<Longrightarrow> keeps R (\<lambda>s. if c then m s else m' s)"
  by (auto simp: keeps_def)

lemma keeps_suppress: "keeps R m \<Longrightarrow> keeps R (suppress m)"
  by (simp add: keeps_def suppress_def)

lemmas steps = keeps_sbind [OF R_trans] keeps_pure [OF R_refl] keeps_status keeps_event keeps_engine keeps_take keeps_give
  keeps_submit keeps_on_error

lemma keeps_queued: "keeps R (record_queued su xi p run typ)"
  unfolding record_queued_def by (intro steps)

lemma keeps_create: "keeps R (engine_create su xi p q run)"
  unfolding engine_create_def by (intro steps)

lemma keeps_repair: "keeps R (repair_binding su xi p q run)"
  unfolding repair_binding_def by (auto intro!: steps keeps_queued keeps_create)

lemma keeps_dispatch: "keeps R (dispatch_new su xi p q)"
  unfolding dispatch_new_def by (auto intro!: steps keeps_queued keeps_create)

lemma keeps_other: "keeps R (other_binding su b)"
proof -
  have "keeps R (\<lambda>s. sbind (sresult (f s)) (\<lambda>m. sbind (give_slot su) (\<lambda>_. sreturn (200, m))) s)"
    for f :: "service_app \<Rightarrow> jobj result"
    by (rule keeps_look) (intro steps)
  then show ?thesis by (auto simp: other_binding_def intro: steps)
qed

lemma keeps_failed: "keeps R (record_failed su ji run e)"
  unfolding record_failed_def by (rule keeps_suppress) (intro steps)

end

locale binding_actions = dispatching +
  assumes keeps_bind: "keeps R (on_service (bind_run pid k run payload tm clk))"
    and keeps_abandon: "keeps R (on_service (abandon_run_binding pid k run payload))"
begin

lemma keeps_undo: "keeps R (undo_binding su xi p k payload)"
proof -
  have "keeps R (\<lambda>s. if get_run (council_of s) (xi_uuid xi) = None
      then sbind (on_service (abandon_run_binding (pr_id p) k (xi_uuid xi) payload)) (\<lambda>_. sreturn ()) s
      else (Inr (), s))"
    by (rule keeps_look, rule keeps_if) (auto intro!: steps keeps_abandon)
  moreover have "keeps R (\<lambda>s. if get_run (council_of s) (xi_uuid xi) = None then (Inr (), s)
      else suppress (on_council (set_run_status (en_url (su_env su)) (xi_uuid xi) (JStr ''failed'')
           (ErrDict [(''message'', JStr ''Run dispatch failed safely'')]) (xi_now xi 3))) s)"
    by (rule keeps_look, rule keeps_if) (auto intro!: steps keeps_suppress)
  ultimately show ?thesis
    unfolding undo_binding_def by (intro keeps_sbind [OF R_trans])
qed

lemma keeps_new: "keeps R (new_binding su xi p q k payload)"
  unfolding new_binding_def
  by (auto intro!: steps keeps_bind keeps_undo keeps_dispatch keeps_other)

end

section \<open>What dispatching leaves alone\<close>

text \<open>The recovery queue.\<close>

definition queue_kept :: "service_app \<Rightarrow> service_app \<Rightarrow> bool" where
  "queue_kept s s' \<longleftrightarrow> at_pending s' = at_pending s \<and> at_closed s' = at_closed s"

lemma queue_kept_world: "keeps queue_kept (in_world m)"
  by (auto simp: keeps_def queue_kept_def in_world_def split: prod.split)

interpretation queue: binding_actions queue_kept
proof
  show "keeps queue_kept (submit_acquired su xi p run)" for su xi p run
    by (simp add: keeps_def queue_kept_def)
qed (auto simp: queue_kept_world on_council_def on_service_def keeps_def queue_kept_def take_slot_def give_slot_def
  in_world_def intro!: reflpI transpI split: prod.split)

text \<open>The service store.\<close>

definition service_kept :: "service_app \<Rightarrow> service_app \<Rightarrow> bool" where
  "service_kept s s' \<longleftrightarrow> service_of s' = service_of s"

lemma create_gate: "wd_gate (snd (create_council_run rn q k rid uuid now w)) = wd_gate w"
  by (auto simp: create_council_run_def Let_def sbind_def in_store_def split: prod.split sum.split)

interpretation service_db: dispatching service_kept
proof
  show "keeps service_kept (in_world (create_council_run rn q k rid uuid now))" for rn q k rid uuid now
    using create_gate [of rn q k rid uuid now]
    by (simp add: keeps_def service_kept_def in_world_def split: prod.split) (metis snd_conv)
  show "keeps service_kept (submit_acquired su xi p run)" for su xi p run
    by (auto simp: keeps_def service_kept_def submit_acquired_def sbind_def give_slot_def)
qed (auto simp: on_council_def keeps_def service_kept_def take_slot_def give_slot_def in_world_def in_store_def
  intro!: reflpI transpI split: prod.split)

text \<open>Every run has one owner.\<close>

definition single_owners :: "service_app \<Rightarrow> service_app \<Rightarrow> bool" where
  "single_owners s s' \<longleftrightarrow>
     (unique_on rb_run (db_bindings (service_of s)) \<longrightarrow> unique_on rb_run (db_bindings (service_of s')))"

lemma single_owners_same: "db_bindings (service_of s') = db_bindings (service_of s) \<Longrightarrow> single_owners s s'"
  by (simp add: single_owners_def)

lemma kept_single: "keeps service_kept m \<Longrightarrow> keeps single_owners m"
  by (auto simp: keeps_def service_kept_def intro: single_owners_same)

interpretation owners: binding_actions single_owners
proof
  show "reflp single_owners" "transp single_owners"
    by (auto simp: single_owners_def intro: reflpI transpI)
  show "keeps single_owners (on_service (bind_run pid k run payload tm clk))" for pid k run payload tm clk
    unfolding keeps_def
  proof
    fix s
    obtain r db' where b: "bind_run pid k run payload tm clk (service_of s) = (r, db')" by fastforce
    then have "unique_on rb_run (db_bindings (service_of s)) \<longrightarrow> unique_on rb_run (db_bindings db')"
    proof (cases rule: bind_cases)
      case (2 b row)
      have "rb_run row = run" using 2(5) by (metis binding_row.select_convs(1))
      with 2 show ?thesis by (simp add: unique_on_snoc find_run_def)
    qed simp
    then show "single_owners s (snd (on_service (bind_run pid k run payload tm clk) s))"
      by (simp add: single_owners_def on_service_def in_world_def in_gate_def b)
  qed
  show "keeps single_owners (on_service (abandon_run_binding pid k run payload))" for pid k run payload
    by (auto simp: keeps_def single_owners_def on_service_def in_world_def in_gate_def abandon_run_binding_def
        write_txn_def intro: unique_on_delete)
qed (intro kept_single service_db.keeps_status service_db.keeps_event service_db.keeps_engine service_db.keeps_take service_db.keeps_give
  service_db.keeps_submit)+

end
