(* ===== verification/App_Progress.thy ===== *)
theory App_Progress imports App_Actions begin

text \<open>A run in the recovery queue is scheduled once enough jobs have ended, in any order of operations.\<close>

section \<open>Creating runs and the queue\<close>

lemma create_outcomes:
  obtains "snd (app_create_run su xi p question key s) = s"
  | b :: run_binding and row :: run_row where "snd (app_create_run su xi p question key s) = snd (ensure_scheduled su xi p (bn_run b) (ru_status row) s)"
      and "find_run (service_of s) (bn_run b) \<noteq> None" and "get_run (council_of s) (bn_run b) = Some row"
  | q run where "snd (app_create_run su xi p question key s) = snd (repair_binding su xi p q run s)"
  | q k payload where "snd (app_create_run su xi p question key s) = snd (new_binding su xi p q k payload s)"
proof (cases "rbind (validate_question question) (\<lambda>q. rbind (validate_idempotency_key key) (\<lambda>k. Inr (q, k)))")
  case (Inl e)
  then show thesis by (intro that(1)) (auto simp: app_create_run_def sbind_def rbind_eq_Inl)
next
  case (Inr x)
  obtain q t where q: "validate_question question = Inr q" "validate_idempotency_key key = Inr t"
    using Inr by (auto simp: rbind_eq_Inr)
  let ?payload = "request_hash (en_shaj (su_env su)) q"
  obtain a where a: "authorize p RUN_CREATE (xi_clock xi 0) s = (a, s)" by (simp add: authorize_def)
  show thesis
  proof (cases "at_closed s \<or> isl a \<or> isl (find_run_binding (service_of s) (pr_id p) t ?payload)")
    case True
    then show thesis using q a
      by (intro that(1)) (auto simp: app_create_run_def Let_def sbind_def isl_def split: sum.split)
  next
    case False
    then obtain u y where u: "a = Inr u" and y: "find_run_binding (service_of s) (pr_id p) t ?payload = Inr y"
      by (cases a; cases "find_run_binding (service_of s) (pr_id p) t ?payload") auto
    have run: "snd (app_create_run su xi p question key s) = snd (case y of
           Some b \<Rightarrow> replay_binding su xi p q b s | None \<Rightarrow> new_binding su xi p q t ?payload s)"
      using q a u y False by (simp add: app_create_run_def Let_def sbind_def split: option.split)
    show thesis
    proof (cases y)
      case None
      then show thesis using run that(4) by simp
    next
      case (Some b)
      then obtain row where "find_key (service_of s) (pr_id p) t = Some row" "bn_run b = rb_run row"
        using find_binding_facts y by blast
      then have bound: "find_run (service_of s) (bn_run b) \<noteq> None" using key_bound by metis
      show thesis
      proof (cases "bn_code b = B_IDEMPOTENCY_CONFLICT")
        case True
        then show thesis using run Some by (intro that(1)) (simp add: replay_binding_def)
      next
        case False
        show thesis
        proof (cases "get_run (council_of s) (bn_run b)")
          case None
          then show thesis using run Some False that(3) by (simp add: replay_binding_def)
        next
          case (Some r)
          have "snd (replay_binding su xi p q b s) = snd (ensure_scheduled su xi p (bn_run b) (ru_status r) s)"
            using False Some by (simp add: replay_binding_def sbind_def split: prod.split sum.split)
          with run \<open>y = Some b\<close> bound Some show thesis by (intro that(2)) auto
        qed
      qed
    qed
  qed
qed

text \<open>Without a free slot, requests only lengthen the queue.\<close>

lemma full_take: "at_slots s = 0 \<Longrightarrow> take_slot s = (Inr False, s)"
  by (simp add: take_slot_def)

lemma create_full:
  assumes "at_slots s = 0"
  shows "\<exists>more. at_pending (snd (app_create_run su xi p question key s)) = at_pending s @ more
    \<and> at_slots (snd (app_create_run su xi p question key s)) = 0
    \<and> at_closed (snd (app_create_run su xi p question key s)) = at_closed s"
proof (cases rule: create_outcomes [of su xi p question key s])
  case (2 b row)
  have "drain_pending su xi t = (Inr (), t)" if "at_slots t = 0" for t
    using that by (simp add: drain_pending.simps [of su xi t] split: list.split prod.split)
  then show ?thesis using 2(1) assms
    by (simp add: ensure_scheduled_def queue_recovery_def)
qed (use assms full_take in \<open>auto simp: repair_binding_def new_binding_def sbind_def\<close>)

lemma ensure_saturated:
  assumes "accepting xi" and "books su s0 0 s" and "known s run" and "saturated s"
  shows "saturated (snd (ensure_scheduled su xi p run status s))
    \<and> at_closed (snd (ensure_scheduled su xi p run status s)) = at_closed s"
proof -
  have "books su s0 0 (queue_recovery p run s)" by (rule queue_books [OF assms(2,3)])
  from drain_accepts [OF assms(1) this] have "saturated (snd (drain_pending su xi (queue_recovery p run s)))
      \<and> at_closed (snd (drain_pending su xi (queue_recovery p run s))) = at_closed s"
    by (auto simp: queue_recovery_def)
  with assms(4) show ?thesis by (simp add: ensure_scheduled_def)
qed

lemma create_saturated:
  assumes "accepting xi" and ok: "app_ok su 0 s" and sat: "saturated s" and "\<not> at_closed s"
  shows "saturated (snd (app_create_run su xi p question key s))
    \<and> \<not> at_closed (snd (app_create_run su xi p question key s))"
proof (cases "at_slots s = 0")
  case True
  from create_full [OF this, of su xi p question key] assms(4) show ?thesis by (auto simp: saturated_def)
next
  case False
  then have none: "at_pending s = []" using sat assms(4) by (simp add: saturated_def)
  have kept: "saturated (snd (m s)) \<and> \<not> at_closed (snd (m s))" if "keeps queue_kept m" for m :: "(service_app, 'x) action"
    using that none assms(4) by (simp add: keeps_def queue_kept_def saturated_def)
  show ?thesis
  proof (cases rule: create_outcomes [of su xi p question key s])
    case (2 b row)
    then have "known s (bn_run b)" by (simp add: known_def get_run_def)
    moreover have "books su s 0 s" using ok by (simp add: books_def)
    ultimately show ?thesis using ensure_saturated [OF assms(1) _ _ sat] 2(1) assms(4) by simp
  next
    case 1
    then show ?thesis using sat assms(4) by simp
  next
    case (3 q run)
    then show ?thesis using kept [OF queue.keeps_repair] by simp
  next
    case (4 q k payload)
    then show ?thesis using kept [OF queue.keeps_new] by simp
  qed
qed

section \<open>Progress\<close>

definition ends_job :: "service_app \<Rightarrow> app_op \<Rightarrow> bool" where
  "ends_job s x = (case x of
     AppFinish xi ji run \<Rightarrow> list_ex (\<lambda>j. jb_run j = run \<and> jb_phase j = JobExecuting) (at_jobs s)
   | _ \<Rightarrow> False)"

fun ended_jobs :: "service_setup \<Rightarrow> service_app \<Rightarrow> app_op list \<Rightarrow> nat" where
  "ended_jobs su s [] = 0"
| "ended_jobs su s (x # xs) = (if ends_job s x then 1 else 0) + ended_jobs su (app_step su s x) xs"

definition waits_at :: "service_app \<Rightarrow> nat \<Rightarrow> string \<Rightarrow> bool" where
  "waits_at s i run \<longleftrightarrow> i < length (at_pending s) \<and> snd (at_pending s ! i) = run"

lemma execute_kept: "queue_kept s (snd (execute_run su ji p run s))"
proof -
  have r: "keeps queue_kept (resume_for su ji p run)"
    unfolding resume_for_def by (auto intro!: queue.steps queue_kept_world)
  obtain x t where x: "resume_for su ji p run s = (x, t)" by fastforce
  with r have "queue_kept s t" by (metis keeps_def snd_conv)
  then show ?thesis
    using queue.keeps_failed [unfolded keeps_def] transpD [OF queue.R_trans, of s t]
    by (cases x) (simp_all add: execute_run_def x)
qed

lemma finish_progress:
  assumes acc: "accepting xi" and ok: "app_ok su 0 s" and running: "\<not> at_closed s"
    and j: "find (\<lambda>j. jb_run j = run \<and> jb_phase j = JobExecuting) (at_jobs s) = Some j"
  shows "\<exists>n. at_pending (finish_job su xi ji run s) = drop n (at_pending s)
    \<and> snd ` set (take n (at_pending s)) \<subseteq> set (at_scheduled (finish_job su xi ji run s))
    \<and> saturated (finish_job su xi ji run s) \<and> \<not> at_closed (finish_job su xi ji run s)
    \<and> (at_pending s \<noteq> [] \<longrightarrow> 0 < n)"
proof -
  define e where "e = snd (execute_run su ji (jb_principal j) run s)"
  define t where "t = without_job run e"
  have b: "books su s 0 e" unfolding e_def by (rule execute_books) (simp add: books_def ok)
  have "at_jobs e = at_jobs s" unfolding e_def using execute_jobs by (simp add: same_queue_def)
  moreover have "j \<in> set (at_jobs s)" "jb_run j = run" using j by (auto simp: find_Some_iff)
  ultimately have t: "books su s (Suc 0) t" unfolding t_def using without_job_books [OF b] by simp
  then have "at_slots t < capacity su" by (simp add: books_def app_ok_def)
  then have give: "give_slot su t = (Inr (), t\<lparr>at_slots := Suc (at_slots t)\<rparr>)" by (simp add: give_slot_def)
  have "books su s 0 (t\<lparr>at_slots := Suc (at_slots t)\<rparr>)"
    using triple_after [OF give_back [of su s 0] t] by (simp add: give)
  from drain_accepts [OF acc this]
  obtain n s' where n: "drain_pending su xi (t\<lparr>at_slots := Suc (at_slots t)\<rparr>) = (Inr (), s')"
      "at_pending s' = drop n (at_pending t)" "snd ` set (take n (at_pending t)) \<subseteq> set (at_scheduled s')"
      "saturated s'" "at_closed s' = at_closed t" "\<not> at_closed t \<and> at_pending t \<noteq> [] \<longrightarrow> 0 < n"
    by auto
  have "finish_job su xi ji run s = s'"
    using n(1) give by (simp add: finish_job_def j release_job_def sbind_def t_def e_def without_job_def)
  moreover have "at_pending t = at_pending s" "at_closed t = at_closed s"
    using execute_kept [of s su ji "jb_principal j" run] by (simp_all add: t_def e_def without_job_def queue_kept_def)
  ultimately show ?thesis using n running by (intro exI [of _ n]) simp
qed

lemma step_progress:
  assumes acc: "op_accepting x" and ok: "app_ok su 0 s" and running: "\<not> at_closed s" and sat: "saturated s"
  shows "saturated (app_step su s x) \<and> \<not> at_closed (app_step su s x)
    \<and> (waits_at s i run \<longrightarrow> run \<in> set (at_scheduled (app_step su s x))
        \<or> (\<exists>j. waits_at (app_step su s x) j run \<and> j + (if ends_job s x then 1 else 0) \<le> i))"
proof (cases x)
  case (AppCreate xi p q k)
  have a: "accepting xi" using acc AppCreate by simp
  have "waits_at (app_step su s x) i run" if w: "waits_at s i run"
  proof -
    have "at_slots s = 0" using w sat running by (auto simp: saturated_def waits_at_def)
    from create_full [OF this, of su xi p q k] w show ?thesis
      by (auto simp: AppCreate waits_at_def nth_append)
  qed
  then show ?thesis using create_saturated [OF a ok sat running, of p q k] by (auto simp: AppCreate ends_job_def)
next
  case AppPick
  then show ?thesis using sat running
    by (auto simp: pick_job_def saturated_def waits_at_def ends_job_def)
next
  case (AppEnter r)
  then show ?thesis using sat running
    by (auto simp: enter_job_def saturated_def waits_at_def ends_job_def split: option.split)
next
  case (AppFinish xi ji r)
  have a: "accepting xi" using acc AppFinish by simp
  show ?thesis
  proof (cases "find (\<lambda>j. jb_run j = r \<and> jb_phase j = JobExecuting) (at_jobs s)")
    case None
    then have "\<not> ends_job s x" by (auto simp: AppFinish ends_job_def find_None_iff list_ex_iff)
    then show ?thesis using None sat running by (auto simp: AppFinish finish_job_def)
  next
    case (Some j)
    obtain n where n: "at_pending (finish_job su xi ji r s) = drop n (at_pending s)"
        "snd ` set (take n (at_pending s)) \<subseteq> set (at_scheduled (finish_job su xi ji r s))"
        "saturated (finish_job su xi ji r s)" "\<not> at_closed (finish_job su xi ji r s)" "at_pending s \<noteq> [] \<longrightarrow> 0 < n"
      using finish_progress [OF a ok running Some] by blast
    have "run \<in> set (at_scheduled (app_step su s x))
        \<or> (\<exists>j. waits_at (app_step su s x) j run \<and> j + (if ends_job s x then 1 else 0) \<le> i)" if w: "waits_at s i run"
    proof (cases "i < n")
      case True
      then have "at_pending s ! i \<in> set (take n (at_pending s))"
        using w by (auto simp: waits_at_def in_set_conv_nth intro!: exI [of _ i])
      then have "snd (at_pending s ! i) \<in> snd ` set (take n (at_pending s))" by blast
      with n(2) w show ?thesis by (auto simp: waits_at_def AppFinish)
    next
      case False
      then have "waits_at (app_step su s x) (i - n) run"
        using w n(1) diff_less_mono [of i "length (at_pending s)" n] by (simp add: waits_at_def AppFinish)
      moreover have "0 < n" using n(5) w by (auto simp: waits_at_def)
      ultimately show ?thesis using False by (intro disjI2 exI [of _ "i - n"]) auto
    qed
    then show ?thesis using n by (simp add: AppFinish)
  qed
next
  case (AppRevoke pid clk)
  have "queue_kept s (app_step su s x)"
    using queue_kept_world [of "in_gate (revoke_principal_tokens pid None clk)"]
    by (simp add: AppRevoke app_revoke_tokens_def on_service_def keeps_def queue_kept_def)
  moreover have "at_slots (app_step su s x) = at_slots s"
    by (simp add: AppRevoke app_revoke_tokens_def on_service_def in_world_def split: prod.split)
  ultimately show ?thesis using sat running
    by (auto simp: queue_kept_def saturated_def waits_at_def ends_job_def AppRevoke)
qed (use acc in simp)

lemma served_eventually:
  assumes "list_all op_accepting xs" and "app_ok su 0 s" and "\<not> at_closed s" and "saturated s"
    and "waits_at s i run" and "i < ended_jobs su s xs"
  shows "\<exists>n. run \<in> set (at_scheduled (app_run su s (take n xs)))"
  using assms
proof (induction xs arbitrary: s i)
  case (Cons x xs)
  have ok: "app_ok su 0 (app_step su s x)" using app.step_good Cons.prems(2) by blast
  from step_progress [OF _ Cons.prems(2,3,4), of x i run] Cons.prems(1,5)
  have step: "saturated (app_step su s x)" "\<not> at_closed (app_step su s x)"
      "run \<in> set (at_scheduled (app_step su s x))
        \<or> (\<exists>j. waits_at (app_step su s x) j run \<and> j + (if ends_job s x then 1 else 0) \<le> i)" by simp_all
  show ?case
  proof (cases "run \<in> set (at_scheduled (app_step su s x))")
    case True
    then show ?thesis by (intro exI [of _ 1]) (simp add: app_run_def)
  next
    case False
    then obtain j where j: "waits_at (app_step su s x) j run" "j + (if ends_job s x then 1 else 0) \<le> i"
      using step(3) by blast
    then have "j < ended_jobs su (app_step su s x) xs" using Cons.prems(6) by (auto split: if_splits)
    from Cons.IH [OF _ ok step(2,1) j(1) this] Cons.prems(1)
    obtain n where "run \<in> set (at_scheduled (app_run su (app_step su s x) (take n xs)))" by auto
    then show ?thesis by (intro exI [of _ "Suc n"]) (simp add: app_run_def)
  qed
qed simp

text \<open>A job can always be brought to its end.\<close>

lemma executing_ends:
  "list_ex (\<lambda>j. jb_phase j = JobExecuting) (at_jobs s) \<Longrightarrow> \<exists>run. ends_job s (AppFinish xi ji run)"
  by (auto simp: ends_job_def list_ex_iff)

lemma waiting_enters:
  assumes "list_ex (\<lambda>j. jb_phase j = JobWaiting) (at_jobs s)" and "\<not> list_ex (\<lambda>j. jb_phase j = JobExecuting) (at_jobs s)"
  shows "\<exists>run. list_ex (\<lambda>j. jb_phase j = JobExecuting) (at_jobs (enter_job run s))"
proof -
  obtain j where j: "j \<in> set (at_jobs s)" "jb_phase j = JobWaiting" using assms(1) by (auto simp: list_ex_iff)
  then obtain x where "find (\<lambda>x. jb_run x = jb_run j \<and> jb_phase x = JobWaiting) (at_jobs s) = Some x"
    by (metis (mono_tags, lifting) find_None_iff option.exhaust)
  moreover have "\<not> list_ex (\<lambda>y. jb_phase y = JobExecuting \<and> pr_id (jb_principal y) = pr_id (jb_principal x)) (at_jobs s)"
    using assms(2) by (auto simp: list_ex_iff)
  ultimately have "at_jobs (enter_job (jb_run j) s)
      = map (\<lambda>x. if jb_run x = jb_run j then x\<lparr>jb_phase := JobExecuting\<rparr> else x) (at_jobs s)"
    by (simp add: enter_job_def)
  then have "j\<lparr>jb_phase := JobExecuting\<rparr> \<in> set (at_jobs (enter_job (jb_run j) s))" using j(1) by force
  then have "\<exists>x\<in>set (at_jobs (enter_job (jb_run j) s)). jb_phase x = JobExecuting" by (rule bexI [rotated]) simp
  then show ?thesis by (intro exI [of _ "jb_run j"]) (simp add: list_ex_iff)
qed

lemma queued_picked:
  assumes "at_jobs s \<noteq> []" and "\<forall>j\<in>set (at_jobs s). jb_phase j = JobQueued" and "1 \<le> su_workers su"
  shows "list_ex (\<lambda>j. jb_phase j = JobWaiting) (at_jobs (pick_job su s))"
    "\<not> list_ex (\<lambda>j. jb_phase j = JobExecuting) (at_jobs (pick_job su s))"
proof -
  obtain j js where js: "at_jobs s = j # js" using assms(1) by (cases "at_jobs s") auto
  have "busy_workers s = 0" using assms(2) by (simp add: busy_workers_def filter_empty_conv)
  then show "list_ex (\<lambda>j. jb_phase j = JobWaiting) (at_jobs (pick_job su s))"
    "\<not> list_ex (\<lambda>j. jb_phase j = JobExecuting) (at_jobs (pick_job su s))"
    using assms(2,3) by (auto simp: pick_job_def js list_ex_iff)
qed

lemma job_ends:
  assumes "at_jobs s \<noteq> []" and w: "1 \<le> su_workers su"
  shows "\<exists>before run. length before \<le> 2 \<and> set before \<subseteq> insert AppPick (range AppEnter)
    \<and> ends_job (app_run su s before) (AppFinish xi ji run)"
proof -
  have enter: "\<exists>r run. ends_job (enter_job r t) (AppFinish xi ji run)"
    if "list_ex (\<lambda>j. jb_phase j = JobWaiting) (at_jobs t)" "\<not> list_ex (\<lambda>j. jb_phase j = JobExecuting) (at_jobs t)" for t
    using waiting_enters [OF that] executing_ends by blast
  show ?thesis
  proof (cases "list_ex (\<lambda>j. jb_phase j = JobExecuting) (at_jobs s)")
    case True
    then obtain run where "ends_job s (AppFinish xi ji run)" using executing_ends by blast
    then show ?thesis by (intro exI [of _ "[]"] exI [of _ run]) (simp add: app_run_def)
  next
    case idle: False
    show ?thesis
    proof (cases "list_ex (\<lambda>j. jb_phase j = JobWaiting) (at_jobs s)")
      case True
      then obtain r run where "ends_job (enter_job r s) (AppFinish xi ji run)" using enter idle by blast
      then show ?thesis by (intro exI [of _ "[AppEnter r]"] exI [of _ run]) (auto simp: app_run_def)
    next
      case False
      have "jb_phase j = JobQueued" if "j \<in> set (at_jobs s)" for j
        using that idle False by (cases "jb_phase j") (auto simp: list_ex_iff)
      then obtain r run where "ends_job (enter_job r (pick_job su s)) (AppFinish xi ji run)"
        using queued_picked [OF assms(1) _ w] enter by blast
      then show ?thesis by (intro exI [of _ "[AppPick, AppEnter r]"] exI [of _ run]) (auto simp: app_run_def)
    qed
  qed
qed

lemma start_saturated:
  assumes "start_service su si w = (Inr s, w')" and good: "council_good (wd_store w)" and acc: "accepting (si_app si)"
  shows "saturated s \<and> \<not> at_closed s \<and> 1 \<le> su_workers su"
proof -
  have w: "1 \<le> su_workers su" using assms(1) positive_limits_facts [of su]
    by (cases "positive_limits su") (auto simp: start_service_def split: sum.splits)
  obtain w1 where w1: "in_gate (prepare_service su si (wd_store w)) w = (Inr (), w1)"
      and s: "s = fresh_app su w1 \<or> (\<exists>u. recover_runs su (si_app si) (fresh_app su w1) = (u, s))"
    using assms(1) by (auto simp: start_service_def split: sum.splits prod.splits if_splits)
  have "wd_store w1 = wd_store w" using w1 by (auto simp: in_gate_def split: prod.splits)
  then have b: "books su (fresh_app su w1) 0 (fresh_app su w1)" using fresh_books good w by simp
  let ?r = "foldl recover_binding (fresh_app su w1) (list_run_bindings (service_of (fresh_app su w1)))"
  have "books su (fresh_app su w1) 0 ?r"
    by (rule recover_all_books [OF b]) (simp add: listed_bound)
  moreover have "at_closed (foldl recover_binding t bs) = at_closed t" for t bs
    by (induction bs arbitrary: t) (auto simp: recover_binding_def queue_recovery_def split: option.split)
  ultimately have "saturated (snd (drain_pending su (si_app si) ?r)) \<and> \<not> at_closed (snd (drain_pending su (si_app si) ?r))"
    using drain_accepts [OF acc, of su "fresh_app su w1" ?r] by (auto simp: fresh_app_def)
  moreover have "saturated (fresh_app su w1) \<and> \<not> at_closed (fresh_app su w1)"
    by (simp add: fresh_app_def saturated_def)
  ultimately show ?thesis using s w by (auto simp: recover_runs_def)
qed

lemma run_saturated:
  "list_all op_accepting xs \<Longrightarrow> app_ok su 0 s \<Longrightarrow> \<not> at_closed s \<Longrightarrow> saturated s \<Longrightarrow>
   saturated (app_run su s xs) \<and> \<not> at_closed (app_run su s xs)"
proof (induction xs arbitrary: s)
  case (Cons x xs)
  then show ?case using step_progress [of x su s] app.step_good [of su s x] by (simp add: app_run_def)
qed (simp add: app_run_def)

end
