(* ===== verification/App_Properties.thy ===== *)
theory App_Properties imports App_Progress begin

text \<open>The properties of the service application.\<close>

section \<open>An example\<close>

text \<open>A service with one mock seat, one worker and no queue, over stores that hold two unfinished runs of
  two principals.\<close>

definition demo_setup :: service_setup where
  "demo_setup = \<lparr>su_config = \<lparr>ac_providers = [mock_provider 1], ac_policy = default_policy, ac_synthesis = ''mock-1'',
       ac_data_dir = ''d'', ac_fallbacks = []\<rparr>,
     su_env = \<lparr>en_sha = (\<lambda>s. s), en_shaj = (\<lambda>_. ''h''), en_url = (\<lambda>_. (False, []))\<rparr>,
     su_codec = plan_codec, su_conv = ce_conv plain_env, su_shuffle = (\<lambda>_ xs. xs), su_fresh = (\<lambda>_ _. ''0123456789abcdef''),
     su_url = (\<lambda>_. Inr \<lparr>up_scheme = ''http'', up_host = Some ''localhost'', up_port = Inr None, up_user = None,
       up_password = None\<rparr>),
     su_workers = 1, su_queue = 0, su_daily = 10, su_monthly = 10, su_tokens = [], su_recover = True\<rparr>"

definition demo_run :: "string \<Rightarrow> council_op" where
  "demo_run run = CreateRun (JStr run) (JStr ''independent-jury'') (JStr ''1.3.0-beta'') (JStr ''h'')
     (JList [JObj [(''name'', JStr ''mock-1'')]]) (JObj []) None None run 1"

definition demo_one :: string where "demo_one = ''00000000-0000-4000-8000-000000000001''"

definition demo_two :: string where "demo_two = ''00000000-0000-4000-8000-000000000002''"

definition demo_bindings :: "binding_row list" where
  "demo_bindings =
     [\<lparr>rb_run = demo_one, rb_principal = ''mini-a-agent'', rb_key = ''k1'', rb_payload = ''h'', rb_created = 1\<rparr>,
      \<lparr>rb_run = demo_two, rb_principal = ''mini-b-agent'', rb_key = ''k2'', rb_payload = ''h'', rb_created = 2\<rparr>]"

definition demo_history :: "council_op list" where
  "demo_history = [demo_run demo_one, demo_run demo_two]"

definition demo_world :: "service_db world" where
  "demo_world = \<lparr>wd_store = council_run (su_env demo_setup) empty_council_db demo_history,
     wd_gate = empty_service_db\<lparr>db_bindings := demo_bindings\<rparr>, wd_calls = []\<rparr>"

definition demo_inputs :: app_inputs where
  "demo_inputs = \<lparr>xi_now = (\<lambda>_. 5), xi_clock = (\<lambda>_. policy_issued_at), xi_uuid = ''u'', xi_accepts = (\<lambda>_. True)\<rparr>"

definition demo_start :: start_inputs where
  "demo_start = \<lparr>si_free = True, si_marker = True, si_marker_link = False, si_wall = 5, si_app = demo_inputs\<rparr>"

lemma demo_started:
  "case start_service demo_setup demo_start demo_world of
     (Inr s, _) \<Rightarrow> at_scheduled s = [demo_one] \<and> map snd (at_pending s) = [demo_two] \<and> at_slots s = 0
   | _ \<Rightarrow> False"
  by code_simp

definition demo_app :: service_app where
  "demo_app = (case start_service demo_setup demo_start demo_world of (Inr s, _) \<Rightarrow> s
     | _ \<Rightarrow> fresh_app demo_setup demo_world)"

lemma demo_begins: "\<exists>w. start_service demo_setup demo_start demo_world = (Inr demo_app, w)"
  using demo_started by (auto simp: demo_app_def split: prod.splits sum.splits)

lemma demo_facts:
  "at_scheduled demo_app = [demo_one]" "map snd (at_pending demo_app) = [demo_two]" "at_slots demo_app = 0"
  using demo_started by (auto simp: demo_app_def split: prod.splits sum.splits)

lemma demo_reach: "wd_store demo_world = council_run (su_env demo_setup) empty_council_db demo_history"
  by (simp add: demo_world_def)

lemma reachable_app:
  assumes "wd_store w = council_run (su_env su) empty_council_db before" and "start_service su si w = (Inr s0, w')"
  shows "app_ok su 0 (app_run su s0 ops)"
proof -
  have "council_good (wd_store w)"
    unfolding assms(1) council_run_def by (rule council.run_good [OF empty_council_good])
  from app.run_good [OF start_ok [OF assms(2) this]] show ?thesis by (simp add: app_run_def)
qed

section \<open>Bounded work\<close>

text \<open>C12: The service never has more work in hand than its capacity, and its books agree.  In every state
  that requests, workers, recoveries, revocations and the shutdown reach from a start, the free slots
  and the jobs together are \<open>max_workers + max_queue\<close>; no run has two jobs, and the scheduled runs are
  exactly those with a job; at most \<open>max_workers\<close> jobs have a worker and at most one job of a principal
  executes; a run that waits for recovery has no job, waits once, is stored and is bound to an owner.\<close>

theorem service_slots_conserved:
  assumes reach: "wd_store w = council_run (su_env su) empty_council_db before"
    and start: "start_service su si w = (Inr s0, w')" and s: "s = app_run su s0 ops"
  shows "at_slots s + length (at_jobs s) = capacity su
    \<and> distinct (map jb_run (at_jobs s)) \<and> set (at_scheduled s) = jb_run ` set (at_jobs s)
    \<and> int (busy_workers s) \<le> su_workers su
    \<and> (\<forall>pid. length (filter (\<lambda>j. jb_phase j = JobExecuting \<and> pr_id (jb_principal j) = pid) (at_jobs s)) \<le> 1)
    \<and> distinct (map snd (at_pending s)) \<and> snd ` set (at_pending s) \<inter> jb_run ` set (at_jobs s) = {}
    \<and> (\<forall>run\<in>jb_run ` set (at_jobs s) \<union> snd ` set (at_pending s). known s run)"
proof -
  have ok: "app_ok su 0 s" unfolding s by (rule reachable_app [OF reach start])
  show ?thesis by (intro conjI allI ballI app_ok_facts [OF ok])
qed

theorem service_slots_conserved_witness:
  "at_slots (app_run demo_setup demo_app [AppPick]) + length (at_jobs (app_run demo_setup demo_app [AppPick])) = 1"
proof -
  obtain w where "start_service demo_setup demo_start demo_world = (Inr demo_app, w)" using demo_begins by blast
  from service_slots_conserved [OF demo_reach this refl, of "[AppPick]"] show ?thesis
    by (simp add: capacity_def demo_setup_def)
qed

text \<open>C13: A run that waits for recovery is not forgotten.  While the executor takes jobs and the service is
  not shut down, a run at position \<open>i\<close> of the recovery queue is scheduled as soon as \<open>i + 1\<close> jobs have
  ended, whatever requests and other operations come in between; and a job can be ended at any time
  while the run waits, after at most two steps of the workers.\<close>

theorem pending_run_served:
  assumes reach: "wd_store w = council_run (su_env su) empty_council_db before"
    and start: "start_service su si w = (Inr s0, w')" "accepting (si_app si)"
    and ops: "list_all op_accepting ops" and s: "s = app_run su s0 ops" and waits: "waits_at s i run"
  shows "(list_all op_accepting later \<longrightarrow> i < ended_jobs su s later \<longrightarrow>
      (\<exists>n. run \<in> set (at_scheduled (app_run su s (take n later)))))
    \<and> (\<exists>steps job. length steps \<le> 2 \<and> set steps \<subseteq> insert AppPick (range AppEnter)
        \<and> ends_job (app_run su s steps) (AppFinish xi ji job))"
proof -
  have good: "council_good (wd_store w)"
    unfolding reach council_run_def by (rule council.run_good [OF empty_council_good])
  note s0 = start_ok [OF start(1) good] start_saturated [OF start(1) good start(2)]
  have ok: "app_ok su 0 s" unfolding s by (rule reachable_app [OF reach start(1)])
  have live: "saturated s" "\<not> at_closed s" using run_saturated [OF ops s0(1)] s0(2) by (simp_all add: s)
  have "at_slots s = 0" "at_pending s \<noteq> []" using live waits by (auto simp: saturated_def waits_at_def)
  moreover have "0 < capacity su" using start(1) positive_limits_facts [of su]
    by (cases "positive_limits su") (auto simp: start_service_def capacity_def)
  ultimately have "at_jobs s \<noteq> []" using app_ok_facts(1) [OF ok] by auto
  from job_ends [OF this] s0(2) served_eventually [OF _ ok live(2,1) waits, of later] show ?thesis by blast
qed

text \<open>The first run fails at once, since another process holds its lock.\<close>

definition demo_steps :: "app_op list" where
  "demo_steps = [AppPick, AppEnter demo_one, AppFinish demo_inputs
     \<lparr>ji_run = judged_inputs, ji_free = False, ji_now = (\<lambda>_. 6)\<rparr> demo_one]"

lemma demo_ends: "ended_jobs demo_setup demo_app demo_steps = 1"
  by code_simp

theorem pending_run_served_witness:
  "\<exists>n. demo_two \<in> set (at_scheduled (app_run demo_setup demo_app (take n demo_steps)))"
proof -
  obtain w where start: "start_service demo_setup demo_start demo_world = (Inr demo_app, w)" using demo_begins by blast
  have acc: "accepting (si_app demo_start)" by (simp add: accepting_def demo_start_def demo_inputs_def)
  have none: "list_all op_accepting []" by simp
  have waits: "waits_at (app_run demo_setup demo_app []) 0 demo_two"
    using demo_facts(2) by (auto simp: waits_at_def app_run_def map_eq_Cons_conv)
  have "list_all op_accepting demo_steps" by (simp add: demo_steps_def accepting_def demo_inputs_def)
  moreover have "app_run demo_setup demo_app [] = demo_app" by (simp add: app_run_def)
  ultimately show ?thesis
    using pending_run_served [OF demo_reach start acc none refl waits, of demo_steps] demo_ends by simp
qed

end
