(* ===== verification/Spec2Isabelle.thy ===== *)
theory Spec2Isabelle
  imports Policy_Properties Service_Properties Jury_Properties Council_Properties Engine_Properties
    Protocol_Properties Approval_Properties App_Properties
begin

text \<open>
  A verification development for CouncilLogic (\<open>src/src/model_council\<close>): a program that asks several
  model providers the same question, lets them judge each other's answers, aggregates the judgments,
  and keeps an audit trail, a budget and the human approval of the outcome.

  \<^bold>\<open>The program and its model.\<close>

  \<^item> \<open>config.py\<close>: \<open>Config_Values\<close> (typed fields from untyped values), \<open>Config\<close> (seats, model identity,
    the lineage report) and \<open>Config_Load\<close> (the validation of providers, policies and whole
    configurations).  Laws in \<open>Config_Laws\<close>, properties in \<open>Config_Properties\<close>.
  \<^item> \<open>models.py\<close>, the values that cross the provider boundary: \<open>Models\<close>.
  \<^item> \<open>protocol.py\<close>: \<open>Json_Value\<close> and \<open>Json_Text\<close> (Python values of JSON shape and the text they
    serialize to), \<open>Jury_Protocol\<close> (validators, Borda aggregation, the re-count without self votes),
    \<open>Prompt_Texts\<close> and \<open>Protocol_Prompts\<close> (the prompts and their delimiters), \<open>Protocol_Text\<close> (reading
    a JSON object out of an answer, the check of a synthesis).  Laws in \<open>Jury_Laws\<close> and
    \<open>Prompt_Laws\<close>, properties in \<open>Jury_Properties\<close> and \<open>Protocol_Properties\<close>.
  \<^item> \<open>workload.py\<close>, the projected sizes of the prompts of a run: \<open>Workload\<close>, \<open>Workload_Properties\<close>.
  \<^item> \<open>approval.py\<close>, the plan of a run, its fingerprint and the approval tokens: \<open>Approval\<close>,
    \<open>Approval_Properties\<close>.
  \<^item> \<open>store.py\<close>, the audit store: \<open>Council_Types\<close> (canonical JSON, the credential screen, the
    tables \<open>council_db\<close>) and \<open>Council_Store\<close> (runs, events, invocations, approvals, decisions, agent
    requests).  Laws in \<open>Council_Laws\<close> and \<open>Council_Ledgers\<close>, properties in \<open>Council_Properties\<close>.
  \<^item> \<open>engine.py\<close>, one stage of a run with its provider calls: \<open>Engine_Types\<close>, \<open>Engine_Stage\<close> (what
    the store already knows of each provider, prompt size, call budget), \<open>Engine_Calls\<close> (a single
    call as a state machine, the thread pool, the intake of finished calls), \<open>Engine_Run\<close> (a pass, the
    recovery pass, the stage).  Laws in \<open>Engine_Laws\<close>, \<open>Engine_Pool\<close>, \<open>Engine_Intake\<close>,
    \<open>Engine_Passes\<close>, \<open>Engine_Rounds\<close> and \<open>Engine_Progress\<close>, properties in \<open>Engine_Properties\<close>.
  \<^item> \<open>engine.py\<close>, a run: \<open>Run_Locks\<close> (what a run has fixed, as events), \<open>Run_Fallback\<close> (the chain of
    synthesizers), \<open>Run_Juries\<close> (judgments and the repair of their prose), \<open>Run_Result\<close> (the result
    document) and \<open>Run_Engine\<close> (\<open>create_run\<close>, \<open>resume\<close>).  Laws in \<open>Run_Laws\<close>, \<open>Run_Moves\<close> and
    \<open>Run_Endings\<close>, on the Hoare logic of \<open>Action_Logic\<close>; properties in \<open>Run_Properties\<close>.
  \<^item> \<open>run_lock.py\<close>, the locks between processes, with their properties: \<open>Run_Lock\<close>.
  \<^item> \<open>access_policy.py\<close>, an in-memory authorization and budget ledger: \<open>Access_Types\<close> (value objects
    and their validation, \<open>principal\<close>, \<open>mandate\<close>, \<open>auth_request\<close>, \<dots>) and \<open>Policy_Core\<close> (the state
    \<open>policy_core\<close> with the fields of \<open>PolicyCore.__init__\<close>, one definition per public operation).
    Laws in \<open>Policy_Laws\<close>, properties in \<open>Policy_Properties\<close>.
  \<^item> \<open>service_store.py\<close>, the durable counterpart: \<open>Service_Types\<close> (codes, value objects, one row
    record per table, \<open>service_db\<close>) and \<open>Service_Store\<close> (one definition per operation of
    \<open>ServiceStore\<close>).  Each writing operation is one transaction (\<open>write_txn\<close>): an exception leaves
    the tables as they were.  Laws in \<open>Service_Laws\<close> and \<open>Service_Ledgers\<close>, properties in
    \<open>Service_Properties\<close>.
  \<^item> \<open>service.py\<close>: \<open>Service_Gate\<close> (\<open>DurableCallGate\<close>, the call gate of the engine over the service
    store), \<open>App_Requests\<close> (what a request may contain) and \<open>App_Core\<close> (\<open>CouncilApplication\<close>: slots,
    scheduled runs, the recovery queue, the executor).  A job of the service is submitted in one step
    and takes its effect when it ends, in any order.  Laws in \<open>Gate_Frame\<close>, \<open>App_Laws\<close>,
    \<open>App_Scheduling\<close>, \<open>App_Creation\<close>, \<open>App_Operations\<close>, \<open>App_Start\<close>, \<open>App_Actions\<close> and
    \<open>App_Progress\<close>, properties in \<open>App_Properties\<close>.

  \<^bold>\<open>How the parts interact.\<close>  The engine works on a \<open>world\<close>: the audit store, the state of its call
  gate and the log of prompts that reached a provider.  A run is a sequence of stages on that world;
  what it must not decide twice it writes as events, and reads back when it is resumed.  The gate is
  an interface: \<open>call_ledger\<close> states what a gate promises of every admitted call, \<open>Service_Gate\<close>
  proves the promise for the durable gate over the service store, and \<open>stage_calls_are_reserved\<close>
  composes it with the stage.  The service application schedules resumptions and holds a slot for
  each.  \<open>Py_Text\<close>, \<open>Py_Time\<close>, \<open>Json_Value\<close> and \<open>Prelude\<close> are what the components share: Python's
  strings and datetimes, dictionaries as association lists in insertion order, the result of an
  operation as \<open>error + value\<close>, and the machine contracts (locales) of \<open>Prelude\<close>, which the
  components interpret on their own operations.

  \<^bold>\<open>What the lemmas show.\<close>  Of a stage: its calls stay within budget and pool width, come back, are
  on record and are accounted for, and the answers it reports are the answers the store holds.  Of a
  run: what it returns is what it stored, the answer is the text of the synthesizer that succeeded,
  its locks are permanent, and a call whose outcome is unknown is never repeated, by whatever stages
  and resumptions follow (\<open>outcome_unknown\<close>, \<open>still_unknown\<close> and the relation \<open>continues\<close>).  Of the
  ledgers: exactly which calls they admit, and that commitments stay within their caps along every
  run, up to what settled calls reported above their reservations.  Of the audit store: answers,
  decisions and consumed approvals are permanent.  Of the protocol: which judgments validate, that
  the aggregation is a Borda count that ignores order, and that nobody can forge a delimiter.  Of
  configuration, approval and service: a loaded configuration is well formed, a token fits one plan,
  and no slot is lost.

  \<^bold>\<open>Conventions.\<close>  An exception is \<open>Inl\<close> of an error; the exception's class is its constructor.  What
  the program reads from outside is an argument: clock readings, fresh identifiers, digests (\<open>sha\<close>
  and \<open>shaj\<close> for SHA-256 of a text and of a JSON value), the parsed parts of a URL, the decoder of
  JSON texts, what providers and the gate answer.  Where a property needs a law of one of these (that
  the digest has no collision on the texts at hand, say) the law is a hypothesis of the property.
  Decimal amounts are exact rationals: the rounding of \<open>decimal\<close> sums beyond 28 digits is not
  modelled.  The JSON decoder fails only with the errors that its callers catch (\<open>JSONDecodeError\<close>,
  \<open>ValueError\<close>).  A datetime is its wall clock reading with an optional offset.

  \<^bold>\<open>Concurrency and bounds.\<close>  The thread pool of a stage is run by a schedule, a list of ticks; each
  tick moves one call by one step (begin, reserve, dispatch, take in) with the clock readings and
  answers of that step.  That the pool never runs more calls than \<open>max_workers\<close> is the guarantee of
  \<open>ThreadPoolExecutor\<close> and a guard of the step (\<open>may_start\<close>); the program's part is the number it
  passes.  A schedule that ends before all calls came back makes the stage answer \<open>None\<close>; properties
  of a stage hold for every schedule, and \<open>stage_calls_terminate\<close> shows that four moves per call, in
  any order that \<open>pool_can_finish\<close> allows, are enough.  There is no other fuel in the development:
  every other loop is structural or has a measure.

  \<^bold>\<open>Not modelled.\<close>  SQL text, schema migrations, file permissions and connections; the wire formats
  and transport of the providers; the HTTP front end of the service and its remote client; the JSON
  interface for agents and the MCP server, which dispatch requests to the operations above; key
  storage; the command line.  The manifest lists each part with its reason.
\<close>

end
